(* ===== verification/Prelude.thy ===== *)
theory Prelude
  imports Complex_Main "HOL-Library.AList"
begin

text \<open>
  What every component of the trading system shares: the values of Python that have no
  direct HOL counterpart (clock readings, exceptions, f-string messages, dictionaries that
  remember insertion order) and the generic lemmas about them.

  \<^item> A \<open>datetime\<close> in UTC is the number of microseconds since the epoch and a \<open>timedelta\<close>
    a number of microseconds (\<open>micros\<close>): both are exact in Python.  A reading of
    \<open>time.time()\<close> or \<open>time.monotonic()\<close> is a float (\<open>secs\<close>).  Every operation that reads a
    clock takes the reading as an argument.
  \<^item> An f-string is its template together with the interpolated values (\<open>fmsg\<close>); the
    rendering of the values into characters is not modelled.  Characters outside ASCII in a
    template are written with ASCII ones.
  \<^item> A raised exception is the left value of a sum (\<open>py_error + 'a\<close>).
  \<^item> A dictionary whose iteration order the code relies on is an association list with
    distinct keys: \<open>AList.update\<close> overwrites in place and appends a new key, as \<open>d[k] = v\<close>
    does; \<open>AList.delete\<close> is \<open>del d[k]\<close>; \<open>map_of\<close> is \<open>d.get(k)\<close>.
\<close>

section \<open>Clocks, messages and exceptions\<close>

type_synonym micros = int
type_synonym secs = rat

definition seconds :: "int \<Rightarrow> micros" where
  "seconds n = n * 1000000"

definition minutes :: "int \<Rightarrow> micros" where
  "minutes n = n * 60000000"

definition hours :: "int \<Rightarrow> micros" where
  "hours n = n * 3600000000"

text \<open>\<open>now.replace(hour=0, minute=0, second=0, microsecond=0)\<close>\<close>

definition midnight :: "micros \<Rightarrow> micros" where
  "midnight t = t - t mod 86400000000"

text \<open>An f-string may interpolate another message or an exception.\<close>

datatype farg = FNum rat | FStr string | FInt int | FText fmsg | FExc py_error

and fmsg = FMsg string "farg list"

and py_error =
    ValueError string
  | RuntimeError string
  | ZeroDivisionError
  | DecimalInvalidOperation
  | DecimalDivisionByZero
  | OrderValidationError fmsg
  | OrderExecutionError fmsg
  | ExternalError string
  | AttributeError string
  | TypeError string
  | KeyError string
  | HttpError string
  | IGConnectionError fmsg
  | RateLimitError fmsg
  | HFTLatencyRejectionError fmsg
  | IGAuthenticationError fmsg
  | IndexError string
  | TimeoutError
  | TradingSystemError fmsg

section \<open>Sequencing of operations that may raise\<close>

definition bindE :: "'e + 'a \<Rightarrow> ('a \<Rightarrow> 'e + 'b) \<Rightarrow> 'e + 'b" where
  "bindE m f = (case m of Inl e \<Rightarrow> Inl e | Inr a \<Rightarrow> f a)"

lemma bindE_simps [simp]:
  "bindE (Inl e) f = Inl e"
  "bindE (Inr a) f = f a"
  by (simp_all add: bindE_def)

lemma bindE_Inr_iff: "bindE m f = Inr b \<longleftrightarrow> (\<exists>a. m = Inr a \<and> f a = Inr b)"
  by (cases m) auto

lemma bindE_split:
  "P (bindE m f) \<longleftrightarrow> (\<forall>e. m = Inl e \<longrightarrow> P (Inl e)) \<and> (\<forall>a. m = Inr a \<longrightarrow> P (f a))"
  by (cases m) auto

lemma bindE_split_asm:
  "P (bindE m f) \<longleftrightarrow> \<not> ((\<exists>e. m = Inl e \<and> \<not> P (Inl e)) \<or> (\<exists>a. m = Inr a \<and> \<not> P (f a)))"
  by (cases m) auto

lemmas bindE_splits = bindE_split bindE_split_asm

section \<open>Lists\<close>

text \<open>\<open>xs[-n:]\<close> for a positive \<open>n\<close>\<close>

definition take_last :: "nat \<Rightarrow> 'a list \<Rightarrow> 'a list" where
  "take_last n xs = drop (length xs - n) xs"

lemma length_take_last [simp]: "length (take_last n xs) = min n (length xs)"
  by (simp add: take_last_def)

lemma take_last_all: "length xs \<le> n \<Longrightarrow> take_last n xs = xs"
  by (simp add: take_last_def)

lemma set_take_last: "set (take_last n xs) \<subseteq> set xs"
  by (simp add: take_last_def set_drop_subset)

lemma midnight_le: "midnight t \<le> t"
  by (simp add: midnight_def)

lemma midnight_mono: "s \<le> t \<Longrightarrow> midnight s \<le> midnight t"
proof -
  assume "s \<le> t"
  then have "s div 86400000000 \<le> t div 86400000000" by (rule zdiv_mono1) simp
  then show ?thesis
    by (simp add: midnight_def minus_mod_eq_mult_div [symmetric] minus_mod_eq_div_mult)
qed

lemma midnight_idem [simp]: "midnight (midnight t) = midnight t"
  by (simp add: midnight_def mod_diff_left_eq [symmetric])

section \<open>Dictionaries in insertion order\<close>

type_synonym ('k, 'v) dict = "('k \<times> 'v) list"

definition dict_ok :: "('k, 'v) dict \<Rightarrow> bool" where
  "dict_ok d \<longleftrightarrow> distinct (map fst d)"

lemma dict_ok_Nil [simp]: "dict_ok []"
  by (simp add: dict_ok_def)

lemma dict_ok_update [simp]: "dict_ok d \<Longrightarrow> dict_ok (AList.update k v d)"
  by (simp add: dict_ok_def distinct_update)

lemma dict_ok_delete [simp]: "dict_ok d \<Longrightarrow> dict_ok (AList.delete k d)"
  by (simp add: dict_ok_def distinct_delete)

lemma map_of_update [simp]: "map_of (AList.update k v d) = (map_of d)(k \<mapsto> v)"
  by (rule update_conv')

lemma map_of_delete [simp]: "map_of (AList.delete k d) = (map_of d)(k := None)"
  by (rule delete_conv')

lemma map_of_map_entry: "map_of (AList.map_entry k f xs) = (map_of xs)(k := map_option f (map_of xs k))"
  by (simp add: AList.map_of_map_entry map_option_case)

lemma dict_ok_map_entry [simp]: "dict_ok d \<Longrightarrow> dict_ok (AList.map_entry k f d)"
  by (simp add: dict_ok_def AList.distinct_map_entry)

lemma map_of_Some_update:
  "map_of (AList.update k v d) k' = (if k' = k then Some v else map_of d k')"
  by simp

lemma list_all_update: "list_all P d \<Longrightarrow> P (k, v) \<Longrightarrow> list_all P (AList.update k v d)"
  by (induction d) auto

lemma list_all_map_entry:
  "list_all (\<lambda>(k, v). P v) d \<Longrightarrow> (\<And>v. map_of d k = Some v \<Longrightarrow> P v \<Longrightarrow> P (f v)) \<Longrightarrow>
     list_all (\<lambda>(k, v). P v) (AList.map_entry k f d)"
  by (induction d) auto

section \<open>Values that only ever improve\<close>

text \<open>
  The contract of a one-way update: whatever the event, the new value is at least as good as
  the old one.  Stops that trail a price and the peak of the equity curve are of this kind.
\<close>

locale ratchet =
  fixes better :: "'s \<Rightarrow> 's \<Rightarrow> bool"
    and upd :: "'e \<Rightarrow> 's \<Rightarrow> 's"
  assumes better_refl: "better s s"
    and better_trans: "better s t \<Longrightarrow> better t u \<Longrightarrow> better s u"
    and upd_better: "better s (upd e s)"
begin

lemma run_better: "better s (fold upd es s)"
proof (induction es arbitrary: s)
  case Nil
  show ?case by (simp add: better_refl)
next
  case (Cons e es)
  have "better s (upd e s)" by (rule upd_better)
  moreover have "better (upd e s) (fold upd es (upd e s))" by (rule Cons.IH)
  ultimately show ?case by (simp add: better_trans)
qed

lemma prefix_better: "better (fold upd es s) (fold upd (es @ es') s)"
  by (simp add: run_better)

end

end
