(* ===== verification/Py_Numeric.thy ===== *)
theory Py_Numeric
  imports Prelude
begin

text \<open>
  The two number types of the program.  A \<open>decimal.Decimal\<close> under the default context and a
  binary64 \<open>float\<close> are rationals; every arithmetic operation rounds its exact result to 28
  significant decimal digits, respectively 53 significant binary digits, half to even, as the
  language does.  Comparisons are exact.  Values are finite: NaN and the infinities, the
  subnormal range and the overflow of the exponent are outside the model (a rational of any
  magnitude has a rounding here), and so is the sign of zero.

  Both roundings satisfy one contract, the locale \<open>rounding\<close>: monotone, idempotent, odd, exact
  at 1 and within a relative error \<open>u\<close>.  The lemmas the components use about sums, products
  and folds of rounded numbers are proved once inside it and used through the interpretations
  \<open>dec\<close> and \<open>flt\<close>.
\<close>

section \<open>Rounding to a number of significant digits\<close>

definition round_half_even :: "rat \<Rightarrow> int" where
  "round_half_even x =
     (let f = \<lfloor>x\<rfloor>; r = x - of_int f in
      if r < 1/2 then f else if 1/2 < r then f + 1 else if even f then f else f + 1)"

text \<open>The number of digits of a positive integer in base \<open>b\<close>.\<close>

function ndigits :: "int \<Rightarrow> int \<Rightarrow> nat" where
  "ndigits b n = (if n < 1 \<or> b < 2 then 0 else Suc (ndigits b (n div b)))"
  by pat_completeness auto
termination
proof (relation "measure (\<lambda>(b, n). nat n)")
  fix b n :: int
  assume "\<not> (n < 1 \<or> b < 2)"
  then have "1 \<le> n" "2 \<le> b" by auto
  then have "n div b < n" by (intro int_div_less_self) auto
  then show "((b, n div b), (b, n)) \<in> measure (\<lambda>(b, n). nat n)"
    using \<open>1 \<le> n\<close> by simp
qed simp

declare ndigits.simps [simp del]

lemma ndigits_bounds:
  "2 \<le> b \<Longrightarrow> 1 \<le> n \<Longrightarrow>
     0 < ndigits b n \<and> b ^ (ndigits b n - 1) \<le> n \<and> n < b ^ ndigits b n"
proof (induction b n rule: ndigits.induct)
  case (1 b n)
  have eq: "ndigits b n = Suc (ndigits b (n div b))"
    using "1.prems" by (subst ndigits.simps) simp
  show ?case
  proof (cases "n < b")
    case True
    then have "n div b = 0" using "1.prems" by simp
    then have "ndigits b n = 1" by (simp add: eq ndigits.simps[of b 0])
    then show ?thesis using True "1.prems" by simp
  next
    case False
    define k where "k = ndigits b (n div b)"
    have "1 \<le> n div b" using zdiv_mono1[of b n b] False "1.prems" by simp
    then have IH: "0 < k" "b ^ (k - 1) \<le> n div b" "n div b < b ^ k"
      using "1.IH" "1.prems" by (auto simp: k_def)
    have n: "n = b * (n div b) + n mod b" and r: "0 \<le> n mod b" "n mod b < b"
      using "1.prems" by auto
    have "b * b ^ (k - 1) \<le> b * (n div b)" using IH(2) "1.prems" by (intro mult_left_mono) auto
    moreover have "b * b ^ (k - 1) = b ^ k" using IH(1) by (cases k) auto
    ultimately have lo: "b ^ k \<le> n" using n r by linarith
    have "b * (n div b + 1) \<le> b * b ^ k" using IH(3) "1.prems" by (intro mult_left_mono) auto
    then have "b * (n div b) + b \<le> b * b ^ k" by (simp add: distrib_left)
    then have "n < b * b ^ k" using n r(2) by linarith
    then show ?thesis using lo by (simp add: eq k_def[symmetric])
  qed
qed

definition sig_exp :: "nat \<Rightarrow> rat \<Rightarrow> int" where
  "sig_exp b x =
     (let (n, d) = quotient_of x;
          k = int (ndigits (int b) n) - int (ndigits (int b) d)
      in if of_nat b powi k \<le> x then k else k - 1)"

definition sig_ulp :: "nat \<Rightarrow> nat \<Rightarrow> rat \<Rightarrow> rat" where
  "sig_ulp b p x = of_nat b powi (sig_exp b \<bar>x\<bar> + 1 - int p)"

text \<open>Powers are evaluated on integers.\<close>

definition pow_rat :: "nat \<Rightarrow> int \<Rightarrow> rat" where
  "pow_rat b k = of_nat b powi k"

lemma pow_rat_code [code]:
  "pow_rat b k = (if 0 \<le> k then of_int (int b ^ nat k) else 1 / of_int (int b ^ nat (- k)))"
  by (simp add: pow_rat_def power_int_def power_inverse divide_inverse)

lemma sig_exp_code [code]:
  "sig_exp b x =
     (let (n, d) = quotient_of x;
          k = int (ndigits (int b) n) - int (ndigits (int b) d)
      in if pow_rat b k \<le> x then k else k - 1)"
  by (simp add: sig_exp_def pow_rat_def)

lemma sig_ulp_code [code]: "sig_ulp b p x = pow_rat b (sig_exp b \<bar>x\<bar> + 1 - int p)"
  by (simp add: sig_ulp_def pow_rat_def)

definition round_sig :: "nat \<Rightarrow> nat \<Rightarrow> rat \<Rightarrow> rat" where
  "round_sig b p x =
     (if x = 0 then 0 else of_int (round_half_even (x / sig_ulp b p x)) * sig_ulp b p x)"

lemma round_half_even_mono: "x \<le> y \<Longrightarrow> round_half_even x \<le> round_half_even y"
proof -
  assume xy: "x \<le> y"
  then have fl: "\<lfloor>x\<rfloor> \<le> \<lfloor>y\<rfloor>" by (rule floor_mono)
  show ?thesis
  proof (cases "\<lfloor>x\<rfloor> = \<lfloor>y\<rfloor>")
    case True
    with xy show ?thesis by (auto simp: round_half_even_def Let_def)
  next
    case False
    with fl have "\<lfloor>x\<rfloor> + 1 \<le> \<lfloor>y\<rfloor>" by simp
    moreover have "round_half_even x \<le> \<lfloor>x\<rfloor> + 1" by (simp add: round_half_even_def Let_def)
    moreover have "\<lfloor>y\<rfloor> \<le> round_half_even y" by (simp add: round_half_even_def Let_def)
    ultimately show ?thesis by linarith
  qed
qed

lemma round_half_even_of_int [simp]: "round_half_even (of_int n) = n"
  by (simp add: round_half_even_def)

lemma round_half_even_err: "\<bar>of_int (round_half_even x) - x\<bar> \<le> 1/2"
  by (auto simp: round_half_even_def Let_def abs_if) linarith+

lemma round_half_even_minus: "round_half_even (- x) = - round_half_even x"
proof (cases "x \<in> \<int>")
  case True
  then obtain n where "x = of_int n" by (auto elim: Ints_cases)
  then show ?thesis using round_half_even_of_int[of "-n"] by simp
next
  case False
  then have c: "\<lceil>x\<rceil> = \<lfloor>x\<rfloor> + 1"
    by (simp add: ceiling_altdef) (metis Ints_of_int)
  then have "\<lfloor>-x\<rfloor> = - \<lfloor>x\<rfloor> - 1" by (simp add: floor_minus)
  then show ?thesis by (auto simp: round_half_even_def Let_def)
qed

lemma sig_exp_bounds:
  assumes "0 < x" and b: "2 \<le> b"
  shows "of_nat b powi sig_exp b x \<le> x" and "x < of_nat b powi (sig_exp b x + 1)"
proof -
  obtain n d where q: "quotient_of x = (n, d)" by (cases "quotient_of x")
  have d: "0 < d" using q by (rule quotient_of_denom_pos)
  have x: "x = of_int n / of_int d" using q by (rule quotient_of_div)
  have n: "0 < n" using assms(1) d x by (simp add: zero_less_divide_iff)
  let ?b = "of_nat b :: rat"
  have b0: "0 < ?b" "?b \<noteq> 0" using b by auto
  define ln where "ln = ndigits (int b) n"
  define ld where "ld = ndigits (int b) d"
  have powi: "0 < k \<Longrightarrow> ?b powi (int k - 1) = of_int (int b ^ (k - 1))" for k
    by (simp add: power_int_def nat_diff_distrib')
  have powi': "?b powi int k = of_int (int b ^ k)" for k by (simp add: power_int_def)
  have nb: "0 < ln" "int b ^ (ln - 1) \<le> n" "n < int b ^ ln"
    using ndigits_bounds[of "int b" n] n b by (auto simp: ln_def)
  have db: "0 < ld" "int b ^ (ld - 1) \<le> d" "d < int b ^ ld"
    using ndigits_bounds[of "int b" d] d b by (auto simp: ld_def)
  have n1: "?b powi (int ln - 1) \<le> of_int n" and n2: "of_int n < ?b powi int ln"
    using nb by (simp_all only: powi[OF nb(1)] powi' of_int_le_iff of_int_less_iff)
  have d1: "?b powi (int ld - 1) \<le> of_int d" and d2: "of_int d < ?b powi int ld"
    using db by (simp_all only: powi[OF db(1)] powi' of_int_le_iff of_int_less_iff)
  define k where "k = int ln - int ld"
  have up: "x < ?b powi (k + 1)"
  proof -
    have "of_int n / of_int d < ?b powi int ln / ?b powi (int ld - 1)"
      using n d n2 d1 b0 by (intro frac_less) auto
    also have "\<dots> = ?b powi (int ln - (int ld - 1))"
      using b0(2) by (subst power_int_diff) auto
    also have "int ln - (int ld - 1) = k + 1" by (simp add: k_def)
    finally show ?thesis by (simp add: x)
  qed
  have lo: "?b powi (k - 1) < x"
  proof -
    have "k - 1 = (int ln - 1) - int ld" by (simp add: k_def)
    then have "?b powi (k - 1) = ?b powi (int ln - 1) / ?b powi int ld"
      using b0(2) by (auto simp: power_int_diff)
    also have "\<dots> < of_int n / of_int d"
      using n d n1 d2 b0 by (intro frac_less2) auto
    finally show ?thesis by (simp add: x)
  qed
  have e: "sig_exp b x = (if ?b powi k \<le> x then k else k - 1)"
    by (simp add: sig_exp_def q k_def ln_def ld_def)
  show "?b powi sig_exp b x \<le> x" using lo by (auto simp: e)
  show "x < ?b powi (sig_exp b x + 1)" using up by (auto simp: e)
qed

lemma sig_exp_mono:
  assumes "0 < x" "x \<le> y" "2 \<le> b"
  shows "sig_exp b x \<le> sig_exp b y"
proof (rule ccontr)
  let ?b = "of_nat b :: rat"
  assume "\<not> ?thesis"
  then have "sig_exp b y + 1 \<le> sig_exp b x" by simp
  then have "?b powi (sig_exp b y + 1) \<le> ?b powi sig_exp b x"
    using assms(3) by (intro power_int_increasing) auto
  also have "\<dots> \<le> x" using assms by (intro sig_exp_bounds)
  also have "\<dots> < ?b powi (sig_exp b y + 1)"
    using assms sig_exp_bounds(2)[of y b] by simp
  finally show False by simp
qed

lemma sig_ulp_pos: "2 \<le> b \<Longrightarrow> 0 < sig_ulp b p x"
  by (simp add: sig_ulp_def)

lemma powi_nat_int: "0 \<le> k \<Longrightarrow> (of_nat b :: rat) powi k = of_int (int b ^ nat k)"
  by (simp add: power_int_def)

lemma round_sig_exact:
  assumes b: "2 \<le> b" and p: "1 \<le> p" and m: "\<bar>m\<bar> \<le> int b ^ p"
  shows "round_sig b p (of_int m * of_nat b powi k) = of_int m * of_nat b powi k"
proof (cases "m = 0")
  case True then show ?thesis by (simp add: round_sig_def)
next
  case False
  let ?b = "of_nat b :: rat"
  have b0: "0 < ?b" "1 < ?b" using b by auto
  define x where "x = of_int m * ?b powi k"
  have x0: "x \<noteq> 0" using False b0 by (auto simp: x_def)
  have ax: "\<bar>x\<bar> = of_int \<bar>m\<bar> * ?b powi k" using b0 by (simp add: x_def abs_mult)
  define e where "e = sig_exp b \<bar>x\<bar>"
  have e1: "?b powi e \<le> \<bar>x\<bar>"
    using sig_exp_bounds(1)[of "\<bar>x\<bar>" b] x0 b by (simp add: e_def)
  have "\<exists>n::int. x = of_int n * ?b powi (e + 1 - int p)"
  proof (cases "e + 1 - int p \<le> k")
    case True
    define j where "j = k - (e + 1 - int p)"
    have j: "0 \<le> j" using True by (simp add: j_def)
    have "?b powi k = ?b powi j * ?b powi (e + 1 - int p)"
      using b0 by (simp add: j_def power_int_add[symmetric])
    then have "x = of_int (m * int b ^ nat j) * ?b powi (e + 1 - int p)"
      using j by (simp add: x_def powi_nat_int)
    then show ?thesis by blast
  next
    case F: False
    have "?b powi e \<le> of_int \<bar>m\<bar> * ?b powi k" using e1 ax by simp
    then have "?b powi (e - k) \<le> of_int \<bar>m\<bar>"
      using b0 by (simp add: power_int_diff field_simps)
    moreover have "?b powi int p \<le> ?b powi (e - k)"
      using F b0 by (intro power_int_increasing) auto
    moreover have mb: "of_int \<bar>m\<bar> \<le> ?b powi int p"
      using m by (simp add: power_int_def) (metis of_int_le_iff of_int_of_nat_eq of_int_power of_int_abs)
    ultimately have eq: "?b powi (e - k) = ?b powi int p" and am: "of_int \<bar>m\<bar> = ?b powi int p" by auto
    have ek: "e - k = int p"
    proof (rule ccontr)
      assume "e - k \<noteq> int p"
      with F have "int p < e - k" by linarith
      then have "?b powi int p < ?b powi (e - k)" using b0(2) by (rule power_int_strict_increasing)
      with eq show False by simp
    qed
    have "?b powi e = ?b powi (int p + k)" using ek by (simp add: algebra_simps)
    also have "\<dots> = ?b powi int p * ?b powi k" using b0 by (simp add: power_int_add)
    finally have "\<bar>x\<bar> = ?b powi e" using ax am by simp
    also have "\<dots> = ?b powi (int p - 1) * ?b powi (e + 1 - int p)"
      using b0 by (simp add: power_int_add[symmetric])
    also have "?b powi (int p - 1) = of_int (int b ^ nat (int p - 1))"
      using p by (simp add: powi_nat_int)
    finally have "\<bar>x\<bar> = of_int (int b ^ nat (int p - 1)) * ?b powi (e + 1 - int p)" .
    then show ?thesis
      by (cases "0 \<le> x") (auto intro: exI[of _ "int b ^ nat (int p - 1)"] exI[of _ "- (int b ^ nat (int p - 1))"] simp: abs_if split: if_splits)
  qed
  then obtain n :: int where n: "x = of_int n * ?b powi (e + 1 - int p)" ..
  have u: "sig_ulp b p x = ?b powi (e + 1 - int p)" by (simp add: sig_ulp_def e_def)
  have "x / sig_ulp b p x = of_int n" using b0 by (subst n) (simp add: u)
  then have "round_half_even (x / sig_ulp b p x) = n" by simp
  then have "round_sig b p x = of_int n * ?b powi (e + 1 - int p)" using x0 by (simp add: round_sig_def u)
  then have "round_sig b p x = x" by (simp only: n[symmetric])
  then show ?thesis by (simp add: x_def)
qed

lemma round_sig_form:
  assumes b: "2 \<le> b" and p: "1 \<le> p"
  shows "\<exists>m k. round_sig b p x = of_int m * of_nat b powi k \<and> \<bar>m\<bar> \<le> int b ^ p"
proof (cases "x = 0")
  case True then show ?thesis by (auto simp: round_sig_def intro: exI[of _ 0])
next
  case False
  let ?b = "of_nat b :: rat"
  have b0: "0 < ?b" "1 < ?b" using b by auto
  define e where "e = sig_exp b \<bar>x\<bar>"
  define q where "q = sig_ulp b p x"
  have q: "q = ?b powi (e + 1 - int p)" "0 < q" using b0 by (auto simp: q_def e_def sig_ulp_def)
  have "\<bar>x\<bar> < ?b powi (e + 1)" using sig_exp_bounds(2)[of "\<bar>x\<bar>" b] False b by (simp add: e_def)
  also have "\<dots> = of_int (int b ^ p) * q"
    using b0 by (simp add: q power_int_diff power_int_def[of ?b "int p"])
  finally have "\<bar>x\<bar> < of_int (int b ^ p) * q" .
  then have ub: "x / q \<le> of_int (int b ^ p)" "of_int (- (int b ^ p)) \<le> x / q"
    using q(2) by (auto simp: field_simps abs_if split: if_splits)
  have "round_half_even (x / q) \<le> int b ^ p" "- (int b ^ p) \<le> round_half_even (x / q)"
    using round_half_even_mono[OF ub(1)] round_half_even_mono[OF ub(2)] by (simp_all only: round_half_even_of_int)
  then have "\<bar>round_half_even (x / q)\<bar> \<le> int b ^ p" by simp
  then show ?thesis using False q(1) by (auto simp: round_sig_def q_def[symmetric])
qed

lemma round_sig_idem: "2 \<le> b \<Longrightarrow> 1 \<le> p \<Longrightarrow> round_sig b p (round_sig b p x) = round_sig b p x"
  using round_sig_form[of b p x] round_sig_exact[of b p] by metis

lemma round_sig_minus: "round_sig b p (- x) = - round_sig b p x"
  by (simp add: round_sig_def sig_ulp_def round_half_even_minus)

lemma round_sig_0 [simp]: "round_sig b p 0 = 0"
  by (simp add: round_sig_def)

lemma round_sig_nonneg:
  assumes "0 \<le> x" "2 \<le> b" shows "0 \<le> round_sig b p x"
proof (cases "x = 0")
  case False
  have "0 \<le> x / sig_ulp b p x" using assms sig_ulp_pos[of b p x] by simp
  then have "0 \<le> round_half_even (x / sig_ulp b p x)" using round_half_even_mono[of 0] round_half_even_of_int[of 0] by simp
  then show ?thesis using sig_ulp_pos[of b p x] assms by (simp add: round_sig_def)
qed simp

lemma round_sig_binade:
  assumes "0 < x" "2 \<le> b" "1 \<le> p"
  shows "of_nat b powi sig_exp b x \<le> round_sig b p x"
    and "round_sig b p x \<le> of_nat b powi (sig_exp b x + 1)"
proof -
  let ?b = "of_nat b :: rat"
  have b0: "0 < ?b" "1 < ?b" using assms by auto
  define e where "e = sig_exp b x"
  define q where "q = sig_ulp b p x"
  have q: "q = ?b powi (e + 1 - int p)" "0 < q" using b0 assms(1) by (auto simp: q_def e_def sig_ulp_def)
  have bd: "?b powi e \<le> x" "x < ?b powi (e + 1)" using sig_exp_bounds[of x b] assms by (auto simp: e_def)
  have lo: "?b powi e = of_int (int b ^ (p - 1)) * q"
  proof -
    have "e = int (p - 1) + (e + 1 - int p)" using assms(3) by simp
    then have "?b powi e = ?b powi int (p - 1) * ?b powi (e + 1 - int p)"
      using b0 by (metis power_int_add order_less_irrefl)
    then show ?thesis by (simp add: q)
  qed
  have hi: "?b powi (e + 1) = of_int (int b ^ p) * q"
    using b0 by (simp add: q power_int_diff power_int_def[of ?b "int p"])
  have "of_int (int b ^ (p - 1)) \<le> x / q" "x / q \<le> of_int (int b ^ p)"
    using bd q(2) unfolding lo hi by (simp_all only: pos_le_divide_eq pos_divide_le_eq) 
  then have r: "int b ^ (p - 1) \<le> round_half_even (x / q)" "round_half_even (x / q) \<le> int b ^ p"
    using round_half_even_mono round_half_even_of_int by metis+
  have rs: "round_sig b p x = of_int (round_half_even (x / q)) * q"
    using assms(1) by (simp add: round_sig_def q_def)
  show "?b powi e \<le> round_sig b p x" "round_sig b p x \<le> ?b powi (e + 1)"
    unfolding rs lo hi using r q(2) by (simp_all only: mult_le_cancel_right of_int_le_iff) auto
qed

lemma round_sig_mono_pos:
  assumes "0 < x" "x \<le> y" "2 \<le> b" "1 \<le> p"
  shows "round_sig b p x \<le> round_sig b p y"
proof (cases "sig_exp b x = sig_exp b y")
  case True
  then have u: "sig_ulp b p x = sig_ulp b p y" using assms by (simp add: sig_ulp_def)
  have "x / sig_ulp b p y \<le> y / sig_ulp b p y"
    using assms sig_ulp_pos[of b p y] by (simp add: divide_right_mono)
  then have "round_half_even (x / sig_ulp b p y) \<le> round_half_even (y / sig_ulp b p y)"
    by (rule round_half_even_mono)
  then show ?thesis using assms sig_ulp_pos[of b p y]
    by (simp add: round_sig_def u)
next
  case False
  let ?b = "of_nat b :: rat"
  have "sig_exp b x + 1 \<le> sig_exp b y" using False sig_exp_mono[of x y b] assms by simp
  then have "?b powi (sig_exp b x + 1) \<le> ?b powi sig_exp b y"
    using assms by (intro power_int_increasing) auto
  then show ?thesis
    using round_sig_binade(2)[of x b p] round_sig_binade(1)[of y b p] assms by linarith
qed

lemma round_sig_mono:
  assumes "x \<le> y" "2 \<le> b" "1 \<le> p"
  shows "round_sig b p x \<le> round_sig b p y"
proof -
  consider "0 < x" | "x \<le> 0" "0 \<le> y" | "y < 0" by linarith
  then show ?thesis
  proof cases
    case 1 then show ?thesis using assms by (intro round_sig_mono_pos)
  next
    case 2
    have "0 \<le> round_sig b p (- x)" "0 \<le> round_sig b p y"
      using 2 assms by (auto intro: round_sig_nonneg)
    then show ?thesis by (simp add: round_sig_minus)
  next
    case 3
    have "round_sig b p (- y) \<le> round_sig b p (- x)"
      using 3 assms by (intro round_sig_mono_pos) auto
    then show ?thesis by (simp add: round_sig_minus)
  qed
qed

lemma round_sig_err:
  assumes "2 \<le> b" "1 \<le> p"
  shows "\<bar>round_sig b p x - x\<bar> \<le> of_nat b powi (1 - int p) / 2 * \<bar>x\<bar>"
proof (cases "x = 0")
  case False
  let ?b = "of_nat b :: rat"
  have b0: "0 < ?b" using assms by simp
  define q where "q = sig_ulp b p x"
  have q0: "0 < q" using assms by (simp add: q_def sig_ulp_pos)
  have "\<bar>of_int (round_half_even (x / q)) * q - x\<bar> = \<bar>of_int (round_half_even (x / q)) - x / q\<bar> * q"
    using q0 by (simp add: abs_mult_pos left_diff_distrib)
  also have "\<dots> \<le> 1/2 * q" using q0 round_half_even_err[of "x / q"] by (intro mult_right_mono) auto
  also have "1/2 * q = 1/2 * (?b powi sig_exp b \<bar>x\<bar> * ?b powi (1 - int p))"
  proof -
    have "sig_exp b \<bar>x\<bar> + 1 - int p = sig_exp b \<bar>x\<bar> + (1 - int p)" by simp
    then show ?thesis using b0 power_int_add[of ?b "sig_exp b \<bar>x\<bar>" "1 - int p"]
      by (simp add: q_def sig_ulp_def add_diff_eq)
  qed
  also have "1/2 * (?b powi sig_exp b \<bar>x\<bar> * ?b powi (1 - int p)) \<le> 1/2 * (\<bar>x\<bar> * ?b powi (1 - int p))"
    using sig_exp_bounds(1)[of "\<bar>x\<bar>" b] False assms b0
    by (intro mult_left_mono mult_right_mono) auto
  finally show ?thesis using False by (simp add: round_sig_def q_def[symmetric] mult.commute)
qed simp

section \<open>The contract of a rounded arithmetic\<close>

locale rounding =
  fixes rnd :: "rat \<Rightarrow> rat" and u :: rat
  assumes rnd_mono: "x \<le> y \<Longrightarrow> rnd x \<le> rnd y"
    and rnd_idem [simp]: "rnd (rnd x) = rnd x"
    and rnd_minus: "rnd (- x) = - rnd x"
    and rnd_one [simp]: "rnd 1 = 1"
    and rnd_err: "\<bar>rnd x - x\<bar> \<le> u * \<bar>x\<bar>"
    and u_nonneg: "0 \<le> u" and u_small: "u < 1"
begin

lemma rnd_zero [simp]: "rnd 0 = 0"
  using rnd_err[of 0] by simp

lemma rnd_nonneg: "0 \<le> x \<Longrightarrow> 0 \<le> rnd x"
  using rnd_mono[of 0 x] by simp

lemma rnd_nonpos: "x \<le> 0 \<Longrightarrow> rnd x \<le> 0"
  using rnd_mono[of x 0] by simp

lemma rnd_pos: assumes "0 < x" shows "0 < rnd x"
proof -
  have "u * x < 1 * x" using u_small assms by (rule mult_strict_right_mono)
  moreover have "\<bar>rnd x - x\<bar> \<le> u * x" using rnd_err[of x] assms by simp
  ultimately show ?thesis by linarith
qed

lemma rnd_neg: "x < 0 \<Longrightarrow> rnd x < 0"
  using rnd_pos[of "- x"] by (simp add: rnd_minus)

lemma rnd_pos_iff [simp]: "0 < rnd x \<longleftrightarrow> 0 < x"
  using rnd_pos[of x] rnd_nonpos[of x] by fastforce

lemma rnd_nonneg_iff [simp]: "0 \<le> rnd x \<longleftrightarrow> 0 \<le> x"
  using rnd_nonneg[of x] rnd_neg[of x] by fastforce

lemma rnd_neg_iff [simp]: "rnd x < 0 \<longleftrightarrow> x < 0"
  using rnd_nonneg_iff[of x] by linarith

lemma rnd_nonpos_iff [simp]: "rnd x \<le> 0 \<longleftrightarrow> x \<le> 0"
  using rnd_pos_iff[of x] by linarith

lemma rnd_eq_0_iff [simp]: "rnd x = 0 \<longleftrightarrow> x = 0"
  using rnd_pos_iff[of x] rnd_neg_iff[of x] by (metis linorder_neqE_linordered_idom order_less_irrefl rnd_zero)

lemma rnd_abs [simp]: "\<bar>rnd x\<bar> = rnd \<bar>x\<bar>"
  by (cases "0 \<le> x") (auto simp: abs_if rnd_minus)

lemma rnd_le_rep: "rnd y = y \<Longrightarrow> x \<le> y \<Longrightarrow> rnd x \<le> y"
  using rnd_mono[of x y] by simp

lemma rnd_ge_rep: "rnd y = y \<Longrightarrow> y \<le> x \<Longrightarrow> y \<le> rnd x"
  using rnd_mono[of y x] by simp

lemma rnd_upper: assumes "0 \<le> x" shows "rnd x \<le> (1 + u) * x"
proof -
  have "rnd x \<le> x + u * x" using rnd_err[of x] assms by simp
  then show ?thesis by (simp add: distrib_right)
qed

lemma rnd_lower: assumes "0 \<le> x" shows "(1 - u) * x \<le> rnd x"
proof -
  have "x - u * x \<le> rnd x" using rnd_err[of x] assms by simp
  then show ?thesis by (simp add: left_diff_distrib)
qed

text \<open>Adding or subtracting a non-negative amount never moves a representable value the wrong
  way, and scaling by a factor of at most one never enlarges it.\<close>

lemma rnd_add_ge: "rnd a = a \<Longrightarrow> 0 \<le> b \<Longrightarrow> a \<le> rnd (a + b)"
  by (rule rnd_ge_rep) simp_all

lemma rnd_diff_le: "rnd a = a \<Longrightarrow> 0 \<le> b \<Longrightarrow> rnd (a - b) \<le> a"
  by (rule rnd_le_rep) simp_all

lemma rnd_scale_le: "rnd a = a \<Longrightarrow> 0 \<le> a \<Longrightarrow> f \<le> 1 \<Longrightarrow> rnd (a * f) \<le> a"
  by (rule rnd_le_rep) (simp_all add: mult_left_le)

text \<open>Left-to-right sums.\<close>

lemma rnd_sum_rep: "rnd a = a \<Longrightarrow> rnd (foldl (\<lambda>s x. rnd (s + x)) a xs) = foldl (\<lambda>s x. rnd (s + x)) a xs"
  by (induction xs arbitrary: a) auto

lemma rnd_sum_ge:
  "rnd a = a \<Longrightarrow> \<forall>x \<in> set xs. 0 \<le> x \<Longrightarrow> a \<le> foldl (\<lambda>s x. rnd (s + x)) a xs"
proof (induction xs arbitrary: a)
  case (Cons x xs)
  then have "a \<le> rnd (a + x)" by (simp add: rnd_add_ge)
  also have "\<dots> \<le> foldl (\<lambda>s x. rnd (s + x)) (rnd (a + x)) xs" using Cons by simp
  finally show ?case by simp
qed simp

lemma rnd_sum_mono:
  "a \<le> b \<Longrightarrow> foldl (\<lambda>s x. rnd (s + x)) a xs \<le> foldl (\<lambda>s x. rnd (s + x)) b xs"
  by (induction xs arbitrary: a b) (simp_all add: rnd_mono)

text \<open>Leaving non-negative terms out never enlarges a sum.\<close>

lemma rnd_sum_filter_le:
  assumes "rnd a = a" "a \<le> b" "rnd b = b" "\<forall>x \<in> set xs. 0 \<le> g x"
  shows "foldl (\<lambda>s x. rnd (s + x)) a (map g (filter P xs)) \<le> foldl (\<lambda>s x. rnd (s + x)) b (map g xs)"
  using assms
proof (induction xs arbitrary: a b)
  case (Cons x xs)
  show ?case
  proof (cases "P x")
    case True
    have "rnd (a + g x) \<le> rnd (b + g x)" using Cons.prems(2) by (simp add: rnd_mono)
    then show ?thesis using True Cons by simp
  next
    case False
    have "b \<le> rnd (b + g x)" using Cons.prems by (simp add: rnd_add_ge)
    then have "a \<le> rnd (b + g x)" using Cons.prems(2) by simp
    then show ?thesis using False Cons by simp
  qed
qed simp

lemma rnd_prod_rep: "rnd a = a \<Longrightarrow> rnd (foldl (\<lambda>s f. rnd (s * f)) a fs) = foldl (\<lambda>s f. rnd (s * f)) a fs"
  by (induction fs arbitrary: a) auto

text \<open>A chain of factors between 0 and 1 yields a value between 0 and the start.\<close>

lemma rnd_prod_bounds:
  assumes "rnd a = a" "0 \<le> a" "\<forall>f \<in> set fs. 0 \<le> f \<and> f \<le> 1"
  shows "0 \<le> foldl (\<lambda>s f. rnd (s * f)) a fs \<and> foldl (\<lambda>s f. rnd (s * f)) a fs \<le> a"
  using assms
proof (induction fs arbitrary: a)
  case (Cons f fs)
  have "0 \<le> rnd (a * f)" "rnd (a * f) \<le> a" using Cons.prems by (auto intro: rnd_scale_le)
  moreover have "0 \<le> foldl (\<lambda>s f. rnd (s * f)) (rnd (a * f)) fs \<and>
      foldl (\<lambda>s f. rnd (s * f)) (rnd (a * f)) fs \<le> rnd (a * f)"
    using Cons.prems by (intro Cons.IH) auto
  ultimately show ?case by auto
qed simp

end

lemma rounding_round_sig:
  assumes "2 \<le> b" "2 \<le> p"
  shows "rounding (round_sig b p) (of_nat b powi (1 - int p) / 2)"
proof
  have one: "round_sig b p (of_int 1 * of_nat b powi 0) = of_int 1 * of_nat b powi 0"
    using assms by (intro round_sig_exact) auto
  show "round_sig b p 1 = 1" using one by simp
  have "(of_nat b :: rat) powi (1 - int p) \<le> of_nat b powi 0"
    using assms by (intro power_int_increasing) auto
  then show "of_nat b powi (1 - int p) / 2 < (1::rat)" by simp
qed (use assms round_sig_err[of b p] in \<open>auto intro: round_sig_mono round_sig_idem simp: round_sig_minus\<close>)

section \<open>Decimal under the default context, binary64\<close>

type_synonym decimal = rat
type_synonym pyfloat = rat

definition dec :: "rat \<Rightarrow> decimal" where
  "dec = round_sig 10 28"

definition flt :: "rat \<Rightarrow> pyfloat" where
  "flt = round_sig 2 53"

interpretation dec: rounding dec "10 powi (- 27) / 2"
  using rounding_round_sig[of 10 28] by (simp add: dec_def)

interpretation flt: rounding flt "2 powi (- 52) / 2"
  using rounding_round_sig[of 2 53] by (simp add: flt_def)

definition is_dec :: "rat \<Rightarrow> bool" where
  "is_dec x \<longleftrightarrow> dec x = x"

definition is_flt :: "rat \<Rightarrow> bool" where
  "is_flt x \<longleftrightarrow> flt x = x"

text \<open>Decimal arithmetic.  \<open>abs\<close> and the binary operators round to the context; \<open>int(d)\<close>
  truncates; \<open>/\<close> raises on a zero divisor.\<close>

definition d_add :: "decimal \<Rightarrow> decimal \<Rightarrow> decimal" where
  "d_add x y = dec (x + y)"

definition d_sub :: "decimal \<Rightarrow> decimal \<Rightarrow> decimal" where
  "d_sub x y = dec (x - y)"

definition d_mul :: "decimal \<Rightarrow> decimal \<Rightarrow> decimal" where
  "d_mul x y = dec (x * y)"

definition d_abs :: "decimal \<Rightarrow> decimal" where
  "d_abs x = dec \<bar>x\<bar>"

definition d_div :: "decimal \<Rightarrow> decimal \<Rightarrow> py_error + decimal" where
  "d_div x y =
     (if y = 0 then Inl (if x = 0 then DecimalInvalidOperation else DecimalDivisionByZero)
      else Inr (dec (x / y)))"

text \<open>The quotient where the code has already excluded a zero divisor.\<close>

definition d_quot :: "decimal \<Rightarrow> decimal \<Rightarrow> decimal" where
  "d_quot x y = dec (x / y)"

definition d_sum :: "decimal list \<Rightarrow> decimal" where
  "d_sum xs = foldl d_add 0 xs"

definition d_int :: "decimal \<Rightarrow> int" where
  "d_int x = (if x < 0 then \<lceil>x\<rceil> else \<lfloor>x\<rfloor>)"

text \<open>\<open>x.quantize(Decimal("0.01"), rounding)\<close> for \<open>ROUND_DOWN\<close> and for the default
  \<open>ROUND_HALF_EVEN\<close>: it raises when the coefficient needs more than 28 digits.\<close>

definition cents :: "int \<Rightarrow> py_error + decimal" where
  "cents n = (if \<bar>n\<bar> < 10 ^ 28 then Inr (of_int n / 100) else Inl DecimalInvalidOperation)"

definition quantize_down :: "decimal \<Rightarrow> py_error + decimal" where
  "quantize_down x = cents (d_int (x * 100))"

definition quantize_even :: "decimal \<Rightarrow> py_error + decimal" where
  "quantize_even x = cents (round_half_even (x * 100))"

text \<open>Float arithmetic.\<close>

definition f_add :: "pyfloat \<Rightarrow> pyfloat \<Rightarrow> pyfloat" where
  "f_add x y = flt (x + y)"

definition f_sub :: "pyfloat \<Rightarrow> pyfloat \<Rightarrow> pyfloat" where
  "f_sub x y = flt (x - y)"

definition f_mul :: "pyfloat \<Rightarrow> pyfloat \<Rightarrow> pyfloat" where
  "f_mul x y = flt (x * y)"

definition f_div :: "pyfloat \<Rightarrow> pyfloat \<Rightarrow> py_error + pyfloat" where
  "f_div x y = (if y = 0 then Inl ZeroDivisionError else Inr (flt (x / y)))"

text \<open>The quotient by a number known not to be zero.\<close>

definition f_quot :: "pyfloat \<Rightarrow> pyfloat \<Rightarrow> pyfloat" where
  "f_quot x y = flt (x / y)"

definition f_sum :: "pyfloat list \<Rightarrow> pyfloat" where
  "f_sum xs = foldl f_add 0 xs"

text \<open>\<open>x // y\<close> for floats and a non-zero \<open>y\<close>: the remainder of \<open>fmod\<close> is exact, the quotient of what
  is left is rounded and then taken down.\<close>

definition f_floordiv :: "pyfloat \<Rightarrow> pyfloat \<Rightarrow> pyfloat" where
  "f_floordiv x y =
     (let q = x / y;
          m = x - of_int (if q < 0 then \<lceil>q\<rceil> else \<lfloor>q\<rfloor>) * y;
          d0 = flt (flt (x - m) / y);
          d = (if m \<noteq> 0 \<and> (y < 0) \<noteq> (m < 0) then f_sub d0 1 else d0);
          fl = of_int \<lfloor>d\<rfloor>
      in if 1 / 2 < f_sub d fl then f_add fl 1 else fl)"

text \<open>\<open>timedelta.total_seconds()\<close>\<close>

definition total_seconds :: "micros \<Rightarrow> pyfloat" where
  "total_seconds d = flt (of_int d / 1000000)"

text \<open>\<open>Decimal(str(x))\<close> for a float: the shortest decimal that reads back as \<open>x\<close>, the nearest
  to \<open>x\<close> among those of that length.  Seventeen digits always suffice; the fall-through
  returns \<open>x\<close> itself.\<close>

definition repr_nearer :: "rat \<Rightarrow> rat \<Rightarrow> rat \<Rightarrow> bool \<Rightarrow> rat option" where
  "repr_nearer x lo hi lo_even =
     (if flt lo = x \<and> (flt hi \<noteq> x \<or> x - lo < hi - x \<or> (x - lo = hi - x \<and> lo_even)) then Some lo
      else if flt hi = x then Some hi else None)"

definition repr_around :: "rat \<Rightarrow> rat \<Rightarrow> int \<Rightarrow> rat option" where
  "repr_around x q n = repr_nearer x (of_int n * q) (of_int (n + 1) * q) (even n)"

definition repr_at :: "rat \<Rightarrow> rat \<Rightarrow> rat option" where
  "repr_at x q = repr_around x q \<lfloor>x / q\<rfloor>"

definition repr_digits :: "nat \<Rightarrow> rat \<Rightarrow> rat option" where
  "repr_digits p x = repr_at x (sig_ulp 10 p x)"

fun repr_search :: "nat \<Rightarrow> nat \<Rightarrow> rat \<Rightarrow> rat" where
  "repr_search 0 p x = x"
| "repr_search (Suc fuel) p x =
     (case repr_digits p x of Some y \<Rightarrow> y | None \<Rightarrow> repr_search fuel (Suc p) x)"

definition dec_of_float :: "pyfloat \<Rightarrow> decimal" where
  "dec_of_float x =
     (if x = 0 then 0 else if x < 0 then - repr_search 17 1 (- x) else repr_search 17 1 x)"

section \<open>Facts the components use\<close>

named_theorems num_defs

lemmas [num_defs] = d_add_def d_sub_def d_mul_def d_abs_def d_quot_def f_add_def f_sub_def f_mul_def

lemma d_div_quot: "y \<noteq> 0 \<Longrightarrow> d_div x y = Inr (d_quot x y)"
  by (simp add: d_div_def d_quot_def)

lemma is_dec_dec [simp]: "is_dec (dec x)"
  by (simp add: is_dec_def)

lemma is_flt_flt [simp]: "is_flt (flt x)"
  by (simp add: is_flt_def)

lemma is_dec_ops [simp]:
  "is_dec (d_add x y)" "is_dec (d_sub x y)" "is_dec (d_mul x y)" "is_dec (d_abs x)"
  "is_dec (d_quot x y)"
  by (simp_all add: num_defs)

lemma dec_of_is_dec [simp]: "is_dec x \<Longrightarrow> dec x = x"
  by (simp add: is_dec_def)

lemma flt_of_is_flt [simp]: "is_flt x \<Longrightarrow> flt x = x"
  by (simp add: is_flt_def)

lemma is_dec_minus [simp]: "is_dec (- x) \<longleftrightarrow> is_dec x"
  by (auto simp: is_dec_def dec.rnd_minus)

lemma is_dec_coeff: "\<bar>m\<bar> \<le> 10 ^ 28 \<Longrightarrow> is_dec (of_int m * 10 powi k)"
  using round_sig_exact[of 10 28 m k] by (simp add: is_dec_def dec_def)

lemma is_dec_0_1 [simp]: "is_dec 0" "is_dec 1"
  by (simp_all add: is_dec_def)

lemma is_dec_cents: assumes "\<bar>n\<bar> \<le> 10 ^ 28" shows "is_dec (of_int n / 100)"
proof -
  have "(10::rat) powi (- 2) = 1 / 100" by (simp add: power_int_def power2_eq_square)
  then show ?thesis using is_dec_coeff[OF assms, of "- 2"] by simp
qed

lemma d_add_eta: "d_add = (\<lambda>x y. dec (x + y))"
  by (intro ext) (simp add: d_add_def)

lemma d_mul_eta: "d_mul = (\<lambda>x y. dec (x * y))"
  by (intro ext) (simp add: d_mul_def)

lemma f_sum_nonneg: "\<forall>x \<in> set xs. 0 \<le> x \<Longrightarrow> 0 \<le> f_sum xs"
proof -
  have "0 \<le> a \<Longrightarrow> \<forall>x \<in> set xs. 0 \<le> x \<Longrightarrow> 0 \<le> foldl f_add a xs" for a
    by (induction xs arbitrary: a) (simp_all add: f_add_def)
  then show "\<forall>x \<in> set xs. 0 \<le> x \<Longrightarrow> 0 \<le> f_sum xs" by (simp add: f_sum_def)
qed

lemma is_dec_d_sum [simp]: "is_dec (d_sum xs)"
  using dec.rnd_sum_rep[of 0 xs] by (simp add: is_dec_def d_sum_def d_add_eta)

lemma d_sum_nonneg: "\<forall>x \<in> set xs. 0 \<le> x \<Longrightarrow> 0 \<le> d_sum xs"
  using dec.rnd_sum_ge[of 0 xs] by (simp add: d_sum_def d_add_eta)

lemma d_sum_filter_le:
  "\<forall>x \<in> set xs. 0 \<le> g x \<Longrightarrow> d_sum (map g (filter P xs)) \<le> d_sum (map g xs)"
  using dec.rnd_sum_filter_le[of 0 0 xs g P] by (simp add: d_sum_def d_add_eta)

lemma d_abs_nonneg [simp]: "0 \<le> d_abs x"
  by (simp add: d_abs_def)

lemma d_abs_eq_0 [simp]: "d_abs x = 0 \<longleftrightarrow> x = 0"
  by (simp add: d_abs_def)

lemma d_quot_pos_mono: "0 < z \<Longrightarrow> x \<le> y \<Longrightarrow> d_quot x z \<le> d_quot y z"
  by (simp add: d_quot_def dec.rnd_mono divide_right_mono)

lemma d_quot_nonneg: "0 \<le> x \<Longrightarrow> 0 \<le> y \<Longrightarrow> 0 \<le> d_quot x y"
  by (simp add: d_quot_def)

lemma d_add_mono: "x \<le> y \<Longrightarrow> x' \<le> y' \<Longrightarrow> d_add x x' \<le> d_add y y'"
  by (simp add: d_add_def dec.rnd_mono)

lemma d_int_nonneg: "0 \<le> x \<Longrightarrow> 0 \<le> d_int x \<and> of_int (d_int x) \<le> x"
  by (simp add: d_int_def)

lemma quantize_down_bounds:
  assumes "quantize_down x = Inr y" "0 \<le> x"
  shows "0 \<le> y" "y \<le> x" "x - 1 / 100 < y" "is_dec y"
proof -
  let ?n = "d_int (x * 100)"
  have n: "?n = \<lfloor>x * 100\<rfloor>" using assms(2) by (simp add: d_int_def)
  have y: "y = of_int ?n / 100" "\<bar>?n\<bar> < 10 ^ 28"
    using assms(1) by (auto simp: quantize_down_def cents_def split: if_splits)
  have b: "of_int ?n \<le> x * 100" "x * 100 < of_int ?n + 1" "0 \<le> ?n"
    using assms(2) floor_correct[of "x * 100"] by (simp_all add: n)
  show "0 \<le> y" using b by (simp add: y)
  show "y \<le> x" using b by (simp add: y)
  show "x - 1 / 100 < y" using b by (simp add: y field_simps)
  have "is_dec (of_int ?n / 100)" using y(2) by (intro is_dec_cents) simp
  then show "is_dec y" by (simp only: y(1))
qed

lemma quantize_even_is_dec: "quantize_even x = Inr y \<Longrightarrow> is_dec y"
  using is_dec_cents[of "round_half_even (x * 100)"]
  by (auto simp: quantize_even_def cents_def split: if_splits)

text \<open>One decimal rounding moves a non-negative value by a factor within \<open>10^-27\<close> of 1.\<close>

lemma dec_upper: assumes "0 \<le> x" shows "dec x \<le> (1 + 1 / 10 ^ 27) * x"
proof -
  have "(1 + 10 powi (- 27) / 2) * x \<le> (1 + 1 / 10 ^ 27) * x"
    using assms by (intro mult_right_mono) (auto simp: power_int_def power_one_over)
  then show ?thesis using dec.rnd_upper[OF assms] by linarith
qed

lemma dec_lower: assumes "0 \<le> x" shows "(1 - 1 / 10 ^ 27) * x \<le> dec x"
proof -
  have "(1 - 1 / 10 ^ 27) * x \<le> (1 - 10 powi (- 27) / 2) * x"
    using assms by (intro mult_right_mono) (auto simp: power_int_def power_one_over)
  then show ?thesis using dec.rnd_lower[OF assms] by linarith
qed

lemma f_sub_mono: "s \<le> t \<Longrightarrow> f_sub s w \<le> f_sub t w"
  by (simp add: f_sub_def flt.rnd_mono)

text \<open>Reading the shortest decimal back gives the float it came from, so the sign and any
  bound that is itself a float carry over.\<close>

lemma repr_digits_back: "repr_digits p x = Some y \<Longrightarrow> flt y = x"
  by (auto simp: repr_digits_def repr_at_def repr_around_def repr_nearer_def split: if_splits)

lemma repr_search_back: "is_flt x \<Longrightarrow> flt (repr_search fuel p x) = x"
  by (induction fuel p x rule: repr_search.induct) (auto simp: repr_digits_back split: option.splits)

lemma flt_dec_of_float [simp]: "is_flt x \<Longrightarrow> flt (dec_of_float x) = x"
  using repr_search_back[of x] repr_search_back[of "- x"]
  by (auto simp: dec_of_float_def is_flt_def flt.rnd_minus)

lemma dec_of_float_pos_iff: "is_flt x \<Longrightarrow> 0 < dec_of_float x \<longleftrightarrow> 0 < x"
  using flt.rnd_pos_iff[of "dec_of_float x"] by simp

lemma dec_of_float_nonneg_iff: "is_flt x \<Longrightarrow> 0 \<le> dec_of_float x \<longleftrightarrow> 0 \<le> x"
  using flt.rnd_nonneg_iff[of "dec_of_float x"] by simp

lemma dec_of_float_mono: "is_flt x \<Longrightarrow> is_flt y \<Longrightarrow> x < y \<Longrightarrow> dec_of_float x < dec_of_float y"
  using flt.rnd_mono[of "dec_of_float y" "dec_of_float x"] by (metis flt_dec_of_float not_less)

lemma dec_of_float_samples [simp]:
  "dec_of_float 1 = 1" "dec_of_float (1/2) = 1/2" "dec_of_float (1/4) = 1/4"
  by code_simp+

lemma dec_of_float_unit:
  assumes "is_flt x" "0 \<le> x" "x \<le> 1"
  shows "0 \<le> dec_of_float x" "dec_of_float x \<le> 1"
proof -
  have one: "is_flt 1" by (simp add: is_flt_def)
  show "0 \<le> dec_of_float x" using assms by (simp add: dec_of_float_nonneg_iff)
  show "dec_of_float x \<le> 1"
    using dec_of_float_mono[OF assms(1) one] assms(3) by (cases "x = 1") auto
qed

lemma dec_of_float_seventy: "dec_of_float (flt (7/10)) = 7/10"
proof -
  have f: "flt (7/10) = 3152519739159347 / 4503599627370496" by code_simp
  show ?thesis unfolding f by code_simp
qed

end
