(* ===== verification/Effects.thy ===== *)
theory Effects
  imports Py_Numeric
begin

text \<open>
  Actions on an outside world: an awaited call to the broker, a provider or a callback changes a
  world of any type and returns or raises.  \<open>bindA\<close> sequences, \<open>catchA\<close> is \<open>try ... except
  Exception\<close>, \<open>mapA\<close> is a \<open>for\<close> loop that collects results.  With them, the values of untyped
  dictionaries the components read.
\<close>

section \<open>Actions\<close>

type_synonym ('w, 'a) action = "'w \<Rightarrow> (py_error + 'a) \<times> 'w"

definition returnA :: "'a \<Rightarrow> ('w, 'a) action" where
  "returnA x w = (Inr x, w)"

definition raiseA :: "py_error \<Rightarrow> ('w, 'a) action" where
  "raiseA e w = (Inl e, w)"

definition bindA :: "('w, 'a) action \<Rightarrow> ('a \<Rightarrow> ('w, 'b) action) \<Rightarrow> ('w, 'b) action" where
  "bindA m f w = (case m w of (Inl e, w') \<Rightarrow> (Inl e, w') | (Inr x, w') \<Rightarrow> f x w')"

definition catchA :: "('w, 'a) action \<Rightarrow> (py_error \<Rightarrow> ('w, 'a) action) \<Rightarrow> ('w, 'a) action" where
  "catchA m h w = (case m w of (Inl e, w') \<Rightarrow> h e w' | (Inr x, w') \<Rightarrow> (Inr x, w'))"

text \<open>\<open>try ... except Exception as e\<close> as a value, an operation without effect as an action, and
  the \<open>try\<close> whose handler only logs.\<close>

definition tryA :: "('w, 'a) action \<Rightarrow> ('w, py_error + 'a) action" where
  "tryA m w = (case m w of (r, w') \<Rightarrow> (Inr r, w'))"

definition liftE :: "py_error + 'a \<Rightarrow> ('w, 'a) action" where
  "liftE r = (case r of Inl e \<Rightarrow> raiseA e | Inr x \<Rightarrow> returnA x)"

definition swallowA :: "('w, unit) action \<Rightarrow> ('w, unit) action" where
  "swallowA m = catchA m (\<lambda>_. returnA ())"

fun mapA :: "('a \<Rightarrow> ('w, 'b) action) \<Rightarrow> 'a list \<Rightarrow> ('w, 'b list) action" where
  "mapA f [] = returnA []"
| "mapA f (x # xs) = bindA (f x) (\<lambda>y. bindA (mapA f xs) (\<lambda>ys. returnA (y # ys)))"

lemma action_simps [simp]:
  "bindA (returnA x) f = f x"
  "bindA (raiseA e) f = raiseA e"
  "catchA (returnA x) h = returnA x"
  "catchA (raiseA e) h = h e"
  by (auto simp: fun_eq_iff bindA_def catchA_def returnA_def raiseA_def)

lemma bindA_return [simp]: "bindA m returnA = m"
  by (auto simp: fun_eq_iff bindA_def returnA_def split: prod.split sum.split)

lemma bindA_assoc: "bindA (bindA m f) g = bindA m (\<lambda>x. bindA (f x) g)"
  by (auto simp: fun_eq_iff bindA_def split: prod.split sum.split)

lemma bindA_InrE:
  assumes "bindA m f w = (Inr y, w'')"
  obtains x w' where "m w = (Inr x, w')" "f x w' = (Inr y, w'')"
  using assms by (auto simp: bindA_def split: prod.splits sum.splits)

lemma returnA_iff [simp]: "returnA x w = (Inr y, w') \<longleftrightarrow> y = x \<and> w' = w" "returnA x w \<noteq> (Inl e, w')"
  by (auto simp: returnA_def)

lemma raiseA_iff [simp]: "raiseA e w \<noteq> (Inr y, w')" "raiseA e w = (Inl e', w') \<longleftrightarrow> e' = e \<and> w' = w"
  by (auto simp: raiseA_def)

lemma swallowA_returns: "\<exists>w'. swallowA m w = (Inr (), w')"
  by (auto simp: swallowA_def catchA_def returnA_def split: prod.split sum.split)

lemma mapA_results:
  assumes "mapA f xs w = (Inr ys, w')" "\<And>x y w w'. x \<in> set xs \<Longrightarrow> f x w = (Inr y, w') \<Longrightarrow> P y"
  shows "list_all P ys"
  using assms
proof (induction xs arbitrary: ys w)
  case (Cons x xs)
  from Cons.prems(1) obtain y w1 zs where
    y: "f x w = (Inr y, w1)" "mapA f xs w1 = (Inr zs, w')" "ys = y # zs"
    by (auto elim!: bindA_InrE)
  have "list_all P zs" using Cons.IH[OF y(2)] Cons.prems(2) by (meson list.set_intros(2))
  then show ?case using Cons.prems(2)[OF _ y(1)] y(3) by simp
qed simp

section \<open>Weakest preconditions\<close>

text \<open>\<open>wpA m Q w\<close>: what \<open>m\<close> does from \<open>w\<close> has outcome and final world in \<open>Q\<close>.\<close>

named_theorems wp_intro

definition wpA :: "('w, 'a) action \<Rightarrow> (py_error + 'a \<Rightarrow> 'w \<Rightarrow> bool) \<Rightarrow> 'w \<Rightarrow> bool" where
  "wpA m Q w = (case m w of (r, w') \<Rightarrow> Q r w')"

lemma wpA_simps [simp]:
  "wpA (returnA x) Q w = Q (Inr x) w"
  "wpA (raiseA e) Q w = Q (Inl e) w"
  "wpA (bindA m f) S w = wpA m (\<lambda>r w'. case r of Inl e \<Rightarrow> S (Inl e) w' | Inr x \<Rightarrow> wpA (f x) S w') w"
  "wpA (catchA m h) Q w = wpA m (\<lambda>r w'. case r of Inl e \<Rightarrow> wpA (h e) Q w' | Inr x \<Rightarrow> Q (Inr x) w') w"
  "wpA (tryA m) R w = wpA m (\<lambda>r. R (Inr r)) w"
  "wpA (liftE x') P w = P x' w"
  by (auto simp: wpA_def returnA_def raiseA_def bindA_def catchA_def tryA_def liftE_def
      split: prod.split sum.split)

lemma wpA_mono: "wpA m Q w \<Longrightarrow> (\<And>r w'. Q r w' \<Longrightarrow> R r w') \<Longrightarrow> wpA m R w"
  by (auto simp: wpA_def)

lemma wpA_I: "m w = (r, w') \<Longrightarrow> Q r w' \<Longrightarrow> wpA m Q w"
  by (simp add: wpA_def)

lemma wpA_D: "wpA m Q w \<Longrightarrow> m w = (r, w') \<Longrightarrow> Q r w'"
  by (simp add: wpA_def)

section \<open>Values of untyped dictionaries\<close>

text \<open>A number, and \<open>Decimal(str(x))\<close> of it.\<close>

datatype number = NDecimal decimal | NFloat pyfloat | NInt int

fun to_decimal :: "number \<Rightarrow> decimal" where
  "to_decimal (NDecimal d) = d"
| "to_decimal (NFloat x) = dec_of_float x"
| "to_decimal (NInt n) = of_int n"

text \<open>Any value under a key that the code turns into \<open>Decimal(str(v))\<close>: a number, or something
  (None, a text) the conversion rejects.\<close>

datatype raw = Num number | NotNumber

fun decimal_of_raw :: "raw \<Rightarrow> py_error + decimal" where
  "decimal_of_raw (Num n) = Inr (to_decimal n)"
| "decimal_of_raw NotNumber = Inl DecimalInvalidOperation"

definition or_default :: "'a option \<Rightarrow> 'a \<Rightarrow> 'a" where
  "or_default x d = (case x of Some y \<Rightarrow> y | None \<Rightarrow> d)"

lemma or_default_simps [simp]: "or_default (Some y) d = y" "or_default None d = d"
  by (simp_all add: or_default_def)

text \<open>\<open>str.lower\<close> and \<open>str.upper\<close> on ASCII.\<close>

definition lower_char :: "char \<Rightarrow> char" where
  "lower_char c = (let n = of_char c :: nat in if 65 \<le> n \<and> n \<le> 90 then char_of (n + 32) else c)"

definition upper_char :: "char \<Rightarrow> char" where
  "upper_char c = (let n = of_char c :: nat in if 97 \<le> n \<and> n \<le> 122 then char_of (n - 32) else c)"

definition py_lower :: "string \<Rightarrow> string" where
  "py_lower s = map lower_char s"

definition py_upper :: "string \<Rightarrow> string" where
  "py_upper s = map upper_char s"

end
