(* ===== verification/Json.thy ===== *)
theory Json
  imports Effects
begin

text \<open>
  Decoded JSON as the code handles it: untyped values that are indexed, tested for truth and
  converted where they are used, with the exception Python raises when a value has another type.
\<close>

section \<open>Values\<close>

datatype json =
    JNull
  | JBool bool
  | JNum rat
  | JStr string
  | JList "json list"
  | JObj "(string \<times> json) list"

text \<open>Truth of a value.\<close>

fun json_truthy :: "json \<Rightarrow> bool" where
  "json_truthy JNull = False"
| "json_truthy (JBool b) = b"
| "json_truthy (JNum x) = (x \<noteq> 0)"
| "json_truthy (JStr s) = (s \<noteq> [])"
| "json_truthy (JList xs) = (xs \<noteq> [])"
| "json_truthy (JObj d) = (d \<noteq> [])"

text \<open>\<open>v.get(key, default)\<close>, \<open>v[key]\<close>, and \<open>v.get(key)\<close> with None for an absent key.\<close>

fun get_or :: "json \<Rightarrow> string \<Rightarrow> json \<Rightarrow> py_error + json" where
  "get_or (JObj d) k v = Inr (case map_of d k of Some x \<Rightarrow> x | None \<Rightarrow> v)"
| "get_or _ k v = Inl (AttributeError ''get'')"

definition get :: "json \<Rightarrow> string \<Rightarrow> py_error + json" where
  "get j k = get_or j k JNull"

fun at_key :: "json \<Rightarrow> string \<Rightarrow> py_error + json" where
  "at_key (JObj d) k = (case map_of d k of Some x \<Rightarrow> Inr x | None \<Rightarrow> Inl (KeyError k))"
| "at_key _ k = Inl (TypeError ''indices must be integers'')"

text \<open>\<open>str(v).upper() == s\<close> for a text \<open>s\<close> in capitals that is neither NONE, TRUE nor FALSE and has
  neither digits nor brackets: only a string has such a text.\<close>

fun str_upper_is :: "string \<Rightarrow> json \<Rightarrow> bool" where
  "str_upper_is s (JStr x) = (py_upper x = s)"
| "str_upper_is s _ = False"

text \<open>\<open>str(v)\<close>: the text of anything but a string is given by \<open>f\<close>.\<close>

fun str_json :: "(json \<Rightarrow> string) \<Rightarrow> json \<Rightarrow> string" where
  "str_json f (JStr x) = x"
| "str_json f v = f v"

text \<open>\<open>float(v)\<close>: the reading of a text is given by \<open>p\<close>.\<close>

fun float_of_json :: "(string \<Rightarrow> py_error + pyfloat) \<Rightarrow> json \<Rightarrow> py_error + pyfloat" where
  "float_of_json p (JNum x) = Inr (flt x)"
| "float_of_json p (JBool b) = Inr (if b then 1 else 0)"
| "float_of_json p (JStr s) = p s"
| "float_of_json p _ = Inl (TypeError ''float'')"

lemma get_obj [simp]: "get (JObj d) k = Inr (case map_of d k of Some x \<Rightarrow> x | None \<Rightarrow> JNull)"
  by (simp add: get_def)

end
