(* ===== verification/Notification_Service.thy ===== *)
theory Notification_Service
  imports Json
begin

text \<open>
  The notification service, \<open>src/notifications/notification_service.py\<close>: channels in the order of
  their registration, routing by type and priority, delivery with retries and one fallback, and
  the records of what became of a notification.  A channel is an action on an outside world that
  may raise; the clock and the pause between attempts are readings and changes of that world, and
  a time limit set by \<open>wait_for\<close> is a parameter.  A text is a template with its values, without
  the pictographs of the code; the text of a value that is not one is a parameter.  The sends of
  \<open>send_to_all_channels\<close> run one after the other, and whether they end in time is an argument.  The
  layout of \<open>formatters.py\<close> is left out: the messages it makes are arguments.
\<close>

section \<open>Data\<close>

datatype notification_type =
    TRADE_ALERT | KILL_SWITCH | CRISIS_ALERT | HFT_CIRCUIT_BREAKER | STRATEGY_DISABLED | TRADE_OPENED | TRADE_CLOSED
  | HFT_MODE_DISABLED | RISK_ALERT | STRATEGY_CHANGE | SYSTEM_ERROR

definition notification_types :: "notification_type list" where
  "notification_types = [TRADE_ALERT, KILL_SWITCH, CRISIS_ALERT, HFT_CIRCUIT_BREAKER, STRATEGY_DISABLED, TRADE_OPENED,
     TRADE_CLOSED, HFT_MODE_DISABLED, RISK_ALERT, STRATEGY_CHANGE, SYSTEM_ERROR]"

fun type_value :: "notification_type \<Rightarrow> string" where
  "type_value TRADE_ALERT = ''trade_alert''"
| "type_value KILL_SWITCH = ''kill_switch''"
| "type_value CRISIS_ALERT = ''crisis_alert''"
| "type_value HFT_CIRCUIT_BREAKER = ''hft_circuit_breaker''"
| "type_value STRATEGY_DISABLED = ''strategy_disabled''"
| "type_value TRADE_OPENED = ''trade_opened''"
| "type_value TRADE_CLOSED = ''trade_closed''"
| "type_value HFT_MODE_DISABLED = ''hft_mode_disabled''"
| "type_value RISK_ALERT = ''risk_alert''"
| "type_value STRATEGY_CHANGE = ''strategy_change''"
| "type_value SYSTEM_ERROR = ''system_error''"

datatype priority = CRITICAL | HIGH | NORMAL | LOW

datatype delivery_status = PENDING | DELIVERED | FAILED | RETRYING

type_synonym payload = "(string, json) dict"

record 'w channel =
  ch_name :: string
  ch_send :: "fmsg \<Rightarrow> ('w, bool) action"

record channel_status =
  cd_channel_name :: string
  cd_status :: delivery_status
  cd_attempts :: int
  cd_last_attempt_at :: "micros option"
  cd_delivered_at :: "micros option"
  cd_error :: "fmsg option"

definition channel_status_init :: "string \<Rightarrow> channel_status" where
  "channel_status_init n = \<lparr>cd_channel_name = n, cd_status = PENDING, cd_attempts = 0, cd_last_attempt_at = None,
     cd_delivered_at = None, cd_error = None\<rparr>"

record notification_record =
  nr_id :: string
  nr_type :: notification_type
  nr_priority :: priority
  nr_payload :: payload
  nr_created_at :: micros
  nr_statuses :: "(string, channel_status) dict"

definition is_fully_delivered :: "notification_record \<Rightarrow> bool" where
  "is_fully_delivered r = list_ex (\<lambda>(n, s). cd_status s = DELIVERED) (nr_statuses r)"

definition all_failed :: "notification_record \<Rightarrow> bool" where
  "all_failed r = (if nr_statuses r = [] then True else list_all (\<lambda>(n, s). cd_status s = FAILED) (nr_statuses r))"

record delivery_result =
  dr_success :: bool
  dr_channel_name :: string
  dr_attempts :: int
  dr_error :: "fmsg option"
  dr_fallback_used :: bool

definition delivery_result_init :: "bool \<Rightarrow> string \<Rightarrow> delivery_result" where
  "delivery_result_init ok n = \<lparr>dr_success = ok, dr_channel_name = n, dr_attempts = 1, dr_error = None, dr_fallback_used = False\<rparr>"

text \<open>The clock in UTC, the monotonic clock, \<open>asyncio.sleep\<close>, \<open>asyncio.wait_for\<close> and \<open>str\<close>.\<close>

record 'w notify_env =
  nf_now :: "'w \<Rightarrow> micros"
  nf_monotonic :: "'w \<Rightarrow> pyfloat"
  nf_sleep :: "pyfloat \<Rightarrow> 'w \<Rightarrow> 'w"
  nf_wait_for :: "pyfloat \<Rightarrow> ('w, bool) action \<Rightarrow> ('w, bool) action"
  nf_str :: "json \<Rightarrow> string"

record 'w notification_service =
  nt_channels :: "(string, 'w channel) dict"
  nt_channel_order :: "string list"
  nt_type_to_channels :: "(notification_type \<times> string list) list"
  nt_max_retries :: int
  nt_interval :: pyfloat
  nt_records :: "(string, notification_record) dict"

section \<open>Channels and their configuration\<close>

definition register_channel :: "'w channel \<Rightarrow> 'w notification_service \<Rightarrow> 'w notification_service" where
  "register_channel ch s =
     s\<lparr>nt_channels := AList.update (ch_name ch) ch (nt_channels s),
       nt_channel_order := (if ch_name ch \<in> set (nt_channel_order s) then nt_channel_order s
                            else nt_channel_order s @ [ch_name ch])\<rparr>"

definition notification_service_init ::
  "'w channel list \<Rightarrow> (notification_type \<times> string list) list \<Rightarrow> int \<Rightarrow> pyfloat \<Rightarrow> 'w notification_service" where
  "notification_service_init chs config retries interval =
     foldl (\<lambda>s ch. register_channel ch s)
       \<lparr>nt_channels = [], nt_channel_order = [], nt_type_to_channels = config, nt_max_retries = retries, nt_interval = interval,
        nt_records = []\<rparr> chs"

definition configure_notification_type :: "notification_type \<Rightarrow> string list \<Rightarrow> 'w notification_service \<Rightarrow> 'w notification_service" where
  "configure_notification_type t chs s = s\<lparr>nt_type_to_channels := AList.update t chs (nt_type_to_channels s)\<rparr>"

definition configured :: "notification_type \<Rightarrow> 'w notification_service \<Rightarrow> string list" where
  "configured t s = or_default (map_of (nt_type_to_channels s) t) []"

definition registered :: "'w notification_service \<Rightarrow> string \<Rightarrow> bool" where
  "registered s n \<longleftrightarrow> map_of (nt_channels s) n \<noteq> None"

definition startup_warning :: "'w notification_service \<Rightarrow> notification_type \<Rightarrow> fmsg option" where
  "startup_warning s t =
     (if configured t s \<noteq> [] then
        (if filter (registered s) (configured t s) = []
         then Some (FMsg ''Configured channels for '{}' are not registered. Notifications of this type will be discarded.''
                      [FStr (type_value t)])
         else None)
      else if nt_channel_order s = []
      then Some (FMsg ''No delivery channel configured for notification type '{}'. Notifications of this type will be discarded.''
                   [FStr (type_value t)])
      else None)"

definition check_startup_warnings :: "'w notification_service \<Rightarrow> fmsg list" where
  "check_startup_warnings s = List.map_filter (startup_warning s) notification_types"

definition get_channels_for_notification :: "notification_type \<Rightarrow> priority \<Rightarrow> 'w notification_service \<Rightarrow> string list" where
  "get_channels_for_notification t p s =
     (if p = CRITICAL then nt_channel_order s
      else if configured t s \<noteq> [] then
        (let available = filter (registered s) (configured t s) in
         if p = HIGH then available else take 1 available)
      else if p = HIGH then take 2 (nt_channel_order s)
      else take 1 (nt_channel_order s))"

section \<open>Texts\<close>

definition field :: "payload \<Rightarrow> string \<Rightarrow> json \<Rightarrow> json" where
  "field p k d = or_default (map_of p k) d"

definition shown :: "'w notify_env \<Rightarrow> json \<Rightarrow> farg" where
  "shown env v = FStr (str_json (nf_str env) v)"

definition format_trade_alert :: "'w notify_env \<Rightarrow> payload \<Rightarrow> fmsg" where
  "format_trade_alert env p =
     (let unknown = JStr ''Unknown'';
          head = [shown env (field p ''direction'' unknown), shown env (field p ''size'' unknown),
                  shown env (field p ''instrument'' unknown),
                  shown env (field p ''price'' (field p ''entry_price'' unknown)), shown env (field p ''strategy'' unknown)]
      in if field p ''pnl'' JNull \<noteq> JNull
         then FMsg ''Trade Alert: {} {} {} @ {} [{}] | PnL: {}'' (head @ [shown env (field p ''pnl'' JNull)])
         else FMsg ''Trade Alert: {} {} {} @ {} [{}]'' head)"

definition format_kill_switch :: "'w notify_env \<Rightarrow> payload \<Rightarrow> fmsg" where
  "format_kill_switch env p =
     FMsg ''KILL SWITCH ACTIVATED: {} | Closing {} positions''
       [shown env (field p ''reason'' (field p ''activation_reason'' (JStr ''Unknown reason''))),
        shown env (field p ''positions_count'' (JNum 0))]"

text \<open>\<open>', '.join(v)\<close>\<close>

fun joined :: "string list \<Rightarrow> string" where
  "joined [] = []"
| "joined [x] = x"
| "joined (x # y # xs) = x @ '', '' @ joined (y # xs)"

fun text_of :: "json \<Rightarrow> py_error + string" where
  "text_of (JStr x) = Inr x"
| "text_of _ = Inl (TypeError ''sequence item: expected str instance'')"

fun joined_texts :: "json list \<Rightarrow> py_error + string list" where
  "joined_texts [] = Inr []"
| "joined_texts (v # vs) = bindE (text_of v) (\<lambda>x. bindE (joined_texts vs) (\<lambda>xs. Inr (x # xs)))"

fun join_json :: "json \<Rightarrow> py_error + string" where
  "join_json (JList vs) = bindE (joined_texts vs) (\<lambda>xs. Inr (joined xs))"
| "join_json (JObj d) = Inr (joined (map fst d))"
| "join_json (JStr s) = Inr (joined (map (\<lambda>c. [c]) s))"
| "join_json _ = Inl (TypeError ''can only join an iterable'')"

definition format_crisis_alert :: "'w notify_env \<Rightarrow> payload \<Rightarrow> py_error + fmsg" where
  "format_crisis_alert env p =
     (let instruments = field p ''affected_instruments'' (JList []) in
      bindE (if json_truthy instruments then join_json instruments else Inr ''N/A'') (\<lambda>affected.
        Inr (FMsg ''CRISIS ALERT [{}]: Sentiment {} | Affected: {}''
               [shown env (field p ''region'' (JStr ''Unknown'')), shown env (field p ''sentiment_avg'' (JStr ''N/A'')), FStr affected])))"

definition format_hft_circuit_breaker :: "'w notify_env \<Rightarrow> payload \<Rightarrow> fmsg" where
  "format_hft_circuit_breaker env p =
     FMsg ''HFT Circuit Breaker Activated: PnL {} | Activation #{}''
       [shown env (field p ''pnl'' (field p ''pnl_loss'' (JStr ''N/A''))), shown env (field p ''breaker_count'' (JNum 0))]"

definition format_strategy_disabled :: "'w notify_env \<Rightarrow> payload \<Rightarrow> fmsg" where
  "format_strategy_disabled env p =
     FMsg ''Strategy Disabled: {} | Reason: {}''
       [shown env (field p ''strategy'' (JStr ''Unknown'')), shown env (field p ''reason'' (JStr ''Performance below threshold''))]"

definition format_message :: "'w notify_env \<Rightarrow> notification_type \<Rightarrow> payload \<Rightarrow> py_error + fmsg" where
  "format_message env t p =
     (if json_truthy (field p ''message'' JNull) then Inr (FMsg ''{}'' [shown env (field p ''message'' JNull)])
      else if t \<in> {TRADE_ALERT, TRADE_OPENED, TRADE_CLOSED} then Inr (format_trade_alert env p)
      else if t = KILL_SWITCH then Inr (format_kill_switch env p)
      else if t = CRISIS_ALERT then format_crisis_alert env p
      else if t = HFT_CIRCUIT_BREAKER then Inr (format_hft_circuit_breaker env p)
      else if t \<in> {STRATEGY_DISABLED, STRATEGY_CHANGE} then Inr (format_strategy_disabled env p)
      else Inr (FMsg ''{}'' [shown env (JObj p)]))"

section \<open>Delivery\<close>

text \<open>The attempts \<open>k, ..., max_retries\<close>; after the last one there is no pause.\<close>

fun attempts ::
  "'w notify_env \<Rightarrow> 'w notification_service \<Rightarrow> 'w channel \<Rightarrow> fmsg \<Rightarrow> int list \<Rightarrow> channel_status \<Rightarrow> 'w \<Rightarrow> channel_status \<times> 'w" where
  "attempts env s ch m [] st w = (st\<lparr>cd_status := FAILED\<rparr>, w)"
| "attempts env s ch m (k # ks) st w =
     (let st1 = st\<lparr>cd_attempts := k, cd_last_attempt_at := Some (nf_now env w),
                   cd_status := (if 1 < k then RETRYING else PENDING)\<rparr>
      in case ch_send ch m w of
           (Inr True, w1) \<Rightarrow> (st1\<lparr>cd_status := DELIVERED, cd_delivered_at := Some (nf_now env w1)\<rparr>, w1)
         | (r, w1) \<Rightarrow>
             attempts env s ch m ks
               (case r of Inl e \<Rightarrow> st1\<lparr>cd_error := Some (FMsg ''{}'' [FExc e])\<rparr> | Inr _ \<Rightarrow> st1)
               (if k < nt_max_retries s then nf_sleep env (nt_interval s) w1 else w1))"

definition attempt_delivery_with_retry ::
  "'w notify_env \<Rightarrow> 'w notification_service \<Rightarrow> string \<Rightarrow> fmsg \<Rightarrow> 'w \<Rightarrow> channel_status \<times> 'w" where
  "attempt_delivery_with_retry env s n m w =
     (case map_of (nt_channels s) n of
        None \<Rightarrow> ((channel_status_init n)\<lparr>cd_status := FAILED, cd_error := Some (FMsg ''Channel '{}' not registered'' [FStr n])\<rparr>, w)
      | Some ch \<Rightarrow> attempts env s ch m [1 .. nt_max_retries s] (channel_status_init n) w)"

definition get_fallback_channel :: "string \<Rightarrow> string list \<Rightarrow> (string, channel_status) dict \<Rightarrow> 'w notification_service \<Rightarrow> string option" where
  "get_fallback_channel failed targeted statuses s =
     find (\<lambda>n. n \<noteq> failed \<and> n \<notin> set targeted \<and> map_of statuses n = None) (nt_channel_order s)"

text \<open>One round of the loop over the targets.\<close>

definition deliver_to ::
  "'w notify_env \<Rightarrow> 'w notification_service \<Rightarrow> string list \<Rightarrow> fmsg \<Rightarrow> (string, channel_status) dict \<times> 'w \<Rightarrow> string \<Rightarrow>
   (string, channel_status) dict \<times> 'w" where
  "deliver_to env s targets m dw n =
     (case dw of (d, w) \<Rightarrow>
        case attempt_delivery_with_retry env s n m w of (st, w1) \<Rightarrow>
          let d1 = AList.update n st d in
          if cd_status st = DELIVERED then (d1, w1)
          else case get_fallback_channel n targets d1 s of
            None \<Rightarrow> (d1, w1)
          | Some f \<Rightarrow>
              (case attempt_delivery_with_retry env s f m w1 of (st2, w2) \<Rightarrow> (AList.update f st2 d1, w2)))"

definition send_internal ::
  "'w notify_env \<Rightarrow> string \<Rightarrow> notification_type \<Rightarrow> payload \<Rightarrow> priority \<Rightarrow> 'w notification_service \<Rightarrow> 'w \<Rightarrow>
   (py_error + notification_record) \<times> 'w notification_service \<times> 'w" where
  "send_internal env i t p prio s w =
     (let r = \<lparr>nr_id = i, nr_type = t, nr_priority = prio, nr_payload = p, nr_created_at = nf_now env w, nr_statuses = []\<rparr>;
          targets = get_channels_for_notification t prio s
      in if targets = [] then (Inr r, s\<lparr>nt_records := AList.update i r (nt_records s)\<rparr>, w)
         else case format_message env t p of
           Inl e \<Rightarrow> (Inl e, s, w)
         | Inr m \<Rightarrow>
             (case foldl (deliver_to env s targets m) ([], w) targets of (d, w') \<Rightarrow>
                let r' = r\<lparr>nr_statuses := d\<rparr> in (Inr r', s\<lparr>nt_records := AList.update i r' (nt_records s)\<rparr>, w')))"

definition record_to_delivery_result :: "notification_record \<Rightarrow> delivery_result" where
  "record_to_delivery_result r =
     (case find (\<lambda>(n, s). cd_status s = DELIVERED) (nr_statuses r) of
        Some (n, s) \<Rightarrow> (delivery_result_init True (cd_channel_name s))\<lparr>dr_attempts := cd_attempts s\<rparr>
      | None \<Rightarrow>
          if nr_statuses r \<noteq> [] then
            (let s = snd (last (nr_statuses r)) in
             (delivery_result_init False (cd_channel_name s))
               \<lparr>dr_attempts := cd_attempts s,
                dr_error := Some (case cd_error s of Some e \<Rightarrow> e | None \<Rightarrow> FMsg ''All retries exhausted'' []),
                dr_fallback_used := 1 < length (nr_statuses r)\<rparr>)
          else (delivery_result_init False ''none'')
                 \<lparr>dr_error := Some (FMsg ''No channels configured for this notification type'' [])\<rparr>)"

section \<open>The ways to send\<close>

text \<open>\<open>send(type, payload, priority)\<close>; a text as payload becomes its message.\<close>

definition message_payload :: "string \<Rightarrow> payload" where
  "message_payload m = (if m = [] then [] else [(''message'', JStr m)])"

definition send_typed where
  "send_typed env i t p prio s w = send_internal env i t p prio s w"

text \<open>\<open>send("message", notification_type=..., priority=...)\<close> and its positional form: the priority of
  the caller is not used.\<close>

definition send_message ::
  "'w notify_env \<Rightarrow> string \<Rightarrow> string \<Rightarrow> notification_type \<Rightarrow> priority \<Rightarrow> 'w notification_service \<Rightarrow> 'w \<Rightarrow>
   (py_error + delivery_result) \<times> 'w notification_service \<times> 'w" where
  "send_message env i m t prio s w =
     (case send_internal env i t [(''message'', JStr m)] HIGH s w of
        (Inl e, s', w') \<Rightarrow> (Inl e, s', w')
      | (Inr r, s', w') \<Rightarrow> (Inr (record_to_delivery_result r), s', w'))"

text \<open>\<open>send("type_value", payload, priority)\<close>\<close>

definition type_of_value :: "string \<Rightarrow> notification_type" where
  "type_of_value v = or_default (find (\<lambda>t. type_value t = v) notification_types) SYSTEM_ERROR"

definition send_by_value where
  "send_by_value env i v p prio s w = send_internal env i (type_of_value v) p prio s w"


definition deliver_single :: "fmsg \<Rightarrow> 'w channel \<Rightarrow> ('w, delivery_result) action" where
  "deliver_single m ch w =
     (case ch_send ch m w of
        (Inr ok, w') \<Rightarrow> (Inr (delivery_result_init ok (ch_name ch)), w')
      | (Inl e, w') \<Rightarrow> (Inr ((delivery_result_init False (ch_name ch))\<lparr>dr_error := Some (FMsg ''{}'' [FExc e])\<rparr>), w'))"

text \<open>\<open>late\<close> is the number of sends that were over when the time ran out.\<close>

definition send_to_all_channels :: "nat option \<Rightarrow> fmsg \<Rightarrow> 'w notification_service \<Rightarrow> 'w \<Rightarrow> delivery_result list \<times> 'w" where
  "send_to_all_channels late m s w =
     (case late of
        None \<Rightarrow>
          (case mapA (deliver_single m) (map snd (nt_channels s)) w of
             (Inr rs, w') \<Rightarrow> (rs, w') | (Inl _, w') \<Rightarrow> ([], w'))
      | Some n \<Rightarrow>
          if nt_channels s = [] then ([], w)
          else (map (\<lambda>(k, ch). (delivery_result_init False k)\<lparr>dr_error := Some (FMsg ''Timeout'' [])\<rparr>) (nt_channels s),
                snd (mapA (deliver_single m) (take n (map snd (nt_channels s))) w)))"

definition send_alert where
  "send_alert env i m level s w =
     send_internal env i (if level \<in> {''error'', ''critical''} then SYSTEM_ERROR else RISK_ALERT) [(''message'', JStr m)]
       (if level = ''critical'' then CRITICAL else NORMAL) s w"

text \<open>A trade notification: the channels in order until one accepts it or ten seconds are over.\<close>

fun try_channels ::
  "'w notify_env \<Rightarrow> pyfloat \<Rightarrow> fmsg \<Rightarrow> 'w notification_service \<Rightarrow> string list \<Rightarrow> 'w \<Rightarrow> delivery_result option \<times> 'w" where
  "try_channels env start m s [] w = (None, w)"
| "try_channels env start m s (n # ns) w =
     (let elapsed = f_sub (nf_monotonic env w) start in
      if 10 \<le> elapsed then (None, w)
      else case map_of (nt_channels s) n of
        None \<Rightarrow> try_channels env start m s ns w
      | Some ch \<Rightarrow>
          (case nf_wait_for env (f_sub 10 elapsed) (ch_send ch m) w of
             (Inr True, w') \<Rightarrow> (Some (delivery_result_init True n), w')
           | (_, w') \<Rightarrow> try_channels env start m s ns w'))"

definition send_trade_notification :: "'w notify_env \<Rightarrow> fmsg \<Rightarrow> bool \<Rightarrow> 'w notification_service \<Rightarrow> 'w \<Rightarrow> delivery_result \<times> 'w" where
  "send_trade_notification env m is_closed s w =
     (let typed = get_channels_for_notification (if is_closed then TRADE_CLOSED else TRADE_OPENED) HIGH s;
          names = (if typed = [] then nt_channel_order s else typed)
      in if names = [] then ((delivery_result_init False ''none'')\<lparr>dr_error := Some (FMsg ''No channels configured'' [])\<rparr>, w)
         else case try_channels env (nf_monotonic env w) m s names w of
           (Some r, w') \<Rightarrow> (r, w')
         | (None, w') \<Rightarrow>
             ((delivery_result_init False (last names))
                \<lparr>dr_error := Some (FMsg ''Trade notification delivery failed within 10s deadline'' [])\<rparr>, w'))"

definition send_kill_switch_notification where
  "send_kill_switch_notification late m s w = send_to_all_channels late m s w"

definition send_hft_circuit_breaker_notification where
  "send_hft_circuit_breaker_notification env i m s w = send_message env i m HFT_CIRCUIT_BREAKER HIGH s w"

definition send_hft_mode_disabled_notification where
  "send_hft_mode_disabled_notification env i m s w = send_message env i m HFT_MODE_DISABLED CRITICAL s w"

definition send_crisis_alert_notification where
  "send_crisis_alert_notification env i m s w = send_message env i m CRISIS_ALERT HIGH s w"

section \<open>Every target is settled\<close>










definition counting_channel :: "string \<Rightarrow> bool \<Rightarrow> string list channel" where
  "counting_channel n ok = \<lparr>ch_name = n, ch_send = (\<lambda>m w. (if ok then Inr True else Inl TimeoutError, w @ [n]))\<rparr>"

definition plain_env :: "string list notify_env" where
  "plain_env = \<lparr>nf_now = (\<lambda>w. 0), nf_monotonic = (\<lambda>w. 0), nf_sleep = (\<lambda>t w. w), nf_wait_for = (\<lambda>t a. a), nf_str = (\<lambda>v. [])\<rparr>"

definition three_channels :: "bool \<Rightarrow> string list notification_service" where
  "three_channels ok = notification_service_init
     [counting_channel ''telegram'' ok, counting_channel ''discord'' True, counting_channel ''email'' True] [] 3 30"


section \<open>Gaps\<close>

text \<open>
  A message sent with its priority, like the one on disabled high-frequency trading, goes to two
  channels only, also when it is critical.
\<close>

theorem critical_message_skips_third_channel:
  "snd (snd (send_hft_mode_disabled_notification plain_env ''1'' ''off'' (three_channels True) [])) = [''telegram'', ''discord'']"
  by code_simp

end
