(* ===== verification/Constants.thy ===== *)
theory Constants
  imports Py_Numeric
begin

text \<open>
  The system-wide constants of \<open>src/config/constants.py\<close>.
  A float constant is the binary64 number nearest to its literal.  Most uses convert it with
  \<open>Decimal(str(...))\<close>, which gives the literal back: that is what
  the three \<open>decimal_..._constants\<close> lemmas state.
\<close>

definition DEFAULT_RISK_PER_TRADE_PCT :: pyfloat where
  "DEFAULT_RISK_PER_TRADE_PCT = flt (1 / 100)"

definition MAX_POSITION_SIZE_PCT :: pyfloat where
  "MAX_POSITION_SIZE_PCT = flt (1 / 20)"

definition DAILY_MAX_LOSS_PCT :: pyfloat where
  "DAILY_MAX_LOSS_PCT = flt (3 / 100)"

definition DRAWDOWN_REDUCTION_PCT :: pyfloat where
  "DRAWDOWN_REDUCTION_PCT = flt (1 / 10)"

definition DRAWDOWN_SIZE_REDUCTION_FACTOR :: pyfloat where
  "DRAWDOWN_SIZE_REDUCTION_FACTOR = flt (1 / 4)"

definition KILL_SWITCH_DRAWDOWN_PCT :: pyfloat where
  "KILL_SWITCH_DRAWDOWN_PCT = flt (3 / 20)"

definition ATR_PERIOD :: int where
  "ATR_PERIOD = 14"

definition ATR_MULTIPLIER_DEFAULT :: pyfloat where
  "ATR_MULTIPLIER_DEFAULT = flt (3 / 2)"

definition ATR_VOLATILITY_ZSCORE_THRESHOLD :: pyfloat where
  "ATR_VOLATILITY_ZSCORE_THRESHOLD = flt (2)"

definition VOLATILITY_SIZE_REDUCTION_FACTOR :: pyfloat where
  "VOLATILITY_SIZE_REDUCTION_FACTOR = flt (1 / 2)"

definition MIN_RISK_REWARD_RATIO :: pyfloat where
  "MIN_RISK_REWARD_RATIO = flt (3 / 2)"

definition MAX_EXPOSURE_PER_CLASS_PCT :: pyfloat where
  "MAX_EXPOSURE_PER_CLASS_PCT = flt (3 / 10)"

definition MAX_TOTAL_EXPOSURE_PCT :: pyfloat where
  "MAX_TOTAL_EXPOSURE_PCT = flt (7 / 10)"

definition API_RETRY_BASE_SECONDS :: int where
  "API_RETRY_BASE_SECONDS = 2"

definition API_RETRY_MAX_ATTEMPTS :: int where
  "API_RETRY_MAX_ATTEMPTS = 5"

definition API_RETRY_MAX_WAIT_SECONDS :: int where
  "API_RETRY_MAX_WAIT_SECONDS = 62"

definition HEARTBEAT_INTERVAL_SECONDS :: int where
  "HEARTBEAT_INTERVAL_SECONDS = 30"

definition RECONNECT_MAX_ATTEMPTS :: int where
  "RECONNECT_MAX_ATTEMPTS = 5"

definition RECONNECT_INTERVAL_SECONDS :: int where
  "RECONNECT_INTERVAL_SECONDS = 10"

definition KILL_SWITCH_CLOSE_TIMEOUT_SECONDS :: int where
  "KILL_SWITCH_CLOSE_TIMEOUT_SECONDS = 10"

definition KILL_SWITCH_MIN_ACTIVE_MINUTES :: int where
  "KILL_SWITCH_MIN_ACTIVE_MINUTES = 5"

definition REQUEST_QUEUE_MAX_SIZE :: int where
  "REQUEST_QUEUE_MAX_SIZE = 50"

definition TICK_STALENESS_SECONDS :: int where
  "TICK_STALENESS_SECONDS = 60"

definition HFT_MAX_ORDER_RATE_DEFAULT :: int where
  "HFT_MAX_ORDER_RATE_DEFAULT = 100"

definition HFT_MAX_PER_INSTRUMENT_RATE :: int where
  "HFT_MAX_PER_INSTRUMENT_RATE = 50"

definition HFT_BATCH_WINDOW_MS :: int where
  "HFT_BATCH_WINDOW_MS = 100"

definition HFT_TICK_PROCESSING_TARGET_MS :: int where
  "HFT_TICK_PROCESSING_TARGET_MS = 10"

definition HFT_MAX_TRADE_SIZE_PCT :: pyfloat where
  "HFT_MAX_TRADE_SIZE_PCT = flt (1 / 200)"

definition HFT_MAX_EXPOSURE_PCT :: pyfloat where
  "HFT_MAX_EXPOSURE_PCT = flt (3 / 20)"

definition HFT_CIRCUIT_BREAKER_PNL_PCT :: pyfloat where
  "HFT_CIRCUIT_BREAKER_PNL_PCT = flt (- (1 / 200))"

definition HFT_CIRCUIT_BREAKER_DURATION_SECONDS :: int where
  "HFT_CIRCUIT_BREAKER_DURATION_SECONDS = 60"

definition HFT_CIRCUIT_BREAKER_MAX_ACTIVATIONS :: int where
  "HFT_CIRCUIT_BREAKER_MAX_ACTIVATIONS = 3"

definition HFT_CIRCUIT_BREAKER_WINDOW_HOURS :: int where
  "HFT_CIRCUIT_BREAKER_WINDOW_HOURS = 1"

definition HFT_LATENCY_REJECTION_MS :: int where
  "HFT_LATENCY_REJECTION_MS = 500"

definition HFT_THROTTLE_REJECTION_RATE_PCT :: pyfloat where
  "HFT_THROTTLE_REJECTION_RATE_PCT = flt (1 / 5)"

definition NEWS_MIN_SOURCES :: int where
  "NEWS_MIN_SOURCES = 3"

definition NEWS_MAX_INGESTION_DELAY_SECONDS :: int where
  "NEWS_MAX_INGESTION_DELAY_SECONDS = 30"

definition NEWS_SENTIMENT_ANALYSIS_TIMEOUT_SECONDS :: int where
  "NEWS_SENTIMENT_ANALYSIS_TIMEOUT_SECONDS = 5"

definition NEWS_SOURCE_HEALTH_CHECK_INTERVAL_SECONDS :: int where
  "NEWS_SOURCE_HEALTH_CHECK_INTERVAL_SECONDS = 60"

definition NEWS_SOURCE_UNAVAILABLE_THRESHOLD_SECONDS :: int where
  "NEWS_SOURCE_UNAVAILABLE_THRESHOLD_SECONDS = 300"

definition NEWS_CRISIS_ARTICLE_THRESHOLD :: int where
  "NEWS_CRISIS_ARTICLE_THRESHOLD = 3"

definition NEWS_CRISIS_SENTIMENT_THRESHOLD :: pyfloat where
  "NEWS_CRISIS_SENTIMENT_THRESHOLD = flt (- (7 / 10))"

definition NEWS_CRISIS_TIME_WINDOW_MINUTES :: int where
  "NEWS_CRISIS_TIME_WINDOW_MINUTES = 10"

definition NEWS_CRISIS_PERSISTENCE_MINUTES :: int where
  "NEWS_CRISIS_PERSISTENCE_MINUTES = 30"

definition NEWS_CRISIS_RECOVERY_THRESHOLD :: pyfloat where
  "NEWS_CRISIS_RECOVERY_THRESHOLD = flt (- (3 / 10))"

definition NEWS_HIGH_IMPACT_CONFIDENCE_PENALTY :: int where
  "NEWS_HIGH_IMPACT_CONFIDENCE_PENALTY = 25"

definition NEWS_PRE_EVENT_RISK_WINDOW_MINUTES :: int where
  "NEWS_PRE_EVENT_RISK_WINDOW_MINUTES = 15"

definition NEWS_PRE_EVENT_SIGNAL_PAUSE_MINUTES :: int where
  "NEWS_PRE_EVENT_SIGNAL_PAUSE_MINUTES = 5"

definition NEWS_EVENT_SIZE_REDUCTION_FACTOR :: pyfloat where
  "NEWS_EVENT_SIZE_REDUCTION_FACTOR = flt (1 / 2)"

definition GEOPOLITICAL_RISK_HIGH_THRESHOLD :: int where
  "GEOPOLITICAL_RISK_HIGH_THRESHOLD = 70"

definition GEOPOLITICAL_RISK_UPDATE_INTERVAL_MINUTES :: int where
  "GEOPOLITICAL_RISK_UPDATE_INTERVAL_MINUTES = 5"

definition SOURCE_CREDIBILITY_TIER1 :: pyfloat where
  "SOURCE_CREDIBILITY_TIER1 = flt (1)"

definition SOURCE_CREDIBILITY_TIER2 :: pyfloat where
  "SOURCE_CREDIBILITY_TIER2 = flt (7 / 10)"

definition SOURCE_CREDIBILITY_SOCIAL :: pyfloat where
  "SOURCE_CREDIBILITY_SOCIAL = flt (2 / 5)"

definition MISTAKE_PATTERN_THRESHOLD :: int where
  "MISTAKE_PATTERN_THRESHOLD = 5"

definition MISTAKE_PATTERN_WINDOW_DAYS :: int where
  "MISTAKE_PATTERN_WINDOW_DAYS = 30"

definition MISTAKE_RESOLUTION_STREAK :: int where
  "MISTAKE_RESOLUTION_STREAK = 20"

definition MISTAKE_BASE_CONFIDENCE_PENALTY :: int where
  "MISTAKE_BASE_CONFIDENCE_PENALTY = 20"

definition MISTAKE_REACTIVATED_CONFIDENCE_PENALTY :: int where
  "MISTAKE_REACTIVATED_CONFIDENCE_PENALTY = 30"

definition MISTAKE_BASE_SIZE_REDUCTION :: pyfloat where
  "MISTAKE_BASE_SIZE_REDUCTION = flt (7 / 10)"

definition MISTAKE_REACTIVATED_SIZE_REDUCTION :: pyfloat where
  "MISTAKE_REACTIVATED_SIZE_REDUCTION = flt (1 / 2)"

definition MISTAKE_PATTERN_MATCH_INDICATORS :: int where
  "MISTAKE_PATTERN_MATCH_INDICATORS = 3"

definition MISTAKE_PATTERN_TOTAL_INDICATORS :: int where
  "MISTAKE_PATTERN_TOTAL_INDICATORS = 5"

definition CONFIDENCE_THRESHOLD_DEFAULT :: int where
  "CONFIDENCE_THRESHOLD_DEFAULT = 60"

definition CONFIDENCE_THRESHOLD_ELEVATED :: int where
  "CONFIDENCE_THRESHOLD_ELEVATED = 75"

definition CONFIDENCE_THRESHOLD_NEWS_DOWN :: int where
  "CONFIDENCE_THRESHOLD_NEWS_DOWN = 80"

definition MAX_TRADES_PER_DAY_DEFAULT :: int where
  "MAX_TRADES_PER_DAY_DEFAULT = 10"

definition MIN_TRADE_INTERVAL_MINUTES :: int where
  "MIN_TRADE_INTERVAL_MINUTES = 5"

definition CONSECUTIVE_LOSS_COOLDOWN_HOURS :: int where
  "CONSECUTIVE_LOSS_COOLDOWN_HOURS = 1"

definition CONSECUTIVE_LOSS_THRESHOLD :: int where
  "CONSECUTIVE_LOSS_THRESHOLD = 3"

definition WIN_RATE_THROTTLE_THRESHOLD :: pyfloat where
  "WIN_RATE_THROTTLE_THRESHOLD = flt (2 / 5)"

definition ML_ACCURACY_THRESHOLD :: pyfloat where
  "ML_ACCURACY_THRESHOLD = flt (13 / 25)"

definition STRATEGY_DISABLE_SHARPE_THRESHOLD :: pyfloat where
  "STRATEGY_DISABLE_SHARPE_THRESHOLD = flt (1 / 2)"

definition STRATEGY_ENABLE_SHARPE_THRESHOLD :: pyfloat where
  "STRATEGY_ENABLE_SHARPE_THRESHOLD = flt (1)"

definition STRATEGY_SUSPENSION_DAYS :: int where
  "STRATEGY_SUSPENSION_DAYS = 14"

definition COPY_MAX_TRADERS :: int where
  "COPY_MAX_TRADERS = 10"

definition COPY_MAX_ALLOCATION_PCT :: pyfloat where
  "COPY_MAX_ALLOCATION_PCT = flt (1 / 10)"

definition COPY_MIN_ALLOCATION_PCT :: pyfloat where
  "COPY_MIN_ALLOCATION_PCT = flt (1 / 100)"

definition COPY_MIN_TRACK_RECORD_DAYS :: int where
  "COPY_MIN_TRACK_RECORD_DAYS = 90"

definition COPY_MIN_WIN_RATE :: pyfloat where
  "COPY_MIN_WIN_RATE = flt (11 / 20)"

definition COPY_MAX_DRAWDOWN :: pyfloat where
  "COPY_MAX_DRAWDOWN = flt (1 / 5)"

definition COPY_DRAWDOWN_STOP_PCT :: pyfloat where
  "COPY_DRAWDOWN_STOP_PCT = flt (3 / 20)"

definition COPY_CLOSE_TIMEOUT_SECONDS :: int where
  "COPY_CLOSE_TIMEOUT_SECONDS = 2"

definition COPY_EXECUTION_TIMEOUT_SECONDS :: int where
  "COPY_EXECUTION_TIMEOUT_SECONDS = 3"

definition BACKTEST_DEFAULT_SLIPPAGE_PIPS :: pyfloat where
  "BACKTEST_DEFAULT_SLIPPAGE_PIPS = flt (1 / 2)"

definition BACKTEST_WALK_FORWARD_IS_RATIO :: pyfloat where
  "BACKTEST_WALK_FORWARD_IS_RATIO = flt (7 / 10)"

definition BACKTEST_WALK_FORWARD_OOS_RATIO :: pyfloat where
  "BACKTEST_WALK_FORWARD_OOS_RATIO = flt (3 / 10)"

definition MONTE_CARLO_ITERATIONS :: int where
  "MONTE_CARLO_ITERATIONS = 1000"

definition BACKTEST_MIN_DAYS :: int where
  "BACKTEST_MIN_DAYS = 30"

definition BACKTEST_MIN_TRADES :: int where
  "BACKTEST_MIN_TRADES = 100"

definition RETRAINING_MIN_TRADES :: int where
  "RETRAINING_MIN_TRADES = 50"

definition RETRAINING_EVALUATION_DAYS :: int where
  "RETRAINING_EVALUATION_DAYS = 5"

definition RETRAINING_BASELINE_DAYS :: int where
  "RETRAINING_BASELINE_DAYS = 20"

definition ML_TRAINING_WINDOW_DAYS :: int where
  "ML_TRAINING_WINDOW_DAYS = 90"

definition ML_RETRAINING_TIMEOUT_MINUTES :: int where
  "ML_RETRAINING_TIMEOUT_MINUTES = 30"

text \<open>The constants that are not dyadic, as binary64 numbers.\<close>

lemma constant_values:
  "DEFAULT_RISK_PER_TRADE_PCT = 5764607523034235 / 576460752303423488"
  "MAX_POSITION_SIZE_PCT = 3602879701896397 / 72057594037927936"
  "DAILY_MAX_LOSS_PCT = 1080863910568919 / 36028797018963968"
  "DRAWDOWN_REDUCTION_PCT = 3602879701896397 / 36028797018963968"
  "DRAWDOWN_SIZE_REDUCTION_FACTOR = 1 / 4"
  "KILL_SWITCH_DRAWDOWN_PCT = 5404319552844595 / 36028797018963968"
  "ATR_MULTIPLIER_DEFAULT = 3 / 2"
  "VOLATILITY_SIZE_REDUCTION_FACTOR = 1 / 2"
  "MIN_RISK_REWARD_RATIO = 3 / 2"
  "MAX_EXPOSURE_PER_CLASS_PCT = 5404319552844595 / 18014398509481984"
  "MAX_TOTAL_EXPOSURE_PCT = 3152519739159347 / 4503599627370496"
  "HFT_MAX_TRADE_SIZE_PCT = 5764607523034235 / 1152921504606846976"
  "HFT_MAX_EXPOSURE_PCT = 5404319552844595 / 36028797018963968"
  "HFT_CIRCUIT_BREAKER_PNL_PCT = - (5764607523034235 / 1152921504606846976)"
  by code_simp+

lemma decimal_risk_constants [simp]:
  "dec_of_float DEFAULT_RISK_PER_TRADE_PCT = 1/100"
  "dec_of_float MAX_POSITION_SIZE_PCT = 1/20"
  "dec_of_float DAILY_MAX_LOSS_PCT = 3/100"
  "dec_of_float DRAWDOWN_REDUCTION_PCT = 1/10"
  "dec_of_float DRAWDOWN_SIZE_REDUCTION_FACTOR = 1/4"
  unfolding constant_values by code_simp+

lemma decimal_exposure_constants [simp]:
  "dec_of_float KILL_SWITCH_DRAWDOWN_PCT = 3/20"
  "dec_of_float ATR_MULTIPLIER_DEFAULT = 3/2"
  "dec_of_float VOLATILITY_SIZE_REDUCTION_FACTOR = 1/2"
  "dec_of_float MIN_RISK_REWARD_RATIO = 3/2"
  "dec_of_float MAX_EXPOSURE_PER_CLASS_PCT = 3/10"
  unfolding constant_values by code_simp+

lemma decimal_hft_constants [simp]:
  "dec_of_float MAX_TOTAL_EXPOSURE_PCT = 7/10"
  "dec_of_float HFT_MAX_TRADE_SIZE_PCT = 1/200"
  "dec_of_float HFT_MAX_EXPOSURE_PCT = 3/20"
  "dec_of_float HFT_CIRCUIT_BREAKER_PNL_PCT = - (1/200)"
  unfolding constant_values by code_simp+

lemma float_constants [simp]:
  "ATR_VOLATILITY_ZSCORE_THRESHOLD = 2" "VOLATILITY_SIZE_REDUCTION_FACTOR = 1/2"
  "DRAWDOWN_SIZE_REDUCTION_FACTOR = 1/4" "MISTAKE_REACTIVATED_SIZE_REDUCTION = 1/2"
  by code_simp+

end
