(* ===== verification/Overtrading_Guard.thy ===== *)
theory Overtrading_Guard
  imports Constants
begin

text \<open>
  The trade frequency rules, \<open>src/strategy/overtrading_guard.py\<close>: the daily number of trades per
  strategy and instrument, the minimum interval, the cooldown after consecutive losses and the
  throttle at a low win rate.  Times are naive UTC datetimes; \<open>record_loss\<close> reads the wall clock
  itself, the other operations get the time from the caller.
\<close>

section \<open>State\<close>

record guard_decision =
  gd_allowed :: bool
  gd_reason :: "fmsg option"
  gd_elevated_threshold :: "int option"

record overtrading_guard =
  max_trades_per_day :: int
  min_interval :: micros
  cooldown_duration :: micros
  trade_counts :: "string \<rightharpoonup> (string \<rightharpoonup> int)"
  last_trade_times :: "string \<rightharpoonup> micros"
  consecutive_losses :: "string \<rightharpoonup> int"
  cooldown_start :: "string \<rightharpoonup> micros"

definition guard_init :: "int option \<Rightarrow> int option \<Rightarrow> int option \<Rightarrow> overtrading_guard" where
  "guard_init per_day interval cooldown =
     \<lparr>max_trades_per_day = max 1 (min (case per_day of Some n \<Rightarrow> n | None \<Rightarrow> MAX_TRADES_PER_DAY_DEFAULT) 100),
      min_interval = minutes (case interval of Some n \<Rightarrow> n | None \<Rightarrow> MIN_TRADE_INTERVAL_MINUTES),
      cooldown_duration = hours (case cooldown of Some n \<Rightarrow> n | None \<Rightarrow> CONSECUTIVE_LOSS_COOLDOWN_HOURS),
      trade_counts = Map.empty, last_trade_times = Map.empty, consecutive_losses = Map.empty,
      cooldown_start = Map.empty\<rparr>"

section \<open>Operations\<close>

definition get_trade_count :: "overtrading_guard \<Rightarrow> string \<Rightarrow> string \<Rightarrow> int" where
  "get_trade_count g strategy i =
     (case trade_counts g strategy of
        Some counts \<Rightarrow> (case counts i of Some n \<Rightarrow> n | None \<Rightarrow> 0) | None \<Rightarrow> 0)"

definition loss_count :: "overtrading_guard \<Rightarrow> string \<Rightarrow> int" where
  "loss_count g i = (case consecutive_losses g i of Some n \<Rightarrow> n | None \<Rightarrow> 0)"

definition effective_max :: "overtrading_guard \<Rightarrow> pyfloat \<Rightarrow> int" where
  "effective_max g win_rate =
     (if win_rate < WIN_RATE_THROTTLE_THRESHOLD then max 1 (max_trades_per_day g div 2)
      else max_trades_per_day g)"

definition blocked :: "fmsg \<Rightarrow> guard_decision" where
  "blocked why = \<lparr>gd_allowed = False, gd_reason = Some why, gd_elevated_threshold = None\<rparr>"

text \<open>Rule 3: the reason when the cooldown blocks; an expired cooldown is reset.\<close>

definition check_cooldown :: "micros \<Rightarrow> string \<Rightarrow> overtrading_guard \<Rightarrow> fmsg option \<times> overtrading_guard" where
  "check_cooldown now i g =
     (if CONSECUTIVE_LOSS_THRESHOLD \<le> loss_count g i
      then (case cooldown_start g i of
              None \<Rightarrow> (None, g)
            | Some start \<Rightarrow>
                if now < start + cooldown_duration g
                then (Some (FMsg ''Consecutive loss cooldown active: {} losses on {}, {:.0f}s remaining''
                              [FInt (loss_count g i), FStr i,
                               FNum (total_seconds (start + cooldown_duration g - now))]), g)
                else (None, g\<lparr>consecutive_losses := (consecutive_losses g)(i \<mapsto> 0),
                              cooldown_start := (cooldown_start g)(i := None)\<rparr>))
      else (None, g))"

text \<open>Rule 2: the reason when the last trade on the instrument is too recent.\<close>

definition check_interval :: "micros \<Rightarrow> string \<Rightarrow> overtrading_guard \<Rightarrow> fmsg option" where
  "check_interval now i g =
     (case last_trade_times g i of
        None \<Rightarrow> None
      | Some prev \<Rightarrow>
          if now - prev < min_interval g
          then Some (FMsg ''Minimum interval not met: {:.0f}s remaining for {}''
                       [FNum (total_seconds (min_interval g - (now - prev))), FStr i])
          else None)"

definition can_trade ::
  "string \<Rightarrow> string \<Rightarrow> micros \<Rightarrow> pyfloat \<Rightarrow> bool \<Rightarrow> overtrading_guard \<Rightarrow> guard_decision \<times> overtrading_guard" where
  "can_trade strategy i now win_rate is_hft g =
     (if is_hft then (\<lparr>gd_allowed = True, gd_reason = None, gd_elevated_threshold = None\<rparr>, g)
      else if effective_max g win_rate \<le> get_trade_count g strategy i
      then (blocked (FMsg ''Daily trade limit reached: {}/{} trades for strategy '{}' on {}''
                       [FInt (get_trade_count g strategy i), FInt (effective_max g win_rate),
                        FStr strategy, FStr i]), g)
      else case check_interval now i g of
        Some why \<Rightarrow> (blocked why, g)
      | None \<Rightarrow>
          (case check_cooldown now i g of
             (Some why, g') \<Rightarrow> (blocked why, g')
           | (None, g') \<Rightarrow>
               (\<lparr>gd_allowed = True, gd_reason = None,
                 gd_elevated_threshold =
                   (if win_rate < WIN_RATE_THROTTLE_THRESHOLD then Some CONFIDENCE_THRESHOLD_ELEVATED else None)\<rparr>,
                g')))"

definition record_trade :: "string \<Rightarrow> string \<Rightarrow> micros \<Rightarrow> overtrading_guard \<Rightarrow> overtrading_guard" where
  "record_trade strategy i time g =
     (let counts = (case trade_counts g strategy of Some c \<Rightarrow> c | None \<Rightarrow> Map.empty)
      in g\<lparr>trade_counts := (trade_counts g)(strategy \<mapsto> counts(i \<mapsto> (case counts i of Some n \<Rightarrow> n | None \<Rightarrow> 0) + 1)),
           last_trade_times := (last_trade_times g)(i \<mapsto> time)\<rparr>)"

definition record_loss :: "string \<Rightarrow> micros \<Rightarrow> overtrading_guard \<Rightarrow> overtrading_guard" where
  "record_loss i utcnow g =
     (let n = loss_count g i + 1
      in g\<lparr>consecutive_losses := (consecutive_losses g)(i \<mapsto> n),
           cooldown_start :=
             (if CONSECUTIVE_LOSS_THRESHOLD \<le> n \<and> cooldown_start g i = None
              then (cooldown_start g)(i \<mapsto> utcnow) else cooldown_start g)\<rparr>)"

definition record_win :: "string \<Rightarrow> overtrading_guard \<Rightarrow> overtrading_guard" where
  "record_win i g =
     g\<lparr>consecutive_losses := (consecutive_losses g)(i \<mapsto> 0), cooldown_start := (cooldown_start g)(i := None)\<rparr>"

definition reset_daily_counts :: "overtrading_guard \<Rightarrow> overtrading_guard" where
  "reset_daily_counts g = g\<lparr>trade_counts := Map.empty\<rparr>"

definition is_in_cooldown :: "overtrading_guard \<Rightarrow> string \<Rightarrow> micros \<Rightarrow> bool" where
  "is_in_cooldown g i now =
     (if loss_count g i < CONSECUTIVE_LOSS_THRESHOLD then False
      else case cooldown_start g i of None \<Rightarrow> False | Some start \<Rightarrow> now < start + cooldown_duration g)"

named_theorems guard_defs

lemmas [guard_defs] =
  get_trade_count_def loss_count_def check_cooldown_def check_interval_def can_trade_def record_trade_def
  record_loss_def record_win_def reset_daily_counts_def Let_def

section \<open>Runs\<close>

text \<open>
  A trade is recorded when the guard allows it.  The other events are losses, wins, checks
  without a trade and the daily reset.
\<close>

datatype guard_event =
    Request string string micros pyfloat bool
  | Loss string micros
  | Win string
  | DayStart

fun guard_apply :: "guard_event \<Rightarrow> overtrading_guard \<Rightarrow> overtrading_guard" where
  "guard_apply (Request s i now wr hft) g =
     (case can_trade s i now wr hft g of (d, g') \<Rightarrow> if gd_allowed d then record_trade s i now g' else g')"
| "guard_apply (Loss i now) g = record_loss i now g"
| "guard_apply (Win i) g = record_win i g"
| "guard_apply DayStart g = reset_daily_counts g"

text \<open>The times of the trades executed on an instrument by requests outside HFT.\<close>

fun trades_on :: "string \<Rightarrow> guard_event list \<Rightarrow> overtrading_guard \<Rightarrow> micros list" where
  "trades_on i [] g = []"
| "trades_on i (e # es) g =
     (case e of
        Request s j now wr hft \<Rightarrow>
          (if j = i \<and> gd_allowed (fst (can_trade s j now wr hft g)) then [now] else [])
      | _ \<Rightarrow> []) @ trades_on i es (guard_apply e g)"

definition no_hft :: "guard_event list \<Rightarrow> bool" where
  "no_hft es = list_all (\<lambda>e. case e of Request s i now wr hft \<Rightarrow> \<not> hft | _ \<Rightarrow> True) es"

fun spaced_after :: "micros \<Rightarrow> micros option \<Rightarrow> micros list \<Rightarrow> bool" where
  "spaced_after d prev [] = True"
| "spaced_after d prev (t # ts) =
     ((case prev of None \<Rightarrow> True | Some s \<Rightarrow> s + d \<le> t) \<and> spaced_after d (Some t) ts)"

lemma can_trade_frame:
  "last_trade_times (snd (can_trade s i now wr hft g)) = last_trade_times g"
  "trade_counts (snd (can_trade s i now wr hft g)) = trade_counts g"
  "min_interval (snd (can_trade s i now wr hft g)) = min_interval g"
  "max_trades_per_day (snd (can_trade s i now wr hft g)) = max_trades_per_day g"
  "cooldown_duration (snd (can_trade s i now wr hft g)) = cooldown_duration g"
  by (auto simp: guard_defs split: option.split prod.split)

lemma can_trade_allowedD:
  assumes "gd_allowed (fst (can_trade s i now wr False g))"
  shows "get_trade_count g s i < effective_max g wr" "check_interval now i g = None"
    "fst (check_cooldown now i g) = None"
  using assms by (auto simp: can_trade_def blocked_def split: if_splits option.splits prod.splits)

lemma guard_apply_frame:
  "min_interval (guard_apply e g) = min_interval g"
  "max_trades_per_day (guard_apply e g) = max_trades_per_day g"
  "cooldown_duration (guard_apply e g) = cooldown_duration g"
proof -
  have "min_interval (guard_apply e g) = min_interval g \<and>
      max_trades_per_day (guard_apply e g) = max_trades_per_day g \<and>
      cooldown_duration (guard_apply e g) = cooldown_duration g"
  proof (cases e)
    case (Request s j now wr hft)
    show ?thesis using can_trade_frame[of s j now wr hft g]
      by (cases "can_trade s j now wr hft g") (simp add: Request record_trade_def Let_def)
  qed (simp_all add: record_loss_def record_win_def reset_daily_counts_def Let_def)
  then show "min_interval (guard_apply e g) = min_interval g"
    "max_trades_per_day (guard_apply e g) = max_trades_per_day g"
    "cooldown_duration (guard_apply e g) = cooldown_duration g" by simp_all
qed

lemma last_trade_apply:
  "last_trade_times (guard_apply e g) i =
     (case e of
        Request s j now wr hft \<Rightarrow>
          if j = i \<and> gd_allowed (fst (can_trade s j now wr hft g)) then Some now else last_trade_times g i
      | _ \<Rightarrow> last_trade_times g i)"
proof (cases e)
  case (Request s j now wr hft)
  show ?thesis using can_trade_frame(1)[of s j now wr hft g]
    by (cases "can_trade s j now wr hft g") (simp add: Request record_trade_def Let_def)
qed (simp_all add: record_loss_def record_win_def reset_daily_counts_def Let_def)

lemma trades_spaced_from:
  "no_hft es \<Longrightarrow> spaced_after (min_interval g) (last_trade_times g i) (trades_on i es g)"
proof (induction es arbitrary: g)
  case (Cons e es)
  have IH: "spaced_after (min_interval g) (last_trade_times (guard_apply e g) i) (trades_on i es (guard_apply e g))"
    using Cons.IH[of "guard_apply e g"] Cons.prems by (simp add: guard_apply_frame no_hft_def)
  show ?case
  proof (cases "\<exists>s now wr. e = Request s i now wr False \<and> gd_allowed (fst (can_trade s i now wr False g))")
    case True
    then obtain s now wr where e: "e = Request s i now wr False" "gd_allowed (fst (can_trade s i now wr False g))"
      by blast
    have "check_interval now i g = None" using e(2) by (rule can_trade_allowedD)
    then have "case last_trade_times g i of None \<Rightarrow> True | Some t \<Rightarrow> t + min_interval g \<le> now"
      by (auto simp: check_interval_def split: option.splits if_splits)
    then show ?thesis using IH e by (simp add: last_trade_apply del: guard_apply.simps)
  next
    case False
    then show ?thesis using IH Cons.prems
      by (cases e) (auto simp: last_trade_apply no_hft_def simp del: guard_apply.simps split: if_splits)
  qed
qed simp

section \<open>What the guard guarantees\<close>

text \<open>
  Claim: outside HFT any two consecutive trades on one instrument, of whatever strategies, are
  at least the minimum interval (5 minutes by default) apart, through any requests, losses, wins
  and daily resets.
\<close>

theorem trades_are_spaced:
  assumes "no_hft es"
  shows "spaced_after (min_interval (guard_init per_day interval cooldown)) None
           (trades_on i es (guard_init per_day interval cooldown))"
  using trades_spaced_from[OF assms, of "guard_init per_day interval cooldown" i]
  by (simp add: guard_init_def)

theorem trades_are_spaced_witness:
  "trades_on ''X'' [Request ''a'' ''X'' 0 (1/2) False, Request ''b'' ''X'' (minutes 4) (1/2) False,
                Request ''b'' ''X'' (minutes 5) (1/2) False] (guard_init None None None) = [0, minutes 5] \<and>
   spaced_after (minutes 5) None [0, minutes 5]"
proof -
  have t: "trades_on ''X'' [Request ''a'' ''X'' 0 (1/2) False, Request ''b'' ''X'' (minutes 4) (1/2) False,
                Request ''b'' ''X'' (minutes 5) (1/2) False] (guard_init None None None) = [0, minutes 5]"
    by code_simp
  have m: "min_interval (guard_init None None None) = minutes 5"
    by (simp add: guard_init_def MIN_TRADE_INTERVAL_MINUTES_def)
  have "no_hft [Request ''a'' ''X'' 0 (1/2) False, Request ''b'' ''X'' (minutes 4) (1/2) False,
                Request ''b'' ''X'' (minutes 5) (1/2) False]"
    by (simp add: no_hft_def)
  from trades_are_spaced[OF this, of None None None "''X''", unfolded t m] t show ?thesis by blast
qed

lemma effective_max_bounds: "1 \<le> max_trades_per_day g \<Longrightarrow> effective_max g wr \<le> max_trades_per_day g"
  by (auto simp: effective_max_def)

definition counts_ok :: "overtrading_guard \<Rightarrow> bool" where
  "counts_ok g \<longleftrightarrow> 1 \<le> max_trades_per_day g \<and> (\<forall>s i. get_trade_count g s i \<le> max_trades_per_day g)"

lemma get_trade_count_record:
  "get_trade_count (record_trade s i t g) s' i' = get_trade_count g s' i' + (if s' = s \<and> i' = i then 1 else 0)"
  by (auto simp: get_trade_count_def record_trade_def Let_def split: option.split)

lemma get_trade_count_frame:
  "get_trade_count (snd (can_trade s i now wr hft g)) s' i' = get_trade_count g s' i'"
  "get_trade_count (record_loss i t g) s' i' = get_trade_count g s' i'"
  "get_trade_count (record_win i g) s' i' = get_trade_count g s' i'"
  "get_trade_count (reset_daily_counts g) s' i' = 0"
  by (simp_all add: get_trade_count_def can_trade_frame record_loss_def record_win_def reset_daily_counts_def Let_def)

lemma counts_ok_apply:
  assumes "counts_ok g" "no_hft [e]"
  shows "counts_ok (guard_apply e g)"
proof (cases e)
  case (Request s j now wr hft)
  obtain d g' where c: "can_trade s j now wr False g = (d, g')" by (cases "can_trade s j now wr False g")
  have cnt: "get_trade_count g' s' i' = get_trade_count g s' i'" for s' i'
    using get_trade_count_frame(1)[of s j now wr False g] by (simp add: c)
  have "gd_allowed d \<Longrightarrow> get_trade_count g s j + 1 \<le> max_trades_per_day g"
    using can_trade_allowedD(1)[of s j now wr g] effective_max_bounds[of g wr] assms(1)
    by (simp add: c counts_ok_def)
  then show ?thesis using assms Request guard_apply_frame(2)[of e g]
    by (auto simp: counts_ok_def no_hft_def c get_trade_count_record cnt)
qed (use assms guard_apply_frame(2)[of e g] in \<open>auto simp: counts_ok_def get_trade_count_frame\<close>)

lemma counts_ok_run: "counts_ok g \<Longrightarrow> no_hft es \<Longrightarrow> counts_ok (fold guard_apply es g)"
proof (induction es arbitrary: g)
  case (Cons e es)
  have "no_hft [e]" "no_hft es" using Cons.prems(2) by (simp_all add: no_hft_def)
  with Cons.IH[OF counts_ok_apply[OF Cons.prems(1)]] show ?case by simp
qed simp

lemma max_per_day_run: "max_trades_per_day (fold guard_apply es g) = max_trades_per_day g"
  by (induction es arbitrary: g) (simp_all add: guard_apply_frame del: guard_apply.simps)

text \<open>
  Claim: outside HFT the number of trades a strategy has made on an instrument since the last
  daily reset never exceeds the configured maximum, which lies between 1 and 100.
\<close>

theorem daily_trades_bounded:
  assumes "no_hft es"
  shows "get_trade_count (fold guard_apply es (guard_init per_day interval cooldown)) s i
      \<le> max_trades_per_day (guard_init per_day interval cooldown) \<and>
    1 \<le> max_trades_per_day (guard_init per_day interval cooldown) \<and>
    max_trades_per_day (guard_init per_day interval cooldown) \<le> 100"
proof -
  have m: "1 \<le> max_trades_per_day (guard_init per_day interval cooldown)"
    "max_trades_per_day (guard_init per_day interval cooldown) \<le> 100"
    by (simp_all add: guard_init_def)
  have "counts_ok (guard_init per_day interval cooldown)"
    using m(1) by (simp add: counts_ok_def get_trade_count_def) (simp add: guard_init_def)
  from counts_ok_run[OF this assms] show ?thesis using m by (simp add: counts_ok_def max_per_day_run)
qed

theorem daily_trades_bounded_witness:
  "get_trade_count (fold guard_apply [Request ''a'' ''X'' 0 (1/2) False, Request ''a'' ''X'' (minutes 9) (1/2) False]
      (guard_init (Some 1) None None)) ''a'' ''X'' \<le> 1"
proof -
  have "no_hft [Request ''a'' ''X'' 0 (1/2) False, Request ''a'' ''X'' (minutes 9) (1/2) False]"
    by (simp add: no_hft_def)
  moreover have "max_trades_per_day (guard_init (Some 1) None None) = 1" by (simp add: guard_init_def)
  ultimately show ?thesis using daily_trades_bounded[of _ "Some 1" None None "''a''" "''X''"] by metis
qed

text \<open>An instrument in cooldown since \<open>t\<close>.\<close>

definition cooling :: "micros \<Rightarrow> string \<Rightarrow> overtrading_guard \<Rightarrow> bool" where
  "cooling t i g \<longleftrightarrow> 3 \<le> loss_count g i \<and> cooldown_start g i = Some t"

fun within_cooldown :: "micros \<Rightarrow> string \<Rightarrow> guard_event \<Rightarrow> bool" where
  "within_cooldown end_time i (Request s j now wr hft) = (j \<noteq> i \<or> now < end_time)"
| "within_cooldown end_time i (Win j) = (j \<noteq> i)"
| "within_cooldown end_time i e = True"

lemma cooling_blocks:
  assumes "cooling t i g" "now < t + cooldown_duration g"
  shows "\<not> gd_allowed (fst (can_trade s i now wr False g))" "snd (can_trade s i now wr hft g) = g"
  using assms
  by (auto simp: cooling_def can_trade_def check_cooldown_def blocked_def CONSECUTIVE_LOSS_THRESHOLD_def
      split: option.split)

lemma can_trade_other:
  "j \<noteq> i \<Longrightarrow> cooling t i (snd (can_trade s j now wr hft g)) = cooling t i g"
  by (auto simp: cooling_def can_trade_def check_cooldown_def loss_count_def split: option.split)

lemma cooling_record: "cooling t i (record_trade s j now g) = cooling t i g"
  by (simp add: cooling_def record_trade_def loss_count_def Let_def)

lemma cooling_apply:
  assumes "cooling t i g" "within_cooldown (t + cooldown_duration g) i e"
  shows "cooling t i (guard_apply e g)"
proof (cases e)
  case (Request s j now wr hft)
  have "cooling t i (snd (can_trade s j now wr hft g))"
  proof (cases "j = i")
    case True
    then show ?thesis using assms Request cooling_blocks(2)[OF assms(1), of now] by simp
  next
    case False
    then show ?thesis using assms(1) by (simp add: can_trade_other)
  qed
  then show ?thesis by (cases "can_trade s j now wr hft g") (simp add: Request cooling_record)
qed (use assms in \<open>auto simp: cooling_def record_loss_def record_win_def reset_daily_counts_def loss_count_def Let_def
      split: option.splits\<close>)

lemma cooling_run:
  "cooling t i g \<Longrightarrow> list_all (within_cooldown (t + cooldown_duration g) i) es \<Longrightarrow>
     cooling t i (fold guard_apply es g) \<and> cooldown_duration (fold guard_apply es g) = cooldown_duration g"
  by (induction es arbitrary: g) (simp_all add: cooling_apply guard_apply_frame del: guard_apply.simps)

text \<open>
  Claim: after the third consecutive loss on an instrument no non-HFT trade on it is allowed
  until the cooldown has passed, through any requests, further losses, wins on other instruments
  and daily resets in between.
\<close>

theorem cooldown_blocks_instrument:
  assumes "loss_count g i = 2" "cooldown_start g i = None"
    and "list_all (within_cooldown (t + cooldown_duration g) i) es" "now < t + cooldown_duration g"
  shows "\<not> gd_allowed (fst (can_trade s i now wr False (fold guard_apply es (record_loss i t g))))"
proof -
  have c: "cooling t i (record_loss i t g)" "cooldown_duration (record_loss i t g) = cooldown_duration g"
    using assms(1,2)
    by (simp_all add: cooling_def record_loss_def CONSECUTIVE_LOSS_THRESHOLD_def Let_def loss_count_def
        split: option.splits)
  from cooling_run[OF c(1)] c(2) assms(3,4) cooling_blocks(1) show ?thesis by metis
qed

theorem cooldown_blocks_instrument_witness:
  "\<not> gd_allowed (fst (can_trade ''a'' ''X'' (minutes 50) (1/2) False
      (fold guard_apply [Request ''a'' ''X'' (minutes 30) (1/2) False, Loss ''X'' (minutes 31), DayStart]
        (record_loss ''X'' (minutes 2) (fold guard_apply [Loss ''X'' 0, Loss ''X'' (minutes 1)] (guard_init None None None))))))"
proof (rule cooldown_blocks_instrument)
  let ?g = "fold guard_apply [Loss ''X'' 0, Loss ''X'' (minutes 1)] (guard_init None None None)"
  have d: "cooldown_duration ?g = hours 1" by code_simp
  show "loss_count ?g ''X'' = 2" "cooldown_start ?g ''X'' = None" by code_simp+
  show "list_all (within_cooldown (minutes 2 + cooldown_duration ?g) ''X'')
      [Request ''a'' ''X'' (minutes 30) (1/2) False, Loss ''X'' (minutes 31), DayStart]"
    "minutes 50 < minutes 2 + cooldown_duration ?g"
    unfolding d by code_simp+
qed

end
