(* ===== verification/Confidence.thy ===== *)
theory Confidence
  imports Py_Numeric Constants
begin

text \<open>
  Confidence of a trade signal: the score of \<open>src/strategy/confidence_scorer.py\<close> and the penalty
  pipeline of \<open>src/strategy/confidence_pipeline.py\<close>.  The two implement the same penalty rule
  separately; the equivalence is proved here.
\<close>

section \<open>The scorer\<close>

record confidence_result =
  co_base_score :: int
  co_final_score :: int
  co_penalties_applied :: "(string \<times> int) list"
  co_rejected :: bool
  co_rejection_reason :: "fmsg option"

definition SHARPE_NORMALIZATION_MAX :: pyfloat where
  "SHARPE_NORMALIZATION_MAX = 3"

text \<open>True division of two integers is rounded once.\<close>

definition indicator_score :: "int \<Rightarrow> int \<Rightarrow> pyfloat" where
  "indicator_score confirming total_n =
     (if 0 < total_n then f_mul (flt (of_int confirming / of_int total_n)) 100 else 0)"

definition sharpe_score :: "pyfloat \<Rightarrow> pyfloat" where
  "sharpe_score sharpe =
     f_mul (flt (max 0 (min sharpe SHARPE_NORMALIZATION_MAX) / SHARPE_NORMALIZATION_MAX)) 100"

definition alignment_score :: "pyfloat \<Rightarrow> pyfloat" where
  "alignment_score alignment = f_mul (max 0 (min alignment 1)) 100"

definition calculate :: "int \<Rightarrow> int \<Rightarrow> pyfloat \<Rightarrow> pyfloat \<Rightarrow> int" where
  "calculate confirming total_n sharpe alignment =
     (let base_score =
        f_add (f_add (f_mul (indicator_score confirming total_n) (flt (40/100)))
                     (f_mul (sharpe_score sharpe) (flt (30/100))))
              (f_mul (alignment_score alignment) (flt (30/100)))
      in round_half_even (max 0 (min base_score 100)))"

definition apply_penalties :: "int \<Rightarrow> bool \<Rightarrow> bool \<Rightarrow> bool \<Rightarrow> int" where
  "apply_penalties base_score mistake reactivated news =
     (let score = (if mistake then
                     (if reactivated then base_score - MISTAKE_REACTIVATED_CONFIDENCE_PENALTY
                      else base_score - MISTAKE_BASE_CONFIDENCE_PENALTY)
                   else base_score)
      in if news then score - NEWS_HIGH_IMPACT_CONFIDENCE_PENALTY else score)"

definition should_reject :: "int \<Rightarrow> int \<Rightarrow> bool" where
  "should_reject final_score threshold = (final_score < threshold)"

definition penalties_of :: "bool \<Rightarrow> bool \<Rightarrow> bool \<Rightarrow> (string \<times> int) list" where
  "penalties_of mistake reactivated news =
     (if mistake then
        (if reactivated then [(''mistake_pattern_reactivated'', MISTAKE_REACTIVATED_CONFIDENCE_PENALTY)]
         else [(''mistake_pattern'', MISTAKE_BASE_CONFIDENCE_PENALTY)])
      else []) @
     (if news then [(''high_impact_news'', NEWS_HIGH_IMPACT_CONFIDENCE_PENALTY)] else [])"

definition scorer_evaluate ::
  "int \<Rightarrow> int \<Rightarrow> pyfloat \<Rightarrow> pyfloat \<Rightarrow> bool \<Rightarrow> bool \<Rightarrow> bool \<Rightarrow> int \<Rightarrow> confidence_result" where
  "scorer_evaluate confirming total_n sharpe alignment mistake reactivated news threshold =
     (let base_score = calculate confirming total_n sharpe alignment;
          final_score = apply_penalties base_score mistake reactivated news;
          rejected = should_reject final_score threshold
      in \<lparr>co_base_score = base_score, co_final_score = final_score,
          co_penalties_applied = penalties_of mistake reactivated news, co_rejected = rejected,
          co_rejection_reason =
            (if rejected then Some (FMsg ''Confidence score {} below threshold {}''
                                      [FInt final_score, FInt threshold])
             else None)\<rparr>)"

section \<open>The pipeline\<close>

record penalty_input =
  pi_mistake_pattern_active :: bool
  pi_mistake_pattern_reactivated :: bool
  pi_high_impact_news_active :: bool

record pipeline_result =
  pr_final_confidence :: int
  pr_penalties_applied :: "(string \<times> int) list"
  pr_rejected :: bool
  pr_rejection_reason :: "fmsg option"

definition mistake_step :: "penalty_input \<Rightarrow> int \<times> (string \<times> int) list \<Rightarrow> int \<times> (string \<times> int) list" where
  "mistake_step p s =
     (case s of (current_confidence, applied) \<Rightarrow>
        if pi_mistake_pattern_active p then
          (case (if pi_mistake_pattern_reactivated p
                 then (MISTAKE_REACTIVATED_CONFIDENCE_PENALTY, ''mistake_pattern_reactivated'')
                 else (MISTAKE_BASE_CONFIDENCE_PENALTY, ''mistake_pattern''))
           of (amount, source) \<Rightarrow> (current_confidence - amount, applied @ [(source, amount)]))
        else (current_confidence, applied))"

definition news_step :: "penalty_input \<Rightarrow> int \<times> (string \<times> int) list \<Rightarrow> int \<times> (string \<times> int) list" where
  "news_step p s =
     (case s of (current_confidence, applied) \<Rightarrow>
        if pi_high_impact_news_active p
        then (current_confidence - NEWS_HIGH_IMPACT_CONFIDENCE_PENALTY,
              applied @ [(''high_impact_news'', NEWS_HIGH_IMPACT_CONFIDENCE_PENALTY)])
        else (current_confidence, applied))"

definition pipeline_evaluate :: "int \<Rightarrow> int \<Rightarrow> penalty_input \<Rightarrow> pipeline_result" where
  "pipeline_evaluate threshold base_confidence p =
     (case news_step p (mistake_step p (base_confidence, [])) of (current_confidence, applied) \<Rightarrow>
        let rejected = current_confidence < threshold
        in \<lparr>pr_final_confidence = current_confidence, pr_penalties_applied = applied,
            pr_rejected = rejected,
            pr_rejection_reason =
              (if rejected then Some (FMsg ''Signal rejected: final confidence {} is below threshold {}''
                                        [FInt current_confidence, FInt threshold])
               else None)\<rparr>)"

section \<open>Range and monotonicity of the base score\<close>

lemmas score_defs = indicator_score_def sharpe_score_def alignment_score_def SHARPE_NORMALIZATION_MAX_def

lemma hundred_flt: "flt 100 = 100"
  by code_simp

lemma scaled_mono: "x \<le> y \<Longrightarrow> f_mul x 100 \<le> f_mul y 100"
  by (auto simp: f_mul_def intro!: flt.rnd_mono)

lemma weight_mono: "x \<le> y \<Longrightarrow> 0 \<le> w \<Longrightarrow> f_mul x (flt w) \<le> f_mul y (flt w)"
  by (auto simp: f_mul_def intro!: flt.rnd_mono mult_right_mono)

lemma base_components_mono:
  "c \<le> c' \<Longrightarrow> indicator_score c n \<le> indicator_score c' n"
  "s \<le> s' \<Longrightarrow> sharpe_score s \<le> sharpe_score s'"
  "a \<le> a' \<Longrightarrow> alignment_score a \<le> alignment_score a'"
  by (auto simp: score_defs intro!: scaled_mono flt.rnd_mono divide_right_mono)

lemma calculate_range: "0 \<le> calculate c n s a" "calculate c n s a \<le> 100"
proof -
  have "round_half_even (of_int 0) \<le> calculate c n s a" "calculate c n s a \<le> round_half_even (of_int 100)"
    unfolding calculate_def Let_def by (rule round_half_even_mono; simp)+
  then show "0 \<le> calculate c n s a" "calculate c n s a \<le> 100"
    using round_half_even_of_int[of 0] round_half_even_of_int[of 100] by simp_all
qed

lemma calculate_mono:
  assumes "c \<le> c'" "s \<le> s'" "a \<le> a'"
  shows "calculate c n s a \<le> calculate c' n s' a'"
  unfolding calculate_def Let_def f_add_def
  by (intro round_half_even_mono max.mono min.mono flt.rnd_mono add_mono weight_mono base_components_mono assms order_refl) simp_all

lemma full_marks: "calculate n n 3 1 = (if 0 < n then 100 else 60)"
proof -
  have "0 < n \<Longrightarrow> indicator_score n n = 100" by (simp add: indicator_score_def f_mul_def hundred_flt)
  moreover have "\<not> 0 < n \<Longrightarrow> indicator_score n n = 0" by (simp add: indicator_score_def)
  moreover have "sharpe_score 3 = 100" "alignment_score 1 = 100" by (simp_all add: score_defs f_mul_def hundred_flt)
  moreover have "round_half_even (max 0 (min (f_add (f_add (f_mul 100 (flt (40/100))) (f_mul 100 (flt (30/100)))) (f_mul 100 (flt (30/100)))) 100)) = 100"
    "round_half_even (max 0 (min (f_add (f_add (f_mul 0 (flt (40/100))) (f_mul 100 (flt (30/100)))) (f_mul 100 (flt (30/100)))) 100)) = 60"
    by code_simp+
  ultimately show ?thesis by (simp add: calculate_def Let_def)
qed

text \<open>
  Claim: the base score is an integer from 0 to 100 that never decreases when more indicators
  confirm or the Sharpe ratio or the alignment rises, and the best inputs reach 100.
\<close>

theorem base_score_range_and_monotone:
  "0 \<le> calculate c n s a \<and> calculate c n s a \<le> 100 \<and>
   calculate c n s a \<le> calculate (c + int k) n (max s s') (max a a') \<and>
   calculate 1 1 3 1 = 100"
  using calculate_range[of c n s a] calculate_mono[of c "c + int k" s "max s s'" a "max a a'" n] full_marks[of 1] by simp

section \<open>The decision\<close>

definition penalised :: "int \<Rightarrow> (string \<times> int) list \<Rightarrow> int" where
  "penalised base applied = base - sum_list (map snd applied)"

lemmas penalty_values = MISTAKE_REACTIVATED_CONFIDENCE_PENALTY_def MISTAKE_BASE_CONFIDENCE_PENALTY_def
  NEWS_HIGH_IMPACT_CONFIDENCE_PENALTY_def CONFIDENCE_THRESHOLD_DEFAULT_def

lemma pipeline_eq:
  "pipeline_evaluate threshold base \<lparr>pi_mistake_pattern_active = m, pi_mistake_pattern_reactivated = r, pi_high_impact_news_active = h\<rparr> =
   \<lparr>pr_final_confidence = apply_penalties base m r h, pr_penalties_applied = penalties_of m r h,
    pr_rejected = should_reject (apply_penalties base m r h) threshold,
    pr_rejection_reason = (if should_reject (apply_penalties base m r h) threshold
       then Some (FMsg ''Signal rejected: final confidence {} is below threshold {}''
                    [FInt (apply_penalties base m r h), FInt threshold]) else None)\<rparr>"
  by (simp add: pipeline_evaluate_def news_step_def mistake_step_def apply_penalties_def penalties_of_def should_reject_def Let_def)

lemma apply_is_penalised: "apply_penalties base m r h = penalised base (penalties_of m r h)"
  by (simp add: apply_penalties_def penalised_def penalties_of_def Let_def)

text \<open>
  Claim C37: the scorer and the pipeline, which implement the penalty rule separately, agree on the
  final score, the penalties and the rejection; the final score is the base score less exactly the
  penalties listed; and at the default threshold a signal of the scorer that matches a mistake
  pattern while high-impact news is active is always rejected, and one under high-impact news
  passes only with a base score of 85 or more.
\<close>

theorem scorer_and_pipeline_agree:
  "let R = scorer_evaluate c n s a m r h t;
       P = pipeline_evaluate t (calculate c n s a)
             \<lparr>pi_mistake_pattern_active = m, pi_mistake_pattern_reactivated = r, pi_high_impact_news_active = h\<rparr>
   in pr_final_confidence P = co_final_score R \<and> pr_penalties_applied P = co_penalties_applied R \<and>
      pr_rejected P = co_rejected R \<and> co_rejected R = (co_rejection_reason R \<noteq> None) \<and>
      co_final_score R = penalised (co_base_score R) (co_penalties_applied R) \<and>
      co_rejected R = (co_final_score R < t) \<and>
      \<not> (t = CONFIDENCE_THRESHOLD_DEFAULT \<and> m \<and> h \<and> \<not> co_rejected R) \<and>
      \<not> (t = CONFIDENCE_THRESHOLD_DEFAULT \<and> h \<and> \<not> co_rejected R \<and> co_base_score R < 85)"
proof -
  note calculate_range(2)[of c n s a]
  then show ?thesis
    by (cases m; cases r; cases h)
      (simp_all add: pipeline_eq scorer_evaluate_def Let_def penalised_def penalties_of_def apply_penalties_def
        should_reject_def penalty_values)
qed

end
