(* ===== verification/Strategy_Engine.thy ===== *)
theory Strategy_Engine
  imports Overtrading_Guard Confidence Effects
begin

text \<open>
  The strategy engine, \<open>src/strategy/strategy_engine.py\<close>, with the regime detector it asks,
  \<open>src/strategy/regime_detector.py\<close>: weights of the strategies by regime, the signals of the weighted
  ones, and the two filters, confidence and overtrading.  A strategy is what its protocol offers,
  two actions on an outside world that may raise; what it reads of the account is of any type.
\<close>

section \<open>Regimes\<close>

datatype market_regime = TRENDING | RANGING | VOLATILE | CRISIS

definition ADX_TRENDING_THRESHOLD :: pyfloat where "ADX_TRENDING_THRESHOLD = 25"
definition ATR_VOLATILE_PERCENTILE :: pyfloat where "ATR_VOLATILE_PERCENTILE = 75"
definition ATR_CRISIS_PERCENTILE :: pyfloat where "ATR_CRISIS_PERCENTILE = 95"
definition VIX_ZSCORE_CRISIS_THRESHOLD :: pyfloat where "VIX_ZSCORE_CRISIS_THRESHOLD = 3"
definition PRICE_DECLINE_CRISIS_THRESHOLD :: pyfloat where "PRICE_DECLINE_CRISIS_THRESHOLD = 3"

definition is_crisis :: "pyfloat \<Rightarrow> pyfloat option \<Rightarrow> pyfloat option \<Rightarrow> bool" where
  "is_crisis atr_percentile vix_zscore price_decline =
     (if ATR_CRISIS_PERCENTILE < atr_percentile then True
      else case (vix_zscore, price_decline) of
        (Some z, Some p) \<Rightarrow> VIX_ZSCORE_CRISIS_THRESHOLD < z \<and> PRICE_DECLINE_CRISIS_THRESHOLD < p
      | _ \<Rightarrow> False)"

definition is_volatile :: "pyfloat \<Rightarrow> bool" where
  "is_volatile atr_percentile = (ATR_VOLATILE_PERCENTILE < atr_percentile)"

definition is_trending :: "pyfloat \<Rightarrow> pyfloat \<Rightarrow> bool" where
  "is_trending adx atr_percentile = (ADX_TRENDING_THRESHOLD < adx \<and> atr_percentile < ATR_VOLATILE_PERCENTILE)"

definition classify :: "pyfloat \<Rightarrow> pyfloat \<Rightarrow> pyfloat \<Rightarrow> pyfloat option \<Rightarrow> pyfloat option \<Rightarrow> market_regime" where
  "classify adx bb_width atr_percentile vix_zscore price_decline =
     (if is_crisis atr_percentile vix_zscore price_decline then CRISIS
      else if is_volatile atr_percentile then VOLATILE
      else if is_trending adx atr_percentile then TRENDING
      else RANGING)"

section \<open>Data\<close>

record strategy_signal =
  st_instrument :: string
  st_direction :: string
  st_entry_price :: pyfloat
  st_stop_loss :: pyfloat
  st_take_profit :: pyfloat
  st_confidence :: int
  st_strategy_name :: string
  st_timestamp :: micros
  st_indicators :: "(string, pyfloat) dict"

record market_data =
  mk_instrument :: string
  mk_bid :: pyfloat
  mk_ask :: pyfloat
  mk_timestamp :: micros
  mk_adx :: pyfloat
  mk_bb_width :: pyfloat
  mk_atr_percentile :: pyfloat
  mk_indicators :: "(string, pyfloat) dict"

record ('acc, 'w) base_strategy =
  bs_name :: string
  bs_generate_signal :: "market_data \<Rightarrow> 'acc \<Rightarrow> ('w, strategy_signal option) action"
  bs_backtest_sharpe :: "market_regime \<Rightarrow> ('w, pyfloat) action"

record ('acc, 'w) strategy_engine =
  te_strategies :: "('acc, 'w) base_strategy list"
  te_guard :: overtrading_guard
  te_weights :: "(string, pyfloat) dict"
  te_regime :: market_regime
  te_reweighting :: bool

definition equal_weights :: "('acc, 'w) base_strategy list \<Rightarrow> (string, pyfloat) dict" where
  "equal_weights ss = foldl (\<lambda>d s. AList.update (bs_name s) (f_quot 1 (of_nat (length ss))) d) [] ss"

definition strategy_engine_init :: "('acc, 'w) base_strategy list \<Rightarrow> overtrading_guard \<Rightarrow> ('acc, 'w) strategy_engine" where
  "strategy_engine_init ss guard =
     \<lparr>te_strategies = ss, te_guard = guard, te_weights = equal_weights ss, te_regime = RANGING, te_reweighting = False\<rparr>"

section \<open>Weights\<close>

fun collect_sharpes ::
  "market_regime \<Rightarrow> (string \<rightharpoonup> pyfloat) \<Rightarrow> ('acc, 'w) base_strategy list \<Rightarrow> (string, pyfloat) dict \<Rightarrow> ('w, (string, pyfloat) dict) action" where
  "collect_sharpes regime performance [] raw = returnA raw"
| "collect_sharpes regime performance (s # ss) raw =
     bindA (case performance (bs_name s) of Some x \<Rightarrow> returnA x | None \<Rightarrow> bs_backtest_sharpe s regime)
       (\<lambda>sharpe. collect_sharpes regime performance ss (AList.update (bs_name s) (max sharpe (flt (1 / 100))) raw))"

definition normalised :: "('acc, 'w) base_strategy list \<Rightarrow> (string, pyfloat) dict \<Rightarrow> (string, pyfloat) dict \<Rightarrow> (string, pyfloat) dict" where
  "normalised ss old raw =
     (let weight = f_sum (map snd raw) in
      if 0 < weight then map (apsnd (\<lambda>x. f_quot x weight)) raw
      else if ss \<noteq> [] then equal_weights ss else old)"

text \<open>\<open>finally\<close> ends the reweighting also when a strategy raises.\<close>

definition reweight_strategies ::
  "market_regime \<Rightarrow> (string \<rightharpoonup> pyfloat) \<Rightarrow> ('acc, 'w) strategy_engine \<Rightarrow> 'w \<Rightarrow> (py_error + unit) \<times> ('acc, 'w) strategy_engine \<times> 'w" where
  "reweight_strategies regime performance e w =
     (case collect_sharpes regime performance (te_strategies e) [] w of
        (Inl err, w') \<Rightarrow> (Inl err, e\<lparr>te_reweighting := False\<rparr>, w')
      | (Inr raw, w') \<Rightarrow>
          (Inr (), e\<lparr>te_weights := normalised (te_strategies e) (te_weights e) raw, te_reweighting := False\<rparr>, w'))"

section \<open>Signals\<close>

fun generate_signals ::
  "(string, pyfloat) dict \<Rightarrow> market_data \<Rightarrow> 'acc \<Rightarrow> ('acc, 'w) base_strategy list \<Rightarrow> ('w, strategy_signal list) action" where
  "generate_signals weights md acc [] = returnA []"
| "generate_signals weights md acc (s # ss) =
     (if or_default (map_of weights (bs_name s)) 0 \<le> 0 then generate_signals weights md acc ss
      else bindA (bs_generate_signal s md acc) (\<lambda>signal.
             bindA (generate_signals weights md acc ss) (\<lambda>signals.
               returnA (case signal of None \<Rightarrow> signals | Some x \<Rightarrow> x # signals))))"

fun filter_signals :: "strategy_signal list \<Rightarrow> overtrading_guard \<Rightarrow> strategy_signal list \<times> overtrading_guard" where
  "filter_signals [] g = ([], g)"
| "filter_signals (s # ss) g =
     (if should_reject (st_confidence s) CONFIDENCE_THRESHOLD_DEFAULT then filter_signals ss g
      else case can_trade (st_strategy_name s) (st_instrument s) (st_timestamp s) (1 / 2) False g of
        (decision, g1) \<Rightarrow>
          (case filter_signals ss g1 of (validated, g2) \<Rightarrow>
             (if gd_allowed decision then s # validated else validated, g2)))"

definition change_regime ::
  "market_regime \<Rightarrow> ('acc, 'w) strategy_engine \<Rightarrow> 'w \<Rightarrow> (py_error + unit) \<times> ('acc, 'w) strategy_engine \<times> 'w" where
  "change_regime regime e w =
     (if regime \<noteq> te_regime e then reweight_strategies regime Map.empty (e\<lparr>te_regime := regime\<rparr>) w else (Inr (), e, w))"

definition process_market_data ::
  "market_data \<Rightarrow> 'acc \<Rightarrow> ('acc, 'w) strategy_engine \<Rightarrow> 'w \<Rightarrow> (py_error + strategy_signal list) \<times> ('acc, 'w) strategy_engine \<times> 'w" where
  "process_market_data md acc e w =
     (case change_regime (classify (mk_adx md) (mk_bb_width md) (mk_atr_percentile md) None None) e w of
        (Inl err, e1, w1) \<Rightarrow> (Inl err, e1, w1)
      | (Inr _, e1, w1) \<Rightarrow>
          if te_reweighting e1 then (Inr [], e1, w1)
          else case generate_signals (te_weights e1) md acc (te_strategies e1) w1 of
            (Inl err, w2) \<Rightarrow> (Inl err, e1, w2)
          | (Inr signals, w2) \<Rightarrow>
              (case filter_signals signals (te_guard e1) of (validated, g) \<Rightarrow> (Inr validated, e1\<lparr>te_guard := g\<rparr>, w2)))"

fun get_regime_alignment_score :: "string \<Rightarrow> market_regime \<Rightarrow> pyfloat" where
  "get_regime_alignment_score direction TRENDING = flt (9 / 10)"
| "get_regime_alignment_score direction RANGING = flt (1 / 2)"
| "get_regime_alignment_score direction VOLATILE = flt (3 / 10)"
| "get_regime_alignment_score direction CRISIS = flt (1 / 10)"

section \<open>Weights follow the Sharpe ratios\<close>

definition raw_ok :: "(string, pyfloat) dict \<Rightarrow> bool" where
  "raw_ok d \<longleftrightarrow> list_all (\<lambda>p. is_flt (snd p) \<and> 0 < snd p) d"

lemma collected_raw_ok:
  assumes "raw_ok raw" "collect_sharpes regime performance ss raw w = (Inr raw', w')"
    and "\<forall>n x. performance n = Some x \<longrightarrow> is_flt x"
    and "\<forall>s \<in> set ss. \<forall>w x w'. bs_backtest_sharpe s regime w = (Inr x, w') \<longrightarrow> is_flt x"
  shows "raw_ok raw'"
  using assms
proof (induction ss arbitrary: raw w)
  case (Cons s ss)
  let ?ask = "case performance (bs_name s) of Some x \<Rightarrow> returnA x | None \<Rightarrow> bs_backtest_sharpe s regime"
  obtain x w1 where x: "?ask w = (Inr x, w1)"
    and rest: "collect_sharpes regime performance ss (AList.update (bs_name s) (max x (flt (1 / 100))) raw) w1 = (Inr raw', w')"
    using Cons.prems(2) by (auto elim: bindA_InrE)
  have "is_flt x"
  proof (cases "performance (bs_name s)")
    case None
    then have "bs_backtest_sharpe s regime w = (Inr x, w1)" using x by simp
    then show ?thesis using Cons.prems(4) by (meson list.set_intros(1))
  qed (use x Cons.prems(3) in \<open>simp add: returnA_def\<close>)
  moreover have "0 < max x (flt (1 / 100))" by (rule less_le_trans[OF _ max.cobounded2]) simp
  ultimately have "is_flt (max x (flt (1 / 100))) \<and> 0 < max x (flt (1 / 100))" by (simp add: max_def)
  then have "raw_ok (AList.update (bs_name s) (max x (flt (1 / 100))) raw)"
    using Cons.prems(1) by (auto simp: raw_ok_def intro!: list_all_update)
  from Cons.IH[OF this rest Cons.prems(3)] Cons.prems(4) show ?case by simp
qed (simp add: returnA_def)

lemma f_sum_ge_member: "list_all (\<lambda>x. is_flt x \<and> 0 \<le> x) xs \<Longrightarrow> x \<in> set xs \<Longrightarrow> x \<le> f_sum xs"
proof -
  have above: "is_flt a \<Longrightarrow> list_all (\<lambda>x. is_flt x \<and> 0 \<le> x) xs \<Longrightarrow> 0 \<le> a \<Longrightarrow> a \<le> foldl f_add a xs" for a xs
  proof (induction xs arbitrary: a)
    case (Cons y ys)
    have "a \<le> f_add a y" using Cons.prems flt.rnd_ge_rep[of a "a + y"] by (simp add: f_add_def is_flt_def)
    moreover have "f_add a y \<le> foldl f_add (f_add a y) ys"
      using Cons.prems calculation by (intro Cons.IH) (auto simp: f_add_def)
    ultimately show ?case by simp
  qed simp
  have "x \<le> foldl f_add a xs" if "list_all (\<lambda>x. is_flt x \<and> 0 \<le> x) xs" "x \<in> set xs" "is_flt a" "0 \<le> a" for a xs
    using that
  proof (induction xs arbitrary: a)
    case (Cons y ys)
    have s: "is_flt (f_add a y)" "0 \<le> f_add a y" using Cons.prems by (simp_all add: f_add_def)
    show ?case
    proof (cases "x = y")
      case True
      have "x \<le> f_add a y" using Cons.prems True flt.rnd_ge_rep[of x "a + y"] by (simp add: f_add_def is_flt_def)
      also have "\<dots> \<le> foldl f_add (f_add a y) ys" using above Cons.prems(1) s by simp
      finally show ?thesis by simp
    next
      case False
      then show ?thesis using Cons.IH[of "f_add a y"] Cons.prems s by simp
    qed
  qed simp
  then show "list_all (\<lambda>x. is_flt x \<and> 0 \<le> x) xs \<Longrightarrow> x \<in> set xs \<Longrightarrow> x \<le> f_sum xs"
    by (simp add: f_sum_def is_flt_def)
qed

lemma raw_ok_update: "raw_ok d \<Longrightarrow> is_flt x \<Longrightarrow> 0 < x \<Longrightarrow> raw_ok (AList.update n x d)"
  by (auto simp: raw_ok_def intro!: list_all_update)

lemma collected_names:
  "collect_sharpes regime performance ss raw w = (Inr raw', w') \<Longrightarrow>
     fst ` set raw' = fst ` set raw \<union> bs_name ` set ss \<and> (dict_ok raw \<longrightarrow> dict_ok raw') \<and>
     (\<forall>n. n \<notin> bs_name ` set ss \<longrightarrow> map_of raw' n = map_of raw n) \<and>
     (\<forall>n x. n \<in> bs_name ` set ss \<longrightarrow> performance n = Some x \<longrightarrow> map_of raw' n = Some (max x (flt (1 / 100))))"
proof (induction ss arbitrary: raw w)
  case (Cons s ss)
  let ?ask = "case performance (bs_name s) of Some x \<Rightarrow> returnA x | None \<Rightarrow> bs_backtest_sharpe s regime"
  obtain x w1 where x: "?ask w = (Inr x, w1)"
    and rest: "collect_sharpes regime performance ss (AList.update (bs_name s) (max x (flt (1 / 100))) raw) w1 = (Inr raw', w')"
    using Cons.prems by (auto elim: bindA_InrE)
  have "performance (bs_name s) = Some y \<Longrightarrow> y = x" for y using x by (simp add: returnA_def)
  moreover have "fst ` set (AList.update (bs_name s) y raw) = insert (bs_name s) (fst ` set raw)" for y
    by (simp add: dom_map_of_conv_image_fst[symmetric])
  ultimately show ?case using Cons.IH[OF rest] by (auto split: if_splits)
qed (simp add: returnA_def)

lemma map_of_apsnd: "map_of (map (apsnd f) d) n = map_option f (map_of d n)"
  by (induction d) auto

text \<open>
  Claim: a reweighting that succeeds gives every strategy a weight above zero and at most one,
  and a strategy with a larger Sharpe ratio never a smaller weight.
\<close>

theorem weights_follow_sharpes:
  assumes "reweight_strategies regime performance e w = (Inr (), e', w')" "te_strategies e \<noteq> []"
    and "\<forall>n x. performance n = Some x \<longrightarrow> is_flt x"
    and "\<forall>s \<in> set (te_strategies e). \<forall>w x w'. bs_backtest_sharpe s regime w = (Inr x, w') \<longrightarrow> is_flt x"
  shows "fst ` set (te_weights e') = bs_name ` set (te_strategies e) \<and> (\<forall>(n, x) \<in> set (te_weights e'). 0 < x \<and> x \<le> 1) \<and>
    (\<forall>m \<in> bs_name ` set (te_strategies e). \<forall>n \<in> bs_name ` set (te_strategies e). \<forall>x y.
       performance m = Some x \<longrightarrow> performance n = Some y \<longrightarrow> x \<le> y \<longrightarrow>
       the (map_of (te_weights e') m) \<le> the (map_of (te_weights e') n))"
proof -
  obtain raw where c: "collect_sharpes regime performance (te_strategies e) [] w = (Inr raw, w')"
    and e': "te_weights e' = normalised (te_strategies e) (te_weights e) raw"
    using assms(1) by (auto simp: reweight_strategies_def split: prod.splits sum.splits)
  have ok: "raw_ok raw" by (rule collected_raw_ok[OF _ c assms(3,4)]) (simp add: raw_ok_def)
  note names = collected_names[OF c]
  let ?t = "f_sum (map snd raw)"
  have le: "x \<le> ?t" "0 < x" if "(n, x) \<in> set raw" for n x
  proof -
    have "x \<in> set (map snd raw)" using that by force
    moreover have "list_all (\<lambda>x. is_flt x \<and> 0 \<le> x) (map snd raw)" using ok by (auto simp: raw_ok_def list_all_iff)
    ultimately show "x \<le> ?t" by (rule f_sum_ge_member[rotated])
    show "0 < x" using ok that by (auto simp: raw_ok_def list_all_iff)
  qed
  have "raw \<noteq> []" using names assms(2) by auto
  then have "last raw \<in> set raw" by simp
  then have t: "0 < ?t" using le[of "fst (last raw)" "snd (last raw)"] by simp
  then have w: "te_weights e' = map (apsnd (\<lambda>x. f_quot x ?t)) raw" by (simp add: e' normalised_def Let_def)
  have "0 < f_quot x ?t \<and> f_quot x ?t \<le> 1" if "(n, x) \<in> set raw" for n x
    using le[OF that] t flt.rnd_le_rep[of 1 "x / ?t"] by (simp add: f_quot_def)
  moreover have "map_of (te_weights e') n = map_option (\<lambda>x. f_quot x ?t) (map_of raw n)" for n
    by (simp add: w map_of_apsnd)
  moreover have "f_quot (max x z) ?t \<le> f_quot (max y z) ?t" if "x \<le> y" for x y z
    using that t by (auto simp: f_quot_def intro!: flt.rnd_mono divide_right_mono)
  ultimately show ?thesis using names by (auto simp: w image_image)
qed

definition steady :: "string \<Rightarrow> pyfloat \<Rightarrow> (unit, unit) base_strategy" where
  "steady n x = \<lparr>bs_name = n, bs_generate_signal = (\<lambda>md acc. returnA (Some \<lparr>st_instrument = ''GOLD'', st_direction = ''LONG'',
     st_entry_price = 10, st_stop_loss = 9, st_take_profit = 12, st_confidence = 70, st_strategy_name = n, st_timestamp = 0,
     st_indicators = []\<rparr>)), bs_backtest_sharpe = (\<lambda>r. returnA x)\<rparr>"

definition two_strategies :: "(unit, unit) strategy_engine" where
  "two_strategies = strategy_engine_init [steady ''a'' 1, steady ''b'' 3] (guard_init None None None)"

lemma weights_follow_sharpes_witness:
  "\<exists>e'. reweight_strategies TRENDING (\<lambda>n. if n = ''a'' then Some 2 else Some 3) two_strategies () = (Inr (), e', ()) \<and>
     the (map_of (te_weights e') ''a'') \<le> the (map_of (te_weights e') ''b'')"
proof -
  let ?p = "\<lambda>n. if n = ''a'' then Some (2::pyfloat) else Some 3"
  obtain e' where r: "reweight_strategies TRENDING ?p two_strategies () = (Inr (), e', ())"
    by (simp add: reweight_strategies_def two_strategies_def strategy_engine_init_def steady_def returnA_def)
  have f: "is_flt 2" "is_flt 3" "is_flt 1" by code_simp+
  have ss: "te_strategies two_strategies = [steady ''a'' 1, steady ''b'' 3]" by (simp add: two_strategies_def strategy_engine_init_def)
  have "\<forall>s \<in> set (te_strategies two_strategies). \<forall>w x w'. bs_backtest_sharpe s TRENDING w = (Inr x, w') \<longrightarrow> is_flt x"
    by (simp add: ss steady_def returnA_def f)
  moreover have "\<forall>n x. ?p n = Some x \<longrightarrow> is_flt x" using f by simp
  moreover have "te_strategies two_strategies \<noteq> []" by (simp add: ss)
  ultimately show ?thesis using weights_follow_sharpes[OF r] r by (auto simp: ss steady_def)
qed

section \<open>Validated signals pass both filters\<close>

text \<open>What an allowed trade was checked against: neither the counts nor the times of trades change.\<close>

definition within_limits :: "overtrading_guard \<Rightarrow> strategy_signal \<Rightarrow> bool" where
  "within_limits g s \<longleftrightarrow> get_trade_count g (st_strategy_name s) (st_instrument s) < max_trades_per_day g \<and>
     (\<forall>t. last_trade_times g (st_instrument s) = Some t \<longrightarrow> min_interval g \<le> st_timestamp s - t)"

lemma allowed_within_limits:
  assumes "gd_allowed (fst (can_trade (st_strategy_name s) (st_instrument s) (st_timestamp s) (1 / 2) False g))"
  shows "within_limits g s"
proof -
  have "\<not> (1 / 2 :: rat) < WIN_RATE_THROTTLE_THRESHOLD" by code_simp
  then show ?thesis using assms
    by (auto simp: can_trade_def within_limits_def effective_max_def blocked_def check_interval_def split: if_splits option.splits)
qed

lemma filtered:
  "filter_signals ss g = (vs, g') \<Longrightarrow>
     (\<forall>s \<in> set vs. s \<in> set ss \<and> CONFIDENCE_THRESHOLD_DEFAULT \<le> st_confidence s \<and> within_limits g s)"
proof (induction ss arbitrary: g g' vs)
  case (Cons s ss)
  show ?case
  proof (cases "should_reject (st_confidence s) CONFIDENCE_THRESHOLD_DEFAULT")
    case True
    then show ?thesis using Cons by auto
  next
    case False
    obtain d g1 where c: "can_trade (st_strategy_name s) (st_instrument s) (st_timestamp s) (1 / 2) False g = (d, g1)" by fastforce
    obtain vs1 g2 where f: "filter_signals ss g1 = (vs1, g2)" by fastforce
    have "g1 = snd (can_trade (st_strategy_name s) (st_instrument s) (st_timestamp s) (1 / 2) False g)" by (simp add: c)
    then have "within_limits g1 x = within_limits g x" for x by (simp add: within_limits_def get_trade_count_def can_trade_frame)
    then have "\<forall>s \<in> set vs1. s \<in> set ss \<and> CONFIDENCE_THRESHOLD_DEFAULT \<le> st_confidence s \<and> within_limits g s"
      using Cons.IH[OF f] by simp
    moreover have "gd_allowed d \<Longrightarrow> within_limits g s" using allowed_within_limits[of s g] c by simp
    moreover have "CONFIDENCE_THRESHOLD_DEFAULT \<le> st_confidence s" using False by (simp add: should_reject_def)
    ultimately show ?thesis using Cons.prems False c f by (auto split: if_splits)
  qed
qed simp

lemma generated:
  "generate_signals weights md acc ss w = (Inr sigs, w') \<Longrightarrow> s \<in> set sigs \<Longrightarrow>
     \<exists>b \<in> set ss. 0 < or_default (map_of weights (bs_name b)) 0 \<and> (\<exists>u u'. bs_generate_signal b md acc u = (Inr (Some s), u'))"
proof (induction ss arbitrary: w w' sigs)
  case (Cons b ss)
  show ?case
  proof (cases "or_default (map_of weights (bs_name b)) 0 \<le> 0")
    case True
    then show ?thesis using Cons by auto
  next
    case False
    obtain r w1 where r: "bs_generate_signal b md acc w = (Inr r, w1)"
      and rest: "bindA (generate_signals weights md acc ss) (\<lambda>xs. returnA (case r of None \<Rightarrow> xs | Some x \<Rightarrow> x # xs)) w1 = (Inr sigs, w')"
      using Cons.prems(1) False by (auto elim: bindA_InrE)
    obtain xs w2 where xs: "generate_signals weights md acc ss w1 = (Inr xs, w2)" "sigs = (case r of None \<Rightarrow> xs | Some x \<Rightarrow> x # xs)"
      using rest by (auto elim!: bindA_InrE simp: returnA_def)
    show ?thesis
    proof (cases "r = Some s")
      case True
      then show ?thesis using r False by (intro bexI[of _ b]) auto
    next
      case ne: False
      then have "s \<in> set xs" using xs(2) Cons.prems(2) by (auto split: option.splits)
      then show ?thesis using Cons.IH[OF xs(1)] by auto
    qed
  qed
qed (simp add: returnA_def)

lemma changed_regime: "change_regime regime e w = (r, e1, w1) \<Longrightarrow>
   te_regime e1 = regime \<and> te_guard e1 = te_guard e \<and> te_strategies e1 = te_strategies e"
  by (auto simp: change_regime_def reweight_strategies_def split: if_splits prod.splits sum.splits)

text \<open>
  Claim C40: every signal the engine returns was generated by one of its strategies with a positive
  weight, has a confidence of at least sixty, is within the daily number of trades of its strategy
  on its instrument and keeps the minimum interval to the last trade there.
\<close>

theorem engine_signals_pass_both_filters:
  assumes "process_market_data md acc e w = (Inr sigs, e', w')" "s \<in> set sigs"
  shows "60 \<le> st_confidence s \<and> within_limits (te_guard e) s \<and>
    (\<exists>b \<in> set (te_strategies e). 0 < or_default (map_of (te_weights e') (bs_name b)) 0 \<and>
       (\<exists>u u'. bs_generate_signal b md acc u = (Inr (Some s), u')))"
proof -
  obtain r e1 w1 where c: "change_regime (classify (mk_adx md) (mk_bb_width md) (mk_atr_percentile md) None None) e w = (r, e1, w1)"
    using prod_cases3 by blast
  note run = assms(1)[unfolded process_market_data_def c]
  have r: "r = Inr ()" using run by (cases r) simp_all
  have "\<not> te_reweighting e1" using run assms(2) by (auto simp: r)
  obtain x w2 where x: "generate_signals (te_weights e1) md acc (te_strategies e1) w1 = (x, w2)" by (rule prod.exhaust)
  have "\<not> isl x" using run \<open>\<not> te_reweighting e1\<close> by (cases x) (simp_all add: r x)
  then obtain signals where signals: "x = Inr signals" by (cases x) simp_all
  obtain vs g where f: "filter_signals signals (te_guard e1) = (vs, g)" by (rule prod.exhaust)
  have sigs: "vs = sigs" "te_weights e' = te_weights e1" using run \<open>\<not> te_reweighting e1\<close> by (auto simp: r x signals f)
  note gen = x[unfolded signals]
  from filtered[OF f] assms(2) sigs have "s \<in> set signals" "CONFIDENCE_THRESHOLD_DEFAULT \<le> st_confidence s" "within_limits (te_guard e1) s"
    by auto
  then show ?thesis using generated[OF gen, of s] changed_regime[OF c] sigs by (auto simp: CONFIDENCE_THRESHOLD_DEFAULT_def)
qed

definition quiet_market :: market_data where
  "quiet_market = \<lparr>mk_instrument = ''GOLD'', mk_bid = 10, mk_ask = 11, mk_timestamp = 0, mk_adx = 10, mk_bb_width = 1,
     mk_atr_percentile = 50, mk_indicators = []\<rparr>"

definition one_strategy :: "(unit, unit) strategy_engine" where
  "one_strategy = strategy_engine_init [steady ''a'' 1] (guard_init None None None)"

lemma engine_signals_pass_both_filters_witness:
  "\<exists>s e'. process_market_data quiet_market () one_strategy () = (Inr [s], e', ()) \<and> 60 \<le> st_confidence s"
proof -
  let ?s = "\<lparr>st_instrument = ''GOLD'', st_direction = ''LONG'', st_entry_price = 10, st_stop_loss = 9, st_take_profit = 12,
     st_confidence = 70, st_strategy_name = ''a'', st_timestamp = 0, st_indicators = []\<rparr>"
  have k: "classify 10 1 50 None None = RANGING" by code_simp
  have h: "0 < f_quot 1 1" by code_simp
  obtain g where f: "filter_signals [?s] (guard_init None None None) = ([?s], g)"
  proof -
    have "fst (filter_signals [?s] (guard_init None None None)) = [?s]" by code_simp
    then show ?thesis using that by (metis prod.collapse)
  qed
  obtain e' where "process_market_data quiet_market () one_strategy () = (Inr [?s], e', ())"
    using h f by (simp del: filter_signals.simps add: process_market_data_def quiet_market_def one_strategy_def strategy_engine_init_def change_regime_def k
        equal_weights_def steady_def returnA_def bindA_def)
  from engine_signals_pass_both_filters[OF this, of ?s] this show ?thesis by auto
qed

section \<open>Gaps\<close>

text \<open>
  The signals of one call are not spaced: the guard hears of trades later, so two strategies may
  both return one for the same instrument at the same time.
\<close>

theorem signals_of_one_call_are_not_spaced:
  "map (\<lambda>s. (st_instrument s, st_timestamp s)) (fst (filter_signals
     (map (\<lambda>n. \<lparr>st_instrument = ''GOLD'', st_direction = ''LONG'', st_entry_price = 10, st_stop_loss = 9, st_take_profit = 12,
        st_confidence = 70, st_strategy_name = n, st_timestamp = 0, st_indicators = []\<rparr>) [''a'', ''b''])
     (guard_init None None None))) = [(''GOLD'', 0), (''GOLD'', 0)]"
  by code_simp

text \<open>
  The regime is noted before the strategies are asked: when one raises, the old weights stay in
  force for the new regime, and the next call does not try again.
\<close>

theorem failed_reweighting_is_not_repeated:
  assumes "regime \<noteq> te_regime e" "collect_sharpes regime Map.empty (te_strategies e) [] w = (Inl err, w1)"
    and "change_regime regime e w = (r, e1, w1')"
  shows "r = Inl err \<and> te_weights e1 = te_weights e \<and> change_regime regime e1 w2 = (Inr (), e1, w2)"
  using assms by (auto simp: change_regime_def reweight_strategies_def)

end
