(* ===== verification/Texts.thy ===== *)
theory Texts
  imports Effects
begin

text \<open>
  What the code asks of texts: whether one occurs in another (\<open>part in text\<close>), whether a character
  is a letter or digit (\<open>isalnum\<close>) or white space (what \<open>strip\<close> removes).  Texts are ASCII.
\<close>

fun contains_text :: "string \<Rightarrow> string \<Rightarrow> bool" where
  "contains_text part [] = (part = [])"
| "contains_text part (c # cs) = (take (length part) (c # cs) = part \<or> contains_text part cs)"

definition is_alnum :: "char \<Rightarrow> bool" where
  "is_alnum c = (let n = of_char c :: nat in 48 \<le> n \<and> n \<le> 57 \<or> 65 \<le> n \<and> n \<le> 90 \<or> 97 \<le> n \<and> n \<le> 122)"

definition is_space :: "char \<Rightarrow> bool" where
  "is_space c = (let n = of_char c :: nat in 9 \<le> n \<and> n \<le> 13 \<or> 28 \<le> n \<and> n \<le> 32)"

text \<open>The reference: a text occurs in another when it is one of its infixes.\<close>

lemma contains_text_infix: "contains_text part s \<longleftrightarrow> (\<exists>before after. s = before @ part @ after)"
proof (induction s)
  case (Cons c cs)
  have head: "take (length part) (c # cs) = part \<longleftrightarrow> (\<exists>after. c # cs = part @ after)"
    by (metis append_eq_conv_conj append_take_drop_id)
  show ?case
  proof
    assume "contains_text part (c # cs)"
    then consider "\<exists>after. c # cs = part @ after" | "\<exists>before after. cs = before @ part @ after"
      using Cons.IH head by auto
    then show "\<exists>before after. c # cs = before @ part @ after" by cases (metis append_Nil, metis append_Cons)
  next
    assume "\<exists>before after. c # cs = before @ part @ after"
    then obtain before after where "c # cs = before @ part @ after" by blast
    then have "(\<exists>after. c # cs = part @ after) \<or> (\<exists>before after. cs = before @ part @ after)"
      by (cases before) auto
    then show "contains_text part (c # cs)" using Cons.IH head by auto
  qed
qed auto

end
