(* ===== verification/Sentiment.thy ===== *)
theory Sentiment
  imports Texts Constants
begin

text \<open>
  Sentiment and impact of an article, \<open>src/news/sentiment_analyzer.py\<close>.  The language model is a
  parameter: loading it may fail, and a loaded model returns a label with its confidence, nothing,
  or raises.  The clock, read only for a warning, and \<open>analyze_async\<close>, which runs \<open>analyze\<close> in a
  thread, are left out.
\<close>

section \<open>Keywords\<close>

definition negative_keywords :: "(string \<times> pyfloat) list" where
  "negative_keywords =
     [(''crash'', 1), (''crisis'', flt (9 / 10)), (''collapse'', flt (9 / 10)), (''bankruptcy'', flt (9 / 10)),
      (''default'', flt (8 / 10)), (''recession'', flt (8 / 10)), (''war'', flt (8 / 10)), (''sanctions'', flt (7 / 10)),
      (''downgrade'', flt (7 / 10)), (''loss'', flt (5 / 10)), (''plunge'', flt (8 / 10)), (''sell-off'', flt (7 / 10)),
      (''bearish'', flt (6 / 10)), (''decline'', flt (5 / 10)), (''layoffs'', flt (6 / 10)), (''inflation'', flt (4 / 10)),
      (''deficit'', flt (4 / 10)), (''fraud'', flt (8 / 10)), (''investigation'', flt (4 / 10)), (''warning'', flt (4 / 10))]"

definition positive_keywords :: "(string \<times> pyfloat) list" where
  "positive_keywords =
     [(''surge'', flt (8 / 10)), (''rally'', flt (7 / 10)), (''growth'', flt (6 / 10)), (''profit'', flt (6 / 10)),
      (''upgrade'', flt (7 / 10)), (''bullish'', flt (6 / 10)), (''recovery'', flt (6 / 10)), (''expansion'', flt (5 / 10)),
      (''dividend'', flt (5 / 10)), (''breakthrough'', flt (7 / 10)), (''gain'', flt (5 / 10)), (''record high'', flt (8 / 10)),
      (''optimistic'', flt (5 / 10)), (''strong earnings'', flt (7 / 10)), (''beat expectations'', flt (7 / 10)),
      (''outperform'', flt (6 / 10)), (''acquisition'', flt (4 / 10)), (''innovation'', flt (4 / 10))]"

definition keyword_score :: "(string \<times> pyfloat) list \<Rightarrow> string \<Rightarrow> pyfloat" where
  "keyword_score keywords text_lower = f_sum (map snd (filter (\<lambda>(k, x). contains_text k text_lower) keywords))"

definition rule_based_sentiment :: "string \<Rightarrow> pyfloat" where
  "rule_based_sentiment text =
     (let neg_score = keyword_score negative_keywords (py_lower text);
          pos_score = keyword_score positive_keywords (py_lower text);
          weight = f_add neg_score pos_score
      in if weight = 0 then 0 else f_quot (f_sub pos_score neg_score) weight)"

section \<open>The analyser\<close>

type_synonym sentiment_model = "string \<Rightarrow> py_error + (string \<times> pyfloat) option"

record sentiment_analyzer =
  sz_model_loaded :: bool
  sz_model :: "sentiment_model option"

definition sentiment_analyzer_init :: sentiment_analyzer where
  "sentiment_analyzer_init = \<lparr>sz_model_loaded = False, sz_model = None\<rparr>"

definition ensure_model_loaded :: "(py_error + sentiment_model) \<Rightarrow> sentiment_analyzer \<Rightarrow> sentiment_analyzer" where
  "ensure_model_loaded loading z =
     (if sz_model_loaded z then z
      else \<lparr>sz_model_loaded = True, sz_model = (case loading of Inl _ \<Rightarrow> sz_model z | Inr m \<Rightarrow> Some m)\<rparr>)"

definition finbert_score :: "sentiment_model \<Rightarrow> string \<Rightarrow> pyfloat" where
  "finbert_score m text =
     (case m (take 512 text) of
        Inl _ \<Rightarrow> rule_based_sentiment text
      | Inr None \<Rightarrow> 0
      | Inr (Some (label, confidence)) \<Rightarrow>
          if py_lower label = ''positive'' then confidence else if py_lower label = ''negative'' then - confidence else 0)"

definition analyze :: "(py_error + sentiment_model) \<Rightarrow> string \<Rightarrow> sentiment_analyzer \<Rightarrow> pyfloat \<times> sentiment_analyzer" where
  "analyze loading text z0 =
     (if list_all is_space text then (0, z0)
      else
        let z = ensure_model_loaded loading z0;
            score = (case sz_model z of Some m \<Rightarrow> finbert_score m text | None \<Rightarrow> rule_based_sentiment text)
        in (max (- 1) (min 1 score), z))"

definition classify_impact :: "pyfloat \<Rightarrow> pyfloat \<Rightarrow> int \<Rightarrow> string" where
  "classify_impact sentiment_score source_tier corroboration =
     (let magnitude = \<bar>sentiment_score\<bar> in
      if SOURCE_CREDIBILITY_TIER1 \<le> source_tier \<and> flt (7 / 10) < magnitude then ''HIGH''
      else if 2 \<le> corroboration \<and> flt (5 / 10) < magnitude then ''HIGH''
      else if SOURCE_CREDIBILITY_TIER2 \<le> source_tier \<and> flt (5 / 10) < magnitude then ''MEDIUM''
      else if SOURCE_CREDIBILITY_TIER1 \<le> source_tier \<and> flt (3 / 10) < magnitude then ''MEDIUM''
      else ''LOW'')"

section \<open>The range of the score\<close>

lemma keyword_weights: "list_all (\<lambda>(k, x). 0 < x) negative_keywords" "list_all (\<lambda>(k, x). 0 < x) positive_keywords"
  by (simp_all add: negative_keywords_def positive_keywords_def)

lemma keyword_score_nonneg: "list_all (\<lambda>(k, x). 0 < x) ks \<Longrightarrow> 0 \<le> keyword_score ks t"
  unfolding keyword_score_def by (rule f_sum_nonneg) (auto simp: list_all_iff)

lemma keyword_scores_nonneg: "0 \<le> keyword_score negative_keywords t" "0 \<le> keyword_score positive_keywords t"
  using keyword_score_nonneg keyword_weights by blast+

lemma quotient_in_range:
  assumes "0 \<le> p" "0 \<le> n" "f_add n p \<noteq> 0"
  shows "- 1 \<le> f_quot (f_sub p n) (f_add n p)" and "f_quot (f_sub p n) (f_add n p) \<le> 1"
proof -
  let ?d = "f_sub p n" and ?s = "f_add n p"
  have s: "0 < ?s" using assms flt.rnd_nonneg[of "n + p"] by (simp add: f_add_def)
  have "flt (p - n) \<le> flt (n + p)" "flt (- (n + p)) \<le> flt (p - n)" by (rule flt.rnd_mono; use assms in simp)+
  then have "?d \<le> ?s" "- ?s \<le> ?d" unfolding f_sub_def f_add_def flt.rnd_minus by auto
  then have "- 1 \<le> ?d / ?s" "?d / ?s \<le> 1" using s by (simp_all add: pos_le_divide_eq)
  then show "- 1 \<le> f_quot ?d ?s" "f_quot ?d ?s \<le> 1"
    using flt.rnd_ge_rep[of "- 1"] flt.rnd_le_rep[of 1] by (simp_all add: f_quot_def flt.rnd_minus)
qed

lemma rule_based_in_range: "- 1 \<le> rule_based_sentiment t" "rule_based_sentiment t \<le> 1"
  using quotient_in_range[OF keyword_scores_nonneg(2,1)] by (simp_all add: rule_based_sentiment_def Let_def)

text \<open>
  A sentiment lies between minus one and one, whatever the model answers; without a model
  it is the keyword score itself, whose sign tells which keywords weigh more.
\<close>

theorem sentiment_in_range:
  "- 1 \<le> fst (analyze loading text z) \<and> fst (analyze loading text z) \<le> 1 \<and>
   (sz_model (ensure_model_loaded loading z) = None \<and> \<not> list_all is_space text \<longrightarrow>
      fst (analyze loading text z) = rule_based_sentiment text \<and>
      (0 < rule_based_sentiment text \<longleftrightarrow>
         keyword_score negative_keywords (py_lower text) < keyword_score positive_keywords (py_lower text)) \<and>
      (rule_based_sentiment text < 0 \<longleftrightarrow>
         keyword_score positive_keywords (py_lower text) < keyword_score negative_keywords (py_lower text)))"
proof -
  let ?n = "keyword_score negative_keywords (py_lower text)" and ?p = "keyword_score positive_keywords (py_lower text)"
  have sign: "0 < rule_based_sentiment text \<longleftrightarrow> ?n < ?p" "rule_based_sentiment text < 0 \<longleftrightarrow> ?p < ?n"
  proof -
    have "0 \<le> ?n" "0 \<le> ?p" by (rule keyword_scores_nonneg)+
    then have "0 \<le> ?n + ?p" "?n + ?p = 0 \<longleftrightarrow> ?n = 0 \<and> ?p = 0" by auto
    then show "0 < rule_based_sentiment text \<longleftrightarrow> ?n < ?p" "rule_based_sentiment text < 0 \<longleftrightarrow> ?p < ?n"
      by (auto simp: rule_based_sentiment_def Let_def f_quot_def f_sub_def f_add_def zero_less_divide_iff divide_less_0_iff)
  qed
  show ?thesis using rule_based_in_range[of "text"] sign
    by (cases "sz_model (ensure_model_loaded loading z)") (auto simp: analyze_def Let_def max_def min_def)
qed

section \<open>One-sided texts\<close>

text \<open>
  The keyword score is divided by its own weight: a text with keywords of one side only gets an
  extreme score, however weak they are.
\<close>

theorem one_sided_text_is_extreme:
  assumes "keyword_score positive_keywords (py_lower text) = 0" "keyword_score negative_keywords (py_lower text) \<noteq> 0"
  shows "rule_based_sentiment text = - 1"
proof -
  let ?n = "keyword_score negative_keywords (py_lower text)"
  have "flt (- ?n) / flt ?n = - 1" using assms(2) by (simp add: flt.rnd_minus)
  then show ?thesis using assms by (simp add: rule_based_sentiment_def Let_def f_quot_def f_sub_def f_add_def flt.rnd_minus)
qed

theorem weather_warning_has_high_impact:
  "classify_impact (rule_based_sentiment ''Weather warning'') SOURCE_CREDIBILITY_TIER1 0 = ''HIGH''"
  by code_simp

end
