(* ===== verification/Crisis_Detector.thy ===== *)
theory Crisis_Detector
  imports Effects Constants
begin

text \<open>
  Crisis detection from high-impact negative news, \<open>src/news/crisis_detector.py\<close>: the sliding
  window of articles, the crises by region or asset class, their recovery and their escalation to
  the kill switch.  An alert object is referred to by its identifier in \<open>_active_crises\<close>; the
  readings of the clock and the fresh identifiers of a call are its argument.
\<close>

section \<open>Data\<close>

definition CRISIS_THRESHOLD :: int where "CRISIS_THRESHOLD = NEWS_CRISIS_ARTICLE_THRESHOLD"
definition SENTIMENT_THRESHOLD :: pyfloat where "SENTIMENT_THRESHOLD = NEWS_CRISIS_SENTIMENT_THRESHOLD"
definition TIME_WINDOW_MINUTES :: int where "TIME_WINDOW_MINUTES = NEWS_CRISIS_TIME_WINDOW_MINUTES"
definition PERSISTENCE_MINUTES :: int where "PERSISTENCE_MINUTES = NEWS_CRISIS_PERSISTENCE_MINUTES"

text \<open>The article dictionary; a missing key is None.\<close>

record article_dict =
  ad_id :: "string option"
  ad_source :: "string option"
  ad_headline :: "string option"
  ad_sentiment_score :: "pyfloat option"
  ad_received_at :: "micros option"
  ad_impact_level :: "string option"
  ad_region :: "string option"
  ad_asset_class :: "string option"
  ad_category :: "string option"

record crisis_article =
  ka_article_id :: string
  ka_source :: string
  ka_headline :: string
  ka_sentiment_score :: pyfloat
  ka_received_at :: micros
  ka_category :: "string option"
  ka_region :: "string option"
  ka_asset_class :: "string option"

record crisis_alert =
  al_id :: string
  al_region :: string
  al_sentiment_avg :: pyfloat
  al_trigger_articles :: "crisis_article list"
  al_started_at :: micros
  al_resolved_at :: "micros option"
  al_escalated :: bool
  al_active :: bool

record crisis_sentiment =
  cs_sentiment_score :: pyfloat
  cs_region :: string
  cs_received_at :: micros

text \<open>What the payload of the activation request carries.\<close>

record kill_request =
  kq_crisis_id :: string
  kq_region :: string
  kq_sentiment_avg :: pyfloat
  kq_started_at :: micros

record crisis_detector =
  kd_recent_articles :: "crisis_article list"
  kd_active_crises :: "(string, crisis_alert) dict"
  kd_has_event_bus :: bool
  kd_active_crisis_keys :: "(string, string) dict"
  kd_crisis_sentiments :: "(string, crisis_sentiment list) dict"
  kd_pending :: "kill_request option"

definition crisis_detector_init :: "bool \<Rightarrow> crisis_detector" where
  "crisis_detector_init has_bus =
     \<lparr>kd_recent_articles = [], kd_active_crises = [], kd_has_event_bus = has_bus,
      kd_active_crisis_keys = [], kd_crisis_sentiments = [], kd_pending = None\<rparr>"

text \<open>The readings of one call: \<open>cl_resolved\<close> is the clock when a given crisis is resolved.\<close>

record crisis_clock =
  cl_now :: micros
  cl_resolved :: "string \<Rightarrow> micros"
  cl_prune :: micros
  cl_window :: micros
  cl_started :: micros
  cl_article_id :: string
  cl_crisis_id :: string

section \<open>Grouping\<close>

definition truthy :: "string option \<Rightarrow> bool" where
  "truthy x = (case x of Some s \<Rightarrow> s \<noteq> [] | None \<Rightarrow> False)"

definition get_grouping_keys :: "crisis_article \<Rightarrow> string list" where
  "get_grouping_keys a =
     (let keys =
        (if truthy (ka_region a) then [''region:'' @ py_lower (the (ka_region a))] else []) @
        (if truthy (ka_asset_class a) then [''asset_class:'' @ py_lower (the (ka_asset_class a))] else [])
      in if keys = [] then [''global''] else keys)"

definition get_articles_for_key :: "crisis_article list \<Rightarrow> string \<Rightarrow> crisis_article list" where
  "get_articles_for_key articles key = filter (\<lambda>a. key \<in> set (get_grouping_keys a)) articles"

text \<open>\<open>split(":", 1)\<close> gives two parts exactly when there is a colon.\<close>

definition resolve_region_label :: "string \<Rightarrow> string" where
  "resolve_region_label key =
     (if key = ''global'' then ''global''
      else if CHR '':'' \<in> set key then tl (dropWhile (\<lambda>c. c \<noteq> CHR '':'') key)
      else key)"

definition get_articles_in_window :: "micros \<Rightarrow> crisis_detector \<Rightarrow> crisis_article list" where
  "get_articles_in_window now d =
     filter (\<lambda>a. now - minutes TIME_WINDOW_MINUTES \<le> ka_received_at a) (kd_recent_articles d)"

definition prune_old_articles :: "micros \<Rightarrow> crisis_detector \<Rightarrow> crisis_detector" where
  "prune_old_articles now d =
     d\<lparr>kd_recent_articles :=
        dropWhile (\<lambda>a. ka_received_at a < now - minutes TIME_WINDOW_MINUTES) (kd_recent_articles d)\<rparr>"

section \<open>Resolution and escalation\<close>

definition set_alert :: "string \<Rightarrow> (crisis_alert \<Rightarrow> crisis_alert) \<Rightarrow> crisis_detector \<Rightarrow> crisis_detector" where
  "set_alert cid f d = d\<lparr>kd_active_crises := AList.map_entry cid f (kd_active_crises d)\<rparr>"

definition resolve_crisis :: "micros \<Rightarrow> string \<Rightarrow> crisis_detector \<Rightarrow> crisis_detector" where
  "resolve_crisis now cid d0 =
     (case map_of (kd_active_crises d0) cid of
        None \<Rightarrow> d0
      | Some c \<Rightarrow>
          let d = set_alert cid (\<lambda>c. c\<lparr>al_active := False, al_resolved_at := Some now\<rparr>) d0
          in d\<lparr>kd_active_crisis_keys := filter (\<lambda>(key, i). i \<noteq> cid) (kd_active_crisis_keys d),
               kd_crisis_sentiments := AList.delete cid (kd_crisis_sentiments d)\<rparr>)"

definition emit_kill_switch_activation :: "crisis_alert \<Rightarrow> crisis_detector \<Rightarrow> crisis_detector" where
  "emit_kill_switch_activation c d =
     (if \<not> kd_has_event_bus d then d
      else d\<lparr>kd_pending := Some \<lparr>kq_crisis_id = al_id c, kq_region = al_region c,
               kq_sentiment_avg = al_sentiment_avg c, kq_started_at = al_started_at c\<rparr>\<rparr>)"

definition escalate :: "string \<Rightarrow> crisis_alert \<Rightarrow> crisis_detector \<Rightarrow> crisis_detector" where
  "escalate cid c d = emit_kill_switch_activation c (set_alert cid (\<lambda>c. c\<lparr>al_escalated := True\<rparr>) d)"

definition tracked_sentiments :: "crisis_detector \<Rightarrow> string \<Rightarrow> pyfloat list" where
  "tracked_sentiments d cid =
     (case map_of (kd_crisis_sentiments d) cid of Some rs \<Rightarrow> map cs_sentiment_score rs | None \<Rightarrow> [])"

definition check_persistence ::
  "micros \<Rightarrow> string \<Rightarrow> pyfloat list option \<Rightarrow> micros \<Rightarrow> crisis_detector \<Rightarrow> bool \<times> crisis_detector" where
  "check_persistence resolved_now cid current_sentiments now d =
     (case map_of (kd_active_crises d) cid of
        None \<Rightarrow> (False, d)
      | Some c \<Rightarrow>
          if \<not> al_active c then (False, d)
          else if now - al_started_at c < minutes PERSISTENCE_MINUTES then (False, d)
          else
            let sentiments = (case current_sentiments of Some xs \<Rightarrow> xs | None \<Rightarrow> tracked_sentiments d cid)
            in if list_ex (\<lambda>x. NEWS_CRISIS_RECOVERY_THRESHOLD < x) sentiments
               then (False, resolve_crisis resolved_now cid d)
               else (True, escalate cid c d))"

section \<open>The checks on every article\<close>

definition or_global :: "string option \<Rightarrow> string" where
  "or_global x = (if truthy x then the x else ''global'')"

definition crisis_region_of :: "crisis_alert \<Rightarrow> string" where
  "crisis_region_of c = (if al_region c \<noteq> [] then al_region c else ''global'')"

definition relevant :: "crisis_alert \<Rightarrow> string \<Rightarrow> bool" where
  "relevant c article_region \<longleftrightarrow>
     \<not> (crisis_region_of c \<noteq> article_region \<and> crisis_region_of c \<noteq> ''global'' \<and> article_region \<noteq> ''global'')"

text \<open>The body of the loop for one crisis.\<close>

definition check_crisis ::
  "pyfloat \<Rightarrow> string option \<Rightarrow> micros \<Rightarrow> (string \<Rightarrow> micros) \<Rightarrow> string \<Rightarrow> crisis_detector \<Rightarrow> crisis_detector" where
  "check_crisis sentiment region received_at resolved cid d0 =
     (case map_of (kd_active_crises d0) cid of
        None \<Rightarrow> d0
      | Some c \<Rightarrow>
          if \<not> relevant c (or_global region) then d0
          else
            let d = d0\<lparr>kd_crisis_sentiments := AList.map_entry cid
                      (\<lambda>rs. rs @ [\<lparr>cs_sentiment_score = sentiment, cs_region = or_global region, cs_received_at = received_at\<rparr>])
                      (kd_crisis_sentiments d0)\<rparr>
            in if NEWS_CRISIS_RECOVERY_THRESHOLD < sentiment then resolve_crisis (resolved cid) cid d
               else if minutes PERSISTENCE_MINUTES \<le> received_at - al_started_at c then
                 (if list_ex (\<lambda>x. NEWS_CRISIS_RECOVERY_THRESHOLD < x) (tracked_sentiments d cid) then d
                  else escalate cid c d)
               else d)"

definition crises_to_check :: "crisis_detector \<Rightarrow> string list" where
  "crises_to_check d = map fst (filter (\<lambda>(i, c). al_active c \<and> \<not> al_escalated c) (kd_active_crises d))"

definition check_active_crises_on_article ::
  "pyfloat \<Rightarrow> string option \<Rightarrow> micros \<Rightarrow> (string \<Rightarrow> micros) \<Rightarrow> crisis_detector \<Rightarrow> crisis_detector" where
  "check_active_crises_on_article sentiment region received_at resolved d =
     fold (check_crisis sentiment region received_at resolved) (crises_to_check d) d"

section \<open>Detection\<close>

text \<open>The loop over the grouping keys: it stops at the first group that triggers.\<close>

fun check_groups :: "crisis_clock \<Rightarrow> crisis_article list \<Rightarrow> string list \<Rightarrow> crisis_detector \<Rightarrow> crisis_alert option \<times> crisis_detector" where
  "check_groups t window_articles [] d = (None, d)"
| "check_groups t window_articles (key # keys) d =
     (if map_of (kd_active_crisis_keys d) key \<noteq> None then check_groups t window_articles keys d
      else
        let matching = get_articles_for_key window_articles key
        in if CRISIS_THRESHOLD \<le> int (length matching) then
             let c = \<lparr>al_id = cl_crisis_id t, al_region = resolve_region_label key,
                      al_sentiment_avg = flt (f_sum (map ka_sentiment_score matching) / of_nat (length matching)),
                      al_trigger_articles = matching, al_started_at = cl_started t,
                      al_resolved_at = None, al_escalated = False, al_active = True\<rparr>
             in (Some c,
                 d\<lparr>kd_active_crises := AList.update (al_id c) c (kd_active_crises d),
                   kd_active_crisis_keys := AList.update key (al_id c) (kd_active_crisis_keys d),
                   kd_crisis_sentiments := AList.update (al_id c) [] (kd_crisis_sentiments d)\<rparr>)
           else check_groups t window_articles keys d)"

definition check_crisis_conditions :: "crisis_clock \<Rightarrow> crisis_article \<Rightarrow> crisis_detector \<Rightarrow> crisis_alert option \<times> crisis_detector" where
  "check_crisis_conditions t a d =
     check_groups t (get_articles_in_window (cl_window t) d) (get_grouping_keys a) d"

definition record_of :: "crisis_clock \<Rightarrow> article_dict \<Rightarrow> crisis_article" where
  "record_of t x =
     \<lparr>ka_article_id = or_default (ad_id x) (cl_article_id t), ka_source = or_default (ad_source x) ''unknown'',
      ka_headline = or_default (ad_headline x) [], ka_sentiment_score = or_default (ad_sentiment_score x) 0,
      ka_received_at = or_default (ad_received_at x) (cl_now t), ka_category = ad_category x,
      ka_region = ad_region x, ka_asset_class = ad_asset_class x\<rparr>"

definition counts_towards_crisis :: "article_dict \<Rightarrow> bool" where
  "counts_towards_crisis x \<longleftrightarrow>
     \<not> (or_default (ad_impact_level x) ''LOW'' \<noteq> ''HIGH'' \<or> SENTIMENT_THRESHOLD < or_default (ad_sentiment_score x) 0)"

definition evaluate :: "crisis_clock \<Rightarrow> article_dict \<Rightarrow> crisis_detector \<Rightarrow> crisis_alert option \<times> crisis_detector" where
  "evaluate t x d0 =
     (let d = check_active_crises_on_article (or_default (ad_sentiment_score x) 0) (ad_region x)
                (or_default (ad_received_at x) (cl_now t)) (cl_resolved t) d0
      in if \<not> counts_towards_crisis x then (None, d)
         else
           let a = record_of t x;
               d1 = prune_old_articles (cl_prune t) (d\<lparr>kd_recent_articles := kd_recent_articles d @ [a]\<rparr>)
           in check_crisis_conditions t a d1)"

definition active_crises :: "crisis_detector \<Rightarrow> crisis_alert list" where
  "active_crises d = filter al_active (map snd (kd_active_crises d))"

text \<open>The pending request is dropped whether its publication succeeds or not.\<close>

definition dispatch_pending_events ::
  "(kill_request \<Rightarrow> ('w, int) action) \<Rightarrow> crisis_detector \<Rightarrow> 'w \<Rightarrow> crisis_detector \<times> 'w" where
  "dispatch_pending_events publish d w =
     (case kd_pending d of
        None \<Rightarrow> (d, w)
      | Some e \<Rightarrow> if kd_has_event_bus d then (d\<lparr>kd_pending := None\<rparr>, snd (publish e w)) else (d, w))"

section \<open>Lookups after the operations\<close>

lemma map_of_filter_value:
  "dict_ok d \<Longrightarrow> map_of (filter (\<lambda>(k, v). P v) d) k =
     (case map_of d k of Some v \<Rightarrow> if P v then Some v else None | None \<Rightarrow> None)"
proof (induction d)
  case (Cons p d)
  obtain k' v where p: "p = (k', v)" by force
  have "k' \<notin> fst ` set d" "dict_ok d" using Cons.prems by (auto simp: p dict_ok_def)
  then show ?case using Cons.IH by (cases "k = k'") (auto simp: p map_of_eq_None_iff[THEN iffD2] split: option.splits)
qed simp

lemma dict_ok_filter [simp]: "dict_ok d \<Longrightarrow> dict_ok (filter P d)"
  by (simp add: dict_ok_def distinct_map_filter)

text \<open>What is recorded of an alert under its grouping key.\<close>

definition alert_ok :: "string \<Rightarrow> crisis_alert \<Rightarrow> bool" where
  "alert_ok key c \<longleftrightarrow> al_active c \<and> al_region c = resolve_region_label key \<and>
     CRISIS_THRESHOLD \<le> int (length (al_trigger_articles c)) \<and>
     list_all (\<lambda>a. ka_sentiment_score a \<le> SENTIMENT_THRESHOLD \<and> key \<in> set (get_grouping_keys a)) (al_trigger_articles c)"

text \<open>The fields of the invariant, one group per dictionary.\<close>

definition window_ok :: "crisis_detector \<Rightarrow> bool" where
  "window_ok d \<longleftrightarrow> list_all (\<lambda>a. ka_sentiment_score a \<le> SENTIMENT_THRESHOLD) (kd_recent_articles d)"

definition keys_ok :: "crisis_detector \<Rightarrow> bool" where
  "keys_ok d \<longleftrightarrow> dict_ok (kd_active_crises d) \<and> dict_ok (kd_active_crisis_keys d) \<and>
     (\<forall>key cid. map_of (kd_active_crisis_keys d) key = Some cid \<longrightarrow>
        (\<exists>c. map_of (kd_active_crises d) cid = Some c \<and> alert_ok key c)) \<and>
     (\<forall>k1 k2 cid. map_of (kd_active_crisis_keys d) k1 = Some cid \<longrightarrow> map_of (kd_active_crisis_keys d) k2 = Some cid \<longrightarrow> k1 = k2) \<and>
     (\<forall>cid c. map_of (kd_active_crises d) cid = Some c \<longrightarrow>
        al_id c = cid \<and> (al_active c \<longrightarrow> (\<exists>key. map_of (kd_active_crisis_keys d) key = Some cid)))"

definition sentiments_ok :: "crisis_detector \<Rightarrow> bool" where
  "sentiments_ok d \<longleftrightarrow>
     (\<forall>cid rs. map_of (kd_crisis_sentiments d) cid = Some rs \<longrightarrow>
        list_all (\<lambda>r. cs_sentiment_score r \<le> NEWS_CRISIS_RECOVERY_THRESHOLD) rs)"

definition crises_ok :: "crisis_detector \<Rightarrow> bool" where
  "crises_ok d \<longleftrightarrow> window_ok d \<and> keys_ok d \<and> sentiments_ok d"

lemma crises_ok_init [simp]: "crises_ok (crisis_detector_init b)"
  by (simp add: crises_ok_def window_ok_def keys_ok_def sentiments_ok_def crisis_detector_init_def)

lemma keys_okD:
  assumes "keys_ok d"
  shows "dict_ok (kd_active_crises d)" "dict_ok (kd_active_crisis_keys d)"
    and "map_of (kd_active_crisis_keys d) key = Some cid \<Longrightarrow> \<exists>c. map_of (kd_active_crises d) cid = Some c \<and> alert_ok key c"
    and "map_of (kd_active_crisis_keys d) key = Some cid \<Longrightarrow> map_of (kd_active_crisis_keys d) key' = Some cid \<Longrightarrow> key = key'"
    and "map_of (kd_active_crises d) cid = Some c \<Longrightarrow> al_id c = cid"
    and "map_of (kd_active_crises d) cid = Some c \<Longrightarrow> al_active c \<Longrightarrow> \<exists>key. map_of (kd_active_crisis_keys d) key = Some cid"
  using assms unfolding keys_ok_def by blast+

lemma keys_ok_same:
  "keys_ok d \<Longrightarrow> kd_active_crises d' = kd_active_crises d \<Longrightarrow> kd_active_crisis_keys d' = kd_active_crisis_keys d \<Longrightarrow> keys_ok d'"
  unfolding keys_ok_def by simp

subsection \<open>Resolution\<close>

lemma resolve_lookups:
  assumes "dict_ok (kd_active_crisis_keys d)"
  shows "map_of (kd_active_crises (resolve_crisis now cid d)) i =
      (if i = cid then map_option (\<lambda>c. c\<lparr>al_active := False, al_resolved_at := Some now\<rparr>) (map_of (kd_active_crises d) cid)
       else map_of (kd_active_crises d) i)"
    and "map_of (kd_active_crises d) cid \<noteq> None \<Longrightarrow> map_of (kd_active_crisis_keys (resolve_crisis now cid d)) key =
      (if map_of (kd_active_crisis_keys d) key = Some cid then None else map_of (kd_active_crisis_keys d) key)"
    and "map_of (kd_crisis_sentiments (resolve_crisis now cid d)) i = Some rs \<Longrightarrow> map_of (kd_crisis_sentiments d) i = Some rs"
    and "kd_recent_articles (resolve_crisis now cid d) = kd_recent_articles d"
    and "kd_pending (resolve_crisis now cid d) = kd_pending d"
    and "kd_has_event_bus (resolve_crisis now cid d) = kd_has_event_bus d"
  using assms
  by (auto simp: resolve_crisis_def set_alert_def map_of_map_entry map_of_filter_value Let_def
      split: option.splits if_splits)

lemma keys_ok_resolve:
  assumes "keys_ok d" shows "keys_ok (resolve_crisis now cid d)"
proof (cases "map_of (kd_active_crises d) cid")
  case None
  then show ?thesis using assms by (simp add: resolve_crisis_def)
next
  case (Some c0)
  note D = keys_okD[OF assms]
  have k: "map_of (kd_active_crisis_keys (resolve_crisis now cid d)) key = Some i \<longleftrightarrow>
      i \<noteq> cid \<and> map_of (kd_active_crisis_keys d) key = Some i" for key i
    using resolve_lookups(2)[OF D(2), of cid now key] Some by auto
  have c: "map_of (kd_active_crises (resolve_crisis now cid d)) i = Some c \<longleftrightarrow>
      (if i = cid then c = c0\<lparr>al_active := False, al_resolved_at := Some now\<rparr> else map_of (kd_active_crises d) i = Some c)" for i c
    using resolve_lookups(1)[OF D(2), of now cid i] Some by auto
  have "dict_ok (kd_active_crises (resolve_crisis now cid d))" "dict_ok (kd_active_crisis_keys (resolve_crisis now cid d))"
    using D(1,2) by (simp_all add: resolve_crisis_def set_alert_def Some Let_def)
  moreover have "al_id c0 = cid" by (rule D(5)[OF Some])
  ultimately show ?thesis unfolding keys_ok_def k c using D(3-6) Some
    by (auto split: if_splits)
qed

lemma crises_ok_resolve: "crises_ok d \<Longrightarrow> crises_ok (resolve_crisis now cid d)"
  unfolding crises_ok_def
  by (auto simp: keys_ok_resolve window_ok_def sentiments_ok_def resolve_lookups(4) keys_okD(2)
      dest: resolve_lookups(3)[rotated])

subsection \<open>Escalation\<close>

lemma escalate_lookups:
  "map_of (kd_active_crises (escalate cid c d)) i =
     (if i = cid then map_option (\<lambda>c. c\<lparr>al_escalated := True\<rparr>) (map_of (kd_active_crises d) cid) else map_of (kd_active_crises d) i)"
  "kd_active_crisis_keys (escalate cid c d) = kd_active_crisis_keys d"
  "kd_crisis_sentiments (escalate cid c d) = kd_crisis_sentiments d"
  "kd_recent_articles (escalate cid c d) = kd_recent_articles d"
  "kd_has_event_bus (escalate cid c d) = kd_has_event_bus d"
  by (simp_all add: escalate_def emit_kill_switch_activation_def set_alert_def map_of_map_entry)

lemma alert_ok_escalated [simp]: "alert_ok key (c\<lparr>al_escalated := True\<rparr>) = alert_ok key c"
  by (simp add: alert_ok_def)

lemma keys_ok_escalate: assumes "keys_ok d" shows "keys_ok (escalate cid c d)"
proof -
  note D = keys_okD[OF assms]
  have "dict_ok (kd_active_crises (escalate cid c d))"
    using D(1) by (simp add: escalate_def emit_kill_switch_activation_def set_alert_def)
  then show ?thesis unfolding keys_ok_def escalate_lookups using D
    by (auto split: if_splits) (metis alert_ok_escalated option.distinct(1))+
qed

lemma crises_ok_escalate: "crises_ok d \<Longrightarrow> crises_ok (escalate cid c d)"
  by (simp add: crises_ok_def window_ok_def sentiments_ok_def escalate_lookups keys_ok_escalate)

subsection \<open>The other operations\<close>

lemma crises_ok_check_persistence: "crises_ok d \<Longrightarrow> crises_ok (snd (check_persistence r cid xs now d))"
  by (auto simp: check_persistence_def Let_def intro: crises_ok_resolve crises_ok_escalate split: option.split)

lemma crises_ok_reading:
  assumes "crises_ok d" "s \<le> NEWS_CRISIS_RECOVERY_THRESHOLD"
  shows "crises_ok (d\<lparr>kd_crisis_sentiments := AList.map_entry cid (\<lambda>rs. rs @ [\<lparr>cs_sentiment_score = s, cs_region = g, cs_received_at = t\<rparr>])
           (kd_crisis_sentiments d)\<rparr>)"
  using assms by (auto simp: crises_ok_def window_ok_def sentiments_ok_def map_of_map_entry intro: keys_ok_same)

text \<open>A reading above the recovery threshold is removed together with its crisis.\<close>

lemma resolve_reading:
  "map_of (kd_active_crises d) cid = Some c \<Longrightarrow>
   resolve_crisis now cid (d\<lparr>kd_crisis_sentiments := AList.map_entry cid f (kd_crisis_sentiments d)\<rparr>) =
   resolve_crisis now cid d"
proof -
  have "AList.delete cid (AList.map_entry cid f xs) = AList.delete cid xs" for xs :: "(string, crisis_sentiment list) dict"
    by (induction xs) (auto simp: AList.delete_eq)
  then show "map_of (kd_active_crises d) cid = Some c \<Longrightarrow> ?thesis" by (simp add: resolve_crisis_def set_alert_def Let_def)
qed

lemma crises_ok_check_crisis: assumes "crises_ok d" shows "crises_ok (check_crisis s g t r cid d)"
proof (cases "map_of (kd_active_crises d) cid")
  case (Some c)
  show ?thesis
  proof (cases "NEWS_CRISIS_RECOVERY_THRESHOLD < s")
    case True
    then show ?thesis using assms by (simp add: check_crisis_def Some Let_def resolve_reading[OF Some] crises_ok_resolve)
  next
    case False
    note crises_ok_reading[OF assms, of s cid "or_global g" t]
    then show ?thesis using assms False by (simp add: check_crisis_def Some Let_def crises_ok_escalate)
  qed
qed (use assms in \<open>simp add: check_crisis_def\<close>)

lemma crises_ok_on_article: "crises_ok d \<Longrightarrow> crises_ok (check_active_crises_on_article s g t r d)"
proof -
  have "crises_ok d \<Longrightarrow> crises_ok (fold (check_crisis s g t r) ids d)" for ids d
    by (induction ids arbitrary: d) (auto intro: crises_ok_check_crisis)
  then show "crises_ok d \<Longrightarrow> ?thesis" by (simp add: check_active_crises_on_article_def)
qed

lemma crises_ok_new_article:
  assumes "crises_ok d" "counts_towards_crisis x"
  shows "crises_ok (prune_old_articles now (d\<lparr>kd_recent_articles := kd_recent_articles d @ [record_of t x]\<rparr>))"
proof -
  have "ka_sentiment_score (record_of t x) \<le> SENTIMENT_THRESHOLD"
    using assms(2) by (simp add: counts_towards_crisis_def record_of_def)
  then have w: "window_ok (d\<lparr>kd_recent_articles := kd_recent_articles d @ [record_of t x]\<rparr>)"
    using assms(1) by (simp add: crises_ok_def window_ok_def)
  have "window_ok (prune_old_articles now e)" if "window_ok e" for e
    using that set_dropWhileD[of _ _ "kd_recent_articles e"] by (auto simp: window_ok_def prune_old_articles_def list_all_iff)
  from this[OF w] show ?thesis using assms(1)
    by (auto simp: crises_ok_def sentiments_ok_def prune_old_articles_def intro: keys_ok_same)
qed

lemma window_articles_ok:
  "crises_ok d \<Longrightarrow> list_all (\<lambda>a. ka_sentiment_score a \<le> SENTIMENT_THRESHOLD) (get_articles_in_window now d)"
  by (auto simp: crises_ok_def window_ok_def get_articles_in_window_def list_all_iff)

lemma keys_ok_new_crisis:
  assumes "keys_ok d" "map_of (kd_active_crisis_keys d) key = None" "map_of (kd_active_crises d) (al_id c) = None" "alert_ok key c"
  shows "keys_ok (d\<lparr>kd_active_crises := AList.update (al_id c) c (kd_active_crises d),
            kd_active_crisis_keys := AList.update key (al_id c) (kd_active_crisis_keys d), kd_crisis_sentiments := z\<rparr>)"
proof -
  let ?d = "d\<lparr>kd_active_crises := AList.update (al_id c) c (kd_active_crises d),
            kd_active_crisis_keys := AList.update key (al_id c) (kd_active_crisis_keys d), kd_crisis_sentiments := z\<rparr>"
  note D = keys_okD[OF assms(1)]
  have new: "map_of (kd_active_crisis_keys d) k \<noteq> Some (al_id c)" for k using D(3)[of k "al_id c"] assms(3) by auto
  have k: "map_of (kd_active_crisis_keys ?d) k = Some i \<longleftrightarrow>
      (k = key \<and> i = al_id c) \<or> (k \<noteq> key \<and> i \<noteq> al_id c \<and> map_of (kd_active_crisis_keys d) k = Some i)" for k i
    using new by auto
  have c: "map_of (kd_active_crises ?d) i = Some a \<longleftrightarrow>
      (i = al_id c \<and> a = c) \<or> (i \<noteq> al_id c \<and> map_of (kd_active_crises d) i = Some a)" for i a
    by auto
  have old: "map_of (kd_active_crisis_keys d) k = Some i \<Longrightarrow> k \<noteq> key \<and> i \<noteq> al_id c" for k i
    using new assms(2) by auto
  show ?thesis unfolding keys_ok_def k c
  proof (intro conjI allI impI)
    show "dict_ok (kd_active_crises ?d)" "dict_ok (kd_active_crisis_keys ?d)" using D(1,2) by simp_all
  next
    fix k i assume "k = key \<and> i = al_id c \<or> k \<noteq> key \<and> i \<noteq> al_id c \<and> map_of (kd_active_crisis_keys d) k = Some i"
    then show "\<exists>a. (i = al_id c \<and> a = c \<or> i \<noteq> al_id c \<and> map_of (kd_active_crises d) i = Some a) \<and> alert_ok k a"
      using D(3) assms(4) by blast
  next
    fix k1 k2 i
    assume "k1 = key \<and> i = al_id c \<or> k1 \<noteq> key \<and> i \<noteq> al_id c \<and> map_of (kd_active_crisis_keys d) k1 = Some i"
      "k2 = key \<and> i = al_id c \<or> k2 \<noteq> key \<and> i \<noteq> al_id c \<and> map_of (kd_active_crisis_keys d) k2 = Some i"
    then show "k1 = k2" using D(4)[of k1 i k2] by argo
  next
    fix i a assume "i = al_id c \<and> a = c \<or> i \<noteq> al_id c \<and> map_of (kd_active_crises d) i = Some a"
    then show "al_id a = i" using D(5)[of i a] by auto
  next
    fix i a assume a: "i = al_id c \<and> a = c \<or> i \<noteq> al_id c \<and> map_of (kd_active_crises d) i = Some a" "al_active a"
    show "\<exists>k. k = key \<and> i = al_id c \<or> k \<noteq> key \<and> i \<noteq> al_id c \<and> map_of (kd_active_crisis_keys d) k = Some i"
    proof (cases "i = al_id c")
      case False
      then obtain k where "map_of (kd_active_crisis_keys d) k = Some i" using D(6)[of i a] a by auto
      with old[OF this] show ?thesis by blast
    qed simp
  qed
qed

lemma crises_ok_check_groups:
  assumes "crises_ok d" "list_all (\<lambda>a. ka_sentiment_score a \<le> SENTIMENT_THRESHOLD) ws"
    and "map_of (kd_active_crises d) (cl_crisis_id t) = None"
  shows "crises_ok (snd (check_groups t ws keys d))"
  using assms
proof (induction keys)
  case (Cons key keys)
  show ?case
  proof (cases "map_of (kd_active_crisis_keys d) key = None \<and> CRISIS_THRESHOLD \<le> int (length (get_articles_for_key ws key))")
    case False
    then show ?thesis using Cons.IH[OF Cons.prems] by (auto simp: Let_def)
  next
    case True
    define c where "c = \<lparr>al_id = cl_crisis_id t, al_region = resolve_region_label key,
      al_sentiment_avg = flt (f_sum (map ka_sentiment_score (get_articles_for_key ws key)) / of_nat (length (get_articles_for_key ws key))),
      al_trigger_articles = get_articles_for_key ws key, al_started_at = cl_started t,
      al_resolved_at = None, al_escalated = False, al_active = True\<rparr>"
    have e: "snd (check_groups t ws (key # keys) d) = d\<lparr>kd_active_crises := AList.update (al_id c) c (kd_active_crises d),
        kd_active_crisis_keys := AList.update key (al_id c) (kd_active_crisis_keys d),
        kd_crisis_sentiments := AList.update (al_id c) [] (kd_crisis_sentiments d)\<rparr>"
      using True by (simp add: c_def Let_def)
    have "alert_ok key c" using True Cons.prems(2)
      by (auto simp: alert_ok_def c_def get_articles_for_key_def list_all_iff)
    moreover have "al_id c = cl_crisis_id t" by (simp add: c_def)
    ultimately have "keys_ok (snd (check_groups t ws (key # keys) d))" unfolding e
      using Cons.prems(1,3) True by (intro keys_ok_new_crisis) (auto simp: crises_ok_def)
    then show ?thesis using Cons.prems(1) unfolding e crises_ok_def window_ok_def sentiments_ok_def by simp
  qed
qed simp

section \<open>Every run\<close>

datatype crisis_op =
    Article crisis_clock article_dict
  | Check_persistence micros string "pyfloat list option" micros
  | Resolve micros string
  | Dispatched

fun crisis_apply :: "crisis_op \<Rightarrow> crisis_detector \<Rightarrow> crisis_detector" where
  "crisis_apply (Article t x) d = snd (evaluate t x d)"
| "crisis_apply (Check_persistence r cid xs now) d = snd (check_persistence r cid xs now d)"
| "crisis_apply (Resolve now cid) d = resolve_crisis now cid d"
| "crisis_apply Dispatched d = fst (dispatch_pending_events (\<lambda>e. returnA 0) d ())"

text \<open>The identifiers of \<open>uuid4\<close> are new when they are used.\<close>

fun fresh_ids :: "crisis_op list \<Rightarrow> crisis_detector \<Rightarrow> bool" where
  "fresh_ids [] d = True"
| "fresh_ids (p # ps) d =
     ((case p of Article t x \<Rightarrow> map_of (kd_active_crises d) (cl_crisis_id t) = None | _ \<Rightarrow> True) \<and>
      fresh_ids ps (crisis_apply p d))"

text \<open>Checking and resolving never add an alert.\<close>

lemma check_crisis_ids: "fst ` set (kd_active_crises (check_crisis s g t r cid d)) = fst ` set (kd_active_crises d)"
  by (simp add: check_crisis_def resolve_crisis_def escalate_def emit_kill_switch_activation_def set_alert_def
      dom_map_entry Let_def split: option.split)

lemma on_article_ids: "fst ` set (kd_active_crises (check_active_crises_on_article s g t r d)) = fst ` set (kd_active_crises d)"
proof -
  have "fst ` set (kd_active_crises (fold (check_crisis s g t r) ids d)) = fst ` set (kd_active_crises d)" for ids
    by (induction ids arbitrary: d) (simp_all add: check_crisis_ids)
  then show ?thesis by (simp add: check_active_crises_on_article_def)
qed

lemma crises_ok_evaluate:
  assumes "crises_ok d" "map_of (kd_active_crises d) (cl_crisis_id t) = None"
  shows "crises_ok (snd (evaluate t x d))"
proof (cases "counts_towards_crisis x")
  case True
  let ?d = "check_active_crises_on_article (or_default (ad_sentiment_score x) 0) (ad_region x)
      (or_default (ad_received_at x) (cl_now t)) (cl_resolved t) d"
  let ?e = "prune_old_articles (cl_prune t) (?d\<lparr>kd_recent_articles := kd_recent_articles ?d @ [record_of t x]\<rparr>)"
  have e: "crises_ok ?e" by (rule crises_ok_new_article[OF crises_ok_on_article[OF assms(1)] True])
  have "map_of (kd_active_crises ?d) (cl_crisis_id t) = None"
    using assms(2) by (simp add: map_of_eq_None_iff on_article_ids)
  then have "map_of (kd_active_crises ?e) (cl_crisis_id t) = None" by (simp add: prune_old_articles_def)
  from crises_ok_check_groups[OF e window_articles_ok[OF e] this] True show ?thesis
    by (simp add: evaluate_def check_crisis_conditions_def Let_def)
qed (use assms in \<open>simp add: evaluate_def crises_ok_on_article Let_def\<close>)

lemma crises_ok_pending: "crises_ok d \<Longrightarrow> crises_ok (d\<lparr>kd_pending := None\<rparr>)"
  by (auto simp: crises_ok_def window_ok_def sentiments_ok_def intro: keys_ok_same)

lemma crises_ok_apply:
  "crises_ok d \<Longrightarrow> fresh_ids [p] d \<Longrightarrow> crises_ok (crisis_apply p d)"
  by (cases p) (auto intro: crises_ok_evaluate crises_ok_check_persistence crises_ok_resolve crises_ok_pending
      simp: dispatch_pending_events_def split: option.split)

lemma crises_ok_run: "crises_ok d \<Longrightarrow> fresh_ids ps d \<Longrightarrow> crises_ok (fold crisis_apply ps d)"
proof (induction ps arbitrary: d)
  case (Cons p ps)
  have "crises_ok (crisis_apply p d)" by (rule crises_ok_apply[OF Cons.prems(1)]) (use Cons.prems(2) in simp)
  then show ?case using Cons.IH[of "crisis_apply p d"] Cons.prems(2) by simp
qed simp

text \<open>
  Claim C19: in every run each active crisis belongs to exactly one region, asset class or the global
  group; it was raised by at least three articles of that group, each with a sentiment at or below
  the crisis threshold, and no group has two active crises.
\<close>

theorem active_crisis_is_justified:
  assumes "fresh_ids ps (crisis_detector_init b)" "d = fold crisis_apply ps (crisis_detector_init b)"
    and "c \<in> set (active_crises d)"
  shows "\<exists>!key. map_of (kd_active_crisis_keys d) key = Some (al_id c) \<and> alert_ok key c"
proof -
  have k: "keys_ok d" using crises_ok_run[OF crises_ok_init assms(1)] by (simp add: assms(2) crises_ok_def)
  note D = keys_okD[OF k]
  obtain cid where "(cid, c) \<in> set (kd_active_crises d)" and a: "al_active c" using assms(3) by (auto simp: active_crises_def)
  then have c: "map_of (kd_active_crises d) cid = Some c" using D(1) by (simp add: dict_ok_def)
  then have i: "al_id c = cid" by (rule D(5))
  obtain key where key: "map_of (kd_active_crisis_keys d) key = Some cid" using D(6)[OF c a] ..
  have "alert_ok key c" using D(3)[OF key] c by simp
  then show ?thesis using key D(4) i by metis
qed

definition sample_clock :: "string \<Rightarrow> micros \<Rightarrow> crisis_clock" where
  "sample_clock i t = \<lparr>cl_now = t, cl_resolved = (\<lambda>_. t), cl_prune = t, cl_window = t, cl_started = t,
     cl_article_id = i, cl_crisis_id = i\<rparr>"

definition sample_article :: "pyfloat \<Rightarrow> micros \<Rightarrow> article_dict" where
  "sample_article s t = \<lparr>ad_id = None, ad_source = None, ad_headline = None, ad_sentiment_score = Some s,
     ad_received_at = Some t, ad_impact_level = Some ''HIGH'', ad_region = Some ''Asia'', ad_asset_class = None, ad_category = None\<rparr>"

definition sample_bad_news :: "crisis_op list" where
  "sample_bad_news = map (\<lambda>(i, k). Article (sample_clock i (minutes k)) (sample_article (- 1) (minutes k)))
     [(''a'', 1), (''b'', 2), (''c'', 3)]"

definition sample_detector :: crisis_detector where
  "sample_detector = fold crisis_apply sample_bad_news (crisis_detector_init True)"

lemma sample_detector_facts:
  "fresh_ids sample_bad_news (crisis_detector_init True)"
  "map (\<lambda>(i, c). (i, al_region c, al_started_at c, al_active c, al_escalated c)) (kd_active_crises sample_detector) =
     [(''c'', ''asia'', minutes 3, True, False)]"
  by code_simp+

theorem active_crisis_is_justified_witness:
  "\<exists>c. \<exists>!key. map_of (kd_active_crisis_keys sample_detector) key = Some (al_id c) \<and> alert_ok key c"
proof -
  obtain c where "c \<in> set (active_crises sample_detector)"
    using sample_detector_facts(2) by (auto simp: active_crises_def map_eq_Cons_conv)
  from active_crisis_is_justified[OF sample_detector_facts(1) sample_detector_def this] show ?thesis ..
qed

section \<open>What an article does to an active crisis\<close>

lemma check_crisis_other:
  "dict_ok (kd_active_crisis_keys d) \<Longrightarrow> i \<noteq> cid \<Longrightarrow>
     map_of (kd_active_crises (check_crisis s g t r i d)) cid = map_of (kd_active_crises d) cid"
  by (auto simp: check_crisis_def resolve_lookups(1) escalate_lookups Let_def split: option.split)

definition after_article :: "pyfloat \<Rightarrow> micros \<Rightarrow> micros \<Rightarrow> crisis_alert \<Rightarrow> crisis_alert" where
  "after_article s t now c =
     (if NEWS_CRISIS_RECOVERY_THRESHOLD < s then c\<lparr>al_active := False, al_resolved_at := Some now\<rparr>
      else if minutes PERSISTENCE_MINUTES \<le> t - al_started_at c then c\<lparr>al_escalated := True\<rparr>
      else c)"

lemma tracked_low:
  assumes "sentiments_ok d"
  shows "\<not> list_ex (\<lambda>x. NEWS_CRISIS_RECOVERY_THRESHOLD < x) (tracked_sentiments d cid)"
proof (cases "map_of (kd_crisis_sentiments d) cid")
  case (Some rs)
  then have "list_all (\<lambda>r. cs_sentiment_score r \<le> NEWS_CRISIS_RECOVERY_THRESHOLD) rs" using assms by (simp add: sentiments_ok_def)
  then show ?thesis by (auto simp: tracked_sentiments_def Some list_ex_iff list_all_iff)
qed (simp add: tracked_sentiments_def)

lemma check_crisis_this:
  assumes "crises_ok d" "map_of (kd_active_crises d) cid = Some c" "relevant c (or_global g)"
  shows "map_of (kd_active_crises (check_crisis s g t r cid d)) cid = Some (after_article s t (r cid) c)"
proof -
  let ?d = "d\<lparr>kd_crisis_sentiments := AList.map_entry cid
      (\<lambda>rs. rs @ [\<lparr>cs_sentiment_score = s, cs_region = or_global g, cs_received_at = t\<rparr>]) (kd_crisis_sentiments d)\<rparr>"
  have D: "dict_ok (kd_active_crisis_keys d)" using assms(1) by (simp add: crises_ok_def keys_okD(2))
  have "\<not> list_ex (\<lambda>x. NEWS_CRISIS_RECOVERY_THRESHOLD < x) (tracked_sentiments ?d cid)" if "\<not> NEWS_CRISIS_RECOVERY_THRESHOLD < s"
  proof -
    have "sentiments_ok ?d" using crises_ok_reading[OF assms(1), of s cid "or_global g" t] that by (simp add: crises_ok_def)
    then show ?thesis by (rule tracked_low)
  qed
  then show ?thesis using assms(2,3) D
    by (simp add: check_crisis_def after_article_def Let_def resolve_lookups(1) escalate_lookups(1))
qed

lemma fold_check_this:
  assumes "crises_ok d" "map_of (kd_active_crises d) cid = Some c" "distinct ids" "relevant c (or_global g)"
  shows "map_of (kd_active_crises (fold (check_crisis s g t r) ids d)) cid =
    Some (if cid \<in> set ids then after_article s t (r cid) c else c)"
proof -
  have keep: "map_of (kd_active_crises (fold (check_crisis s g t r) js e)) cid = map_of (kd_active_crises e) cid"
    if "cid \<notin> set js" "crises_ok e" for js e
    using that
  proof (induction js arbitrary: e)
    case (Cons j js)
    have "dict_ok (kd_active_crisis_keys e)" using Cons.prems(2) by (simp add: crises_ok_def keys_okD(2))
    then show ?case using check_crisis_other[of e j cid] Cons by (auto simp: crises_ok_check_crisis)
  qed simp
  show ?thesis using assms(1-3)
  proof (induction ids arbitrary: d)
    case (Cons j js)
    note ok = crises_ok_check_crisis[OF Cons.prems(1), of s g t r j]
    show ?case
    proof (cases "j = cid")
      case True
      then show ?thesis using Cons.prems keep[OF _ ok] check_crisis_this[OF Cons.prems(1,2) assms(4)] by simp
    next
      case False
      have "dict_ok (kd_active_crisis_keys d)" using Cons.prems(1) by (simp add: crises_ok_def keys_okD(2))
      then show ?thesis using False Cons.IH[OF ok] Cons.prems check_crisis_other by simp
    qed
  qed simp
qed

lemma check_groups_keep:
  "cl_crisis_id t \<noteq> cid \<Longrightarrow> map_of (kd_active_crises (snd (check_groups t ws keys d))) cid = map_of (kd_active_crises d) cid"
  by (induction keys) (auto simp: Let_def)

lemma evaluate_keep:
  "cl_crisis_id t \<noteq> cid \<Longrightarrow> map_of (kd_active_crises (snd (evaluate t x d))) cid =
   map_of (kd_active_crises (check_active_crises_on_article (or_default (ad_sentiment_score x) 0) (ad_region x)
     (or_default (ad_received_at x) (cl_now t)) (cl_resolved t) d)) cid"
  by (simp add: evaluate_def check_crisis_conditions_def check_groups_keep prune_old_articles_def Let_def)

text \<open>
  Claim: in every run an article of the region of an active crisis that has not escalated resolves
  the crisis when its sentiment is above the recovery threshold, escalates it when it is not and
  thirty minutes have passed since the start, and otherwise leaves it; so a crisis escalates exactly
  when no article of its region has recovered since it started.
\<close>

theorem article_decides_crisis:
  assumes "fresh_ids (ps @ [Article t x]) (crisis_detector_init b)" "d = fold crisis_apply ps (crisis_detector_init b)"
    and "map_of (kd_active_crises d) cid = Some c" "al_active c" "\<not> al_escalated c" "relevant c (or_global (ad_region x))"
  shows "map_of (kd_active_crises (snd (evaluate t x d))) cid =
    Some (after_article (or_default (ad_sentiment_score x) 0) (or_default (ad_received_at x) (cl_now t)) (cl_resolved t cid) c)"
proof -
  have fresh: "fresh_ids ps e \<and> map_of (kd_active_crises (fold crisis_apply ps e)) (cl_crisis_id t) = None"
    if "fresh_ids (ps @ [Article t x]) e" for ps e
    using that by (induction ps arbitrary: e) auto
  have ok: "crises_ok d" using fresh[OF assms(1)] crises_ok_run[OF crises_ok_init] by (simp add: assms(2))
  then have "dict_ok (kd_active_crises d)" by (simp add: crises_ok_def keys_okD(1))
  then have "distinct (crises_to_check d)" "cid \<in> set (crises_to_check d)"
    using map_of_SomeD[OF assms(3)] assms(4,5)
    by (auto simp: crises_to_check_def dict_ok_def distinct_map_filter image_iff intro!: bexI[of _ "(cid, c)"])
  moreover have "cl_crisis_id t \<noteq> cid" using fresh[OF assms(1)] assms(2,3) by auto
  ultimately show ?thesis
    using fold_check_this[OF ok assms(3) _ assms(6), of "crises_to_check d"]
    by (simp add: evaluate_keep check_active_crises_on_article_def)
qed

theorem article_decides_crisis_witness:
  "\<exists>c. map_of (kd_active_crises (snd (evaluate (sample_clock ''d'' (minutes 33))
      (sample_article (- 1) (minutes 33)\<lparr>ad_region := None\<rparr>) sample_detector))) ''c'' = Some c \<and> al_escalated c"
proof -
  obtain c where c: "map_of (kd_active_crises sample_detector) ''c'' = Some c" "al_region c = ''asia''" "al_started_at c = minutes 3"
    "al_active c" "\<not> al_escalated c"
    using sample_detector_facts(2) by (auto simp: map_eq_Cons_conv)
  let ?x = "sample_article (- 1) (minutes 33)\<lparr>ad_region := None\<rparr>"
  have f: "fresh_ids (sample_bad_news @ [Article (sample_clock ''d'' (minutes 33)) ?x]) (crisis_detector_init True)"
    by code_simp
  have r: "relevant c (or_global (ad_region ?x))" by (simp add: relevant_def or_global_def truthy_def)
  have n: "\<not> NEWS_CRISIS_RECOVERY_THRESHOLD < - 1" by code_simp
  note article_decides_crisis[OF f sample_detector_def c(1,4,5) r]
  then show ?thesis
    using n c(3) by (simp add: after_article_def sample_article_def PERSISTENCE_MINUTES_def NEWS_CRISIS_PERSISTENCE_MINUTES_def minutes_def)
qed

section \<open>Regions written with capitals\<close>

lemma region_label: "resolve_region_label (''region:'' @ r) = r"
  by (simp add: resolve_region_label_def)

text \<open>
  Claim: a crisis of a region is labelled with the region in lower case but compared with the
  region as an article gives it; an article whose region is not all lower case therefore never
  resolves or escalates the crisis of its own region.
\<close>

theorem capital_region_is_ignored:
  assumes "map_of (kd_active_crises d) cid = Some c" "al_region c = resolve_region_label (''region:'' @ py_lower r)"
    and "py_lower r \<noteq> r" "py_lower r \<noteq> ''global''" "r \<noteq> ''global''" "py_lower r \<noteq> []" "r \<noteq> []"
  shows "check_crisis s (Some r) t res cid d = d"
  using assms(1,3-) assms(2)[unfolded region_label]
  by (simp add: check_crisis_def relevant_def crisis_region_of_def or_global_def truthy_def)

theorem capital_region_is_ignored_witness:
  "check_crisis 1 (Some ''Asia'') (minutes 5) (\<lambda>_. minutes 5) ''c'' sample_detector = sample_detector"
proof -
  obtain c where c: "map_of (kd_active_crises sample_detector) ''c'' = Some c" "al_region c = ''asia''"
    using sample_detector_facts(2) by (auto simp: map_eq_Cons_conv)
  have low: "py_lower ''Asia'' = ''asia''" by code_simp
  show ?thesis by (rule capital_region_is_ignored[OF c(1)]) (simp_all only: low c(2) region_label, simp_all)
qed

end
