(* ===== verification/Correlation_Mapper.thy ===== *)
theory Correlation_Mapper
  imports Effects
begin

text \<open>
  Which instruments a category of news moves, \<open>src/news/correlation_mapper.py\<close>: the mapping with
  its overrides, the merge with the instruments of a region, the update from recorded price
  reactions and the update that keeps the ten instruments that moved most.  A missing key of a
  reaction is None; the set \<open>current\<close> of the update is a list without duplicates, of which only
  membership is asked.
\<close>

section \<open>Tables\<close>

definition REACTION_ADD_THRESHOLD :: pyfloat where
  "REACTION_ADD_THRESHOLD = flt (3 / 5)"

definition REACTION_REMOVE_THRESHOLD :: pyfloat where
  "REACTION_REMOVE_THRESHOLD = flt (3 / 10)"

definition MIN_REACTION_PCT :: pyfloat where
  "MIN_REACTION_PCT = flt (1 / 10)"

definition CATEGORIES :: "string list" where
  "CATEGORIES = [''monetary_policy'', ''geopolitical_conflict'', ''natural_disaster'', ''earnings'', ''commodity_supply'']"

definition REGION_INSTRUMENTS :: "(string, string list) dict" where
  "REGION_INSTRUMENTS =
     [(''asia'', [''USDJPY'', ''AUDJPY'', ''NIKKEI'', ''HSI'', ''RICE'', ''RUBBER'']),
      (''europe'', [''EURUSD'', ''GBPUSD'', ''DAX'', ''FTSE'', ''WHEAT'']),
      (''north_america'', [''USDCAD'', ''USDMXN'', ''SPX500'', ''US30'', ''OIL'', ''NATGAS'']),
      (''south_america'', [''USDBRL'', ''USDARS'', ''COFFEE'', ''SUGAR'', ''SOYBEAN'']),
      (''middle_east'', [''OIL'', ''BRENT'', ''GOLD'', ''USDSAR'', ''USDJOD'']),
      (''africa'', [''USDZAR'', ''GOLD'', ''PLATINUM'', ''COCOA'', ''COFFEE'']),
      (''oceania'', [''AUDUSD'', ''NZDUSD'', ''IRON_ORE'', ''COAL'', ''WOOL''])]"

definition DEFAULT_CORRELATIONS :: "(string, string list) dict" where
  "DEFAULT_CORRELATIONS =
     [(''monetary_policy'', [''EURUSD'', ''GBPUSD'', ''USDJPY'', ''US10Y'', ''GOLD'', ''USDCHF'', ''US2Y'']),
      (''geopolitical_conflict'', [''GOLD'', ''OIL'', ''USDCHF'', ''LMT'', ''RTX'', ''NOC'', ''GD'']),
      (''natural_disaster'', [''OIL'', ''NATGAS'', ''WHEAT'', ''CORN'', ''ALLSTATE'', ''AIG'', ''TRVL'']),
      (''earnings'', [''SPX500'', ''US30'', ''NASDAQ'', ''XLK'']),
      (''commodity_supply'', [''OIL'', ''NATGAS'', ''GOLD'', ''SILVER'', ''WHEAT'', ''CORN'', ''SOYBEAN'', ''COFFEE''])]"

section \<open>State\<close>

record correlation_mapper =
  cm_correlations :: "(string, string list) dict"
  cm_custom_overrides :: "(string, string list) dict"
  cm_last_weekly_update :: "micros option"

definition correlation_mapper_init :: correlation_mapper where
  "correlation_mapper_init = \<lparr>cm_correlations = DEFAULT_CORRELATIONS, cm_custom_overrides = [], cm_last_weekly_update = None\<rparr>"

definition correlated :: "string \<Rightarrow> (string, string list) dict \<Rightarrow> string list" where
  "correlated c d = or_default (map_of d c) []"

section \<open>Queries and settings\<close>

definition get_default_instruments :: "string \<Rightarrow> string list" where
  "get_default_instruments c = correlated c DEFAULT_CORRELATIONS"

fun merge_missing :: "string list \<Rightarrow> string list \<Rightarrow> string list" where
  "merge_missing base [] = base"
| "merge_missing base (i # is) = merge_missing (if i \<in> set base then base else base @ [i]) is"

definition get_affected_instruments :: "string \<Rightarrow> string option \<Rightarrow> correlation_mapper \<Rightarrow> string list" where
  "get_affected_instruments c region m =
     (let base = (case map_of (cm_custom_overrides m) c of
                    Some is \<Rightarrow> is
                  | None \<Rightarrow> correlated c (cm_correlations m)) in
      if base = [] \<and> c \<notin> set CATEGORIES then []
      else case region of
        None \<Rightarrow> base
      | Some r \<Rightarrow> if c = ''natural_disaster'' \<and> r \<noteq> []
                  then merge_missing base (correlated (py_lower r) REGION_INSTRUMENTS) else base)"

definition set_correlations :: "string \<Rightarrow> string list \<Rightarrow> correlation_mapper \<Rightarrow> correlation_mapper" where
  "set_correlations c is m =
     (if c \<in> set CATEGORIES then m\<lparr>cm_correlations := AList.update c is (cm_correlations m)\<rparr> else m)"

definition set_custom_override :: "string \<Rightarrow> string list \<Rightarrow> correlation_mapper \<Rightarrow> correlation_mapper" where
  "set_custom_override c is m =
     (if c \<in> set CATEGORIES then m\<lparr>cm_custom_overrides := AList.update c is (cm_custom_overrides m)\<rparr> else m)"

definition clear_custom_override :: "string \<Rightarrow> correlation_mapper \<Rightarrow> correlation_mapper" where
  "clear_custom_override c m = m\<lparr>cm_custom_overrides := AList.delete c (cm_custom_overrides m)\<rparr>"

definition get_all_overrides :: "correlation_mapper \<Rightarrow> (string, string list) dict" where
  "get_all_overrides m = cm_custom_overrides m"

definition should_run_weekly_update :: "micros \<Rightarrow> correlation_mapper \<Rightarrow> bool" where
  "should_run_weekly_update now m =
     (case cm_last_weekly_update m of None \<Rightarrow> True | Some t \<Rightarrow> hours (24 * 7) \<le> now - t)"

section \<open>The update from recorded reactions\<close>

record price_reaction =
  px_category :: "string option"
  px_instrument :: "string option"
  px_change_pct :: "pyfloat option"
  px_magnitude :: "pyfloat option"

type_synonym reaction_counts = "int \<times> int"
type_synonym reaction_stats = "(string, (string, reaction_counts) dict) dict"

definition count_reaction :: "reaction_stats \<Rightarrow> price_reaction \<Rightarrow> reaction_stats" where
  "count_reaction st r =
     (let c = or_default (px_category r) []; i = or_default (px_instrument r) [];
          change = or_default (px_change_pct r) 0 in
      if c = [] \<or> i = [] then st
      else if c \<notin> set CATEGORIES then st
      else let s = or_default (map_of st c) []; (events, reactions) = or_default (map_of s i) (0, 0)
           in AList.update c (AList.update i (events + 1, if MIN_REACTION_PCT \<le> \<bar>change\<bar> then reactions + 1 else reactions) s) st)"

record category_update =
  cu_correlations :: "(string, string list) dict"
  cu_current :: "string list"
  cu_added :: "string list"
  cu_removed :: "string list"

definition update_instrument :: "string \<Rightarrow> category_update \<Rightarrow> string \<times> reaction_counts \<Rightarrow> category_update" where
  "update_instrument c u x =
     (case x of (i, events, reactions) \<Rightarrow>
        if events = 0 then u
        else let rate = f_quot (of_int reactions) (of_int events) in
          if REACTION_ADD_THRESHOLD < rate \<and> i \<notin> set (cu_current u)
          then u\<lparr>cu_correlations := AList.update c (correlated c (cu_correlations u) @ [i]) (cu_correlations u),
                 cu_current := i # cu_current u, cu_added := cu_added u @ [i]\<rparr>
          else if rate < REACTION_REMOVE_THRESHOLD \<and> i \<in> set (cu_current u) \<and> i \<notin> set (get_default_instruments c)
          then u\<lparr>cu_correlations :=
                   (case map_of (cu_correlations u) c of
                      None \<Rightarrow> cu_correlations u
                    | Some is \<Rightarrow> AList.update c (remove1 i is) (cu_correlations u)),
                 cu_current := removeAll i (cu_current u), cu_removed := cu_removed u @ [i]\<rparr>
          else u)"

record update_report =
  ur_added :: "(string, string list) dict"
  ur_removed :: "(string, string list) dict"
  ur_timestamp :: micros

definition update_category ::
  "update_report \<times> correlation_mapper \<Rightarrow> string \<times> (string, reaction_counts) dict \<Rightarrow> update_report \<times> correlation_mapper" where
  "update_category rm x =
     (case (rm, x) of ((rep, m), (c, instruments)) \<Rightarrow>
        let u = foldl (update_instrument c)
                  \<lparr>cu_correlations = cm_correlations m, cu_current = remdups (correlated c (cm_correlations m)),
                   cu_added = [], cu_removed = []\<rparr> instruments
        in (rep\<lparr>ur_added := (if cu_added u = [] then ur_added rep else AList.update c (cu_added u) (ur_added rep)),
                ur_removed := (if cu_removed u = [] then ur_removed rep else AList.update c (cu_removed u) (ur_removed rep))\<rparr>,
            m\<lparr>cm_correlations := cu_correlations u\<rparr>))"

definition update_from_historical_data ::
  "micros \<Rightarrow> price_reaction list \<Rightarrow> correlation_mapper \<Rightarrow> update_report \<times> correlation_mapper" where
  "update_from_historical_data now rs m =
     (let m1 = m\<lparr>cm_last_weekly_update := Some now\<rparr>;
          rep = \<lparr>ur_added = [], ur_removed = [], ur_timestamp = now\<rparr>
      in if rs = [] then (rep, m1)
         else foldl update_category (rep, m1) (foldl count_reaction [] rs))"

section \<open>The update that keeps the ten strongest\<close>

definition add_magnitude :: "(string, (string, pyfloat) dict) dict \<Rightarrow> price_reaction \<Rightarrow> (string, (string, pyfloat) dict) dict" where
  "add_magnitude d r =
     (let c = or_default (px_category r) []; i = or_default (px_instrument r) [];
          magnitude = or_default (px_magnitude r) 0 in
      case map_of d c of
        None \<Rightarrow> d
      | Some s \<Rightarrow> if i = [] then d
                  else AList.update c (AList.update i (f_add (or_default (map_of s i) 0) magnitude) s) d)"

definition strongest :: "(string, pyfloat) dict \<Rightarrow> string list" where
  "strongest s = map fst (take 10 (sort_key (\<lambda>x. - snd x) s))"

definition keep_strongest :: "correlation_mapper \<Rightarrow> string \<times> (string, pyfloat) dict \<Rightarrow> correlation_mapper" where
  "keep_strongest m x =
     (if snd x = [] then m
      else m\<lparr>cm_correlations := AList.update (fst x) (strongest (snd x)) (cm_correlations m)\<rparr>)"

definition update_weekly :: "price_reaction list \<Rightarrow> correlation_mapper \<Rightarrow> correlation_mapper" where
  "update_weekly rs m = foldl keep_strongest m (foldl add_magnitude (map (\<lambda>c. (c, [])) CATEGORIES) rs)"

section \<open>What the updates decide\<close>

text \<open>The reactions of one instrument to one category, and those large enough to count.\<close>

definition events_of :: "string \<Rightarrow> string \<Rightarrow> price_reaction list \<Rightarrow> price_reaction list" where
  "events_of c i rs = filter (\<lambda>r. px_category r = Some c \<and> px_instrument r = Some i) rs"

definition moved :: "price_reaction \<Rightarrow> bool" where
  "moved r \<longleftrightarrow> MIN_REACTION_PCT \<le> \<bar>or_default (px_change_pct r) 0\<bar>"

definition counts_of :: "string \<Rightarrow> string \<Rightarrow> price_reaction list \<Rightarrow> reaction_counts option" where
  "counts_of c i rs =
     (if c \<in> set CATEGORIES \<and> i \<noteq> [] \<and> events_of c i rs \<noteq> []
      then Some (int (length (events_of c i rs)), int (length (filter moved (events_of c i rs)))) else None)"

lemma Nil_no_category: "[] \<notin> set CATEGORIES"
  by (simp add: CATEGORIES_def)

lemma count_reactions:
  "map_of (or_default (map_of (foldl count_reaction [] rs) c) []) i = counts_of c i rs"
proof (induction rs rule: rev_induct)
  case Nil
  show ?case by (simp add: counts_of_def events_of_def)
next
  case (snoc r rs)
  define c' i' where ci: "c' = or_default (px_category r) []" "i' = or_default (px_instrument r) []"
  show ?case
  proof (cases "c' \<noteq> [] \<and> i' \<noteq> [] \<and> c' \<in> set CATEGORIES")
    case True
    then have p: "px_category r = Some c'" "px_instrument r = Some i'"
      using ci by (auto simp: or_default_def split: option.splits)
    have "events_of c i (rs @ [r]) = events_of c i rs @ (if c = c' \<and> i = i' then [r] else [])"
      by (auto simp: events_of_def p)
    then show ?thesis
      using snoc.IH True p
      by (auto simp: count_reaction_def Let_def counts_of_def moved_def split: prod.splits if_splits)
  next
    case False
    then have "count_reaction st r = st" for st by (auto simp: count_reaction_def Let_def ci)
    moreover have "counts_of c i (rs @ [r]) = counts_of c i rs"
      using False Nil_no_category by (auto simp: counts_of_def events_of_def ci)
    ultimately show ?thesis using snoc.IH by simp
  qed
qed

lemma count_reactions_ok:
  "dict_ok (foldl count_reaction [] rs) \<and> (\<forall>c s. map_of (foldl count_reaction [] rs) c = Some s \<longrightarrow> dict_ok s)"
proof (induction rs rule: rev_induct)
  case (snoc r rs)
  then show ?case
    by (auto simp: count_reaction_def Let_def or_default_def split: prod.splits option.splits)
qed simp

text \<open>The verdict on one instrument, given whether it was in the mapping.\<close>

definition stays :: "string \<Rightarrow> string \<Rightarrow> reaction_counts option \<Rightarrow> bool \<Rightarrow> bool" where
  "stays c i n was =
     (case n of
        None \<Rightarrow> was
      | Some (events, reactions) \<Rightarrow>
          if events = 0 then was
          else let rate = f_quot (of_int reactions) (of_int events) in
            REACTION_ADD_THRESHOLD < rate \<or>
            was \<and> (REACTION_REMOVE_THRESHOLD \<le> rate \<or> i \<in> set (get_default_instruments c)))"

definition category_inv :: "string \<Rightarrow> category_update \<Rightarrow> bool" where
  "category_inv c u \<longleftrightarrow> distinct (correlated c (cu_correlations u)) \<and> set (cu_current u) = set (correlated c (cu_correlations u))"

lemma correlated_update [simp]: "correlated c (AList.update c' is d) = (if c = c' then is else correlated c d)"
  by (simp add: correlated_def)

lemma thresholds: "REACTION_REMOVE_THRESHOLD \<le> REACTION_ADD_THRESHOLD"
  by (simp add: REACTION_REMOVE_THRESHOLD_def REACTION_ADD_THRESHOLD_def flt.rnd_mono)

lemma update_instrument_step:
  assumes "category_inv c u"
  shows "category_inv c (update_instrument c u (i, n))"
    and "j \<in> set (correlated c (cu_correlations (update_instrument c u (i, n)))) \<longleftrightarrow>
         (if j = i then stays c i (Some n) (i \<in> set (correlated c (cu_correlations u))) else j \<in> set (correlated c (cu_correlations u)))"
    and "c' \<noteq> c \<Longrightarrow> correlated c' (cu_correlations (update_instrument c u (i, n))) = correlated c' (cu_correlations u)"
proof -
  obtain e k where n: "n = (e, k)" by (cases n)
  have r: "correlated c (case map_of d c of None \<Rightarrow> d | Some is \<Rightarrow> AList.update c (remove1 i is) d) = remove1 i (correlated c d)" for d
    by (auto simp: correlated_def or_default_def split: option.splits)
  have r': "c' \<noteq> c \<Longrightarrow> correlated c' (case map_of d c of None \<Rightarrow> d | Some is \<Rightarrow> AList.update c (remove1 i is) d) = correlated c' d" for d
    by (auto split: option.splits)
  show "category_inv c (update_instrument c u (i, n))"
    using assms by (auto simp: update_instrument_def n Let_def category_inv_def r)
  show "j \<in> set (correlated c (cu_correlations (update_instrument c u (i, n)))) \<longleftrightarrow>
         (if j = i then stays c i (Some n) (i \<in> set (correlated c (cu_correlations u))) else j \<in> set (correlated c (cu_correlations u)))"
    using assms thresholds by (auto simp: update_instrument_def n Let_def category_inv_def r stays_def)
  show "c' \<noteq> c \<Longrightarrow> correlated c' (cu_correlations (update_instrument c u (i, n))) = correlated c' (cu_correlations u)"
    by (auto simp: update_instrument_def n Let_def r')
qed

lemma update_instruments:
  "category_inv c u \<Longrightarrow> dict_ok s \<Longrightarrow>
     category_inv c (foldl (update_instrument c) u s) \<and>
     (\<forall>j. j \<in> set (correlated c (cu_correlations (foldl (update_instrument c) u s))) \<longleftrightarrow>
          stays c j (map_of s j) (j \<in> set (correlated c (cu_correlations u)))) \<and>
     (\<forall>c'. c' \<noteq> c \<longrightarrow> correlated c' (cu_correlations (foldl (update_instrument c) u s)) = correlated c' (cu_correlations u))"
proof (induction s arbitrary: u)
  case (Cons x s)
  obtain i n where x: "x = (i, n)" by (cases x)
  have ok: "dict_ok s" and i: "map_of s i = None"
    using Cons.prems(2) by (auto simp: x dict_ok_def map_of_eq_None_iff)
  note step = update_instrument_step[OF Cons.prems(1)]
  have "stays c i None b = b" for b by (simp add: stays_def)
  then show ?case using Cons.IH[OF step(1) ok] step(2,3) i by (simp add: x)
qed (simp_all add: stays_def)

lemma update_category_step:
  assumes "distinct (correlated c (cm_correlations m))" "dict_ok s"
  shows "distinct (correlated c (cm_correlations (snd (update_category (rep, m) (c, s)))))"
    and "j \<in> set (correlated c (cm_correlations (snd (update_category (rep, m) (c, s))))) \<longleftrightarrow>
         stays c j (map_of s j) (j \<in> set (correlated c (cm_correlations m)))"
    and "c' \<noteq> c \<Longrightarrow> correlated c' (cm_correlations (snd (update_category (rep, m) (c, s)))) = correlated c' (cm_correlations m)"
proof -
  let ?u = "\<lparr>cu_correlations = cm_correlations m, cu_current = remdups (correlated c (cm_correlations m)), cu_added = [], cu_removed = []\<rparr>"
  have "category_inv c ?u" using assms(1) by (simp add: category_inv_def)
  from update_instruments[OF this assms(2)]
  show "distinct (correlated c (cm_correlations (snd (update_category (rep, m) (c, s)))))"
    and "j \<in> set (correlated c (cm_correlations (snd (update_category (rep, m) (c, s))))) \<longleftrightarrow>
         stays c j (map_of s j) (j \<in> set (correlated c (cm_correlations m)))"
    and "c' \<noteq> c \<Longrightarrow> correlated c' (cm_correlations (snd (update_category (rep, m) (c, s)))) = correlated c' (cm_correlations m)"
    by (simp_all add: update_category_def Let_def category_inv_def)
qed

lemma update_categories:
  "(\<forall>c. distinct (correlated c (cm_correlations m))) \<Longrightarrow> dict_ok st \<Longrightarrow> (\<forall>c s. map_of st c = Some s \<longrightarrow> dict_ok s) \<Longrightarrow>
     (\<forall>c. distinct (correlated c (cm_correlations (snd (foldl update_category (rep, m) st))))) \<and>
     (\<forall>c j. j \<in> set (correlated c (cm_correlations (snd (foldl update_category (rep, m) st)))) \<longleftrightarrow>
            stays c j (map_of (or_default (map_of st c) []) j) (j \<in> set (correlated c (cm_correlations m))))"
proof (induction st arbitrary: rep m)
  case (Cons x st)
  obtain c0 s0 where x: "x = (c0, s0)" by (cases x)
  obtain rep' m' where u: "update_category (rep, m) (c0, s0) = (rep', m')" by fastforce
  have new: "map_of st c0 = None" and ok: "dict_ok st" "dict_ok s0"
    using Cons.prems(2) spec[OF spec[OF Cons.prems(3), of c0], of s0] by (auto simp: x dict_ok_def map_of_eq_None_iff)
  have rest: "\<forall>c s. map_of st c = Some s \<longrightarrow> dict_ok s" using Cons.prems(3) new unfolding x by (metis map_of_Cons_code(2) option.distinct(1))
  have step: "distinct (correlated c0 (cm_correlations m'))"
    "\<And>j. j \<in> set (correlated c0 (cm_correlations m')) \<longleftrightarrow> stays c0 j (map_of s0 j) (j \<in> set (correlated c0 (cm_correlations m)))"
    "\<And>c. c \<noteq> c0 \<Longrightarrow> correlated c (cm_correlations m') = correlated c (cm_correlations m)"
    using update_category_step[OF spec[OF Cons.prems(1), of c0] ok(2), where rep = rep] u by simp_all
  have "\<forall>c. distinct (correlated c (cm_correlations m'))" using step(1,3) Cons.prems(1) by metis
  from Cons.IH[OF this ok(1) rest, of rep'] have IH:
    "\<forall>c. distinct (correlated c (cm_correlations (snd (foldl update_category (rep', m') st))))"
    "\<And>c j. j \<in> set (correlated c (cm_correlations (snd (foldl update_category (rep', m') st)))) \<longleftrightarrow>
        stays c j (map_of (or_default (map_of st c) []) j) (j \<in> set (correlated c (cm_correlations m')))"
    by auto
  have none: "stays c j None b = b" for c j b by (simp add: stays_def)
  show ?case using IH step(2,3) new by (auto simp: x u none)
qed (simp add: stays_def)

text \<open>
  Claim: the update from recorded reactions decides each instrument of each category by its own
  reactions alone: it is in the mapping afterwards when it moved in more than three fifths of its
  events, or was in it and moved in at least three tenths, or was in it and is a default one; an
  instrument without events is left alone, and no duplicates appear.
\<close>

theorem historical_update_decides_membership:
  assumes "\<forall>c. distinct (correlated c (cm_correlations m))"
  shows "distinct (correlated c (cm_correlations (snd (update_from_historical_data now rs m)))) \<and>
    (i \<in> set (correlated c (cm_correlations (snd (update_from_historical_data now rs m)))) \<longleftrightarrow>
     stays c i (counts_of c i rs) (i \<in> set (correlated c (cm_correlations m))))"
proof (cases "rs = []")
  case True
  then show ?thesis
    using assms by (simp add: update_from_historical_data_def counts_of_def events_of_def stays_def)
next
  case False
  have "\<forall>c. distinct (correlated c (cm_correlations (m\<lparr>cm_last_weekly_update := Some now\<rparr>)))" using assms by simp
  from update_categories[OF this conjunct1[OF count_reactions_ok] conjunct2[OF count_reactions_ok], of "\<lparr>ur_added = [], ur_removed = [], ur_timestamp = now\<rparr>" rs]
  show ?thesis using False by (simp add: update_from_historical_data_def count_reactions)
qed

definition gold_reactions :: "price_reaction list" where
  "gold_reactions = [\<lparr>px_category = Some ''earnings'', px_instrument = Some ''GOLD'', px_change_pct = Some 1, px_magnitude = Some 1\<rparr>]"

lemma default_correlations_distinct: "distinct (correlated c DEFAULT_CORRELATIONS)"
  by (simp add: correlated_def or_default_def DEFAULT_CORRELATIONS_def)

lemma historical_update_decides_membership_witness:
  "''GOLD'' \<in> set (correlated ''earnings'' (cm_correlations (snd (update_from_historical_data 0 gold_reactions correlation_mapper_init)))) \<and>
   ''XLK'' \<in> set (correlated ''earnings'' (cm_correlations (snd (update_from_historical_data 0 gold_reactions correlation_mapper_init))))"
proof -
  have d: "\<forall>c. distinct (correlated c (cm_correlations correlation_mapper_init))"
    by (simp add: correlation_mapper_init_def default_correlations_distinct)
  have "stays ''earnings'' ''GOLD'' (counts_of ''earnings'' ''GOLD'' gold_reactions) False" by code_simp
  moreover have "stays ''earnings'' ''XLK'' (counts_of ''earnings'' ''XLK'' gold_reactions) True" by code_simp
  moreover have "''XLK'' \<in> set (correlated ''earnings'' (cm_correlations correlation_mapper_init))"
    "''GOLD'' \<notin> set (correlated ''earnings'' (cm_correlations correlation_mapper_init))" by code_simp+
  ultimately show ?thesis using historical_update_decides_membership[OF d, of "''earnings''" 0 gold_reactions] by simp
qed

text \<open>The update that keeps the strongest: the totals, the ten largest of them, the clock it leaves
  alone.\<close>

definition magnitude_of :: "string \<Rightarrow> string \<Rightarrow> price_reaction list \<Rightarrow> pyfloat" where
  "magnitude_of c i rs = foldl f_add 0 (map (\<lambda>r. or_default (px_magnitude r) 0) (events_of c i rs))"

definition magnitudes :: "price_reaction list \<Rightarrow> (string, (string, pyfloat) dict) dict" where
  "magnitudes rs = foldl add_magnitude (map (\<lambda>c. (c, [])) CATEGORIES) rs"

lemma magnitudes_ok:
  "dict_ok (magnitudes rs) \<and> (\<forall>c. map_of (magnitudes rs) c \<noteq> None \<longleftrightarrow> c \<in> set CATEGORIES) \<and>
   (\<forall>c s. map_of (magnitudes rs) c = Some s \<longrightarrow> dict_ok s \<and>
     (\<forall>i. map_of s i = (if i \<noteq> [] \<and> events_of c i rs \<noteq> [] then Some (magnitude_of c i rs) else None)))"
proof (induction rs rule: rev_induct)
  case Nil
  show ?case by (auto simp: magnitudes_def events_of_def dict_ok_def CATEGORIES_def map_of_Cons_code split: if_splits)
next
  case (snoc r rs)
  define c' i' where ci: "c' = or_default (px_category r) []" "i' = or_default (px_instrument r) []"
  have step: "magnitudes (rs @ [r]) = add_magnitude (magnitudes rs) r" by (simp add: magnitudes_def)
  show ?case
  proof (cases "c' \<in> set CATEGORIES \<and> i' \<noteq> []")
    case True
    then have p: "px_category r = Some c'" "px_instrument r = Some i'"
      using ci Nil_no_category by (auto simp: or_default_def split: option.splits)
    have e: "events_of c i (rs @ [r]) = events_of c i rs @ (if c = c' \<and> i = i' then [r] else [])" for c i
      by (auto simp: events_of_def p)
    obtain s where s: "map_of (magnitudes rs) c' = Some s" using snoc.IH True by fastforce
    have "or_default (map_of s i') 0 = magnitude_of c' i' rs"
      using snoc.IH s True by (simp add: magnitude_of_def)
    then have "add_magnitude (magnitudes rs) r =
        AList.update c' (AList.update i' (magnitude_of c' i' (rs @ [r])) s) (magnitudes rs)"
      using True s by (simp add: add_magnitude_def Let_def p e magnitude_of_def)
    then show ?thesis using snoc.IH s True by (auto simp: step e magnitude_of_def)
  next
    case False
    have "map_of (magnitudes rs) c' = None" if "c' \<notin> set CATEGORIES" using snoc.IH that by auto
    then have "add_magnitude (magnitudes rs) r = magnitudes rs"
      using False by (auto simp: add_magnitude_def Let_def ci split: option.splits)
    moreover have "events_of c i (rs @ [r]) = events_of c i rs" if "c \<in> set CATEGORIES" "i \<noteq> []" for c i
      using False that by (auto simp: events_of_def ci)
    then have "(if i \<noteq> [] \<and> events_of c i (rs @ [r]) \<noteq> [] then Some (magnitude_of c i (rs @ [r])) else None) =
        (if i \<noteq> [] \<and> events_of c i rs \<noteq> [] then Some (magnitude_of c i rs) else None)" if "c \<in> set CATEGORIES" for c i
      using that by (cases "i = []") (simp_all add: magnitude_of_def)
    moreover have "c \<in> set CATEGORIES" if "map_of (magnitudes rs) c = Some s" for c s
      using that conjunct1[OF conjunct2[OF snoc.IH]] by (metis option.discI)
    ultimately show ?thesis using snoc.IH by (simp add: step)
  qed
qed

lemma keep_all_strongest:
  "dict_ok d \<Longrightarrow>
     correlated c (cm_correlations (foldl keep_strongest m d)) =
       (case map_of d c of
          None \<Rightarrow> correlated c (cm_correlations m)
        | Some s \<Rightarrow> if s = [] then correlated c (cm_correlations m) else strongest s) \<and>
     cm_last_weekly_update (foldl keep_strongest m d) = cm_last_weekly_update m"
proof (induction d arbitrary: m)
  case (Cons x d)
  have "dict_ok d" "map_of d (fst x) = None" using Cons.prems by (auto simp: dict_ok_def map_of_eq_None_iff)
  then show ?case using Cons.IH[of "keep_strongest m x"]
    by (cases x) (auto simp: keep_strongest_def split: option.splits)
qed simp

lemma strongest_are_largest:
  assumes "dict_ok s"
  shows "length (strongest s) \<le> 10" and "distinct (strongest s)" and "set (strongest s) \<subseteq> dom (map_of s)"
    and "i \<in> set (strongest s) \<Longrightarrow> map_of s j = Some y \<Longrightarrow> j \<notin> set (strongest s) \<Longrightarrow> y \<le> the (map_of s i)"
proof -
  let ?t = "sort_key (\<lambda>x. - snd x) s"
  have d: "distinct (map fst ?t)" using assms
    by (simp add: dict_ok_def distinct_map distinct_sort)
  show "length (strongest s) \<le> 10" by (simp add: strongest_def)
  show "distinct (strongest s)" using d by (simp add: strongest_def take_map [symmetric] distinct_take)
  have sub: "set (take 10 ?t) \<subseteq> set s" using set_take_subset[of 10 ?t] by simp
  then have "fst ` set (take 10 ?t) \<subseteq> fst ` set s" by (rule image_mono)
  then show "set (strongest s) \<subseteq> dom (map_of s)" by (simp add: strongest_def dom_map_of_conv_image_fst)
  assume i: "i \<in> set (strongest s)" and j: "map_of s j = Some y" "j \<notin> set (strongest s)"
  obtain x where x: "(i, x) \<in> set (take 10 ?t)" using i by (auto simp: strongest_def)
  then have "map_of s i = Some x" using sub assms by (auto simp: dict_ok_def)
  moreover have "(j, y) \<in> set ?t" using map_of_SomeD[OF j(1)] by simp
  then have "(j, y) \<in> set (take 10 ?t @ drop 10 ?t)" by simp
  then have "(j, y) \<in> set (drop 10 ?t)" using j(2) unfolding strongest_def by (metis UnE fst_conv image_eqI set_append set_map)
  moreover have "sorted (map (\<lambda>x. - snd x) (take 10 ?t @ drop 10 ?t))" by (simp del: map_append)
  then have "\<forall>a \<in> set (take 10 ?t). \<forall>b \<in> set (drop 10 ?t). - snd a \<le> - snd b"
    by (simp only: map_append sorted_append) simp
  ultimately show "y \<le> the (map_of s i)" using x by fastforce
qed

text \<open>
  Claim: the weekly update replaces the mapping of a category that has events by at most ten
  instruments, each with events, whose summed movements are at least those of every instrument it
  leaves out: default instruments without events are dropped.  It does not note that it ran.
\<close>

theorem weekly_update_keeps_strongest:
  assumes m'_def: "m' = update_weekly rs m" and c: "c \<in> set CATEGORIES" and i0: "i0 \<noteq> []" "events_of c i0 rs \<noteq> []"
  shows "length (correlated c (cm_correlations m')) \<le> 10 \<and>
    (\<forall>i \<in> set (correlated c (cm_correlations m')). events_of c i rs \<noteq> [] \<and>
       (\<forall>j. j \<noteq> [] \<longrightarrow> events_of c j rs \<noteq> [] \<longrightarrow> j \<notin> set (correlated c (cm_correlations m')) \<longrightarrow>
          magnitude_of c j rs \<le> magnitude_of c i rs)) \<and>
    should_run_weekly_update now m' = should_run_weekly_update now m"
proof -
  obtain s where s: "map_of (magnitudes rs) c = Some s" using magnitudes_ok[of rs] c by fastforce
  have ok: "dict_ok s" "\<And>i. map_of s i = (if i \<noteq> [] \<and> events_of c i rs \<noteq> [] then Some (magnitude_of c i rs) else None)"
    using magnitudes_ok[of rs] s by auto
  have "s \<noteq> []" using ok(2)[of i0] i0 by auto
  then have m': "correlated c (cm_correlations m') = strongest s" "cm_last_weekly_update m' = cm_last_weekly_update m"
    using keep_all_strongest[OF conjunct1[OF magnitudes_ok[of rs]], of c m] s
    by (simp_all add: m'_def update_weekly_def magnitudes_def)
  note top = strongest_are_largest[OF ok(1)]
  have e: "events_of c i rs \<noteq> [] \<and> i \<noteq> []" if "i \<in> set (strongest s)" for i
    using top(3) that ok(2)[of i] by (auto split: if_splits)
  have "magnitude_of c j rs \<le> magnitude_of c i rs"
    if "i \<in> set (strongest s)" "j \<noteq> []" "events_of c j rs \<noteq> []" "j \<notin> set (strongest s)" for i j
    using top(4)[OF that(1) _ that(4), of "magnitude_of c j rs"] e[OF that(1)] that(2,3) by (simp add: ok(2))
  then show ?thesis using top(1) e by (simp add: m' should_run_weekly_update_def)
qed

lemma weekly_update_keeps_strongest_witness:
  "length (correlated ''earnings'' (cm_correlations (update_weekly gold_reactions correlation_mapper_init))) \<le> 10 \<and>
   ''XLK'' \<notin> set (correlated ''earnings'' (cm_correlations (update_weekly gold_reactions correlation_mapper_init)))"
proof -
  have e: "events_of ''earnings'' ''GOLD'' gold_reactions \<noteq> []" "events_of ''earnings'' ''XLK'' gold_reactions = []"
    by (simp_all add: events_of_def gold_reactions_def)
  have "''earnings'' \<in> set CATEGORIES" by (simp add: CATEGORIES_def)
  from weekly_update_keeps_strongest[OF refl this _ e(1), of correlation_mapper_init] e(2) show ?thesis by auto
qed

section \<open>Affected instruments\<close>

lemma merge_missing_set: "set (merge_missing base is) = set base \<union> set is"
  by (induction base "is" rule: merge_missing.induct) auto

lemma merge_missing_distinct: "distinct base \<Longrightarrow> distinct (merge_missing base is)"
  by (induction base "is" rule: merge_missing.induct) auto

text \<open>A region only adds instruments, and only to natural disasters; without an override the
  instruments of a category are those of the mapping.\<close>

theorem region_adds_instruments:
  "set (get_affected_instruments c region m) =
     set (get_affected_instruments c None m) \<union>
       (case region of
          None \<Rightarrow> {}
        | Some r \<Rightarrow> if c = ''natural_disaster'' \<and> r \<noteq> [] then set (correlated (py_lower r) REGION_INSTRUMENTS) else {})"
proof -
  have "''natural_disaster'' \<in> set CATEGORIES" by (simp add: CATEGORIES_def)
  then show ?thesis by (cases region) (auto simp: get_affected_instruments_def merge_missing_set Let_def)
qed

end
