(* ===== verification/News_Engine.thy ===== *)
theory News_Engine
  imports Sentiment Crisis_Detector Correlation_Mapper
begin

text \<open>
  The news engine, \<open>src/news/news_engine.py\<close>: an article is checked for delay and duplicates, scored,
  mapped to instruments, given to the crisis detector and published; the health of the sources
  decides the degraded mode.  Sources, the event bus, the loading of the language model and the
  digest of a text are parameters; the sub-components are the models of their theories.  With
  articles of the expected types nothing in the pipeline raises, so its handler of exceptions
  never runs.  Payloads keep instants instead of their texts.
\<close>

section \<open>Health of a source\<close>

record source_health =
  sh_last_successful_check :: "micros option"
  sh_is_healthy :: bool
  sh_failed_since :: "micros option"
  sh_failover_logged :: bool

definition source_health_init :: source_health where
  "source_health_init = \<lparr>sh_last_successful_check = None, sh_is_healthy = False, sh_failed_since = None, sh_failover_logged = False\<rparr>"

definition mark_healthy :: "micros \<Rightarrow> source_health \<Rightarrow> source_health" where
  "mark_healthy now s = s\<lparr>sh_last_successful_check := Some now, sh_is_healthy := True, sh_failed_since := None, sh_failover_logged := False\<rparr>"

definition mark_unhealthy :: "micros \<Rightarrow> source_health \<Rightarrow> source_health" where
  "mark_unhealthy now s =
     s\<lparr>sh_is_healthy := False, sh_failed_since := (case sh_failed_since s of None \<Rightarrow> Some now | Some t \<Rightarrow> Some t)\<rparr>"

definition is_failover_required :: "micros \<Rightarrow> source_health \<Rightarrow> bool" where
  "is_failover_required now s =
     (case sh_failed_since s of
        None \<Rightarrow> False
      | Some t \<Rightarrow> of_int NEWS_SOURCE_UNAVAILABLE_THRESHOLD_SECONDS \<le> total_seconds (now - t))"

definition handle_unhealthy_source :: "micros \<Rightarrow> source_health \<Rightarrow> source_health" where
  "handle_unhealthy_source now s0 =
     (let s = mark_unhealthy now s0
      in if is_failover_required now s \<and> \<not> sh_failover_logged s then s\<lparr>sh_failover_logged := True\<rparr> else s)"

section \<open>The engine\<close>

record 'w news_source =
  ns_name :: string
  ns_connect :: "('w, unit) action"
  ns_disconnect :: "('w, unit) action"
  ns_health_check :: "('w, bool) action"

text \<open>The article dictionary as it grows along the pipeline.\<close>

record news_article = article_dict +
  na_body :: "string option"
  na_source_tier :: "pyfloat option"
  na_published_at :: "micros option"
  na_delay :: "pyfloat option"
  na_delayed :: bool
  na_body_hash :: "string option"
  na_instruments :: "string list option"

datatype news_notice =
    HighImpact news_article
  | CrisisRaised crisis_alert
  | KillRequested kill_request
  | ArticleProcessed news_article
  | AllSourcesDown micros nat
  | SourcesRestored micros "string list" "pyfloat option"

record news_env =
  nv_digest :: "string \<Rightarrow> string"
  nv_loading :: "py_error + sentiment_model"

record 'w news_engine =
  ne_sources :: "'w news_source list"
  ne_bus :: "(news_notice \<Rightarrow> ('w, int) action) option"
  ne_min_sources :: int
  ne_running :: bool
  ne_health :: "(string, source_health) dict"
  ne_degraded :: bool
  ne_degraded_since :: "micros option"
  ne_seen :: "(string, micros) dict"
  ne_analyzer :: sentiment_analyzer
  ne_detector :: crisis_detector
  ne_mapper :: correlation_mapper
  ne_processed :: int
  ne_deduplicated :: int
  ne_delayed :: int

definition DEDUP_CACHE_MAX_SIZE :: nat where
  "DEDUP_CACHE_MAX_SIZE = 10000"

definition news_engine_init :: "'w news_source list \<Rightarrow> (news_notice \<Rightarrow> ('w, int) action) option \<Rightarrow> int \<Rightarrow> 'w news_engine" where
  "news_engine_init sources bus min_sources =
     \<lparr>ne_sources = sources, ne_bus = bus, ne_min_sources = min_sources, ne_running = False,
      ne_health = foldl (\<lambda>d s. AList.update (ns_name s) source_health_init d) [] sources,
      ne_degraded = False, ne_degraded_since = None, ne_seen = [], ne_analyzer = sentiment_analyzer_init,
      ne_detector = crisis_detector_init (bus \<noteq> None), ne_mapper = correlation_mapper_init,
      ne_processed = 0, ne_deduplicated = 0, ne_delayed = 0\<rparr>"

definition healthy_sources :: "'w news_engine \<Rightarrow> string list" where
  "healthy_sources e = map fst (filter (\<lambda>(n, s). sh_is_healthy s) (ne_health e))"

definition is_all_sources_down :: "'w news_engine \<Rightarrow> bool" where
  "is_all_sources_down e \<longleftrightarrow> length (healthy_sources e) = 0"

definition get_confidence_threshold :: "'w news_engine \<Rightarrow> int" where
  "get_confidence_threshold e = (if ne_degraded e then CONFIDENCE_THRESHOLD_NEWS_DOWN else CONFIDENCE_THRESHOLD_DEFAULT)"

definition get_source_health :: "string \<Rightarrow> 'w news_engine \<Rightarrow> source_health option" where
  "get_source_health n e = map_of (ne_health e) n"

text \<open>A failure to publish is logged.\<close>

definition publish_news :: "news_notice \<Rightarrow> 'w news_engine \<Rightarrow> 'w \<Rightarrow> 'w" where
  "publish_news n e w = (case ne_bus e of None \<Rightarrow> w | Some publish \<Rightarrow> snd (publish n w))"

section \<open>The degraded mode\<close>

definition enter_degraded_mode :: "micros \<Rightarrow> 'w news_engine \<Rightarrow> 'w \<Rightarrow> 'w news_engine \<times> 'w" where
  "enter_degraded_mode now e w =
     (let e1 = e\<lparr>ne_degraded := True, ne_degraded_since := Some now\<rparr>
      in (e1, publish_news (AllSourcesDown now (length (ne_sources e))) e1 w))"

definition exit_degraded_mode :: "micros \<Rightarrow> 'w news_engine \<Rightarrow> 'w \<Rightarrow> 'w news_engine \<times> 'w" where
  "exit_degraded_mode now e w =
     (let duration = map_option (\<lambda>t. total_seconds (now - t)) (ne_degraded_since e);
          e1 = e\<lparr>ne_degraded := False, ne_degraded_since := None\<rparr>
      in (e1, publish_news (SourcesRestored now (healthy_sources e) duration) e1 w))"

definition evaluate_degraded_mode :: "micros \<Rightarrow> 'w news_engine \<Rightarrow> 'w \<Rightarrow> 'w news_engine \<times> 'w" where
  "evaluate_degraded_mode now e w =
     (if is_all_sources_down e \<and> \<not> ne_degraded e then enter_degraded_mode now e w
      else if \<not> is_all_sources_down e \<and> ne_degraded e then exit_degraded_mode now e w
      else (e, w))"

definition set_health :: "string \<Rightarrow> (source_health \<Rightarrow> source_health) \<Rightarrow> 'w news_engine \<Rightarrow> 'w news_engine" where
  "set_health n f e = e\<lparr>ne_health := AList.map_entry n f (ne_health e)\<rparr>"

definition check_source :: "micros \<Rightarrow> 'w news_engine \<times> 'w \<Rightarrow> 'w news_source \<Rightarrow> 'w news_engine \<times> 'w" where
  "check_source now ew s =
     (case ew of (e, w) \<Rightarrow>
        case ns_health_check s w of
          (Inr True, w') \<Rightarrow> (set_health (ns_name s) (mark_healthy now) e, w')
        | (_, w') \<Rightarrow> (set_health (ns_name s) (handle_unhealthy_source now) e, w'))"

definition perform_health_checks :: "micros \<Rightarrow> 'w news_engine \<Rightarrow> 'w \<Rightarrow> 'w news_engine \<times> 'w" where
  "perform_health_checks now e w =
     (case foldl (check_source now) (e, w) (ne_sources e) of (e', w') \<Rightarrow> evaluate_degraded_mode now e' w')"

section \<open>Start and stop\<close>

text \<open>\<open>ts i\<close> is the reading of the clock when source \<open>i\<close> has answered.\<close>

definition connect_source :: "(nat \<Rightarrow> micros) \<Rightarrow> 'w news_engine \<times> 'w \<Rightarrow> nat \<times> 'w news_source \<Rightarrow> 'w news_engine \<times> 'w" where
  "connect_source ts ew is =
     (case (ew, is) of ((e, w), (i, s)) \<Rightarrow>
        case ns_connect s w of
          (Inr _, w') \<Rightarrow> (set_health (ns_name s) (mark_healthy (ts i)) e, w')
        | (Inl _, w') \<Rightarrow> (set_health (ns_name s) (mark_unhealthy (ts i)) e, w'))"

definition start_engine :: "(nat \<Rightarrow> micros) \<Rightarrow> micros \<Rightarrow> 'w news_engine \<Rightarrow> 'w \<Rightarrow> 'w news_engine \<times> 'w" where
  "start_engine ts now e w =
     (if ne_running e then (e, w)
      else case foldl (connect_source ts) (e\<lparr>ne_running := True\<rparr>, w) (enumerate 0 (ne_sources e)) of
        (e', w') \<Rightarrow> evaluate_degraded_mode now e' w')"

definition stop_engine :: "'w news_engine \<Rightarrow> 'w \<Rightarrow> 'w news_engine \<times> 'w" where
  "stop_engine e w =
     (e\<lparr>ne_running := False, ne_health := map (apsnd (\<lambda>s. s\<lparr>sh_is_healthy := False\<rparr>)) (ne_health e)\<rparr>,
      foldl (\<lambda>w s. snd (ns_disconnect s w)) w (ne_sources e))"

section \<open>The pipeline of an article\<close>

definition check_delay :: "micros \<Rightarrow> news_article \<Rightarrow> 'w news_engine \<Rightarrow> news_article \<times> 'w news_engine" where
  "check_delay now a e =
     (case na_published_at a of
        None \<Rightarrow> (a, e)
      | Some published \<Rightarrow>
          let delay = total_seconds (or_default (ad_received_at a) now - published); a1 = a\<lparr>na_delay := Some delay\<rparr>
          in if of_int NEWS_MAX_INGESTION_DELAY_SECONDS < delay then (a1\<lparr>na_delayed := True\<rparr>, e\<lparr>ne_delayed := ne_delayed e + 1\<rparr>)
             else (a1, e))"

definition is_duplicate :: "string \<Rightarrow> 'w news_engine \<Rightarrow> bool" where
  "is_duplicate h e \<longleftrightarrow> map_of (ne_seen e) h \<noteq> None"

text \<open>\<open>popitem(last=False)\<close> drops the oldest entry.\<close>

definition record_article_hash :: "string \<Rightarrow> micros \<Rightarrow> 'w news_engine \<Rightarrow> 'w news_engine" where
  "record_article_hash h now e = e\<lparr>ne_seen := take_last DEDUP_CACHE_MAX_SIZE (AList.update h now (ne_seen e))\<rparr>"

definition count_corroboration :: "news_article \<Rightarrow> 'w news_engine \<Rightarrow> int" where
  "count_corroboration a e =
     int (length (filter (\<lambda>r. ka_source r \<noteq> or_default (ad_source a) []) (kd_recent_articles (ne_detector e))))"

definition article_body :: "news_article \<Rightarrow> string" where
  "article_body a = or_default (na_body a) (or_default (ad_headline a) [])"

text \<open>Sentiment, impact and instruments.\<close>

definition enrich_article :: "news_env \<Rightarrow> news_article \<Rightarrow> 'w news_engine \<Rightarrow> news_article \<times> 'w news_engine" where
  "enrich_article env a e =
     (case analyze (nv_loading env) (or_default (ad_headline a) [] @ '' '' @ article_body a) (ne_analyzer e) of (score, z) \<Rightarrow>
        let impact = classify_impact score (or_default (na_source_tier a) (flt (2 / 5))) (count_corroboration a e);
            a1 = a\<lparr>ad_sentiment_score := Some score, ad_impact_level := Some impact\<rparr>
        in (if truthy (ad_category a)
            then a1\<lparr>na_instruments := Some (get_affected_instruments (the (ad_category a)) None (ne_mapper e))\<rparr> else a1,
            e\<lparr>ne_analyzer := z\<rparr>))"

definition detect_and_publish :: "crisis_clock \<Rightarrow> news_article \<Rightarrow> 'w news_engine \<Rightarrow> 'w \<Rightarrow> 'w news_engine \<times> 'w" where
  "detect_and_publish t a e w =
     (let w1 = (if ad_impact_level a = Some ''HIGH'' then publish_news (HighImpact a) e w else w) in
      case evaluate t (article_dict.truncate a) (ne_detector e) of (crisis, d1) \<Rightarrow>
        let w2 = (case crisis of None \<Rightarrow> w1 | Some c \<Rightarrow> publish_news (CrisisRaised c) e w1) in
        case dispatch_pending_events (\<lambda>k w. case ne_bus e of None \<Rightarrow> (Inr 0, w) | Some publish \<Rightarrow> publish (KillRequested k) w) d1 w2 of
          (d2, w3) \<Rightarrow>
            (e\<lparr>ne_detector := d2, ne_processed := ne_processed e + 1\<rparr>, publish_news (ArticleProcessed a) e w3))"

definition on_article_received ::
  "news_env \<Rightarrow> micros \<Rightarrow> crisis_clock \<Rightarrow> news_article \<Rightarrow> 'w news_engine \<Rightarrow> 'w \<Rightarrow> 'w news_engine \<times> 'w" where
  "on_article_received env now t a0 e0 w =
     (case check_delay now a0 e0 of (a1, e1) \<Rightarrow>
        let h = nv_digest env (article_body a1); a2 = a1\<lparr>na_body_hash := Some h\<rparr> in
        if is_duplicate h e1 then (e1\<lparr>ne_deduplicated := ne_deduplicated e1 + 1\<rparr>, w)
        else case enrich_article env a2 (record_article_hash h now e1) of (a3, e3) \<Rightarrow> detect_and_publish t a3 e3 w)"

record raw_article =
  rw_headline :: string
  rw_body :: string
  rw_source_name :: string
  rw_source_tier :: pyfloat
  rw_published_at :: "micros option"
  rw_received_at :: micros
  rw_category :: "string option"

definition article_of_raw :: "string \<Rightarrow> raw_article \<Rightarrow> news_article" where
  "article_of_raw i r =
     \<lparr>ad_id = Some i, ad_source = Some (rw_source_name r), ad_headline = Some (rw_headline r), ad_sentiment_score = None,
      ad_received_at = Some (rw_received_at r), ad_impact_level = None, ad_region = None, ad_asset_class = None,
      ad_category = rw_category r, na_body = Some (rw_body r), na_source_tier = Some (rw_source_tier r),
      na_published_at = rw_published_at r, na_delay = None, na_delayed = False, na_body_hash = None, na_instruments = None\<rparr>"

definition on_raw_article_received ::
  "news_env \<Rightarrow> string \<Rightarrow> micros \<Rightarrow> crisis_clock \<Rightarrow> raw_article \<Rightarrow> 'w news_engine \<Rightarrow> 'w \<Rightarrow> 'w news_engine \<times> 'w" where
  "on_raw_article_received env i now t r = on_article_received env now t (article_of_raw i r)"

section \<open>Runs\<close>

datatype news_call =
    Start "nat \<Rightarrow> micros" micros
  | Stop
  | Check micros
  | Incoming micros crisis_clock news_article
  | Raw string micros crisis_clock raw_article

fun news_step :: "news_env \<Rightarrow> 'w news_engine \<times> 'w \<Rightarrow> news_call \<Rightarrow> 'w news_engine \<times> 'w" where
  "news_step env (e, w) (Start ts now) = start_engine ts now e w"
| "news_step env (e, w) Stop = stop_engine e w"
| "news_step env (e, w) (Check now) = perform_health_checks now e w"
| "news_step env (e, w) (Incoming now t a) = on_article_received env now t a e w"
| "news_step env (e, w) (Raw i now t r) = on_raw_article_received env i now t r e w"

definition news_run :: "news_env \<Rightarrow> 'w news_engine \<times> 'w \<Rightarrow> news_call list \<Rightarrow> 'w news_engine \<times> 'w" where
  "news_run env = foldl (news_step env)"

section \<open>What the parts leave alone\<close>

definition same_content :: "'w news_engine \<Rightarrow> 'w news_engine \<Rightarrow> bool" where
  "same_content e e' \<longleftrightarrow> ne_bus e' = ne_bus e \<and> ne_sources e' = ne_sources e \<and> ne_seen e' = ne_seen e \<and>
     ne_detector e' = ne_detector e \<and> ne_processed e' = ne_processed e \<and> ne_deduplicated e' = ne_deduplicated e"

lemma connect_all:
  "same_content e (fst (foldl (connect_source ts) (e, w) iss)) \<and> ne_degraded (fst (foldl (connect_source ts) (e, w) iss)) = ne_degraded e"
proof (induction iss arbitrary: e w)
  case (Cons x iss)
  obtain i s where x: "x = (i, s)" by fastforce
  obtain e1 w1 where c: "connect_source ts (e, w) x = (e1, w1)" by fastforce
  then have "same_content e e1" "ne_degraded e1 = ne_degraded e"
    by (auto simp: x connect_source_def set_health_def same_content_def split: prod.splits sum.splits)
  then show ?case using Cons.IH[of e1 w1] c by (simp add: same_content_def)
qed (simp add: same_content_def)

lemma check_all:
  "same_content e (fst (foldl (check_source now) (e, w) ss)) \<and> ne_degraded (fst (foldl (check_source now) (e, w) ss)) = ne_degraded e"
proof (induction ss arbitrary: e w)
  case (Cons s ss)
  obtain e1 w1 where c: "check_source now (e, w) s = (e1, w1)" by fastforce
  then have "same_content e e1" "ne_degraded e1 = ne_degraded e"
    by (auto simp: check_source_def set_health_def same_content_def split: prod.splits sum.splits bool.splits)
  then show ?case using Cons.IH[of e1 w1] c by (simp add: same_content_def)
qed (simp add: same_content_def)

lemma evaluate_mode:
  "same_content e (fst (evaluate_degraded_mode now e w)) \<and>
   ne_health (fst (evaluate_degraded_mode now e w)) = ne_health e \<and>
   (ne_degraded (fst (evaluate_degraded_mode now e w)) \<longleftrightarrow> is_all_sources_down e)"
  by (simp add: evaluate_degraded_mode_def enter_degraded_mode_def exit_degraded_mode_def Let_def same_content_def)

text \<open>A start, a stop or a check changes the running flag, the health and the mode only.\<close>

lemma supervision:
  assumes "x = Start ts now \<or> x = Stop \<or> x = Check now"
  shows "same_content e (fst (news_step env (e, w) x))"
proof -
  have t: "same_content a b \<Longrightarrow> same_content b c \<Longrightarrow> same_content a c" for a b c :: "'a news_engine"
    by (simp add: same_content_def)
  have refl: "same_content e e" by (simp add: same_content_def)
  consider "x = Start ts now" | "x = Stop" | "x = Check now" using assms by blast
  then show ?thesis
  proof cases
    case 1
    obtain e1 w1 where d: "foldl (connect_source ts) (e\<lparr>ne_running := True\<rparr>, w) (enumerate 0 (ne_sources e)) = (e1, w1)" by fastforce
    have "same_content (e\<lparr>ne_running := True\<rparr>) e1"
      using connect_all[of "e\<lparr>ne_running := True\<rparr>" ts w "enumerate 0 (ne_sources e)"] d by simp
    then have "same_content e e1" by (simp add: same_content_def)
    then show ?thesis using 1 evaluate_mode[of e1 now w1] t[of e e1] refl by (auto simp: start_engine_def d)
  next
    case 2
    then show ?thesis by (simp add: stop_engine_def same_content_def)
  next
    case 3
    obtain e1 w1 where d: "foldl (check_source now) (e, w) (ne_sources e) = (e1, w1)" by fastforce
    have "same_content e e1" using check_all[of e now w "ne_sources e"] d by simp
    then show ?thesis using 3 evaluate_mode[of e1 now w1] t[of e e1] by (auto simp: perform_health_checks_def d)
  qed
qed

section \<open>Articles are processed once\<close>

lemma check_delay_keeps:
  assumes "check_delay now a e = (a1, e1)"
  shows "article_body a1 = article_body a" "article_dict.truncate a1 = article_dict.truncate a"
    and "\<exists>n. e1 = e\<lparr>ne_delayed := n\<rparr>"
proof -
  have "\<exists>n. e = e\<lparr>ne_delayed := n\<rparr>" by (rule exI[of _ "ne_delayed e"]) simp
  then show "article_body a1 = article_body a" "article_dict.truncate a1 = article_dict.truncate a" "\<exists>n. e1 = e\<lparr>ne_delayed := n\<rparr>"
    using assms by (auto simp: check_delay_def Let_def article_body_def article_dict.defs split: option.splits if_splits)
qed

definition hash_of :: "news_env \<Rightarrow> news_article \<Rightarrow> string" where
  "hash_of env a = nv_digest env (article_body a)"

lemma article_counts:
  assumes "on_article_received env now t a e w = (e', w')"
  shows "ne_seen e' = (if is_duplicate (hash_of env a) e then ne_seen e else ne_seen (record_article_hash (hash_of env a) now e))"
    and "ne_processed e' = ne_processed e + of_bool (\<not> is_duplicate (hash_of env a) e)"
    and "ne_deduplicated e' = ne_deduplicated e + of_bool (is_duplicate (hash_of env a) e)"
    and "ne_degraded e' = ne_degraded e" and "ne_bus e' = ne_bus e" and "ne_sources e' = ne_sources e"
proof -
  obtain a1 e1 where d: "check_delay now a e = (a1, e1)" by fastforce
  obtain n where e1: "e1 = e\<lparr>ne_delayed := n\<rparr>" using check_delay_keeps(3)[OF d] by blast
  note def = on_article_received_def d Let_def e1 check_delay_keeps(1)[OF d] is_duplicate_def record_article_hash_def
    enrich_article_def detect_and_publish_def hash_of_def
  show "ne_seen e' = (if is_duplicate (hash_of env a) e then ne_seen e else ne_seen (record_article_hash (hash_of env a) now e))"
    "ne_processed e' = ne_processed e + of_bool (\<not> is_duplicate (hash_of env a) e)"
    "ne_deduplicated e' = ne_deduplicated e + of_bool (is_duplicate (hash_of env a) e)"
    "ne_degraded e' = ne_degraded e" "ne_bus e' = ne_bus e" "ne_sources e' = ne_sources e"
    using assms by (auto simp: def split: if_splits prod.splits option.splits)
qed

fun hashes :: "news_env \<Rightarrow> news_call list \<Rightarrow> string list" where
  "hashes env [] = []"
| "hashes env (Incoming now t a # xs) = hash_of env a # hashes env xs"
| "hashes env (Raw i now t r # xs) = hash_of env (article_of_raw i r) # hashes env xs"
| "hashes env (x # xs) = hashes env xs"

lemma hashes_append [simp]: "hashes env (xs @ ys) = hashes env xs @ hashes env ys"
  by (induction xs rule: hashes.induct) auto

text \<open>While fewer texts came than the cache holds, it holds the digests of all of them.\<close>

definition counted :: "string list \<Rightarrow> 'w news_engine \<Rightarrow> bool" where
  "counted hs e \<longleftrightarrow> dict_ok (ne_seen e) \<and> fst ` set (ne_seen e) = set hs \<and>
     ne_processed e = int (card (set hs)) \<and> ne_processed e + ne_deduplicated e = int (length hs)"

lemma counted_article:
  assumes "counted hs e" "length hs < DEDUP_CACHE_MAX_SIZE"
  shows "counted (hs @ [hash_of env a]) (fst (on_article_received env now t a e w))"
proof -
  let ?h = "hash_of env a"
  obtain e' w' where r: "on_article_received env now t a e w = (e', w')" by fastforce
  note eff = article_counts[OF r]
  have dup: "is_duplicate ?h e \<longleftrightarrow> ?h \<in> set hs"
    using assms(1) by (simp add: is_duplicate_def counted_def map_of_eq_None_iff)
  have seen: "fst ` set (AList.update ?h now (ne_seen e)) = insert ?h (set hs)"
    using assms(1) by (simp add: counted_def dom_map_of_conv_image_fst[symmetric])
  have "length (AList.update ?h now (ne_seen e)) = card (insert ?h (set hs))"
    using assms(1) distinct_card[of "map fst (AList.update ?h now (ne_seen e))"] seen
    by (simp add: counted_def dict_ok_def distinct_update)
  also have "\<dots> \<le> Suc (length hs)" using card_length[of "?h # hs"] by simp
  finally have "take_last DEDUP_CACHE_MAX_SIZE (AList.update ?h now (ne_seen e)) = AList.update ?h now (ne_seen e)"
    using assms(2) by (intro take_last_all) simp
  then have "ne_seen (record_article_hash ?h now e) = AList.update ?h now (ne_seen e)" by (simp add: record_article_hash_def)
  then show ?thesis using assms(1) eff dup seen r by (auto simp: counted_def insert_absorb card_insert_if)
qed

lemma counted_step:
  assumes "counted (hashes env xs) e" "length (hashes env (xs @ [x])) \<le> DEDUP_CACHE_MAX_SIZE"
  shows "counted (hashes env (xs @ [x])) (fst (news_step env (e, w) x))"
proof (cases x)
  case (Start ts now)
  with supervision[of x ts now e env w] assms(1) show ?thesis by (simp add: counted_def same_content_def)
next
  case Stop
  with supervision[of x "\<lambda>_. 0" 0 e env w] assms(1) show ?thesis by (simp add: counted_def same_content_def)
next
  case (Check now)
  with supervision[of x "\<lambda>_. 0" now e env w] assms(1) show ?thesis by (simp add: counted_def same_content_def)
qed (use assms counted_article[of "hashes env xs" e env] in \<open>simp_all add: on_raw_article_received_def Suc_le_eq\<close>)

text \<open>
  Claim C39: as long as no more articles came than the cache holds, every text is processed exactly
  once however often and from whatever sources it comes, and the rest is counted as duplicates.
\<close>

theorem articles_are_processed_once:
  assumes "news_run env (news_engine_init sources bus n, w) xs = (e, w')" "length (hashes env xs) \<le> DEDUP_CACHE_MAX_SIZE"
  shows "ne_processed e = int (card (set (hashes env xs))) \<and>
    ne_deduplicated e = int (length (hashes env xs)) - int (card (set (hashes env xs)))"
proof -
  have "length (hashes env xs) \<le> DEDUP_CACHE_MAX_SIZE \<Longrightarrow>
      counted (hashes env xs) (fst (news_run env (news_engine_init sources bus n, w) xs))"
  proof (induction xs rule: rev_induct)
    case Nil
    show ?case by (simp add: news_run_def counted_def news_engine_init_def)
  next
    case (snoc x xs)
    obtain e1 w1 where s: "news_run env (news_engine_init sources bus n, w) xs = (e1, w1)" by fastforce
    have "length (hashes env xs) \<le> DEDUP_CACHE_MAX_SIZE" using snoc.prems by simp
    then have "counted (hashes env xs) e1" using snoc.IH s by simp
    from counted_step[OF this snoc.prems, of w1] show ?case using s by (simp add: news_run_def)
  qed
  then show ?thesis using assms by (auto simp: counted_def)
qed

definition sample_raw :: raw_article where
  "sample_raw = \<lparr>rw_headline = ''Markets crash'', rw_body = ''Markets crash as war begins'', rw_source_name = ''Reuters'',
     rw_source_tier = 1, rw_published_at = None, rw_received_at = 0, rw_category = Some ''geopolitical_conflict''\<rparr>"

definition tick_clock :: "nat \<Rightarrow> crisis_clock" where
  "tick_clock n = \<lparr>cl_now = 0, cl_resolved = (\<lambda>_. 0), cl_prune = 0, cl_window = 0, cl_started = 0, cl_article_id = ''a'',
     cl_crisis_id = replicate n (CHR ''c'')\<rparr>"

definition sample_env :: news_env where
  "sample_env = \<lparr>nv_digest = (\<lambda>s. s), nv_loading = Inl TimeoutError\<rparr>"

lemma articles_are_processed_once_witness:
  "ne_deduplicated (fst (news_run sample_env (news_engine_init [] None 3, ())
     [Raw ''1'' 0 (tick_clock 1) sample_raw, Check 5, Raw ''2'' 1 (tick_clock 2) sample_raw])) = 1"
proof -
  let ?xs = "[Raw ''1'' 0 (tick_clock 1) sample_raw, Check 5, Raw ''2'' 1 (tick_clock 2) sample_raw]"
  have h: "hashes sample_env ?xs = [rw_body sample_raw, rw_body sample_raw]"
    by (simp add: hash_of_def article_of_raw_def article_body_def sample_env_def)
  have "length (hashes sample_env ?xs) \<le> DEDUP_CACHE_MAX_SIZE" unfolding h by (simp add: DEDUP_CACHE_MAX_SIZE_def)
  from articles_are_processed_once[OF prod.collapse[symmetric] this, of "[]" None 3 "()"] show ?thesis unfolding h by simp
qed

section \<open>The degraded mode follows the sources\<close>

text \<open>The bus notes the notices it is handed, and may fail; the sources do not touch them.\<close>

definition quiet_source :: "('v \<times> news_notice list) news_source \<Rightarrow> bool" where
  "quiet_source s \<longleftrightarrow> (\<forall>w. snd (snd (ns_connect s w)) = snd w \<and> snd (snd (ns_disconnect s w)) = snd w \<and>
     snd (snd (ns_health_check s w)) = snd w)"

definition logs_notices :: "('v \<times> news_notice list) news_engine \<Rightarrow> bool" where
  "logs_notices e \<longleftrightarrow> (\<exists>publish. ne_bus e = Some publish \<and> (\<forall>n w. snd (snd (publish n w)) = snd w @ [n])) \<and>
     (\<forall>s \<in> set (ne_sources e). quiet_source s)"

fun is_down :: "news_notice \<Rightarrow> bool" where
  "is_down (AllSourcesDown t n) = True" | "is_down _ = False"

fun is_restored :: "news_notice \<Rightarrow> bool" where
  "is_restored (SourcesRestored t ns d) = True" | "is_restored _ = False"

definition count_notices :: "(news_notice \<Rightarrow> bool) \<Rightarrow> news_notice list \<Rightarrow> nat" where
  "count_notices P ns = length (filter P ns)"

lemma count_snoc [simp]: "count_notices P [] = 0" "count_notices P (ns @ [n]) = count_notices P ns + of_bool (P n)"
  by (simp_all add: count_notices_def)

definition mode_ok :: "('v \<times> news_notice list) news_engine \<times> ('v \<times> news_notice list) \<Rightarrow> bool" where
  "mode_ok ew \<longleftrightarrow> logs_notices (fst ew) \<and>
     count_notices is_down (snd (snd ew)) = count_notices is_restored (snd (snd ew)) + of_bool (ne_degraded (fst ew))"

lemma noted: "logs_notices e \<Longrightarrow> snd (publish_news n e w) = snd w @ [n]"
  by (cases w) (auto simp: logs_notices_def publish_news_def)

lemma logs_update:
  "ne_bus e' = ne_bus e \<Longrightarrow> ne_sources e' = ne_sources e \<Longrightarrow> logs_notices e' = logs_notices e"
  by (simp add: logs_notices_def)

lemma mode_evaluate:
  assumes "mode_ok (e, w)" shows "mode_ok (evaluate_degraded_mode now e w)"
proof -
  have "logs_notices (e\<lparr>ne_degraded := b, ne_degraded_since := t\<rparr>)" for b t
    using assms by (simp add: mode_ok_def logs_notices_def)
  then show ?thesis using assms
    by (simp add: evaluate_degraded_mode_def enter_degraded_mode_def exit_degraded_mode_def Let_def mode_ok_def noted)
qed

lemma world_of_step:
  "snd (connect_source ts (e, w) (i, s)) = snd (ns_connect s w)" "snd (check_source now (e, w) s) = snd (ns_health_check s w)"
  by (cases "ns_connect s w"; simp add: connect_source_def split: sum.split)
     (cases "ns_health_check s w"; simp add: check_source_def split: sum.split bool.split)

lemma quietD:
  assumes "quiet_source s"
  shows "snd (snd (ns_connect s w)) = snd w" "snd (snd (ns_disconnect s w)) = snd w" "snd (snd (ns_health_check s w)) = snd w"
  using assms unfolding quiet_source_def by blast+

lemma quiet_connect: "\<forall>(i, s) \<in> set iss. quiet_source s \<Longrightarrow> snd (snd (foldl (connect_source ts) (e, w) iss)) = snd w"
proof (induction iss arbitrary: e w)
  case (Cons x iss)
  obtain i s where i: "x = (i, s)" by (rule prod.exhaust)
  obtain e1 w1 where c: "connect_source ts (e, w) (i, s) = (e1, w1)" by (rule prod.exhaust)
  have "snd w1 = snd w" using Cons.prems world_of_step(1)[of ts e w i s] by (simp add: i c quietD)
  then show ?case using Cons i c by simp
qed simp

lemma quiet_check: "\<forall>s \<in> set ss. quiet_source s \<Longrightarrow> snd (snd (foldl (check_source now) (e, w) ss)) = snd w"
proof (induction ss arbitrary: e w)
  case (Cons s ss)
  obtain e1 w1 where c: "check_source now (e, w) s = (e1, w1)" by (rule prod.exhaust)
  have "snd w1 = snd w" using Cons.prems world_of_step(2)[of now e w s] by (simp add: c quietD)
  then show ?case using Cons c by simp
qed simp

lemma quiet_disconnect: "\<forall>s \<in> set ss. quiet_source s \<Longrightarrow> snd (foldl (\<lambda>w s. snd (ns_disconnect s w)) w ss) = snd w"
  by (induction ss arbitrary: w) (simp_all add: quietD)

lemma mode_article:
  assumes "mode_ok (e, w)" shows "mode_ok (on_article_received env now t a e w)"
proof -
  obtain e' w' where r: "on_article_received env now t a e w = (e', w')" by (rule prod.exhaust)
  obtain a1 e1 where d: "check_delay now a e = (a1, e1)" by (rule prod.exhaust)
  obtain n where e1: "e1 = e\<lparr>ne_delayed := n\<rparr>" using check_delay_keeps(3)[OF d] by blast
  have "\<exists>ns. snd w' = snd w @ ns \<and> filter is_down ns = [] \<and> filter is_restored ns = []"
  proof (cases "is_duplicate (nv_digest env (article_body a1)) e1")
    case True
    then show ?thesis using r by (simp add: on_article_received_def d Let_def)
  next
    case False
    obtain a3 e3 where en: "enrich_article env (a1\<lparr>na_body_hash := Some (nv_digest env (article_body a1))\<rparr>)
        (record_article_hash (nv_digest env (article_body a1)) now e1) = (a3, e3)" by (rule prod.exhaust)
    have l: "logs_notices e3" using assms en
      by (auto simp: enrich_article_def Let_def record_article_hash_def e1 mode_ok_def logs_notices_def split: prod.splits)
    then obtain publish where p: "ne_bus e3 = Some publish" "\<And>n w. snd (snd (publish n w)) = snd w @ [n]"
      by (auto simp: logs_notices_def)
    have "detect_and_publish t a3 e3 w = (e', w')" using r False by (simp add: on_article_received_def d Let_def en)
    then show ?thesis
      by (auto simp: detect_and_publish_def Let_def dispatch_pending_events_def noted[OF l] p split: prod.splits option.splits if_splits)
  qed
  then show ?thesis using assms article_counts(4-6)[OF r] r
    by (auto simp: mode_ok_def logs_update[of e' e] count_notices_def)
qed

lemma mode_step: assumes "mode_ok (e, w)" shows "mode_ok (news_step env (e, w) x)"
proof -
  have q: "\<forall>s \<in> set (ne_sources e). quiet_source s" using assms by (simp add: mode_ok_def logs_notices_def)
  show ?thesis
  proof (cases x)
    case (Start ts now)
    have "\<forall>(i, s) \<in> set (enumerate 0 (ne_sources e)). quiet_source s" using q by (auto simp: in_set_enumerate_eq)
    then have w: "snd (snd (foldl (connect_source ts) (e\<lparr>ne_running := True\<rparr>, w) (enumerate 0 (ne_sources e)))) = snd w"
      by (rule quiet_connect)
    have "same_content e (fst (foldl (connect_source ts) (e\<lparr>ne_running := True\<rparr>, w) (enumerate 0 (ne_sources e)))) \<and>
        ne_degraded (fst (foldl (connect_source ts) (e\<lparr>ne_running := True\<rparr>, w) (enumerate 0 (ne_sources e)))) = ne_degraded e"
      using connect_all[of "e\<lparr>ne_running := True\<rparr>" ts w] by (simp add: same_content_def)
    with w assms have "mode_ok (foldl (connect_source ts) (e\<lparr>ne_running := True\<rparr>, w) (enumerate 0 (ne_sources e)))"
      by (simp add: mode_ok_def same_content_def logs_notices_def)
    then show ?thesis using assms Start by (auto simp: start_engine_def intro: mode_evaluate split: prod.split)
  next
    case Stop
    then show ?thesis using assms q by (simp add: stop_engine_def mode_ok_def logs_notices_def quiet_disconnect)
  next
    case (Check now)
    have "mode_ok (foldl (check_source now) (e, w) (ne_sources e))"
      using quiet_check[OF q] assms check_all[of e now w "ne_sources e"] by (simp add: mode_ok_def same_content_def logs_notices_def)
    then show ?thesis using Check by (auto simp: perform_health_checks_def intro: mode_evaluate split: prod.split)
  next
    case (Incoming now t a)
    then show ?thesis using mode_article[OF assms] by simp
  next
    case (Raw i now t r)
    then show ?thesis using mode_article[OF assms] by (simp add: on_raw_article_received_def)
  qed
qed

text \<open>
  Claim C21: every loss of all sources is announced once and followed by one announcement of their
  return before the next: in every reachable state the announced losses are the announced returns,
  and one more exactly in degraded mode; and after a health check the threshold for signals is
  eighty exactly when no source is healthy.
\<close>

theorem degraded_mode_follows_sources:
  assumes "logs_notices e0" "\<not> ne_degraded e0" and "news_run env (e0, (v, [])) xs = (e, w)"
  shows "count_notices is_down (snd w) = count_notices is_restored (snd w) + of_bool (ne_degraded e) \<and>
    get_confidence_threshold (fst (perform_health_checks now e w)) =
      (if is_all_sources_down (fst (perform_health_checks now e w)) then 80 else 60)"
proof -
  have "mode_ok (e0, (v, []))" using assms(1,2) by (simp add: mode_ok_def)
  then have "mode_ok (news_run env (e0, (v, [])) xs)"
  proof (induction xs rule: rev_induct)
    case (snoc x xs)
    then show ?case using mode_step[of "fst (news_run env (e0, (v, [])) xs)" "snd (news_run env (e0, (v, [])) xs)" env x] by (simp add: news_run_def)
  qed (simp add: news_run_def)
  moreover obtain e1 w1 where "foldl (check_source now) (e, w) (ne_sources e) = (e1, w1)" by (rule prod.exhaust)
  ultimately show ?thesis using assms(3) evaluate_mode[of e1 now w1]
    by (simp add: mode_ok_def perform_health_checks_def get_confidence_threshold_def CONFIDENCE_THRESHOLD_NEWS_DOWN_def
        CONFIDENCE_THRESHOLD_DEFAULT_def is_all_sources_down_def healthy_sources_def)
qed

definition deaf_source :: "(unit \<times> news_notice list) news_source" where
  "deaf_source = \<lparr>ns_name = ''Reuters'', ns_connect = raiseA TimeoutError, ns_disconnect = returnA (), ns_health_check = returnA True\<rparr>"

definition deaf_engine :: "(unit \<times> news_notice list) news_engine" where
  "deaf_engine = news_engine_init [deaf_source] (Some (\<lambda>n w. (Inr 0, apsnd (\<lambda>l. l @ [n]) w))) 1"

lemma degraded_mode_follows_sources_witness:
  "\<exists>e w. news_run sample_env (deaf_engine, ((), [])) [Start (\<lambda>_. 0) 0, Check 60] = (e, w) \<and>
     count_notices is_down (snd w) = count_notices is_restored (snd w) + of_bool (ne_degraded e)"
proof -
  obtain e w where r: "news_run sample_env (deaf_engine, ((), [])) [Start (\<lambda>_. 0) 0, Check 60] = (e, w)" by (rule prod.exhaust)
  have "logs_notices deaf_engine" "\<not> ne_degraded deaf_engine"
    by (auto simp: logs_notices_def deaf_engine_def news_engine_init_def deaf_source_def quiet_source_def raiseA_def returnA_def)
  from degraded_mode_follows_sources[OF this r] r show ?thesis by blast
qed

section \<open>Crises from the sources are global\<close>

definition no_region :: "crisis_detector \<Rightarrow> bool" where
  "no_region d \<longleftrightarrow> list_all (\<lambda>a. ka_region a = None \<and> ka_asset_class a = None) (kd_recent_articles d) \<and>
     list_all (\<lambda>(i, c). al_region c = ''global'') (kd_active_crises d)"

lemma no_region_set_alert: "(\<And>c. al_region (f c) = al_region c) \<Longrightarrow> no_region d \<Longrightarrow> no_region (set_alert i f d)"
  by (auto simp: no_region_def set_alert_def intro!: list_all_map_entry)

lemma no_region_resolve: "no_region d \<Longrightarrow> no_region (resolve_crisis now i d)"
proof -
  assume d: "no_region d"
  have "no_region (set_alert i (\<lambda>c. c\<lparr>al_active := False, al_resolved_at := Some now\<rparr>) d)" by (rule no_region_set_alert[OF _ d]) simp
  then show "no_region (resolve_crisis now i d)" using d by (auto simp: resolve_crisis_def Let_def no_region_def split: option.split)
qed

lemma no_region_escalate: "no_region d \<Longrightarrow> no_region (escalate i c d)"
proof -
  assume "no_region d"
  then have "no_region (set_alert i (\<lambda>c. c\<lparr>al_escalated := True\<rparr>) d)" by (rule no_region_set_alert[rotated]) simp
  then show "no_region (escalate i c d)" by (simp add: escalate_def emit_kill_switch_activation_def no_region_def)
qed

lemma no_region_check: "no_region d \<Longrightarrow> no_region (check_crisis x r t rs i d)"
proof -
  assume d: "no_region d"
  then have "no_region (d\<lparr>kd_crisis_sentiments := ss\<rparr>)" for ss by (simp add: no_region_def)
  then show "no_region (check_crisis x r t rs i d)"
    using d by (auto simp: check_crisis_def Let_def intro!: no_region_resolve no_region_escalate split: option.split)
qed

lemma no_region_fold: "no_region d \<Longrightarrow> no_region (fold (check_crisis x r t rs) is d)"
  by (induction "is" arbitrary: d) (auto intro: no_region_check)

lemma no_region_evaluate:
  assumes "no_region d" "ad_region x = None" "ad_asset_class x = None"
  shows "no_region (snd (evaluate t x d))"
proof -
  let ?a = "record_of t x" and ?d = "check_active_crises_on_article (or_default (ad_sentiment_score x) 0) (ad_region x)
    (or_default (ad_received_at x) (cl_now t)) (cl_resolved t) d"
  let ?d1 = "prune_old_articles (cl_prune t) (?d\<lparr>kd_recent_articles := kd_recent_articles ?d @ [?a]\<rparr>)"
  have d: "no_region ?d" using assms(1) by (simp add: check_active_crises_on_article_def no_region_fold)
  have a: "ka_region ?a = None" "ka_asset_class ?a = None" using assms(2,3) by (simp_all add: record_of_def)
  have "list_all P (dropWhile Q xs)" if "list_all P xs" for P Q and xs :: "crisis_article list"
    using that by (auto simp: list_all_iff dest: set_dropWhileD)
  then have d1: "no_region ?d1" using d a by (simp add: no_region_def prune_old_articles_def)
  have "get_grouping_keys ?a = [''global'']" using a by (simp add: get_grouping_keys_def truthy_def)
  then have "no_region (snd (check_crisis_conditions t ?a ?d1))"
    using d1 by (auto simp: check_crisis_conditions_def Let_def no_region_def resolve_region_label_def intro!: list_all_update)
  then show ?thesis using d by (simp add: evaluate_def Let_def)
qed

lemma raw_detector:
  fixes e :: "'w news_engine"
  assumes "no_region (ne_detector e)"
  shows "no_region (ne_detector (fst (on_raw_article_received env i now t r e w)))"
proof -
  let ?a = "article_of_raw i r"
  obtain a1 e1 where d: "check_delay now ?a e = (a1, e1)" by (rule prod.exhaust)
  obtain n where e1: "e1 = e\<lparr>ne_delayed := n\<rparr>" using check_delay_keeps(3)[OF d] by blast
  have "article_dict.truncate a1 = article_dict.truncate ?a" by (rule check_delay_keeps(2)[OF d])
  then have a1: "ad_region a1 = None" "ad_asset_class a1 = None" by (simp_all add: article_dict.defs article_of_raw_def)
  obtain a3 e3 where en: "enrich_article env (a1\<lparr>na_body_hash := Some (nv_digest env (article_body a1))\<rparr>)
      (record_article_hash (nv_digest env (article_body a1)) now e1) = (a3, e3)" by (rule prod.exhaust)
  have a3: "ad_region a3 = None" "ad_asset_class a3 = None" "ne_detector e3 = ne_detector e"
    using en a1 by (auto simp: enrich_article_def Let_def record_article_hash_def e1 split: prod.splits if_splits)
  obtain c d1 where ev: "evaluate t (article_dict.truncate a3) (ne_detector e) = (c, d1)" by (rule prod.exhaust)
  have "no_region d1" using no_region_evaluate[OF assms, of "article_dict.truncate a3" t] a3 ev by (simp add: article_dict.defs)
  then have "no_region (fst (dispatch_pending_events p d1 w2))" for p :: "kill_request \<Rightarrow> ('w, int) action" and w2
    by (auto simp: dispatch_pending_events_def no_region_def split: option.split)
  then have "no_region (ne_detector (fst (detect_and_publish t a3 e3 w)))"
    by (simp add: detect_and_publish_def Let_def a3(3) ev case_prod_beta)
  then show ?thesis using assms en by (simp add: on_raw_article_received_def on_article_received_def d Let_def e1)
qed

text \<open>
  Claim: an article of a source carries neither a region nor an asset class to the crisis
  detector, so whatever the sources send, every crisis they raise is the global one.
\<close>

theorem sources_raise_global_crises_only:
  assumes "list_all (\<lambda>x. case x of Incoming _ _ _ \<Rightarrow> False | _ \<Rightarrow> True) xs"
  shows "list_all (\<lambda>(i, c). al_region c = ''global'')
    (kd_active_crises (ne_detector (fst (news_run env (news_engine_init sources bus n, w) xs))))"
proof -
  have "no_region (ne_detector (fst (news_run env (news_engine_init sources bus n, w) xs)))"
    using assms
  proof (induction xs rule: rev_induct)
    case Nil
    show ?case by (simp add: news_run_def news_engine_init_def no_region_def crisis_detector_init_def)
  next
    case (snoc x xs)
    obtain e1 w1 where s: "news_run env (news_engine_init sources bus n, w) xs = (e1, w1)" by (rule prod.exhaust)
    have ih: "no_region (ne_detector e1)" using snoc s by simp
    show ?case
    proof (cases x)
      case (Start ts now)
      with supervision[of x ts now e1 env w1] ih show ?thesis by (simp add: news_run_def s[unfolded news_run_def] same_content_def)
    next
      case Stop
      with supervision[of x "\<lambda>_. 0" 0 e1 env w1] ih show ?thesis by (simp add: news_run_def s[unfolded news_run_def] same_content_def)
    next
      case (Check now)
      with supervision[of x "\<lambda>_. 0" now e1 env w1] ih show ?thesis by (simp add: news_run_def s[unfolded news_run_def] same_content_def)
    next
      case (Incoming now t a)
      then show ?thesis using snoc.prems by simp
    next
      case (Raw i now t r)
      then show ?thesis using raw_detector[OF ih] by (simp add: news_run_def s[unfolded news_run_def])
    qed
  qed
  then show ?thesis by (simp add: no_region_def)
qed

lemma sources_raise_global_crises_only_witness:
  "list_all (\<lambda>(i, c). al_region c = ''global'') (kd_active_crises (ne_detector (fst (news_run sample_env (news_engine_init [] None 3, ())
     [Raw ''1'' 0 (tick_clock 1) sample_raw, Raw ''2'' 1 (tick_clock 2) (sample_raw\<lparr>rw_body := ''war''\<rparr>)]))))"
  by (rule sources_raise_global_crises_only) simp

section \<open>Gaps\<close>

text \<open>Stopping the engine takes the health of the sources away and leaves the mode as it was.\<close>

theorem stopped_engine_keeps_threshold:
  "get_confidence_threshold (fst (stop_engine e w)) = get_confidence_threshold e \<and> is_all_sources_down (fst (stop_engine e w))"
  by (simp add: stop_engine_def get_confidence_threshold_def is_all_sources_down_def healthy_sources_def filter_map comp_def case_prod_beta)

text \<open>Articles on anything, of other sources, count as corroboration.\<close>

definition busy_engine :: "unit news_engine" where
  "busy_engine = (news_engine_init [] None 3)\<lparr>ne_detector := (crisis_detector_init False)\<lparr>kd_recent_articles :=
     map (\<lambda>s. \<lparr>ka_article_id = s, ka_source = s, ka_headline = ''Bank collapse'', ka_sentiment_score = - 1, ka_received_at = 0,
       ka_category = None, ka_region = None, ka_asset_class = None\<rparr>) [''Reuters'', ''Bloomberg'']\<rparr>\<rparr>"

theorem unrelated_articles_corroborate:
  "ad_impact_level (fst (enrich_article sample_env
     (article_of_raw ''1'' (sample_raw\<lparr>rw_source_name := ''Blog'', rw_source_tier := flt (2 / 5), rw_headline := ''Loss'',
        rw_body := ''at home''\<rparr>)) busy_engine)) = Some ''HIGH''"
  by code_simp

end
