(* ===== verification/Professional_Setup.thy ===== *)
theory Professional_Setup
  imports Effects
begin

text \<open>
  The gates of the professional strategy, \<open>src/strategy/professional/\<close>: \<open>session_filter.py\<close>,
  \<open>news_filter.py\<close>, \<open>higher_timeframe_trend.py\<close>, \<open>liquidity_sweep.py\<close>,
  \<open>market_structure.py\<close>, \<open>fvg_detector.py\<close>, \<open>order_block_detector.py\<close>,
  \<open>trade_management.py\<close>, \<open>ml_confirmation.py\<close> and \<open>strategy_validator.py\<close>.

  A data frame is the list of its bars, oldest first, each with four finite floats.  The
  exponentially weighted mean and the quantiles of a series belong to the data-frame library and
  are parameters (\<open>frame_env\<close>).  The lookbacks given to the detectors are positive.
\<close>

section \<open>Frames\<close>

record frame_bar =
  br_open :: pyfloat
  br_high :: pyfloat
  br_low :: pyfloat
  br_close :: pyfloat

type_synonym frame = "frame_bar list"

text \<open>\<open>ewm(span=n)\<close> and \<open>ewm(alpha=a)\<close>.\<close>

datatype ew_decay = Span nat | Alpha pyfloat

record frame_env =
  fe_ewm :: "ew_decay \<Rightarrow> pyfloat list \<Rightarrow> pyfloat list"
  fe_quantiles :: "pyfloat list \<Rightarrow> pyfloat \<times> pyfloat"

text \<open>\<open>frame.iloc[i - n : i]\<close> for \<open>n \<le> i\<close>.\<close>

definition bars_before :: "nat \<Rightarrow> nat \<Rightarrow> frame \<Rightarrow> frame" where
  "bars_before n i f = take n (drop (i - n) f)"

definition lowest :: "frame \<Rightarrow> pyfloat" where
  "lowest f = Min (set (map br_low f))"

definition highest :: "frame \<Rightarrow> pyfloat" where
  "highest f = Max (set (map br_high f))"

fun first_some :: "('a \<Rightarrow> 'b option) \<Rightarrow> 'a list \<Rightarrow> 'b option" where
  "first_some f [] = None"
| "first_some f (x # xs) = (case f x of None \<Rightarrow> first_some f xs | Some y \<Rightarrow> Some y)"

lemma first_some_Some: "first_some f xs = Some y \<Longrightarrow> \<exists>x \<in> set xs. f x = Some y"
  by (induction xs) (auto split: option.splits)

section \<open>Sessions\<close>

record session_decision =
  ss_allowed :: bool
  ss_session :: string
  ss_reason :: string

definition utc_weekday :: "micros \<Rightarrow> int" where
  "utc_weekday t = (t div 86400000000 + 3) mod 7"

definition utc_hour :: "micros \<Rightarrow> int" where
  "utc_hour t = t div 3600000000 mod 24"

definition evaluate_session :: "micros \<Rightarrow> micros option \<Rightarrow> session_decision" where
  "evaluate_session now timestamp =
     (let t = or_default timestamp now; hour = utc_hour t in
      if 5 \<le> utc_weekday t then \<lparr>ss_allowed = False, ss_session = ''CLOSED'', ss_reason = ''weekend''\<rparr>
      else if 7 \<le> hour \<and> hour < 12 then \<lparr>ss_allowed = True, ss_session = ''LONDON'', ss_reason = ''liquid_session''\<rparr>
      else if 12 \<le> hour \<and> hour < 17 then \<lparr>ss_allowed = True, ss_session = ''OVERLAP'', ss_reason = ''london_new_york_overlap''\<rparr>
      else if 17 \<le> hour \<and> hour < 20 then \<lparr>ss_allowed = True, ss_session = ''NEW_YORK'', ss_reason = ''liquid_session''\<rparr>
      else \<lparr>ss_allowed = False, ss_session = ''OFF_HOURS'', ss_reason = ''outside_approved_fx_sessions''\<rparr>)"

section \<open>News\<close>

datatype news_mode = FAIL_CLOSED | RESEARCH_ALLOW_WITH_WARNING | DEMO_ALLOW_WITH_WARNING

definition news_mode_of_text :: "string \<Rightarrow> py_error + news_mode" where
  "news_mode_of_text s =
     (if s = ''FAIL_CLOSED'' then Inr FAIL_CLOSED
      else if s = ''RESEARCH_ALLOW_WITH_WARNING'' then Inr RESEARCH_ALLOW_WITH_WARNING
      else if s = ''DEMO_ALLOW_WITH_WARNING'' then Inr DEMO_ALLOW_WITH_WARNING
      else Inl (ValueError s))"

text \<open>The argument \<open>mode\<close>: a member of the enumeration or a text.\<close>

type_synonym mode_argument = "news_mode + string"

record news_event =
  ne_timestamp :: micros
  ne_currencies :: "string list"
  ne_impact :: string
  ne_title :: string

record news_verdict =
  nv_allowed :: bool
  nv_available :: bool
  nv_reason :: string
  nv_blocking_event :: "string option"

record news_filter =
  nf_window :: micros
  nf_mode :: news_mode
  nf_execution_mode :: string
  nf_warned_unavailable :: bool

definition validate_mode :: "news_filter \<Rightarrow> py_error + unit" where
  "validate_mode f =
     (if nf_execution_mode f = ''LIVE'' \<and> nf_mode f \<noteq> FAIL_CLOSED
      then Inl (ValueError ''Live trading must use FAIL_CLOSED news filtering'')
      else if nf_mode f = RESEARCH_ALLOW_WITH_WARNING \<and> nf_execution_mode f \<notin> {''BACKTEST'', ''RESEARCH''}
      then Inl (ValueError ''RESEARCH_ALLOW_WITH_WARNING is restricted to backtest/research mode'')
      else if nf_mode f = DEMO_ALLOW_WITH_WARNING \<and> nf_execution_mode f \<noteq> ''DEMO''
      then Inl (ValueError ''DEMO_ALLOW_WITH_WARNING is restricted to demo mode'')
      else Inr ())"

definition new_news_filter :: "int \<Rightarrow> mode_argument \<Rightarrow> string \<Rightarrow> bool option \<Rightarrow> py_error + news_filter" where
  "new_news_filter window_minutes mode execution_mode fail_closed =
     (let arg = (case fail_closed of
                   None \<Rightarrow> mode
                 | Some b \<Rightarrow> Inl (if b then FAIL_CLOSED else RESEARCH_ALLOW_WITH_WARNING)) in
      bindE (case arg of Inl m \<Rightarrow> Inr m | Inr s \<Rightarrow> news_mode_of_text s) (\<lambda>m.
      let f = \<lparr>nf_window = minutes window_minutes, nf_mode = m, nf_execution_mode = py_upper execution_mode,
               nf_warned_unavailable = False\<rparr>
      in bindE (validate_mode f) (\<lambda>_. Inr f)))"

definition blocks_pair :: "news_filter \<Rightarrow> string \<Rightarrow> micros \<Rightarrow> news_event \<Rightarrow> bool" where
  "blocks_pair f pair current e \<longleftrightarrow>
     py_upper (ne_impact e) = ''HIGH'' \<and>
     list_ex (\<lambda>c. c \<in> {take 3 pair, take 3 (drop 3 pair)}) (ne_currencies e) \<and>
     \<bar>ne_timestamp e - current\<bar> \<le> nf_window f"

text \<open>The warning is logged once.\<close>

definition evaluate_news ::
  "micros \<Rightarrow> news_filter \<Rightarrow> string \<Rightarrow> micros option \<Rightarrow> news_event list option \<Rightarrow> news_verdict \<times> news_filter" where
  "evaluate_news now f pair timestamp events =
     (case events of
        None \<Rightarrow>
          if nf_mode f \<in> {RESEARCH_ALLOW_WITH_WARNING, DEMO_ALLOW_WITH_WARNING}
          then (\<lparr>nv_allowed = True, nv_available = False,
                 nv_reason = (if nf_mode f = DEMO_ALLOW_WITH_WARNING then ''news filter unavailable; demo-only override active''
                              else ''news filter unavailable; research-only override active''),
                 nv_blocking_event = None\<rparr>, f\<lparr>nf_warned_unavailable := True\<rparr>)
          else (\<lparr>nv_allowed = False, nv_available = False, nv_reason = ''news_calendar_unavailable'', nv_blocking_event = None\<rparr>, f)
      | Some es \<Rightarrow>
          (case find (blocks_pair f pair (or_default timestamp now)) es of
             Some e \<Rightarrow> (\<lparr>nv_allowed = False, nv_available = True, nv_reason = ''high_impact_news_window'',
                        nv_blocking_event = Some (ne_title e)\<rparr>, f)
           | None \<Rightarrow> (\<lparr>nv_allowed = True, nv_available = True, nv_reason = ''no_nearby_high_impact_news'',
                      nv_blocking_event = None\<rparr>, f)))"

section \<open>Trend\<close>

record trend_bias =
  tb_direction :: string
  tb_timeframe :: string
  tb_fast_ema :: pyfloat
  tb_slow_ema :: pyfloat
  tb_strength :: pyfloat
  tb_reason :: fmsg

record trend_periods =
  tp_fast :: nat
  tp_slow :: nat

definition trend_of :: "frame_env \<Rightarrow> trend_periods \<Rightarrow> string \<Rightarrow> frame \<Rightarrow> trend_bias option" where
  "trend_of env p timeframe f =
     (if length f < tp_slow p + 3 then None
      else let close = map br_close f;
               fast = fe_ewm env (Span (tp_fast p)) close; slow = fe_ewm env (Span (tp_slow p)) close;
               current_fast = List.last fast; current_slow = List.last slow;
               slope = f_sub current_slow (slow ! (length slow - 3));
               denominator = max \<bar>current_slow\<bar> (flt (1 / 10 ^ 12))
           in Some \<lparr>tb_direction = (if current_slow < current_fast \<and> 0 < slope then ''BULLISH''
                                    else if current_fast < current_slow \<and> slope < 0 then ''BEARISH'' else ''NEUTRAL''),
                    tb_timeframe = timeframe, tb_fast_ema = current_fast, tb_slow_ema = current_slow,
                    tb_strength = f_quot \<bar>f_sub current_fast current_slow\<bar> denominator,
                    tb_reason = FMsg ''{} EMA{}/EMA{} with slope'' [FStr timeframe, FInt (int (tp_fast p)), FInt (int (tp_slow p))]\<rparr>)"

definition detect_trend :: "frame_env \<Rightarrow> trend_periods \<Rightarrow> frame \<Rightarrow> frame \<Rightarrow> trend_bias" where
  "detect_trend env p four_hour one_hour =
     (case first_some (\<lambda>(timeframe, f). trend_of env p timeframe f) [(''4H'', four_hour), (''1H'', one_hour)] of
        Some b \<Rightarrow> b
      | None \<Rightarrow> \<lparr>tb_direction = ''NEUTRAL'', tb_timeframe = ''NONE'', tb_fast_ema = 0, tb_slow_ema = 0, tb_strength = 0,
                 tb_reason = FMsg ''insufficient_higher_timeframe_data'' []\<rparr>)"

section \<open>Liquidity sweeps\<close>

record liquidity_sweep =
  sw_detected :: bool
  sw_direction :: string
  sw_level :: "pyfloat option"
  sw_extreme :: "pyfloat option"
  sw_bar_index :: "nat option"
  sw_reason :: string

record sweep_bars =
  sb_liquidity_lookback :: nat
  sb_search_bars :: nat

definition sweep_at :: "sweep_bars \<Rightarrow> frame \<Rightarrow> string \<Rightarrow> nat \<Rightarrow> liquidity_sweep option" where
  "sweep_at p f direction i =
     (let history = bars_before (sb_liquidity_lookback p) i f; bar = f ! i in
      if direction = ''BULLISH'' then
        (let level = lowest history in
         if br_low bar < level \<and> level < br_close bar
         then Some \<lparr>sw_detected = True, sw_direction = direction, sw_level = Some level, sw_extreme = Some (br_low bar),
                    sw_bar_index = Some i, sw_reason = ''sell_side_sweep_reclaimed''\<rparr> else None)
      else if direction = ''BEARISH'' then
        (let level = highest history in
         if level < br_high bar \<and> br_close bar < level
         then Some \<lparr>sw_detected = True, sw_direction = direction, sw_level = Some level, sw_extreme = Some (br_high bar),
                    sw_bar_index = Some i, sw_reason = ''buy_side_sweep_rejected''\<rparr> else None)
      else None)"

definition no_sweep :: "string \<Rightarrow> string \<Rightarrow> liquidity_sweep" where
  "no_sweep direction reason = \<lparr>sw_detected = False, sw_direction = direction, sw_level = None, sw_extreme = None,
     sw_bar_index = None, sw_reason = reason\<rparr>"

definition detect_sweep :: "sweep_bars \<Rightarrow> frame \<Rightarrow> string \<Rightarrow> liquidity_sweep" where
  "detect_sweep p f direction =
     (if length f < sb_liquidity_lookback p + sb_search_bars p then no_sweep direction ''insufficient_data''
      else case first_some (sweep_at p f direction) [length f - sb_search_bars p ..< length f] of
        Some s \<Rightarrow> s
      | None \<Rightarrow> no_sweep direction ''no_recent_liquidity_sweep'')"

section \<open>Market structure\<close>

record structure_signal =
  st_confirmed :: bool
  st_direction :: string
  st_event :: string
  st_broken_level :: "pyfloat option"
  st_reason :: string

definition structure_at :: "nat \<Rightarrow> frame \<Rightarrow> string \<Rightarrow> nat \<Rightarrow> structure_signal option" where
  "structure_at lookback f direction i =
     (let history = bars_before lookback i f; close = br_close (f ! i);
          previous_trend = f_sub (br_close (List.last history)) (br_close (hd history)) in
      if direction = ''BULLISH'' then
        (let level = highest history in
         if level < close
         then Some \<lparr>st_confirmed = True, st_direction = direction,
                    st_event = (if previous_trend < 0 then ''CHOCH'' else ''BOS''), st_broken_level = Some level,
                    st_reason = ''bullish_structure_break''\<rparr> else None)
      else if direction = ''BEARISH'' then
        (let level = lowest history in
         if close < level
         then Some \<lparr>st_confirmed = True, st_direction = direction,
                    st_event = (if 0 < previous_trend then ''CHOCH'' else ''BOS''), st_broken_level = Some level,
                    st_reason = ''bearish_structure_break''\<rparr> else None)
      else None)"

definition no_structure :: "string \<Rightarrow> string \<Rightarrow> structure_signal" where
  "no_structure direction reason = \<lparr>st_confirmed = False, st_direction = direction, st_event = ''NONE'',
     st_broken_level = None, st_reason = reason\<rparr>"

definition detect_structure :: "nat \<Rightarrow> frame \<Rightarrow> string \<Rightarrow> nat option \<Rightarrow> structure_signal" where
  "detect_structure lookback f direction after_index =
     (case after_index of
        None \<Rightarrow> no_structure direction ''missing_sweep_context''
      | Some a \<Rightarrow>
          if length f < lookback + 2 then no_structure direction ''missing_sweep_context''
          else case first_some (structure_at lookback f direction) [max (a + 1) lookback ..< length f] of
            Some s \<Rightarrow> s
          | None \<Rightarrow> no_structure direction ''no_structure_break_after_sweep'')"

section \<open>Entry zones\<close>

text \<open>A fair value gap and an order block have the same fields.\<close>

record entry_zone =
  ez_detected :: bool
  ez_direction :: string
  ez_lower :: "pyfloat option"
  ez_upper :: "pyfloat option"
  ez_created_index :: "nat option"
  ez_retraced :: bool

definition no_zone :: "string \<Rightarrow> entry_zone" where
  "no_zone direction = \<lparr>ez_detected = False, ez_direction = direction, ez_lower = None, ez_upper = None,
     ez_created_index = None, ez_retraced = False\<rparr>"

text \<open>A zone found at \<open>i\<close>, and whether the bars from \<open>k\<close> on came back to it.\<close>

definition zone_found :: "frame \<Rightarrow> string \<Rightarrow> pyfloat \<Rightarrow> pyfloat \<Rightarrow> nat \<Rightarrow> nat \<Rightarrow> entry_zone" where
  "zone_found f direction lower upper i k =
     (let recent = drop k f in
      \<lparr>ez_detected = True, ez_direction = direction, ez_lower = Some lower, ez_upper = Some upper, ez_created_index = Some i,
       ez_retraced = (recent \<noteq> [] \<and> lowest recent \<le> upper \<and> lower \<le> highest recent)\<rparr>)"

definition fvg_at :: "frame \<Rightarrow> string \<Rightarrow> nat \<Rightarrow> entry_zone option" where
  "fvg_at f direction i =
     (let b = f ! i; b2 = f ! (i - 2) in
      if direction = ''BULLISH'' \<and> br_high b2 < br_low b then Some (zone_found f direction (br_high b2) (br_low b) i (i + 1))
      else if direction = ''BEARISH'' \<and> br_high b < br_low b2 then Some (zone_found f direction (br_high b) (br_low b2) i (i + 1))
      else None)"

definition detect_fvg :: "nat \<Rightarrow> frame \<Rightarrow> string \<Rightarrow> entry_zone" where
  "detect_fvg search_bars f direction =
     (case first_some (fvg_at f direction) (rev [max 2 (length f - search_bars) ..< length f]) of
        Some z \<Rightarrow> z
      | None \<Rightarrow> no_zone direction)"

record block_search =
  bs_search_bars :: nat
  bs_displacement_atr :: pyfloat

definition order_block_at :: "block_search \<Rightarrow> frame \<Rightarrow> string \<Rightarrow> pyfloat \<Rightarrow> nat \<Rightarrow> entry_zone option" where
  "order_block_at p f direction atr i =
     (let candle = f ! i; next_candle = f ! (i + 1);
          body = \<bar>f_sub (br_close next_candle) (br_open next_candle)\<bar>;
          bullish = (direction = ''BULLISH'' \<and> br_close candle < br_open candle);
          bearish = (direction = ''BEARISH'' \<and> br_open candle < br_close candle) in
      if body < f_mul atr (bs_displacement_atr p) then None
      else if \<not> bullish \<and> \<not> bearish then None
      else Some (zone_found f direction (br_low candle) (br_high candle) i (i + 2)))"

definition detect_order_block :: "block_search \<Rightarrow> frame \<Rightarrow> string \<Rightarrow> pyfloat \<Rightarrow> entry_zone" where
  "detect_order_block p f direction atr =
     (case first_some (order_block_at p f direction atr) (rev [max 1 (length f - bs_search_bars p) ..< length f - 1]) of
        Some z \<Rightarrow> z
      | None \<Rightarrow> no_zone direction)"

section \<open>Stops and targets\<close>

record trade_plan =
  pl_stop_price :: pyfloat
  pl_tp1_price :: pyfloat
  pl_final_target :: pyfloat
  pl_risk_distance :: pyfloat
  pl_partial_close_fraction :: pyfloat
  pl_move_to_breakeven_at_r :: pyfloat
  pl_trailing_enabled :: bool

record trade_manager =
  tm_minimum_atr_stop :: pyfloat
  tm_final_target_r :: pyfloat
  tm_partial_close_fraction :: pyfloat
  tm_trailing_enabled :: bool

definition default_trade_manager :: trade_manager where
  "default_trade_manager = \<lparr>tm_minimum_atr_stop = 1, tm_final_target_r = 2, tm_partial_close_fraction = flt (1 / 2),
     tm_trailing_enabled = False\<rparr>"

definition create_plan ::
  "trade_manager \<Rightarrow> string \<Rightarrow> pyfloat \<Rightarrow> pyfloat \<Rightarrow> pyfloat \<Rightarrow> pyfloat \<Rightarrow> pyfloat option \<Rightarrow> trade_plan" where
  "create_plan m direction entry atr sweep_extreme zone_edge next_liquidity =
     (let buffer = f_mul atr (flt (1 / 10));
          (stop, risk, target, tp1) =
            (if direction = ''BULLISH'' then
               let structural_stop = f_sub (min sweep_extreme zone_edge) buffer;
                   stop = min structural_stop (f_sub entry (f_mul atr (tm_minimum_atr_stop m)));
                   risk = f_sub entry stop;
                   target_by_r = f_add entry (f_mul risk (tm_final_target_r m))
               in (stop, risk,
                   (case next_liquidity of
                      None \<Rightarrow> target_by_r
                    | Some l \<Rightarrow> if l \<noteq> 0 \<and> entry < l then min target_by_r l else target_by_r),
                   f_add entry risk)
             else
               let structural_stop = f_add (max sweep_extreme zone_edge) buffer;
                   stop = max structural_stop (f_add entry (f_mul atr (tm_minimum_atr_stop m)));
                   risk = f_sub stop entry;
                   target_by_r = f_sub entry (f_mul risk (tm_final_target_r m))
               in (stop, risk,
                   (case next_liquidity of
                      None \<Rightarrow> target_by_r
                    | Some l \<Rightarrow> if l \<noteq> 0 \<and> l < entry then max target_by_r l else target_by_r),
                   f_sub entry risk))
      in \<lparr>pl_stop_price = stop, pl_tp1_price = tp1, pl_final_target = target, pl_risk_distance = risk,
          pl_partial_close_fraction = tm_partial_close_fraction m, pl_move_to_breakeven_at_r = 1,
          pl_trailing_enabled = tm_trailing_enabled m\<rparr>)"

section \<open>The confirming model\<close>

text \<open>An approved model with what it predicts for the last bar of a frame.\<close>

record approved_model =
  aq_probability_up :: "frame \<Rightarrow> pyfloat"
  aq_minimum_probability :: pyfloat

datatype permission_error = PermissionError string

text \<open>\<open>approved\<close> is what the metadata says, None when it says nothing.\<close>

definition new_approved_model ::
  "bool option \<Rightarrow> (frame \<Rightarrow> pyfloat) \<Rightarrow> pyfloat \<Rightarrow> permission_error + approved_model" where
  "new_approved_model approved predict minimum_probability =
     (if \<not> or_default approved False
      then Inl (PermissionError ''Rejected or unapproved ML model cannot confirm demo/live trades'')
      else Inr \<lparr>aq_probability_up = predict, aq_minimum_probability = minimum_probability\<rparr>)"

definition confirm :: "approved_model \<Rightarrow> frame \<Rightarrow> string \<Rightarrow> bool \<times> pyfloat \<times> string" where
  "confirm m f direction =
     (let p = aq_probability_up m f;
          accepted = (if direction = ''BULLISH'' then aq_minimum_probability m \<le> p
                      else p \<le> f_sub 1 (aq_minimum_probability m))
      in (accepted, p, if accepted then ''ml_confirmed'' else ''ml_rejected_setup''))"

section \<open>Approval for live trading\<close>

record validation_report =
  vl_approved_for_live :: bool
  vl_checks :: "(string \<times> bool) list"
  vl_failures :: "string list"

record strategy_report =
  sp_profit_factor :: pyfloat
  sp_max_drawdown :: pyfloat
  sp_walk_forward_returns :: "pyfloat list"
  sp_trade_count :: int
  sp_pair_profit_shares :: "(string, pyfloat) dict"
  sp_oos_positive :: bool
  sp_includes_costs :: bool
  sp_includes_session_filter :: bool
  sp_includes_news_filter :: bool

definition validate_strategy :: "strategy_report \<Rightarrow> validation_report" where
  "validate_strategy r =
     (let checks =
        [(''profit_factor_above_1_25'', flt (5 / 4) < sp_profit_factor r),
         (''max_drawdown_below_15_pct'', sp_max_drawdown r < flt (3 / 20)),
         (''three_positive_walk_forward_windows'', 3 \<le> length (filter (\<lambda>v. 0 < v) (sp_walk_forward_returns r))),
         (''minimum_200_trades'', 200 \<le> sp_trade_count r),
         (''pair_diversification'',
            sp_pair_profit_shares r \<noteq> [] \<and> Max (set (map snd (sp_pair_profit_shares r))) \<le> flt (3 / 5)),
         (''positive_out_of_sample'', sp_oos_positive r),
         (''spread_and_slippage_included'', sp_includes_costs r),
         (''session_filter_included'', sp_includes_session_filter r),
         (''news_filter_included'', sp_includes_news_filter r)];
        failures = map fst (filter (\<lambda>(name, passed). \<not> passed) checks)
      in \<lparr>vl_approved_for_live = (failures = []), vl_checks = checks, vl_failures = failures\<rparr>)"

section \<open>What the gates let through\<close>

text \<open>
  Claim: a news filter that could be built for live trading fails closed: without a calendar it
  allows nothing.  Any filter allows a trade with a calendar exactly when no high-impact event of
  one of the two currencies lies within the window, and evaluating it never changes its mode.
\<close>

theorem news_filter_guards:
  assumes "new_news_filter w mode em fc = Inr f"
  shows "(py_upper em = ''LIVE'' \<longrightarrow> \<not> nv_allowed (fst (evaluate_news now f pair ts None))) \<and>
    (nv_allowed (fst (evaluate_news now f pair ts (Some es))) \<longleftrightarrow> (\<forall>e \<in> set es. \<not> blocks_pair f pair (or_default ts now) e)) \<and>
    nf_mode (snd (evaluate_news now f pair ts events)) = nf_mode f"
proof -
  have live: "py_upper em = ''LIVE'' \<Longrightarrow> nf_mode f = FAIL_CLOSED"
    using assms by (auto simp: new_news_filter_def bindE_Inr_iff validate_mode_def Let_def split: if_splits)
  have found: "(case find P es of None \<Rightarrow> True | Some e \<Rightarrow> False) \<longleftrightarrow> (\<forall>e \<in> set es. \<not> P e)" for P :: "news_event \<Rightarrow> bool"
    by (simp add: find_None_iff split: option.splits) (metis find_Some_iff nth_mem option.distinct(1) find_None_iff)
  show ?thesis
    using live found[of "blocks_pair f pair (or_default ts now)"]
    by (auto simp: evaluate_news_def split: option.splits)
qed

lemma news_filter_guards_witness:
  "\<exists>f. new_news_filter 30 (Inr ''FAIL_CLOSED'') ''live'' None = Inr f \<and> \<not> nv_allowed (fst (evaluate_news 0 f ''EURUSD'' None None))"
proof -
  let ?f = "\<lparr>nf_window = minutes 30, nf_mode = FAIL_CLOSED, nf_execution_mode = ''LIVE'', nf_warned_unavailable = False\<rparr>"
  have "py_upper ''live'' = ''LIVE''" by code_simp
  then have f: "new_news_filter 30 (Inr ''FAIL_CLOSED'') ''live'' None = Inr ?f"
    by (simp add: new_news_filter_def news_mode_of_text_def validate_mode_def)
  from news_filter_guards[OF f, of 0 "''EURUSD''" None] \<open>py_upper ''live'' = ''LIVE''\<close> f show ?thesis by blast
qed

lemma f_steps:
  "is_flt x \<Longrightarrow> 0 \<le> y \<Longrightarrow> f_sub x y \<le> x"
  "is_flt x \<Longrightarrow> 0 \<le> y \<Longrightarrow> x \<le> f_add x y"
  "0 \<le> x \<Longrightarrow> 0 \<le> y \<Longrightarrow> 0 \<le> f_mul x y"
  "y \<le> x \<Longrightarrow> 0 \<le> f_sub x y"
  by (simp_all add: f_sub_def f_add_def f_mul_def is_flt_def flt.rnd_diff_le flt.rnd_add_ge)

lemma long_plan:
  assumes f: "is_flt entry" "is_flt extreme" "is_flt edge" and p: "0 \<le> atr" "0 \<le> tm_minimum_atr_stop m" "0 \<le> tm_final_target_r m"
    and d: "p = create_plan m ''BULLISH'' entry atr extreme edge liquidity"
  shows "pl_stop_price p \<le> entry \<and> pl_stop_price p \<le> extreme \<and> pl_stop_price p \<le> edge \<and>
      entry \<le> pl_tp1_price p \<and> entry \<le> pl_final_target p \<and>
      pl_final_target p \<le> f_add entry (f_mul (pl_risk_distance p) (tm_final_target_r m))"
proof -
  have buffer: "0 \<le> f_mul atr (flt (1 / 10))" and dist: "0 \<le> f_mul atr (tm_minimum_atr_stop m)"
    using p by (simp_all add: f_steps)
  have "is_flt (min extreme edge)" using f by (simp add: min_def)
  note structural = f_steps(1)[OF this buffer] and near = f_steps(1)[OF f(1) dist]
  define stop where "stop = min (f_sub (min extreme edge) (f_mul atr (flt (1 / 10)))) (f_sub entry (f_mul atr (tm_minimum_atr_stop m)))"
  have stop: "stop \<le> entry" "stop \<le> extreme" "stop \<le> edge" using structural near by (auto simp: stop_def)
  then have risk: "0 \<le> f_sub entry stop" by (simp add: f_steps)
  have "0 \<le> f_mul (f_sub entry stop) (tm_final_target_r m)" using risk p by (simp add: f_steps)
  then have "entry \<le> f_add entry (f_mul (f_sub entry stop) (tm_final_target_r m))" by (rule f_steps(2)[OF f(1)])
  then show ?thesis
    using stop f_steps(2)[OF f(1) risk] by (simp add: d create_plan_def Let_def stop_def [symmetric] split: option.splits)
qed

lemma short_plan:
  assumes f: "is_flt entry" "is_flt extreme" "is_flt edge" and p: "0 \<le> atr" "0 \<le> tm_minimum_atr_stop m" "0 \<le> tm_final_target_r m"
    and d: "p = create_plan m direction entry atr extreme edge liquidity" "direction \<noteq> ''BULLISH''"
  shows "entry \<le> pl_stop_price p \<and> extreme \<le> pl_stop_price p \<and> edge \<le> pl_stop_price p \<and>
      pl_tp1_price p \<le> entry \<and> pl_final_target p \<le> entry \<and>
      f_sub entry (f_mul (pl_risk_distance p) (tm_final_target_r m)) \<le> pl_final_target p"
proof -
  have buffer: "0 \<le> f_mul atr (flt (1 / 10))" and dist: "0 \<le> f_mul atr (tm_minimum_atr_stop m)"
    using p by (simp_all add: f_steps)
  have "is_flt (max extreme edge)" using f by (simp add: max_def)
  note structural = f_steps(2)[OF this buffer] and near = f_steps(2)[OF f(1) dist]
  define stop where "stop = max (f_add (max extreme edge) (f_mul atr (flt (1 / 10)))) (f_add entry (f_mul atr (tm_minimum_atr_stop m)))"
  have stop: "entry \<le> stop" "extreme \<le> stop" "edge \<le> stop" using structural near by (auto simp: stop_def)
  then have risk: "0 \<le> f_sub stop entry" by (simp add: f_steps)
  have "0 \<le> f_mul (f_sub stop entry) (tm_final_target_r m)" using risk p by (simp add: f_steps)
  then have "f_sub entry (f_mul (f_sub stop entry) (tm_final_target_r m)) \<le> entry" by (rule f_steps(1)[OF f(1)])
  then show ?thesis
    using stop f_steps(1)[OF f(1) risk] d(2) by (simp add: d create_plan_def Let_def stop_def [symmetric] split: option.splits)
qed

text \<open>
  Claim: the plan of a trade is in order: the stop of a long trade is at or below the entry, the
  extreme of the sweep and the edge of the zone, the first target and the final target are at or
  above the entry and the final target is not beyond the one by multiples of the risk; a short trade
  mirrors it.
\<close>

theorem plan_is_ordered:
  assumes "is_flt entry" "is_flt extreme" "is_flt edge" "0 \<le> atr" "0 \<le> tm_minimum_atr_stop m" "0 \<le> tm_final_target_r m"
    and p: "p = create_plan m ''BULLISH'' entry atr extreme edge liquidity"
    and q: "q = create_plan m ''BEARISH'' entry atr extreme edge liquidity"
  shows "(pl_stop_price p \<le> entry \<and> pl_stop_price p \<le> extreme \<and> pl_stop_price p \<le> edge \<and>
      entry \<le> pl_tp1_price p \<and> entry \<le> pl_final_target p \<and>
      pl_final_target p \<le> f_add entry (f_mul (pl_risk_distance p) (tm_final_target_r m))) \<and>
    (entry \<le> pl_stop_price q \<and> extreme \<le> pl_stop_price q \<and> edge \<le> pl_stop_price q \<and>
      pl_tp1_price q \<le> entry \<and> pl_final_target q \<le> entry \<and>
      f_sub entry (f_mul (pl_risk_distance q) (tm_final_target_r m)) \<le> pl_final_target q)"
  using long_plan[OF assms(1-6) p] short_plan[OF assms(1-6) q] by simp

lemma plan_is_ordered_witness:
  "pl_stop_price (create_plan default_trade_manager ''BULLISH'' 100 1 99 98 None) \<le> 98 \<and>
   102 \<le> pl_stop_price (create_plan default_trade_manager ''BEARISH'' 100 1 99 102 None)"
proof -
  have f: "is_flt 100" "is_flt 99" "is_flt 98" "is_flt 102" by (simp_all add: is_flt_def) code_simp+
  have m: "0 \<le> tm_minimum_atr_stop default_trade_manager" "0 \<le> tm_final_target_r default_trade_manager"
    by (simp_all add: default_trade_manager_def)
  show ?thesis
    using plan_is_ordered[OF f(1,2,3) _ m refl refl, of 1 None] plan_is_ordered[OF f(1,2,4) _ m refl refl, of 1 None] by simp
qed

text \<open>With a pool of liquidity nearer than the risk the final target lies before the first one.\<close>

theorem final_target_may_precede_first:
  "let p = create_plan default_trade_manager ''BULLISH'' 100 2 99 99 (Some 101) in
   pl_final_target p < pl_tp1_price p"
  by code_simp

text \<open>What a sweep and a break of the structure show.\<close>

lemma detect_sweep_long:
  assumes "s = detect_sweep p f ''BULLISH''" "sw_detected s"
  shows "\<exists>i. length f - sb_search_bars p \<le> i \<and> i < length f \<and> sb_liquidity_lookback p \<le> i \<and>
     sw_bar_index s = Some i \<and> sw_extreme s = Some (br_low (f ! i)) \<and>
     br_low (f ! i) < lowest (bars_before (sb_liquidity_lookback p) i f) \<and>
     lowest (bars_before (sb_liquidity_lookback p) i f) < br_close (f ! i)"
proof -
  obtain t where n: "sb_liquidity_lookback p + sb_search_bars p \<le> length f"
    and t: "first_some (sweep_at p f ''BULLISH'') [length f - sb_search_bars p ..< length f] = Some t" "s = t"
    using assms by (auto simp: detect_sweep_def no_sweep_def split: if_splits option.splits)
  from first_some_Some[OF t(1)] obtain i where i: "i \<in> set [length f - sb_search_bars p ..< length f]"
    "sweep_at p f ''BULLISH'' i = Some t" by blast
  then show ?thesis using n t(2) by (auto simp: sweep_at_def Let_def split: if_splits intro!: exI[of _ i])
qed

lemma detect_sweep_short:
  assumes "s = detect_sweep p f ''BEARISH''" "sw_detected s"
  shows "\<exists>i. length f - sb_search_bars p \<le> i \<and> i < length f \<and> sb_liquidity_lookback p \<le> i \<and>
     sw_bar_index s = Some i \<and> sw_extreme s = Some (br_high (f ! i)) \<and>
     highest (bars_before (sb_liquidity_lookback p) i f) < br_high (f ! i) \<and>
     br_close (f ! i) < highest (bars_before (sb_liquidity_lookback p) i f)"
proof -
  obtain t where n: "sb_liquidity_lookback p + sb_search_bars p \<le> length f"
    and t: "first_some (sweep_at p f ''BEARISH'') [length f - sb_search_bars p ..< length f] = Some t" "s = t"
    using assms by (auto simp: detect_sweep_def no_sweep_def split: if_splits option.splits)
  from first_some_Some[OF t(1)] obtain i where i: "i \<in> set [length f - sb_search_bars p ..< length f]"
    "sweep_at p f ''BEARISH'' i = Some t" by blast
  then show ?thesis using n t(2) by (auto simp: sweep_at_def Let_def split: if_splits intro!: exI[of _ i])
qed

lemma detect_structure_break:
  assumes "st_confirmed (detect_structure n f direction (Some a))"
  shows "\<exists>k. a < k \<and> n \<le> k \<and> k < length f \<and>
     (direction = ''BULLISH'' \<longrightarrow> highest (bars_before n k f) < br_close (f ! k)) \<and>
     (direction = ''BEARISH'' \<longrightarrow> br_close (f ! k) < lowest (bars_before n k f))"
proof -
  obtain t where t: "first_some (structure_at n f direction) [max (a + 1) n ..< length f] = Some t"
    using assms by (auto simp: detect_structure_def no_structure_def split: if_splits option.splits)
  from first_some_Some[OF this] obtain k where "k \<in> set [max (a + 1) n ..< length f]" "structure_at n f direction k = Some t" by blast
  then show ?thesis by (auto simp: structure_at_def Let_def split: if_splits intro!: exI[of _ k])
qed

text \<open>The edges of a zone are prices of the frame.\<close>

definition price_of :: "frame \<Rightarrow> pyfloat \<Rightarrow> bool" where
  "price_of f x \<longleftrightarrow> (\<exists>b \<in> set f. x = br_high b \<or> x = br_low b)"

lemma detect_fvg_prices:
  assumes "z = detect_fvg n f direction" "ez_detected z"
  shows "\<exists>lo hi. ez_lower z = Some lo \<and> ez_upper z = Some hi \<and> price_of f lo \<and> price_of f hi"
proof -
  obtain t where t: "first_some (fvg_at f direction) (rev [max 2 (length f - n) ..< length f]) = Some t" "z = t"
    using assms by (auto simp: detect_fvg_def no_zone_def split: option.splits)
  from first_some_Some[OF t(1)] obtain i where i: "i < length f" "fvg_at f direction i = Some t" by auto
  then have "f ! i \<in> set f" "f ! (i - 2) \<in> set f" by simp_all
  then show ?thesis using i(2) t(2) by (auto simp: fvg_at_def zone_found_def Let_def price_of_def split: if_splits)
qed

lemma detect_order_block_prices:
  assumes "z = detect_order_block p f direction atr" "ez_detected z"
  shows "\<exists>lo hi. ez_lower z = Some lo \<and> ez_upper z = Some hi \<and> price_of f lo \<and> price_of f hi"
proof -
  obtain t where t: "first_some (order_block_at p f direction atr) (rev [max 1 (length f - bs_search_bars p) ..< length f - 1]) = Some t" "z = t"
    using assms by (auto simp: detect_order_block_def no_zone_def split: option.splits)
  from first_some_Some[OF t(1)] obtain i where i: "i < length f - 1" "order_block_at p f direction atr i = Some t" by auto
  then have "f ! i \<in> set f" by simp
  then show ?thesis using i(2) t(2) by (auto simp: order_block_at_def zone_found_def Let_def price_of_def split: if_splits)
qed

end
