(* ===== verification/Professional_Strategy.thy ===== *)
theory Professional_Strategy
  imports Professional_Setup
begin

text \<open>
  The professional strategy, \<open>src/strategy/professional/professional_ict_strategy.py\<close>: one evaluation
  passes the gates of \<open>Professional_Setup\<close> in the order of the code and stops at the first that
  refuses.  A ratio to a range of zero is infinite and None here.  The confirming model is an
  optional function that may raise.  A row of an empty frame raises IndexError.
\<close>

section \<open>State\<close>

record strategy_config =
  sc_risk_per_trade :: pyfloat
  sc_max_spread_atr_ratio :: pyfloat
  sc_min_atr_pct :: pyfloat
  sc_max_atr_pct :: pyfloat
  sc_minimum_bars_5m :: nat
  sc_require_ml_confirmation :: bool
  sc_minimum_ml_probability :: pyfloat
  sc_confidence :: int
  sc_execution_mode :: string
  sc_news_filter_mode :: string

definition default_strategy_config :: strategy_config where
  "default_strategy_config = \<lparr>sc_risk_per_trade = flt (1 / 500), sc_max_spread_atr_ratio = flt (1 / 5),
     sc_min_atr_pct = flt (1 / 5000), sc_max_atr_pct = flt (3 / 1000), sc_minimum_bars_5m = 80,
     sc_require_ml_confirmation = False, sc_minimum_ml_probability = flt (29 / 50), sc_confidence = 75,
     sc_execution_mode = ''DEMO'', sc_news_filter_mode = ''FAIL_CLOSED''\<rparr>"

text \<open>An infinite ratio.\<close>

datatype ratio = Finite pyfloat | Infinite

record strategy_decision =
  sd_action :: string
  sd_reason :: fmsg
  sd_pair :: string
  sd_direction :: string
  sd_entry_price :: "pyfloat option"
  sd_stop_price :: "pyfloat option"
  sd_tp1_price :: "pyfloat option"
  sd_target_price :: "pyfloat option"
  sd_risk_distance :: "pyfloat option"
  sd_risk_per_trade :: pyfloat
  sd_spread_atr_ratio :: "ratio option"
  sd_session :: string
  sd_news_status :: string
  sd_trend_bias :: string
  sd_trend_timeframe :: string
  sd_liquidity_sweep :: bool
  sd_structure_event :: string
  sd_zone_type :: string
  sd_zone_lower :: "pyfloat option"
  sd_zone_upper :: "pyfloat option"
  sd_ml_probability :: "pyfloat option"
  sd_partial_close_fraction :: pyfloat
  sd_trailing_enabled :: bool
  sd_diagnostics :: "(string, farg) dict"

definition strategy_decision_init :: "string \<Rightarrow> pyfloat \<Rightarrow> strategy_decision" where
  "strategy_decision_init pair risk_per_trade =
     \<lparr>sd_action = ''SKIP'', sd_reason = FMsg '''' [], sd_pair = pair, sd_direction = '''', sd_entry_price = None,
      sd_stop_price = None, sd_tp1_price = None, sd_target_price = None, sd_risk_distance = None,
      sd_risk_per_trade = risk_per_trade, sd_spread_atr_ratio = None, sd_session = '''', sd_news_status = '''',
      sd_trend_bias = '''', sd_trend_timeframe = '''', sd_liquidity_sweep = False, sd_structure_event = ''NONE'',
      sd_zone_type = ''NONE'', sd_zone_lower = None, sd_zone_upper = None, sd_ml_probability = None,
      sd_partial_close_fraction = flt (1 / 2), sd_trailing_enabled = False, sd_diagnostics = []\<rparr>"

definition should_trade :: "strategy_decision \<Rightarrow> bool" where
  "should_trade d \<longleftrightarrow> sd_action d \<in> {''BUY'', ''SELL''}"

record professional_strategy =
  pr_config :: strategy_config
  pr_trend :: trend_periods
  pr_sweeps :: sweep_bars
  pr_structure :: nat
  pr_fvgs :: nat
  pr_order_blocks :: block_search
  pr_news :: news_filter
  pr_trade_manager :: trade_manager
  pr_confirmation_model :: "(frame \<Rightarrow> string \<Rightarrow> py_error + bool \<times> pyfloat \<times> string) option"

text \<open>The strategy with its default parts; the mode of the news filter comes from the settings.\<close>

definition new_professional_strategy ::
  "strategy_config \<Rightarrow> (frame \<Rightarrow> string \<Rightarrow> py_error + bool \<times> pyfloat \<times> string) option \<Rightarrow> py_error + professional_strategy" where
  "new_professional_strategy config model =
     bindE (new_news_filter 30 (Inr (sc_news_filter_mode config)) (sc_execution_mode config) None) (\<lambda>news.
     Inr \<lparr>pr_config = config, pr_trend = \<lparr>tp_fast = 20, tp_slow = 50\<rparr>,
          pr_sweeps = \<lparr>sb_liquidity_lookback = 3, sb_search_bars = 4\<rparr>, pr_structure = 2, pr_fvgs = 3,
          pr_order_blocks = \<lparr>bs_search_bars = 20, bs_displacement_atr = 1\<rparr>, pr_news = news,
          pr_trade_manager = default_trade_manager, pr_confirmation_model = model\<rparr>)"

section \<open>Ranges, candles and liquidity\<close>

text \<open>The first bar has no close before it, which the maximum ignores.\<close>

definition true_ranges :: "frame \<Rightarrow> pyfloat list" where
  "true_ranges f =
     (case f of
        [] \<Rightarrow> []
      | b # bs \<Rightarrow> f_sub (br_high b) (br_low b) #
          map (\<lambda>(prev, c). max (f_sub (br_high c) (br_low c))
                 (max \<bar>f_sub (br_high c) (br_close prev)\<bar> \<bar>f_sub (br_low c) (br_close prev)\<bar>)) (zip f bs))"

definition atr_of :: "frame_env \<Rightarrow> frame \<Rightarrow> pyfloat" where
  "atr_of env f = List.last (fe_ewm env (Alpha (flt (1 / 14))) (true_ranges f))"

definition normal_volatility :: "frame_env \<Rightarrow> frame \<Rightarrow> pyfloat \<Rightarrow> bool" where
  "normal_volatility env f atr =
     (let history = take_last 100 (fe_ewm env (Alpha (flt (1 / 14))) (true_ranges f)) in
      if length history < 30 then False
      else case fe_quantiles env history of (lower, upper) \<Rightarrow> lower \<le> atr \<and> atr \<le> upper)"

definition confirmation_candle :: "frame \<Rightarrow> string \<Rightarrow> pyfloat \<Rightarrow> pyfloat \<Rightarrow> bool" where
  "confirmation_candle f direction zone_lower zone_upper =
     (let current = List.last f; touched = (br_low current \<le> zone_upper \<and> zone_lower \<le> br_high current) in
      if direction = ''BULLISH'' then touched \<and> br_open current < br_close current
      else touched \<and> br_close current < br_open current)"

definition next_liquidity :: "frame \<Rightarrow> string \<Rightarrow> pyfloat \<Rightarrow> pyfloat option" where
  "next_liquidity f direction entry =
     (let recent = take_last 50 f in
      if direction = ''BULLISH'' then
        (let candidates = filter (\<lambda>x. entry < x) (map br_high recent)
         in if candidates = [] then None else Some (Max (set candidates)))
      else
        (let candidates = filter (\<lambda>x. x < entry) (map br_low recent)
         in if candidates = [] then None else Some (Min (set candidates))))"

section \<open>The evaluation\<close>

definition text_reason :: "string \<Rightarrow> fmsg" where
  "text_reason s = FMsg s []"

definition skip :: "strategy_decision \<Rightarrow> fmsg \<Rightarrow> strategy_decision" where
  "skip d reason = d\<lparr>sd_action := ''SKIP'', sd_reason := reason\<rparr>"

definition diagnose :: "string \<Rightarrow> farg \<Rightarrow> strategy_decision \<Rightarrow> strategy_decision" where
  "diagnose k x d = d\<lparr>sd_diagnostics := AList.update k x (sd_diagnostics d)\<rparr>"

text \<open>The spread must be small against the range, the range within its bounds and not unusual.\<close>

definition volatility_refusal ::
  "frame_env \<Rightarrow> strategy_config \<Rightarrow> frame \<Rightarrow> pyfloat \<Rightarrow> pyfloat \<Rightarrow> ratio \<Rightarrow> string option" where
  "volatility_refusal env cfg five_minute atr atr_pct spread_atr =
     (if \<not> (sc_min_atr_pct cfg \<le> atr_pct \<and> atr_pct \<le> sc_max_atr_pct cfg) then Some ''abnormal_atr_regime''
      else if (case spread_atr of Infinite \<Rightarrow> True | Finite x \<Rightarrow> sc_max_spread_atr_ratio cfg < x)
      then Some ''spread_too_large_relative_to_atr''
      else if \<not> normal_volatility env five_minute atr then Some ''abnormal_volatility_regime''
      else None)"

text \<open>The zone entered: a gap before an order block.\<close>

definition entry_zone_of :: "professional_strategy \<Rightarrow> frame \<Rightarrow> string \<Rightarrow> pyfloat \<Rightarrow> (string \<times> entry_zone) option" where
  "entry_zone_of st five_minute direction atr =
     (let fvg = detect_fvg (pr_fvgs st) five_minute direction;
          order_block = detect_order_block (pr_order_blocks st) five_minute direction atr in
      if ez_detected fvg \<and> ez_retraced fvg then Some (''FVG'', fvg)
      else if ez_detected order_block \<and> ez_retraced order_block then Some (''ORDER_BLOCK'', order_block)
      else None)"

text \<open>The model is asked when the settings require it: None lets the trade pass.\<close>

definition ask_model ::
  "professional_strategy \<Rightarrow> frame \<Rightarrow> strategy_decision \<Rightarrow> py_error + strategy_decision \<times> fmsg option" where
  "ask_model st five_minute d =
     (if \<not> sc_require_ml_confirmation (pr_config st) then Inr (d, None)
      else case pr_confirmation_model st of
        None \<Rightarrow> Inr (d, Some (text_reason ''approved_ml_confirmation_unavailable''))
      | Some model \<Rightarrow>
          bindE (model five_minute (sd_direction d)) (\<lambda>(accepted, probability, reason).
          let d' = diagnose ''ml_reason'' (FStr reason) (d\<lparr>sd_ml_probability := Some probability\<rparr>)
          in Inr (d', if accepted then None else Some (FMsg ''{}'' [FStr reason]))))"

definition plan_trade ::
  "professional_strategy \<Rightarrow> frame \<Rightarrow> frame \<Rightarrow> pyfloat \<Rightarrow> pyfloat \<Rightarrow> pyfloat \<Rightarrow> pyfloat \<Rightarrow> strategy_decision \<Rightarrow> strategy_decision" where
  "plan_trade st five_minute confirmation_frame atr extreme zone_lower zone_upper d =
     (let direction = sd_direction d;
          entry = br_close (List.last confirmation_frame);
          plan = create_plan (pr_trade_manager st) direction entry atr extreme
                   (if direction = ''BULLISH'' then zone_lower else zone_upper) (next_liquidity five_minute direction entry) in
      if pl_risk_distance plan \<le> 0 then skip d (text_reason ''invalid_stop_distance'')
      else d\<lparr>sd_action := (if direction = ''BULLISH'' then ''BUY'' else ''SELL''),
             sd_reason := text_reason ''all_professional_strategy_gates_passed'',
             sd_entry_price := Some entry, sd_stop_price := Some (pl_stop_price plan), sd_tp1_price := Some (pl_tp1_price plan),
             sd_target_price := Some (pl_final_target plan), sd_risk_distance := Some (pl_risk_distance plan),
             sd_partial_close_fraction := pl_partial_close_fraction plan, sd_trailing_enabled := pl_trailing_enabled plan\<rparr>)"

text \<open>From the zone on.\<close>

definition enter_zone ::
  "professional_strategy \<Rightarrow> frame \<Rightarrow> frame \<Rightarrow> pyfloat \<Rightarrow> pyfloat \<Rightarrow> strategy_decision \<Rightarrow> py_error + strategy_decision" where
  "enter_zone st one_minute five_minute atr extreme d =
     (case entry_zone_of st five_minute (sd_direction d) atr of
        None \<Rightarrow> Inr (skip d (text_reason ''no_retraced_fvg_or_order_block''))
      | Some (zone_type, z) \<Rightarrow>
          let d = d\<lparr>sd_zone_type := zone_type, sd_zone_lower := ez_lower z, sd_zone_upper := ez_upper z\<rparr> in
          case (ez_lower z, ez_upper z) of
            (Some lower, Some upper) \<Rightarrow>
              let confirmation_frame = (if 2 \<le> length one_minute then one_minute else five_minute) in
              if \<not> confirmation_candle confirmation_frame (sd_direction d) lower upper
              then Inr (skip d (text_reason ''missing_confirmation_candle_from_zone''))
              else bindE (ask_model st five_minute d) (\<lambda>(d, refusal).
                case refusal of
                  Some reason \<Rightarrow> Inr (skip d reason)
                | None \<Rightarrow> Inr (plan_trade st five_minute confirmation_frame atr extreme lower upper d))
          | _ \<Rightarrow> Inr (skip d (text_reason ''invalid_entry_zone'')))"

text \<open>From the sweep on.\<close>

definition take_setup ::
  "professional_strategy \<Rightarrow> frame \<Rightarrow> frame \<Rightarrow> pyfloat \<Rightarrow> strategy_decision \<Rightarrow> py_error + strategy_decision" where
  "take_setup st one_minute five_minute atr d =
     (let sweep = detect_sweep (pr_sweeps st) five_minute (sd_direction d);
          d = diagnose ''sweep_reason'' (FStr (sw_reason sweep)) (d\<lparr>sd_liquidity_sweep := sw_detected sweep\<rparr>) in
      if \<not> sw_detected sweep then Inr (skip d (text_reason (sw_reason sweep)))
      else case sw_extreme sweep of
        None \<Rightarrow> Inr (skip d (text_reason (sw_reason sweep)))
      | Some extreme \<Rightarrow>
          let structure = detect_structure (pr_structure st) five_minute (sd_direction d) (sw_bar_index sweep);
              d = diagnose ''structure_reason'' (FStr (st_reason structure)) (d\<lparr>sd_structure_event := st_event structure\<rparr>) in
          if \<not> st_confirmed structure then Inr (skip d (text_reason (st_reason structure)))
          else enter_zone st one_minute five_minute atr extreme d)"

text \<open>From the range on.\<close>

definition evaluate_setup ::
  "frame_env \<Rightarrow> professional_strategy \<Rightarrow> frame \<Rightarrow> frame \<Rightarrow> pyfloat \<Rightarrow> strategy_decision \<Rightarrow> py_error + strategy_decision" where
  "evaluate_setup env st one_minute five_minute spread d =
     (let atr = atr_of env five_minute; current = br_close (List.last five_minute);
          atr_pct = (if current = 0 then 0 else f_quot atr current);
          spread_atr = (if atr = 0 then Infinite else Finite (f_quot spread atr));
          d = diagnose ''atr_pct'' (FNum atr_pct) (diagnose ''atr'' (FNum atr) (d\<lparr>sd_spread_atr_ratio := Some spread_atr\<rparr>)) in
      case volatility_refusal env (pr_config st) five_minute atr atr_pct spread_atr of
        Some reason \<Rightarrow> Inr (skip d (text_reason reason))
      | None \<Rightarrow> take_setup st one_minute five_minute atr d)"

text \<open>The whole; the filter of the news may note that it warned.\<close>

record frames =
  fr_one_minute :: frame
  fr_five_minute :: frame
  fr_one_hour :: frame
  fr_four_hour :: frame

definition evaluate_professional ::
  "frame_env \<Rightarrow> micros \<Rightarrow> string \<Rightarrow> frames \<Rightarrow> pyfloat \<Rightarrow> micros \<Rightarrow> news_event list option \<Rightarrow> professional_strategy \<Rightarrow>
   (py_error + strategy_decision) \<times> professional_strategy" where
  "evaluate_professional env now pair fr spread timestamp events st =
     (let d = strategy_decision_init pair (sc_risk_per_trade (pr_config st)) in
      if length (fr_five_minute fr) < sc_minimum_bars_5m (pr_config st)
      then (Inr (skip d (text_reason ''insufficient_5m_history'')), st)
      else let session = evaluate_session now (Some timestamp); d = d\<lparr>sd_session := ss_session session\<rparr> in
        if \<not> ss_allowed session then (Inr (skip d (text_reason (ss_reason session))), st)
        else case evaluate_news now (pr_news st) pair (Some timestamp) events of (news, filter') \<Rightarrow>
          let st = st\<lparr>pr_news := filter'\<rparr>; d = d\<lparr>sd_news_status := nv_reason news\<rparr> in
          if \<not> nv_allowed news then (Inr (skip d (text_reason (nv_reason news))), st)
          else let bias = detect_trend env (pr_trend st) (fr_four_hour fr) (fr_one_hour fr);
                   d = d\<lparr>sd_trend_bias := tb_direction bias, sd_trend_timeframe := tb_timeframe bias\<rparr> in
            if tb_direction bias = ''NEUTRAL'' then (Inr (skip d (tb_reason bias)), st)
            else if fr_five_minute fr = [] then (Inl (IndexError ''single positional indexer is out-of-bounds''), st)
            else (evaluate_setup env st (fr_one_minute fr) (fr_five_minute fr) spread (d\<lparr>sd_direction := tb_direction bias\<rparr>), st))"

section \<open>What a trade shows\<close>

lemma diagnose_simps [simp]:
  "sd_action (diagnose k x d) = sd_action d" "sd_direction (diagnose k x d) = sd_direction d"
  "sd_zone_lower (diagnose k x d) = sd_zone_lower d" "sd_zone_upper (diagnose k x d) = sd_zone_upper d"
  "sd_diagnostics (diagnose k x d) = AList.update k x (sd_diagnostics d)"
  by (simp_all add: diagnose_def)

lemma skip_never_trades [simp]: "\<not> should_trade (skip d reason)"
  by (simp add: should_trade_def skip_def)

text \<open>The gates after the trend, when the decision is to trade.\<close>

definition model_agrees :: "professional_strategy \<Rightarrow> frame \<Rightarrow> string \<Rightarrow> bool" where
  "model_agrees st f direction \<longleftrightarrow>
     (sc_require_ml_confirmation (pr_config st) \<longrightarrow>
       (\<exists>model p reason. pr_confirmation_model st = Some model \<and> model f direction = Inr (True, p, reason)))"

lemma ask_model_passes:
  assumes "ask_model st f d = Inr (d', None)"
  shows "model_agrees st f (sd_direction d) \<and> sd_direction d' = sd_direction d \<and>
    sd_zone_lower d' = sd_zone_lower d \<and> sd_zone_upper d' = sd_zone_upper d"
  using assms by (auto simp: ask_model_def model_agrees_def bindE_Inr_iff Let_def split: if_splits option.splits prod.splits)

lemma enter_zone_traded:
  assumes "enter_zone st m1 m5 atr extreme d = Inr d'" "should_trade d'"
  shows "\<exists>zone_type z lower upper d0. entry_zone_of st m5 (sd_direction d) atr = Some (zone_type, z) \<and>
     ez_lower z = Some lower \<and> ez_upper z = Some upper \<and>
     confirmation_candle (if 2 \<le> length m1 then m1 else m5) (sd_direction d) lower upper \<and>
     model_agrees st m5 (sd_direction d) \<and> sd_direction d0 = sd_direction d \<and>
     sd_zone_lower d0 = Some lower \<and> sd_zone_upper d0 = Some upper \<and>
     d' = plan_trade st m5 (if 2 \<le> length m1 then m1 else m5) atr extreme lower upper d0"
proof -
  obtain zone_type z where z: "entry_zone_of st m5 (sd_direction d) atr = Some (zone_type, z)"
    using assms by (cases "entry_zone_of st m5 (sd_direction d) atr") (auto simp: enter_zone_def)
  define e where "e = d\<lparr>sd_zone_type := zone_type, sd_zone_lower := ez_lower z, sd_zone_upper := ez_upper z\<rparr>"
  obtain lower upper where edges: "ez_lower z = Some lower" "ez_upper z = Some upper"
    using assms z by (auto simp: enter_zone_def Let_def split: option.splits)
  define cf where "cf = (if 2 \<le> length m1 then m1 else m5)"
  have eq: "enter_zone st m1 m5 atr extreme d =
     (if \<not> confirmation_candle cf (sd_direction e) lower upper
      then Inr (skip e (text_reason ''missing_confirmation_candle_from_zone''))
      else bindE (ask_model st m5 e) (\<lambda>(d, refusal).
        case refusal of Some reason \<Rightarrow> Inr (skip d reason) | None \<Rightarrow> Inr (plan_trade st m5 cf atr extreme lower upper d)))"
    by (simp add: enter_zone_def z edges Let_def e_def cf_def)
  have candle: "confirmation_candle cf (sd_direction e) lower upper"
    using assms by (auto simp: eq split: if_splits)
  then obtain x where x: "ask_model st m5 e = Inr x"
    "(case x of (d, refusal) \<Rightarrow> (case refusal of Some reason \<Rightarrow> Inr (skip d reason) | None \<Rightarrow> Inr (plan_trade st m5 cf atr extreme lower upper d))) = (Inr d' :: py_error + _)"
    using assms(1) by (auto simp: eq bindE_Inr_iff)
  obtain d0 r where r: "x = (d0, r)" by (cases x)
  have "r = None" using x(2) assms(2) by (cases r) (auto simp: r)
  then show ?thesis using x z edges candle ask_model_passes[of st m5 e d0] by (auto simp: e_def cf_def r)
qed

lemma take_setup_traded:
  assumes "take_setup st m1 m5 atr d = Inr d'" "should_trade d'"
  shows "\<exists>d1 sweep extreme. sd_direction d1 = sd_direction d \<and>
     sweep = detect_sweep (pr_sweeps st) m5 (sd_direction d) \<and> sw_detected sweep \<and> sw_extreme sweep = Some extreme \<and>
     st_confirmed (detect_structure (pr_structure st) m5 (sd_direction d) (sw_bar_index sweep)) \<and>
     enter_zone st m1 m5 atr extreme d1 = Inr d'"
proof -
  define sweep where "sweep = detect_sweep (pr_sweeps st) m5 (sd_direction d)"
  define s where "s = detect_structure (pr_structure st) m5 (sd_direction d) (sw_bar_index sweep)"
  define d0 where "d0 = diagnose ''sweep_reason'' (FStr (sw_reason sweep)) (d\<lparr>sd_liquidity_sweep := sw_detected sweep\<rparr>)"
  define d1 where "d1 = diagnose ''structure_reason'' (FStr (st_reason s)) (d0\<lparr>sd_structure_event := st_event s\<rparr>)"
  have dir: "sd_direction d0 = sd_direction d" "sd_direction d1 = sd_direction d" by (simp_all add: d0_def d1_def)
  have "take_setup st m1 m5 atr d =
     (if \<not> sw_detected sweep then Inr (skip d0 (text_reason (sw_reason sweep)))
      else case sw_extreme sweep of
        None \<Rightarrow> Inr (skip d0 (text_reason (sw_reason sweep)))
      | Some extreme \<Rightarrow> if \<not> st_confirmed s then Inr (skip d1 (text_reason (st_reason s))) else enter_zone st m1 m5 atr extreme d1)"
    unfolding take_setup_def sweep_def [symmetric] Let_def d0_def [symmetric] dir s_def [symmetric] d1_def [symmetric] ..
  then show ?thesis
    using assms dir(2)
    by (auto simp: sweep_def [symmetric] s_def [symmetric] split: if_splits option.splits intro!: exI[of _ d1])
qed

lemma evaluate_setup_traded:
  assumes "evaluate_setup env st m1 m5 spread d = Inr d'" "should_trade d'"
  shows "\<exists>d1. sd_direction d1 = sd_direction d \<and>
     (let atr = atr_of env m5; current = br_close (List.last m5) in
      volatility_refusal env (pr_config st) m5 atr (if current = 0 then 0 else f_quot atr current)
        (if atr = 0 then Infinite else Finite (f_quot spread atr)) = None) \<and>
     take_setup st m1 m5 (atr_of env m5) d1 = Inr d'"
proof -
  define atr where "atr = atr_of env m5"
  define pct where "pct = (if br_close (List.last m5) = 0 then 0 else f_quot atr (br_close (List.last m5)))"
  define ratio where "ratio = (if atr = 0 then Infinite else Finite (f_quot spread atr))"
  define d1 where "d1 = diagnose ''atr_pct'' (FNum pct) (diagnose ''atr'' (FNum atr) (d\<lparr>sd_spread_atr_ratio := Some ratio\<rparr>))"
  have eq: "evaluate_setup env st m1 m5 spread d =
     (case volatility_refusal env (pr_config st) m5 atr pct ratio of
        Some reason \<Rightarrow> Inr (skip d1 (text_reason reason))
      | None \<Rightarrow> take_setup st m1 m5 atr d1)"
    unfolding evaluate_setup_def Let_def atr_def [symmetric] pct_def [symmetric] ratio_def [symmetric] d1_def [symmetric] ..
  have "volatility_refusal env (pr_config st) m5 atr pct ratio = None" "take_setup st m1 m5 atr d1 = Inr d'"
    using assms unfolding eq by (auto split: option.splits)
  moreover have "sd_direction d1 = sd_direction d" by (simp add: d1_def)
  ultimately show ?thesis unfolding Let_def atr_def [symmetric] pct_def [symmetric] ratio_def [symmetric] by blast
qed

text \<open>Bars of floats and a mean of what is not negative that is not negative.\<close>

definition frame_ok :: "frame \<Rightarrow> bool" where
  "frame_ok f \<longleftrightarrow> (\<forall>b \<in> set f. is_flt (br_open b) \<and> is_flt (br_high b) \<and> is_flt (br_low b) \<and> is_flt (br_close b) \<and> br_low b \<le> br_high b)"

definition mean_nonneg :: "frame_env \<Rightarrow> bool" where
  "mean_nonneg env \<longleftrightarrow> (\<forall>d xs. xs \<noteq> [] \<longrightarrow> (\<forall>x \<in> set xs. 0 \<le> x) \<longrightarrow> 0 \<le> List.last (fe_ewm env d xs))"

lemma atr_nonneg:
  assumes "mean_nonneg env" "frame_ok f" "f \<noteq> []"
  shows "0 \<le> atr_of env f"
proof -
  have "\<forall>x \<in> set (true_ranges f). 0 \<le> x"
    using assms(2) by (cases f) (auto simp: true_ranges_def frame_ok_def f_steps intro: max.coboundedI2)
  moreover have "true_ranges f \<noteq> []" using assms(3) by (cases f) (simp_all add: true_ranges_def)
  ultimately show ?thesis using assms(1) by (simp add: atr_of_def mean_nonneg_def)
qed

text \<open>A sweep of the lows (highs) at \<open>i\<close> and a close beyond the highs (lows) at a later \<open>k\<close>.\<close>

definition long_setup :: "professional_strategy \<Rightarrow> frame \<Rightarrow> nat \<Rightarrow> nat \<Rightarrow> bool" where
  "long_setup st f i k \<longleftrightarrow> length f - sb_search_bars (pr_sweeps st) \<le> i \<and> i < k \<and> k < length f \<and>
     br_low (f ! i) < lowest (bars_before (sb_liquidity_lookback (pr_sweeps st)) i f) \<and>
     lowest (bars_before (sb_liquidity_lookback (pr_sweeps st)) i f) < br_close (f ! i) \<and>
     highest (bars_before (pr_structure st) k f) < br_close (f ! k)"

definition short_setup :: "professional_strategy \<Rightarrow> frame \<Rightarrow> nat \<Rightarrow> nat \<Rightarrow> bool" where
  "short_setup st f i k \<longleftrightarrow> length f - sb_search_bars (pr_sweeps st) \<le> i \<and> i < k \<and> k < length f \<and>
     highest (bars_before (sb_liquidity_lookback (pr_sweeps st)) i f) < br_high (f ! i) \<and>
     br_close (f ! i) < highest (bars_before (sb_liquidity_lookback (pr_sweeps st)) i f) \<and>
     br_close (f ! k) < lowest (bars_before (pr_structure st) k f)"

lemma zone_prices:
  assumes "entry_zone_of st f direction atr = Some (zone_type, z)" "ez_lower z = Some lower" "ez_upper z = Some upper"
  shows "price_of f lower \<and> price_of f upper"
proof (cases "z = detect_fvg (pr_fvgs st) f direction \<and> ez_detected z")
  case True
  then show ?thesis using detect_fvg_prices[of z] assms(2,3) by fastforce
next
  case False
  then have "z = detect_order_block (pr_order_blocks st) f direction atr \<and> ez_detected z"
    using assms(1) by (auto simp: entry_zone_of_def Let_def split: if_splits)
  then show ?thesis using detect_order_block_prices[of z] assms(2,3) by fastforce
qed

lemma price_is_flt: "frame_ok f \<Longrightarrow> price_of f x \<Longrightarrow> is_flt x"
  by (auto simp: frame_ok_def price_of_def)

lemma plan_trade_traded:
  assumes "d' = plan_trade st m5 cf atr extreme lower upper d" "should_trade d'"
  shows "\<exists>plan. plan = create_plan (pr_trade_manager st) (sd_direction d) (br_close (List.last cf)) atr extreme
        (if sd_direction d = ''BULLISH'' then lower else upper) (next_liquidity m5 (sd_direction d) (br_close (List.last cf))) \<and>
     0 < pl_risk_distance plan \<and> sd_action d' = (if sd_direction d = ''BULLISH'' then ''BUY'' else ''SELL'') \<and>
     sd_entry_price d' = Some (br_close (List.last cf)) \<and> sd_stop_price d' = Some (pl_stop_price plan) \<and>
     sd_tp1_price d' = Some (pl_tp1_price plan) \<and> sd_target_price d' = Some (pl_final_target plan) \<and>
     sd_zone_lower d' = sd_zone_lower d \<and> sd_zone_upper d' = sd_zone_upper d"
  using assms by (auto simp: plan_trade_def Let_def split: if_splits)

lemma risk_sides:
  "0 < pl_risk_distance (create_plan m ''BULLISH'' entry atr extreme edge liquidity) \<Longrightarrow>
     pl_stop_price (create_plan m ''BULLISH'' entry atr extreme edge liquidity) < entry"
  "direction \<noteq> ''BULLISH'' \<Longrightarrow> 0 < pl_risk_distance (create_plan m direction entry atr extreme edge liquidity) \<Longrightarrow>
     entry < pl_stop_price (create_plan m direction entry atr extreme edge liquidity)"
  by (simp_all add: create_plan_def Let_def f_sub_def)

text \<open>What the prices of a trade are to the bar that was swept and the zone entered.\<close>

definition prices_in_order :: "strategy_decision \<Rightarrow> frame_bar \<Rightarrow> bool" where
  "prices_in_order d swept \<longleftrightarrow>
     (\<exists>entry stop tp1 target lower upper.
        sd_entry_price d = Some entry \<and> sd_stop_price d = Some stop \<and> sd_tp1_price d = Some tp1 \<and> sd_target_price d = Some target \<and>
        sd_zone_lower d = Some lower \<and> sd_zone_upper d = Some upper \<and>
        (if sd_action d = ''BUY''
         then stop < entry \<and> stop \<le> br_low swept \<and> stop \<le> lower \<and> entry \<le> tp1 \<and> entry \<le> target
         else entry < stop \<and> br_high swept \<le> stop \<and> upper \<le> stop \<and> tp1 \<le> entry \<and> target \<le> entry))"

lemma trade_prices:
  assumes d: "d = plan_trade st m5 cf atr extreme lower upper d0" "should_trade d"
    and z: "sd_zone_lower d0 = Some lower" "sd_zone_upper d0 = Some upper"
    and f: "is_flt (br_close (List.last cf))" "is_flt extreme" "is_flt lower" "is_flt upper"
    and p: "0 \<le> atr" "0 \<le> tm_minimum_atr_stop (pr_trade_manager st)" "0 \<le> tm_final_target_r (pr_trade_manager st)"
    and swept: "extreme = (if sd_direction d0 = ''BULLISH'' then br_low b else br_high b)"
  shows "prices_in_order d b \<and> sd_action d = (if sd_direction d0 = ''BULLISH'' then ''BUY'' else ''SELL'')"
proof -
  from plan_trade_traded[OF d] obtain plan where
    plan: "plan = create_plan (pr_trade_manager st) (sd_direction d0) (br_close (List.last cf)) atr extreme
        (if sd_direction d0 = ''BULLISH'' then lower else upper) (next_liquidity m5 (sd_direction d0) (br_close (List.last cf)))"
    and r: "0 < pl_risk_distance plan"
    and d': "sd_action d = (if sd_direction d0 = ''BULLISH'' then ''BUY'' else ''SELL'')"
      "sd_entry_price d = Some (br_close (List.last cf))" "sd_stop_price d = Some (pl_stop_price plan)"
      "sd_tp1_price d = Some (pl_tp1_price plan)" "sd_target_price d = Some (pl_final_target plan)"
      "sd_zone_lower d = Some lower" "sd_zone_upper d = Some upper"
    using z by auto
  show ?thesis
  proof (cases "sd_direction d0 = ''BULLISH''")
    case True
    then have plan': "plan = create_plan (pr_trade_manager st) ''BULLISH'' (br_close (List.last cf)) atr extreme lower
        (next_liquidity m5 ''BULLISH'' (br_close (List.last cf)))" using plan by simp
    show ?thesis using long_plan[OF f(1,2,3) p plan'] risk_sides(1) r True swept by (simp add: prices_in_order_def d' plan')
  next
    case False
    then have plan': "plan = create_plan (pr_trade_manager st) (sd_direction d0) (br_close (List.last cf)) atr extreme upper
        (next_liquidity m5 (sd_direction d0) (br_close (List.last cf)))" using plan by simp
    show ?thesis using short_plan[OF f(1,2,4) p plan' False] risk_sides(2)[OF False] r False swept
      by (simp add: prices_in_order_def d' plan')
  qed
qed

lemma setup_found:
  assumes "s = detect_sweep (pr_sweeps st) f direction" "sw_detected s" "sw_extreme s = Some extreme"
    and "st_confirmed (detect_structure (pr_structure st) f direction (sw_bar_index s))"
    and "direction = ''BULLISH'' \<or> direction = ''BEARISH''"
  shows "\<exists>i k. (if direction = ''BULLISH'' then long_setup st f i k else short_setup st f i k) \<and>
    extreme = (if direction = ''BULLISH'' then br_low (f ! i) else br_high (f ! i))"
proof (cases "direction = ''BULLISH''")
  case True
  from detect_sweep_long[of s "pr_sweeps st" f] assms(1,2) True obtain i where i: "sw_bar_index s = Some i"
    "length f - sb_search_bars (pr_sweeps st) \<le> i" "sw_extreme s = Some (br_low (f ! i))"
    "br_low (f ! i) < lowest (bars_before (sb_liquidity_lookback (pr_sweeps st)) i f)"
    "lowest (bars_before (sb_liquidity_lookback (pr_sweeps st)) i f) < br_close (f ! i)" by auto
  from detect_structure_break[OF assms(4)[unfolded i(1)]] True obtain k where
    "i < k" "k < length f" "highest (bars_before (pr_structure st) k f) < br_close (f ! k)" by auto
  then have "long_setup st f i k" using i by (simp add: long_setup_def)
  then show ?thesis using True i(3) assms(3) by auto
next
  case False
  then have short: "direction = ''BEARISH''" using assms(5) by simp
  from detect_sweep_short[of s "pr_sweeps st" f] assms(1,2) short obtain i where i: "sw_bar_index s = Some i"
    "length f - sb_search_bars (pr_sweeps st) \<le> i" "sw_extreme s = Some (br_high (f ! i))"
    "highest (bars_before (sb_liquidity_lookback (pr_sweeps st)) i f) < br_high (f ! i)"
    "br_close (f ! i) < highest (bars_before (sb_liquidity_lookback (pr_sweeps st)) i f)" by auto
  from detect_structure_break[OF assms(4)[unfolded i(1)]] short obtain k where
    "i < k" "k < length f" "br_close (f ! k) < lowest (bars_before (pr_structure st) k f)" by auto
  then have "short_setup st f i k" using i by (simp add: short_setup_def)
  then show ?thesis using short i(3) assms(3) by auto
qed

lemma setup_in_range: "(if c then long_setup st f i k else short_setup st f i k) \<Longrightarrow> i < length f"
  by (auto simp: long_setup_def short_setup_def split: if_splits)

lemma setup_justified:
  assumes "evaluate_setup env st m1 m5 spread d0 = Inr d" "should_trade d" and dir: "sd_direction d0 = ''BULLISH'' \<or> sd_direction d0 = ''BEARISH''"
    and frames: "frame_ok m5" "frame_ok m1" "m5 \<noteq> []" and mean: "mean_nonneg env"
    and tm: "0 \<le> tm_minimum_atr_stop (pr_trade_manager st)" "0 \<le> tm_final_target_r (pr_trade_manager st)"
  shows "\<exists>i k. (if sd_action d = ''BUY'' then long_setup st m5 i k else short_setup st m5 i k) \<and> prices_in_order d (m5 ! i) \<and>
     model_agrees st m5 (sd_direction d0) \<and> sd_action d = (if sd_direction d0 = ''BULLISH'' then ''BUY'' else ''SELL'')"
proof -
  define atr where "atr = atr_of env m5"
  have atr: "0 \<le> atr" unfolding atr_def by (rule atr_nonneg[OF mean frames(1,3)])
  obtain d1 where d1: "sd_direction d1 = sd_direction d0" "take_setup st m1 m5 atr d1 = Inr d"
    using evaluate_setup_traded[OF assms(1,2)] by (auto simp: atr_def)
  obtain d2 sweep extreme where sweep: "sd_direction d2 = sd_direction d0" "sweep = detect_sweep (pr_sweeps st) m5 (sd_direction d0)"
    "sw_detected sweep" "sw_extreme sweep = Some extreme"
    "st_confirmed (detect_structure (pr_structure st) m5 (sd_direction d0) (sw_bar_index sweep))"
    and enter: "enter_zone st m1 m5 atr extreme d2 = Inr d"
    using take_setup_traded[OF d1(2) assms(2)] d1(1) by auto
  from setup_found[OF sweep(2-5) dir] obtain i k where
    i: "if sd_direction d0 = ''BULLISH'' then long_setup st m5 i k else short_setup st m5 i k"
      "extreme = (if sd_direction d0 = ''BULLISH'' then br_low (m5 ! i) else br_high (m5 ! i))" by blast
  have extreme: "is_flt extreme" using i(2) setup_in_range[OF i(1)] frames(1) by (simp add: frame_ok_def)
  define cf where "cf = (if 2 \<le> length m1 then m1 else m5)"
  obtain zone_type z lower upper d3 where z: "entry_zone_of st m5 (sd_direction d0) atr = Some (zone_type, z)"
    "ez_lower z = Some lower" "ez_upper z = Some upper" "model_agrees st m5 (sd_direction d0)" "sd_direction d3 = sd_direction d0"
    "sd_zone_lower d3 = Some lower" "sd_zone_upper d3 = Some upper" "d = plan_trade st m5 cf atr extreme lower upper d3"
    using enter_zone_traded[OF enter assms(2)] sweep(1) by (auto simp: cf_def)
  have edges: "is_flt lower" "is_flt upper" using zone_prices[OF z(1,2,3)] price_is_flt[OF frames(1)] by auto
  have "cf \<noteq> []" "frame_ok cf" using frames by (auto simp: cf_def)
  then have "is_flt (br_close (List.last cf))" by (simp add: frame_ok_def)
  from trade_prices[OF z(8) assms(2) z(6,7) this extreme edges atr tm i(2)[folded z(5)]] i(1) z(4,5)
  show ?thesis by (intro exI[of _ i] exI[of _ k]) (auto split: if_splits)
qed

lemma trend_direction:
  "tb_direction (detect_trend env p f h) = ''NEUTRAL'' \<or> tb_direction (detect_trend env p f h) = ''BULLISH'' \<or>
   tb_direction (detect_trend env p f h) = ''BEARISH''"
  by (auto simp: detect_trend_def trend_of_def Let_def split: option.splits)

lemma session_allows: "ss_allowed (evaluate_session now (Some t)) \<longleftrightarrow> utc_weekday t < 5 \<and> 7 \<le> utc_hour t \<and> utc_hour t < 20"
  by (auto simp: evaluate_session_def Let_def)

lemma news_allows:
  "nv_allowed (fst (evaluate_news now f pair (Some t) events)) \<longleftrightarrow>
     (case events of None \<Rightarrow> nf_mode f \<noteq> FAIL_CLOSED | Some es \<Rightarrow> find (blocks_pair f pair t) es = None)"
  by (cases "nf_mode f") (auto simp: evaluate_news_def split: option.splits)

lemma volatility_passes:
  assumes "volatility_refusal env cfg f atr pct (if atr = 0 then Infinite else Finite x) = None"
  shows "atr \<noteq> 0 \<and> x \<le> sc_max_spread_atr_ratio cfg \<and> sc_min_atr_pct cfg \<le> pct \<and> pct \<le> sc_max_atr_pct cfg"
  using assms by (auto simp: volatility_refusal_def split: if_splits)

lemma evaluate_traded:
  assumes "evaluate_professional env now pair fr spread t events st = (Inr d, st')" "should_trade d"
  shows "ss_allowed (evaluate_session now (Some t)) \<and> nv_allowed (fst (evaluate_news now (pr_news st) pair (Some t) events)) \<and>
    fr_five_minute fr \<noteq> [] \<and>
    (\<exists>f d0. (sd_direction d0 = ''BULLISH'' \<or> sd_direction d0 = ''BEARISH'') \<and>
       sd_direction d0 = tb_direction (detect_trend env (pr_trend st) (fr_four_hour fr) (fr_one_hour fr)) \<and>
       evaluate_setup env (st\<lparr>pr_news := f\<rparr>) (fr_one_minute fr) (fr_five_minute fr) spread d0 = Inr d)"
proof -
  obtain news f where n: "evaluate_news now (pr_news st) pair (Some t) events = (news, f)" by fastforce
  let ?bias = "detect_trend env (pr_trend st) (fr_four_hour fr) (fr_one_hour fr)"
  define d0 where "d0 = (strategy_decision_init pair (sc_risk_per_trade (pr_config st)))
     \<lparr>sd_session := ss_session (evaluate_session now (Some t)), sd_news_status := nv_reason news,
      sd_trend_bias := tb_direction ?bias, sd_trend_timeframe := tb_timeframe ?bias, sd_direction := tb_direction ?bias\<rparr>"
  have "ss_allowed (evaluate_session now (Some t)) \<and> nv_allowed news \<and> fr_five_minute fr \<noteq> [] \<and>
      tb_direction ?bias \<noteq> ''NEUTRAL'' \<and>
      evaluate_setup env (st\<lparr>pr_news := f\<rparr>) (fr_one_minute fr) (fr_five_minute fr) spread d0 = Inr d"
    using assms by (auto simp: evaluate_professional_def Let_def n d0_def split: if_splits)
  moreover have "sd_direction d0 = tb_direction ?bias" by (simp add: d0_def)
  ultimately show ?thesis using trend_direction[of env "pr_trend st" "fr_four_hour fr" "fr_one_hour fr"]
    by (intro conjI exI[of _ f] exI[of _ d0]) (auto simp: n)
qed

lemma news_apart [simp]:
  "long_setup (st\<lparr>pr_news := f\<rparr>) = long_setup st" "short_setup (st\<lparr>pr_news := f\<rparr>) = short_setup st"
  "model_agrees (st\<lparr>pr_news := f\<rparr>) = model_agrees st"
  by (simp_all add: fun_eq_iff long_setup_def short_setup_def model_agrees_def)

text \<open>
  Claim C6: the professional strategy trades only in an approved session, clear of the news, with
  the spread small against a range within its bounds, along the trend of the higher time frame, after
  a bar that swept the lows (highs) and closed back and a later bar that closed beyond the highs
  (lows) before it, confirmed by the model when one is required; and the stop of the trade is on the
  losing side of the entry and beyond the swept extreme and the zone, its targets on the other side.
\<close>

theorem professional_trade_is_justified:
  assumes run: "evaluate_professional env now pair fr spread t events st = (Inr d, st')" and trade: "should_trade d"
    and frames: "frame_ok (fr_five_minute fr)" "frame_ok (fr_one_minute fr)" and mean: "mean_nonneg env"
    and tm: "0 \<le> tm_minimum_atr_stop (pr_trade_manager st)" "0 \<le> tm_final_target_r (pr_trade_manager st)"
  shows "utc_weekday t < 5 \<and> 7 \<le> utc_hour t \<and> utc_hour t < 20 \<and>
    (case events of None \<Rightarrow> nf_mode (pr_news st) \<noteq> FAIL_CLOSED
     | Some es \<Rightarrow> \<forall>e \<in> set es. \<not> blocks_pair (pr_news st) pair t e) \<and>
    atr_of env (fr_five_minute fr) \<noteq> 0 \<and>
    f_quot spread (atr_of env (fr_five_minute fr)) \<le> sc_max_spread_atr_ratio (pr_config st) \<and>
    (\<exists>direction i k. tb_direction (detect_trend env (pr_trend st) (fr_four_hour fr) (fr_one_hour fr)) = direction \<and>
       (direction, sd_action d) \<in> {(''BULLISH'', ''BUY''), (''BEARISH'', ''SELL'')} \<and>
       (if sd_action d = ''BUY'' then long_setup st (fr_five_minute fr) i k else short_setup st (fr_five_minute fr) i k) \<and>
       prices_in_order d (fr_five_minute fr ! i) \<and> model_agrees st (fr_five_minute fr) direction)"
proof -
  from evaluate_traded[OF run trade] obtain f d0 where
    gates: "ss_allowed (evaluate_session now (Some t))" "nv_allowed (fst (evaluate_news now (pr_news st) pair (Some t) events))"
      "fr_five_minute fr \<noteq> []"
    and dir: "sd_direction d0 = ''BULLISH'' \<or> sd_direction d0 = ''BEARISH''"
      "sd_direction d0 = tb_direction (detect_trend env (pr_trend st) (fr_four_hour fr) (fr_one_hour fr))"
    and rest: "evaluate_setup env (st\<lparr>pr_news := f\<rparr>) (fr_one_minute fr) (fr_five_minute fr) spread d0 = Inr d" by auto
  have news: "case events of None \<Rightarrow> nf_mode (pr_news st) \<noteq> FAIL_CLOSED | Some es \<Rightarrow> \<forall>e \<in> set es. \<not> blocks_pair (pr_news st) pair t e"
    using gates(2) by (auto simp: news_allows find_None_iff split: option.splits)
  have vol: "atr_of env (fr_five_minute fr) \<noteq> 0 \<and>
      f_quot spread (atr_of env (fr_five_minute fr)) \<le> sc_max_spread_atr_ratio (pr_config st)"
  proof -
    let ?atr = "atr_of env (fr_five_minute fr)" and ?current = "br_close (List.last (fr_five_minute fr))"
    have "volatility_refusal env (pr_config st) (fr_five_minute fr) ?atr (if ?current = 0 then 0 else f_quot ?atr ?current)
        (if ?atr = 0 then Infinite else Finite (f_quot spread ?atr)) = None"
      using evaluate_setup_traded[OF rest trade] by (auto simp: Let_def)
    from volatility_passes[OF this] show ?thesis by simp
  qed
  have "0 \<le> tm_minimum_atr_stop (pr_trade_manager (st\<lparr>pr_news := f\<rparr>))" "0 \<le> tm_final_target_r (pr_trade_manager (st\<lparr>pr_news := f\<rparr>))"
    using tm by simp_all
  from setup_justified[OF rest trade dir(1) frames gates(3) mean this, unfolded news_apart] obtain i k where
    "if sd_action d = ''BUY'' then long_setup st (fr_five_minute fr) i k else short_setup st (fr_five_minute fr) i k"
    "prices_in_order d (fr_five_minute fr ! i)" "model_agrees st (fr_five_minute fr) (sd_direction d0)"
    "sd_action d = (if sd_direction d0 = ''BULLISH'' then ''BUY'' else ''SELL'')" by blast
  then have "\<exists>direction i k. tb_direction (detect_trend env (pr_trend st) (fr_four_hour fr) (fr_one_hour fr)) = direction \<and>
       (direction, sd_action d) \<in> {(''BULLISH'', ''BUY''), (''BEARISH'', ''SELL'')} \<and>
       (if sd_action d = ''BUY'' then long_setup st (fr_five_minute fr) i k else short_setup st (fr_five_minute fr) i k) \<and>
       prices_in_order d (fr_five_minute fr ! i) \<and> model_agrees st (fr_five_minute fr) direction"
    using dir by (intro exI[of _ "sd_direction d0"] exI[of _ i] exI[of _ k]) auto
  then show ?thesis using gates(1) news vol by (simp add: session_allows)
qed

text \<open>A sweep, a break and a gap come back to, in thirty bars.\<close>

definition bar :: "int \<Rightarrow> int \<Rightarrow> int \<Rightarrow> int \<Rightarrow> frame_bar" where
  "bar a b c d = \<lparr>br_open = of_int a, br_high = of_int b, br_low = of_int c, br_close = of_int d\<rparr>"

definition example_frames :: frames where
  "example_frames = \<lparr>fr_one_minute = [],
     fr_five_minute = replicate 26 (bar 10 11 9 10) @ [bar 10 11 8 10, bar 10 13 10 12, bar 12 14 12 13, bar 12 13 12 13],
     fr_one_hour = [], fr_four_hour = map (\<lambda>x. bar x x x x) [1, 2, 3, 4, 5]\<rparr>"

definition example_env :: frame_env where
  "example_env = \<lparr>fe_ewm = (\<lambda>d xs. case d of Alpha _ \<Rightarrow> replicate (length xs) 1 | Span n \<Rightarrow> if n = 1 then xs else map (\<lambda>x. x / 2) xs),
     fe_quantiles = (\<lambda>_. (0, 2))\<rparr>"

definition example_strategy :: professional_strategy where
  "example_strategy = \<lparr>pr_config = default_strategy_config\<lparr>sc_max_atr_pct := 1, sc_minimum_bars_5m := 30\<rparr>,
     pr_trend = \<lparr>tp_fast = 1, tp_slow = 2\<rparr>, pr_sweeps = \<lparr>sb_liquidity_lookback = 3, sb_search_bars = 4\<rparr>, pr_structure = 2, pr_fvgs = 3,
     pr_order_blocks = \<lparr>bs_search_bars = 2, bs_displacement_atr = 1\<rparr>,
     pr_news = \<lparr>nf_window = minutes 30, nf_mode = FAIL_CLOSED, nf_execution_mode = ''DEMO'', nf_warned_unavailable = False\<rparr>,
     pr_trade_manager = default_trade_manager, pr_confirmation_model = None\<rparr>"

lemma length_true_ranges: "length (true_ranges f) = length f"
  by (cases f) (simp_all add: true_ranges_def)

lemma example_range:
  "atr_of example_env (fr_five_minute example_frames) = 1"
  "normal_volatility example_env (fr_five_minute example_frames) atr \<longleftrightarrow> 0 \<le> atr \<and> atr \<le> 2"
  by (simp_all add: atr_of_def normal_volatility_def example_env_def length_true_ranges example_frames_def Let_def)

lemma example_bars:
  "length (fr_five_minute example_frames) = 30" "fr_five_minute example_frames \<noteq> []" "fr_one_minute example_frames = []"
  "br_close (List.last (fr_five_minute example_frames)) = 13"
  by (simp_all add: example_frames_def bar_def)

lemma example_gates:
  "detect_sweep (pr_sweeps example_strategy) (fr_five_minute example_frames) ''BULLISH'' =
     \<lparr>sw_detected = True, sw_direction = ''BULLISH'', sw_level = Some 9, sw_extreme = Some 8, sw_bar_index = Some 26,
      sw_reason = ''sell_side_sweep_reclaimed''\<rparr>"
  "st_confirmed (detect_structure (pr_structure example_strategy) (fr_five_minute example_frames) ''BULLISH'' (Some 26))"
  "detect_fvg (pr_fvgs example_strategy) (fr_five_minute example_frames) ''BULLISH'' =
     \<lparr>ez_detected = True, ez_direction = ''BULLISH'', ez_lower = Some 11, ez_upper = Some 12, ez_created_index = Some 28, ez_retraced = True\<rparr>"
  "confirmation_candle (fr_five_minute example_frames) ''BULLISH'' 11 12"
  "\<not> pl_risk_distance (create_plan (pr_trade_manager example_strategy) ''BULLISH'' 13 1 8 11
     (next_liquidity (fr_five_minute example_frames) ''BULLISH'' 13)) \<le> 0"
  "tb_direction (detect_trend example_env (pr_trend example_strategy) (fr_four_hour example_frames) (fr_one_hour example_frames)) = ''BULLISH''"
  by code_simp+

lemma example_settings:
  "volatility_refusal example_env (pr_config example_strategy) (fr_five_minute example_frames) 1 (f_quot 1 13) (Finite (f_quot 0 1)) = None"
  "\<not> sc_require_ml_confirmation (pr_config example_strategy)" "sc_minimum_bars_5m (pr_config example_strategy) = 30"
  "ss_allowed (evaluate_session 0 (Some (hours 8)))"
  "nv_allowed (fst (evaluate_news 0 (pr_news example_strategy) ''EURUSD'' (Some (hours 8)) (Some [])))"
  unfolding volatility_refusal_def example_range by code_simp+

lemma example_trades:
  "\<exists>d. fst (evaluate_professional example_env 0 ''EURUSD'' example_frames 0 (hours 8) (Some []) example_strategy) = Inr d \<and> should_trade d"
proof -
  obtain news f where n: "evaluate_news 0 (pr_news example_strategy) ''EURUSD'' (Some (hours 8)) (Some []) = (news, f)" by fastforce
  show ?thesis
    using example_settings(4,5) n
    by (simp add: evaluate_professional_def evaluate_setup_def take_setup_def enter_zone_def entry_zone_of_def ask_model_def plan_trade_def
        should_trade_def Let_def example_bars example_range(1) example_settings(1-3) example_gates)
qed

lemma professional_trade_is_justified_witness:
  "\<exists>d i k. fst (evaluate_professional example_env 0 ''EURUSD'' example_frames 0 (hours 8) (Some []) example_strategy) = Inr d \<and>
     sd_action d = ''BUY'' \<and> long_setup example_strategy (fr_five_minute example_frames) i k \<and>
     prices_in_order d (fr_five_minute example_frames ! i)"
proof -
  have f: "frame_ok (fr_five_minute example_frames)" "frame_ok (fr_one_minute example_frames)"
    unfolding frame_ok_def is_flt_def by code_simp+
  have m: "mean_nonneg example_env"
    by (auto simp: mean_nonneg_def example_env_def last_map split: ew_decay.splits)
  have tm: "0 \<le> tm_minimum_atr_stop (pr_trade_manager example_strategy)" "0 \<le> tm_final_target_r (pr_trade_manager example_strategy)"
    by (simp_all add: example_strategy_def default_trade_manager_def)
  note bull = example_gates(6)
  obtain d st' where d: "evaluate_professional example_env 0 ''EURUSD'' example_frames 0 (hours 8) (Some []) example_strategy = (Inr d, st')"
    "should_trade d"
    using example_trades by (metis prod.collapse)
  from professional_trade_is_justified[OF d f m tm] bull obtain i k where "sd_action d = ''BUY''"
    "if sd_action d = ''BUY'' then long_setup example_strategy (fr_five_minute example_frames) i k
     else short_setup example_strategy (fr_five_minute example_frames) i k"
    "prices_in_order d (fr_five_minute example_frames ! i)" by auto
  then show ?thesis using d(1) by (intro exI[of _ d] exI[of _ i] exI[of _ k]) simp
qed

section \<open>Every evaluation decides\<close>

definition decides :: "py_error + strategy_decision \<Rightarrow> bool" where
  "decides r \<longleftrightarrow> (\<exists>d. r = Inr d \<and> sd_action d \<in> {''BUY'', ''SELL'', ''SKIP''})"

lemma decides_skip [simp]: "decides (Inr (skip d reason))"
  by (simp add: decides_def skip_def)

lemma decides_plan [simp]: "decides (Inr (plan_trade st m5 cf atr extreme lower upper d))"
  by (simp add: decides_def plan_trade_def skip_def Let_def)







end
