(* ===== verification/State_Effects.thy ===== *)
theory State_Effects
  imports Effects
begin

text \<open>
  Actions that read and update the state of an object, next to those on the outside world it keeps
  in one of its fields, and invariants of such actions: \<open>keepsA I m\<close> says that \<open>m\<close>, whether it
  returns or raises, ends in a state with \<open>I\<close> when it starts in one.
\<close>

definition readA :: "('s \<Rightarrow> 'a) \<Rightarrow> ('s, 'a) action" where
  "readA f s = (Inr (f s), s)"

definition updA :: "('s \<Rightarrow> 's) \<Rightarrow> ('s, unit) action" where
  "updA u s = (Inr (), u s)"

text \<open>An action on the part of the state that \<open>g\<close> reads and \<open>p\<close> replaces.\<close>

definition zoomA :: "('s \<Rightarrow> 'w) \<Rightarrow> ('w \<Rightarrow> 's \<Rightarrow> 's) \<Rightarrow> ('w, 'a) action \<Rightarrow> ('s, 'a) action" where
  "zoomA g p m s = (case m (g s) of (r, w) \<Rightarrow> (r, p w s))"

text \<open>A loop over the elements of a list.\<close>

fun eachA :: "('a \<Rightarrow> ('s, unit) action) \<Rightarrow> 'a list \<Rightarrow> ('s, unit) action" where
  "eachA f [] = returnA ()"
| "eachA f (x # xs) = bindA (f x) (\<lambda>_. eachA f xs)"

lemma state_action_simps [simp]:
  "bindA (readA g) f s = f (g s) s"
  "bindA (updA u) f' s = f' () (u s)"
  by (simp_all add: bindA_def readA_def updA_def)

lemma wpA_state_simps [simp]:
  "wpA (readA g) Q s = Q (Inr (g s)) s"
  "wpA (updA u) Q' s = Q' (Inr ()) (u s)"
  "wpA (zoomA g' p m) R s = wpA m (\<lambda>r w. R r (p w s)) (g' s)"
  by (simp_all add: wpA_def readA_def updA_def zoomA_def split: prod.split)

section \<open>Invariants\<close>

definition keepsA :: "('s \<Rightarrow> bool) \<Rightarrow> ('s, 'a) action \<Rightarrow> bool" where
  "keepsA I m \<longleftrightarrow> (\<forall>s. I s \<longrightarrow> wpA m (\<lambda>r s'. I s') s)"

lemma keepsA_D: "keepsA I m \<Longrightarrow> I s \<Longrightarrow> I (snd (m s))"
  using wpA_D[of m "\<lambda>r s'. I s'" s "fst (m s)" "snd (m s)"] by (simp add: keepsA_def)

named_theorems keepsA_intro

lemma keepsA_basic [keepsA_intro]:
  "keepsA I (returnA x)" "keepsA I (raiseA e)" "keepsA I (readA g)" "keepsA I (liftE r)"
  by (simp_all add: keepsA_def)

lemma keepsA_upd: "(\<And>s. I s \<Longrightarrow> I (u s)) \<Longrightarrow> keepsA I (updA u)"
  by (simp add: keepsA_def)

lemma keepsA_zoom: "(\<And>s w. I s \<Longrightarrow> I (p w s)) \<Longrightarrow> keepsA I (zoomA g p m)"
  by (simp add: keepsA_def) (simp add: wpA_def split: prod.split)

lemma keepsA_bind [keepsA_intro]: "keepsA I m \<Longrightarrow> (\<And>x. keepsA I (f x)) \<Longrightarrow> keepsA I (bindA m f)"
  unfolding keepsA_def by (auto elim!: wpA_mono split: sum.split)

text \<open>A reading whose value the invariant fixes.\<close>

lemma keepsA_bind_read: "(\<And>s. I s \<Longrightarrow> g s = x) \<Longrightarrow> keepsA I (f x) \<Longrightarrow> keepsA I (bindA (readA g) f)"
  by (simp add: keepsA_def)

lemma keepsA_catch [keepsA_intro]: "keepsA I m \<Longrightarrow> (\<And>e. keepsA I (h e)) \<Longrightarrow> keepsA I (catchA m h)"
  unfolding keepsA_def by (auto elim!: wpA_mono split: sum.split)

lemma keepsA_try [keepsA_intro]: "keepsA I m \<Longrightarrow> keepsA I (tryA m)"
  by (simp add: keepsA_def)

lemma keepsA_each [keepsA_intro]: "(\<And>x. keepsA I (f x)) \<Longrightarrow> keepsA I (eachA f xs)"
  by (induction xs) (simp_all add: keepsA_intro)

lemma keepsA_map [keepsA_intro]: "(\<And>x. keepsA I (f x)) \<Longrightarrow> keepsA I (mapA f xs)"
  by (induction xs) (simp_all add: keepsA_intro)

lemma keepsA_branch [keepsA_intro]:
  "(b \<Longrightarrow> keepsA I m) \<Longrightarrow> (\<not> b \<Longrightarrow> keepsA I n) \<Longrightarrow> keepsA I (if b then m else n)"
  by simp

lemma keepsA_option [keepsA_intro]:
  "(v = None \<Longrightarrow> keepsA I m) \<Longrightarrow> (\<And>x. v = Some x \<Longrightarrow> keepsA I (f x)) \<Longrightarrow> keepsA I (case v of None \<Rightarrow> m | Some x \<Rightarrow> f x)"
  by (cases v) simp_all

lemma keepsA_sum [keepsA_intro]:
  "(\<And>e. v = Inl e \<Longrightarrow> keepsA I (g e)) \<Longrightarrow> (\<And>x. v = Inr x \<Longrightarrow> keepsA I (f x)) \<Longrightarrow> keepsA I (case v of Inl e \<Rightarrow> g e | Inr x \<Rightarrow> f x)"
  by (cases v) simp_all

end
