(* ===== verification/Geopolitical_Risk.thy ===== *)
theory Geopolitical_Risk
  imports State_Effects Constants
begin

text \<open>
  Risk scores of regions, \<open>src/news/geopolitical_risk.py\<close>: articles add to the contributions of four
  factors, time takes from them, and crossing the threshold queues an alert.  The event bus is an
  action on an outside world.  Identifiers of articles, which the code never reads, and the
  identifiers and times of events are left out; an event is the alert it carries.
\<close>

section \<open>State\<close>

definition SUPPORTED_REGIONS :: "string list" where
  "SUPPORTED_REGIONS = [''US'', ''Europe'', ''Asia'', ''Middle East'', ''Africa'', ''Latin America'', ''Oceania'']"

definition HIGH_RISK_THRESHOLD :: int where
  "HIGH_RISK_THRESHOLD = GEOPOLITICAL_RISK_HIGH_THRESHOLD"

datatype risk_factor = ARMED_CONFLICT | SANCTIONS | POLITICAL_INSTABILITY | NATURAL_DISASTER

fun factor_value :: "risk_factor \<Rightarrow> string" where
  "factor_value ARMED_CONFLICT = ''armed_conflict''"
| "factor_value SANCTIONS = ''sanctions''"
| "factor_value POLITICAL_INSTABILITY = ''political_instability''"
| "factor_value NATURAL_DISASTER = ''natural_disaster''"

definition risk_factors :: "risk_factor list" where
  "risk_factors = [ARMED_CONFLICT, SANCTIONS, POLITICAL_INSTABILITY, NATURAL_DISASTER]"

fun RISK_FACTOR_WEIGHTS :: "risk_factor \<Rightarrow> int" where
  "RISK_FACTOR_WEIGHTS ARMED_CONFLICT = 30"
| "RISK_FACTOR_WEIGHTS SANCTIONS = 20"
| "RISK_FACTOR_WEIGHTS POLITICAL_INSTABILITY = 15"
| "RISK_FACTOR_WEIGHTS NATURAL_DISASTER = 25"

definition DEFAULT_DECAY_RATE :: pyfloat where
  "DEFAULT_DECAY_RATE = 2"

record risk_article =
  ra_region :: string
  ra_risk_factor :: risk_factor
  ra_severity :: pyfloat
  ra_received_at :: micros

record region_state =
  rg_score :: pyfloat
  rg_last_article_at :: "micros option"
  rg_was_high_risk :: bool
  rg_contributions :: "(string, pyfloat) dict"

definition region_state_init :: region_state where
  "region_state_init = \<lparr>rg_score = 0, rg_last_article_at = None, rg_was_high_risk = False,
     rg_contributions = map (\<lambda>f. (factor_value f, 0)) risk_factors\<rparr>"

text \<open>The payload of an alert; an elevated one shows the contributions.\<close>

record risk_alert =
  rk_elevated :: bool
  rk_region :: string
  rk_score :: int
  rk_threshold :: int
  rk_contributions :: "(string, pyfloat) dict option"

record risk_scorer =
  gs_decay_rate :: pyfloat
  gs_regions :: "(string, region_state) dict"
  gs_last_update :: "micros option"
  gs_running :: bool
  gs_pending :: "risk_alert list"

definition risk_scorer_init :: "pyfloat \<Rightarrow> risk_scorer" where
  "risk_scorer_init rate = \<lparr>gs_decay_rate = rate, gs_regions = map (\<lambda>r. (r, region_state_init)) SUPPORTED_REGIONS,
     gs_last_update = None, gs_running = False, gs_pending = []\<rparr>"

section \<open>Queries and settings\<close>

definition set_decay_rate :: "pyfloat \<Rightarrow> risk_scorer \<Rightarrow> risk_scorer" where
  "set_decay_rate v g = g\<lparr>gs_decay_rate := max 0 v\<rparr>"

definition start_scorer :: "risk_scorer \<Rightarrow> risk_scorer" where
  "start_scorer g = g\<lparr>gs_running := True\<rparr>"

definition stop_scorer :: "risk_scorer \<Rightarrow> risk_scorer" where
  "stop_scorer g = g\<lparr>gs_running := False\<rparr>"

definition get_risk_score :: "string \<Rightarrow> risk_scorer \<Rightarrow> int" where
  "get_risk_score r g = (case map_of (gs_regions g) r of None \<Rightarrow> 0 | Some s \<Rightarrow> round_half_even (rg_score s))"

definition get_all_scores :: "risk_scorer \<Rightarrow> (string, int) dict" where
  "get_all_scores g = map (\<lambda>(r, s). (r, round_half_even (rg_score s))) (gs_regions g)"

definition is_high_risk :: "string \<Rightarrow> risk_scorer \<Rightarrow> bool" where
  "is_high_risk r g \<longleftrightarrow> HIGH_RISK_THRESHOLD \<le> get_risk_score r g"

definition get_high_risk_regions :: "risk_scorer \<Rightarrow> string list" where
  "get_high_risk_regions g = filter (\<lambda>r. is_high_risk r g) (map fst (gs_regions g))"

definition get_factor_contributions :: "string \<Rightarrow> risk_scorer \<Rightarrow> (string, pyfloat) dict" where
  "get_factor_contributions r g = (case map_of (gs_regions g) r of None \<Rightarrow> [] | Some s \<Rightarrow> rg_contributions s)"

section \<open>Crossing the threshold\<close>

definition check_threshold_crossing :: "string \<Rightarrow> pyfloat \<Rightarrow> pyfloat \<Rightarrow> risk_scorer \<Rightarrow> risk_scorer" where
  "check_threshold_crossing r old_score new_score g =
     (case map_of (gs_regions g) r of
        None \<Rightarrow> g
      | Some s \<Rightarrow>
          let was_high = (of_int HIGH_RISK_THRESHOLD \<le> old_score); is_high = (of_int HIGH_RISK_THRESHOLD \<le> new_score) in
          if was_high = is_high then g
          else g\<lparr>gs_regions := AList.update r (s\<lparr>rg_was_high_risk := is_high\<rparr>) (gs_regions g),
                 gs_pending := gs_pending g @ [\<lparr>rk_elevated = is_high, rk_region = r, rk_score = round_half_even new_score,
                   rk_threshold = HIGH_RISK_THRESHOLD, rk_contributions = (if is_high then Some (rg_contributions s) else None)\<rparr>]\<rparr>)"

section \<open>Articles, decay and direct settings\<close>

text \<open>The state of a region, which is added when it is not known.\<close>

definition region_of :: "string \<Rightarrow> risk_scorer \<Rightarrow> region_state" where
  "region_of r g = or_default (map_of (gs_regions g) r) region_state_init"

definition set_region :: "string \<Rightarrow> region_state \<Rightarrow> risk_scorer \<Rightarrow> risk_scorer" where
  "set_region r s g = g\<lparr>gs_regions := AList.update r s (gs_regions g)\<rparr>"

definition process_article :: "risk_article \<Rightarrow> risk_scorer \<Rightarrow> risk_scorer" where
  "process_article a g =
     (let s = region_of (ra_region a) g; k = factor_value (ra_risk_factor a);
          contribution = f_mul (of_int (RISK_FACTOR_WEIGHTS (ra_risk_factor a))) (max 0 (min 1 (ra_severity a)));
          cs = AList.update k (min 100 (f_add (or_default (map_of (rg_contributions s) k) 0) contribution)) (rg_contributions s);
          score = min 100 (f_sum (map snd cs))
      in check_threshold_crossing (ra_region a) (rg_score s) score
           (set_region (ra_region a) (s\<lparr>rg_contributions := cs, rg_score := score, rg_last_article_at := Some (ra_received_at a)\<rparr>) g))"

definition process_articles :: "risk_article list \<Rightarrow> risk_scorer \<Rightarrow> risk_scorer" where
  "process_articles as g = foldl (\<lambda>g a. process_article a g) g as"

definition decay_contribution :: "pyfloat \<Rightarrow> pyfloat \<Rightarrow> pyfloat" where
  "decay_contribution fraction c = (if 0 < c then max 0 (f_sub c (f_mul c fraction)) else c)"

definition decay_region :: "risk_scorer \<Rightarrow> string \<Rightarrow> risk_scorer" where
  "decay_region g r =
     (let s = region_of r g in
      if rg_score s \<le> 0 then g
      else let cs = map (apsnd (decay_contribution (f_quot (gs_decay_rate g) (rg_score s)))) (rg_contributions s);
               score = min 100 (max 0 (f_sum (map snd cs)));
               g1 = set_region r (s\<lparr>rg_contributions := cs, rg_score := score\<rparr>) g
           in if rg_score s \<noteq> score then check_threshold_crossing r (rg_score s) score g1 else g1)"

definition apply_decay :: "micros \<Rightarrow> risk_scorer \<Rightarrow> risk_scorer" where
  "apply_decay now g = (foldl decay_region g (map fst (gs_regions g)))\<lparr>gs_last_update := Some now\<rparr>"

record risk_indicator =
  ri_type :: "string option"
  ri_severity :: "pyfloat option"
  ri_timestamp :: "micros option"

definition factor_of_value :: "string \<Rightarrow> risk_factor option" where
  "factor_of_value v = find (\<lambda>f. factor_value f = v) risk_factors"

definition update_scores :: "micros \<Rightarrow> (string, risk_indicator list) dict \<Rightarrow> risk_scorer \<Rightarrow> risk_scorer" where
  "update_scores now indicators g =
     foldl (\<lambda>g (r, is).
       foldl (\<lambda>g i.
         case factor_of_value (or_default (ri_type i) []) of
           None \<Rightarrow> g
         | Some f \<Rightarrow> process_article \<lparr>ra_region = r, ra_risk_factor = f, ra_severity = or_default (ri_severity i) 1,
                                      ra_received_at = or_default (ri_timestamp i) now\<rparr> g) g is) g indicators"

definition set_score :: "string \<Rightarrow> pyfloat \<Rightarrow> risk_scorer \<Rightarrow> risk_scorer" where
  "set_score r score g =
     (let clamped = max 0 (min 100 score); s = region_of r g;
          per_factor = f_quot clamped 4;
          cs = foldl (\<lambda>cs f. AList.update (factor_value f) per_factor cs) (rg_contributions s) risk_factors
      in check_threshold_crossing r (rg_score s) clamped
           (set_region r (s\<lparr>rg_score := clamped, rg_contributions := cs\<rparr>) g))"

definition reset_region :: "string \<Rightarrow> risk_scorer \<Rightarrow> risk_scorer" where
  "reset_region r g =
     (case map_of (gs_regions g) r of
        None \<Rightarrow> g
      | Some s \<Rightarrow>
          check_threshold_crossing r (rg_score s) 0
            (set_region r (s\<lparr>rg_score := 0, rg_last_article_at := None,
                             rg_contributions := map (apsnd (\<lambda>_. 0)) (rg_contributions s)\<rparr>) g))"

section \<open>Alerts on the bus\<close>

type_synonym 'w alert_bus = "(risk_alert \<Rightarrow> ('w, unit) action) option"

text \<open>A failure to publish is logged; the alert is gone.\<close>

definition dispatch_pending_events :: "'w alert_bus \<Rightarrow> risk_scorer \<Rightarrow> 'w \<Rightarrow> risk_scorer \<times> 'w" where
  "dispatch_pending_events bus g w =
     (case bus of
        None \<Rightarrow> (g, w)
      | Some publish \<Rightarrow>
          if gs_pending g = [] then (g, w)
          else (g\<lparr>gs_pending := []\<rparr>, foldl (\<lambda>w a. snd (publish a w)) w (gs_pending g)))"

text \<open>One turn of the periodic loop after its sleep.\<close>

definition periodic_update :: "'w alert_bus \<Rightarrow> micros \<Rightarrow> risk_scorer \<Rightarrow> 'w \<Rightarrow> risk_scorer \<times> 'w" where
  "periodic_update bus now g w =
     (if gs_running g then dispatch_pending_events bus (apply_decay now g) w else (g, w))"

section \<open>Runs\<close>

datatype risk_call =
    Article risk_article
  | Decay micros
  | Indicators micros "(string, risk_indicator list) dict"
  | SetScore string pyfloat
  | Reset string
  | SetRate pyfloat
  | Running bool
  | Dispatch
  | Turn micros

fun risk_step :: "'w alert_bus \<Rightarrow> risk_scorer \<times> 'w \<Rightarrow> risk_call \<Rightarrow> risk_scorer \<times> 'w" where
  "risk_step bus (g, w) (Article a) = (process_article a g, w)"
| "risk_step bus (g, w) (Decay now) = (apply_decay now g, w)"
| "risk_step bus (g, w) (Indicators now is) = (update_scores now is g, w)"
| "risk_step bus (g, w) (SetScore r x) = (set_score r x g, w)"
| "risk_step bus (g, w) (Reset r) = (reset_region r g, w)"
| "risk_step bus (g, w) (SetRate v) = (set_decay_rate v g, w)"
| "risk_step bus (g, w) (Running b) = (if b then start_scorer g else stop_scorer g, w)"
| "risk_step bus (g, w) Dispatch = dispatch_pending_events bus g w"
| "risk_step bus (g, w) (Turn now) = periodic_update bus now g w"

definition risk_run :: "'w alert_bus \<Rightarrow> pyfloat \<Rightarrow> 'w \<Rightarrow> risk_call list \<Rightarrow> risk_scorer \<times> 'w" where
  "risk_run bus rate w cs = foldl (risk_step bus) (risk_scorer_init rate, w) cs"

section \<open>Every change puts one region\<close>

text \<open>A region gets a new state and the crossing from its old score is checked.\<close>

definition put :: "string \<Rightarrow> region_state \<Rightarrow> risk_scorer \<Rightarrow> risk_scorer" where
  "put r s g = check_threshold_crossing r (rg_score (region_of r g)) (rg_score s) (set_region r s g)"

lemma no_crossing: "check_threshold_crossing r x x g = g"
  by (simp add: check_threshold_crossing_def split: option.splits)

lemma crossing_if: "(if x \<noteq> y then check_threshold_crossing r x y g else g) = check_threshold_crossing r x y g"
  by (simp add: no_crossing)

lemma weight_nonneg: "0 \<le> RISK_FACTOR_WEIGHTS f"
  by (cases f) simp_all

lemma process_article_put:
  "process_article a g =
     (let s = region_of (ra_region a) g; k = factor_value (ra_risk_factor a);
          contribution = f_mul (of_int (RISK_FACTOR_WEIGHTS (ra_risk_factor a))) (max 0 (min 1 (ra_severity a)));
          cs = AList.update k (min 100 (f_add (or_default (map_of (rg_contributions s) k) 0) contribution)) (rg_contributions s)
      in put (ra_region a) (s\<lparr>rg_contributions := cs, rg_score := min 100 (f_sum (map snd cs)), rg_last_article_at := Some (ra_received_at a)\<rparr>) g)"
  by (simp add: process_article_def put_def Let_def)

lemma decay_region_put:
  "decay_region g r =
     (let s = region_of r g; cs = map (apsnd (decay_contribution (f_quot (gs_decay_rate g) (rg_score s)))) (rg_contributions s) in
      if rg_score s \<le> 0 then g
      else put r (s\<lparr>rg_contributions := cs, rg_score := min 100 (max 0 (f_sum (map snd cs)))\<rparr>) g)"
  unfolding decay_region_def put_def Let_def by (simp only: crossing_if) simp

lemma set_score_put:
  "set_score r score g =
     (let clamped = max 0 (min 100 score); s = region_of r g in
      put r (s\<lparr>rg_score := clamped,
               rg_contributions := foldl (\<lambda>cs f. AList.update (factor_value f) (f_quot clamped 4) cs) (rg_contributions s) risk_factors\<rparr>) g)"
  by (simp add: set_score_def put_def Let_def)

lemma reset_region_put:
  "reset_region r g =
     (if map_of (gs_regions g) r = None then g
      else let s = region_of r g in
        put r (s\<lparr>rg_score := 0, rg_last_article_at := None, rg_contributions := map (apsnd (\<lambda>_. 0)) (rg_contributions s)\<rparr>) g)"
  by (auto simp: reset_region_def put_def Let_def region_of_def)

text \<open>A property of the scorer holds for all runs when putting a suitable state keeps it.  \<open>ok\<close> is
  what is asked of the state of a region, \<open>P\<close> what is shown of the scorer.\<close>

locale region_law =
  fixes ok :: "region_state \<Rightarrow> bool" and P :: "risk_scorer \<Rightarrow> 'w \<Rightarrow> bool" and bus :: "'w alert_bus"
  assumes region: "P g w \<Longrightarrow> ok (region_of r g)"
    and put: "P g w \<Longrightarrow> ok s \<Longrightarrow> rg_was_high_risk s = rg_was_high_risk (region_of r g) \<Longrightarrow> P (put r s g) w"
    and rate: "P g w \<Longrightarrow> 0 \<le> gs_decay_rate g" "P g w \<Longrightarrow> 0 \<le> v \<Longrightarrow> P (g\<lparr>gs_decay_rate := v\<rparr>) w"
    and times: "P g w \<Longrightarrow> P (g\<lparr>gs_last_update := t\<rparr>) w" "P g w \<Longrightarrow> P (g\<lparr>gs_running := b\<rparr>) w"
    and article: "ok s \<Longrightarrow> 0 \<le> x \<Longrightarrow> cs = AList.update k (min 100 (f_add (or_default (map_of (rg_contributions s) k) 0) x)) (rg_contributions s) \<Longrightarrow>
        ok (s\<lparr>rg_contributions := cs, rg_score := min 100 (f_sum (map snd cs)), rg_last_article_at := tm\<rparr>)"
    and decay: "ok s \<Longrightarrow> 0 \<le> x \<Longrightarrow> cs = map (apsnd (decay_contribution x)) (rg_contributions s) \<Longrightarrow>
        ok (s\<lparr>rg_contributions := cs, rg_score := min 100 (max 0 (f_sum (map snd cs)))\<rparr>)"
    and setting: "ok s \<Longrightarrow> 0 \<le> c \<Longrightarrow> c \<le> 100 \<Longrightarrow>
        ok (s\<lparr>rg_score := c, rg_contributions := foldl (\<lambda>cs f. AList.update (factor_value f) (f_quot c 4) cs) (rg_contributions s) risk_factors\<rparr>)"
    and reset: "ok s \<Longrightarrow> ok (s\<lparr>rg_score := 0, rg_last_article_at := tm, rg_contributions := map (apsnd (\<lambda>_. 0)) (rg_contributions s)\<rparr>)"
    and dispatch: "P g w \<Longrightarrow> dispatch_pending_events bus g w = (g', w') \<Longrightarrow> P g' w'"
begin

lemma process_article: "P g w \<Longrightarrow> P (process_article a g) w"
proof -
  assume g: "P g w"
  have "0 \<le> f_mul (of_int (RISK_FACTOR_WEIGHTS (ra_risk_factor a))) (max 0 (min 1 (ra_severity a)))"
    by (simp add: f_mul_def weight_nonneg)
  from article[OF region[OF g] this refl] show "P (process_article a g) w"
    unfolding process_article_put Let_def by (intro put[OF g]) simp_all
qed

lemma decay_region: "P g w \<Longrightarrow> P (decay_region g r) w"
proof -
  assume g: "P g w"
  show "P (decay_region g r) w"
  proof (cases "rg_score (region_of r g) \<le> 0")
    case False
    then have "0 \<le> f_quot (gs_decay_rate g) (rg_score (region_of r g))" using rate(1)[OF g] by (simp add: f_quot_def)
    from decay[OF region[OF g] this refl] show ?thesis
      using False unfolding decay_region_put Let_def by (simp only: if_False) (intro put[OF g]; simp)
  qed (use g in \<open>simp add: decay_region_put Let_def\<close>)
qed

lemma apply_decay: "P g w \<Longrightarrow> P (apply_decay now g) w"
proof -
  have "P g w \<Longrightarrow> P (foldl decay_region g rs) w" for rs by (induction rs arbitrary: g) (simp_all add: decay_region)
  then show "P g w \<Longrightarrow> P (apply_decay now g) w" by (simp add: apply_decay_def times(1))
qed

lemma update_scores: "P g w \<Longrightarrow> P (update_scores now is g) w"
proof -
  have one: "P g w \<Longrightarrow> P (foldl (\<lambda>g i. case factor_of_value (or_default (ri_type i) []) of None \<Rightarrow> g
      | Some f \<Rightarrow> process_article \<lparr>ra_region = r, ra_risk_factor = f, ra_severity = or_default (ri_severity i) 1,
          ra_received_at = or_default (ri_timestamp i) now\<rparr> g) g js) w" for g r js
    by (induction js arbitrary: g) (simp_all add: process_article split: option.splits)
  show "P g w \<Longrightarrow> P (update_scores now is g) w" unfolding update_scores_def
    by (induction "is" arbitrary: g) (auto intro: one)
qed

lemma set_score: "P g w \<Longrightarrow> P (set_score r x g) w"
  unfolding set_score_put Let_def by (intro put setting region) auto

lemma reset_region: "P g w \<Longrightarrow> P (reset_region r g) w"
  unfolding reset_region_put Let_def by (auto intro!: put reset region)

lemma step: "P g w \<Longrightarrow> risk_step bus (g, w) c = (g', w') \<Longrightarrow> P g' w'"
  by (cases c)
    (auto simp: process_article apply_decay update_scores set_score reset_region set_decay_rate_def rate(2)
      start_scorer_def stop_scorer_def times periodic_update_def intro: dispatch dispatch[OF apply_decay] split: if_splits)

lemma run: "P (risk_scorer_init d) w \<Longrightarrow> risk_run bus d w cs = (g', w') \<Longrightarrow> P g' w'"
proof (induction cs arbitrary: g' w' rule: rev_induct)
  case (snoc c cs)
  obtain g1 w1 where "risk_run bus d w cs = (g1, w1)" by fastforce
  then show ?case using snoc step[of g1 w1 c] by (simp add: risk_run_def)
qed (simp add: risk_run_def)

end

section \<open>Scores stay in range\<close>

definition in_range :: "region_state \<Rightarrow> bool" where
  "in_range s \<longleftrightarrow> 0 \<le> rg_score s \<and> rg_score s \<le> 100 \<and>
     list_all (\<lambda>x. is_flt x \<and> 0 \<le> x \<and> x \<le> 100) (map snd (rg_contributions s))"

definition all_in_range :: "risk_scorer \<Rightarrow> bool" where
  "all_in_range g \<longleftrightarrow> 0 \<le> gs_decay_rate g \<and> list_all in_range (map snd (gs_regions g))"

lemma hundred_is_flt: "is_flt 100"
  unfolding is_flt_def by code_simp

lemma zero_to_hundred: "0 \<le> x \<Longrightarrow> x \<le> 100 \<Longrightarrow> flt x \<le> 100"
  using flt.rnd_mono[of x 100] hundred_is_flt by (simp add: is_flt_def)

lemma list_all_dict_update: "list_all Q (map snd d) \<Longrightarrow> Q v \<Longrightarrow> list_all Q (map snd (AList.update k v d))"
  using list_all_update[of "\<lambda>p. Q (snd p)" d k v] by (simp add: list_all_iff)

lemma region_in_range: "list_all in_range (map snd d) \<Longrightarrow> in_range (or_default (map_of d r) region_state_init)"
proof -
  have "in_range region_state_init" by (simp add: in_range_def region_state_init_def risk_factors_def is_flt_def)
  then show "list_all in_range (map snd d) \<Longrightarrow> in_range (or_default (map_of d r) region_state_init)"
    by (fastforce simp: or_default_def list_all_iff split: option.splits dest: map_of_SomeD)
qed

lemma contribution_in_range:
  assumes "list_all (\<lambda>x. is_flt x \<and> 0 \<le> x \<and> x \<le> 100) (map snd cs)"
  shows "0 \<le> or_default (map_of cs k) (0::rat)"
  using assms by (auto simp: or_default_def list_all_iff split: option.splits dest!: map_of_SomeD)

interpretation ranges: region_law in_range "\<lambda>g w. all_in_range g" bus for bus
proof
  fix s cs k x t assume s: "in_range s" "0 \<le> x"
    and cs: "cs = AList.update k (min 100 (f_add (or_default (map_of (rg_contributions s) k) 0) x)) (rg_contributions s)"
  have c: "list_all (\<lambda>x. is_flt x \<and> 0 \<le> x \<and> x \<le> 100) (map snd (rg_contributions s))" using s(1) by (simp add: in_range_def)
  have new: "list_all (\<lambda>x. is_flt x \<and> 0 \<le> x \<and> x \<le> 100) (map snd cs)"
    unfolding cs using contribution_in_range[OF c, of k] s(2) hundred_is_flt
    by (intro list_all_dict_update[OF c]) (simp add: f_add_def min_def)
  then have "0 \<le> f_sum (map snd cs)" by (intro f_sum_nonneg) (auto simp: list_all_iff)
  with new show "in_range (s\<lparr>rg_contributions := cs, rg_score := min 100 (f_sum (map snd cs)), rg_last_article_at := t\<rparr>)"
    by (simp add: in_range_def)
next
  fix s cs x assume s: "in_range s" "0 \<le> x" and cs: "cs = map (apsnd (decay_contribution x)) (rg_contributions s)"
  have "is_flt (decay_contribution x c) \<and> 0 \<le> decay_contribution x c \<and> decay_contribution x c \<le> 100"
    if "is_flt c" "0 \<le> c" "c \<le> 100" for c
  proof -
    have "f_sub c (f_mul c x) \<le> c"
      using that s(2) by (simp add: f_sub_def f_mul_def is_flt_def flt.rnd_diff_le)
    then show ?thesis using that by (auto simp: decay_contribution_def f_sub_def max_def is_flt_def)
  qed
  then have "list_all (\<lambda>x. is_flt x \<and> 0 \<le> x \<and> x \<le> 100) (map snd cs)"
    using s(1) by (auto simp: cs in_range_def list_all_iff)
  then show "in_range (s\<lparr>rg_contributions := cs, rg_score := min 100 (max 0 (f_sum (map snd cs)))\<rparr>)"
    by (simp add: in_range_def)
next
  fix s c assume s: "in_range s" "0 \<le> c" "c \<le> (100::rat)"
  have q: "is_flt (f_quot c 4) \<and> 0 \<le> f_quot c 4 \<and> f_quot c 4 \<le> 100"
    using s(2,3) zero_to_hundred[of "c / 4"] by (simp add: f_quot_def)
  have "list_all (\<lambda>x. is_flt x \<and> 0 \<le> x \<and> x \<le> 100) (map snd cs) \<Longrightarrow>
      list_all (\<lambda>x. is_flt x \<and> 0 \<le> x \<and> x \<le> 100) (map snd (foldl (\<lambda>cs f. AList.update (factor_value f) (f_quot c 4) cs) cs fs))" for cs fs
    using q by (induction fs arbitrary: cs) (simp_all add: list_all_dict_update)
  then show "in_range (s\<lparr>rg_score := c, rg_contributions := foldl (\<lambda>cs f. AList.update (factor_value f) (f_quot c 4) cs) (rg_contributions s) risk_factors\<rparr>)"
    using s by (simp add: in_range_def)
next
  fix g g' :: risk_scorer and w w' :: 'a assume "all_in_range g" "dispatch_pending_events bus g w = (g', w')"
  then show "all_in_range g'" by (auto simp: dispatch_pending_events_def all_in_range_def split: option.splits if_splits)
next
  fix g s r assume "all_in_range g" "in_range s"
  then show "all_in_range (put r s g)"
    by (auto simp: put_def check_threshold_crossing_def set_region_def all_in_range_def Let_def in_range_def [of "s\<lparr>rg_was_high_risk := _\<rparr>"]
        intro!: list_all_dict_update split: option.splits) (auto simp: in_range_def)
qed (simp_all add: all_in_range_def region_of_def region_in_range, auto simp: in_range_def list_all_iff is_flt_def)

lemma init_in_range: "0 \<le> rate \<Longrightarrow> all_in_range (risk_scorer_init rate)"
proof -
  have "in_range region_state_init" by (simp add: in_range_def region_state_init_def risk_factors_def is_flt_def)
  then show "0 \<le> rate \<Longrightarrow> all_in_range (risk_scorer_init rate)"
    by (simp add: all_in_range_def risk_scorer_init_def list_all_iff)
qed

text \<open>
  Claim: whatever articles, settings, resets and decays come, the score of every region and each
  of its contributions stays between 0 and 100, when the scorer starts with a decay rate that is not
  negative; and decay never raises a contribution.
\<close>

theorem scores_stay_in_range:
  assumes "0 \<le> rate" "risk_run bus rate w cs = (g, w')" "(r, s) \<in> set (gs_regions g)"
  shows "0 \<le> rg_score s \<and> rg_score s \<le> 100 \<and>
    (\<forall>(k, c) \<in> set (rg_contributions s). 0 \<le> c \<and> c \<le> 100 \<and>
       (0 < rg_score s \<longrightarrow> decay_contribution (f_quot (gs_decay_rate g) (rg_score s)) c \<le> c))"
proof -
  have ok: "all_in_range g" by (rule ranges.run[OF init_in_range[OF assms(1)] assms(2)])
  then have s: "in_range s" using assms(3) by (auto simp: all_in_range_def list_all_iff)
  have "0 < rg_score s \<Longrightarrow> 0 \<le> f_quot (gs_decay_rate g) (rg_score s)" using ok by (simp add: all_in_range_def f_quot_def)
  then have "decay_contribution (f_quot (gs_decay_rate g) (rg_score s)) c \<le> c" if "is_flt c" "0 \<le> c" "0 < rg_score s" for c
    using that by (simp add: decay_contribution_def f_sub_def f_mul_def is_flt_def flt.rnd_diff_le)
  then show ?thesis using s by (auto simp: in_range_def list_all_iff)
qed

definition sample_calls :: "risk_call list" where
  "sample_calls = [SetScore ''US'' 250, Article \<lparr>ra_region = ''Arctic'', ra_risk_factor = SANCTIONS, ra_severity = 3, ra_received_at = 0\<rparr>, Decay 0]"

lemma scores_stay_in_range_witness:
  "gs_regions (fst (risk_run None 2 () sample_calls)) \<noteq> [] \<and>
   (\<forall>(r, s) \<in> set (gs_regions (fst (risk_run None 2 () sample_calls))). 0 \<le> rg_score s \<and> rg_score s \<le> 100)"
proof
  show "gs_regions (fst (risk_run None 2 () sample_calls)) \<noteq> []" by code_simp
  have "risk_run None 2 () sample_calls = (fst (risk_run None 2 () sample_calls), ())" by (simp add: prod_eq_iff)
  from scores_stay_in_range[OF _ this]
  show "\<forall>(r, s) \<in> set (gs_regions (fst (risk_run None 2 () sample_calls))). 0 \<le> rg_score s \<and> rg_score s \<le> 100" by fastforce
qed

section \<open>Alerts tell the crossings\<close>

fun alternates :: "bool \<Rightarrow> bool list \<Rightarrow> bool" where
  "alternates b [] = True"
| "alternates b (x # xs) = (x = b \<and> alternates (\<not> b) xs)"

lemma alternates_snoc: "alternates b (xs @ [x]) \<longleftrightarrow> alternates b xs \<and> x = (if even (length xs) then b else \<not> b)"
  by (induction xs arbitrary: b) auto

definition alerts_for :: "string \<Rightarrow> risk_alert list \<Rightarrow> bool list" where
  "alerts_for r as = map rk_elevated (filter (\<lambda>a. rk_region a = r) as)"

definition high :: "region_state \<Rightarrow> bool" where
  "high s \<longleftrightarrow> of_int HIGH_RISK_THRESHOLD \<le> rg_score s"

definition alerts_ok :: "risk_scorer \<Rightarrow> risk_alert list \<Rightarrow> bool" where
  "alerts_ok g sent \<longleftrightarrow> 0 \<le> gs_decay_rate g \<and>
     (\<forall>r. alternates True (alerts_for r (sent @ gs_pending g)) \<and>
          (high (region_of r g) \<longleftrightarrow> odd (length (alerts_for r (sent @ gs_pending g)))))"

lemma region_set_region: "region_of r' (set_region r s g) = (if r' = r then s else region_of r' g)"
  by (simp add: region_of_def set_region_def or_default_def)

lemma put_effect:
  "gs_decay_rate (put r s g) = gs_decay_rate g"
  "high (region_of r' (put r s g)) = high (if r' = r then s else region_of r' g)"
  "alerts_for r' (sent @ gs_pending (put r s g)) =
     alerts_for r' (sent @ gs_pending g) @ (if r' = r \<and> high s \<noteq> high (region_of r g) then [high s] else [])"
  by (auto simp: put_def check_threshold_crossing_def set_region_def Let_def region_of_def or_default_def high_def alerts_for_def
      split: option.splits)

lemma alerts_put:
  assumes "alerts_ok g sent"
  shows "alerts_ok (put r s g) sent"
proof -
  have "alternates True (alerts_for r' (sent @ gs_pending (put r s g))) \<and>
      (high (region_of r' (put r s g)) \<longleftrightarrow> odd (length (alerts_for r' (sent @ gs_pending (put r s g)))))" for r'
    using assms unfolding put_effect alerts_ok_def by (cases "high s") (auto simp: alternates_snoc)
  then show ?thesis using assms by (simp add: alerts_ok_def put_effect(1))
qed

text \<open>A bus that notes what it is handed, whether publishing succeeds or not.\<close>

definition noted_bus :: "(risk_alert \<Rightarrow> risk_alert list \<Rightarrow> py_error + unit) \<Rightarrow> risk_alert list alert_bus" where
  "noted_bus outcome = Some (\<lambda>a w. (outcome a w, w @ [a]))"

lemma noted_dispatch: "foldl (\<lambda>w a. w @ [a]) w as = w @ as"
  by (induction as arbitrary: w) simp_all

lemma alerts_dispatch: "alerts_ok g w \<Longrightarrow> dispatch_pending_events (noted_bus outcome) g w = (g', w') \<Longrightarrow> alerts_ok g' w'"
  by (auto simp: dispatch_pending_events_def noted_bus_def noted_dispatch alerts_ok_def region_of_def split: if_splits)

interpretation alerts: region_law "\<lambda>s. True" alerts_ok "noted_bus outcome" for outcome
proof
  fix g g' w w' assume "alerts_ok g w" "dispatch_pending_events (noted_bus outcome) g w = (g', w')"
  then show "alerts_ok g' w'" by (rule alerts_dispatch)
qed (simp_all add: alerts_put, simp_all add: alerts_ok_def region_of_def)

text \<open>
  Claim C35: the alerts of a region, those handed to the bus followed by those still waiting, go up
  and down by turns beginning with an elevated one, and the score of the region is at or above the
  threshold exactly when the last of them is an elevated one: no crossing is lost, none told twice.
\<close>

theorem alerts_follow_the_scores:
  assumes "0 \<le> rate" "risk_run (noted_bus outcome) rate [] cs = (g, sent)"
  shows "alternates True (alerts_for r (sent @ gs_pending g)) \<and>
    (of_int HIGH_RISK_THRESHOLD \<le> rg_score (region_of r g) \<longleftrightarrow> odd (length (alerts_for r (sent @ gs_pending g))))"
proof -
  have "region_of r' (risk_scorer_init rate) = region_state_init" for r'
    by (simp add: region_of_def or_default_def risk_scorer_init_def map_of_map_restrict SUPPORTED_REGIONS_def)
  then have "alerts_ok (risk_scorer_init rate) []"
    using assms(1) by (simp add: alerts_ok_def alerts_for_def high_def risk_scorer_init_def region_state_init_def
        HIGH_RISK_THRESHOLD_def GEOPOLITICAL_RISK_HIGH_THRESHOLD_def)
  from alerts.run[OF this assms(2)] show ?thesis by (simp add: alerts_ok_def high_def)
qed

lemma alerts_follow_the_scores_witness:
  "alternates True (alerts_for ''US'' (snd (risk_run (noted_bus (\<lambda>_ _. Inl TimeoutError)) 2 [] [SetScore ''US'' 80, Dispatch, Reset ''US'', Dispatch])))"
proof -
  obtain g sent where g: "risk_run (noted_bus (\<lambda>_ _. Inl TimeoutError)) 2 [] [SetScore ''US'' 80, Dispatch, Reset ''US'', Dispatch] = (g, sent)"
    by fastforce
  moreover have "gs_pending g = []"
    using g by (auto simp: risk_run_def dispatch_pending_events_def noted_bus_def split: if_splits)
  ultimately show ?thesis using alerts_follow_the_scores[OF _ g, of "''US''"] by simp
qed

section \<open>Where the code departs from its documentation\<close>

text \<open>The score shown is rounded, the crossing is not: a region counts as high without an alert.\<close>

theorem high_risk_without_alert:
  "let g = set_score ''US'' (139 / 2) (risk_scorer_init 2) in is_high_risk ''US'' g \<and> gs_pending g = []"
  by code_simp

text \<open>Decay also takes from a region whose article arrived at that moment.\<close>

theorem fresh_article_decays:
  "let g = process_article \<lparr>ra_region = ''US'', ra_risk_factor = ARMED_CONFLICT, ra_severity = 1, ra_received_at = 0\<rparr> (risk_scorer_init 2)
   in rg_score (region_of ''US'' (apply_decay 0 g)) < rg_score (region_of ''US'' g)"
  by code_simp

end
