(* ===== verification/News_Safety.thy ===== *)
theory News_Safety
  imports Texts
begin

text \<open>
  The news overlay of the trading loop, \<open>src/news/free_news_safety.py\<close>: the layer with its cache,
  the scores of headlines, the keys under which symbols, currencies and duplicates are compared.
  The providers of calendars and headlines are clients of outside services, here actions on an
  outside world that may raise; the layer lets nothing they raise through.  Texts are ASCII, and
  the value of a field of a provider's answer is given to the normalising functions as its text.
\<close>

section \<open>Data\<close>

definition SYMBOL_KEYWORDS :: "(string, string list) dict" where
  "SYMBOL_KEYWORDS =
     [(''XAUUSD'', [''gold'', ''fed'', ''powell'', ''cpi'', ''inflation'', ''interest rates'', ''tariff'', ''trump'', ''war'',
                    ''geopolitical risk'', ''yields'', ''us dollar'']),
      (''BTCUSD'', [''bitcoin'', ''btc'', ''crypto'', ''etf'', ''sec'', ''trump'', ''regulation'', ''risk assets'', ''liquidity'']),
      (''EURUSD'', [''eur'', ''euro'', ''ecb'', ''fed'', ''cpi'', ''inflation'', ''gdp'', ''usd'']),
      (''GBPUSD'', [''gbp'', ''pound'', ''boe'', ''uk inflation'', ''fed'', ''usd'']),
      (''USDJPY'', [''jpy'', ''yen'', ''boj'', ''intervention'', ''fed'', ''yields'', ''us dollar''])]"

definition SYMBOL_CURRENCIES :: "(string, string list) dict" where
  "SYMBOL_CURRENCIES = [(''XAUUSD'', [''USD'']), (''BTCUSD'', [''USD'']), (''EURUSD'', [''EUR'', ''USD'']),
     (''GBPUSD'', [''GBP'', ''USD'']), (''USDJPY'', [''USD'', ''JPY''])]"

datatype overlay_action = ALLOW_NORMAL | REQUIRE_EXTRA_CONFIRMATION | REDUCE_SIZE | BLOCK_TRADE

record calendar_event =
  ce_title :: string
  ce_timestamp :: micros
  ce_impact :: string
  ce_currency :: string
  ce_source :: string

record news_headline =
  hl_title :: string
  hl_published_at :: micros
  hl_source :: string
  hl_sentiment :: "pyfloat option"

record news_risk_decision =
  nr_score :: int
  nr_action :: overlay_action
  nr_headlines :: "string list"
  nr_events :: "fmsg list"
  nr_reason :: string

definition plain_decision :: "int \<Rightarrow> overlay_action \<Rightarrow> string \<Rightarrow> news_risk_decision" where
  "plain_decision score action reason = \<lparr>nr_score = score, nr_action = action, nr_headlines = [], nr_events = [], nr_reason = reason\<rparr>"

record 'w news_provider =
  pv_fetch_calendar :: "micros \<Rightarrow> micros \<Rightarrow> ('w, calendar_event list) action"
  pv_fetch_headlines :: "string list \<Rightarrow> micros \<Rightarrow> ('w, news_headline list) action"
  pv_provides_calendar :: bool

section \<open>Texts\<close>

definition normalise_symbol :: "string \<Rightarrow> string" where
  "normalise_symbol v =
     (let compact = filter is_alnum (py_upper v) in
      if compact = ''BTCUSDT'' then ''BTCUSD''
      else case find (\<lambda>s. contains_text s compact) (map fst SYMBOL_KEYWORDS) of Some s \<Rightarrow> s | None \<Rightarrow> compact)"

definition normalise_currency :: "string \<Rightarrow> string" where
  "normalise_currency v =
     (let c = py_upper v in
      or_default (map_of [(''US'', ''USD''), (''USA'', ''USD''), (''EU'', ''EUR''), (''EMU'', ''EUR''), (''GB'', ''GBP''),
        (''UK'', ''GBP''), (''JP'', ''JPY'')] c) c)"

definition normalise_impact :: "string \<Rightarrow> string" where
  "normalise_impact v =
     (let i = py_upper (if v = [] then ''LOW'' else v) in
      if i \<in> {''HIGH'', ''3'', ''3.0''} then ''HIGH''
      else if i \<in> {''MEDIUM'', ''MODERATE'', ''2'', ''2.0''} then ''MEDIUM'' else ''LOW'')"

section \<open>Scores\<close>

definition any_in :: "string list \<Rightarrow> string \<Rightarrow> bool" where
  "any_in terms text = list_ex (\<lambda>t. contains_text t text) terms"

definition matches_keywords :: "string \<Rightarrow> string list \<Rightarrow> bool" where
  "matches_keywords title keywords = list_ex (\<lambda>k. contains_text (py_lower k) (py_lower title)) keywords"

definition headline_score :: "string \<Rightarrow> news_headline \<Rightarrow> int" where
  "headline_score symbol h =
     (let text = py_lower (hl_title h);
          s0 = 25;
          s1 = (if any_in [''trump'', ''tariff'', ''war'', ''attack'', ''sanction'', ''intervention''] text then max s0 65
                else if any_in [''fed'', ''powell'', ''ecb'', ''boe'', ''boj'', ''cpi'', ''inflation'', ''yields''] text then max s0 45 else s0);
          s2 = (if any_in [''emergency'', ''breaking'', ''invasion'', ''nuclear'', ''market crash''] text then max s1 85 else s1);
          s3 = (if symbol = ''BTCUSD'' \<and> any_in [''sec'', ''regulation'', ''etf'', ''liquidity''] text then max s2 55 else s2)
      in case hl_sentiment h of
           None \<Rightarrow> s3
         | Some x \<Rightarrow> if flt (3 / 5) \<le> \<bar>x\<bar> then max s3 60 else s3)"

definition action_for_score :: "int \<Rightarrow> overlay_action" where
  "action_for_score s =
     (if 80 \<le> s then BLOCK_TRADE else if 55 \<le> s then REDUCE_SIZE
      else if 35 \<le> s then REQUIRE_EXTRA_CONFIRMATION else ALLOW_NORMAL)"

definition reason_for_action :: "overlay_action \<Rightarrow> bool \<Rightarrow> string" where
  "reason_for_action a matched =
     (if \<not> matched then ''no_relevant_recent_news''
      else case a of
        ALLOW_NORMAL \<Rightarrow> ''low_impact_relevant_news''
      | REQUIRE_EXTRA_CONFIRMATION \<Rightarrow> ''moderate_news_risk''
      | REDUCE_SIZE \<Rightarrow> ''elevated_news_risk''
      | BLOCK_TRADE \<Rightarrow> ''severe_breaking_news_risk'')"

section \<open>Duplicates\<close>

text \<open>\<open>{key(x): x for x in xs}.values()\<close>: a later one replaces an earlier one in its place.\<close>

definition deduplicate :: "('a \<Rightarrow> 'k) \<Rightarrow> 'a list \<Rightarrow> 'a list" where
  "deduplicate key xs = map snd (foldl (\<lambda>d x. AList.update (key x) x d) [] xs)"

definition deduplicate_events :: "calendar_event list \<Rightarrow> calendar_event list" where
  "deduplicate_events = deduplicate (\<lambda>e. (ce_title e, ce_timestamp e, ce_currency e))"

definition deduplicate_headlines :: "news_headline list \<Rightarrow> news_headline list" where
  "deduplicate_headlines = deduplicate (\<lambda>h. py_lower (hl_title h))"

section \<open>The layer\<close>

record 'w safety_layer =
  fl_providers :: "'w news_provider list"
  fl_enabled :: bool
  fl_check_interval :: micros
  fl_block_before :: micros
  fl_block_after :: micros
  fl_calendar :: "calendar_event list"
  fl_headlines :: "(string, news_headline list) dict"
  fl_last_refresh :: "micros option"
  fl_calendar_available :: bool

definition safety_layer_init :: "'w news_provider list \<Rightarrow> bool \<Rightarrow> int \<Rightarrow> int \<Rightarrow> int \<Rightarrow> 'w safety_layer" where
  "safety_layer_init providers enabled interval before after =
     \<lparr>fl_providers = providers, fl_enabled = enabled, fl_check_interval = minutes (max 1 interval),
      fl_block_before = minutes (max 0 before), fl_block_after = minutes (max 0 after), fl_calendar = [], fl_headlines = [],
      fl_last_refresh = None, fl_calendar_available = False\<rparr>"

definition all_keywords :: "string list" where
  "all_keywords = deduplicate (\<lambda>k. k) (concat (map snd SYMBOL_KEYWORDS))"

text \<open>What a refresh has gathered so far.\<close>

record gathered =
  ga_calendar :: "calendar_event list"
  ga_headlines :: "(string, news_headline list) dict"
  ga_available :: bool

definition ask_provider :: "micros \<Rightarrow> micros \<Rightarrow> micros \<Rightarrow> gathered \<times> 'w \<Rightarrow> 'w news_provider \<Rightarrow> gathered \<times> 'w" where
  "ask_provider start stop since gw p =
     (case gw of (g, w) \<Rightarrow>
        case pv_fetch_calendar p start stop w of (events, w1) \<Rightarrow>
          let g1 = (case events of
                      Inl _ \<Rightarrow> g
                    | Inr es \<Rightarrow> g\<lparr>ga_available := (ga_available g \<or> pv_provides_calendar p), ga_calendar := ga_calendar g @ es\<rparr>)
          in case pv_fetch_headlines p all_keywords since w1 of (headlines, w2) \<Rightarrow>
            (case headlines of
               Inl _ \<Rightarrow> g1
             | Inr hs \<Rightarrow> g1\<lparr>ga_headlines := map (apsnd (\<lambda>xs. xs @ hs)) (ga_headlines g1)\<rparr>, w2))"

definition is_fresh :: "micros \<Rightarrow> 'w safety_layer \<Rightarrow> bool" where
  "is_fresh now l \<longleftrightarrow> (case fl_last_refresh l of None \<Rightarrow> False | Some t \<Rightarrow> now - t < fl_check_interval l)"

definition refresh :: "micros \<Rightarrow> 'w safety_layer \<Rightarrow> 'w \<Rightarrow> 'w safety_layer \<times> 'w" where
  "refresh now l w =
     (if is_fresh now l then (l, w)
      else case foldl (ask_provider (now - fl_block_after l) (now + fl_block_before l) (now - hours 12))
                  (\<lparr>ga_calendar = [], ga_headlines = map (\<lambda>s. (s, [])) (map fst SYMBOL_KEYWORDS), ga_available = False\<rparr>, w)
                  (fl_providers l) of (g, w') \<Rightarrow>
        (l\<lparr>fl_calendar := deduplicate_events (ga_calendar g),
           fl_headlines := map (apsnd deduplicate_headlines) (ga_headlines g),
           fl_calendar_available := ga_available g, fl_last_refresh := Some now\<rparr>, w'))"

definition in_block_window :: "'w safety_layer \<Rightarrow> string \<Rightarrow> micros \<Rightarrow> calendar_event \<Rightarrow> bool" where
  "in_block_window l symbol now e \<longleftrightarrow>
     ce_impact e = ''HIGH'' \<and> ce_currency e \<in> set (or_default (map_of SYMBOL_CURRENCIES symbol) []) \<and>
     ce_timestamp e - fl_block_before l \<le> now \<and> now \<le> ce_timestamp e + fl_block_after l"

text \<open>The verdict on a supported symbol from what the layer holds.\<close>

definition relevant_headlines :: "'w safety_layer \<Rightarrow> string \<Rightarrow> news_headline list" where
  "relevant_headlines l symbol =
     filter (\<lambda>h. matches_keywords (hl_title h) (or_default (map_of SYMBOL_KEYWORDS symbol) []))
       (or_default (map_of (fl_headlines l) symbol) [])"

definition judge :: "'w safety_layer \<Rightarrow> string \<Rightarrow> micros \<Rightarrow> news_risk_decision" where
  "judge l symbol now =
     (if \<not> fl_calendar_available l then plain_decision 100 BLOCK_TRADE ''economic_calendar_unavailable_fail_closed''
      else
        let events = filter (in_block_window l symbol now) (fl_calendar l) in
        if events \<noteq> []
        then (plain_decision 100 BLOCK_TRADE ''high_impact_economic_event_window'')
          \<lparr>nr_events := take 10 (map (\<lambda>e. FMsg ''{} ({}, {})'' [FStr (ce_title e), FStr (ce_currency e), FInt (ce_timestamp e)]) events)\<rparr>
        else
          let matched = relevant_headlines l symbol;
              score = foldl max 0 (map (headline_score symbol) matched);
              action = action_for_score score
          in (plain_decision score action (reason_for_action action (matched \<noteq> [])))
               \<lparr>nr_headlines := take 10 (map hl_title matched)\<rparr>)"

definition evaluate_safety :: "micros \<Rightarrow> string \<Rightarrow> bool \<Rightarrow> 'w safety_layer \<Rightarrow> 'w \<Rightarrow> news_risk_decision \<times> 'w safety_layer \<times> 'w" where
  "evaluate_safety now symbol strategy_signal l w =
     (let s = normalise_symbol symbol in
      if \<not> strategy_signal then (plain_decision 100 BLOCK_TRADE ''no_strategy_signal'', l, w)
      else if \<not> fl_enabled l then (plain_decision 0 ALLOW_NORMAL ''news_filter_disabled'', l, w)
      else if s \<notin> set (map fst SYMBOL_KEYWORDS) then (plain_decision 100 BLOCK_TRADE ''unsupported_symbol_for_news_filter'', l, w)
      else case refresh now l w of (l', w') \<Rightarrow> (judge l' s now, l', w'))"

definition calendar_events :: "micros \<Rightarrow> string \<Rightarrow> 'w safety_layer \<Rightarrow> 'w \<Rightarrow> calendar_event list option \<times> 'w safety_layer \<times> 'w" where
  "calendar_events now symbol l w =
     (case refresh now l w of (l', w') \<Rightarrow>
        (if \<not> fl_calendar_available l' then None
         else Some (filter (\<lambda>e. ce_currency e \<in> set (or_default (map_of SYMBOL_CURRENCIES (normalise_symbol symbol)) [])) (fl_calendar l')),
         l', w'))"

section \<open>A trade that is let through\<close>



lemma refresh_settings:
  "fl_block_before (fst (refresh now l w)) = fl_block_before l" "fl_block_after (fst (refresh now l w)) = fl_block_after l"
  "fl_check_interval (fst (refresh now l w)) = fl_check_interval l" "fl_providers (fst (refresh now l w)) = fl_providers l"
  "fl_enabled (fst (refresh now l w)) = fl_enabled l"
  by (auto simp: refresh_def split: prod.split)


text \<open>A provider that answers with the events it is asked for, as the one of the week's calendar does.\<close>

definition week_provider :: "calendar_event list \<Rightarrow> unit news_provider" where
  "week_provider es = \<lparr>pv_fetch_calendar = (\<lambda>start stop. returnA (filter (\<lambda>e. start \<le> ce_timestamp e \<and> ce_timestamp e \<le> stop) es)),
     pv_fetch_headlines = (\<lambda>_ _. returnA []), pv_provides_calendar = True\<rparr>"


text \<open>
  Claim: the layer fails closed: when no provider of a calendar answers a refresh that is due,
  every trade is blocked, whatever the other providers say, and the calendar is not available to
  the strategy either.
\<close>

theorem news_layer_fails_closed:
  assumes "fl_enabled l" "\<not> is_fresh now l"
    and failing: "\<And>p start stop w. p \<in> set (fl_providers l) \<Longrightarrow> pv_provides_calendar p \<Longrightarrow> \<exists>e. fst (pv_fetch_calendar p start stop w) = Inl e"
  shows "nr_action (fst (evaluate_safety now symbol signal l w)) = BLOCK_TRADE \<and> fst (calendar_events now symbol l w) = None"
proof -
  have step: "ga_available (fst (ask_provider a b c gw p)) \<longleftrightarrow> ga_available (fst gw)" if p: "p \<in> set (fl_providers l)" for a b c gw p
  proof (cases "pv_provides_calendar p")
    case True
    obtain g w where gw: "gw = (g, w)" by (cases gw)
    obtain e w1 where "pv_fetch_calendar p a b w = (Inl e, w1)" using failing[OF p True, of a b w] by (metis prod.collapse)
    then show ?thesis by (simp add: ask_provider_def gw split: prod.split sum.split)
  qed (simp add: ask_provider_def Let_def split: prod.split sum.split)
  have "ga_available (fst (foldl (ask_provider a b c) gw ps)) \<longleftrightarrow> ga_available (fst gw)"
    if "set ps \<subseteq> set (fl_providers l)" for a b c gw ps
    using that by (induction ps arbitrary: gw) (simp_all add: step)
  from this[OF subset_refl] have "\<not> fl_calendar_available (fst (refresh now l w))"
    using assms(2) by (auto simp: refresh_def split: prod.split) (metis fst_conv gathered.select_convs(3))
  then show ?thesis
    using assms(1) by (auto simp: evaluate_safety_def calendar_events_def judge_def Let_def plain_decision_def split: prod.split)
qed

definition broken_provider :: "unit news_provider" where
  "broken_provider = \<lparr>pv_fetch_calendar = (\<lambda>_ _. raiseA TimeoutError), pv_fetch_headlines = (\<lambda>_ _. returnA []), pv_provides_calendar = True\<rparr>"

lemma news_layer_fails_closed_witness:
  "nr_action (fst (evaluate_safety 0 ''EURUSD'' True (safety_layer_init [broken_provider] True 10 30 45) ())) = BLOCK_TRADE"
  by (rule conjunct1, rule news_layer_fails_closed)
    (auto simp: safety_layer_init_def is_fresh_def broken_provider_def raiseA_def)

section \<open>Gaps\<close>

text \<open>An event comes into its window between two refreshes: the calendar in the cache ends where the
  window of the last refresh ended, so the trade is let through eight minutes before the blocking
  that starts with the next refresh.\<close>

definition rate_decision :: calendar_event where
  "rate_decision = \<lparr>ce_title = ''Rate decision'', ce_timestamp = minutes 31, ce_impact = ''HIGH'', ce_currency = ''USD'', ce_source = ''ForexFactory''\<rparr>"

theorem event_missed_between_refreshes:
  "let l = safety_layer_init [week_provider [rate_decision]] True 10 30 45;
       (d0, l0, w0) = evaluate_safety 0 ''EURUSD'' True l ();
       (d1, l1, w1) = evaluate_safety (minutes 9) ''EURUSD'' True l0 w0
   in nr_action d1 = ALLOW_NORMAL \<and> in_block_window l1 ''EURUSD'' (minutes 9) rate_decision"
  by code_simp

text \<open>Of two copies of an event the later counts, also when it has the lower impact.\<close>

theorem later_copy_lowers_impact:
  "deduplicate_events [rate_decision, rate_decision\<lparr>ce_impact := ''LOW''\<rparr>] = [rate_decision\<lparr>ce_impact := ''LOW''\<rparr>]"
  by code_simp

text \<open>Terms are found inside other words.\<close>

theorem award_counts_as_war:
  "headline_score ''XAUUSD'' \<lparr>hl_title = ''Gold miner wins award'', hl_published_at = 0, hl_source = ''FMP'', hl_sentiment = None\<rparr> = 65"
  by code_simp

end
