(* ===== verification/Position_Sizer.thy ===== *)
theory Position_Sizer
  imports Constants
begin

text \<open>
  ATR-based position sizing, \<open>src/risk/position_sizer.py\<close>: the base size, the volatility
  reduction, the multiplicative chain of reduction factors, the rounding to hundredths and the
  two limits.  A zero stop distance and a size of more than 26 digits before the point raise.
\<close>

section \<open>Data\<close>

record reduction_factor =
  rf_source :: string
  rf_factor :: pyfloat
  rf_reason :: fmsg

record position_size_result =
  sz_size :: "decimal option"
  sz_rejected :: bool
  sz_rejection_reason :: "fmsg option"
  sz_applied_reductions :: "reduction_factor list"

definition MIN_LOT_SIZE :: decimal where
  "MIN_LOT_SIZE = 1 / 100"

section \<open>The calculation\<close>

definition size_rejected :: "string \<Rightarrow> reduction_factor list \<Rightarrow> position_size_result" where
  "size_rejected why applied =
     \<lparr>sz_size = None, sz_rejected = True, sz_rejection_reason = Some (FMsg why []),
      sz_applied_reductions = applied\<rparr>"

definition volatility_reduction :: "pyfloat \<Rightarrow> reduction_factor list" where
  "volatility_reduction zscore =
     (if ATR_VOLATILITY_ZSCORE_THRESHOLD < zscore
      then [\<lparr>rf_source = ''volatility'', rf_factor = VOLATILITY_SIZE_REDUCTION_FACTOR,
             rf_reason = FMsg ''ATR z-score {:.2f} exceeds threshold {}; reducing size by 50%''
                           [FNum zscore, FNum ATR_VOLATILITY_ZSCORE_THRESHOLD]\<rparr>]
      else [])"

definition apply_factors :: "decimal \<Rightarrow> reduction_factor list \<Rightarrow> decimal" where
  "apply_factors base applied = foldl (\<lambda>s rf. d_mul s (dec_of_float (rf_factor rf))) base applied"

definition calculate_size ::
  "decimal \<Rightarrow> decimal \<Rightarrow> decimal \<Rightarrow> decimal \<Rightarrow> pyfloat \<Rightarrow> reduction_factor list option \<Rightarrow> decimal
   \<Rightarrow> py_error + position_size_result" where
  "calculate_size equity risk_pct atr atr_multiplier zscore factors min_lot =
     (if equity \<le> 0 then Inr (size_rejected ''account equity must be positive'' [])
      else if risk_pct \<le> 0 \<or> dec_of_float MAX_POSITION_SIZE_PCT < risk_pct
      then Inr (size_rejected ''risk percentage must be between 0 (exclusive) and 5% (inclusive)'' [])
      else if atr \<le> 0 then Inr (size_rejected ''insufficient volatility data'' [])
      else bindE (d_div (d_mul equity risk_pct) (d_mul atr atr_multiplier)) (\<lambda>base.
        let applied = volatility_reduction zscore @ (case factors of Some fs \<Rightarrow> fs | None \<Rightarrow> [])
        in bindE (quantize_down (apply_factors base applied)) (\<lambda>final.
          if d_mul equity (dec_of_float MAX_POSITION_SIZE_PCT) < final
          then Inr (size_rejected ''position size limit exceeded'' applied)
          else if final < min_lot
          then Inr (size_rejected ''below minimum lot size'' applied)
          else Inr \<lparr>sz_size = Some final, sz_rejected = False, sz_rejection_reason = None,
                    sz_applied_reductions = applied\<rparr>)))"

section \<open>Lemmas\<close>

text \<open>A factor list that only reduces: floats between 0 and 1.\<close>

definition reducing :: "reduction_factor list \<Rightarrow> bool" where
  "reducing fs \<longleftrightarrow> list_all (\<lambda>rf. is_flt (rf_factor rf) \<and> 0 \<le> rf_factor rf \<and> rf_factor rf \<le> 1) fs"

lemma reducing_simps [simp]:
  "reducing []"
  "reducing (rf # fs) \<longleftrightarrow> is_flt (rf_factor rf) \<and> 0 \<le> rf_factor rf \<and> rf_factor rf \<le> 1 \<and> reducing fs"
  "reducing (fs @ gs) \<longleftrightarrow> reducing fs \<and> reducing gs"
  by (auto simp: reducing_def)

lemma half_is_flt [simp]: "is_flt (1 / 2)"
  by code_simp

lemma reducing_volatility [simp]: "reducing (volatility_reduction z)"
  by (simp add: volatility_reduction_def)

lemma apply_factors_map:
  "apply_factors base fs = foldl (\<lambda>s f. dec (s * f)) base (map (\<lambda>rf. dec_of_float (rf_factor rf)) fs)"
  by (simp add: apply_factors_def foldl_map d_mul_def)

lemma apply_factors_append: "apply_factors base (fs @ gs) = apply_factors (apply_factors base fs) gs"
  by (simp add: apply_factors_def)

lemma apply_factors_bounds:
  assumes "is_dec base" "0 \<le> base" "reducing fs"
  shows "0 \<le> apply_factors base fs" "apply_factors base fs \<le> base"
  using dec.rnd_prod_bounds[of base "map (\<lambda>rf. dec_of_float (rf_factor rf)) fs"] assms
  by (auto simp: apply_factors_map reducing_def list_all_iff dec_of_float_unit)

lemma apply_factors_is_dec: "is_dec base \<Longrightarrow> is_dec (apply_factors base fs)"
  using dec.rnd_prod_rep[of base] by (simp add: apply_factors_map is_dec_def)

lemma calculate_size_Some:
  assumes "calculate_size equity risk atr mult z factors min_lot = Inr res" "sz_size res = Some sz"
  obtains applied where
    "applied = volatility_reduction z @ (case factors of Some fs \<Rightarrow> fs | None \<Rightarrow> [])"
    "sz_applied_reductions res = applied" "\<not> sz_rejected res"
    "0 < equity" "0 < risk" "risk \<le> 1 / 20" "0 < atr" "d_mul atr mult \<noteq> 0"
    "quantize_down (apply_factors (d_quot (d_mul equity risk) (d_mul atr mult)) applied) = Inr sz"
    "sz \<le> d_mul equity (1 / 20)" "min_lot \<le> sz"
  using assms
  by (auto simp: calculate_size_def size_rejected_def bindE_Inr_iff d_div_def d_quot_def Let_def not_le not_less
      split: if_splits)

lemma base_size_nonneg:
  "0 < equity \<Longrightarrow> 0 < risk \<Longrightarrow> 0 < atr \<Longrightarrow> 0 < mult \<Longrightarrow>
     0 \<le> d_quot (d_mul equity risk) (d_mul atr mult)"
  by (simp add: num_defs)

lemma quantize_down_ok: "0 \<le> x \<Longrightarrow> x < 10 ^ 26 \<Longrightarrow> \<exists>y. quantize_down x = Inr y"
proof -
  assume x: "0 \<le> x" "x < 10 ^ 26"
  have "0 \<le> d_int (x * 100)" "of_int (d_int (x * 100)) \<le> x * 100" using d_int_nonneg[of "x * 100"] x by auto
  moreover have "x * 100 < of_int (10 ^ 28)" using x by simp
  ultimately have "d_int (x * 100) < 10 ^ 28" by (metis of_int_less_iff order_le_less_trans)
  then show ?thesis using \<open>0 \<le> d_int (x * 100)\<close>
    by (intro exI[of _ "of_int (d_int (x * 100)) / 100"]) (simp add: quantize_down_def cents_def)
qed

lemma quantize_down_hundredths: "quantize_down x = Inr y \<Longrightarrow> \<exists>n. y = of_int n / 100"
  by (rule exI[of _ "d_int (x * 100)"]) (simp add: quantize_down_def cents_def split: if_splits)

lemma quantize_down_mono:
  assumes "quantize_down x = Inr a" "quantize_down y = Inr b" "0 \<le> x" "x \<le> y"
  shows "a \<le> b"
proof -
  have "\<lfloor>x * 100\<rfloor> \<le> \<lfloor>y * 100\<rfloor>" using assms(4) by (intro floor_mono) simp
  then have "(of_int \<lfloor>x * 100\<rfloor> :: rat) \<le> of_int \<lfloor>y * 100\<rfloor>" by (simp only: of_int_le_iff)
  moreover have "a = of_int \<lfloor>x * 100\<rfloor> / 100" "b = of_int \<lfloor>y * 100\<rfloor> / 100"
    using assms by (auto simp: quantize_down_def cents_def d_int_def split: if_splits)
  ultimately show ?thesis by (simp add: divide_right_mono)
qed

section \<open>What the sizer guarantees\<close>

text \<open>
  Claim C18: an accepted size lies between the minimum lot and 5% of the equity, is a whole
  number of hundredths, and with reducing factors never exceeds the unreduced ATR size
  \<open>(equity * risk) / (atr * multiplier)\<close>.
\<close>

theorem accepted_size_bounds:
  assumes "calculate_size equity risk atr mult z (Some fs) min_lot = Inr res" "sz_size res = Some sz"
    and "reducing fs" "0 < mult"
  shows "min_lot \<le> sz \<and> sz \<le> d_mul equity (1 / 20) \<and> (\<exists>n. sz = of_int n / 100) \<and>
    0 \<le> sz \<and> sz \<le> d_quot (d_mul equity risk) (d_mul atr mult)"
proof -
  from assms(1,2) obtain applied where a:
    "applied = volatility_reduction z @ fs" "0 < equity" "0 < risk" "0 < atr"
    "quantize_down (apply_factors (d_quot (d_mul equity risk) (d_mul atr mult)) applied) = Inr sz"
    "sz \<le> d_mul equity (1 / 20)" "min_lot \<le> sz"
    by (elim calculate_size_Some) auto
  have red: "reducing applied" using assms(3) by (simp add: a(1))
  note b = apply_factors_bounds[OF is_dec_ops(5) base_size_nonneg[OF a(2,3,4) assms(4)] red]
  note q = quantize_down_bounds[OF a(5) b(1)]
  have "\<exists>n. sz = of_int n / 100" using a(5) by (rule quantize_down_hundredths)
  then show ?thesis using a(6,7) q(1,2) b(2) by simp
qed

definition halving :: "reduction_factor list" where
  "halving = [\<lparr>rf_source = ''drawdown'', rf_factor = 1/2, rf_reason = FMsg ''halve'' []\<rparr>]"

lemma sample_sizing:
  "d_mul 10000 (1 / 100) = 100" "d_mul 10 1 = 10" "d_div 100 10 = Inr 10" "d_mul 10 (1 / 2) = 5"
  "quantize_down 10 = Inr 10" "quantize_down 5 = Inr 5" "d_mul 10000 (1 / 20) = 500"
  by code_simp+

lemma sample_sizes:
  "calculate_size 10000 (1/100) 10 1 0 (Some []) (1/100)
     = Inr \<lparr>sz_size = Some 10, sz_rejected = False, sz_rejection_reason = None, sz_applied_reductions = []\<rparr>"
  "calculate_size 10000 (1/100) 10 1 0 (Some halving) (1/100)
     = Inr \<lparr>sz_size = Some 5, sz_rejected = False, sz_rejection_reason = None, sz_applied_reductions = halving\<rparr>"
  "reducing halving"
  by (simp_all add: calculate_size_def sample_sizing volatility_reduction_def apply_factors_def halving_def)

theorem accepted_size_bounds_witness:
  "\<exists>res. calculate_size 10000 (1/100) 10 1 0 (Some halving) (1/100) = Inr res \<and> sz_size res = Some 5 \<and>
     1 / 100 \<le> (5 :: rat) \<and> 5 \<le> d_mul 10000 (1 / 20) \<and> 5 \<le> d_quot (d_mul 10000 (1/100)) (d_mul 10 1)"
proof -
  from accepted_size_bounds[OF sample_sizes(2) _ sample_sizes(3)] show ?thesis by (simp add: sample_sizes(2))
qed

text \<open>
  Claim: a further reduction factor between 0 and 1 never increases an accepted size,
  wherever the sizer accepts both factor lists (reductions only ever multiply).
\<close>

theorem reductions_never_increase_size:
  assumes "calculate_size equity risk atr mult z (Some fs) min_lot = Inr res" "sz_size res = Some sz"
    and "calculate_size equity risk atr mult z (Some (fs @ gs)) min_lot = Inr res'" "sz_size res' = Some sz'"
    and "reducing fs" "reducing gs" "0 < mult"
  shows "sz' \<le> sz"
proof -
  let ?base = "d_quot (d_mul equity risk) (d_mul atr mult)"
  let ?mid = "apply_factors ?base (volatility_reduction z @ fs)"
  from assms(1,2) have a: "0 < equity" "0 < risk" "0 < atr" "quantize_down ?mid = Inr sz"
    by (auto elim!: calculate_size_Some)
  from assms(3,4) have b: "quantize_down (apply_factors ?mid gs) = Inr sz'"
    by (auto elim!: calculate_size_Some simp: apply_factors_append [symmetric])
  have mid: "is_dec ?mid" "0 \<le> ?mid"
    using assms(5) base_size_nonneg[OF a(1-3) assms(7)] by (auto intro!: apply_factors_is_dec apply_factors_bounds)
  note m = apply_factors_bounds[OF mid assms(6)]
  from quantize_down_mono[OF b a(4) m] show ?thesis .
qed

theorem reductions_never_increase_size_witness:
  "\<exists>res res' a b. calculate_size 10000 (1/100) 10 1 0 (Some []) (1/100) = Inr res \<and> sz_size res = Some a \<and>
     calculate_size 10000 (1/100) 10 1 0 (Some ([] @ halving)) (1/100) = Inr res' \<and> sz_size res' = Some b \<and> b \<le> a"
proof -
  note a = sample_sizes(1) and r = sample_sizes(3)
  have b: "calculate_size 10000 (1/100) 10 1 0 (Some ([] @ halving)) (1/100)
      = Inr \<lparr>sz_size = Some 5, sz_rejected = False, sz_rejection_reason = None, sz_applied_reductions = halving\<rparr>"
    by (simp add: sample_sizes)
  from reductions_never_increase_size[OF a _ b _ _ r] have "(5 :: rat) \<le> 10" by simp
  with a b show ?thesis by (intro exI conjI) auto
qed

text \<open>
  Claim: with a positive ATR multiplier and a base size below \<open>10^26\<close> the sizer never
  raises: every input, also a non-positive equity, risk or ATR, gets a size or a rejection with
  a reason.
\<close>

theorem calculate_size_total:
  assumes "0 < mult" "d_quot (d_mul equity risk) (d_mul atr mult) < 10 ^ 26"
    and "reducing (case factors of Some fs \<Rightarrow> fs | None \<Rightarrow> [])"
  shows "\<exists>res. calculate_size equity risk atr mult z factors min_lot = Inr res \<and>
    sz_rejected res = (sz_size res = None) \<and> sz_rejected res = (sz_rejection_reason res \<noteq> None)"
proof (cases "0 < equity \<and> 0 < risk \<and> risk \<le> 1 / 20 \<and> 0 < atr")
  case False
  then show ?thesis by (auto simp: calculate_size_def size_rejected_def)
next
  case True
  let ?base = "d_quot (d_mul equity risk) (d_mul atr mult)"
  let ?applied = "volatility_reduction z @ (case factors of Some fs \<Rightarrow> fs | None \<Rightarrow> [])"
  have nz: "d_mul atr mult \<noteq> 0" using True assms(1) by (simp add: d_mul_def)
  have "reducing ?applied" using assms(3) by simp
  note b = apply_factors_bounds[OF is_dec_ops(5) base_size_nonneg this]
  obtain y where "quantize_down (apply_factors ?base ?applied) = Inr y"
    using quantize_down_ok[of "apply_factors ?base ?applied"] b[of equity risk atr mult] True assms(1,2) by auto
  then show ?thesis using True nz
    by (auto simp: calculate_size_def size_rejected_def d_div_quot Let_def)
qed

theorem calculate_size_total_witness:
  "\<exists>res. calculate_size 10000 (1/100) 0 (3/2) 0 None (1/100) = Inr res \<and> sz_rejected res = (sz_size res = None)"
proof -
  have "d_quot (d_mul 10000 (1/100)) (d_mul 0 (3/2)) < 10 ^ 26" by code_simp
  from calculate_size_total[OF _ this, of None 0 "1/100"] show ?thesis by auto
qed

end
