(* ===== verification/Economic_Calendar.thy ===== *)
theory Economic_Calendar
  imports Position_Sizer Effects
begin

text \<open>
  The economic calendar, \<open>src/news/economic_calendar.py\<close>: the daily update, the queries that pause
  signals and halve sizes before high-impact events, the notices and the adjustments of the
  monitoring loop.  The source of events, the event bus and the callback that widens a stop are
  actions on an outside world.  Reading a time from a text is a parameter of the calendar; a time
  that is not an instant is taken as UTC.  The payload of a notice keeps the minutes unrounded.
  The two background loops are their rounds.
\<close>

section \<open>Data\<close>

definition HIGH_IMPACT_EVENT_TYPES :: "string list" where
  "HIGH_IMPACT_EVENT_TYPES = [''NFP'', ''CPI'', ''RATE_DECISION'', ''GDP'', ''CENTRAL_BANK_SPEECH'']"

definition PRE_EVENT_NOTIFICATION_MINUTES :: int where
  "PRE_EVENT_NOTIFICATION_MINUTES = 15"

record economic_event =
  ee_id :: string
  ee_name :: string
  ee_type :: string
  ee_scheduled_at :: micros
  ee_impact_level :: string
  ee_currency_region :: string
  ee_instruments :: "string list"
  ee_actual_value :: "string option"
  ee_forecast_value :: "string option"
  ee_previous_value :: "string option"
  ee_notified :: bool

record pre_event_adjustment =
  pa_event_id :: string
  pa_event_name :: string
  pa_instrument :: string
  pa_position_size_reduced :: bool
  pa_stop_widened :: bool
  pa_original_stop :: "decimal option"
  pa_new_stop :: "decimal option"
  pa_atr_used :: "decimal option"
  pa_adjusted_at :: micros

text \<open>What a source delivers: a missing key is None; a value that is neither a text nor a datetime
  has no \<open>tzinfo\<close> and raises.\<close>

datatype raw_time = TimeText string | Instant micros | NoDatetime

record raw_event =
  rv_id :: "string option"
  rv_event_name :: "string option"
  rv_event_type :: "string option"
  rv_scheduled_at :: "raw_time option"
  rv_impact_level :: "string option"
  rv_currency_region :: "string option"
  rv_instruments :: "string list option"
  rv_forecast_value :: "string option"
  rv_previous_value :: "string option"

record stop_change =
  sx_original_stop :: "decimal option"
  sx_new_stop :: "decimal option"
  sx_atr_used :: "decimal option"

datatype calendar_notice =
    Approaching economic_event pyfloat
  | AdjustmentApplied economic_event "string list" micros

record 'w economic_calendar =
  ca_events :: "economic_event list"
  ca_last_update :: "micros option"
  ca_bus :: "(calendar_notice \<Rightarrow> ('w, unit) action) option"
  ca_source :: "(micros \<Rightarrow> ('w, raw_event list) action) option"
  ca_read_time :: "string \<Rightarrow> micros option"
  ca_high_impact_types :: "string list"
  ca_running :: bool
  ca_adjusted :: "string set"
  ca_notified :: "string set"
  ca_history :: "pre_event_adjustment list"
  ca_widen_stop :: "(string \<Rightarrow> ('w, stop_change option) action) option"

definition economic_calendar_init ::
  "(calendar_notice \<Rightarrow> ('w, unit) action) option \<Rightarrow> (micros \<Rightarrow> ('w, raw_event list) action) option \<Rightarrow>
   (string \<Rightarrow> micros option) \<Rightarrow> string list \<Rightarrow> 'w economic_calendar" where
  "economic_calendar_init bus source read types =
     \<lparr>ca_events = [], ca_last_update = None, ca_bus = bus, ca_source = source, ca_read_time = read,
      ca_high_impact_types = (if types = [] then HIGH_IMPACT_EVENT_TYPES else types), ca_running = False, ca_adjusted = {},
      ca_notified = {}, ca_history = [], ca_widen_stop = None\<rparr>"

section \<open>Sources\<close>

definition event_matches_date :: "int \<Rightarrow> raw_event \<Rightarrow> bool" where
  "event_matches_date day r = (case rv_scheduled_at r of Some (Instant t) \<Rightarrow> t div 86400000000 = day | _ \<Rightarrow> False)"

definition static_schedule :: "raw_event list \<Rightarrow> micros \<Rightarrow> ('w, raw_event list) action" where
  "static_schedule events date = returnA (filter (event_matches_date (date div 86400000000)) events)"

section \<open>Updates\<close>

definition parse_event :: "(string \<Rightarrow> micros option) \<Rightarrow> raw_event \<Rightarrow> economic_event option" where
  "parse_event read r =
     (case (case rv_scheduled_at r of
              None \<Rightarrow> None | Some (TimeText s) \<Rightarrow> read s | Some (Instant t) \<Rightarrow> Some t | Some NoDatetime \<Rightarrow> None) of
        None \<Rightarrow> None
      | Some t \<Rightarrow>
          Some \<lparr>ee_id = or_default (rv_id r) [], ee_name = or_default (rv_event_name r) [], ee_type = or_default (rv_event_type r) [],
                ee_scheduled_at = t, ee_impact_level = or_default (rv_impact_level r) ''HIGH'',
                ee_currency_region = or_default (rv_currency_region r) [], ee_instruments = or_default (rv_instruments r) [],
                ee_actual_value = None, ee_forecast_value = rv_forecast_value r, ee_previous_value = rv_previous_value r,
                ee_notified = False\<rparr>)"

definition update_daily :: "micros \<Rightarrow> 'w economic_calendar \<Rightarrow> 'w \<Rightarrow> 'w economic_calendar \<times> 'w" where
  "update_daily now c w =
     (let (events, w') =
        (case ca_source c of
           None \<Rightarrow> (ca_events c, w)
         | Some fetch \<Rightarrow>
             (case fetch now w of
                (Inl _, w') \<Rightarrow> (ca_events c, w')
              | (Inr raw, w') \<Rightarrow> (List.map_filter (parse_event (ca_read_time c)) raw, w')))
      in (c\<lparr>ca_events := events, ca_last_update := Some now, ca_adjusted := {}, ca_notified := {}\<rparr>, w'))"

definition start_calendar :: "micros \<Rightarrow> 'w economic_calendar \<Rightarrow> 'w \<Rightarrow> 'w economic_calendar \<times> 'w" where
  "start_calendar now c w = (if ca_running c then (c, w) else update_daily now (c\<lparr>ca_running := True\<rparr>) w)"

definition stop_calendar :: "'w economic_calendar \<Rightarrow> 'w economic_calendar" where
  "stop_calendar c = c\<lparr>ca_running := False\<rparr>"

definition set_position_callbacks :: "(string \<Rightarrow> ('w, stop_change option) action) option \<Rightarrow> 'w economic_calendar \<Rightarrow> 'w economic_calendar" where
  "set_position_callbacks widen c = c\<lparr>ca_widen_stop := widen\<rparr>"

definition add_event :: "economic_event \<Rightarrow> 'w economic_calendar \<Rightarrow> 'w economic_calendar" where
  "add_event e c = c\<lparr>ca_events := ca_events c @ [e]\<rparr>"

definition clear_events :: "'w economic_calendar \<Rightarrow> 'w economic_calendar" where
  "clear_events c = c\<lparr>ca_events := [], ca_adjusted := {}, ca_notified := {}\<rparr>"

section \<open>Queries\<close>

text \<open>Scheduled from now on, at most \<open>window\<close> ahead.\<close>

definition ahead :: "micros \<Rightarrow> micros \<Rightarrow> economic_event \<Rightarrow> bool" where
  "ahead now window e \<longleftrightarrow> 0 \<le> ee_scheduled_at e - now \<and> ee_scheduled_at e - now \<le> window"

definition get_upcoming_events :: "micros \<Rightarrow> int option \<Rightarrow> int option \<Rightarrow> 'w economic_calendar \<Rightarrow> economic_event list" where
  "get_upcoming_events now hours_ahead within_minutes c =
     (let cutoff = (case within_minutes of
                      Some m \<Rightarrow> minutes m
                    | None \<Rightarrow> (case hours_ahead of Some h \<Rightarrow> hours h | None \<Rightarrow> hours 24))
      in sort_key ee_scheduled_at (filter (ahead now cutoff) (ca_events c)))"

definition get_events_within :: "micros \<Rightarrow> int \<Rightarrow> 'w economic_calendar \<Rightarrow> economic_event list" where
  "get_events_within now m c = sort_key ee_scheduled_at (filter (ahead now (minutes m)) (ca_events c))"

definition high_impact_ahead :: "micros \<Rightarrow> micros \<Rightarrow> string \<Rightarrow> 'w economic_calendar \<Rightarrow> bool" where
  "high_impact_ahead now window instrument c =
     list_ex (\<lambda>e. ee_impact_level e = ''HIGH'' \<and> instrument \<in> set (ee_instruments e) \<and> ahead now window e) (ca_events c)"

definition is_high_impact_event_near :: "micros \<Rightarrow> string \<Rightarrow> int \<Rightarrow> 'w economic_calendar \<Rightarrow> bool" where
  "is_high_impact_event_near now instrument m c = high_impact_ahead now (minutes m) instrument c"

definition get_high_impact_events :: "'w economic_calendar \<Rightarrow> economic_event list" where
  "get_high_impact_events c = filter (\<lambda>e. ee_impact_level e = ''HIGH'') (ca_events c)"

definition should_pause_signals :: "micros \<Rightarrow> string \<Rightarrow> 'w economic_calendar \<Rightarrow> bool" where
  "should_pause_signals now instrument c = high_impact_ahead now (minutes NEWS_PRE_EVENT_SIGNAL_PAUSE_MINUTES) instrument c"

definition news_size_factor :: "micros \<Rightarrow> string \<Rightarrow> 'w economic_calendar \<Rightarrow> pyfloat" where
  "news_size_factor now instrument c =
     (if high_impact_ahead now (minutes NEWS_PRE_EVENT_RISK_WINDOW_MINUTES) instrument c then NEWS_EVENT_SIZE_REDUCTION_FACTOR else 1)"

definition get_news_reduction_factor :: "micros \<Rightarrow> string \<Rightarrow> 'w economic_calendar \<Rightarrow> reduction_factor option" where
  "get_news_reduction_factor now instrument c =
     (let factor = news_size_factor now instrument c in
      if factor < 1
      then Some \<lparr>rf_source = ''news'', rf_factor = factor,
                 rf_reason = FMsg ''High-impact economic event within {} minutes for {}; reducing position size by {}%''
                   [FInt NEWS_PRE_EVENT_RISK_WINDOW_MINUTES, FStr instrument, FInt \<lfloor>f_mul (f_sub 1 factor) 100\<rfloor>]\<rparr>
      else None)"

section \<open>Notices\<close>

definition publish_notice :: "calendar_notice \<Rightarrow> 'w economic_calendar \<Rightarrow> 'w \<Rightarrow> 'w" where
  "publish_notice n c w = (case ca_bus c of None \<Rightarrow> w | Some publish \<Rightarrow> snd (publish n w))"

definition approach_event :: "micros \<Rightarrow> 'w economic_calendar \<times> 'w \<Rightarrow> nat \<Rightarrow> 'w economic_calendar \<times> 'w" where
  "approach_event now cw i =
     (case cw of (c, w) \<Rightarrow>
        let e = ca_events c ! i in
        if ee_id e \<in> ca_notified c \<or> ee_notified e then (c, w)
        else if ee_impact_level e \<noteq> ''HIGH'' then (c, w)
        else if ahead now (minutes PRE_EVENT_NOTIFICATION_MINUTES) e
        then (c\<lparr>ca_events := (ca_events c)[i := e\<lparr>ee_notified := True\<rparr>], ca_notified := insert (ee_id e) (ca_notified c)\<rparr>,
              publish_notice (Approaching e (f_quot (total_seconds (ee_scheduled_at e - now)) 60)) c w)
        else (c, w))"

definition check_approaching_events :: "micros \<Rightarrow> 'w economic_calendar \<Rightarrow> 'w \<Rightarrow> 'w economic_calendar \<times> 'w" where
  "check_approaching_events now c w = foldl (approach_event now) (c, w) [0 ..< length (ca_events c)]"

section \<open>Adjustments\<close>

definition adjust_instrument ::
  "micros \<Rightarrow> economic_event \<Rightarrow> pre_event_adjustment list \<times> 'w economic_calendar \<times> 'w \<Rightarrow> string \<Rightarrow>
   pre_event_adjustment list \<times> 'w economic_calendar \<times> 'w" where
  "adjust_instrument now e acw instrument =
     (case acw of (as, c, w) \<Rightarrow>
        let a0 = \<lparr>pa_event_id = ee_id e, pa_event_name = ee_name e, pa_instrument = instrument, pa_position_size_reduced = True,
                  pa_stop_widened = False, pa_original_stop = None, pa_new_stop = None, pa_atr_used = None, pa_adjusted_at = now\<rparr>;
            (a, w') = (case ca_widen_stop c of
                         None \<Rightarrow> (a0, w)
                       | Some widen \<Rightarrow>
                           (case widen instrument w of
                              (Inr (Some r), w') \<Rightarrow>
                                (a0\<lparr>pa_stop_widened := True, pa_original_stop := sx_original_stop r, pa_new_stop := sx_new_stop r,
                                    pa_atr_used := sx_atr_used r\<rparr>, w')
                            | (_, w') \<Rightarrow> (a0, w')))
        in (as @ [a], c\<lparr>ca_history := ca_history c @ [a]\<rparr>, w'))"

definition apply_pre_event_adjustments ::
  "economic_event \<Rightarrow> string list \<Rightarrow> micros \<Rightarrow> 'w economic_calendar \<Rightarrow> 'w \<Rightarrow> pre_event_adjustment list \<times> 'w economic_calendar \<times> 'w" where
  "apply_pre_event_adjustments e instruments now c w = foldl (adjust_instrument now e) ([], c, w) instruments"

definition adjust_event ::
  "micros \<Rightarrow> pre_event_adjustment list \<times> 'w economic_calendar \<times> 'w \<Rightarrow> economic_event \<Rightarrow>
   pre_event_adjustment list \<times> 'w economic_calendar \<times> 'w" where
  "adjust_event now acw e =
     (case acw of (as, c, w) \<Rightarrow>
        if ee_id e \<in> ca_adjusted c then (as, c, w)
        else if ee_instruments e = [] then (as, c, w)
        else case apply_pre_event_adjustments e (ee_instruments e) now c w of (new, c1, w1) \<Rightarrow>
          let c2 = c1\<lparr>ca_adjusted := insert (ee_id e) (ca_adjusted c1)\<rparr>
          in (as @ new, c2, publish_notice (AdjustmentApplied e (map pa_instrument new) now) c2 w1))"

definition due_events :: "micros \<Rightarrow> 'w economic_calendar \<Rightarrow> economic_event list" where
  "due_events now c =
     filter (\<lambda>e. ee_impact_level e = ''HIGH'' \<and> ahead now (minutes NEWS_PRE_EVENT_RISK_WINDOW_MINUTES) e) (ca_events c)"

definition check_and_apply_adjustments ::
  "micros \<Rightarrow> 'w economic_calendar \<Rightarrow> 'w \<Rightarrow> pre_event_adjustment list \<times> 'w economic_calendar \<times> 'w" where
  "check_and_apply_adjustments now c w = foldl (adjust_event now) ([], c, w) (due_events now c)"

definition is_event_adjusted :: "string \<Rightarrow> 'w economic_calendar \<Rightarrow> bool" where
  "is_event_adjusted i c \<longleftrightarrow> i \<in> ca_adjusted c"

text \<open>One round of the monitoring loop, with the readings of the clock of its two parts.\<close>

definition monitor_round :: "micros \<Rightarrow> micros \<Rightarrow> 'w economic_calendar \<Rightarrow> 'w \<Rightarrow> 'w economic_calendar \<times> 'w" where
  "monitor_round now now' c w =
     (if \<not> ca_running c then (c, w)
      else case check_approaching_events now c w of (c1, w1) \<Rightarrow> snd (check_and_apply_adjustments now' c1 w1))"

section \<open>Due events are adjusted\<close>

lemma adjust_instrument_shape:
  "\<exists>a w1. adjust_instrument now e (as, c, w) i = (as @ [a], c\<lparr>ca_history := ca_history c @ [a]\<rparr>, w1) \<and>
     pa_instrument a = i \<and> pa_event_id a = ee_id e \<and> pa_position_size_reduced a \<and> pa_adjusted_at a = now"
proof (cases "ca_widen_stop c")
  case (Some widen)
  obtain r w' where w: "widen i w = (r, w')" by fastforce
  show ?thesis
  proof (cases r)
    case (Inr o')
    then show ?thesis using Some w by (cases o') (simp_all add: adjust_instrument_def Let_def)
  qed (simp add: adjust_instrument_def Some w Let_def)
qed (simp add: adjust_instrument_def Let_def)

lemma adjust_instruments:
  "foldl (adjust_instrument now e) (as, c, w) is = (as', c', w') \<Longrightarrow>
     \<exists>new. as' = as @ new \<and> map pa_instrument new = is \<and>
       (\<forall>a \<in> set new. pa_event_id a = ee_id e \<and> pa_position_size_reduced a \<and> pa_adjusted_at a = now) \<and>
       c' = c\<lparr>ca_history := ca_history c @ new\<rparr>"
proof (induction "is" arbitrary: as c w)
  case (Cons i "is")
  obtain a w1 where s: "adjust_instrument now e (as, c, w) i = (as @ [a], c\<lparr>ca_history := ca_history c @ [a]\<rparr>, w1)"
    "pa_instrument a = i" "pa_event_id a = ee_id e" "pa_position_size_reduced a" "pa_adjusted_at a = now"
    using adjust_instrument_shape[of now e as c w i] by blast
  from Cons.IH[of "as @ [a]" "c\<lparr>ca_history := ca_history c @ [a]\<rparr>" w1] Cons.prems obtain new where
    "as' = as @ a # new" "map pa_instrument new = is" "c' = c\<lparr>ca_history := ca_history c @ a # new\<rparr>"
    "\<forall>x \<in> set new. pa_event_id x = ee_id e \<and> pa_position_size_reduced x \<and> pa_adjusted_at x = now"
    by (auto simp: s(1))
  then show ?case using s(2-5) by (intro exI[of _ "a # new"]) simp
qed simp

lemma adjust_event_effect:
  assumes "adjust_event now (as, c, w) e = (as', c', w')"
  shows "\<exists>new. as' = as @ new \<and> ca_history c' = ca_history c @ new \<and> ca_events c' = ca_events c \<and>
     map pa_instrument new = (if ee_id e \<in> ca_adjusted c then [] else ee_instruments e) \<and>
     (\<forall>a \<in> set new. pa_event_id a = ee_id e \<and> pa_position_size_reduced a \<and> pa_adjusted_at a = now) \<and>
     ca_adjusted c' = (if ee_instruments e = [] then ca_adjusted c else insert (ee_id e) (ca_adjusted c))"
proof (cases "ee_id e \<in> ca_adjusted c \<or> ee_instruments e = []")
  case True
  then have "adjust_event now (as, c, w) e = (as, c, w)" by (auto simp: adjust_event_def)
  then have "as' = as" "c' = c" using assms by simp_all
  then show ?thesis using True by (auto simp: insert_absorb)
next
  case False
  obtain new c1 w1 where s: "foldl (adjust_instrument now e) ([], c, w) (ee_instruments e) = (new, c1, w1)" using prod_cases3 by blast
  from adjust_instruments[OF s] have
    "c1 = c\<lparr>ca_history := ca_history c @ new\<rparr>" "map pa_instrument new = ee_instruments e"
    "\<forall>a \<in> set new. pa_event_id a = ee_id e \<and> pa_position_size_reduced a \<and> pa_adjusted_at a = now" by auto
  then show ?thesis using assms False by (auto simp: adjust_event_def apply_pre_event_adjustments_def s Let_def)
qed

lemma adjust_events:
  "foldl (adjust_event now) (as, c, w) es = (as', c', w') \<Longrightarrow>
     \<exists>new. as' = as @ new \<and> ca_history c' = ca_history c @ new \<and> ca_adjusted c \<subseteq> ca_adjusted c' \<and>
       (\<forall>a \<in> set new. pa_position_size_reduced a \<and> pa_adjusted_at a = now \<and> pa_event_id a \<in> ee_id ` set es - ca_adjusted c) \<and>
       (\<forall>e \<in> set es. ee_instruments e \<noteq> [] \<longrightarrow> ee_id e \<in> ca_adjusted c') \<and>
       (distinct (map ee_id es) \<longrightarrow> (\<forall>e \<in> set es. ee_id e \<notin> ca_adjusted c \<longrightarrow>
          map pa_instrument (filter (\<lambda>a. pa_event_id a = ee_id e) new) = ee_instruments e))"
proof (induction es arbitrary: as c w)
  case (Cons e es)
  obtain as1 c1 w1 where s: "adjust_event now (as, c, w) e = (as1, c1, w1)" using prod_cases3 by blast
  from adjust_event_effect[OF s] obtain n1 where n1: "as1 = as @ n1" "ca_history c1 = ca_history c @ n1"
    "map pa_instrument n1 = (if ee_id e \<in> ca_adjusted c then [] else ee_instruments e)"
    "\<forall>a \<in> set n1. pa_event_id a = ee_id e \<and> pa_position_size_reduced a \<and> pa_adjusted_at a = now"
    "ca_adjusted c1 = (if ee_instruments e = [] then ca_adjusted c else insert (ee_id e) (ca_adjusted c))" by auto
  from Cons.IH[of as1 c1 w1] Cons.prems obtain n2 where n2: "as' = as1 @ n2" "ca_history c' = ca_history c1 @ n2"
    "ca_adjusted c1 \<subseteq> ca_adjusted c'"
    "\<forall>a \<in> set n2. pa_position_size_reduced a \<and> pa_adjusted_at a = now \<and> pa_event_id a \<in> ee_id ` set es - ca_adjusted c1"
    "\<forall>e \<in> set es. ee_instruments e \<noteq> [] \<longrightarrow> ee_id e \<in> ca_adjusted c'"
    "distinct (map ee_id es) \<longrightarrow> (\<forall>e \<in> set es. ee_id e \<notin> ca_adjusted c1 \<longrightarrow>
       map pa_instrument (filter (\<lambda>a. pa_event_id a = ee_id e) n2) = ee_instruments e)" by (auto simp: s)
  have empty: "n1 = []" if "ee_id e \<in> ca_adjusted c" using n1(3) that by simp
  have own: "filter (\<lambda>a. pa_event_id a = ee_id e) n1 = n1" using n1(4) by (simp add: filter_id_conv)
  have foreign: "filter (\<lambda>a. pa_event_id a = x) n1 = []" if "x \<noteq> ee_id e" for x using n1(4) that by (auto simp: filter_empty_conv)
  have late: "filter (\<lambda>a. pa_event_id a = ee_id e) n2 = []" if "ee_id e \<notin> ee_id ` set es" using n2(4) that unfolding filter_empty_conv by (metis DiffD1)
  show ?case
  proof (intro exI[of _ "n1 @ n2"] conjI)
    show "\<forall>a \<in> set (n1 @ n2). pa_position_size_reduced a \<and> pa_adjusted_at a = now \<and> pa_event_id a \<in> ee_id ` set (e # es) - ca_adjusted c"
      using n1(4,5) n2(4) empty by (fastforce split: if_splits)
    show "distinct (map ee_id (e # es)) \<longrightarrow> (\<forall>x \<in> set (e # es). ee_id x \<notin> ca_adjusted c \<longrightarrow>
        map pa_instrument (filter (\<lambda>a. pa_event_id a = ee_id x) (n1 @ n2)) = ee_instruments x)"
    proof (intro impI ballI)
      fix x assume d: "distinct (map ee_id (e # es))" and x: "x \<in> set (e # es)" and f: "ee_id x \<notin> ca_adjusted c"
      show "map pa_instrument (filter (\<lambda>a. pa_event_id a = ee_id x) (n1 @ n2)) = ee_instruments x"
      proof (cases "x = e")
        case True
        have "filter (\<lambda>a. pa_event_id a = ee_id e) n2 = []" using d by (intro late) simp
        then show ?thesis using True f n1(3) by (simp add: own)
      next
        case False
        then have m: "x \<in> set es" using x by simp
        then have ne: "ee_id x \<noteq> ee_id e" using d by (metis distinct.simps(2) imageI list.map(2) list.set_map)
        then have "ee_id x \<notin> ca_adjusted c1" using f n1(5) by simp
        then show ?thesis using m d n2(6) by (simp add: foreign[OF ne])
      qed
    qed
    show "ca_adjusted c \<subseteq> ca_adjusted c'" using n1(5) n2(3) by (auto split: if_splits)
    show "\<forall>x \<in> set (e # es). ee_instruments x \<noteq> [] \<longrightarrow> ee_id x \<in> ca_adjusted c'" using n1(5) n2(3,5) by auto
  qed (simp_all add: n1(1,2) n2(1,2))
qed simp

text \<open>
  Claim: a pass of the adjustments reaches every high-impact event of the next fifteen minutes
  that names instruments: its identifier is noted, and when identifiers are distinct and the event
  was not adjusted before, each of its instruments in order gets one adjustment that reduces the
  size; nothing else is adjusted and the history grows by exactly what is returned.
\<close>

theorem due_events_are_adjusted:
  assumes "check_and_apply_adjustments now c w = (as, c', w')"
  shows "ca_history c' = ca_history c @ as \<and>
    (\<forall>a \<in> set as. pa_position_size_reduced a \<and> pa_adjusted_at a = now \<and> pa_event_id a \<in> ee_id ` set (due_events now c) - ca_adjusted c) \<and>
    (\<forall>e \<in> set (due_events now c). ee_instruments e \<noteq> [] \<longrightarrow> is_event_adjusted (ee_id e) c') \<and>
    (distinct (map ee_id (due_events now c)) \<longrightarrow> (\<forall>e \<in> set (due_events now c). ee_id e \<notin> ca_adjusted c \<longrightarrow>
       map pa_instrument (filter (\<lambda>a. pa_event_id a = ee_id e) as) = ee_instruments e))"
  using adjust_events[OF assms[unfolded check_and_apply_adjustments_def]] by (auto simp: is_event_adjusted_def)

definition payrolls :: economic_event where
  "payrolls = \<lparr>ee_id = ''nfp'', ee_name = ''Payrolls'', ee_type = ''NFP'', ee_scheduled_at = minutes 10, ee_impact_level = ''HIGH'',
     ee_currency_region = ''USD'', ee_instruments = [''EURUSD'', ''XAUUSD''], ee_actual_value = None, ee_forecast_value = None,
     ee_previous_value = None, ee_notified = False\<rparr>"

definition payroll_calendar :: "unit economic_calendar" where
  "payroll_calendar = add_event payrolls (economic_calendar_init None None (\<lambda>_. None) [])"

lemma due_events_are_adjusted_witness:
  "is_event_adjusted ''nfp'' (fst (snd (check_and_apply_adjustments 0 payroll_calendar ())))"
proof -
  obtain as c' w' where e: "check_and_apply_adjustments 0 payroll_calendar () = (as, c', w')" using prod_cases3 by blast
  have "payrolls \<in> set (due_events 0 payroll_calendar)"
    by (simp add: due_events_def payroll_calendar_def add_event_def payrolls_def ahead_def minutes_def NEWS_PRE_EVENT_RISK_WINDOW_MINUTES_def)
  then show ?thesis using due_events_are_adjusted[OF e] by (auto simp: e payrolls_def)
qed

section \<open>Nothing is told twice\<close>

definition announced :: "calendar_notice list \<Rightarrow> string list" where
  "announced ns = concat (map (\<lambda>n. case n of Approaching e _ \<Rightarrow> [ee_id e] | AdjustmentApplied _ _ _ \<Rightarrow> []) ns)"

definition applied :: "calendar_notice list \<Rightarrow> string list" where
  "applied ns = concat (map (\<lambda>n. case n of Approaching _ _ \<Rightarrow> [] | AdjustmentApplied e _ _ \<Rightarrow> [ee_id e]) ns)"

lemma told_lists [simp]:
  "announced [] = []" "applied [] = []"
  "announced (w @ [Approaching e m]) = announced w @ [ee_id e]" "announced (w @ [AdjustmentApplied e is t]) = announced w"
  "applied (w @ [Approaching e m]) = applied w" "applied (w @ [AdjustmentApplied e is t]) = applied w @ [ee_id e]"
  by (simp_all add: announced_def applied_def)

text \<open>The bus notes the notices it is handed, and may fail; the widening of stops does not touch it.\<close>

definition notes_notices :: "calendar_notice list economic_calendar \<Rightarrow> bool" where
  "notes_notices c \<longleftrightarrow> (\<exists>outcome. ca_bus c = Some (\<lambda>n w. (outcome n w, w @ [n]))) \<and>
     (\<forall>widen i w. ca_widen_stop c = Some widen \<longrightarrow> snd (widen i w) = w)"

definition told_once :: "calendar_notice list economic_calendar \<times> calendar_notice list \<Rightarrow> bool" where
  "told_once cw \<longleftrightarrow> (case cw of (c, w) \<Rightarrow> notes_notices c \<and>
     distinct (announced w) \<and> set (announced w) \<subseteq> ca_notified c \<and>
     distinct (applied w) \<and> set (applied w) \<subseteq> ca_adjusted c)"

lemma published: "notes_notices c \<Longrightarrow> publish_notice n c w = w @ [n]"
  by (auto simp: notes_notices_def publish_notice_def)

lemma told_approach: "told_once cw \<Longrightarrow> told_once (approach_event now cw i)"
  by (cases cw) (auto simp: approach_event_def Let_def told_once_def published, auto simp: notes_notices_def)

lemma told_check_approaching: "told_once (c, w) \<Longrightarrow> told_once (check_approaching_events now c w)"
proof -
  have "told_once cw \<Longrightarrow> told_once (foldl (approach_event now) cw is)" for cw "is"
    by (induction "is" arbitrary: cw) (simp_all add: told_approach)
  then show "told_once (c, w) \<Longrightarrow> told_once (check_approaching_events now c w)" by (simp add: check_approaching_events_def)
qed

lemma widening_keeps_notices:
  "notes_notices c \<Longrightarrow> foldl (adjust_instrument now e) (as, c, w) is = (as', c', w') \<Longrightarrow> w' = w"
proof (induction "is" arbitrary: as c w)
  case (Cons i "is")
  obtain as1 c1 w1 where s: "adjust_instrument now e (as, c, w) i = (as1, c1, w1)" using prod_cases3 by blast
  have "w1 = w" "notes_notices c1"
    using s Cons.prems(1) by (auto simp: adjust_instrument_def Let_def notes_notices_def split: option.splits prod.splits sum.splits) (metis snd_conv)+
  then show ?case using Cons s by simp
qed simp

lemma told_adjust_event:
  assumes "told_once (c, w)" "adjust_event now (as, c, w) e = (as', c', w')"
  shows "told_once (c', w')"
proof (cases "ee_id e \<in> ca_adjusted c \<or> ee_instruments e = []")
  case True
  then have "adjust_event now (as, c, w) e = (as, c, w)" by (auto simp: adjust_event_def)
  then show ?thesis using assms by simp
next
  case False
  obtain new c1 w1 where s: "foldl (adjust_instrument now e) ([], c, w) (ee_instruments e) = (new, c1, w1)" using prod_cases3 by blast
  have n: "notes_notices c" using assms(1) by (simp add: told_once_def)
  have c1: "c1 = c\<lparr>ca_history := ca_history c @ new\<rparr>" using adjust_instruments[OF s] by auto
  then have "notes_notices (c1\<lparr>ca_adjusted := insert (ee_id e) (ca_adjusted c1)\<rparr>)" using n by (simp add: notes_notices_def)
  moreover have "w1 = w" by (rule widening_keeps_notices[OF n s])
  ultimately show ?thesis using assms False
    by (auto simp: adjust_event_def apply_pre_event_adjustments_def s Let_def published told_once_def c1)
qed

lemma told_check_and_apply:
  assumes "told_once (c, w)" "check_and_apply_adjustments now c w = (as, c', w')"
  shows "told_once (c', w')"
proof -
  have "told_once (c, w) \<Longrightarrow> foldl (adjust_event now) (as, c, w) es = (as', c', w') \<Longrightarrow> told_once (c', w')" for as es as'
  proof (induction es arbitrary: as c w)
    case (Cons e es)
    obtain as1 c1 w1 where "adjust_event now (as, c, w) e = (as1, c1, w1)" using prod_cases3 by blast
    then show ?case using Cons told_adjust_event by (metis foldl_Cons)
  qed simp
  then show ?thesis using assms by (simp add: check_and_apply_adjustments_def)
qed

datatype calendar_call = Round micros micros | Approach micros | Adjust micros | Add economic_event

fun calendar_step ::
  "calendar_notice list economic_calendar \<times> calendar_notice list \<Rightarrow> calendar_call \<Rightarrow>
   calendar_notice list economic_calendar \<times> calendar_notice list" where
  "calendar_step (c, w) (Round now now') = monitor_round now now' c w"
| "calendar_step (c, w) (Approach now) = check_approaching_events now c w"
| "calendar_step (c, w) (Adjust now) = snd (check_and_apply_adjustments now c w)"
| "calendar_step (c, w) (Add e) = (add_event e c, w)"

lemma told_step: "told_once cw \<Longrightarrow> told_once (calendar_step cw x)"
proof (cases cw)
  case (Pair c w)
  assume t: "told_once cw"
  have adj: "told_once (c, w) \<Longrightarrow> told_once (snd (check_and_apply_adjustments now c w))" for now c w
    using told_check_and_apply[of c w now] by (cases "check_and_apply_adjustments now c w") auto
  show ?thesis
  proof (cases x)
    case (Round now now')
    obtain c1 w1 where s: "check_approaching_events now c w = (c1, w1)" by fastforce
    then have "told_once (c1, w1)" using t told_check_approaching[of c w now] Pair by simp
    then show ?thesis using t Pair Round s adj by (simp add: monitor_round_def)
  qed (use t Pair adj told_check_approaching in \<open>auto simp: add_event_def told_once_def notes_notices_def\<close>)
qed

text \<open>
  Claim C36: between two daily updates no event is announced twice and none is adjusted twice: the
  identifiers of the announcements handed to the bus are distinct, and those of the adjustments,
  whether publishing succeeds or not and however rounds, single passes and new events mix.
\<close>

theorem events_are_told_once:
  assumes "notes_notices c" "ca_adjusted c = {}" "ca_notified c = {}" and "foldl calendar_step (c, []) xs = (c', w)"
  shows "distinct (announced w) \<and> distinct (applied w)"
proof -
  have "told_once (c, [])" using assms(1-3) by (simp add: told_once_def)
  then have "told_once (foldl calendar_step (c, []) xs)"
    by (induction xs rule: rev_induct) (simp_all add: told_step)
  then show ?thesis using assms(4) by (simp add: told_once_def)
qed

lemma events_are_told_once_witness:
  "distinct (applied (snd (foldl calendar_step (add_event payrolls (economic_calendar_init (Some (\<lambda>n w. (Inl TimeoutError, w @ [n]))) None (\<lambda>_. None) []), [])
     [Adjust 0, Adjust 1])))"
proof -
  let ?c = "add_event payrolls (economic_calendar_init (Some (\<lambda>n w. (Inl TimeoutError, w @ [n]))) None (\<lambda>_. None) [])"
  have c: "notes_notices ?c" "ca_adjusted ?c = {}" "ca_notified ?c = {}"
    by (auto simp: notes_notices_def add_event_def economic_calendar_init_def)
  show ?thesis using events_are_told_once[OF c prod.collapse [symmetric]] by blast
qed

section \<open>Pausing and reducing\<close>

text \<open>An instrument whose signals are paused has its size halved.\<close>

theorem paused_instruments_are_reduced:
  assumes "should_pause_signals now instrument c"
  shows "news_size_factor now instrument c = 1 / 2 \<and>
    (\<exists>r. get_news_reduction_factor now instrument c = Some r \<and> rf_factor r = 1 / 2)"
proof -
  have half: "NEWS_EVENT_SIZE_REDUCTION_FACTOR = 1 / 2" by code_simp
  have "high_impact_ahead now (minutes NEWS_PRE_EVENT_RISK_WINDOW_MINUTES) instrument c"
    using assms by (auto simp: should_pause_signals_def high_impact_ahead_def list_ex_iff ahead_def minutes_def
        NEWS_PRE_EVENT_RISK_WINDOW_MINUTES_def NEWS_PRE_EVENT_SIGNAL_PAUSE_MINUTES_def)
  then show ?thesis by (simp add: news_size_factor_def get_news_reduction_factor_def Let_def half)
qed

section \<open>Gaps\<close>

definition raw_payrolls :: "micros \<Rightarrow> raw_event" where
  "raw_payrolls t = \<lparr>rv_id = None, rv_event_name = Some ''Payrolls'', rv_event_type = Some ''NFP'', rv_scheduled_at = Some (Instant t),
     rv_impact_level = None, rv_currency_region = None, rv_instruments = Some [''EURUSD''], rv_forecast_value = None, rv_previous_value = None\<rparr>"

text \<open>The calendar of a day ends at midnight: an event just after it is not seen just before it.\<close>

theorem event_after_midnight_is_unseen:
  "let c = fst (update_daily (hours 23) (economic_calendar_init None (Some (static_schedule [raw_payrolls (hours 24 + minutes 2)])) (\<lambda>_. None) []) ())
   in \<not> should_pause_signals (hours 24 - minutes 1) ''EURUSD'' c"
  by code_simp

text \<open>Events without an identifier share the empty one: only the first is adjusted.\<close>

theorem events_without_identifier_collide:
  "let c = fst (update_daily 0 (economic_calendar_init None
              (Some (static_schedule [raw_payrolls (minutes 10), (raw_payrolls (minutes 12))\<lparr>rv_instruments := Some [''USDJPY'']\<rparr>])) (\<lambda>_. None) []) ())
   in length (due_events 0 c) = 2 \<and> map pa_instrument (fst (check_and_apply_adjustments 0 c ())) = [''EURUSD'']"
  by code_simp

end
