(* ===== verification/Mistake_Database.thy ===== *)
theory Mistake_Database
  imports Constants Json State_Effects
begin

text \<open>
  Mistake records and patterns, \<open>src/learning/mistake_database.py\<close>.  The database kept in memory
  hands out its pattern objects themselves: a pattern object is its position in the list of
  patterns, and every reader shares it.  The database-backed variant turns objects into rows and
  rows into new objects: the two conversions are modelled, the repository behind them is not.  The
  keys \<open>_regime\<close> and \<open>_strategy\<close> of the indicator conditions, which hold texts, are fields of their
  own; no indicator is called so.
\<close>

datatype mistake_class =
    COUNTER_TREND
  | FALSE_BREAKOUT
  | VOLATILITY_MISJUDGMENT
  | POOR_TIMING
  | OVEREXPOSURE
  | REGIME_MISCLASSIFICATION

fun class_value :: "mistake_class \<Rightarrow> string" where
  "class_value COUNTER_TREND = ''counter_trend_entry''"
| "class_value FALSE_BREAKOUT = ''false_breakout''"
| "class_value VOLATILITY_MISJUDGMENT = ''volatility_misjudgment''"
| "class_value POOR_TIMING = ''poor_timing''"
| "class_value OVEREXPOSURE = ''overexposure''"
| "class_value REGIME_MISCLASSIFICATION = ''regime_misclassification''"

text \<open>The order of the enumeration.\<close>

definition mistake_classes :: "mistake_class list" where
  "mistake_classes = [COUNTER_TREND, FALSE_BREAKOUT, VOLATILITY_MISJUDGMENT, POOR_TIMING, OVEREXPOSURE, REGIME_MISCLASSIFICATION]"

lemma class_value_eq [simp]: "class_value c = class_value d \<longleftrightarrow> c = d"
  by (cases c; cases d) simp_all

lemma in_mistake_classes [simp]: "c \<in> set mistake_classes"
  by (cases c) (simp_all add: mistake_classes_def)

record mistake_record =
  mr_trade_id :: string
  mr_classification :: mistake_class
  mr_entry_conditions :: "(string, json) dict"
  mr_regime :: string
  mr_strategy :: string
  mr_indicators :: "(string, pyfloat) dict"
  mr_confidence_at_entry :: int
  mr_exit_reason :: string
  mr_pnl :: pyfloat
  mr_created_at :: micros

record mistake_pattern =
  mp_id :: string
  mp_classification :: mistake_class
  mp_loss_count :: int
  mp_first_occurrence :: micros
  mp_last_occurrence :: micros
  mp_active :: bool
  mp_reactivated :: bool
  mp_confidence_penalty :: int
  mp_size_reduction :: pyfloat
  mp_resolution_progress :: int
  mp_conditions :: "(string, pyfloat) dict"
  mp_regime :: "string option"
  mp_strategy :: "string option"

section \<open>The database in memory\<close>

record mistake_db =
  md_records :: "mistake_record list"
  md_patterns :: "mistake_pattern list"

definition mistake_db_init :: mistake_db where
  "mistake_db_init = \<lparr>md_records = [], md_patterns = []\<rparr>"

definition store_record :: "mistake_record \<Rightarrow> mistake_db \<Rightarrow> mistake_db" where
  "store_record r db = db\<lparr>md_records := md_records db @ [r]\<rparr>"

definition get_records_by_classification :: "string \<Rightarrow> micros \<Rightarrow> mistake_db \<Rightarrow> mistake_record list" where
  "get_records_by_classification c since db =
     filter (\<lambda>r. class_value (mr_classification r) = c \<and> since \<le> mr_created_at r) (md_records db)"

text \<open>References to the patterns with a property, and the first of them.\<close>

definition refs_where :: "(mistake_pattern \<Rightarrow> bool) \<Rightarrow> mistake_db \<Rightarrow> nat list" where
  "refs_where P db = filter (\<lambda>i. P (md_patterns db ! i)) [0..<length (md_patterns db)]"

definition first_where :: "(mistake_pattern \<Rightarrow> bool) \<Rightarrow> mistake_db \<Rightarrow> nat option" where
  "first_where P db = (case refs_where P db of [] \<Rightarrow> None | i # _ \<Rightarrow> Some i)"

text \<open>An assignment to the fields of an object.\<close>

definition set_pattern :: "nat \<Rightarrow> (mistake_pattern \<Rightarrow> mistake_pattern) \<Rightarrow> mistake_db \<Rightarrow> mistake_db" where
  "set_pattern i f db = db\<lparr>md_patterns := (md_patterns db)[i := f (md_patterns db ! i)]\<rparr>"

definition get_active_patterns :: "mistake_db \<Rightarrow> nat list" where
  "get_active_patterns = refs_where mp_active"

definition update_pattern :: "string \<Rightarrow> (mistake_pattern \<Rightarrow> mistake_pattern) \<Rightarrow> mistake_db \<Rightarrow> mistake_db" where
  "update_pattern pattern_id f db =
     (case first_where (\<lambda>p. mp_id p = pattern_id) db of None \<Rightarrow> db | Some i \<Rightarrow> set_pattern i f db)"

definition update_pattern_status :: "string \<Rightarrow> bool \<Rightarrow> mistake_db \<Rightarrow> mistake_db" where
  "update_pattern_status pattern_id active = update_pattern pattern_id (\<lambda>p. p\<lparr>mp_active := active\<rparr>)"

definition create_pattern :: "mistake_pattern \<Rightarrow> mistake_db \<Rightarrow> mistake_db" where
  "create_pattern p db = db\<lparr>md_patterns := md_patterns db @ [p]\<rparr>"

definition get_pattern_by_classification :: "string \<Rightarrow> mistake_db \<Rightarrow> nat option" where
  "get_pattern_by_classification c = first_where (\<lambda>p. class_value (mp_classification p) = c \<and> mp_active p)"

definition get_all_patterns :: "mistake_db \<Rightarrow> nat list" where
  "get_all_patterns db = [0..<length (md_patterns db)]"

definition get_pattern_by_id :: "string \<Rightarrow> mistake_db \<Rightarrow> nat option" where
  "get_pattern_by_id pattern_id = first_where (\<lambda>p. mp_id p = pattern_id)"

lemma set_pattern_simps [simp]:
  "length (md_patterns (set_pattern i f db)) = length (md_patterns db)"
  "i < length (md_patterns db) \<Longrightarrow> md_patterns (set_pattern i f db) ! j = (if i = j then f (md_patterns db ! i) else md_patterns db ! j)"
  "md_records (set_pattern i f db) = md_records db"
  by (auto simp: set_pattern_def)

lemma in_refs_where: "i \<in> set (refs_where P db) \<longleftrightarrow> i < length (md_patterns db) \<and> P (md_patterns db ! i)"
  by (auto simp: refs_where_def)

lemma first_where_Some: "first_where P db = Some i \<Longrightarrow> i < length (md_patterns db) \<and> P (md_patterns db ! i)"
  using in_refs_where[of i P db] by (auto simp: first_where_def split: list.splits)

lemma first_where_None: "first_where P db = None \<longleftrightarrow> (\<forall>i < length (md_patterns db). \<not> P (md_patterns db ! i))"
proof -
  have "first_where P db = None \<longleftrightarrow> refs_where P db = []" by (simp add: first_where_def split: list.split)
  then show ?thesis by (auto simp: refs_where_def filter_empty_conv)
qed

text \<open>The identifiers are unique.\<close>

definition ids_unique :: "mistake_db \<Rightarrow> bool" where
  "ids_unique db \<longleftrightarrow> distinct (map mp_id (md_patterns db))"

lemma ids_unique_inj:
  "ids_unique db \<Longrightarrow> i < length (md_patterns db) \<Longrightarrow> j < length (md_patterns db) \<Longrightarrow>
     mp_id (md_patterns db ! i) = mp_id (md_patterns db ! j) \<longleftrightarrow> i = j"
  using nth_eq_iff_index_eq[of "map mp_id (md_patterns db)" i j] by (simp add: ids_unique_def)

lemma update_pattern_own:
  assumes "ids_unique db" "i < length (md_patterns db)"
  shows "update_pattern (mp_id (md_patterns db ! i)) f db = set_pattern i f db"
proof -
  have "first_where (\<lambda>p. mp_id p = mp_id (md_patterns db ! i)) db = Some i"
  proof (cases "first_where (\<lambda>p. mp_id p = mp_id (md_patterns db ! i)) db")
    case None
    then show ?thesis using assms(2) by (auto simp: first_where_None)
  next
    case (Some j)
    then show ?thesis using assms by (auto dest!: first_where_Some simp: ids_unique_inj)
  qed
  then show ?thesis by (simp add: update_pattern_def)
qed

lemma ids_unique_set_pattern:
  "i < length (md_patterns db) \<Longrightarrow> (\<And>p. mp_id (f p) = mp_id p) \<Longrightarrow> ids_unique (set_pattern i f db) \<longleftrightarrow> ids_unique db"
proof -
  assume "i < length (md_patterns db)" "\<And>p. mp_id (f p) = mp_id p"
  then have "map mp_id (md_patterns (set_pattern i f db)) = map mp_id (md_patterns db)"
    by (intro nth_equalityI) (auto simp: set_pattern_def nth_list_update)
  then show ?thesis by (simp add: ids_unique_def)
qed

section \<open>Rows of the database-backed variant\<close>

text \<open>What is given to the repository for a record and read of the row that comes back; the columns
  may be empty where the code provides for it.\<close>

record record_row =
  rw_trade_id :: string
  rw_classification :: string
  rw_entry_conditions :: "(string, json) dict option"
  rw_regime :: "string option"
  rw_strategy :: "string option"
  rw_indicators :: "(string, pyfloat) dict option"
  rw_confidence_at_entry :: int
  rw_exit_reason :: "string option"
  rw_pnl :: decimal
  rw_created_at :: micros

definition class_of_value :: "string \<Rightarrow> py_error + mistake_class" where
  "class_of_value v = (case find (\<lambda>c. class_value c = v) mistake_classes of Some c \<Rightarrow> Inr c | None \<Rightarrow> Inl (ValueError v))"

definition row_of_record :: "mistake_record \<Rightarrow> record_row" where
  "row_of_record r =
     \<lparr>rw_trade_id = mr_trade_id r, rw_classification = class_value (mr_classification r),
      rw_entry_conditions = Some (mr_entry_conditions r), rw_regime = Some (mr_regime r), rw_strategy = Some (mr_strategy r),
      rw_indicators = Some (mr_indicators r), rw_confidence_at_entry = mr_confidence_at_entry r,
      rw_exit_reason = Some (mr_exit_reason r), rw_pnl = dec_of_float (mr_pnl r), rw_created_at = mr_created_at r\<rparr>"

definition record_from_orm :: "record_row \<Rightarrow> py_error + mistake_record" where
  "record_from_orm w =
     bindE (class_of_value (rw_classification w)) (\<lambda>c.
       Inr \<lparr>mr_trade_id = rw_trade_id w, mr_classification = c, mr_entry_conditions = or_default (rw_entry_conditions w) [],
            mr_regime = or_default (rw_regime w) [], mr_strategy = or_default (rw_strategy w) [],
            mr_indicators = map (apsnd flt) (or_default (rw_indicators w) []), mr_confidence_at_entry = rw_confidence_at_entry w,
            mr_exit_reason = or_default (rw_exit_reason w) [], mr_pnl = flt (rw_pnl w), mr_created_at = rw_created_at w\<rparr>)"

record pattern_row =
  pw_id :: string
  pw_classification :: string
  pw_loss_count :: int
  pw_first_occurrence :: micros
  pw_last_occurrence :: micros
  pw_active :: bool
  pw_reactivated :: bool
  pw_confidence_penalty :: int
  pw_size_reduction :: pyfloat
  pw_resolution_progress :: int
  pw_conditions :: "((string, pyfloat) dict \<times> string option \<times> string option) option"

definition row_of_pattern :: "mistake_pattern \<Rightarrow> pattern_row" where
  "row_of_pattern p =
     \<lparr>pw_id = mp_id p, pw_classification = class_value (mp_classification p),
      pw_loss_count = mp_loss_count p,
      pw_first_occurrence = mp_first_occurrence p,
      pw_last_occurrence = mp_last_occurrence p,
      pw_active = mp_active p,
      pw_reactivated = mp_reactivated p,
      pw_confidence_penalty = mp_confidence_penalty p,
      pw_size_reduction = mp_size_reduction p,
      pw_resolution_progress = mp_resolution_progress p,
      pw_conditions = Some (mp_conditions p, mp_regime p, mp_strategy p)\<rparr>"

definition pattern_from_orm :: "pattern_row \<Rightarrow> py_error + mistake_pattern" where
  "pattern_from_orm w =
     bindE (class_of_value (pw_classification w)) (\<lambda>c.
       case or_default (pw_conditions w) ([], None, None) of (conditions, regime, strategy) \<Rightarrow>
         Inr \<lparr>mp_id = pw_id w, mp_classification = c,
              mp_loss_count = pw_loss_count w,
              mp_first_occurrence = pw_first_occurrence w,
              mp_last_occurrence = pw_last_occurrence w,
              mp_active = pw_active w,
              mp_reactivated = pw_reactivated w,
              mp_confidence_penalty = pw_confidence_penalty w,
              mp_size_reduction = pw_size_reduction w,
              mp_resolution_progress = pw_resolution_progress w,
              mp_conditions = conditions, mp_regime = regime, mp_strategy = strategy\<rparr>)"

lemma class_of_class_value [simp]: "class_of_value (class_value c) = Inr c"
  by (cases c) (simp_all add: class_of_value_def mistake_classes_def)

lemma class_of_value_Inr: "class_of_value v = Inr c \<Longrightarrow> v = class_value c"
  by (auto simp: class_of_value_def find_Some_iff split: option.splits)

lemma stored_pattern_reads_back: "pattern_from_orm (row_of_pattern p) = Inr p"
  by (simp add: pattern_from_orm_def row_of_pattern_def)

text \<open>
  Claim: a mistake record written to the database and read back is the same record, when its
  profit and its indicators are floats: the profit survives the way through the decimal column
  because its shortest decimal text reads back as the same float.  A row whose classification is
  not one of the six is refused.
\<close>

theorem stored_record_reads_back:
  assumes "is_flt (mr_pnl r)" "list_all (\<lambda>(k, x). is_flt x) (mr_indicators r)"
  shows "record_from_orm (row_of_record r) = Inr r \<and>
    (\<exists>e. record_from_orm ((row_of_record r)\<lparr>rw_classification := ''hedging''\<rparr>) = Inl e)"
proof
  have "map (apsnd flt) (mr_indicators r) = mr_indicators r"
    using assms(2) by (intro map_idI) (auto simp: list_all_iff)
  then show "record_from_orm (row_of_record r) = Inr r"
    using assms(1) by (simp add: record_from_orm_def row_of_record_def)
  show "\<exists>e. record_from_orm ((row_of_record r)\<lparr>rw_classification := ''hedging''\<rparr>) = Inl e"
    by (simp add: record_from_orm_def class_of_value_def mistake_classes_def)
qed

definition sample_record :: mistake_record where
  "sample_record = \<lparr>mr_trade_id = ''t'', mr_classification = POOR_TIMING, mr_entry_conditions = [], mr_regime = ''unknown'',
     mr_strategy = ''ict'', mr_indicators = [(''atr'', flt (1/10))], mr_confidence_at_entry = 80,
     mr_exit_reason = ''stop'', mr_pnl = flt (- (123/10)), mr_created_at = 0\<rparr>"

lemma stored_record_reads_back_witness: "record_from_orm (row_of_record sample_record) = Inr sample_record"
  using stored_record_reads_back[of sample_record] by (simp add: sample_record_def)

end
