(* ===== verification/Mistake_Analyzer.thy ===== *)
theory Mistake_Analyzer
  imports Mistake_Database "HOL-Library.Multiset"
begin

text \<open>
  The mistake analyser, \<open>src/learning/mistake_analyzer.py\<close>, over the database kept in memory: the
  active patterns are references to the pattern objects of the database.  \<open>key_order\<close> is the order
  in which the interpreter walks the set of indicator names that \<open>_average_indicators\<close> builds,
  which depends on the hashes of the texts; \<open>ids n\<close> is the identifier drawn for the \<open>n\<close>-th pattern.
  \<open>learn_closed_trade\<close> is what the trading loop does with a closed trade.
\<close>

section \<open>State\<close>

record learning_trade_signal =
  ps_regime :: string
  ps_strategy :: string
  ps_indicators :: "(string, pyfloat) dict"
  ps_confidence :: int
  ps_is_hft :: bool

record closed_trade =
  ct_trade_id :: string
  ct_regime :: string
  ct_strategy :: string
  ct_indicators :: "(string, pyfloat) dict"
  ct_confidence_at_entry :: int
  ct_exit_reason :: string
  ct_pnl :: pyfloat
  ct_entry_conditions :: "(string, json) dict"

definition is_profitable :: "closed_trade \<Rightarrow> bool" where
  "is_profitable t \<longleftrightarrow> 0 < ct_pnl t"

record trade_outcome =
  to_actual_direction :: string
  to_volatility_realized :: pyfloat
  to_regime_actual :: string
  to_breakout_confirmed :: bool
  to_timing_optimal :: bool

record mistake_analyzer =
  an_db :: mistake_db
  an_active :: "nat list"

definition mistake_analyzer_init :: "mistake_db \<Rightarrow> mistake_analyzer" where
  "mistake_analyzer_init db = \<lparr>an_db = db, an_active = []\<rparr>"

abbreviation patterns :: "mistake_analyzer \<Rightarrow> mistake_pattern list" where
  "patterns a \<equiv> md_patterns (an_db a)"

section \<open>Classification\<close>

definition classify_mistake :: "closed_trade \<Rightarrow> trade_outcome \<Rightarrow> mistake_class" where
  "classify_mistake t m =
     (let entry_direction = (case map_of (ct_entry_conditions t) ''direction'' of Some v \<Rightarrow> v | None \<Rightarrow> JStr []);
          expected_vol = or_default (map_of (ct_indicators t) ''expected_volatility'') 0
      in if ct_regime t \<noteq> to_regime_actual m then REGIME_MISCLASSIFICATION
         else if json_truthy entry_direction \<and> entry_direction \<noteq> JStr (to_actual_direction m) then COUNTER_TREND
         else if \<not> to_breakout_confirmed m then FALSE_BREAKOUT
         else if 0 < expected_vol \<and> f_mul expected_vol 2 < to_volatility_realized m then VOLATILITY_MISJUDGMENT
         else if ct_exit_reason t \<in> {''margin_call'', ''exposure_limit'', ''overexposure''} then OVEREXPOSURE
         else POOR_TIMING)"

definition record_mistake :: "micros \<Rightarrow> closed_trade \<Rightarrow> mistake_class \<Rightarrow> mistake_record" where
  "record_mistake now t c =
     \<lparr>mr_trade_id = ct_trade_id t, mr_classification = c, mr_entry_conditions = ct_entry_conditions t, mr_regime = ct_regime t,
      mr_strategy = ct_strategy t, mr_indicators = ct_indicators t, mr_confidence_at_entry = ct_confidence_at_entry t,
      mr_exit_reason = ct_exit_reason t, mr_pnl = ct_pnl t, mr_created_at = now\<rparr>"

section \<open>Patterns\<close>

text \<open>\<open>Counter(xs).most_common(1)\<close>: the first of the most frequent elements.\<close>

definition most_common :: "'a list \<Rightarrow> 'a option" where
  "most_common xs = find (\<lambda>x. count_list xs x = foldr max (map (count_list xs) xs) 0) xs"

definition average_of :: "mistake_record list \<Rightarrow> string \<Rightarrow> pyfloat" where
  "average_of records k =
     (let values = List.map_filter (\<lambda>r. map_of (mr_indicators r) k) records
      in f_quot (f_sum values) (of_nat (length values)))"

definition indicator_names :: "mistake_record list \<Rightarrow> string list" where
  "indicator_names records = remdups (concat (map (\<lambda>r. map fst (mr_indicators r)) records))"

definition average_indicators ::
  "(string list \<Rightarrow> string list) \<Rightarrow> mistake_record list \<Rightarrow> (string, pyfloat) dict \<times> string option \<times> string option" where
  "average_indicators key_order records =
     (map (\<lambda>k. (k, average_of records k)) (key_order (indicator_names records)),
      most_common (filter (\<lambda>s. s \<noteq> []) (map mr_regime records)),
      most_common (filter (\<lambda>s. s \<noteq> []) (map mr_strategy records)))"

definition indicator_matches :: "pyfloat \<Rightarrow> pyfloat \<Rightarrow> bool" where
  "indicator_matches signal_value pattern_value \<longleftrightarrow>
     (if pattern_value = 0 then \<bar>signal_value\<bar> < flt (1/100)
      else \<bar>f_sub signal_value pattern_value\<bar> \<le> f_mul \<bar>pattern_value\<bar> (flt (2/10)))"

text \<open>How many of the first five conditions the signal matches.\<close>

fun matching_indicators :: "int \<Rightarrow> (string, pyfloat) dict \<Rightarrow> (string, pyfloat) dict \<Rightarrow> int" where
  "matching_indicators checked indicators [] = 0"
| "matching_indicators checked indicators ((k, v) # conditions) =
     (if k \<noteq> [] \<and> hd k = CHR 0x5F then matching_indicators checked indicators conditions
      else if MISTAKE_PATTERN_TOTAL_INDICATORS < checked + 1 then 0
      else (case map_of indicators k of Some x \<Rightarrow> if indicator_matches x v then 1 else 0 | None \<Rightarrow> 0)
        + matching_indicators (checked + 1) indicators conditions)"

definition text_differs :: "string option \<Rightarrow> string \<Rightarrow> bool" where
  "text_differs stored s \<longleftrightarrow> stored \<noteq> None \<and> stored \<noteq> Some [] \<and> stored \<noteq> Some s"

definition matches_pattern :: "learning_trade_signal \<Rightarrow> mistake_pattern \<Rightarrow> bool" where
  "matches_pattern g p \<longleftrightarrow>
     (if text_differs (mp_regime p) (ps_regime g) then False
      else if text_differs (mp_strategy p) (ps_strategy g) then False
      else MISTAKE_PATTERN_MATCH_INDICATORS \<le> matching_indicators 0 (ps_indicators g) (mp_conditions p))"

section \<open>Detection\<close>

definition reactivated_fields :: "mistake_pattern \<Rightarrow> mistake_pattern" where
  "reactivated_fields p =
     p\<lparr>mp_active := True, mp_reactivated := True, mp_confidence_penalty := MISTAKE_REACTIVATED_CONFIDENCE_PENALTY,
       mp_size_reduction := MISTAKE_REACTIVATED_SIZE_REDUCTION, mp_resolution_progress := 0\<rparr>"

text \<open>\<open>x not in active_patterns\<close> compares the objects field by field.\<close>

definition reactivate_pattern :: "mistake_class \<Rightarrow> mistake_analyzer \<Rightarrow> mistake_analyzer" where
  "reactivate_pattern c a =
     (case first_where (\<lambda>p. mp_classification p = c \<and> \<not> mp_active p) (an_db a) of
        None \<Rightarrow> a
      | Some i \<Rightarrow>
          let db = set_pattern i reactivated_fields (an_db a);
              db' = update_pattern (mp_id (md_patterns db ! i)) reactivated_fields db
          in a\<lparr>an_db := db', an_active :=
                 (if md_patterns db' ! i \<in> set (map (\<lambda>j. md_patterns db' ! j) (an_active a)) then an_active a
                  else an_active a @ [i])\<rparr>)"

definition new_pattern :: "(string list \<Rightarrow> string list) \<Rightarrow> string \<Rightarrow> mistake_class \<Rightarrow> mistake_record list \<Rightarrow> mistake_pattern" where
  "new_pattern key_order pid c records =
     (case average_indicators key_order records of (conditions, regime, strategy) \<Rightarrow>
        \<lparr>mp_id = pid, mp_classification = c, mp_loss_count = int (length records),
         mp_first_occurrence = mr_created_at (hd records), mp_last_occurrence = mr_created_at (List.last records),
         mp_active = True, mp_reactivated = False, mp_confidence_penalty = MISTAKE_BASE_CONFIDENCE_PENALTY,
         mp_size_reduction = MISTAKE_BASE_SIZE_REDUCTION, mp_resolution_progress = 0,
         mp_conditions = conditions, mp_regime = regime, mp_strategy = strategy\<rparr>)"

definition recent_records :: "micros \<Rightarrow> mistake_class \<Rightarrow> mistake_analyzer \<Rightarrow> mistake_record list" where
  "recent_records now c a =
     get_records_by_classification (class_value c) (now - hours (24 * MISTAKE_PATTERN_WINDOW_DAYS)) (an_db a)"

text \<open>One round of the loop over the classifications; the result holds the new patterns.\<close>

definition detect_class ::
  "(string list \<Rightarrow> string list) \<Rightarrow> (nat \<Rightarrow> string) \<Rightarrow> micros \<Rightarrow> mistake_class \<Rightarrow> mistake_analyzer \<Rightarrow> nat list \<times> mistake_analyzer" where
  "detect_class key_order ids now c a =
     (let records = recent_records now c a in
      if int (length records) < MISTAKE_PATTERN_THRESHOLD then ([], a)
      else case get_pattern_by_classification (class_value c) (an_db a) of
        Some i \<Rightarrow>
          let f = (\<lambda>p. p\<lparr>mp_loss_count := int (length records), mp_last_occurrence := mr_created_at (List.last records)\<rparr>);
              db = set_pattern i f (an_db a)
          in ([], a\<lparr>an_db := update_pattern (mp_id (md_patterns db ! i)) f db\<rparr>)
      | None \<Rightarrow>
          (case first_where (\<lambda>p. mp_classification p = c \<and> \<not> mp_active p) (an_db a) of
             Some _ \<Rightarrow> ([], reactivate_pattern c a)
           | None \<Rightarrow>
               let i = length (patterns a)
               in ([i], a\<lparr>an_db := create_pattern (new_pattern key_order (ids i) c records) (an_db a),
                          an_active := an_active a @ [i]\<rparr>)))"

definition detect_patterns ::
  "(string list \<Rightarrow> string list) \<Rightarrow> (nat \<Rightarrow> string) \<Rightarrow> micros \<Rightarrow> mistake_analyzer \<Rightarrow> nat list \<times> mistake_analyzer" where
  "detect_patterns key_order ids now a =
     foldl (\<lambda>(news, a) c. case detect_class key_order ids now c a of (new, a') \<Rightarrow> (news @ new, a')) ([], a) mistake_classes"

section \<open>Penalties\<close>

definition get_confidence_penalty :: "learning_trade_signal \<Rightarrow> mistake_analyzer \<Rightarrow> int" where
  "get_confidence_penalty g a =
     sum_list (map (\<lambda>i. mp_confidence_penalty (patterns a ! i))
       (filter (\<lambda>i. mp_active (patterns a ! i) \<and> matches_pattern g (patterns a ! i)) (an_active a)))"

definition get_size_reduction_factor :: "learning_trade_signal \<Rightarrow> mistake_analyzer \<Rightarrow> pyfloat" where
  "get_size_reduction_factor g a =
     foldl f_mul 1 (map (\<lambda>i. mp_size_reduction (patterns a ! i))
       (filter (\<lambda>i. mp_active (patterns a ! i) \<and> matches_pattern g (patterns a ! i)) (an_active a)))"

section \<open>Resolution\<close>

definition signal_of_trade :: "closed_trade \<Rightarrow> learning_trade_signal" where
  "signal_of_trade t = \<lparr>ps_regime = ct_regime t, ps_strategy = ct_strategy t, ps_indicators = ct_indicators t,
     ps_confidence = ct_confidence_at_entry t, ps_is_hft = False\<rparr>"

definition progress_pattern :: "closed_trade \<Rightarrow> mistake_analyzer \<Rightarrow> nat \<Rightarrow> mistake_analyzer" where
  "progress_pattern t a i =
     (let p = patterns a ! i in
      if \<not> mp_active p \<or> \<not> matches_pattern (signal_of_trade t) p then a
      else if is_profitable t then
        let n = mp_resolution_progress p + 1;
            db = set_pattern i (\<lambda>p. p\<lparr>mp_resolution_progress := n\<rparr>) (an_db a)
        in if MISTAKE_RESOLUTION_STREAK \<le> n
           then let db' = update_pattern_status (mp_id p) False (set_pattern i (\<lambda>p. p\<lparr>mp_active := False\<rparr>) db)
                in a\<lparr>an_db := db', an_active := filter (\<lambda>j. mp_id (md_patterns db' ! j) \<noteq> mp_id p) (an_active a)\<rparr>
           else a\<lparr>an_db := update_pattern (mp_id p) (\<lambda>p. p\<lparr>mp_resolution_progress := n\<rparr>) db\<rparr>
      else
        let f = (\<lambda>p. p\<lparr>mp_resolution_progress := 0\<rparr>)
        in a\<lparr>an_db := update_pattern (mp_id p) f (set_pattern i f (an_db a))\<rparr>)"

definition update_resolution_progress :: "closed_trade \<Rightarrow> mistake_analyzer \<Rightarrow> mistake_analyzer" where
  "update_resolution_progress t a = foldl (progress_pattern t) a (an_active a)"

section \<open>Start-up and dashboard\<close>

definition load_patterns_on_startup :: "mistake_analyzer \<Rightarrow> mistake_analyzer" where
  "load_patterns_on_startup a = a\<lparr>an_active := get_active_patterns (an_db a)\<rparr>"

record dashboard_pattern =
  da_pattern :: mistake_pattern
  da_classification :: string
  da_resolution_target :: int

definition get_dashboard_patterns :: "mistake_analyzer \<Rightarrow> dashboard_pattern list" where
  "get_dashboard_patterns a =
     map (\<lambda>i. \<lparr>da_pattern = patterns a ! i, da_classification = class_value (mp_classification (patterns a ! i)),
               da_resolution_target = MISTAKE_RESOLUTION_STREAK\<rparr>)
       (filter (\<lambda>i. mp_active (patterns a ! i)) (an_active a))"

section \<open>Learning from a closed trade\<close>

definition learn_closed_trade ::
  "(string list \<Rightarrow> string list) \<Rightarrow> (nat \<Rightarrow> string) \<Rightarrow> micros \<Rightarrow> closed_trade \<Rightarrow> trade_outcome \<Rightarrow> mistake_analyzer \<Rightarrow> mistake_analyzer" where
  "learn_closed_trade key_order ids now t outcome a =
     (if ct_pnl t < 0 then
        snd (detect_patterns key_order ids now
          (a\<lparr>an_db := store_record (record_mistake now t (classify_mistake t outcome)) (an_db a)\<rparr>))
      else update_resolution_progress t a)"

section \<open>What the analyser maintains\<close>

text \<open>The identifiers are those drawn, the active list holds exactly the active patterns, an active
  pattern has not reached its streak, and the penalties are the base or the reactivated ones.\<close>

definition pattern_ok :: "mistake_pattern \<Rightarrow> bool" where
  "pattern_ok p \<longleftrightarrow>
     (mp_active p \<longrightarrow> 0 \<le> mp_resolution_progress p \<and> mp_resolution_progress p < MISTAKE_RESOLUTION_STREAK) \<and>
     mp_confidence_penalty p = (if mp_reactivated p then MISTAKE_REACTIVATED_CONFIDENCE_PENALTY else MISTAKE_BASE_CONFIDENCE_PENALTY) \<and>
     mp_size_reduction p = (if mp_reactivated p then MISTAKE_REACTIVATED_SIZE_REDUCTION else MISTAKE_BASE_SIZE_REDUCTION)"

definition analyzer_ok :: "(nat \<Rightarrow> string) \<Rightarrow> mistake_analyzer \<Rightarrow> bool" where
  "analyzer_ok ids a \<longleftrightarrow>
     inj ids \<and> (\<forall>i < length (patterns a). mp_id (patterns a ! i) = ids i \<and> pattern_ok (patterns a ! i)) \<and>
     distinct (map mp_classification (patterns a)) \<and>
     distinct (an_active a) \<and> set (an_active a) = {i. i < length (patterns a) \<and> mp_active (patterns a ! i)}"

lemma ok_ids_unique: "analyzer_ok ids a \<Longrightarrow> ids_unique (an_db a)"
  by (auto simp: analyzer_ok_def ids_unique_def distinct_conv_nth inj_eq)

lemma update_after_set:
  assumes "ids_unique db" "i < length (md_patterns db)" "\<And>p. mp_id (f p) = mp_id p"
  shows "update_pattern (mp_id (md_patterns db ! i)) g (set_pattern i f db) = set_pattern i (\<lambda>p. g (f p)) db"
proof -
  have "ids_unique (set_pattern i f db)" using assms by (simp add: ids_unique_set_pattern)
  from update_pattern_own[OF this, of i g] assms show ?thesis by (simp add: set_pattern_def)
qed

lemma classes_set_pattern:
  "(\<And>p. mp_classification (f p) = mp_classification p) \<Longrightarrow>
     map mp_classification (md_patterns (set_pattern i f db)) = map mp_classification (md_patterns db)"
  unfolding set_pattern_def by (cases "i < length (md_patterns db)") (simp_all add: map_update list_update_same_conv list_update_beyond not_less)

text \<open>A change of a pattern's fields that keeps its identifier and whether it is active.\<close>

lemma ok_change:
  assumes "analyzer_ok ids a" "i < length (patterns a)"
    and "\<And>p. mp_id (f p) = mp_id p" "mp_active (f (patterns a ! i)) = mp_active (patterns a ! i)"
    and c: "\<And>p. mp_classification (f p) = mp_classification p"
    and "pattern_ok (patterns a ! i) \<Longrightarrow> pattern_ok (f (patterns a ! i))"
  shows "analyzer_ok ids (a\<lparr>an_db := set_pattern i f (an_db a)\<rparr>)"
  using assms by (auto simp: analyzer_ok_def classes_set_pattern)

lemma ok_store: "analyzer_ok ids a \<Longrightarrow> analyzer_ok ids (a\<lparr>an_db := store_record r (an_db a)\<rparr>)"
  by (simp add: analyzer_ok_def store_record_def)

lemma ok_new:
  assumes "analyzer_ok ids a" "c \<notin> set (map mp_classification (patterns a))"
  shows "analyzer_ok ids (a\<lparr>an_db := create_pattern (new_pattern key_order (ids (length (patterns a))) c records) (an_db a),
    an_active := an_active a @ [length (patterns a)]\<rparr>)"
  using assms
  by (auto simp: analyzer_ok_def create_pattern_def new_pattern_def pattern_ok_def nth_append MISTAKE_RESOLUTION_STREAK_def
      less_Suc_eq split: prod.split)

lemma reactivated_simps [simp]:
  "mp_id (reactivated_fields p) = mp_id p" "mp_active (reactivated_fields p)"
  "mp_classification (reactivated_fields p) = mp_classification p"
  "mp_reactivated (reactivated_fields p)" "reactivated_fields (reactivated_fields p) = reactivated_fields p"
  "mp_confidence_penalty (reactivated_fields p) = MISTAKE_REACTIVATED_CONFIDENCE_PENALTY"
  "mp_size_reduction (reactivated_fields p) = MISTAKE_REACTIVATED_SIZE_REDUCTION"
  "mp_resolution_progress (reactivated_fields p) = 0"
  by (simp_all add: reactivated_fields_def)

text \<open>Reactivation, resolution and progress as changes of one object.\<close>

lemma reactivate_eq:
  assumes ok: "analyzer_ok ids a" and i: "first_where (\<lambda>p. mp_classification p = c \<and> \<not> mp_active p) (an_db a) = Some i"
  shows "reactivate_pattern c a = a\<lparr>an_db := set_pattern i reactivated_fields (an_db a), an_active := an_active a @ [i]\<rparr>"
proof -
  have l: "i < length (patterns a)" "\<not> mp_active (patterns a ! i)" using first_where_Some[OF i] by auto
  let ?db = "set_pattern i reactivated_fields (an_db a)"
  have u: "update_pattern (mp_id (md_patterns ?db ! i)) reactivated_fields ?db = ?db"
    using update_after_set[OF ok_ids_unique[OF ok] l(1), of reactivated_fields reactivated_fields] l(1)
    by simp
  have "md_patterns ?db ! i \<noteq> md_patterns ?db ! j" if "j \<in> set (an_active a)" for j
  proof -
    have j: "j < length (patterns a)" "j \<noteq> i" using that l(2) ok by (auto simp: analyzer_ok_def)
    have "mp_id (md_patterns ?db ! i) = ids i" "mp_id (md_patterns ?db ! j) = ids j" "inj ids"
      using ok l(1) j by (auto simp: analyzer_ok_def reactivated_fields_def)
    with j(2) show ?thesis by (metis injD)
  qed
  then have "md_patterns ?db ! i \<notin> set (map (\<lambda>j. md_patterns ?db ! j) (an_active a))" by auto
  then show ?thesis by (simp add: reactivate_pattern_def i Let_def u del: set_pattern_simps)
qed

lemma ok_reactivate:
  assumes "analyzer_ok ids a"
  shows "analyzer_ok ids (reactivate_pattern c a)"
proof (cases "first_where (\<lambda>p. mp_classification p = c \<and> \<not> mp_active p) (an_db a)")
  case (Some i)
  have l: "i < length (patterns a)" "\<not> mp_active (patterns a ! i)" using first_where_Some[OF Some] by auto
  show ?thesis unfolding reactivate_eq[OF assms Some] using assms l
    by (auto simp: analyzer_ok_def pattern_ok_def MISTAKE_RESOLUTION_STREAK_def classes_set_pattern)
qed (use assms in \<open>simp add: reactivate_pattern_def\<close>)

lemma known_class_eq:
  assumes ok: "analyzer_ok ids a" and n: "MISTAKE_PATTERN_THRESHOLD \<le> int (length (recent_records now c a))"
    and i: "get_pattern_by_classification (class_value c) (an_db a) = Some i"
  shows "detect_class key_order ids now c a = ([], a\<lparr>an_db := set_pattern i (\<lambda>p. p\<lparr>mp_loss_count := int (length (recent_records now c a)),
    mp_last_occurrence := mr_created_at (List.last (recent_records now c a))\<rparr>) (an_db a)\<rparr>)"
proof -
  let ?f = "\<lambda>p. p\<lparr>mp_loss_count := int (length (recent_records now c a)), mp_last_occurrence := mr_created_at (List.last (recent_records now c a))\<rparr>"
  have l: "i < length (patterns a)" using i by (auto simp: get_pattern_by_classification_def dest: first_where_Some)
  have "update_pattern (mp_id (md_patterns (set_pattern i ?f (an_db a)) ! i)) ?f (set_pattern i ?f (an_db a)) = set_pattern i ?f (an_db a)"
    using update_after_set[OF ok_ids_unique[OF ok] l, of ?f ?f] l by simp
  then show ?thesis using n i by (simp add: detect_class_def Let_def not_less del: set_pattern_simps)
qed

lemma ok_detect_class: "analyzer_ok ids a \<Longrightarrow> analyzer_ok ids (snd (detect_class key_order ids now c a))"
proof (cases "MISTAKE_PATTERN_THRESHOLD \<le> int (length (recent_records now c a))")
  case n: True
  assume ok: "analyzer_ok ids a"
  show ?thesis
  proof (cases "get_pattern_by_classification (class_value c) (an_db a)")
    case (Some i)
    have l: "i < length (patterns a)" using Some by (auto simp: get_pattern_by_classification_def dest: first_where_Some)
    show ?thesis unfolding known_class_eq[OF ok n Some] snd_conv by (rule ok_change[OF ok l]) (auto simp: pattern_ok_def)
  next
    case None
    have "c \<notin> set (map mp_classification (patterns a))"
      if "first_where (\<lambda>p. mp_classification p = c \<and> \<not> mp_active p) (an_db a) = None"
      using that None by (auto simp: first_where_None get_pattern_by_classification_def in_set_conv_nth)
    with None show ?thesis using n ok by (auto simp: detect_class_def Let_def not_less ok_reactivate intro!: ok_new split: option.split)
  qed
qed (simp add: detect_class_def Let_def not_le)

lemma detect_patterns_fold:
  "snd (detect_patterns key_order ids now a) = foldl (\<lambda>a c. snd (detect_class key_order ids now c a)) a mistake_classes"
proof -
  have "snd (foldl (\<lambda>(news, a) c. case detect_class key_order ids now c a of (new, a') \<Rightarrow> (news @ new, a')) (news, a) cs) =
      foldl (\<lambda>a c. snd (detect_class key_order ids now c a)) a cs" for news cs
    by (induction cs arbitrary: news a) (auto split: prod.split)
  then show ?thesis by (simp add: detect_patterns_def)
qed

lemma ok_detect_patterns: "analyzer_ok ids a \<Longrightarrow> analyzer_ok ids (snd (detect_patterns key_order ids now a))"
proof -
  have "analyzer_ok ids a \<Longrightarrow> analyzer_ok ids (foldl (\<lambda>a c. snd (detect_class key_order ids now c a)) a cs)" for cs
    by (induction cs arbitrary: a) (simp_all add: ok_detect_class)
  then show "analyzer_ok ids a \<Longrightarrow> ?thesis" by (simp add: detect_patterns_fold)
qed

text \<open>Progress.\<close>

lemma progress_cases:
  assumes ok: "analyzer_ok ids a" and l: "i < length (patterns a)"
  defines "p \<equiv> patterns a ! i"
  shows "progress_pattern t a i =
    (if \<not> mp_active p \<or> \<not> matches_pattern (signal_of_trade t) p then a
     else if is_profitable t \<and> MISTAKE_RESOLUTION_STREAK \<le> mp_resolution_progress p + 1
     then a\<lparr>an_db := set_pattern i (\<lambda>q. q\<lparr>mp_resolution_progress := mp_resolution_progress p + 1, mp_active := False\<rparr>) (an_db a),
            an_active := filter (\<lambda>j. j \<noteq> i) (an_active a)\<rparr>
     else a\<lparr>an_db := set_pattern i (\<lambda>q. q\<lparr>mp_resolution_progress := if is_profitable t then mp_resolution_progress p + 1 else 0\<rparr>) (an_db a)\<rparr>)"
proof -
  have u: "ids_unique (an_db a)" by (rule ok_ids_unique[OF ok])
  let ?n = "mp_resolution_progress p + 1"
  let ?d = "set_pattern i (\<lambda>q. q\<lparr>mp_resolution_progress := ?n, mp_active := False\<rparr>) (an_db a)"
  have twice: "set_pattern i (\<lambda>q. q\<lparr>mp_active := False\<rparr>) (set_pattern i (\<lambda>q. q\<lparr>mp_resolution_progress := ?n\<rparr>) (an_db a)) = ?d"
    using l by (simp add: set_pattern_def)
  have resolved: "update_pattern_status (mp_id p) False ?d = ?d"
    using update_after_set[OF u l, of "\<lambda>q. q\<lparr>mp_resolution_progress := ?n, mp_active := False\<rparr>" "\<lambda>q. q\<lparr>mp_active := False\<rparr>"]
    by (simp add: p_def update_pattern_status_def)
  have counted: "update_pattern (mp_id p) (\<lambda>q. q\<lparr>mp_resolution_progress := n\<rparr>) (set_pattern i (\<lambda>q. q\<lparr>mp_resolution_progress := n\<rparr>) (an_db a)) =
      set_pattern i (\<lambda>q. q\<lparr>mp_resolution_progress := n\<rparr>) (an_db a)" for n
    using update_after_set[OF u l, of "\<lambda>q. q\<lparr>mp_resolution_progress := n\<rparr>" "\<lambda>q. q\<lparr>mp_resolution_progress := n\<rparr>"]
    by (simp add: p_def)
  have "filter (\<lambda>j. mp_id (md_patterns ?d ! j) \<noteq> mp_id p) (an_active a) = filter (\<lambda>j. j \<noteq> i) (an_active a)"
  proof (rule filter_cong[OF refl])
    fix j assume "j \<in> set (an_active a)"
    then have "j < length (patterns a)" using ok by (auto simp: analyzer_ok_def)
    then show "(mp_id (md_patterns ?d ! j) \<noteq> mp_id p) = (j \<noteq> i)" using l ids_unique_inj[OF u, of j i] by (simp add: p_def)
  qed
  with twice resolved counted show ?thesis
    by (simp add: progress_pattern_def Let_def flip: p_def del: set_pattern_simps)
qed

lemma ok_progress:
  assumes ok: "analyzer_ok ids a" and l: "i < length (patterns a)"
  shows "analyzer_ok ids (progress_pattern t a i)" "length (patterns (progress_pattern t a i)) = length (patterns a)"
proof -
  show "length (patterns (progress_pattern t a i)) = length (patterns a)" by (simp add: progress_cases[OF assms])
  have p: "pattern_ok (patterns a ! i)" using assms by (simp add: analyzer_ok_def)
  have "analyzer_ok ids (a\<lparr>an_db := set_pattern i (\<lambda>q. q\<lparr>mp_resolution_progress := n, mp_active := False\<rparr>) (an_db a),
      an_active := filter (\<lambda>j. j \<noteq> i) (an_active a)\<rparr>)" for n
    using assms by (auto simp: analyzer_ok_def pattern_ok_def classes_set_pattern)
  moreover have "analyzer_ok ids (a\<lparr>an_db := set_pattern i (\<lambda>q. q\<lparr>mp_resolution_progress := n\<rparr>) (an_db a)\<rparr>)"
    if "0 \<le> n" "mp_active (patterns a ! i) \<Longrightarrow> n < MISTAKE_RESOLUTION_STREAK" for n
    by (rule ok_change[OF assms]) (use p that in \<open>auto simp: pattern_ok_def\<close>)
  ultimately show "analyzer_ok ids (progress_pattern t a i)"
    using ok p by (auto simp: progress_cases[OF assms] pattern_ok_def MISTAKE_RESOLUTION_STREAK_def not_le)
qed

lemma ok_update: "analyzer_ok ids a \<Longrightarrow> analyzer_ok ids (update_resolution_progress t a)"
proof -
  have "analyzer_ok ids a \<Longrightarrow> \<forall>i \<in> set xs. i < length (patterns a) \<Longrightarrow> analyzer_ok ids (foldl (progress_pattern t) a xs)" for xs
    by (induction xs arbitrary: a) (simp_all add: ok_progress)
  then show "analyzer_ok ids a \<Longrightarrow> ?thesis" by (auto simp: update_resolution_progress_def analyzer_ok_def)
qed

lemma ok_learn: "analyzer_ok ids a \<Longrightarrow> analyzer_ok ids (learn_closed_trade key_order ids now t o' a)"
  by (simp add: learn_closed_trade_def ok_update ok_detect_patterns ok_store)

text \<open>A restart finds the same active patterns, perhaps in another order.\<close>

lemma startup_same:
  assumes "analyzer_ok ids a"
  shows "mset (an_active (load_patterns_on_startup a)) = mset (an_active a)"
proof (rule set_eq_iff_mset_eq_distinct[THEN iffD1])
  show "distinct (an_active (load_patterns_on_startup a))" "distinct (an_active a)"
    using assms by (simp_all add: load_patterns_on_startup_def get_active_patterns_def refs_where_def analyzer_ok_def)
  show "set (an_active (load_patterns_on_startup a)) = set (an_active a)"
    using assms in_refs_where[of _ mp_active "an_db a"] by (auto simp: load_patterns_on_startup_def get_active_patterns_def analyzer_ok_def)
qed

lemma ok_startup: "analyzer_ok ids a \<Longrightarrow> analyzer_ok ids (load_patterns_on_startup a)"
  using startup_same[of ids a] by (auto simp: analyzer_ok_def load_patterns_on_startup_def get_active_patterns_def in_refs_where refs_where_def)

section \<open>Sequences of calls\<close>

datatype analyzer_call =
    Learn micros closed_trade trade_outcome
  | Detect micros
  | Progress closed_trade
  | Restart

definition analyzer_step ::
  "(string list \<Rightarrow> string list) \<Rightarrow> (nat \<Rightarrow> string) \<Rightarrow> mistake_analyzer \<Rightarrow> analyzer_call \<Rightarrow> mistake_analyzer" where
  "analyzer_step key_order ids a c =
     (case c of
        Learn now t o' \<Rightarrow> learn_closed_trade key_order ids now t o' a
      | Detect now \<Rightarrow> snd (detect_patterns key_order ids now a)
      | Progress t \<Rightarrow> update_resolution_progress t a
      | Restart \<Rightarrow> load_patterns_on_startup a)"

definition analyzer_calls ::
  "(string list \<Rightarrow> string list) \<Rightarrow> (nat \<Rightarrow> string) \<Rightarrow> analyzer_call list \<Rightarrow> mistake_analyzer" where
  "analyzer_calls key_order ids cs = foldl (analyzer_step key_order ids) (mistake_analyzer_init mistake_db_init) cs"

lemma ok_calls: "inj ids \<Longrightarrow> analyzer_ok ids (analyzer_calls key_order ids cs)"
proof -
  assume i: "inj ids"
  have "analyzer_ok ids a \<Longrightarrow> analyzer_ok ids (foldl (analyzer_step key_order ids) a cs)" for a
    by (induction cs arbitrary: a)
      (simp_all add: analyzer_step_def ok_learn ok_detect_patterns ok_update ok_startup split: analyzer_call.split)
  moreover have "analyzer_ok ids (mistake_analyzer_init mistake_db_init)"
    using i by (simp add: analyzer_ok_def mistake_analyzer_init_def mistake_db_init_def)
  ultimately show ?thesis by (simp add: analyzer_calls_def)
qed


section \<open>Recurring mistakes\<close>

text \<open>A class with an active pattern in force.\<close>

definition penalised :: "mistake_class \<Rightarrow> mistake_analyzer \<Rightarrow> bool" where
  "penalised c a \<longleftrightarrow> (\<exists>i \<in> set (an_active a). mp_classification (patterns a ! i) = c \<and> mp_active (patterns a ! i))"

lemma penalised_iff:
  "analyzer_ok ids a \<Longrightarrow> penalised c a \<longleftrightarrow> (\<exists>i < length (patterns a). mp_classification (patterns a ! i) = c \<and> mp_active (patterns a ! i))"
  by (auto simp: penalised_def analyzer_ok_def)

lemma records_kept:
  assumes "analyzer_ok ids a"
  shows "md_records (an_db (snd (detect_class key_order ids now c a))) = md_records (an_db a)"
proof (cases "MISTAKE_PATTERN_THRESHOLD \<le> int (length (recent_records now c a))")
  case n: True
  show ?thesis
  proof (cases "get_pattern_by_classification (class_value c) (an_db a)")
    case None
    then show ?thesis using n assms
      by (auto simp: detect_class_def Let_def not_less reactivate_eq create_pattern_def split: option.split)
  qed (simp add: known_class_eq[OF assms n])
qed (simp add: detect_class_def Let_def not_le)

text \<open>A pattern that is active stays as it is but for its loss count.\<close>

definition same_course :: "mistake_pattern \<Rightarrow> mistake_pattern \<Rightarrow> bool" where
  "same_course p q \<longleftrightarrow>
     mp_active q = mp_active p \<and> mp_classification q = mp_classification p \<and> mp_resolution_progress q = mp_resolution_progress p \<and>
     mp_conditions q = mp_conditions p \<and> mp_regime q = mp_regime p \<and> mp_strategy q = mp_strategy p"

lemma same_course_matches: "same_course p q \<Longrightarrow> matches_pattern g q = matches_pattern g p"
  by (simp add: same_course_def matches_pattern_def)

lemma detect_class_keeps:
  assumes ok: "analyzer_ok ids a" and l: "i < length (patterns a)" and act: "mp_active (patterns a ! i)"
  shows "i < length (patterns (snd (detect_class key_order ids now c a)))"
    and "same_course (patterns a ! i) (patterns (snd (detect_class key_order ids now c a)) ! i)"
proof -
  have "i < length (patterns (snd (detect_class key_order ids now c a))) \<and>
      same_course (patterns a ! i) (patterns (snd (detect_class key_order ids now c a)) ! i)"
  proof (cases "MISTAKE_PATTERN_THRESHOLD \<le> int (length (recent_records now c a))")
    case n: True
    show ?thesis
    proof (cases "get_pattern_by_classification (class_value c) (an_db a)")
      case (Some j)
      have "j < length (patterns a)" using Some by (auto simp: get_pattern_by_classification_def dest: first_where_Some)
      with l show ?thesis by (simp add: known_class_eq[OF ok n Some] same_course_def)
    next
      case None
      then show ?thesis using n ok l act
        by (auto simp: detect_class_def Let_def not_less reactivate_eq create_pattern_def nth_append same_course_def
            dest: first_where_Some split: option.split)
    qed
  qed (use l in \<open>simp add: detect_class_def Let_def not_le same_course_def\<close>)
  then show "i < length (patterns (snd (detect_class key_order ids now c a)))"
    and "same_course (patterns a ! i) (patterns (snd (detect_class key_order ids now c a)) ! i)" by auto
qed

lemma detect_class_penalises:
  assumes ok: "analyzer_ok ids a" and n: "MISTAKE_PATTERN_THRESHOLD \<le> int (length (recent_records now c a))"
  shows "penalised c (snd (detect_class key_order ids now c a))"
proof (cases "get_pattern_by_classification (class_value c) (an_db a)")
  case (Some i)
  then have i: "i < length (patterns a)" "mp_classification (patterns a ! i) = c" "mp_active (patterns a ! i)"
    by (auto simp: get_pattern_by_classification_def dest: first_where_Some)
  then have "i \<in> set (an_active a)" using ok by (auto simp: analyzer_ok_def)
  with i show ?thesis by (auto simp: penalised_def known_class_eq[OF ok n Some])
next
  case none: None
  show ?thesis
  proof (cases "first_where (\<lambda>p. mp_classification p = c \<and> \<not> mp_active p) (an_db a)")
    case None
    with none n show ?thesis by (simp add: detect_class_def Let_def not_less penalised_def create_pattern_def new_pattern_def split: prod.split)
  next
    case (Some i)
    with none n show ?thesis using first_where_Some[OF Some]
      by (simp add: detect_class_def Let_def not_less penalised_def reactivate_eq[OF ok Some])
  qed
qed

lemma penalised_kept: "analyzer_ok ids a \<Longrightarrow> penalised d a \<Longrightarrow> penalised d (snd (detect_class key_order ids now c a))"
  using detect_class_keeps[of ids a _ key_order now c] ok_detect_class[of ids a key_order now c]
  by (fastforce simp: penalised_iff same_course_def)

lemma detect_fold:
  assumes "analyzer_ok ids a"
  shows "md_records (an_db (foldl (\<lambda>a c. snd (detect_class key_order ids now c a)) a cs)) = md_records (an_db a)"
    and "penalised c a \<Longrightarrow> penalised c (foldl (\<lambda>a c. snd (detect_class key_order ids now c a)) a cs)"
    and "MISTAKE_PATTERN_THRESHOLD \<le> int (length (recent_records now c a)) \<Longrightarrow> c \<in> set cs \<Longrightarrow>
      penalised c (foldl (\<lambda>a c. snd (detect_class key_order ids now c a)) a cs)"
proof -
  have r: "recent_records now c (snd (detect_class key_order ids now d a)) = recent_records now c a" if "analyzer_ok ids a" for c d a
    using records_kept[OF that, of key_order now d] by (simp add: recent_records_def get_records_by_classification_def)
  show "md_records (an_db (foldl (\<lambda>a c. snd (detect_class key_order ids now c a)) a cs)) = md_records (an_db a)"
    using assms by (induction cs arbitrary: a) (simp_all add: ok_detect_class records_kept)
  show p: "penalised c (foldl (\<lambda>a c. snd (detect_class key_order ids now c a)) a cs)" if "penalised c a" for c
    using assms that by (induction cs arbitrary: a) (simp_all add: ok_detect_class penalised_kept)
  have p': "analyzer_ok ids b \<Longrightarrow> penalised c b \<Longrightarrow> penalised c (foldl (\<lambda>a c. snd (detect_class key_order ids now c a)) b cs)" for b cs
    by (induction cs arbitrary: b) (simp_all add: ok_detect_class penalised_kept)
  show "MISTAKE_PATTERN_THRESHOLD \<le> int (length (recent_records now c a)) \<Longrightarrow> c \<in> set cs \<Longrightarrow>
      penalised c (foldl (\<lambda>a c. snd (detect_class key_order ids now c a)) a cs)"
    using assms
  proof (induction cs arbitrary: a)
    case (Cons d cs)
    show ?case
    proof (cases "d = c")
      case True
      then show ?thesis using p'[OF ok_detect_class[OF Cons.prems(3)] detect_class_penalises[OF Cons.prems(3,1)]] by simp
    next
      case False
      then show ?thesis using Cons.IH[of "snd (detect_class key_order ids now d a)"] Cons.prems r by (simp add: ok_detect_class)
    qed
  qed simp
qed

text \<open>
  Claim C14: after patterns were detected, every kind of mistake with at least five records in the
  last thirty days has an active pattern among those in force, with a penalty of 20 or 30 and a
  size factor below one, whatever happened before.
\<close>

theorem recurring_mistakes_are_penalised:
  assumes "inj ids" and a: "a = snd (detect_patterns key_order ids now (analyzer_calls key_order ids cs))"
    and n: "MISTAKE_PATTERN_THRESHOLD \<le> int (length (recent_records now c (analyzer_calls key_order ids cs)))"
  shows "\<exists>i \<in> set (an_active a). mp_classification (patterns a ! i) = c \<and> mp_active (patterns a ! i) \<and>
    (mp_confidence_penalty (patterns a ! i), mp_size_reduction (patterns a ! i)) \<in> {(20, flt (7/10)), (30, flt (1/2))}"
proof -
  let ?a = "analyzer_calls key_order ids cs"
  have ok: "analyzer_ok ids ?a" by (rule ok_calls[OF assms(1)])
  have "penalised c a" unfolding a detect_patterns_fold by (rule detect_fold(3)[OF ok n]) simp
  moreover have "analyzer_ok ids a" unfolding a by (rule ok_detect_patterns[OF ok])
  ultimately obtain i where i: "i \<in> set (an_active a)" "mp_classification (patterns a ! i) = c" "mp_active (patterns a ! i)"
    "pattern_ok (patterns a ! i)"
    unfolding penalised_def analyzer_ok_def by auto
  then show ?thesis
    by (intro bexI[of _ i])
      (auto simp: pattern_ok_def MISTAKE_BASE_CONFIDENCE_PENALTY_def MISTAKE_REACTIVATED_CONFIDENCE_PENALTY_def
        MISTAKE_BASE_SIZE_REDUCTION_def MISTAKE_REACTIVATED_SIZE_REDUCTION_def simp del: Constants.float_constants)
qed

section \<open>Reactivation\<close>

lemma detect_class_other:
  assumes ok: "analyzer_ok ids a" and l: "i < length (patterns a)" and d: "mp_classification (patterns a ! i) \<noteq> d"
  shows "i < length (patterns (snd (detect_class key_order ids now d a))) \<and>
    patterns (snd (detect_class key_order ids now d a)) ! i = patterns a ! i"
proof (cases "MISTAKE_PATTERN_THRESHOLD \<le> int (length (recent_records now d a))")
  case n: True
  show ?thesis
  proof (cases "get_pattern_by_classification (class_value d) (an_db a)")
    case (Some j)
    then have "j < length (patterns a)" "j \<noteq> i" using d by (auto simp: get_pattern_by_classification_def dest: first_where_Some)
    with l show ?thesis by (simp add: known_class_eq[OF ok n Some])
  next
    case None
    then show ?thesis using n ok l d
      by (auto simp: detect_class_def Let_def not_less reactivate_eq create_pattern_def nth_append dest: first_where_Some split: option.split)
  qed
qed (use l in \<open>simp add: detect_class_def Let_def not_le\<close>)

lemma detect_fold_other:
  "analyzer_ok ids a \<Longrightarrow> i < length (patterns a) \<Longrightarrow> mp_classification (patterns a ! i) \<notin> set cs \<Longrightarrow>
     i < length (patterns (foldl (\<lambda>a c. snd (detect_class key_order ids now c a)) a cs)) \<and>
     patterns (foldl (\<lambda>a c. snd (detect_class key_order ids now c a)) a cs) ! i = patterns a ! i"
proof (induction cs arbitrary: a)
  case (Cons d cs)
  then show ?case using detect_class_other[of ids a i d key_order now] ok_detect_class[of ids a key_order now d] by simp
qed simp

lemma one_per_class:
  "analyzer_ok ids a \<Longrightarrow> i < length (patterns a) \<Longrightarrow> j < length (patterns a) \<Longrightarrow>
     mp_classification (patterns a ! i) = mp_classification (patterns a ! j) \<longleftrightarrow> i = j"
  using nth_eq_iff_index_eq[of "map mp_classification (patterns a)" i j] by (simp add: analyzer_ok_def)

lemma detect_class_reactivates:
  assumes ok: "analyzer_ok ids a" and l: "i < length (patterns a)" and r: "\<not> mp_active (patterns a ! i)"
    and n: "MISTAKE_PATTERN_THRESHOLD \<le> int (length (recent_records now (mp_classification (patterns a ! i)) a))"
  shows "patterns (snd (detect_class key_order ids now (mp_classification (patterns a ! i)) a)) ! i = reactivated_fields (patterns a ! i)"
    and "length (patterns (snd (detect_class key_order ids now (mp_classification (patterns a ! i)) a))) = length (patterns a)"
proof -
  let ?c = "mp_classification (patterns a ! i)"
  have "get_pattern_by_classification (class_value ?c) (an_db a) = None"
    using one_per_class[OF ok _ l] r by (auto simp: get_pattern_by_classification_def first_where_None)
  moreover have f: "first_where (\<lambda>p. mp_classification p = ?c \<and> \<not> mp_active p) (an_db a) = Some i"
  proof (cases "first_where (\<lambda>p. mp_classification p = ?c \<and> \<not> mp_active p) (an_db a)")
    case None
    then show ?thesis using l r by (auto simp: first_where_None)
  next
    case (Some j)
    then show ?thesis using one_per_class[OF ok _ l, of j] by (auto dest: first_where_Some)
  qed
  ultimately have "snd (detect_class key_order ids now ?c a) = reactivate_pattern ?c a"
    using n by (simp add: detect_class_def Let_def not_less)
  then show "patterns (snd (detect_class key_order ids now ?c a)) ! i = reactivated_fields (patterns a ! i)"
    and "length (patterns (snd (detect_class key_order ids now ?c a))) = length (patterns a)"
    using l by (simp_all add: reactivate_eq[OF ok f])
qed

text \<open>
  Claim: a resolved pattern comes back with the raised penalties at the next detection as long
  as five of its old losses are within thirty days: no loss after the resolution is needed, the
  records are the same before and after.
\<close>

theorem resolved_pattern_returns_without_new_losses:
  assumes "inj ids" and a: "a = analyzer_calls key_order ids cs"
    and i: "i < length (patterns a)" "\<not> mp_active (patterns a ! i)"
    and n: "MISTAKE_PATTERN_THRESHOLD \<le> int (length (recent_records now (mp_classification (patterns a ! i)) a))"
  shows "patterns (snd (detect_patterns key_order ids now a)) ! i = reactivated_fields (patterns a ! i) \<and>
    md_records (an_db (snd (detect_patterns key_order ids now a))) = md_records (an_db a)"
proof
  have ok: "analyzer_ok ids a" unfolding a by (rule ok_calls[OF assms(1)])
  let ?c = "mp_classification (patterns a ! i)" and ?f = "foldl (\<lambda>a c. snd (detect_class key_order ids now c a))"
  show "md_records (an_db (snd (detect_patterns key_order ids now a))) = md_records (an_db a)"
    by (simp add: detect_patterns_fold detect_fold(1)[OF ok])
  obtain xs ys where xs: "mistake_classes = xs @ ?c # ys" using split_list[OF in_mistake_classes] by blast
  have "distinct mistake_classes" by (simp add: mistake_classes_def)
  then have "distinct (xs @ ?c # ys)" by (simp only: xs)
  then have c: "?c \<notin> set xs" "?c \<notin> set ys" by auto
  let ?b = "?f a xs"
  have ok1: "analyzer_ok ids (?f b zs)" if "analyzer_ok ids b" for b zs
    using that by (induction zs arbitrary: b) (simp_all add: ok_detect_class)
  have b: "i < length (patterns ?b)" "patterns ?b ! i = patterns a ! i"
    using detect_fold_other[OF ok i(1) c(1)] by auto
  have "recent_records now ?c ?b = recent_records now ?c a"
    using detect_fold(1)[OF ok, of key_order now xs] by (simp add: recent_records_def get_records_by_classification_def)
  then have d: "patterns (snd (detect_class key_order ids now ?c ?b)) ! i = reactivated_fields (patterns a ! i)"
    "i < length (patterns (snd (detect_class key_order ids now ?c ?b)))"
    using detect_class_reactivates[OF ok1[OF ok] b(1)] b i(2) n by simp_all
  have "patterns (?f (snd (detect_class key_order ids now ?c ?b)) ys) ! i = reactivated_fields (patterns a ! i)"
    using detect_fold_other[OF ok_detect_class[OF ok1[OF ok]] d(2)] d(1) c(2) by simp
  then show "patterns (snd (detect_patterns key_order ids now a)) ! i = reactivated_fields (patterns a ! i)"
    by (simp add: detect_patterns_fold xs)
qed

section \<open>Streaks\<close>

lemma detect_keeps_course:
  assumes "analyzer_ok ids a" "i < length (patterns a)" "mp_active (patterns a ! i)"
  shows "i < length (patterns (snd (detect_patterns key_order ids now a))) \<and>
    same_course (patterns a ! i) (patterns (snd (detect_patterns key_order ids now a)) ! i)"
proof -
  have "i < length (patterns (foldl (\<lambda>a c. snd (detect_class key_order ids now c a)) a cs)) \<and>
      same_course (patterns a ! i) (patterns (foldl (\<lambda>a c. snd (detect_class key_order ids now c a)) a cs) ! i)" for cs
    using assms
  proof (induction cs arbitrary: a)
    case Nil
    then show ?case by (simp add: same_course_def)
  next
    case (Cons c cs)
    note k = detect_class_keeps[OF Cons.prems, of key_order now c]
    then have "mp_active (patterns (snd (detect_class key_order ids now c a)) ! i)" using Cons.prems(3) by (simp add: same_course_def)
    from Cons.IH[OF ok_detect_class[OF Cons.prems(1)] k(1) this] k(2) show ?case by (simp add: same_course_def)
  qed
  then show ?thesis by (simp add: detect_patterns_fold)
qed

lemma progress_other:
  "analyzer_ok ids a \<Longrightarrow> j < length (patterns a) \<Longrightarrow> i \<noteq> j \<Longrightarrow> patterns (progress_pattern t a j) ! i = patterns a ! i"
  by (simp add: progress_cases set_pattern_def)

lemma progress_others:
  "analyzer_ok ids a \<Longrightarrow> \<forall>j \<in> set js. j < length (patterns a) \<Longrightarrow> i \<notin> set js \<Longrightarrow>
     analyzer_ok ids (foldl (progress_pattern t) a js) \<and> length (patterns (foldl (progress_pattern t) a js)) = length (patterns a) \<and>
     patterns (foldl (progress_pattern t) a js) ! i = patterns a ! i"
proof (induction js arbitrary: a)
  case (Cons j js)
  then show ?case using ok_progress[of ids a j t] progress_other[of ids a j i t] by simp
qed simp

lemma update_one:
  assumes ok: "analyzer_ok ids a" and i: "i < length (patterns a)" "mp_active (patterns a ! i)"
  shows "patterns (update_resolution_progress t a) ! i = patterns (progress_pattern t a i) ! i \<and>
    length (patterns (update_resolution_progress t a)) = length (patterns a)"
proof -
  have s: "\<forall>j \<in> set (an_active a). j < length (patterns a)" "i \<in> set (an_active a)" "distinct (an_active a)"
    using ok i by (auto simp: analyzer_ok_def)
  from split_list[OF s(2)] obtain xs ys where x: "an_active a = xs @ i # ys" by blast
  let ?a = "foldl (progress_pattern t) a xs"
  have 1: "analyzer_ok ids ?a" "length (patterns ?a) = length (patterns a)" "patterns ?a ! i = patterns a ! i"
    using progress_others[OF ok, of xs i t] s x by auto
  note 2 = ok_progress[OF 1(1), of i t]
  have 3: "patterns (progress_pattern t ?a i) ! i = patterns (progress_pattern t a i) ! i"
    using progress_cases[OF 1(1), of i t] progress_cases[OF ok i(1), of t] 1(2,3) i(1) by simp
  show ?thesis using progress_others[OF 2(1), of ys i t] 1(2) 2(2) 3 i(1) s x by (simp add: update_resolution_progress_def)
qed

text \<open>A win is counted, a loss leaves the course of the pattern alone.\<close>

lemma learn_win:
  assumes "analyzer_ok ids a" "i < length (patterns a)" "mp_active (patterns a ! i)"
    and "is_profitable t" "matches_pattern (signal_of_trade t) (patterns a ! i)"
  shows "i < length (patterns (learn_closed_trade key_order ids now t o' a)) \<and>
    patterns (learn_closed_trade key_order ids now t o' a) ! i =
      (patterns a ! i)\<lparr>mp_resolution_progress := mp_resolution_progress (patterns a ! i) + 1,
        mp_active := mp_resolution_progress (patterns a ! i) + 1 < MISTAKE_RESOLUTION_STREAK\<rparr>"
  using assms update_one[OF assms(1-3), of t] progress_cases[OF assms(1,2), of t]
  by (auto simp: learn_closed_trade_def is_profitable_def)

lemma learn_loss:
  assumes "analyzer_ok ids a" "i < length (patterns a)" "mp_active (patterns a ! i)" "ct_pnl t < 0"
  shows "i < length (patterns (learn_closed_trade key_order ids now t o' a)) \<and>
    same_course (patterns a ! i) (patterns (learn_closed_trade key_order ids now t o' a) ! i)"
proof -
  let ?a = "a\<lparr>an_db := store_record (record_mistake now t (classify_mistake t o')) (an_db a)\<rparr>"
  have "patterns ?a = patterns a" by (simp add: store_record_def)
  then show ?thesis using detect_keeps_course[OF ok_store[OF assms(1)], of i "record_mistake now t (classify_mistake t o')" key_order now] assms
    by (simp add: learn_closed_trade_def)
qed

type_synonym learned = "micros \<times> closed_trade \<times> trade_outcome"

definition learn_all :: "(string list \<Rightarrow> string list) \<Rightarrow> (nat \<Rightarrow> string) \<Rightarrow> mistake_analyzer \<Rightarrow> learned list \<Rightarrow> mistake_analyzer" where
  "learn_all key_order ids a ts = foldl (\<lambda>a (now, t, o'). learn_closed_trade key_order ids now t o' a) a ts"

definition wins :: "learned list \<Rightarrow> nat" where
  "wins ts = length (filter (\<lambda>(now, t, o'). is_profitable t) ts)"

lemma learn_all_course:
  assumes "analyzer_ok ids a" "i < length (patterns a)" "mp_active (patterns a ! i)"
    and "\<forall>(now, t, o') \<in> set ts. ct_pnl t < 0 \<or> is_profitable t \<and> matches_pattern (signal_of_trade t) (patterns a ! i)"
    and "mp_resolution_progress (patterns a ! i) + int (wins ts) < MISTAKE_RESOLUTION_STREAK"
  shows "analyzer_ok ids (learn_all key_order ids a ts) \<and> i < length (patterns (learn_all key_order ids a ts)) \<and>
    mp_active (patterns (learn_all key_order ids a ts) ! i) \<and>
    mp_resolution_progress (patterns (learn_all key_order ids a ts) ! i) = mp_resolution_progress (patterns a ! i) + int (wins ts) \<and>
    (\<forall>g. matches_pattern g (patterns (learn_all key_order ids a ts) ! i) = matches_pattern g (patterns a ! i))"
  using assms
proof (induction ts arbitrary: a)
  case (Cons x ts)
  obtain now t o' where x: "x = (now, t, o')" by (rule prod_cases3)
  let ?a = "learn_closed_trade key_order ids now t o' a"
  have ok: "analyzer_ok ids ?a" by (rule ok_learn[OF Cons.prems(1)])
  have step: "i < length (patterns ?a) \<and> mp_active (patterns ?a ! i) \<and>
      mp_resolution_progress (patterns ?a ! i) = mp_resolution_progress (patterns a ! i) + (if is_profitable t then 1 else 0) \<and>
      (\<forall>g. matches_pattern g (patterns ?a ! i) = matches_pattern g (patterns a ! i))"
  proof (cases "is_profitable t")
    case True
    then have "matches_pattern (signal_of_trade t) (patterns a ! i)" "mp_resolution_progress (patterns a ! i) + 1 < MISTAKE_RESOLUTION_STREAK"
      using Cons.prems(4,5) by (auto simp: x is_profitable_def wins_def)
    then show ?thesis using learn_win[OF Cons.prems(1-3) True, of key_order now o'] True
      by (simp add: matches_pattern_def text_differs_def)
  next
    case False
    then have "ct_pnl t < 0" using Cons.prems(4) by (auto simp: x)
    from learn_loss[OF Cons.prems(1-3) this, of key_order now o'] have
      l: "i < length (patterns ?a)" and c: "same_course (patterns a ! i) (patterns ?a ! i)" by auto
    from l c same_course_matches[OF c] Cons.prems(3) False show ?thesis by (simp add: same_course_def)
  qed
  have w: "int (wins (x # ts)) = (if is_profitable t then 1 else 0) + int (wins ts)" by (simp add: wins_def x)
  have "\<forall>(now, t, o') \<in> set ts. ct_pnl t < 0 \<or> is_profitable t \<and> matches_pattern (signal_of_trade t) (patterns ?a ! i)"
    using Cons.prems(4) step by auto
  moreover have "mp_resolution_progress (patterns ?a ! i) + int (wins ts) < MISTAKE_RESOLUTION_STREAK"
    using Cons.prems(5) step w by simp
  ultimately have ih: "analyzer_ok ids (learn_all key_order ids ?a ts) \<and> i < length (patterns (learn_all key_order ids ?a ts)) \<and>
      mp_active (patterns (learn_all key_order ids ?a ts) ! i) \<and>
      mp_resolution_progress (patterns (learn_all key_order ids ?a ts) ! i) = mp_resolution_progress (patterns ?a ! i) + int (wins ts) \<and>
      (\<forall>g. matches_pattern g (patterns (learn_all key_order ids ?a ts) ! i) = matches_pattern g (patterns ?a ! i))"
    using step by (intro Cons.IH[OF ok]) auto
  have "learn_all key_order ids a (x # ts) = learn_all key_order ids ?a ts" by (simp add: learn_all_def x)
  with ih step w show ?case by simp
qed (simp add: learn_all_def wins_def)

text \<open>
  Claim: a pattern is resolved by twenty wins that match it, however many losses lie between
  them: closed trades that lose are recorded and may update or create patterns, but never set the
  counter of wins back.  After nineteen wins and any losses the counter is nineteen, and the next
  win resolves the pattern.
\<close>

theorem resolution_counts_wins_not_streaks:
  assumes "inj ids" and a: "a = analyzer_calls key_order ids cs"
    and i: "i < length (patterns a)" "mp_active (patterns a ! i)" "mp_resolution_progress (patterns a ! i) = 0"
    and ts: "\<forall>(now, t, o') \<in> set ts. ct_pnl t < 0 \<or> is_profitable t \<and> matches_pattern (signal_of_trade t) (patterns a ! i)"
    and w: "wins ts = 19"
    and t: "is_profitable t" "matches_pattern (signal_of_trade t) (patterns a ! i)"
  shows "mp_active (patterns (learn_all key_order ids a ts) ! i) \<and>
    mp_resolution_progress (patterns (learn_all key_order ids a ts) ! i) = 19 \<and>
    \<not> mp_active (patterns (learn_all key_order ids a (ts @ [(now, t, o')])) ! i)"
proof -
  have ok: "analyzer_ok ids a" unfolding a by (rule ok_calls[OF assms(1)])
  have "mp_resolution_progress (patterns a ! i) + int (wins ts) < MISTAKE_RESOLUTION_STREAK"
    by (simp add: i(3) w MISTAKE_RESOLUTION_STREAK_def)
  note c = learn_all_course[OF ok i(1,2) ts this, of key_order]
  let ?b = "learn_all key_order ids a ts"
  have "learn_all key_order ids a (ts @ [(now, t, o')]) = learn_closed_trade key_order ids now t o' ?b"
    by (simp add: learn_all_def)
  then show ?thesis using learn_win[of ids ?b i t key_order now o'] c t i(3) w by (simp add: MISTAKE_RESOLUTION_STREAK_def)
qed

section \<open>Regimes\<close>

text \<open>All records and patterns carry one regime.\<close>

definition one_regime :: "string \<Rightarrow> mistake_analyzer \<Rightarrow> bool" where
  "one_regime u a \<longleftrightarrow>
     list_all (\<lambda>r. mr_regime r = u) (md_records (an_db a)) \<and> list_all (\<lambda>p. mp_regime p = Some u) (patterns a)"

lemma regime_set_pattern:
  assumes "\<And>p. mp_regime (f p) = mp_regime p" "list_all (\<lambda>p. mp_regime p = Some u) (md_patterns db)"
  shows "list_all (\<lambda>p. mp_regime p = Some u) (md_patterns (set_pattern i f db))"
proof (cases "i < length (md_patterns db)")
  case True
  with assms have "set ((md_patterns db)[i := f (md_patterns db ! i)]) \<subseteq> insert (f (md_patterns db ! i)) (set (md_patterns db))"
    and "mp_regime (f (md_patterns db ! i)) = Some u"
    by (auto simp: set_update_subset_insert list_all_length)
  then show ?thesis using assms(2) by (auto simp: set_pattern_def list_all_iff)
qed (use assms in \<open>simp add: set_pattern_def list_update_beyond\<close>)

lemma regime_update_pattern:
  assumes "\<And>p. mp_regime (f p) = mp_regime p" "list_all (\<lambda>p. mp_regime p = Some u) (md_patterns db)"
  shows "list_all (\<lambda>p. mp_regime p = Some u) (md_patterns (update_pattern pid f db))"
  using assms by (auto simp: update_pattern_def regime_set_pattern split: option.split)

lemma update_pattern_records [simp]: "md_records (update_pattern pid f db) = md_records db"
  by (simp add: update_pattern_def split: option.split)

lemma most_common_constant: "xs \<noteq> [] \<Longrightarrow> \<forall>x \<in> set xs. x = u \<Longrightarrow> most_common xs = Some u"
proof -
  assume "xs \<noteq> []" "\<forall>x \<in> set xs. x = u"
  then obtain n where xs: "xs = replicate (Suc n) u" by (metis length_0_conv old.nat.exhaust replicate_eqI)
  have c: "count_list (replicate m u) u = m" for m by (induction m) simp_all
  have f: "foldr max (replicate (Suc m) k) 0 = k" for m and k :: nat by (induction m) simp_all
  have "map (count_list xs) xs = replicate (Suc n) (Suc n)" using c[of "Suc n"] by (simp add: xs)
  then have "foldr max (map (count_list xs) xs) 0 = Suc n" by (simp only: f)
  moreover have "count_list xs u = Suc n" unfolding xs by (rule c)
  ultimately show "most_common xs = Some u" by (simp add: most_common_def xs)
qed

lemma regime_new_pattern:
  assumes "u \<noteq> []" "records \<noteq> []" "\<forall>r \<in> set records. mr_regime r = u"
  shows "mp_regime (new_pattern key_order pid c records) = Some u"
proof -
  have "filter (\<lambda>s. s \<noteq> []) (map mr_regime records) = map mr_regime records" using assms by (intro filter_True) auto
  then have "most_common (filter (\<lambda>s. s \<noteq> []) (map mr_regime records)) = Some u"
    using assms by (auto intro!: most_common_constant)
  then show ?thesis by (simp add: new_pattern_def average_indicators_def)
qed

lemma regime_detect_class:
  assumes u: "u \<noteq> []" and a: "one_regime u a"
  shows "one_regime u (snd (detect_class key_order ids now c a))"
proof -
  have recs: "\<forall>r \<in> set (recent_records now c a). mr_regime r = u"
    using a by (auto simp: one_regime_def recent_records_def get_records_by_classification_def list_all_iff)
  have f: "mp_regime (reactivated_fields p) = mp_regime p" for p by (simp add: reactivated_fields_def)
  show ?thesis
  proof (cases "int (length (recent_records now c a)) < MISTAKE_PATTERN_THRESHOLD")
    case False
    then have "recent_records now c a \<noteq> []" by (auto simp: MISTAKE_PATTERN_THRESHOLD_def)
    from regime_new_pattern[OF u this recs] False a show ?thesis
      by (auto simp: detect_class_def Let_def one_regime_def reactivate_pattern_def create_pattern_def f
          intro!: regime_update_pattern regime_set_pattern split: option.split)
  qed (use a in \<open>simp add: detect_class_def\<close>)
qed

lemma regime_detect_patterns: "u \<noteq> [] \<Longrightarrow> one_regime u a \<Longrightarrow> one_regime u (snd (detect_patterns key_order ids now a))"
proof -
  assume u: "u \<noteq> []"
  have "one_regime u a \<Longrightarrow> one_regime u (foldl (\<lambda>a c. snd (detect_class key_order ids now c a)) a cs)" for cs
    by (induction cs arbitrary: a) (simp_all add: regime_detect_class u)
  then show "one_regime u a \<Longrightarrow> ?thesis" by (simp add: detect_patterns_fold)
qed

lemma regime_progress: "one_regime u a \<Longrightarrow> one_regime u (progress_pattern t a i)"
  by (auto simp: progress_pattern_def one_regime_def Let_def update_pattern_status_def
      intro!: regime_update_pattern regime_set_pattern)

lemma regime_update: "one_regime u a \<Longrightarrow> one_regime u (update_resolution_progress t a)"
proof -
  have "one_regime u a \<Longrightarrow> one_regime u (foldl (progress_pattern t) a xs)" for xs
    by (induction xs arbitrary: a) (simp_all add: regime_progress)
  then show "one_regime u a \<Longrightarrow> ?thesis" by (simp add: update_resolution_progress_def)
qed

lemma regime_learn:
  assumes "u \<noteq> []" "one_regime u a" "ct_regime t = u"
  shows "one_regime u (learn_closed_trade key_order ids now t o' a)"
proof -
  have "one_regime u (a\<lparr>an_db := store_record (record_mistake now t c) (an_db a)\<rparr>)" for c
    using assms by (simp add: one_regime_def store_record_def record_mistake_def)
  then show ?thesis using assms by (simp add: learn_closed_trade_def regime_update regime_detect_patterns)
qed

definition learns_under :: "string \<Rightarrow> analyzer_call \<Rightarrow> bool" where
  "learns_under u c \<longleftrightarrow> (case c of Learn now t o' \<Rightarrow> ct_regime t = u | _ \<Rightarrow> True)"

lemma regime_step:
  assumes "u \<noteq> []" "one_regime u a" "learns_under u c"
  shows "one_regime u (analyzer_step key_order ids a c)"
proof (cases c)
  case (Learn now t o')
  then show ?thesis using assms by (simp add: analyzer_step_def learns_under_def regime_learn)
next
  case Restart
  then show ?thesis using assms(2) by (simp add: analyzer_step_def one_regime_def load_patterns_on_startup_def)
qed (use assms in \<open>simp_all add: analyzer_step_def regime_detect_patterns regime_update\<close>)

lemma regime_calls: "u \<noteq> [] \<Longrightarrow> list_all (learns_under u) cs \<Longrightarrow> one_regime u (analyzer_calls key_order ids cs)"
proof -
  assume "u \<noteq> []" "list_all (learns_under u) cs"
  then have "one_regime u a \<Longrightarrow> one_regime u (foldl (analyzer_step key_order ids) a cs)" for a
    by (induction cs arbitrary: a) (simp_all add: regime_step)
  then show ?thesis by (simp add: analyzer_calls_def one_regime_def mistake_analyzer_init_def mistake_db_init_def)
qed

lemma active_in_range: "analyzer_ok ids a \<Longrightarrow> j \<in> set (an_active a) \<Longrightarrow> j < length (patterns a)"
  by (auto simp: analyzer_ok_def)

text \<open>
  Claim: when every closed trade is learned under one regime, as the trading loop does by storing
  every trade with the regime unknown, a signal of any other regime is never penalised: it matches
  no pattern, loses no confidence and keeps its full size, however often the mistake recurs.
\<close>

theorem other_regimes_are_never_penalised:
  assumes "inj ids" "u \<noteq> []" "list_all (learns_under u) cs" and g: "ps_regime g \<noteq> u"
  shows "get_confidence_penalty g (analyzer_calls key_order ids cs) = 0 \<and>
    get_size_reduction_factor g (analyzer_calls key_order ids cs) = 1"
proof -
  let ?a = "analyzer_calls key_order ids cs"
  have "one_regime u ?a" by (rule regime_calls[OF assms(2,3)])
  then have "\<not> matches_pattern g (patterns ?a ! j)" if "j \<in> set (an_active ?a)" for j
    using active_in_range[OF ok_calls[OF assms(1)] that] assms(2) g
    by (auto simp: one_regime_def list_all_length matches_pattern_def text_differs_def)
  then have "filter (\<lambda>j. mp_active (patterns ?a ! j) \<and> matches_pattern g (patterns ?a ! j)) (an_active ?a) = []"
    by (auto simp: filter_empty_conv)
  then show ?thesis by (simp add: get_confidence_penalty_def get_size_reduction_factor_def)
qed

section \<open>Concrete inputs\<close>

definition uuids :: "nat \<Rightarrow> string" where
  "uuids n = replicate n (CHR 0x61)"

lemma inj_uuids: "inj uuids"
proof (rule injI)
  fix m n assume "uuids m = uuids n"
  then have "length (uuids m) = length (uuids n)" by simp
  then show "m = n" by (simp add: uuids_def)
qed

definition example_trade :: "pyfloat \<Rightarrow> closed_trade" where
  "example_trade pnl = \<lparr>ct_trade_id = ''t'', ct_regime = ''unknown'', ct_strategy = ''ict'',
     ct_indicators = [(''a'', 1), (''b'', 1), (''c'', 1)], ct_confidence_at_entry = 80, ct_exit_reason = ''stop'', ct_pnl = pnl,
     ct_entry_conditions = []\<rparr>"

definition example_outcome :: trade_outcome where
  "example_outcome = \<lparr>to_actual_direction = ''down'', to_volatility_realized = 0, to_regime_actual = ''unknown'',
     to_breakout_confirmed = True, to_timing_optimal = False\<rparr>"

definition five_losses :: "analyzer_call list" where
  "five_losses = replicate 5 (Learn 0 (example_trade (-1)) example_outcome)"

definition twenty_wins :: "analyzer_call list" where
  "twenty_wins = replicate 20 (Progress (example_trade 1))"

text \<open>Six indicators, of which a signal has the first three: whether the pattern matches depends on
  the order in which the names are walked.\<close>

theorem matching_depends_on_key_order:
  "\<exists>records g. (\<forall>order \<in> {id, rev}. \<forall>names. set (order names) = set names) \<and>
     matches_pattern g (new_pattern id ''p'' POOR_TIMING records) \<and> \<not> matches_pattern g (new_pattern rev ''p'' POOR_TIMING records)"
proof -
  let ?r = "\<lparr>mr_trade_id = ''t'', mr_classification = POOR_TIMING, mr_entry_conditions = [], mr_regime = ''unknown'', mr_strategy = ''ict'',
    mr_indicators = [(''a'', 1), (''b'', 1), (''c'', 1), (''d'', 1), (''e'', 1), (''f'', 1)], mr_confidence_at_entry = 80,
    mr_exit_reason = ''stop'', mr_pnl = -1, mr_created_at = 0\<rparr>"
  let ?g = "\<lparr>ps_regime = ''unknown'', ps_strategy = ''ict'', ps_indicators = [(''a'', 1), (''b'', 1), (''c'', 1)], ps_confidence = 80, ps_is_hft = False\<rparr>"
  have "matches_pattern ?g (new_pattern id ''p'' POOR_TIMING [?r]) \<and> \<not> matches_pattern ?g (new_pattern rev ''p'' POOR_TIMING [?r])"
    by code_simp
  moreover have "\<forall>order \<in> {id, rev}. \<forall>names. set (order names) = set names" by simp
  ultimately show ?thesis by blast
qed

definition losses_stored :: "nat \<Rightarrow> mistake_analyzer" where
  "losses_stored k = \<lparr>an_db = \<lparr>md_records = replicate k (record_mistake 0 (example_trade (-1)) POOR_TIMING), md_patterns = []\<rparr>, an_active = []\<rparr>"

lemma few_records: "(\<And>c. int (length (recent_records now c a)) < MISTAKE_PATTERN_THRESHOLD) \<Longrightarrow> snd (detect_patterns key_order ids now a) = a"
  by (simp add: detect_patterns_fold mistake_classes_def detect_class_def)

lemma loss_stored: "k < 4 \<Longrightarrow> learn_closed_trade id uuids 0 (example_trade (-1)) example_outcome (losses_stored k) = losses_stored (Suc k)"
proof -
  assume k: "k < 4"
  have c: "classify_mistake (example_trade (-1)) example_outcome = POOR_TIMING" by code_simp
  have n: "int (length (recent_records 0 d (losses_stored (Suc k)))) < MISTAKE_PATTERN_THRESHOLD" for d
  proof -
    have "length (recent_records 0 d (losses_stored (Suc k))) \<le> length (md_records (an_db (losses_stored (Suc k))))"
      unfolding recent_records_def get_records_by_classification_def by (rule length_filter_le)
    also have "\<dots> \<le> 4" using k by (simp add: losses_stored_def)
    finally show ?thesis by (simp add: MISTAKE_PATTERN_THRESHOLD_def)
  qed
  have "(losses_stored k)\<lparr>an_db := store_record (record_mistake 0 (example_trade (-1)) POOR_TIMING) (an_db (losses_stored k))\<rparr> = losses_stored (Suc k)"
    by (simp add: losses_stored_def store_record_def replicate_append_same)
  then show ?thesis using few_records[OF n] c by (simp add: learn_closed_trade_def example_trade_def)
qed

definition timing_pattern :: mistake_pattern where
  "timing_pattern = \<lparr>mp_id = [], mp_classification = POOR_TIMING, mp_loss_count = 5, mp_first_occurrence = 0, mp_last_occurrence = 0,
     mp_active = True, mp_reactivated = False, mp_confidence_penalty = 20, mp_size_reduction = MISTAKE_BASE_SIZE_REDUCTION,
     mp_resolution_progress = 0, mp_conditions = [(''a'', 1), (''b'', 1), (''c'', 1)], mp_regime = Some ''unknown'', mp_strategy = Some ''ict''\<rparr>"

definition pattern_found :: mistake_analyzer where
  "pattern_found = \<lparr>an_db = \<lparr>md_records = replicate 5 (record_mistake 0 (example_trade (-1)) POOR_TIMING), md_patterns = [timing_pattern]\<rparr>, an_active = [0]\<rparr>"

lemma fifth_loss: "learn_closed_trade id uuids 0 (example_trade (-1)) example_outcome (losses_stored 4) = pattern_found"
  by code_simp

lemma after_losses: "analyzer_calls id uuids five_losses = pattern_found"
proof -
  have "analyzer_calls id uuids five_losses =
      learn_closed_trade id uuids 0 (example_trade (-1)) example_outcome
        (learn_closed_trade id uuids 0 (example_trade (-1)) example_outcome
        (learn_closed_trade id uuids 0 (example_trade (-1)) example_outcome
        (learn_closed_trade id uuids 0 (example_trade (-1)) example_outcome
        (learn_closed_trade id uuids 0 (example_trade (-1)) example_outcome (losses_stored 0)))))"
    by (simp add: analyzer_calls_def five_losses_def analyzer_step_def numeral_eq_Suc losses_stored_def mistake_analyzer_init_def mistake_db_init_def)
  also have "\<dots> = pattern_found"
    using loss_stored[of 0] loss_stored[of 1] loss_stored[of 2] loss_stored[of 3] fifth_loss by (simp add: numeral_eq_Suc)
  finally show ?thesis .
qed

lemma five_recent: "length (recent_records 0 POOR_TIMING pattern_found) = 5"
  by code_simp

lemma timing_pattern_matches: "matches_pattern (signal_of_trade (example_trade 1)) timing_pattern"
  by code_simp


lemma recurring_mistakes_are_penalised_witness:
  "\<exists>i \<in> set (an_active (snd (detect_patterns id uuids 0 pattern_found))).
     mp_classification (patterns (snd (detect_patterns id uuids 0 pattern_found)) ! i) = POOR_TIMING"
  using recurring_mistakes_are_penalised[OF inj_uuids refl, of 0 POOR_TIMING id five_losses]
  by (auto simp: after_losses five_recent MISTAKE_PATTERN_THRESHOLD_def)

lemma other_regimes_are_never_penalised_witness:
  "get_confidence_penalty ((signal_of_trade (example_trade 1))\<lparr>ps_regime := ''bullish''\<rparr>) pattern_found = 0 \<and>
   get_confidence_penalty (signal_of_trade (example_trade 1)) pattern_found = 20"
proof -
  have "list_all (learns_under ''unknown'') five_losses"
    by (simp add: five_losses_def learns_under_def example_trade_def numeral_eq_Suc)
  from other_regimes_are_never_penalised[OF inj_uuids _ this, of "(signal_of_trade (example_trade 1))\<lparr>ps_regime := ''bullish''\<rparr>" id]
  have "get_confidence_penalty ((signal_of_trade (example_trade 1))\<lparr>ps_regime := ''bullish''\<rparr>) pattern_found = 0"
    by (simp add: after_losses)
  moreover have "get_confidence_penalty (signal_of_trade (example_trade 1)) pattern_found = 20" by code_simp
  ultimately show ?thesis by simp
qed

definition wins_and_losses :: "learned list" where
  "wins_and_losses = concat (replicate 19 [(0, example_trade 1, example_outcome), (0, example_trade (-1), example_outcome)])"

lemma wins_and_losses_ok:
  "wins wins_and_losses = 19"
  "\<forall>(now, t, o') \<in> set wins_and_losses. ct_pnl t < 0 \<or> is_profitable t \<and> matches_pattern (signal_of_trade t) timing_pattern"
  by (simp_all add: wins_and_losses_def wins_def numeral_eq_Suc is_profitable_def timing_pattern_matches)
    (simp_all add: example_trade_def)

lemma pattern_found_simps:
  "patterns pattern_found = [timing_pattern]" "mp_active timing_pattern" "mp_resolution_progress timing_pattern = 0"
  by (simp_all add: pattern_found_def timing_pattern_def)

lemma resolution_counts_wins_not_streaks_witness:
  "mp_resolution_progress (patterns (learn_all id uuids pattern_found wins_and_losses) ! 0) = 19 \<and>
   \<not> mp_active (patterns (learn_all id uuids pattern_found (wins_and_losses @ [(0, example_trade 1, example_outcome)])) ! 0)"
  using resolution_counts_wins_not_streaks[OF inj_uuids after_losses[symmetric], of 0 wins_and_losses "example_trade 1" 0 example_outcome]
    wins_and_losses_ok timing_pattern_matches
  by (simp add: pattern_found_simps is_profitable_def example_trade_def)

text \<open>Twenty wins resolve the pattern and leave the records.\<close>

definition won :: "int \<Rightarrow> mistake_analyzer" where
  "won k = \<lparr>an_db = \<lparr>md_records = replicate 5 (record_mistake 0 (example_trade (-1)) POOR_TIMING),
     md_patterns = [timing_pattern\<lparr>mp_resolution_progress := k\<rparr>]\<rparr>, an_active = [0]\<rparr>"

definition resolved :: mistake_analyzer where
  "resolved = \<lparr>an_db = \<lparr>md_records = replicate 5 (record_mistake 0 (example_trade (-1)) POOR_TIMING),
     md_patterns = [timing_pattern\<lparr>mp_resolution_progress := 20, mp_active := False\<rparr>]\<rparr>, an_active = []\<rparr>"

lemma win_step: "k < 19 \<Longrightarrow> update_resolution_progress (example_trade 1) (won k) = won (k + 1)"
proof -
  assume k: "k < 19"
  have "matches_pattern (signal_of_trade (example_trade 1)) (timing_pattern\<lparr>mp_resolution_progress := k\<rparr>)"
    using timing_pattern_matches by (simp add: matches_pattern_def split: if_splits)
  moreover have "is_profitable (example_trade 1)" by (simp add: is_profitable_def example_trade_def)
  ultimately show ?thesis using k pattern_found_simps(2)
    by (simp add: update_resolution_progress_def progress_pattern_def won_def Let_def MISTAKE_RESOLUTION_STREAK_def
        update_pattern_def first_where_def refs_where_def set_pattern_def)
qed

lemma last_win: "update_resolution_progress (example_trade 1) (won 19) = resolved"
  by code_simp

lemma after_wins: "analyzer_calls id uuids (five_losses @ twenty_wins) = resolved"
proof -
  have w: "n \<le> 19 \<Longrightarrow> foldl (analyzer_step id uuids) (won 0) (replicate n (Progress (example_trade 1))) = won (int n)" for n
  proof (induction n)
    case (Suc n)
    have "replicate (Suc n) (Progress (example_trade 1)) = replicate n (Progress (example_trade 1)) @ [Progress (example_trade 1)]"
      by (simp add: replicate_append_same)
    then show ?case using Suc win_step[of "int n"] by (simp add: analyzer_step_def algebra_simps del: replicate_Suc)
  qed simp
  have t: "twenty_wins = replicate 19 (Progress (example_trade 1)) @ [Progress (example_trade 1)]"
    by (simp add: twenty_wins_def numeral_eq_Suc)
  have p: "pattern_found = won 0" by (simp add: pattern_found_def won_def timing_pattern_def)
  have "analyzer_calls id uuids (five_losses @ twenty_wins) = foldl (analyzer_step id uuids) (analyzer_calls id uuids five_losses) twenty_wins"
    by (simp add: analyzer_calls_def)
  also have "\<dots> = analyzer_step id uuids (foldl (analyzer_step id uuids) (won 0) (replicate 19 (Progress (example_trade 1)))) (Progress (example_trade 1))"
    by (simp add: after_losses p t)
  also have "\<dots> = resolved" using w[of 19] last_win by (simp add: analyzer_step_def)
  finally show ?thesis .
qed

lemma resolved_pattern_returns_without_new_losses_witness:
  "\<not> mp_active (patterns resolved ! 0) \<and>
   mp_confidence_penalty (patterns (snd (detect_patterns id uuids 0 resolved)) ! 0) = 30 \<and>
   md_records (an_db (snd (detect_patterns id uuids 0 resolved))) = md_records (an_db resolved)"
proof -
  have r: "0 < length (patterns resolved)" "\<not> mp_active (patterns resolved ! 0)" by (simp_all add: resolved_def)
  have "length (recent_records 0 (mp_classification (patterns resolved ! 0)) resolved) = 5" by code_simp
  then have n: "MISTAKE_PATTERN_THRESHOLD \<le> int (length (recent_records 0 (mp_classification (patterns resolved ! 0)) resolved))"
    by (simp add: MISTAKE_PATTERN_THRESHOLD_def)
  from resolved_pattern_returns_without_new_losses[OF inj_uuids after_wins[symmetric] r n] r(2)
  show ?thesis by (simp add: MISTAKE_REACTIVATED_CONFIDENCE_PENALTY_def)
qed

end
