(* ===== verification/Performance_Monitor.thy ===== *)
theory Performance_Monitor
  imports Constants State_Effects
begin

text \<open>
  Rolling performance of the strategies and their automatic disabling,
  \<open>src/strategy/performance_monitor.py\<close>.  The notification, closing, liquidation and backtest
  callbacks are actions on an outside world, the last part of the monitor's state, and optional as
  in the code; \<open>pe_close name t\<close> is the close callback under \<open>asyncio.wait_for\<close> with timeout \<open>t\<close>.  A
  callback does not call the monitor.  The clock is read from the world.
\<close>

section \<open>Square roots\<close>

text \<open>The integer square root, one bit at a time.\<close>

primrec isqrt_bits :: "nat \<Rightarrow> int \<Rightarrow> int \<Rightarrow> int" where
  "isqrt_bits 0 n r = r"
| "isqrt_bits (Suc b) n r =
     (if (r + 2 ^ b) * (r + 2 ^ b) \<le> n then isqrt_bits b n (r + 2 ^ b) else isqrt_bits b n r)"

text \<open>\<open>x ** 0.5\<close>: the root to 61 bits, with a last bit for what is cut off, then rounded.\<close>

definition f_sqrt :: "pyfloat \<Rightarrow> pyfloat" where
  "f_sqrt x =
     (if x \<le> 0 then 0
      else let k = sig_exp 2 x div 2 - 60;
               y = x / pow_rat 2 (2 * k);
               s = isqrt_bits 62 \<lfloor>y\<rfloor> 0
           in flt ((if of_int (s * s) = y then of_int s else of_int s + 1 / 2) * pow_rat 2 k))"

lemma isqrt_bits_spec:
  "0 \<le> r \<Longrightarrow> r * r \<le> n \<Longrightarrow> n < (r + 2 ^ b) * (r + 2 ^ b) \<Longrightarrow>
     0 \<le> isqrt_bits b n r \<and> isqrt_bits b n r * isqrt_bits b n r \<le> n \<and> n < (isqrt_bits b n r + 1) * (isqrt_bits b n r + 1)"
proof (induction b arbitrary: r)
  case (Suc b)
  have "r + 2 ^ Suc b = (r + 2 ^ b) + 2 ^ b" by simp
  with Suc.prems have "n < ((r + 2 ^ b) + 2 ^ b) * ((r + 2 ^ b) + 2 ^ b)" by (simp only:)
  then show ?case using Suc.prems(1,2) Suc.IH[of r] Suc.IH[of "r + 2 ^ b"] by (simp del: power_Suc)
qed simp

lemma f_sqrt_samples: "f_sqrt 4 = 2" "f_sqrt (flt (1/4)) = flt (1/2)" "f_sqrt 2 = flt (14142135623730951 / 10 ^ 16)"
  by code_simp+

section \<open>State\<close>

datatype strategy_status = STRATEGY_ACTIVE | DISABLED | SUSPENDED

text \<open>A profit factor without losses is \<open>float("inf")\<close>.\<close>

datatype profit_ratio = Ratio pyfloat | Infinite_Ratio

record performance_metrics =
  pm_sharpe_ratio :: pyfloat
  pm_win_rate :: pyfloat
  pm_profit_factor :: profit_ratio
  pm_trade_count :: nat
  pm_calculated_at :: micros

record strategy_state =
  sy_strategy_name :: string
  sy_status :: strategy_status
  sy_metrics_history :: "performance_metrics list"
  sy_disabled_at :: "micros option"
  sy_re_enabled_at :: "micros option"
  sy_consecutive_low_sharpe :: int
  sy_last_evaluation_at :: "micros option"

record trade_record =
  tr_strategy_name :: string
  tr_pnl :: pyfloat
  tr_closed_at :: micros
  tr_is_winner :: bool

datatype strategy_notice =
    Strategy_Disabled string pyfloat pyfloat profit_ratio micros
  | Forced_Liquidation_Escalation string micros
  | Strategy_Re_Enabled string pyfloat micros
  | Strategy_Suspended string int micros

record 'w monitor_env =
  pe_utcnow :: "'w \<Rightarrow> micros"
  pe_notify :: "(strategy_notice \<Rightarrow> ('w, unit) action) option"
  pe_close :: "(string \<Rightarrow> int \<Rightarrow> ('w, bool) action) option"
  pe_force :: "(string \<Rightarrow> ('w, unit) action) option"
  pe_backtest :: "(string \<Rightarrow> ('w, pyfloat) action) option"

record 'w performance_monitor =
  mo_disable_sharpe_threshold :: pyfloat
  mo_enable_sharpe_threshold :: pyfloat
  mo_suspension_days :: int
  mo_evaluation_interval_hours :: int
  mo_close_positions_timeout_seconds :: int
  mo_strategies :: "(string, strategy_state) dict"
  mo_trade_history :: "trade_record list"
  mo_world :: 'w

type_synonym ('w, 'a) monitoring = "('w performance_monitor, 'a) action"

definition performance_monitor_init :: "'w \<Rightarrow> 'w performance_monitor" where
  "performance_monitor_init w =
     \<lparr>mo_disable_sharpe_threshold = STRATEGY_DISABLE_SHARPE_THRESHOLD,
      mo_enable_sharpe_threshold = STRATEGY_ENABLE_SHARPE_THRESHOLD,
      mo_suspension_days = STRATEGY_SUSPENSION_DAYS, mo_evaluation_interval_hours = 24,
      mo_close_positions_timeout_seconds = 60, mo_strategies = [], mo_trade_history = [], mo_world = w\<rparr>"

definition strategy_state_init :: "string \<Rightarrow> strategy_state" where
  "strategy_state_init name =
     \<lparr>sy_strategy_name = name, sy_status = STRATEGY_ACTIVE, sy_metrics_history = [], sy_disabled_at = None,
      sy_re_enabled_at = None, sy_consecutive_low_sharpe = 0, sy_last_evaluation_at = None\<rparr>"

definition outside_world :: "('w, 'a) action \<Rightarrow> ('w, 'a) monitoring" where
  "outside_world = zoomA mo_world (\<lambda>w p. p\<lparr>mo_world := w\<rparr>)"

definition utcnow :: "'w monitor_env \<Rightarrow> ('w, micros) monitoring" where
  "utcnow env = readA (\<lambda>p. pe_utcnow env (mo_world p))"

text \<open>The states are objects: a change through one reference is seen through the dictionary.\<close>

definition set_strategy :: "string \<Rightarrow> (strategy_state \<Rightarrow> strategy_state) \<Rightarrow> ('w, unit) monitoring" where
  "set_strategy name f = updA (\<lambda>p. p\<lparr>mo_strategies := AList.map_entry name f (mo_strategies p)\<rparr>)"

definition strategy_named :: "string \<Rightarrow> ('w, strategy_state option) monitoring" where
  "strategy_named name = readA (\<lambda>p. map_of (mo_strategies p) name)"

definition notify :: "'w monitor_env \<Rightarrow> strategy_notice \<Rightarrow> ('w, unit) monitoring" where
  "notify env x = (case pe_notify env of None \<Rightarrow> returnA () | Some f \<Rightarrow> outside_world (f x))"

section \<open>Registration and trades\<close>

definition register_strategy :: "string \<Rightarrow> 'w performance_monitor \<Rightarrow> 'w performance_monitor" where
  "register_strategy name p =
     (if map_of (mo_strategies p) name = None
      then p\<lparr>mo_strategies := mo_strategies p @ [(name, strategy_state_init name)]\<rparr> else p)"

definition record_trade :: "trade_record \<Rightarrow> 'w performance_monitor \<Rightarrow> 'w performance_monitor" where
  "record_trade t p = p\<lparr>mo_trade_history := mo_trade_history p @ [t]\<rparr>"

definition get_strategy_status :: "string \<Rightarrow> 'w performance_monitor \<Rightarrow> strategy_status option" where
  "get_strategy_status name p = map_option sy_status (map_of (mo_strategies p) name)"

definition is_strategy_active :: "string \<Rightarrow> 'w performance_monitor \<Rightarrow> bool" where
  "is_strategy_active name p =
     (case map_of (mo_strategies p) name of None \<Rightarrow> False | Some s \<Rightarrow> sy_status s = STRATEGY_ACTIVE)"

text \<open>\<open>history[-limit:]\<close>; for \<open>limit = 0\<close> the slice is the whole list.\<close>

definition get_metrics_history :: "string \<Rightarrow> nat \<Rightarrow> 'w performance_monitor \<Rightarrow> performance_metrics list" where
  "get_metrics_history name limit p =
     (case map_of (mo_strategies p) name of
        None \<Rightarrow> []
      | Some s \<Rightarrow> if limit = 0 then sy_metrics_history s else take_last limit (sy_metrics_history s))"

section \<open>Metrics\<close>

definition trades_in_window :: "string \<Rightarrow> micros \<Rightarrow> trade_record list \<Rightarrow> trade_record list" where
  "trades_in_window name as_of ts =
     filter (\<lambda>t. tr_strategy_name t = name \<and> as_of - hours (24 * 30) \<le> tr_closed_at t \<and> tr_closed_at t \<le> as_of) ts"

definition sharpe_of :: "pyfloat list \<Rightarrow> pyfloat" where
  "sharpe_of returns =
     (let mean_return = f_quot (f_sum returns) (of_nat (length returns))
      in if 1 < length returns then
           let variance = f_quot (f_sum (map (\<lambda>r. f_mul (f_sub r mean_return) (f_sub r mean_return)) returns)) (of_nat (length returns - 1));
               std_return = f_sqrt variance
           in if 0 < std_return then f_quot mean_return std_return else 0
         else 0)"

definition profit_factor_of :: "pyfloat list \<Rightarrow> profit_ratio" where
  "profit_factor_of pnls =
     (let gross_profit = f_sum (filter (\<lambda>x. 0 < x) pnls); gross_loss = \<bar>f_sum (filter (\<lambda>x. x < 0) pnls)\<bar>
      in if 0 < gross_loss then Ratio (f_quot gross_profit gross_loss) else Infinite_Ratio)"

definition metrics_of :: "micros \<Rightarrow> trade_record list \<Rightarrow> performance_metrics option" where
  "metrics_of as_of trades =
     (if trades = [] then None
      else Some \<lparr>pm_sharpe_ratio = sharpe_of (map tr_pnl trades),
                 pm_win_rate = f_quot (of_nat (length (filter tr_is_winner trades))) (of_nat (length trades)),
                 pm_profit_factor = profit_factor_of (map tr_pnl trades),
                 pm_trade_count = length trades, pm_calculated_at = as_of\<rparr>)"

definition calculate_metrics :: "string \<Rightarrow> micros \<Rightarrow> 'w performance_monitor \<Rightarrow> performance_metrics option" where
  "calculate_metrics name as_of p = metrics_of as_of (trades_in_window name as_of (mo_trade_history p))"

section \<open>Disabling\<close>

definition escalate_forced_liquidation :: "'w monitor_env \<Rightarrow> string \<Rightarrow> ('w, unit) monitoring" where
  "escalate_forced_liquidation env name =
     bindA (case pe_force env of None \<Rightarrow> returnA () | Some f \<Rightarrow> outside_world (f name)) (\<lambda>_.
     bindA (utcnow env) (\<lambda>now. notify env (Forced_Liquidation_Escalation name now)))"

definition close_strategy_positions :: "'w monitor_env \<Rightarrow> string \<Rightarrow> ('w, unit) monitoring" where
  "close_strategy_positions env name =
     (case pe_close env of
        None \<Rightarrow> returnA ()
      | Some f \<Rightarrow>
          catchA
            (bindA (readA mo_close_positions_timeout_seconds) (\<lambda>t.
             bindA (outside_world (f name t)) (\<lambda>closed.
               if closed then returnA () else escalate_forced_liquidation env name)))
            (\<lambda>e. if e = TimeoutError then escalate_forced_liquidation env name else raiseA e))"

definition disable_strategy :: "'w monitor_env \<Rightarrow> string \<Rightarrow> performance_metrics \<Rightarrow> ('w, unit) monitoring" where
  "disable_strategy env name m =
     bindA (utcnow env) (\<lambda>now.
     bindA (set_strategy name (\<lambda>s. s\<lparr>sy_status := DISABLED, sy_disabled_at := Some now, sy_consecutive_low_sharpe := 0\<rparr>)) (\<lambda>_.
     bindA (notify env (Strategy_Disabled name (pm_sharpe_ratio m) (pm_win_rate m) (pm_profit_factor m) now)) (\<lambda>_.
       close_strategy_positions env name)))"

text \<open>What an evaluation with metrics does before it may disable the strategy.\<close>

definition note_metrics :: "pyfloat \<Rightarrow> performance_metrics \<Rightarrow> strategy_state \<Rightarrow> strategy_state" where
  "note_metrics threshold m s =
     (let s1 = s\<lparr>sy_metrics_history := sy_metrics_history s @ [m], sy_last_evaluation_at := Some (pm_calculated_at m)\<rparr>
      in if sy_status s = STRATEGY_ACTIVE
         then s1\<lparr>sy_consecutive_low_sharpe := (if pm_sharpe_ratio m < threshold then sy_consecutive_low_sharpe s + 1 else 0)\<rparr>
         else s1)"

text \<open>Storing the metrics, and disabling after two low evaluations.\<close>

definition store_metrics :: "'w monitor_env \<Rightarrow> string \<Rightarrow> performance_metrics \<Rightarrow> ('w, unit) monitoring" where
  "store_metrics env name m =
     bindA (readA mo_disable_sharpe_threshold) (\<lambda>threshold.
     bindA (set_strategy name (note_metrics threshold m)) (\<lambda>_.
     bindA (strategy_named name) (\<lambda>st.
     case st of
       None \<Rightarrow> returnA ()
     | Some s \<Rightarrow>
         if sy_status s = STRATEGY_ACTIVE \<and> 2 \<le> sy_consecutive_low_sharpe s
         then disable_strategy env name m else returnA ())))"

definition evaluate_strategy ::
  "'w monitor_env \<Rightarrow> string \<Rightarrow> micros option \<Rightarrow> ('w, performance_metrics option) monitoring" where
  "evaluate_strategy env name as_of =
     bindA (strategy_named name) (\<lambda>st.
     case st of
       None \<Rightarrow> returnA None
     | Some s \<Rightarrow>
         if sy_status s = SUSPENDED then returnA None
         else
           bindA (utcnow env) (\<lambda>now.
           bindA (readA (calculate_metrics name (or_default as_of now))) (\<lambda>metrics.
           case metrics of
             None \<Rightarrow>
               bindA (set_strategy name (\<lambda>s. s\<lparr>sy_last_evaluation_at := Some (or_default as_of now)\<rparr>)) (\<lambda>_. returnA None)
           | Some m \<Rightarrow>
               bindA (store_metrics env name m) (\<lambda>_. returnA (Some m)))))"

definition evaluate_all_strategies ::
  "'w monitor_env \<Rightarrow> micros option \<Rightarrow> ('w, (string \<times> performance_metrics option) list) monitoring" where
  "evaluate_all_strategies env as_of =
     bindA (readA (\<lambda>p. map fst (mo_strategies p))) (\<lambda>names.
       mapA (\<lambda>name. bindA (evaluate_strategy env name as_of) (\<lambda>m. returnA (name, m))) names)"

section \<open>Re-enabling\<close>

definition run_oos_backtest :: "'w monitor_env \<Rightarrow> string \<Rightarrow> ('w, pyfloat option) monitoring" where
  "run_oos_backtest env name =
     (case pe_backtest env of
        None \<Rightarrow> returnA None
      | Some f \<Rightarrow> bindA (outside_world (f name)) (\<lambda>x. returnA (Some x)))"

text \<open>One round of the loop: the names re-enabled.\<close>

definition re_evaluate :: "'w monitor_env \<Rightarrow> micros \<Rightarrow> string \<Rightarrow> ('w, string list) monitoring" where
  "re_evaluate env now name =
     bindA (strategy_named name) (\<lambda>st.
     case st of
       None \<Rightarrow> returnA []
     | Some s \<Rightarrow>
         if sy_status s \<noteq> DISABLED then returnA []
         else
           bindA (run_oos_backtest env name) (\<lambda>oos.
           bindA (readA mo_enable_sharpe_threshold) (\<lambda>threshold.
           case oos of
             None \<Rightarrow> returnA []
           | Some oos_sharpe \<Rightarrow>
               if threshold < oos_sharpe then
                 bindA (set_strategy name (\<lambda>s. s\<lparr>sy_status := STRATEGY_ACTIVE, sy_re_enabled_at := Some now, sy_consecutive_low_sharpe := 0\<rparr>)) (\<lambda>_.
                 bindA (notify env (Strategy_Re_Enabled name oos_sharpe now)) (\<lambda>_. returnA [name]))
               else returnA [])))"

definition weekly_re_evaluate :: "'w monitor_env \<Rightarrow> micros option \<Rightarrow> ('w, string list) monitoring" where
  "weekly_re_evaluate env current_time =
     bindA (utcnow env) (\<lambda>now.
     bindA (readA (\<lambda>p. map fst (mo_strategies p))) (\<lambda>names.
     bindA (mapA (re_evaluate env (or_default current_time now)) names) (\<lambda>xss. returnA (concat xss))))"

section \<open>Suspension\<close>

definition check_suspension :: "'w monitor_env \<Rightarrow> string \<Rightarrow> micros option \<Rightarrow> ('w, bool) monitoring" where
  "check_suspension env name current_time =
     bindA (utcnow env) (\<lambda>now0.
     bindA (strategy_named name) (\<lambda>st.
     bindA (readA mo_suspension_days) (\<lambda>suspension_days.
     let now = or_default current_time now0 in
     case (case st of None \<Rightarrow> None | Some s \<Rightarrow> sy_re_enabled_at s) of
       None \<Rightarrow> returnA False
     | Some t \<Rightarrow>
         let days_since_re_enable = (now - t) div hours 24
         in if days_since_re_enable \<le> suspension_days
            then bindA (set_strategy name (\<lambda>s. s\<lparr>sy_status := SUSPENDED\<rparr>)) (\<lambda>_.
                 bindA (notify env (Strategy_Suspended name days_since_re_enable now)) (\<lambda>_. returnA True))
            else returnA False)))"

definition disable_strategy_with_suspension_check ::
  "'w monitor_env \<Rightarrow> string \<Rightarrow> performance_metrics \<Rightarrow> ('w, unit) monitoring" where
  "disable_strategy_with_suspension_check env name m =
     bindA (strategy_named name) (\<lambda>st.
     case st of
       None \<Rightarrow> returnA ()
     | Some _ \<Rightarrow>
         bindA (disable_strategy env name m) (\<lambda>_.
         bindA (strategy_named name) (\<lambda>st'.
         case st' of
           None \<Rightarrow> returnA ()
         | Some s \<Rightarrow>
             if sy_re_enabled_at s = None then returnA ()
             else bindA (check_suspension env name (sy_disabled_at s)) (\<lambda>_. returnA ()))))"


section \<open>Sequences of calls\<close>

datatype monitor_call =
    Register string
  | Record trade_record
  | Evaluate string "micros option"
  | Evaluate_All "micros option"
  | Weekly "micros option"
  | Disable_Checked string performance_metrics

definition monitor_step :: "'w monitor_env \<Rightarrow> monitor_call \<Rightarrow> ('w, unit) monitoring" where
  "monitor_step env c =
     (case c of
        Register name \<Rightarrow> updA (register_strategy name)
      | Record t \<Rightarrow> updA (record_trade t)
      | Evaluate name as_of \<Rightarrow> bindA (evaluate_strategy env name as_of) (\<lambda>_. returnA ())
      | Evaluate_All as_of \<Rightarrow> bindA (evaluate_all_strategies env as_of) (\<lambda>_. returnA ())
      | Weekly t \<Rightarrow> bindA (weekly_re_evaluate env t) (\<lambda>_. returnA ())
      | Disable_Checked name m \<Rightarrow> disable_strategy_with_suspension_check env name m)"

text \<open>The caller goes on after an exception.\<close>

definition monitor_calls :: "'w monitor_env \<Rightarrow> monitor_call list \<Rightarrow> 'w performance_monitor \<Rightarrow> 'w performance_monitor" where
  "monitor_calls env cs p = fold (\<lambda>c p. snd (monitor_step env c p)) cs p"

section \<open>Invariants of the strategies\<close>

text \<open>A property of the strategies that their operations keep holds of every strategy the monitor
  has, whatever the callbacks do.\<close>

definition each_strategy :: "pyfloat \<Rightarrow> (strategy_state \<Rightarrow> bool) \<Rightarrow> 'w performance_monitor \<Rightarrow> bool" where
  "each_strategy th P p \<longleftrightarrow> mo_disable_sharpe_threshold p = th \<and> list_all (\<lambda>(name, s). P s) (mo_strategies p)"

lemma keeps_strategies_outside [keepsA_intro]:
  "keepsA (each_strategy th P) (outside_world m)" "keepsA (each_strategy th P) (notify env x)"
  by (auto simp: notify_def outside_world_def each_strategy_def intro!: keepsA_zoom keepsA_intro split: option.split)

lemma keeps_readings [keepsA_intro]: "keepsA I (utcnow env)" "keepsA I (strategy_named name)"
  by (simp_all add: utcnow_def strategy_named_def keepsA_intro)

lemma keeps_set_strategy:
  assumes "\<And>s. P s \<Longrightarrow> P (f s)"
  shows "keepsA (each_strategy th P) (set_strategy name f)"
proof -
  have "list_all (\<lambda>(n, s). P s) xs \<Longrightarrow> list_all (\<lambda>(n, s). P s) (AList.map_entry name f xs)" for xs
    by (induction xs) (auto simp: assms)
  then show ?thesis unfolding set_strategy_def by (intro keepsA_upd) (auto simp: each_strategy_def)
qed

locale strategy_law =
  fixes P :: "strategy_state \<Rightarrow> bool" and th :: pyfloat
  assumes new: "P (strategy_state_init name)"
    and noted: "P s \<Longrightarrow> P (note_metrics th m s)"
    and stamped: "P s \<Longrightarrow> P (s\<lparr>sy_last_evaluation_at := t\<rparr>)"
    and disabled: "P s \<Longrightarrow> P (s\<lparr>sy_status := DISABLED, sy_disabled_at := t, sy_consecutive_low_sharpe := 0\<rparr>)"
    and enabled: "P s \<Longrightarrow> P (s\<lparr>sy_status := STRATEGY_ACTIVE, sy_re_enabled_at := t, sy_consecutive_low_sharpe := 0\<rparr>)"
begin

lemma keeps_close: "keepsA (each_strategy th P) (close_strategy_positions env name)"
  unfolding close_strategy_positions_def escalate_forced_liquidation_def by (intro keepsA_intro)

lemma keeps_disable: "keepsA (each_strategy th P) (disable_strategy env name m)"
  unfolding disable_strategy_def by (intro keepsA_intro keeps_close keeps_set_strategy disabled)

lemma keeps_store: "keepsA (each_strategy th P) (store_metrics env name m)"
  unfolding store_metrics_def
  by (rule keepsA_bind_read[where x = th])
    (auto simp: each_strategy_def intro!: keepsA_intro keeps_disable keeps_set_strategy noted)

lemma keeps_evaluate: "keepsA (each_strategy th P) (evaluate_strategy env name as_of)"
  unfolding evaluate_strategy_def by (intro keepsA_intro keeps_store keeps_set_strategy stamped)

lemma keeps_weekly: "keepsA (each_strategy th P) (weekly_re_evaluate env t)"
  unfolding weekly_re_evaluate_def re_evaluate_def run_oos_backtest_def
  by (intro keepsA_intro keeps_set_strategy enabled)

lemma keeps_automatic:
  "(\<And>name m. c \<noteq> Disable_Checked name m) \<Longrightarrow> keepsA (each_strategy th P) (monitor_step env c)"
  by (cases c)
    (auto simp: monitor_step_def evaluate_all_strategies_def register_strategy_def record_trade_def each_strategy_def new
      intro!: keepsA_intro keepsA_upd keeps_evaluate keeps_weekly)

lemma after_automatic_calls:
  "\<forall>c \<in> set cs. \<forall>name m. c \<noteq> Disable_Checked name m \<Longrightarrow> each_strategy th P p \<Longrightarrow> each_strategy th P (monitor_calls env cs p)"
  unfolding monitor_calls_def
proof (induction cs arbitrary: p)
  case (Cons c cs)
  have "each_strategy th P (snd (monitor_step env c p))"
    by (rule keepsA_D[OF keeps_automatic]) (use Cons.prems in auto)
  then show ?case using Cons by simp
qed simp

end


section \<open>The automatic life cycle\<close>

definition not_suspended :: "strategy_state \<Rightarrow> bool" where
  "not_suspended s \<longleftrightarrow> sy_status s \<noteq> SUSPENDED"

interpretation unsuspended: strategy_law not_suspended th for th
  by unfold_locales (auto simp: not_suspended_def strategy_state_init_def note_metrics_def Let_def)



lemma take_last_0 [simp]: "take_last 0 xs = []"
  by (simp add: take_last_def)


lemma init_each_strategy: "each_strategy STRATEGY_DISABLE_SHARPE_THRESHOLD P (performance_monitor_init w)"
  by (simp add: each_strategy_def performance_monitor_init_def)

lemma strategies_of_each: "each_strategy th P p \<Longrightarrow> map_of (mo_strategies p) name = Some s \<Longrightarrow> P s"
  by (auto simp: each_strategy_def list_all_iff dest: map_of_SomeD)





section \<open>Properties\<close>


text \<open>
  Claim: whatever registrations, trades, evaluations and weekly re-evaluations happen in
  whatever order, no strategy is ever suspended, although one that was re-enabled may be disabled
  again at once: evaluations disable without the suspension check.
\<close>

theorem automatic_calls_never_suspend:
  assumes "\<forall>c \<in> set cs. \<forall>name m. c \<noteq> Disable_Checked name m"
  shows "get_strategy_status name (monitor_calls env cs (performance_monitor_init w)) \<noteq> Some SUSPENDED"
proof -
  have "each_strategy STRATEGY_DISABLE_SHARPE_THRESHOLD not_suspended (monitor_calls env cs (performance_monitor_init w))"
    by (intro unsuspended.after_automatic_calls assms init_each_strategy)
  then show ?thesis by (auto simp: get_strategy_status_def not_suspended_def dest: strategies_of_each)
qed

section \<open>Concrete inputs\<close>

text \<open>Losing trades, two low evaluations a day apart, re-enabled a week later, two low
  evaluations again within two weeks of it.\<close>

definition monitor_example :: "int monitor_env" where
  "monitor_example = \<lparr>pe_utcnow = (\<lambda>w. w), pe_notify = None, pe_close = None, pe_force = None,
     pe_backtest = Some (\<lambda>_ w. (Inr 2, w))\<rparr>"

definition losing_trades :: "monitor_call list" where
  "losing_trades = [Register ''ict'', Record \<lparr>tr_strategy_name = ''ict'', tr_pnl = -10, tr_closed_at = 0, tr_is_winner = False\<rparr>]"

definition reenabled_calls :: "monitor_call list" where
  "reenabled_calls = losing_trades @ [Evaluate ''ict'' (Some (hours 1)), Evaluate ''ict'' (Some (hours 25)), Weekly (Some (hours 100))]"

definition low_metrics :: "micros \<Rightarrow> performance_metrics" where
  "low_metrics t = \<lparr>pm_sharpe_ratio = 0, pm_win_rate = 0, pm_profit_factor = Ratio 0, pm_trade_count = 1, pm_calculated_at = t\<rparr>"

definition reenabled_monitor :: "int performance_monitor" where
  "reenabled_monitor = (performance_monitor_init 0)
     \<lparr>mo_strategies := [(''ict'', (strategy_state_init ''ict'')
        \<lparr>sy_metrics_history := [low_metrics (hours 1), low_metrics (hours 25)], sy_disabled_at := Some 0,
         sy_re_enabled_at := Some (hours 100), sy_last_evaluation_at := Some (hours 25)\<rparr>)],
      mo_trade_history := [\<lparr>tr_strategy_name = ''ict'', tr_pnl = -10, tr_closed_at = 0, tr_is_winner = False\<rparr>]\<rparr>"

lemma sharpe_single [simp]: "sharpe_of [x] = 0"
  by (simp add: sharpe_of_def Let_def)

lemma monitor_calls_append: "monitor_calls env (cs @ ds) p = monitor_calls env ds (monitor_calls env cs p)"
  by (simp add: monitor_calls_def)

lemma automatic_calls_never_suspend_witness:
  "let cs = reenabled_calls @ [Evaluate ''ict'' (Some (hours 125)), Evaluate ''ict'' (Some (hours 149))];
       p = monitor_calls monitor_example cs (performance_monitor_init 0)
   in get_strategy_status ''ict'' p = Some DISABLED \<and> get_strategy_status ''ict'' p \<noteq> Some SUSPENDED"
proof -
  define cs where "cs = reenabled_calls @ [Evaluate ''ict'' (Some (hours 125)), Evaluate ''ict'' (Some (hours 149))]"
  have a: "\<forall>c \<in> set cs. \<forall>name m. c \<noteq> Disable_Checked name m" by (simp add: cs_def reenabled_calls_def losing_trades_def)
  have "monitor_calls monitor_example reenabled_calls (performance_monitor_init 0) = reenabled_monitor"
    by code_simp
  moreover have "get_strategy_status ''ict'' (monitor_calls monitor_example [Evaluate ''ict'' (Some (hours 125)), Evaluate ''ict'' (Some (hours 149))] reenabled_monitor) = Some DISABLED"
    by code_simp
  ultimately have "get_strategy_status ''ict'' (monitor_calls monitor_example cs (performance_monitor_init 0)) = Some DISABLED"
    by (simp only: cs_def monitor_calls_append)
  from this automatic_calls_never_suspend[OF a, of "''ict''" monitor_example 0] show ?thesis
    unfolding cs_def Let_def by (rule conjI)
qed


end
