(* ===== verification/Sliding_Window.thy ===== *)
theory Sliding_Window
  imports Constants
begin

text \<open>
  Counting events in a sliding time window: \<open>_SlidingWindowCounter\<close> of
  \<open>src/risk/hft_risk.py\<close>, which keeps only the timestamps that may still count.  Its contract is
  the locale \<open>sliding_counter\<close>: the counter behaves as if it kept the whole history of recorded
  times.  The lemma about a rate gate (check the count, record when below the maximum) is proved
  from the contract, so it holds for every counter that keeps it.
\<close>

section \<open>The counter\<close>

record window_counter =
  window_seconds :: pyfloat
  timestamps :: "secs list"

definition counter_init :: "pyfloat \<Rightarrow> window_counter" where
  "counter_init window = \<lparr>window_seconds = window, timestamps = []\<rparr>"

text \<open>\<open>_prune\<close> with the reading of the monotonic clock it makes.\<close>

definition prune :: "secs \<Rightarrow> window_counter \<Rightarrow> window_counter" where
  "prune now c = c\<lparr>timestamps := filter (\<lambda>t. f_sub now (window_seconds c) < t) (timestamps c)\<rparr>"

text \<open>\<open>record\<close> reads the clock twice: for the timestamp, then inside \<open>_prune\<close>.\<close>

definition record_event :: "secs \<Rightarrow> secs \<Rightarrow> window_counter \<Rightarrow> window_counter" where
  "record_event now1 now2 c = prune now2 (c\<lparr>timestamps := timestamps c @ [now1]\<rparr>)"

definition count_events :: "secs \<Rightarrow> window_counter \<Rightarrow> nat \<times> window_counter" where
  "count_events now c = (let c' = prune now c in (length (timestamps c'), c'))"

section \<open>The contract\<close>

definition in_window :: "pyfloat \<Rightarrow> secs \<Rightarrow> secs list \<Rightarrow> nat" where
  "in_window window now h = length (filter (\<lambda>t. f_sub now window < t) h)"

locale sliding_counter =
  fixes note_event :: "secs \<Rightarrow> secs \<Rightarrow> 'w \<Rightarrow> 'w"
    and tally :: "secs \<Rightarrow> 'w \<Rightarrow> nat \<times> 'w"
    and window :: pyfloat
    and models :: "'w \<Rightarrow> secs list \<Rightarrow> secs \<Rightarrow> bool"
  assumes models_note: "models w h t \<Longrightarrow> t \<le> t1 \<Longrightarrow> t1 \<le> t2 \<Longrightarrow> models (note_event t1 t2 w) (h @ [t1]) t2"
    and models_tally: "models w h t \<Longrightarrow> t \<le> t' \<Longrightarrow> models (snd (tally t' w)) h t'"
    and tally_exact: "models w h t \<Longrightarrow> t \<le> t' \<Longrightarrow> fst (tally t' w) = in_window window t' h"
begin

text \<open>A request at \<open>(t, t1, t2)\<close>: count at \<open>t\<close>, and record (clock readings \<open>t1\<close>, \<open>t2\<close>) when below the
  maximum.  The result is the list of the times recorded.\<close>

fun gate_run :: "nat \<Rightarrow> (secs \<times> secs \<times> secs) list \<Rightarrow> 'w \<Rightarrow> secs list" where
  "gate_run N [] w = []"
| "gate_run N ((t, t1, t2) # rs) w =
     (case tally t w of (n, w1) \<Rightarrow>
        if n < N then t1 # gate_run N rs (note_event t1 t2 w1) else gate_run N rs w1)"

end

fun clock_ok :: "secs \<Rightarrow> (secs \<times> secs \<times> secs) list \<Rightarrow> bool" where
  "clock_ok now [] = True"
| "clock_ok now ((t, t1, t2) # rs) = (now \<le> t \<and> t \<le> t1 \<and> t1 \<le> t2 \<and> clock_ok t2 rs)"

text \<open>No instant sees more than \<open>N\<close> of the recorded times in its window.\<close>

definition window_bound :: "pyfloat \<Rightarrow> nat \<Rightarrow> secs list \<Rightarrow> bool" where
  "window_bound window N h \<longleftrightarrow> list_all (\<lambda>k. in_window window (h ! k) (take (Suc k) h) \<le> N) [0..<length h]"

lemma window_bound_Nil [simp]: "window_bound window N []"
  by (simp add: window_bound_def)

lemma window_bound_snoc:
  "window_bound window N (h @ [t]) \<longleftrightarrow> window_bound window N h \<and> in_window window t (h @ [t]) \<le> N"
  by (simp add: window_bound_def list_all_iff nth_append less_Suc_eq_le conj_commute)

lemma in_window_antimono: "s \<le> t \<Longrightarrow> in_window window t h \<le> in_window window s h"
proof -
  assume "s \<le> t"
  then have "length (filter (\<lambda>x. f_sub t window < x) h) \<le> length (filter (\<lambda>x. f_sub s window < x) h)"
    using f_sub_mono[of s t window] by (induction h) auto
  then show ?thesis by (simp add: in_window_def)
qed

lemma in_window_snoc: "in_window window t (h @ [s]) \<le> Suc (in_window window t h)"
  by (simp add: in_window_def)

context sliding_counter
begin

lemma gate_step:
  assumes "models w h now" "window_bound window N h" "now \<le> t" "t \<le> t1" "t1 \<le> t2" "fst (tally t w) < N"
  shows "models (note_event t1 t2 (snd (tally t w))) (h @ [t1]) t2" "window_bound window N (h @ [t1])"
proof -
  have n: "fst (tally t w) = in_window window t h" and m: "models (snd (tally t w)) h t"
    using assms(1,3) by (simp_all add: tally_exact models_tally)
  show "models (note_event t1 t2 (snd (tally t w))) (h @ [t1]) t2" using m assms(4,5) by (rule models_note)
  have "in_window window t1 (h @ [t1]) \<le> Suc (in_window window t h)"
    using in_window_snoc[of window t1 h t1] in_window_antimono[OF assms(4), of window h] by linarith
  then show "window_bound window N (h @ [t1])" using assms(2,6) by (simp add: window_bound_snoc n)
qed

lemma gate_run_bound:
  "models w h now \<Longrightarrow> window_bound window N h \<Longrightarrow> clock_ok now rs \<Longrightarrow>
     window_bound window N (h @ gate_run N rs w)"
proof (induction rs arbitrary: w h now)
  case (Cons r rs)
  obtain t t1 t2 where r: "r = (t, t1, t2)" by (rule prod_cases3)
  have t: "now \<le> t" "t \<le> t1" "t1 \<le> t2" "clock_ok t2 rs" using Cons.prems(3) by (simp_all add: r)
  show ?case
  proof (cases "fst (tally t w) < N")
    case True
    from Cons.IH[OF gate_step[OF Cons.prems(1,2) t(1-3) True] t(4)] show ?thesis
      using True by (simp add: r case_prod_beta)
  next
    case False
    have "clock_ok t rs" using t by (cases rs) auto
    from Cons.IH[OF models_tally[OF Cons.prems(1) t(1)] Cons.prems(2) this] show ?thesis
      using False by (simp add: r case_prod_beta)
  qed
qed simp

end

section \<open>The counter keeps the contract\<close>

definition represents :: "pyfloat \<Rightarrow> window_counter \<Rightarrow> secs list \<Rightarrow> secs \<Rightarrow> bool" where
  "represents window c h now \<longleftrightarrow>
     window_seconds c = window \<and>
     (\<exists>cut \<le> f_sub now window. timestamps c = filter (\<lambda>t. cut < t) h)"

lemma represents_init: "represents window (counter_init window) [] now"
  by (auto simp: represents_def counter_init_def)

lemma represents_prune:
  assumes "represents window c h now" "now \<le> now'"
  shows "represents window (prune now' c) h now' \<and>
    timestamps (prune now' c) = filter (\<lambda>t. f_sub now' window < t) h"
proof -
  obtain cut where c: "window_seconds c = window" "cut \<le> f_sub now window" "timestamps c = filter (\<lambda>t. cut < t) h"
    using assms(1) by (auto simp: represents_def)
  have "cut \<le> f_sub now' window" using c(2) f_sub_mono[OF assms(2)] by (rule order_trans)
  then have "filter (\<lambda>t. cut < t \<and> f_sub now' window < t) h = filter (\<lambda>t. f_sub now' window < t) h"
    by (intro filter_cong) auto
  moreover have "timestamps (prune now' c) = filter (\<lambda>t. f_sub now' window < t) (filter (\<lambda>t. cut < t) h)"
    by (simp add: prune_def c)
  ultimately have "timestamps (prune now' c) = filter (\<lambda>t. f_sub now' window < t) h"
    by (simp only: filter_filter)
  then show ?thesis using c(1) by (auto simp: represents_def prune_def)
qed

interpretation window: sliding_counter record_event count_events window "represents window"
  for window
proof
  fix c h now t1 t2
  assume r: "represents window c h now" and t: "now \<le> t1" "t1 \<le> t2"
  show "represents window (record_event t1 t2 c) (h @ [t1]) t2"
  proof (cases "f_sub t2 window < t1")
    case True
    obtain cut where c: "window_seconds c = window" "cut \<le> f_sub now window" "timestamps c = filter (\<lambda>t. cut < t) h"
      using r by (auto simp: represents_def)
    have "cut \<le> f_sub t2 window" using c(2) f_sub_mono[of now t2 window] t by linarith
    then have "represents window (c\<lparr>timestamps := timestamps c @ [t1]\<rparr>) (h @ [t1]) t2"
      unfolding represents_def using c(1,3) True by (intro conjI exI[of _ cut]) simp_all
    from represents_prune[OF this order_refl] show ?thesis by (simp add: record_event_def)
  next
    case False
    have w: "window_seconds c = window" using r by (auto simp: represents_def)
    have "prune t2 (c\<lparr>timestamps := timestamps c @ [t1]\<rparr>) = prune t2 c"
      using False by (simp add: prune_def w)
    moreover have "represents window (prune t2 c) h t2 \<and> timestamps (prune t2 c) = filter (\<lambda>t. f_sub t2 window < t) h"
      by (rule represents_prune[OF r]) (use t in linarith)
    ultimately show ?thesis using False unfolding represents_def record_event_def
      by (intro conjI exI[of _ "f_sub t2 window"]) simp_all
  qed
next
  fix c h now t'
  assume "represents window c h now" "now \<le> t'"
  note p = represents_prune[OF this]
  show "represents window (snd (count_events t' c)) h t'" using p by (simp add: count_events_def Let_def)
  show "fst (count_events t' c) = in_window window t' h"
    using p by (simp add: count_events_def in_window_def Let_def)
qed

section \<open>What the counter guarantees\<close>

text \<open>The rate gate of the code, over the counter itself.\<close>

fun admitted :: "nat \<Rightarrow> (secs \<times> secs \<times> secs) list \<Rightarrow> window_counter \<Rightarrow> secs list" where
  "admitted N [] c = []"
| "admitted N ((t, t1, t2) # rs) c =
     (case count_events t c of (n, c1) \<Rightarrow>
        if n < N then t1 # admitted N rs (record_event t1 t2 c1) else admitted N rs c1)"

lemma admitted_gate_run: "admitted N rs c = window.gate_run N rs c"
  by (induction N rs c rule: admitted.induct) (auto split: prod.split)

text \<open>
  Claim: when requests are admitted only while the count is below the maximum and recorded
  after the check, with a clock that never goes back, then no recorded time sees more than the
  maximum number of records in its window, however the requests are spaced.
\<close>

theorem admitted_rate_bounded:
  assumes "clock_ok 0 rs"
  shows "window_bound window N (admitted N rs (counter_init window))"
  using window.gate_run_bound[OF represents_init window_bound_Nil assms]
  by (simp add: admitted_gate_run)

theorem admitted_rate_bounded_witness:
  "admitted 2 [(1, 1, 1), (1, 1, 1), (3/2, 3/2, 3/2), (5/2, 5/2, 5/2)] (counter_init 1) = [1, 1, 5/2] \<and>
   window_bound 1 2 [1, 1, 5/2]"
proof -
  have a: "admitted 2 [(1, 1, 1), (1, 1, 1), (3/2, 3/2, 3/2), (5/2, 5/2, 5/2)] (counter_init 1) = [1, 1, 5/2]"
    by code_simp
  have "clock_ok 0 [(1, 1, 1), (1, 1, 1), (3/2, 3/2, 3/2), (5/2, 5/2, 5/2)]" by simp
  from admitted_rate_bounded[OF this, of 1 2] show ?thesis by (simp only: a)
qed

end
