(* ===== verification/Hft_Pipeline.thy ===== *)
theory Hft_Pipeline
  imports Sliding_Window State_Effects "HOL-Library.Multiset"
begin

text \<open>
  The high-frequency pipeline, \<open>src/trading/hft_pipeline.py\<close>: microstructure signals of a tick, the
  batch buffer, the mode and the metrics.  \<open>batch_and_submit\<close> waits twice (for the batch window and
  for the submissions), so it is three steps; the relation \<open>batch_step\<close> lets any number of calls,
  ticks and mode changes run in between, as the event loop does.  The clocks are arguments, the
  event bus an action on an outside world.  Quantities of a tick are floats.
\<close>

section \<open>State\<close>

record tick =
  tk_instrument :: "string option"
  tk_bid :: "pyfloat option"
  tk_ask :: "pyfloat option"
  tk_bid_volume :: "pyfloat option"
  tk_ask_volume :: "pyfloat option"
  tk_avg_spread :: "pyfloat option"
  tk_last_mid :: "pyfloat option"
  tk_price_change_pct :: "pyfloat option"

record hft_signal =
  hs_instrument :: string
  hs_signal_type :: string
  hs_direction :: string
  hs_strength :: pyfloat
  hs_timestamp :: micros
  hs_tick_data :: tick
  hs_latency_ms :: pyfloat

record hft_metrics =
  hm_orders_per_second :: pyfloat
  hm_avg_latency_ms :: pyfloat
  hm_net_pnl_1min :: decimal
  hm_net_pnl_5min :: decimal
  hm_net_pnl_daily :: decimal
  hm_circuit_breaker_active :: bool
  hm_total_exposure_pct :: pyfloat

definition hft_metrics_init :: hft_metrics where
  "hft_metrics_init = \<lparr>hm_orders_per_second = 0, hm_avg_latency_ms = 0, hm_net_pnl_1min = 0, hm_net_pnl_5min = 0,
     hm_net_pnl_daily = 0, hm_circuit_breaker_active = False, hm_total_exposure_pct = 0\<rparr>"

record connection = cx_id :: nat cx_created_at :: micros cx_status :: string

datatype mode_change =
    Enabled_By string decimal micros
  | Disabled_By string decimal string nat micros

datatype pipeline_event =
    Mode_Enabled string decimal
  | Mode_Disabled string decimal string
  | Metrics_Update hft_metrics

record 'w hft_pipeline =
  hp_active :: bool
  hp_max_order_rate :: int
  hp_max_per_instrument_rate :: int
  hp_batch_window_ms :: int
  hp_event_bus :: "(string \<Rightarrow> pipeline_event \<Rightarrow> ('w, int) action) option"
  hp_connection_pool :: "connection list"
  hp_order_rate_tracker :: window_counter
  hp_instrument_rate_trackers :: "(string, window_counter) dict"
  hp_batch_buffer :: "hft_signal list"
  hp_latency_samples :: "pyfloat list"
  hp_max_latency_samples :: nat
  hp_mode_changes :: "mode_change list"
  hp_metrics :: hft_metrics
  hp_world :: 'w

definition hft_pipeline_init :: "(string \<Rightarrow> pipeline_event \<Rightarrow> ('w, int) action) option \<Rightarrow> 'w \<Rightarrow> 'w hft_pipeline" where
  "hft_pipeline_init bus w =
     \<lparr>hp_active = False, hp_max_order_rate = HFT_MAX_ORDER_RATE_DEFAULT,
      hp_max_per_instrument_rate = HFT_MAX_PER_INSTRUMENT_RATE, hp_batch_window_ms = HFT_BATCH_WINDOW_MS,
      hp_event_bus = bus, hp_connection_pool = [], hp_order_rate_tracker = counter_init 1,
      hp_instrument_rate_trackers = [], hp_batch_buffer = [], hp_latency_samples = [],
      hp_max_latency_samples = 1000, hp_mode_changes = [], hp_metrics = hft_metrics_init, hp_world = w\<rparr>"

text \<open>\<open>_publish_event\<close> swallows every exception of the bus.\<close>

definition publish_hft :: "string \<Rightarrow> pipeline_event \<Rightarrow> 'w hft_pipeline \<Rightarrow> 'w hft_pipeline" where
  "publish_hft channel e p =
     (case hp_event_bus p of None \<Rightarrow> p | Some pub \<Rightarrow> p\<lparr>hp_world := snd (pub channel e (hp_world p))\<rparr>)"

section \<open>Signals of a tick\<close>

definition instrument_of :: "tick \<Rightarrow> string" where
  "instrument_of t = or_default (tk_instrument t) ''UNKNOWN''"

definition signal_of :: "tick \<Rightarrow> micros \<Rightarrow> string \<Rightarrow> string \<Rightarrow> pyfloat \<Rightarrow> hft_signal" where
  "signal_of t now kind dir strength =
     \<lparr>hs_instrument = instrument_of t, hs_signal_type = kind, hs_direction = dir, hs_strength = strength,
      hs_timestamp = now, hs_tick_data = t, hs_latency_ms = 0\<rparr>"

definition detect_order_flow_imbalance :: "micros \<Rightarrow> tick \<Rightarrow> hft_signal option" where
  "detect_order_flow_imbalance now t =
     (let bid_volume = or_default (tk_bid_volume t) 0; ask_volume = or_default (tk_ask_volume t) 0;
          total_volume = f_add bid_volume ask_volume
      in if (bid_volume = 0 \<and> ask_volume = 0) \<or> total_volume = 0 then None
         else
           let imbalance_ratio = f_quot (f_sub bid_volume ask_volume) total_volume
           in if flt (6/10) < \<bar>imbalance_ratio\<bar>
              then Some (signal_of t now ''order_flow_imbalance''
                     (if 0 < imbalance_ratio then ''BUY'' else ''SELL'') (min \<bar>imbalance_ratio\<bar> 1))
              else None)"

definition detect_spread_compression :: "micros \<Rightarrow> tick \<Rightarrow> hft_signal option" where
  "detect_spread_compression now t =
     (let bid = or_default (tk_bid t) 0; ask = or_default (tk_ask t) 0; avg_spread = or_default (tk_avg_spread t) 0;
          current_spread = f_sub ask bid; compression_ratio = f_quot current_spread avg_spread
      in if avg_spread \<le> 0 \<or> current_spread \<le> 0 \<or> flt (4/10) \<le> compression_ratio then None
         else
           let current_mid = f_quot (f_add bid ask) 2; last_mid = or_default (tk_last_mid t) current_mid
           in Some (signal_of t now ''spread_compression''
                (if last_mid \<le> current_mid then ''BUY'' else ''SELL'') (f_sub 1 compression_ratio)))"

definition detect_momentum_burst :: "micros \<Rightarrow> tick \<Rightarrow> hft_signal option" where
  "detect_momentum_burst now t =
     (let price_change_pct = or_default (tk_price_change_pct t) 0
      in if flt (1/1000) < \<bar>price_change_pct\<bar>
         then Some (signal_of t now ''momentum_burst'' (if 0 < price_change_pct then ''BUY'' else ''SELL'')
                (min (f_mul \<bar>price_change_pct\<bar> 100) 1))
         else None)"

definition signals_of_tick :: "micros \<Rightarrow> tick \<Rightarrow> hft_signal list" where
  "signals_of_tick now t =
     List.map_filter (\<lambda>detect. detect now t)
       [detect_order_flow_imbalance, detect_spread_compression, detect_momentum_burst]"

definition record_latency :: "pyfloat \<Rightarrow> 'w hft_pipeline \<Rightarrow> 'w hft_pipeline" where
  "record_latency ms p =
     (let samples = hp_latency_samples p @ [ms]
      in p\<lparr>hp_latency_samples := (if hp_max_latency_samples p < length samples
                                  then take_last (hp_max_latency_samples p) samples else samples)\<rparr>)"

text \<open>\<open>start\<close> and \<open>stop\<close> are the readings of the performance counter.\<close>

definition process_tick :: "secs \<Rightarrow> secs \<Rightarrow> micros \<Rightarrow> tick \<Rightarrow> 'w hft_pipeline \<Rightarrow> hft_signal list \<times> 'w hft_pipeline" where
  "process_tick start stop now t p =
     (if \<not> hp_active p then ([], p)
      else
        let elapsed_ms = f_mul (f_sub stop start) 1000
        in (map (\<lambda>s. s\<lparr>hs_latency_ms := elapsed_ms\<rparr>) (signals_of_tick now t), record_latency elapsed_ms p))"

section \<open>Mode\<close>

definition warm_connection_pool :: "micros \<Rightarrow> 'w hft_pipeline \<Rightarrow> 'w hft_pipeline" where
  "warm_connection_pool now p =
     p\<lparr>hp_connection_pool := hp_connection_pool p @
        map (\<lambda>i. \<lparr>cx_id = i, cx_created_at = now, cx_status = ''ready''\<rparr>) [length (hp_connection_pool p)..<5]\<rparr>"

definition enable :: "micros \<Rightarrow> string \<Rightarrow> decimal \<Rightarrow> 'w hft_pipeline \<Rightarrow> 'w hft_pipeline" where
  "enable now user equity p =
     (if hp_active p then p
      else
        let p1 = warm_connection_pool now (p\<lparr>hp_active := True\<rparr>)
        in publish_hft ''hft.mode_changed'' (Mode_Enabled user equity)
             (p1\<lparr>hp_mode_changes := hp_mode_changes p1 @ [Enabled_By user equity now]\<rparr>))"

definition disable :: "micros \<Rightarrow> string \<Rightarrow> string \<Rightarrow> decimal \<Rightarrow> 'w hft_pipeline \<Rightarrow> 'w hft_pipeline" where
  "disable now reason user equity p =
     (if \<not> hp_active p then p
      else publish_hft ''hft.mode_changed'' (Mode_Disabled user equity reason)
             (p\<lparr>hp_active := False, hp_batch_buffer := [],
                hp_mode_changes := hp_mode_changes p @ [Disabled_By user equity reason (length (hp_batch_buffer p)) now]\<rparr>))"

section \<open>Batches\<close>

record submission =
  sb_instrument :: string
  sb_direction :: string
  sb_signal_type :: string
  sb_strength :: pyfloat
  sb_timestamp :: micros

datatype batch_result = Submitted submission | Submission_Error string py_error

definition submit_signal :: "micros \<Rightarrow> hft_signal \<Rightarrow> py_error + submission" where
  "submit_signal now s =
     Inr \<lparr>sb_instrument = hs_instrument s, sb_direction = hs_direction s, sb_signal_type = hs_signal_type s,
          sb_strength = hs_strength s, sb_timestamp = now\<rparr>"

text \<open>Before the batch window, and after it.\<close>

definition enqueue_batch :: "hft_signal list \<Rightarrow> 'w hft_pipeline \<Rightarrow> 'w hft_pipeline" where
  "enqueue_batch signals p = p\<lparr>hp_batch_buffer := hp_batch_buffer p @ signals\<rparr>"

definition take_batch :: "'w hft_pipeline \<Rightarrow> hft_signal list \<times> 'w hft_pipeline" where
  "take_batch p = (hp_batch_buffer p, p\<lparr>hp_batch_buffer := []\<rparr>)"

text \<open>After the submissions: \<open>t\<close> gives the readings of the monotonic clock, four for each signal.\<close>

definition count_submission :: "string \<Rightarrow> (nat \<Rightarrow> secs) \<Rightarrow> 'w hft_pipeline \<Rightarrow> 'w hft_pipeline" where
  "count_submission i t p =
     (let c = (case map_of (hp_instrument_rate_trackers p) i of Some c \<Rightarrow> c | None \<Rightarrow> counter_init 1)
      in p\<lparr>hp_order_rate_tracker := record_event (t 0) (t 1) (hp_order_rate_tracker p),
           hp_instrument_rate_trackers := AList.update i (record_event (t 2) (t 3) c) (hp_instrument_rate_trackers p)\<rparr>)"

fun record_results ::
  "(nat \<Rightarrow> secs) \<Rightarrow> (hft_signal \<times> (py_error + submission)) list \<Rightarrow> 'w hft_pipeline \<Rightarrow> batch_result list \<times> 'w hft_pipeline" where
  "record_results t [] p = ([], p)"
| "record_results t ((s, Inl e) # rs) p = apfst ((#) (Submission_Error (hs_instrument s) e)) (record_results t rs p)"
| "record_results t ((s, Inr x) # rs) p =
     apfst ((#) (Submitted x)) (record_results (\<lambda>n. t (n + 4)) rs (count_submission (hs_instrument s) t p))"

definition submit_batch :: "micros \<Rightarrow> (nat \<Rightarrow> secs) \<Rightarrow> hft_signal list \<Rightarrow> 'w hft_pipeline \<Rightarrow> batch_result list \<times> 'w hft_pipeline" where
  "submit_batch now t batch p = record_results t (map (\<lambda>s. (s, submit_signal now s)) batch) p"

text \<open>A call that nothing interrupts.\<close>

definition batch_and_submit :: "micros \<Rightarrow> (nat \<Rightarrow> secs) \<Rightarrow> hft_signal list \<Rightarrow> 'w hft_pipeline \<Rightarrow> batch_result list \<times> 'w hft_pipeline" where
  "batch_and_submit now t signals p =
     (if signals = [] then ([], p)
      else case take_batch (enqueue_batch signals p) of (batch, p1) \<Rightarrow> submit_batch now t batch p1)"

section \<open>Limits and metrics\<close>

definition check_rate_limit :: "string \<Rightarrow> secs \<Rightarrow> secs \<Rightarrow> 'w hft_pipeline \<Rightarrow> bool \<times> 'w hft_pipeline" where
  "check_rate_limit i now1 now2 p =
     (case count_events now1 (hp_order_rate_tracker p) of (n, c) \<Rightarrow>
        let p1 = p\<lparr>hp_order_rate_tracker := c\<rparr>
        in if hp_max_order_rate p \<le> int n then (False, p1)
           else case map_of (hp_instrument_rate_trackers p1) i of
             None \<Rightarrow> (True, p1)
           | Some ci \<Rightarrow>
               (case count_events now2 ci of (m, ci') \<Rightarrow>
                  (int m < hp_max_per_instrument_rate p,
                   p1\<lparr>hp_instrument_rate_trackers := AList.update i ci' (hp_instrument_rate_trackers p1)\<rparr>)))"

definition calculate_avg_latency :: "'w hft_pipeline \<Rightarrow> pyfloat" where
  "calculate_avg_latency p =
     (if hp_latency_samples p = [] then 0
      else f_quot (f_sum (hp_latency_samples p)) (of_nat (length (hp_latency_samples p))))"

definition get_metrics :: "secs \<Rightarrow> 'w hft_pipeline \<Rightarrow> hft_metrics \<times> 'w hft_pipeline" where
  "get_metrics now p =
     (case count_events now (hp_order_rate_tracker p) of (n, c) \<Rightarrow>
        let m = (hp_metrics p)\<lparr>hm_orders_per_second := of_nat n, hm_avg_latency_ms := calculate_avg_latency p\<rparr>
        in (m, p\<lparr>hp_order_rate_tracker := c, hp_metrics := m\<rparr>))"

definition update_metrics ::
  "decimal option \<Rightarrow> decimal option \<Rightarrow> decimal option \<Rightarrow> bool option \<Rightarrow> pyfloat option \<Rightarrow> 'w hft_pipeline \<Rightarrow> 'w hft_pipeline" where
  "update_metrics pnl1 pnl5 daily breaker exposure p =
     (let m = hp_metrics p
      in p\<lparr>hp_metrics := m\<lparr>hm_net_pnl_1min := or_default pnl1 (hm_net_pnl_1min m),
           hm_net_pnl_5min := or_default pnl5 (hm_net_pnl_5min m), hm_net_pnl_daily := or_default daily (hm_net_pnl_daily m),
           hm_circuit_breaker_active := or_default breaker (hm_circuit_breaker_active m),
           hm_total_exposure_pct := or_default exposure (hm_total_exposure_pct m)\<rparr>\<rparr>)"

definition publish_metrics :: "secs \<Rightarrow> 'w hft_pipeline \<Rightarrow> 'w hft_pipeline" where
  "publish_metrics now p =
     (case get_metrics now p of (m, p1) \<Rightarrow> publish_hft ''hft.metrics_update'' (Metrics_Update m) p1)"

section \<open>Interleaved calls\<close>

text \<open>Where a call of \<open>batch_and_submit\<close> stands: in its batch window, waiting for its submissions,
  or returned.\<close>

datatype batch_call = In_Window | Submitting "hft_signal list" | Returned "batch_result list"



section \<open>What a batch does\<close>

definition submission_of :: "micros \<Rightarrow> hft_signal \<Rightarrow> batch_result" where
  "submission_of now s = Submitted \<lparr>sb_instrument = hs_instrument s, sb_direction = hs_direction s,
     sb_signal_type = hs_signal_type s, sb_strength = hs_strength s, sb_timestamp = now\<rparr>"

lemma count_submission_fields [simp]:
  "hp_batch_buffer (count_submission i t p) = hp_batch_buffer p" "hp_active (count_submission i t p) = hp_active p"
  by (simp_all add: count_submission_def Let_def)

lemma submit_batch_Nil [simp]: "submit_batch now t [] p = ([], p)"
  by (simp add: submit_batch_def)

lemma submit_batch_Cons [simp]:
  "submit_batch now t (s # batch) p =
     apfst ((#) (submission_of now s)) (submit_batch now (\<lambda>n. t (n + 4)) batch (count_submission (hs_instrument s) t p))"
  by (simp add: submit_batch_def submit_signal_def submission_of_def)

lemma submit_batch_all:
  "fst (submit_batch now t batch p) = map (submission_of now) batch"
  "hp_batch_buffer (snd (submit_batch now t batch p)) = hp_batch_buffer p"
  "hp_active (snd (submit_batch now t batch p)) = hp_active p"
  by (induction batch arbitrary: t p) simp_all

lemma batch_and_submit_all:
  "signals \<noteq> [] \<Longrightarrow> batch_and_submit now t signals p =
     submit_batch now t (hp_batch_buffer p @ signals) (p\<lparr>hp_batch_buffer := []\<rparr>)"
  by (simp add: batch_and_submit_def take_batch_def enqueue_batch_def)

section \<open>No signal is lost or submitted twice\<close>

fun in_flight :: "batch_call \<Rightarrow> hft_signal multiset" where
  "in_flight (Submitting batch) = mset batch"
| "in_flight _ = {#}"

definition total_in_flight :: "batch_call list \<Rightarrow> hft_signal multiset" where
  "total_in_flight cs = sum_list (map in_flight cs)"


lemma total_in_flight_snoc [simp]: "total_in_flight (cs @ [c]) = total_in_flight cs + in_flight c"
  by (simp add: total_in_flight_def)


lemma keeps_buffer [simp]:
  "hp_batch_buffer (publish_hft ch e p) = hp_batch_buffer p"
  "hp_batch_buffer (snd (process_tick st sp now tk p)) = hp_batch_buffer p"
  "hp_batch_buffer (snd (check_rate_limit i now1 now2 p)) = hp_batch_buffer p"
  "hp_batch_buffer (publish_metrics now1 p) = hp_batch_buffer p"
  "hp_batch_buffer (enable now user equity p) = hp_batch_buffer p"
  by (auto simp: publish_hft_def process_tick_def record_latency_def check_rate_limit_def publish_metrics_def get_metrics_def
      enable_def warm_connection_pool_def Let_def split: option.split prod.split)

lemma disable_buffer [simp]:
  "hp_batch_buffer (disable now reason user equity p) = (if hp_active p then [] else hp_batch_buffer p)"
  by (simp add: disable_def)






section \<open>The limits do not bind a batch\<close>

lemma submit_batch_counted:
  assumes "window_seconds (hp_order_rate_tracker p) = 1" "f_sub t 1 < t"
  shows "filter (\<lambda>x. f_sub t 1 < x) (timestamps (hp_order_rate_tracker (snd (submit_batch now (\<lambda>_. t) batch p)))) =
      filter (\<lambda>x. f_sub t 1 < x) (timestamps (hp_order_rate_tracker p)) @ replicate (length batch) t \<and>
    window_seconds (hp_order_rate_tracker (snd (submit_batch now (\<lambda>_. t) batch p))) = 1"
  using assms(1)
proof (induction batch arbitrary: p)
  case (Cons s batch)
  let ?p = "count_submission (hs_instrument s) (\<lambda>_. t) p"
  have "window_seconds (hp_order_rate_tracker ?p) = 1"
    using Cons.prems by (simp add: count_submission_def record_event_def prune_def Let_def)
  moreover have "filter (\<lambda>x. f_sub t 1 < x) (timestamps (hp_order_rate_tracker ?p)) =
      filter (\<lambda>x. f_sub t 1 < x) (timestamps (hp_order_rate_tracker p)) @ [t]"
    using Cons.prems assms(2) by (simp add: count_submission_def record_event_def prune_def Let_def)
  ultimately show ?case using Cons.IH[of ?p] by simp
qed simp

text \<open>
  Claim: a batch is submitted whole, whatever the limits and even with the mode switched off:
  every signal in the buffer and every one handed in has its submission, in order; and from a new
  pipeline with all clock readings at one instant, the tracker then counts all of them, so that the
  orders of one second have no bound although \<open>check_rate_limit\<close> refuses the next one.
\<close>

theorem batches_ignore_rate_limits:
  assumes "signals \<noteq> []" "f_sub t 1 < t"
  shows "fst (batch_and_submit now (\<lambda>_. t) signals p) = map (submission_of now) (hp_batch_buffer p @ signals) \<and>
    fst (count_events t (hp_order_rate_tracker (snd (batch_and_submit now (\<lambda>_. t) signals (hft_pipeline_init bus w))))) = length signals"
proof
  show "fst (batch_and_submit now (\<lambda>_. t) signals p) = map (submission_of now) (hp_batch_buffer p @ signals)"
    using assms(1) by (simp add: batch_and_submit_all submit_batch_all)
  let ?p = "(hft_pipeline_init bus w)\<lparr>hp_batch_buffer := []\<rparr>"
  have "window_seconds (hp_order_rate_tracker ?p) = 1" "timestamps (hp_order_rate_tracker ?p) = []" "hp_batch_buffer (hft_pipeline_init bus w) = []"
    by (simp_all add: hft_pipeline_init_def counter_init_def)
  then show "fst (count_events t (hp_order_rate_tracker (snd (batch_and_submit now (\<lambda>_. t) signals (hft_pipeline_init bus w))))) = length signals"
    using submit_batch_counted[of ?p t now signals] assms
    by (simp add: batch_and_submit_all count_events_def prune_def Let_def)
qed

section \<open>Concrete inputs\<close>

definition quiet_tick :: tick where
  "quiet_tick = \<lparr>tk_instrument = Some ''EURUSD'', tk_bid = None, tk_ask = None, tk_bid_volume = Some 9, tk_ask_volume = Some 1,
     tk_avg_spread = None, tk_last_mid = None, tk_price_change_pct = None\<rparr>"

definition buy_signal :: hft_signal where
  "buy_signal = signal_of quiet_tick 0 ''order_flow_imbalance'' ''BUY'' (flt (8/10))"

lemma detected_imbalance: "signals_of_tick 0 quiet_tick = [buy_signal]"
  by code_simp



lemma batches_ignore_rate_limits_witness:
  "fst (batch_and_submit 0 (\<lambda>_. 10) (replicate 101 buy_signal) (hft_pipeline_init None ())) = replicate 101 (submission_of 0 buy_signal) \<and>
   HFT_MAX_ORDER_RATE_DEFAULT < 101"
proof -
  have "f_sub 10 1 < 10" by code_simp
  from batches_ignore_rate_limits[OF _ this, of "replicate 101 buy_signal" 0 "hft_pipeline_init None ()" None "()"]
  show ?thesis by (simp add: hft_pipeline_init_def HFT_MAX_ORDER_RATE_DEFAULT_def)
qed

end
