(* ===== verification/Candle_Buffer.thy ===== *)
theory Candle_Buffer
  imports Constants
begin

text \<open>
  The rolling OHLC candles built from ticks, \<open>src/trading/candle_buffer.py\<close>.  The reference for
  what they should be is \<open>add_to_groups\<close>, the list of all ticks grouped by candle period: the
  buffer, which keeps one open candle and a bounded number of closed ones, refines it.
\<close>

section \<open>State\<close>

definition DEFAULT_CANDLE_PERIOD_SECONDS :: int where
  "DEFAULT_CANDLE_PERIOD_SECONDS = 60"

definition DEFAULT_MAX_CANDLES :: nat where
  "DEFAULT_MAX_CANDLES = 200"

definition MIN_CANDLES_FOR_STRATEGY :: nat where
  "MIN_CANDLES_FOR_STRATEGY = 5"

record open_candle =
  period_start :: pyfloat
  oc_open :: pyfloat
  oc_high :: pyfloat
  oc_low :: pyfloat
  oc_close :: pyfloat
  oc_tick_count :: nat

text \<open>The dictionaries \<open>to_dict\<close> makes.\<close>

record candle =
  cn_time :: pyfloat
  cn_open :: pyfloat
  cn_high :: pyfloat
  cn_low :: pyfloat
  cn_close :: pyfloat
  cn_tick_count :: nat

record candle_buffer =
  candle_period :: int
  max_candles :: nat
  closed_candles :: "string \<rightharpoonup> candle list"
  open_candles :: "string \<rightharpoonup> open_candle"
  tick_counts :: "string \<rightharpoonup> nat"

definition candle_buffer_init :: "int option \<Rightarrow> nat option \<Rightarrow> candle_buffer" where
  "candle_buffer_init period n =
     \<lparr>candle_period = (case period of Some p \<Rightarrow> p | None \<Rightarrow> DEFAULT_CANDLE_PERIOD_SECONDS),
      max_candles = (case n of Some k \<Rightarrow> k | None \<Rightarrow> DEFAULT_MAX_CANDLES),
      closed_candles = Map.empty, open_candles = Map.empty, tick_counts = Map.empty\<rparr>"

section \<open>Operations\<close>

definition update_candle :: "pyfloat \<Rightarrow> open_candle \<Rightarrow> open_candle" where
  "update_candle price c =
     c\<lparr>oc_high := (if oc_high c < price then price else oc_high c),
       oc_low := (if price < oc_low c then price else oc_low c),
       oc_close := price, oc_tick_count := oc_tick_count c + 1\<rparr>"

definition to_dict :: "open_candle \<Rightarrow> candle" where
  "to_dict c =
     \<lparr>cn_time = period_start c, cn_open = oc_open c, cn_high = oc_high c, cn_low = oc_low c,
      cn_close = oc_close c, cn_tick_count = oc_tick_count c\<rparr>"

definition new_candle :: "pyfloat \<Rightarrow> pyfloat \<Rightarrow> open_candle" where
  "new_candle start price =
     \<lparr>period_start = start, oc_open = price, oc_high = price, oc_low = price, oc_close = price, oc_tick_count = 1\<rparr>"

text \<open>One side of a tick: absent, a number, or a value \<open>float()\<close> rejects.\<close>

datatype quote = NoQuote | Price pyfloat | BadQuote

fun mid_price :: "quote \<Rightarrow> quote \<Rightarrow> pyfloat option" where
  "mid_price (Price b) (Price a) = Some (flt (f_add b a / 2))"
| "mid_price (Price b) NoQuote = Some b"
| "mid_price NoQuote (Price a) = Some a"
| "mid_price _ _ = None"

definition candle_start :: "int \<Rightarrow> pyfloat \<Rightarrow> pyfloat" where
  "candle_start period now = f_mul (f_floordiv now (of_int period)) (of_int period)"

definition on_tick :: "string \<Rightarrow> quote \<Rightarrow> quote \<Rightarrow> secs \<Rightarrow> candle_buffer \<Rightarrow> py_error + candle_buffer" where
  "on_tick epic bid ask now b =
     (case mid_price bid ask of
        None \<Rightarrow> Inr b
      | Some price \<Rightarrow>
          if candle_period b = 0 then Inl ZeroDivisionError
          else
            (let start = candle_start (candle_period b) now;
                 b1 = (if closed_candles b epic = None
                       then b\<lparr>closed_candles := (closed_candles b)(epic \<mapsto> []),
                              tick_counts := (tick_counts b)(epic \<mapsto> 0)\<rparr>
                       else b);
                 b2 = b1\<lparr>tick_counts := (tick_counts b1)(epic \<mapsto> the (tick_counts b1 epic) + 1)\<rparr>
             in case open_candles b2 epic of
                  None \<Rightarrow> Inr (b2\<lparr>open_candles := (open_candles b2)(epic \<mapsto> new_candle start price)\<rparr>)
                | Some c \<Rightarrow>
                    if period_start c < start
                    then Inr (b2\<lparr>closed_candles := (closed_candles b2)
                                   (epic \<mapsto> take_last (max_candles b2) (the (closed_candles b2 epic) @ [to_dict c])),
                                 open_candles := (open_candles b2)(epic \<mapsto> new_candle start price)\<rparr>)
                    else Inr (b2\<lparr>open_candles := (open_candles b2)(epic \<mapsto> update_candle price c)\<rparr>)))"

definition get_candles :: "candle_buffer \<Rightarrow> string \<Rightarrow> bool \<Rightarrow> candle list" where
  "get_candles b epic include_open =
     (let closed = (case closed_candles b epic of Some cs \<Rightarrow> cs | None \<Rightarrow> [])
      in case open_candles b epic of
           Some c \<Rightarrow> if include_open then closed @ [to_dict c] else closed
         | None \<Rightarrow> closed)"

definition candle_count :: "candle_buffer \<Rightarrow> string \<Rightarrow> nat" where
  "candle_count b epic = (case closed_candles b epic of Some cs \<Rightarrow> length cs | None \<Rightarrow> 0)"

definition is_ready :: "candle_buffer \<Rightarrow> string \<Rightarrow> nat \<Rightarrow> bool" where
  "is_ready b epic min_candles = (min_candles \<le> candle_count b epic)"

definition tick_count :: "candle_buffer \<Rightarrow> string \<Rightarrow> nat" where
  "tick_count b epic = (case tick_counts b epic of Some n \<Rightarrow> n | None \<Rightarrow> 0)"

record epic_status =
  es_closed_candles :: nat
  es_has_open_candle :: bool
  es_tick_count :: nat
  es_ready :: bool

text \<open>The dictionary of \<open>get_status\<close> as a map: its keys are the known epics.\<close>

definition buffer_status :: "candle_buffer \<Rightarrow> string \<rightharpoonup> epic_status" where
  "buffer_status b epic =
     (if closed_candles b epic \<noteq> None \<or> open_candles b epic \<noteq> None
      then Some \<lparr>es_closed_candles = candle_count b epic, es_has_open_candle = (open_candles b epic \<noteq> None),
                 es_tick_count = tick_count b epic, es_ready = is_ready b epic MIN_CANDLES_FOR_STRATEGY\<rparr>
      else None)"

section \<open>The reference: ticks grouped by period\<close>

type_synonym tick_group = "pyfloat \<times> pyfloat list"

text \<open>The newest group first; late ticks, of an earlier period, join the newest group.\<close>

fun add_to_groups :: "pyfloat \<Rightarrow> pyfloat \<Rightarrow> tick_group list \<Rightarrow> tick_group list" where
  "add_to_groups start price [] = [(start, [price])]"
| "add_to_groups start price ((s, ps) # gs) =
     (if s < start then (start, [price]) # (s, ps) # gs else (s, ps @ [price]) # gs)"

definition summary :: "tick_group \<Rightarrow> candle" where
  "summary g =
     \<lparr>cn_time = fst g, cn_open = hd (snd g), cn_high = Max (set (snd g)), cn_low = Min (set (snd g)),
      cn_close = last (snd g), cn_tick_count = length (snd g)\<rparr>"

text \<open>A tick: epic, bid, ask, time.\<close>

type_synonym tick = "string \<times> quote \<times> quote \<times> secs"

definition feed :: "tick list \<Rightarrow> candle_buffer \<Rightarrow> py_error + candle_buffer" where
  "feed ts b = foldl (\<lambda>r (epic, bid, ask, now). bindE r (on_tick epic bid ask now)) (Inr b) ts"

definition groups_of :: "int \<Rightarrow> string \<Rightarrow> tick list \<Rightarrow> tick_group list" where
  "groups_of period epic ts =
     foldl (\<lambda>gs (e, bid, ask, now).
        if e = epic
        then (case mid_price bid ask of Some p \<Rightarrow> add_to_groups (candle_start period now) p gs | None \<Rightarrow> gs)
        else gs) [] ts"

section \<open>The refinement\<close>

lemma take_last_append: "take_last n (take_last n xs @ [x]) = take_last n (xs @ [x])"
  by (cases "n \<le> length xs") (auto simp: take_last_def Suc_diff_le)

definition represents_groups :: "tick_group list \<Rightarrow> candle_buffer \<Rightarrow> string \<Rightarrow> bool" where
  "represents_groups gs b epic \<longleftrightarrow>
     list_all (\<lambda>g. snd g \<noteq> []) gs \<and>
     (case gs of
        [] \<Rightarrow> closed_candles b epic = None \<and> open_candles b epic = None \<and> tick_count b epic = 0
      | g # rest \<Rightarrow>
          closed_candles b epic = Some (take_last (max_candles b) (map summary (rev rest))) \<and>
          (\<exists>c. open_candles b epic = Some c \<and> to_dict c = summary g) \<and>
          tick_counts b epic = Some (sum_list (map (length \<circ> snd) gs)))"

lemma to_dict_new [simp]: "to_dict (new_candle start price) = summary (start, [price])"
  by (simp add: to_dict_def new_candle_def summary_def)

lemma to_dict_update:
  "to_dict c = summary (s, ps) \<Longrightarrow> ps \<noteq> [] \<Longrightarrow> to_dict (update_candle price c) = summary (s, ps @ [price])"
proof -
  assume c: "to_dict c = summary (s, ps)" and ne: "ps \<noteq> []"
  define M m where "M = Max (set ps)" and "m = Min (set ps)"
  have "Max (set (ps @ [price])) = (if M < price then price else M)"
    "Min (set (ps @ [price])) = (if price < m then price else m)"
    using ne by (simp_all add: Max_insert Min_insert M_def[symmetric] m_def[symmetric] max_def min_def)
  then show ?thesis using c ne
    by (simp add: to_dict_def update_candle_def summary_def M_def[symmetric] m_def[symmetric])
qed

lemma to_dict_start: "to_dict c = summary (s, ps) \<Longrightarrow> period_start c = s"
  by (simp add: to_dict_def summary_def)

lemma on_tick_frame:
  assumes "on_tick epic bid ask now b = Inr b'"
  shows "max_candles b' = max_candles b" "candle_period b' = candle_period b"
    "e \<noteq> epic \<Longrightarrow> closed_candles b' e = closed_candles b e \<and> open_candles b' e = open_candles b e \<and>
       tick_counts b' e = tick_counts b e"
  using assms by (auto simp: on_tick_def Let_def split: option.splits if_splits)

lemma on_tick_refines:
  assumes "represents_groups gs b epic" "mid_price bid ask = Some p" "candle_period b \<noteq> 0"
  shows "\<exists>b'. on_tick epic bid ask now b = Inr b' \<and>
    represents_groups (add_to_groups (candle_start (candle_period b) now) p gs) b' epic"
proof (cases gs)
  case Nil
  then show ?thesis using assms
    by (simp add: represents_groups_def on_tick_def Let_def take_last_def)
next
  case (Cons g rest)
  obtain s ps where g: "g = (s, ps)" by (cases g)
  obtain c where c: "open_candles b epic = Some c" "to_dict c = summary (s, ps)" and ne: "ps \<noteq> []"
    and k: "closed_candles b epic = Some (take_last (max_candles b) (map summary (rev rest)))"
      "tick_counts b epic = Some (sum_list (map (length \<circ> snd) gs))"
      "list_all (\<lambda>g. snd g \<noteq> []) rest"
    using assms(1) by (auto simp: represents_groups_def Cons g)
  show ?thesis
  proof (cases "s < candle_start (candle_period b) now")
    case True
    then show ?thesis using assms(2,3) c k ne to_dict_start[OF c(2)]
      by (simp add: represents_groups_def on_tick_def Let_def Cons g take_last_append)
  next
    case False
    then show ?thesis using assms(2,3) c k ne to_dict_start[OF c(2)] to_dict_update[OF c(2) ne, of p]
      by (simp add: represents_groups_def on_tick_def Let_def Cons g)
  qed
qed

lemma on_tick_skips: "mid_price bid ask = None \<Longrightarrow> on_tick epic bid ask now b = Inr b"
  by (simp add: on_tick_def)

lemma represents_frame:
  assumes "represents_groups gs b e" "max_candles b' = max_candles b" "closed_candles b' e = closed_candles b e"
    "open_candles b' e = open_candles b e" "tick_counts b' e = tick_counts b e"
  shows "represents_groups gs b' e"
  using assms by (cases gs) (simp_all add: represents_groups_def tick_count_def)

lemma feed_snoc: "feed (ts @ [(e, bid, ask, now)]) b = bindE (feed ts b) (on_tick e bid ask now)"
  by (simp add: feed_def)

lemma groups_snoc:
  "groups_of period epic (ts @ [(e, bid, ask, now)]) =
     (if e = epic
      then (case mid_price bid ask of
              Some p \<Rightarrow> add_to_groups (candle_start period now) p (groups_of period epic ts)
            | None \<Rightarrow> groups_of period epic ts)
      else groups_of period epic ts)"
  by (cases "mid_price bid ask") (simp_all add: groups_of_def)

lemma feed_refines:
  assumes "candle_period (candle_buffer_init period n) = per" "per \<noteq> 0"
  shows "\<exists>b. feed ts (candle_buffer_init period n) = Inr b \<and>
    candle_period b = per \<and> max_candles b = max_candles (candle_buffer_init period n) \<and>
    (\<forall>epic. represents_groups (groups_of per epic ts) b epic)"
proof (induction ts rule: rev_induct)
  case Nil
  show ?case using assms(1)
    by (simp add: feed_def groups_of_def represents_groups_def candle_buffer_init_def tick_count_def)
next
  case (snoc x ts)
  obtain e bid ask now where x: "x = (e, bid, ask, now)" by (rule prod_cases4)
  from snoc.IH obtain b where b: "feed ts (candle_buffer_init period n) = Inr b" "candle_period b = per"
    "max_candles b = max_candles (candle_buffer_init period n)"
    "\<And>epic. represents_groups (groups_of per epic ts) b epic" by blast
  show ?case
  proof (cases "mid_price bid ask")
    case None
    then show ?thesis using b by (simp add: x feed_snoc groups_snoc on_tick_skips)
  next
    case (Some p)
    obtain b' where b': "on_tick e bid ask now b = Inr b'"
      "represents_groups (add_to_groups (candle_start per now) p (groups_of per e ts)) b' e"
      using on_tick_refines[OF b(4) Some] b(2) assms(2) by auto
    note f = on_tick_frame[OF b'(1)]
    have "represents_groups (groups_of per epic ts) b' epic" if "epic \<noteq> e" for epic
      using represents_frame[OF b(4) f(1)] f(3)[OF that] by blast
    then show ?thesis using b(1-3) b' f(1,2) Some by (simp add: x feed_snoc groups_snoc)
  qed
qed

lemma take_last_rev: "take_last n (rev xs) = rev (take n xs)"
  by (cases "n \<le> length xs") (simp_all add: take_last_def drop_rev)

lemma take_last_map: "take_last n (map f xs) = map f (take_last n xs)"
  by (simp add: take_last_def drop_map)

lemma get_candles_groups:
  "represents_groups gs b epic \<Longrightarrow>
     get_candles b epic True = map summary (rev (take (Suc (max_candles b)) gs)) \<and>
     tick_count b epic = sum_list (map (length \<circ> snd) gs)"
  by (cases gs)
    (auto simp: represents_groups_def get_candles_def tick_count_def take_last_map take_last_rev)

section \<open>What the buffer guarantees\<close>

text \<open>
  Claim C23: with a non-zero period, feeding any ticks of any instruments never raises, and the
  candles of an instrument, the open one included, are exactly the summaries (first, maximum,
  minimum, last, number) of its valid ticks grouped by period: the newest group and as many
  older ones as configured, oldest first; the tick counter is the number of valid ticks.
\<close>

theorem candles_summarise_ticks:
  assumes "candle_period (candle_buffer_init period n) = per" "per \<noteq> 0"
  shows "\<exists>b. feed ts (candle_buffer_init period n) = Inr b \<and>
    get_candles b epic True =
      map summary (rev (take (Suc (max_candles (candle_buffer_init period n))) (groups_of per epic ts))) \<and>
    tick_count b epic = sum_list (map (length \<circ> snd) (groups_of per epic ts))"
  using feed_refines[OF assms, of ts] get_candles_groups by metis

definition sample_ticks :: "tick list" where
  "sample_ticks =
     [(''E'', Price 1, Price 2, 61), (''E'', Price 3, NoQuote, 100), (''F'', Price 9, NoQuote, 110),
      (''E'', NoQuote, Price 2, 125), (''E'', BadQuote, Price 7, 126), (''E'', Price 1, NoQuote, 119)]"

theorem candles_summarise_ticks_witness:
  "\<exists>b. feed sample_ticks (candle_buffer_init None None) = Inr b \<and>
     get_candles b ''E'' True = map summary [(60, [3 / 2, 3]), (120, [2, 1])]"
proof -
  have "candle_start 60 61 = 60" "candle_start 60 100 = 60" "candle_start 60 125 = 120" "candle_start 60 119 = 60"
    "mid_price (Price 1) (Price 2) = Some (3 / 2)" by code_simp+
  then have g: "groups_of 60 ''E'' sample_ticks = [(120, [2, 1]), (60, [3 / 2, 3])]"
    by (simp add: groups_of_def sample_ticks_def)
  have "candle_period (candle_buffer_init None None) = 60"
    by (simp add: candle_buffer_init_def DEFAULT_CANDLE_PERIOD_SECONDS_def)
  from candles_summarise_ticks[OF this, of sample_ticks "''E''"] show ?thesis
    by (auto simp: g candle_buffer_init_def DEFAULT_MAX_CANDLES_def)
qed

lemma groups_sorted:
  "sorted_wrt (\<lambda>g h. fst h < fst g) (groups_of period epic ts) \<and>
   list_all (\<lambda>g. snd g \<noteq> []) (groups_of period epic ts)"
proof (induction ts rule: rev_induct)
  case Nil
  show ?case by (simp add: groups_of_def)
next
  case (snoc x ts)
  obtain e bid ask now where x: "x = (e, bid, ask, now)" by (rule prod_cases4)
  show ?case using snoc.IH
    by (cases "groups_of period epic ts") (force simp: x groups_snoc split: option.split)+
qed

text \<open>
  Claim: the candles returned for an instrument are in strictly increasing order of their
  period, each contains at least one tick and has its low below and its high above its open and
  close, and there is at most one more than the configured number.
\<close>

theorem candles_well_formed:
  assumes "feed ts (candle_buffer_init period n) = Inr b" "candle_period (candle_buffer_init period n) \<noteq> 0"
  shows "sorted_wrt (\<lambda>c d. cn_time c < cn_time d) (get_candles b epic True) \<and>
    list_all (\<lambda>c. cn_low c \<le> cn_open c \<and> cn_low c \<le> cn_close c \<and> cn_open c \<le> cn_high c \<and>
                  cn_close c \<le> cn_high c \<and> 0 < cn_tick_count c) (get_candles b epic True) \<and>
    length (get_candles b epic True) \<le> Suc (max_candles (candle_buffer_init period n))"
proof -
  define gs where "gs = take (Suc (max_candles b)) (groups_of (candle_period (candle_buffer_init period n)) epic ts)"
  have b: "get_candles b epic True = map summary (rev gs)"
    "max_candles b = max_candles (candle_buffer_init period n)"
    using feed_refines[OF refl assms(2), of ts] assms(1) get_candles_groups
    by (auto simp: gs_def simp del: take_Suc_Cons) metis
  have s: "sorted_wrt (\<lambda>g h. fst h < fst g) gs" "list_all (\<lambda>g. snd g \<noteq> []) gs"
    using groups_sorted[of "candle_period (candle_buffer_init period n)" epic ts] unfolding gs_def
    by (auto simp: sorted_wrt_take list_all_iff dest!: in_set_takeD)
  have "sorted_wrt (\<lambda>c d. cn_time c < cn_time d) (map summary (rev gs))"
    using s(1) by (simp add: sorted_wrt_map sorted_wrt_rev summary_def)
  moreover have "list_all (\<lambda>c. cn_low c \<le> cn_open c \<and> cn_low c \<le> cn_close c \<and> cn_open c \<le> cn_high c \<and>
      cn_close c \<le> cn_high c \<and> 0 < cn_tick_count c) (map summary (rev gs))"
    using s(2) by (auto simp: list_all_iff summary_def)
  ultimately show ?thesis using b by (simp add: gs_def)
qed

theorem candles_well_formed_witness:
  "\<exists>b. feed sample_ticks (candle_buffer_init None (Some 1)) = Inr b \<and> length (get_candles b ''E'' True) \<le> 2 \<and>
     sorted_wrt (\<lambda>c d. cn_time c < cn_time d) (get_candles b ''E'' True)"
proof -
  have p: "candle_period (candle_buffer_init None (Some 1)) \<noteq> 0"
    by (simp add: candle_buffer_init_def DEFAULT_CANDLE_PERIOD_SECONDS_def)
  obtain b where b: "feed sample_ticks (candle_buffer_init None (Some 1)) = Inr b"
    using feed_refines[OF refl p] by blast
  from candles_well_formed[OF b p, of "''E''"] b show ?thesis
    by (auto simp: candle_buffer_init_def)
qed

end
