(* ===== verification/Kill_Switch.thy ===== *)
theory Kill_Switch
  imports Constants
begin

text \<open>
  The emergency kill switch, \<open>src/risk/kill_switch.py\<close>: its state, the four evaluators, the
  single activation handler under the asyncio lock, deactivation after the minimum active
  duration, and closing all positions with retries.  The contract a gate for trade signals
  keeps is the locale \<open>signal_gate\<close>; the interleaving of activations, their pending publication
  and deactivations is the step relation \<open>ks_step\<close>.

  The event publisher, the broker call that closes a position and the clock are arguments.
\<close>

section \<open>State\<close>

datatype kill_switch_state = INACTIVE | ACTIVE | COOLDOWN

record kill_switch_activation_event =
  ev_reason :: fmsg
  ev_timestamp :: micros
  ev_trigger_source :: string

record trigger_record =
  tr_trigger_source :: string
  tr_reason :: fmsg
  tr_timestamp :: micros
  tr_activated :: bool

record kill_switch =
  ks_state :: kill_switch_state
  activation_reason :: fmsg
  activation_time :: "micros option"
  activation_event :: "kill_switch_activation_event option"
  min_active_duration :: micros
  close_timeout_seconds :: int
  retry_count :: int
  retry_interval_seconds :: pyfloat
  trigger_sources :: "trigger_record list"
  has_publisher :: bool

definition kill_switch_init ::
  "int option \<Rightarrow> int option \<Rightarrow> int \<Rightarrow> pyfloat \<Rightarrow> bool \<Rightarrow> kill_switch" where
  "kill_switch_init close_timeout min_active retries interval publisher =
     \<lparr>ks_state = INACTIVE,
      activation_reason = FMsg '''' [],
      activation_time = None,
      activation_event = None,
      min_active_duration =
        minutes (case min_active of Some m \<Rightarrow> m | None \<Rightarrow> KILL_SWITCH_MIN_ACTIVE_MINUTES),
      close_timeout_seconds =
        (case close_timeout of Some c \<Rightarrow> c | None \<Rightarrow> KILL_SWITCH_CLOSE_TIMEOUT_SECONDS),
      retry_count = retries,
      retry_interval_seconds = interval,
      trigger_sources = [],
      has_publisher = publisher\<rparr>"

section \<open>Queries\<close>

definition is_active :: "kill_switch \<Rightarrow> bool" where
  "is_active k \<longleftrightarrow> ks_state k = ACTIVE"

definition can_deactivate :: "kill_switch \<Rightarrow> micros \<Rightarrow> bool" where
  "can_deactivate k now =
     (case activation_time k of
        None \<Rightarrow> False
      | Some t \<Rightarrow> is_active k \<and> min_active_duration k \<le> now - t)"

definition is_signal_allowed :: "kill_switch \<Rightarrow> string \<Rightarrow> bool" where
  "is_signal_allowed k source = (\<not> is_active k)"

record kill_switch_status =
  st_active :: bool
  st_reason :: fmsg
  st_activation_time :: "micros option"
  st_duration :: "micros option"
  st_can_deactivate :: bool

text \<open>The two clock readings of \<open>get_status\<close>: for the duration, then inside \<open>can_deactivate\<close>.\<close>

definition get_status :: "kill_switch \<Rightarrow> micros \<Rightarrow> micros \<Rightarrow> kill_switch_status" where
  "get_status k now1 now2 =
     \<lparr>st_active = is_active k,
      st_reason = activation_reason k,
      st_activation_time = activation_time k,
      st_duration =
        (case activation_time k of
           None \<Rightarrow> None
         | Some t \<Rightarrow> if is_active k then Some (now1 - t) else None),
      st_can_deactivate = can_deactivate k now2\<rparr>"

section \<open>Activation\<close>

text \<open>What is handed to the event publisher: channel, trigger source, reason, time.\<close>

datatype published = Published string string fmsg micros

text \<open>
  The body under the lock.  The result is the returned flag, the new state and the publication
  attempts; an exception of the publisher is logged and changes neither the flag nor the state.
\<close>

definition activate ::
  "fmsg \<Rightarrow> string \<Rightarrow> micros \<Rightarrow> kill_switch \<Rightarrow> bool \<times> kill_switch \<times> published list" where
  "activate reason source now k =
     (let r = \<lparr>tr_trigger_source = source, tr_reason = reason,
               tr_timestamp = now, tr_activated = False\<rparr>
      in if is_active k
         then (False, k\<lparr>trigger_sources := trigger_sources k @ [r]\<rparr>, [])
         else (True,
               k\<lparr>trigger_sources := trigger_sources k @ [r\<lparr>tr_activated := True\<rparr>],
                 ks_state := ACTIVE,
                 activation_reason := reason,
                 activation_time := Some now,
                 activation_event := Some \<lparr>ev_reason = reason, ev_timestamp = now,
                                          ev_trigger_source = source\<rparr>\<rparr>,
               if has_publisher k
               then [Published ''kill_switch.activated'' source reason now] else []))"

definition evaluate_vix ::
  "pyfloat \<Rightarrow> pyfloat \<Rightarrow> pyfloat \<Rightarrow> micros \<Rightarrow> kill_switch
   \<Rightarrow> bool \<times> kill_switch \<times> published list" where
  "evaluate_vix vix mean sd now k =
     (let threshold = f_add mean (f_mul 3 sd)
      in if threshold < vix
         then activate (FMsg ''VIX {:.2f} exceeds 3-sigma threshold {:.2f} (mean={:.2f}, std={:.2f})''
                          [FNum vix, FNum threshold, FNum mean, FNum sd]) ''vix'' now k
         else (False, k, []))"

definition evaluate_portfolio_loss ::
  "pyfloat \<Rightarrow> micros \<Rightarrow> kill_switch \<Rightarrow> bool \<times> kill_switch \<times> published list" where
  "evaluate_portfolio_loss loss now k =
     (if flt (1/5) < loss
      then activate (FMsg ''Portfolio loss {:.1f}% in 24h exceeds 20% threshold'' [FNum (f_mul loss 100)])
             ''portfolio_loss'' now k
      else (False, k, []))"

definition evaluate_drawdown ::
  "pyfloat \<Rightarrow> micros \<Rightarrow> kill_switch \<Rightarrow> bool \<times> kill_switch \<times> published list" where
  "evaluate_drawdown drawdown now k =
     (if flt (3/20) < drawdown
      then activate (FMsg ''Drawdown {:.1f}% from peak exceeds 15% threshold'' [FNum (f_mul drawdown 100)])
             ''drawdown'' now k
      else (False, k, []))"

definition evaluate_crisis_persistence ::
  "string \<Rightarrow> pyfloat \<Rightarrow> micros \<Rightarrow> kill_switch \<Rightarrow> bool \<times> kill_switch \<times> published list" where
  "evaluate_crisis_persistence region persisted now k =
     (if 30 \<le> persisted
      then activate (FMsg ''News crisis in region '{}' persisted for {:.0f} minutes without recovery''
                       [FStr region, FNum persisted]) ''crisis'' now k
      else (False, k, []))"

section \<open>Deactivation\<close>

text \<open>The ASCII characters \<open>str.strip\<close> removes; \<open>not token.strip()\<close> holds when nothing else is left.\<close>

definition py_space :: "char \<Rightarrow> bool" where
  "py_space c \<longleftrightarrow>
     (let n = of_char c :: nat in n = 32 \<or> (9 \<le> n \<and> n \<le> 13) \<or> (28 \<le> n \<and> n \<le> 31))"

definition deactivate :: "string \<Rightarrow> micros \<Rightarrow> kill_switch \<Rightarrow> py_error + (bool \<times> kill_switch)" where
  "deactivate token now k =
     (if list_all py_space token
      then Inl (ValueError ''Confirmation token is required for deactivation'')
      else if \<not> is_active k then Inr (False, k)
      else if \<not> can_deactivate k now then Inr (False, k)
      else Inr (True, k\<lparr>ks_state := INACTIVE\<rparr>))"

section \<open>Closing all positions\<close>

text \<open>
  What one awaited call of \<open>close_fn\<close> under \<open>asyncio.wait_for\<close> can do.  The call and the sleep
  between attempts act on a world of any type.
\<close>

datatype close_outcome = Returned bool | TimedOut | Raised string

record position_close_result =
  cr_position_id :: string
  cr_success :: bool
  cr_attempts :: int
  cr_error :: "fmsg option"

record close_all_result =
  ca_total_positions :: nat
  ca_closed_successfully :: nat
  ca_failed_positions :: "position_close_result list"

definition max_attempts :: "kill_switch \<Rightarrow> int" where
  "max_attempts k = 1 + retry_count k"

definition attempt_error :: "kill_switch \<Rightarrow> int \<Rightarrow> close_outcome \<Rightarrow> fmsg" where
  "attempt_error k attempt out =
     (case out of
        Returned _ \<Rightarrow> FMsg ''close_fn returned False'' []
      | TimedOut \<Rightarrow> FMsg ''Timeout after {}s on attempt {}''
                      [FInt (close_timeout_seconds k), FInt attempt]
      | Raised e \<Rightarrow> FMsg ''Error on attempt {}: {}'' [FInt attempt, FStr e])"

text \<open>The \<open>for attempt in range(1, max_attempts + 1)\<close> loop: \<open>n\<close> attempts remain.\<close>

fun close_attempts ::
  "('p \<Rightarrow> 'w \<Rightarrow> close_outcome \<times> 'w) \<Rightarrow> (pyfloat \<Rightarrow> 'w \<Rightarrow> 'w) \<Rightarrow> kill_switch \<Rightarrow> string \<Rightarrow> 'p
   \<Rightarrow> nat \<Rightarrow> int \<Rightarrow> fmsg option \<Rightarrow> 'w \<Rightarrow> position_close_result \<times> 'w" where
  "close_attempts close sleep k pid p 0 attempt err w =
     (\<lparr>cr_position_id = pid, cr_success = False, cr_attempts = max_attempts k, cr_error = err\<rparr>, w)"
| "close_attempts close sleep k pid p (Suc n) attempt err w =
     (case close p w of (out, w1) \<Rightarrow>
        if out = Returned True
        then (\<lparr>cr_position_id = pid, cr_success = True, cr_attempts = attempt, cr_error = None\<rparr>, w1)
        else close_attempts close sleep k pid p n (attempt + 1) (Some (attempt_error k attempt out))
               (if attempt < max_attempts k then sleep (retry_interval_seconds k) w1 else w1))"

definition close_single_position ::
  "('p \<Rightarrow> 'w \<Rightarrow> close_outcome \<times> 'w) \<Rightarrow> (pyfloat \<Rightarrow> 'w \<Rightarrow> 'w) \<Rightarrow> kill_switch \<Rightarrow> string \<Rightarrow> 'p \<Rightarrow> 'w
   \<Rightarrow> position_close_result \<times> 'w" where
  "close_single_position close sleep k pid p w =
     close_attempts close sleep k pid p (nat (max_attempts k)) 1 None w"

fun close_each ::
  "('p \<Rightarrow> 'w \<Rightarrow> close_outcome \<times> 'w) \<Rightarrow> (pyfloat \<Rightarrow> 'w \<Rightarrow> 'w) \<Rightarrow> ('p \<Rightarrow> string) \<Rightarrow> kill_switch
   \<Rightarrow> 'p list \<Rightarrow> 'w \<Rightarrow> position_close_result list \<times> 'w" where
  "close_each close sleep pos_id k [] w = ([], w)"
| "close_each close sleep pos_id k (p # ps) w =
     (case close_single_position close sleep k (pos_id p) p w of (r, w1) \<Rightarrow>
        case close_each close sleep pos_id k ps w1 of (rs, w2) \<Rightarrow> (r # rs, w2))"

definition close_all_positions ::
  "('p \<Rightarrow> 'w \<Rightarrow> close_outcome \<times> 'w) \<Rightarrow> (pyfloat \<Rightarrow> 'w \<Rightarrow> 'w) \<Rightarrow> ('p \<Rightarrow> string) \<Rightarrow> kill_switch
   \<Rightarrow> 'p list \<Rightarrow> 'w \<Rightarrow> close_all_result \<times> 'w" where
  "close_all_positions close sleep pos_id k ps w =
     (if ps = []
      then (\<lparr>ca_total_positions = 0, ca_closed_successfully = 0, ca_failed_positions = []\<rparr>, w)
      else case close_each close sleep pos_id k ps w of (rs, w1) \<Rightarrow>
        (\<lparr>ca_total_positions = length ps,
          ca_closed_successfully = length (filter cr_success rs),
          ca_failed_positions = filter (\<lambda>r. \<not> cr_success r) rs\<rparr>, w1))"

section \<open>The contract of a signal gate\<close>

text \<open>
  What the clients of the kill switch rely on: tripping closes the gate, only a release can
  open it, and no release opens it before it has been held for the minimum time.
\<close>

datatype gate_op = Trip fmsg string micros | Release string micros

fun op_time :: "gate_op \<Rightarrow> micros" where
  "op_time (Trip r s t) = t"
| "op_time (Release tok t) = t"

locale signal_gate =
  fixes allowed :: "'k \<Rightarrow> bool"
    and trip :: "fmsg \<Rightarrow> string \<Rightarrow> micros \<Rightarrow> 'k \<Rightarrow> 'k"
    and release :: "string \<Rightarrow> micros \<Rightarrow> 'k \<Rightarrow> 'k"
    and since :: "'k \<Rightarrow> micros"
    and hold :: "'k \<Rightarrow> micros"
  assumes trip_closes: "\<not> allowed (trip r s t k)"
    and trip_since: "since (trip r s t k) = (if allowed k then t else since k)"
    and trip_hold: "hold (trip r s t k) = hold k"
    and release_early: "\<not> allowed k \<Longrightarrow> t < since k + hold k \<Longrightarrow> release tok t k = k"
begin

definition apply_op :: "gate_op \<Rightarrow> 'k \<Rightarrow> 'k" where
  "apply_op p k = (case p of Trip r s t \<Rightarrow> trip r s t k | Release tok t \<Rightarrow> release tok t k)"

lemma closed_step:
  assumes "\<not> allowed k" "op_time p < since k + hold k"
  shows "\<not> allowed (apply_op p k) \<and> since (apply_op p k) = since k \<and> hold (apply_op p k) = hold k"
  using assms by (cases p) (simp_all add: apply_op_def trip_closes trip_since trip_hold release_early)

text \<open>A closed gate stays closed through any operations of the holding period.\<close>

lemma closed_run:
  "\<not> allowed k \<Longrightarrow> \<forall>p \<in> set ps. op_time p < since k + hold k \<Longrightarrow>
     \<not> allowed (fold apply_op ps k) \<and> since (fold apply_op ps k) = since k"
proof (induction ps arbitrary: k)
  case (Cons p ps)
  have s: "\<not> allowed (apply_op p k)" "since (apply_op p k) = since k" "hold (apply_op p k) = hold k"
    using closed_step[of k p] Cons.prems by auto
  show ?case using Cons.IH[OF s(1)] Cons.prems by (simp add: s)
qed simp

end

definition ks_trip :: "fmsg \<Rightarrow> string \<Rightarrow> micros \<Rightarrow> kill_switch \<Rightarrow> kill_switch" where
  "ks_trip r s t k = fst (snd (activate r s t k))"

definition ks_release :: "string \<Rightarrow> micros \<Rightarrow> kill_switch \<Rightarrow> kill_switch" where
  "ks_release tok t k = (case deactivate tok t k of Inl _ \<Rightarrow> k | Inr (_, k') \<Rightarrow> k')"

definition ks_since :: "kill_switch \<Rightarrow> micros" where
  "ks_since k = (case activation_time k of Some t \<Rightarrow> t | None \<Rightarrow> 0)"

named_theorems ks_defs

lemmas [ks_defs] =
  is_active_def is_signal_allowed_def can_deactivate_def activate_def deactivate_def
  ks_trip_def ks_release_def ks_since_def Let_def

fun ks_apply :: "gate_op \<Rightarrow> kill_switch \<Rightarrow> kill_switch" where
  "ks_apply (Trip r s t) k = ks_trip r s t k"
| "ks_apply (Release tok t) k = ks_release tok t k"

interpretation gate: signal_gate "\<lambda>k. is_signal_allowed k src" ks_trip ks_release ks_since min_active_duration
  rewrites "signal_gate.apply_op ks_trip ks_release = ks_apply"
  for src
proof -
  show g: "signal_gate (\<lambda>k. is_signal_allowed k src) ks_trip ks_release ks_since min_active_duration"
    by unfold_locales (auto simp: ks_defs split: option.splits)
  show "signal_gate.apply_op ks_trip ks_release = ks_apply"
    by (intro ext) (simp add: signal_gate.apply_op_def [OF g] split: gate_op.split)
qed

section \<open>Interleavings\<close>

text \<open>
  The lock is held from the start of an activation until its publication has been awaited; an
  activation that does not publish runs to its end without a suspension point.  Deactivation
  takes no lock and has no suspension point, so it is one step and can fall between an
  activation and the end of its publication.  The clock never goes back.  \<open>deactivations\<close> counts
  the successful ones.
\<close>

record ks_system =
  sw :: kill_switch
  lock_held :: bool
  clock :: micros
  deactivations :: nat

inductive ks_step :: "ks_system \<Rightarrow> ks_system \<Rightarrow> bool" where
  activation: "\<not> lock_held s \<Longrightarrow> clock s \<le> now \<Longrightarrow>
     activate reason source now (sw s) = (b, k, pubs) \<Longrightarrow>
     ks_step s (s\<lparr>sw := k, clock := now, lock_held := (pubs \<noteq> [])\<rparr>)"
| publication_done: "lock_held s \<Longrightarrow> clock s \<le> now \<Longrightarrow>
     ks_step s (s\<lparr>lock_held := False, clock := now\<rparr>)"
| deactivation: "clock s \<le> now \<Longrightarrow> deactivate token now (sw s) = Inr (b, k) \<Longrightarrow>
     ks_step s (s\<lparr>sw := k, clock := now,
                  deactivations := (if b then Suc (deactivations s) else deactivations s)\<rparr>)"
| rejected_token: "clock s \<le> now \<Longrightarrow> deactivate token now (sw s) = Inl e \<Longrightarrow>
     ks_step s (s\<lparr>clock := now\<rparr>)"

inductive ks_reachable :: "kill_switch \<Rightarrow> micros \<Rightarrow> ks_system \<Rightarrow> bool" for k0 t0 where
  start: "ks_reachable k0 t0 \<lparr>sw = k0, lock_held = False, clock = t0, deactivations = 0\<rparr>"
| step: "ks_reachable k0 t0 s \<Longrightarrow> ks_step s s' \<Longrightarrow> ks_reachable k0 t0 s'"

text \<open>The times at which the audit trail says an activation took effect.\<close>

definition activation_times :: "kill_switch \<Rightarrow> micros list" where
  "activation_times k = map tr_timestamp (filter tr_activated (trigger_sources k))"

fun spaced :: "micros \<Rightarrow> micros list \<Rightarrow> bool" where
  "spaced d (s # t # ts) = (s + d \<le> t \<and> spaced d (t # ts))"
| "spaced d ts = True"

lemma spaced_snoc: "spaced d (ts @ [t]) \<longleftrightarrow> spaced d ts \<and> (ts \<noteq> [] \<longrightarrow> last ts + d \<le> t)"
  by (induction d ts rule: spaced.induct) auto

text \<open>
  The invariant: an active switch carries the time, the reason and the event of its last
  activation; an inactive one has been held for the minimum duration since then; activations
  and deactivations alternate.
\<close>

definition ks_ok :: "kill_switch \<Rightarrow> bool" where
  "ks_ok k \<longleftrightarrow> ks_state k \<noteq> COOLDOWN \<and>
     (if activation_times k = [] then \<not> is_active k
      else activation_time k = Some (last (activation_times k)) \<and>
           (\<exists>e. activation_event k = Some e \<and> ev_timestamp e = last (activation_times k) \<and>
                ev_reason e = activation_reason k))"

definition ks_system_inv :: "micros \<Rightarrow> ks_system \<Rightarrow> bool" where
  "ks_system_inv d s \<longleftrightarrow>
     ks_ok (sw s) \<and> min_active_duration (sw s) = d \<and> spaced d (activation_times (sw s)) \<and>
     length (activation_times (sw s)) = deactivations s + (if is_active (sw s) then 1 else 0) \<and>
     (activation_times (sw s) \<noteq> [] \<longrightarrow> last (activation_times (sw s)) + (if is_active (sw s) then 0 else d) \<le> clock s)"

lemma activation_times_snoc:
  "activation_times (k\<lparr>trigger_sources := trigger_sources k @ [r]\<rparr>) =
     activation_times k @ (if tr_activated r then [tr_timestamp r] else [])"
  by (simp add: activation_times_def)

lemma activate_cases:
  assumes "activate reason source now k = (b, k', pubs)"
  obtains (duplicate) "is_active k" "\<not> b" "ks_state k' = ks_state k" "activation_time k' = activation_time k"
      "activation_event k' = activation_event k" "activation_reason k' = activation_reason k"
      "activation_times k' = activation_times k" "min_active_duration k' = min_active_duration k"
    | (fresh) "\<not> is_active k" b "ks_state k' = ACTIVE" "activation_time k' = Some now"
      "activation_event k' = Some \<lparr>ev_reason = reason, ev_timestamp = now, ev_trigger_source = source\<rparr>"
      "activation_reason k' = reason" "activation_times k' = activation_times k @ [now]"
      "min_active_duration k' = min_active_duration k"
proof (cases "is_active k")
  case True
  then show ?thesis using assms
    by (intro duplicate) (auto simp: activate_def activation_times_def)
next
  case False
  then show ?thesis using assms
    by (intro fresh) (auto simp: activate_def activation_times_def)
qed

lemma deactivate_cases:
  assumes "deactivate token now k = Inr (b, k')"
  obtains (unchanged) "\<not> b" "k' = k"
    | (released) t where b "is_active k" "activation_time k = Some t" "t + min_active_duration k \<le> now"
      "k' = k\<lparr>ks_state := INACTIVE\<rparr>"
proof (cases "is_active k \<and> can_deactivate k now")
  case True
  then obtain t where "activation_time k = Some t" "t + min_active_duration k \<le> now"
    by (auto simp: can_deactivate_def split: option.splits)
  then show ?thesis using assms True by (intro released) (auto simp: deactivate_def split: if_splits)
next
  case False
  then show ?thesis using assms by (intro unchanged) (auto simp: deactivate_def split: if_splits)
qed

lemma ks_step_inv:
  assumes "ks_step s s'" "ks_system_inv d s"
  shows "ks_system_inv d s'"
  using assms
proof (cases rule: ks_step.cases)
  case (activation now reason source b k pubs)
  from activation(4) show ?thesis
  proof (cases rule: activate_cases)
    case duplicate
    have "is_active k" using duplicate(1,3) by (simp add: is_active_def)
    then show ?thesis using assms(2) activation(1,3) duplicate
      by (simp add: ks_system_inv_def ks_ok_def split: if_splits)
  next
    case fresh
    have "is_active k" using fresh(3) by (simp add: is_active_def)
    then show ?thesis using assms(2) activation(1,3) fresh
      by (simp add: ks_system_inv_def ks_ok_def spaced_snoc) linarith
  qed
next
  case (publication_done now)
  then show ?thesis using assms(2) by (auto simp: ks_system_inv_def)
next
  case (deactivation now token b k)
  from deactivation(3) show ?thesis
  proof (cases rule: deactivate_cases)
    case unchanged
    then show ?thesis using assms(2) deactivation(1,2) by (auto simp: ks_system_inv_def)
  next
    case (released t)
    then show ?thesis using assms(2) deactivation(1,2)
      by (auto simp: ks_system_inv_def ks_ok_def is_active_def activation_times_def)
  qed
next
  case (rejected_token now token e)
  then show ?thesis using assms(2) by (auto simp: ks_system_inv_def)
qed

lemma ks_reachable_inv:
  assumes "ks_reachable (kill_switch_init ct md rc ri pub) t0 s"
  shows "ks_system_inv (min_active_duration (kill_switch_init ct md rc ri pub)) s"
  using assms
proof (induction rule: ks_reachable.induct)
  case start
  show ?case by (simp add: ks_system_inv_def ks_ok_def activation_times_def kill_switch_init_def is_active_def)
next
  case (step s s')
  then show ?case by (blast intro: ks_step_inv)
qed

section \<open>What the kill switch guarantees\<close>

text \<open>Several triggers handled one after the other, as the lock orders them.\<close>

fun activate_many :: "(fmsg \<times> string \<times> micros) list \<Rightarrow> kill_switch \<Rightarrow> bool list \<times> kill_switch" where
  "activate_many [] k = ([], k)"
| "activate_many ((r, src, t) # ts) k =
     (case activate r src t k of (b, k1, _) \<Rightarrow>
        case activate_many ts k1 of (bs, k2) \<Rightarrow> (b # bs, k2))"

lemma activate_many_active:
  "is_active k \<Longrightarrow> activate_many ts k =
     (replicate (length ts) False,
      k\<lparr>trigger_sources := trigger_sources k @
          map (\<lambda>(r, src, t). \<lparr>tr_trigger_source = src, tr_reason = r, tr_timestamp = t, tr_activated = False\<rparr>) ts\<rparr>)"
proof (induction ts arbitrary: k)
  case (Cons a ts)
  obtain r src t where a: "a = (r, src, t)" by (cases a)
  define k1 where "k1 = k\<lparr>trigger_sources := trigger_sources k @
      [\<lparr>tr_trigger_source = src, tr_reason = r, tr_timestamp = t, tr_activated = False\<rparr>]\<rparr>"
  have k1: "activate r src t k = (False, k1, [])"
    using Cons.prems by (simp add: activate_def k1_def)
  have "is_active k1" using Cons.prems by (simp add: k1_def is_active_def)
  from Cons.IH[OF this] show ?case by (simp add: a k1) (simp add: k1_def)
qed simp

lemma ks_apply_min_active [simp]: "min_active_duration (ks_apply p k) = min_active_duration k"
  by (cases p) (auto simp: ks_defs split: option.splits)

text \<open>The outcomes of the calls \<open>close_attempts\<close> makes.\<close>

fun call_trace ::
  "('p \<Rightarrow> 'w \<Rightarrow> close_outcome \<times> 'w) \<Rightarrow> (pyfloat \<Rightarrow> 'w \<Rightarrow> 'w) \<Rightarrow> kill_switch \<Rightarrow> 'p
   \<Rightarrow> nat \<Rightarrow> int \<Rightarrow> 'w \<Rightarrow> close_outcome list" where
  "call_trace close sleep k p 0 attempt w = []"
| "call_trace close sleep k p (Suc n) attempt w =
     (case close p w of (out, w1) \<Rightarrow>
        out # (if out = Returned True then []
               else call_trace close sleep k p n (attempt + 1)
                      (if attempt < max_attempts k then sleep (retry_interval_seconds k) w1 else w1)))"

lemma length_call_trace: "length (call_trace close sleep k p n attempt w) \<le> n"
  by (induction n arbitrary: attempt w) (auto split: prod.split)

lemma close_attempts_trace:
  "fst (close_attempts close sleep k pid p n attempt err w) =
     (let outs = call_trace close sleep k p n attempt w in
      if Returned True \<in> set outs
      then \<lparr>cr_position_id = pid, cr_success = True,
            cr_attempts = attempt + int (length outs) - 1, cr_error = None\<rparr>
      else \<lparr>cr_position_id = pid, cr_success = False, cr_attempts = max_attempts k,
            cr_error = (if outs = [] then err
                        else Some (attempt_error k (attempt + int (length outs) - 1) (last outs)))\<rparr>)"
proof (induction n arbitrary: attempt err w)
  case (Suc n)
  obtain out w1 where c: "close p w = (out, w1)" by (cases "close p w")
  show ?case
  proof (cases "out = Returned True")
    case True
    then show ?thesis by (simp add: c)
  next
    case False
    define w2 where "w2 = (if attempt < max_attempts k then sleep (retry_interval_seconds k) w1 else w1)"
    show ?thesis
      using False Suc.IH[of "attempt + 1" "Some (attempt_error k attempt out)" w2]
      by (simp add: c w2_def[symmetric] Let_def add.commute add.left_commute)
  qed
qed simp

lemma call_trace_full:
  "Returned True \<notin> set (call_trace close sleep k p n attempt w) \<Longrightarrow>
   length (call_trace close sleep k p n attempt w) = n"
  by (induction n arbitrary: attempt w) (auto split: prod.splits if_splits)

lemma call_trace_Nil [simp]: "call_trace close sleep k p n attempt w = [] \<longleftrightarrow> n = 0"
  by (cases n) (auto split: prod.split)

lemma length_close_each: "length (fst (close_each close sleep pos_id k ps w)) = length ps"
  by (induction ps arbitrary: w) (simp_all add: case_prod_beta)

lemma close_each_results:
  "r \<in> set (fst (close_each close sleep pos_id k ps w)) \<Longrightarrow>
     \<exists>p \<in> set ps. \<exists>w'. r = fst (close_single_position close sleep k (pos_id p) p w')"
proof (induction ps arbitrary: w)
  case (Cons p ps)
  then show ?case
    by (auto split: prod.splits) (metis fst_conv)+
qed simp

text \<open>
  Claim C11: in every reachable state of the kill switch, under any interleaving of triggers,
  pending publications and deactivations, two activations recorded in the audit trail are at
  least the minimum active duration apart, and there is exactly one more activation than
  successful deactivations while the switch is active and equally many otherwise.
\<close>

theorem activations_spaced:
  assumes "ks_reachable (kill_switch_init ct md rc ri pub) t0 s"
  shows "spaced (min_active_duration (kill_switch_init ct md rc ri pub)) (activation_times (sw s)) \<and>
    length (activation_times (sw s)) = deactivations s + (if is_active (sw s) then 1 else 0)"
  using ks_reachable_inv[OF assms] by (simp add: ks_system_inv_def)

theorem activations_spaced_witness:
  "\<exists>s. ks_reachable (kill_switch_init None None 3 5 True) 0 s \<and> is_active (sw s) \<and>
     length (activation_times (sw s)) = deactivations s + 1"
proof -
  let ?k0 = "kill_switch_init None None 3 5 True"
  let ?s0 = "\<lparr>sw = ?k0, lock_held = False, clock = 0, deactivations = 0\<rparr>"
  obtain k where k: "activate (FMsg ''r'' []) ''vix'' 7 ?k0 =
      (True, k, [Published ''kill_switch.activated'' ''vix'' (FMsg ''r'' []) 7])" "is_active k"
    by (simp add: activate_def kill_switch_init_def is_active_def)
  have "ks_step ?s0 (?s0\<lparr>sw := k, clock := 7, lock_held := True\<rparr>)"
    using ks_step.activation[of ?s0 7 "FMsg ''r'' []" "''vix''"] k by simp
  then have r: "ks_reachable ?k0 0 (?s0\<lparr>sw := k, clock := 7, lock_held := True\<rparr>)"
    by (rule ks_reachable.step[OF ks_reachable.start])
  from activations_spaced[OF r] k(2) r show ?thesis by (intro exI[of _ "?s0\<lparr>sw := k, clock := 7, lock_held := True\<rparr>"]) simp
qed

text \<open>
  Claim: while the kill switch is active and the minimum active duration has not elapsed, no
  sequence of further triggers and deactivation attempts, with any token, lets a signal of any
  source through.
\<close>

theorem gate_held_for_minimum:
  assumes "is_active k" "\<forall>p \<in> set ps. op_time p < ks_since k + min_active_duration k"
  shows "\<not> is_signal_allowed (fold ks_apply ps k) source"
  using gate.closed_run[of k source ps] assms by (simp add: is_signal_allowed_def)

theorem gate_held_for_minimum_witness:
  "\<not> is_signal_allowed
      (fold ks_apply [Release ''ok'' 299999999, Trip (FMsg ''again'' []) ''drawdown'' 1]
        (ks_trip (FMsg ''r'' []) ''vix'' 0 (kill_switch_init None None 3 5 False))) ''hft''"
  by (rule gate_held_for_minimum)
    (simp_all add: ks_defs kill_switch_init_def minutes_def KILL_SWITCH_MIN_ACTIVE_MINUTES_def)

text \<open>
  Claim: when several triggers fire at an inactive switch, exactly the first one activates
  it: its reason, time and event are recorded, every later trigger returns False and only adds
  an inactive record to the audit trail, in order.
\<close>

theorem first_trigger_wins:
  assumes "\<not> is_active k"
  shows "activate_many ((r, src, t) # ts) k =
    (True # replicate (length ts) False,
     k\<lparr>trigger_sources := trigger_sources k @
         \<lparr>tr_trigger_source = src, tr_reason = r, tr_timestamp = t, tr_activated = True\<rparr> #
         map (\<lambda>(r', src', t'). \<lparr>tr_trigger_source = src', tr_reason = r', tr_timestamp = t', tr_activated = False\<rparr>) ts,
       ks_state := ACTIVE, activation_reason := r, activation_time := Some t,
       activation_event := Some \<lparr>ev_reason = r, ev_timestamp = t, ev_trigger_source = src\<rparr>\<rparr>)"
  using assms by (simp add: activate_def activate_many_active is_active_def)

theorem first_trigger_wins_witness:
  "fst (activate_many [(FMsg ''a'' [], ''vix'', 1), (FMsg ''b'' [], ''crisis'', 2)]
     (kill_switch_init None None 3 5 True)) = [True, False]"
  by (subst first_trigger_wins) (simp_all add: kill_switch_init_def is_active_def)

text \<open>
  Claim: closing one position makes at most one plus the configured number of retries
  broker calls, stops at the first call that returns True and then reports success with that
  attempt number; without such a call it reports failure after exactly the configured number of
  attempts, with the error of the last one.
\<close>

theorem close_single_position_spec:
  "fst (close_single_position close sleep k pid p w) =
     (let n = nat (max_attempts k); outs = call_trace close sleep k p n 1 w in
      if Returned True \<in> set outs
      then \<lparr>cr_position_id = pid, cr_success = True, cr_attempts = int (length outs), cr_error = None\<rparr>
      else \<lparr>cr_position_id = pid, cr_success = False, cr_attempts = max_attempts k,
            cr_error = (if n = 0 then None else Some (attempt_error k (int n) (last outs)))\<rparr>)
   \<and> length (call_trace close sleep k p (nat (max_attempts k)) 1 w) \<le> nat (max_attempts k)"
  by (auto simp: close_single_position_def close_attempts_trace length_call_trace call_trace_full Let_def)

text \<open>
  Claim: closing all positions accounts for every one of them: closed plus failed is the
  total, and each failed entry is a position that was not closed in any of the allowed attempts.
\<close>

theorem close_all_positions_accounts:
  "let (res, w') = close_all_positions close sleep pos_id k ps w in
     ca_total_positions res = length ps \<and>
     ca_closed_successfully res + length (ca_failed_positions res) = ca_total_positions res \<and>
     list_all (\<lambda>r. \<not> cr_success r \<and> cr_attempts r = max_attempts k \<and> cr_position_id r \<in> pos_id ` set ps)
       (ca_failed_positions res)"
proof (cases "ps = []")
  case True
  then show ?thesis by (simp add: close_all_positions_def)
next
  case False
  obtain rs w1 where e: "close_each close sleep pos_id k ps w = (rs, w1)"
    by (cases "close_each close sleep pos_id k ps w")
  have len: "length rs = length ps" using length_close_each[of close sleep pos_id k ps w] by (simp add: e)
  have "cr_attempts r = max_attempts k \<and> cr_position_id r \<in> pos_id ` set ps"
    if "r \<in> set rs" "\<not> cr_success r" for r
  proof -
    obtain p w' where "p \<in> set ps" "r = fst (close_single_position close sleep k (pos_id p) p w')"
      using close_each_results[of r close sleep pos_id k ps w] \<open>r \<in> set rs\<close> by (auto simp: e)
    then show ?thesis using \<open>\<not> cr_success r\<close>
      by (auto simp: close_single_position_def close_attempts_trace Let_def split: if_splits)
  qed
  then show ?thesis using False len sum_length_filter_compl[of cr_success rs]
    by (auto simp: close_all_positions_def e list_all_iff)
qed

end
