(* ===== verification/Loop_Signals.thy ===== *)
theory Loop_Signals
  imports Candle_Buffer Json Texts Kill_Switch
begin

text \<open>
  The signal side of \<open>src/trading/trading_loop.py\<close> that needs no other object: the currency pair of
  an epic and its exposures, the spread, the average true range, the legacy moving-average signal,
  the state machine of the one-minute liquidity sweep and its signal, and the parser of the
  broker's amounts.

  Strategy signals are dictionaries in the code; here they are records whose optional keys are
  options.  A trade event is its name with its details, from which values None are left out.
\<close>

section \<open>Numbers\<close>

text \<open>\<open>round(x, n)\<close> of a float, and \<open>int(x)\<close>.\<close>

definition f_round :: "nat \<Rightarrow> pyfloat \<Rightarrow> pyfloat" where
  "f_round n x = flt (of_int (round_half_even (x * 10 ^ n)) / 10 ^ n)"

definition f_int :: "pyfloat \<Rightarrow> int" where
  "f_int x = (if x < 0 then \<lceil>x\<rceil> else \<lfloor>x\<rfloor>)"

section \<open>Configuration\<close>

definition DEFAULT_INSTRUMENTS :: "string list" where
  "DEFAULT_INSTRUMENTS = [''CS.D.EURUSD.CFD.IP'', ''CS.D.GBPUSD.CFD.IP'', ''CS.D.USDJPY.CFD.IP'', ''CS.D.AUDUSD.CFD.IP'', ''CS.D.USDCAD.CFD.IP'']"

definition SNAPSHOT_INTERVAL_SECONDS :: rat where "SNAPSHOT_INTERVAL_SECONDS = 90"
definition LOOP_INTERVAL_SECONDS :: rat where "LOOP_INTERVAL_SECONDS = 60"
definition ACCOUNT_REFRESH_INTERVAL_SECONDS :: rat where "ACCOUNT_REFRESH_INTERVAL_SECONDS = 300"
definition MAX_OPEN_POSITIONS :: int where "MAX_OPEN_POSITIONS = 1"
definition TRADE_SIZE :: pyfloat where "TRADE_SIZE = 1"
definition MAX_DAILY_TRADES :: int where "MAX_DAILY_TRADES = 3"
definition MIN_SECONDS_BETWEEN_TRADES :: int where "MIN_SECONDS_BETWEEN_TRADES = 1800"
definition MAX_SPREAD_POINTS :: pyfloat where "MAX_SPREAD_POINTS = 3"
definition MIN_ATR_PCT :: pyfloat where "MIN_ATR_PCT = flt (2 / 10000)"
definition MAX_ATR_PCT :: pyfloat where "MAX_ATR_PCT = flt (30 / 10000)"
definition PROFESSIONAL_DAILY_MAX_LOSS_PCT :: pyfloat where "PROFESSIONAL_DAILY_MAX_LOSS_PCT = flt (1 / 100)"
definition SL_MULTIPLIER :: pyfloat where "SL_MULTIPLIER = 3"
definition TP_MULTIPLIER :: pyfloat where "TP_MULTIPLIER = 6"
definition MIN_TREND_STRENGTH :: pyfloat where "MIN_TREND_STRENGTH = flt (3 / 10)"
definition MIN_CANDLES_FOR_ENTRY :: nat where "MIN_CANDLES_FOR_ENTRY = 25"
definition TRADING_HOURS_UTC :: "int \<times> int" where "TRADING_HOURS_UTC = (8, 18)"

section \<open>Signals and events\<close>

record loop_signal =
  ls_epic :: string
  ls_direction :: string
  ls_current_price :: pyfloat
  ls_stop_distance :: pyfloat
  ls_limit_distance :: pyfloat
  ls_atr :: pyfloat
  ls_confidence :: int
  ls_rr_ratio :: pyfloat
  ls_risk_per_trade :: pyfloat
  ls_strategy_name :: string
  ls_sma_fast :: "pyfloat option"
  ls_sma_slow :: "pyfloat option"
  ls_trend_strength :: "pyfloat option"
  ls_tp1_distance :: "pyfloat option"
  ls_regime :: "string option"
  ls_partial_close_fraction :: "pyfloat option"
  ls_trailing_enabled :: bool
  ls_extra_confirmation :: bool
  ls_size :: "pyfloat option"

datatype detail = DJson json | DMsg fmsg

type_synonym trade_event = "string \<times> (string \<times> detail) list"

text \<open>The keyword arguments of \<open>_record_trade_event\<close> whose value is not None.\<close>

definition kept_details :: "(string \<times> detail) list \<Rightarrow> (string \<times> detail) list" where
  "kept_details ds = filter (\<lambda>d. snd d \<noteq> DJson JNull) ds"

definition event_of :: "string \<Rightarrow> (string \<times> detail) list \<Rightarrow> trade_event" where
  "event_of name ds = (name, kept_details ds)"

definition dtext :: "string \<Rightarrow> detail" where "dtext s = DJson (JStr s)"
definition dnum :: "rat \<Rightarrow> detail" where "dnum x = DJson (JNum x)"

fun dnum_opt :: "rat option \<Rightarrow> detail" where
  "dnum_opt (Some x) = DJson (JNum x)"
| "dnum_opt None = DJson JNull"

section \<open>Currencies\<close>

definition is_capital :: "char \<Rightarrow> bool" where
  "is_capital c \<longleftrightarrow> (65::nat) \<le> of_char c \<and> of_char c \<le> (90::nat)"

text \<open>The first six capitals in a row.\<close>

fun currency_pair_for_epic :: "string \<Rightarrow> string option" where
  "currency_pair_for_epic [] = None"
| "currency_pair_for_epic (c # cs) =
     (if 6 \<le> length (c # cs) \<and> list_all is_capital (take 6 (c # cs)) then Some (take 6 (c # cs))
      else currency_pair_for_epic cs)"

definition currency_exposures :: "string \<Rightarrow> string \<Rightarrow> (string, int) dict" where
  "currency_exposures epic direction =
     (case currency_pair_for_epic epic of
        None \<Rightarrow> []
      | Some pair \<Rightarrow>
          let base = take 3 pair; quote = drop 3 pair
          in if direction = ''BUY'' then AList.update quote (- 1) [(base, 1)]
             else if direction = ''SELL'' then AList.update quote 1 [(base, - 1)]
             else [])"

definition fx_scaling_factor :: "string \<Rightarrow> rat" where
  "fx_scaling_factor epic =
     (case currency_pair_for_epic epic of
        Some pair \<Rightarrow> if drop (length pair - 3) pair = ''JPY'' then 100 else 10000
      | None \<Rightarrow> 10000)"

record snapshot =
  sn_bid :: pyfloat
  sn_offer :: pyfloat
  sn_market_status :: json
  sn_timestamp :: secs

definition spread_points :: "(string, snapshot) dict \<Rightarrow> string \<Rightarrow> pyfloat option" where
  "spread_points snapshots epic =
     (case map_of snapshots epic of
        Some s \<Rightarrow> Some (f_mul \<bar>f_sub (sn_offer s) (sn_bid s)\<bar> (fx_scaling_factor epic))
      | None \<Rightarrow> None)"

definition asset_class_for_epic :: "string \<Rightarrow> string" where
  "asset_class_for_epic epic =
     (if take 3 epic = ''CS.'' then ''forex'' else if take 3 epic = ''IX.'' then ''indices'' else ''forex'')"

definition region_for_epic :: "string \<Rightarrow> string option" where
  "region_for_epic epic =
     (if contains_text ''EUR'' epic \<or> contains_text ''GBP'' epic then Some ''europe''
      else if contains_text ''JPY'' epic then Some ''asia'' else None)"

section \<open>The average true range\<close>

text \<open>The true range of a candle after the one before it.\<close>

definition true_range :: "candle \<Rightarrow> candle \<Rightarrow> pyfloat" where
  "true_range prev c =
     max (max (f_sub (cn_high c) (cn_low c)) \<bar>f_sub (cn_high c) (cn_close prev)\<bar>)
         \<bar>f_sub (cn_low c) (cn_close prev)\<bar>"

definition true_ranges :: "candle list \<Rightarrow> pyfloat list" where
  "true_ranges cs = map2 true_range cs (tl cs)"

definition calculate_atr :: "candle list \<Rightarrow> pyfloat \<Rightarrow> pyfloat" where
  "calculate_atr cs fallback =
     (if length cs < 2 then fallback
      else let sample = take_last 14 (true_ranges cs)
           in max (f_quot (f_sum sample) (of_nat (length sample))) fallback)"

section \<open>The legacy moving averages\<close>

definition analyze_legacy_sma :: "candle list \<Rightarrow> int \<Rightarrow> string \<Rightarrow> loop_signal option" where
  "analyze_legacy_sma candles utc_hour epic =
     (if length candles < MIN_CANDLES_FOR_ENTRY then None
      else if \<not> (fst TRADING_HOURS_UTC \<le> utc_hour \<and> utc_hour < snd TRADING_HOURS_UTC) then None
      else
        let closes = map cn_close candles;
            slow_period = min 25 (length closes);
            fast_period = min 10 (length closes);
            sma_fast = f_quot (f_sum (take_last fast_period closes)) (of_nat fast_period);
            sma_slow = f_quot (f_sum (take_last slow_period closes)) (of_nat slow_period);
            current = last closes;
            atr_vals = true_ranges candles;
            atr0 = (if atr_vals \<noteq> []
                    then f_quot (f_sum (take_last 14 atr_vals)) (of_nat (min 14 (length atr_vals)))
                    else f_mul current (flt (5 / 10000)));
            atr = max atr0 (f_mul current (flt (5 / 10000)));
            ts = (if 0 < atr then f_quot \<bar>f_sub sma_fast sma_slow\<bar> atr else 0)
        in if ts < MIN_TREND_STRENGTH then None
           else if sma_fast = sma_slow then None
           else Some \<lparr>ls_epic = epic, ls_direction = (if sma_slow < sma_fast then ''BUY'' else ''SELL''),
                  ls_current_price = current, ls_stop_distance = f_round 6 (f_mul atr SL_MULTIPLIER),
                  ls_limit_distance = f_round 6 (f_mul atr TP_MULTIPLIER), ls_atr = atr,
                  ls_confidence = min 95 (f_int (f_add 50 (f_mul ts 20))),
                  ls_rr_ratio = f_round 2 (f_quot TP_MULTIPLIER SL_MULTIPLIER),
                  ls_risk_per_trade = flt (1 / 100), ls_strategy_name = ''legacy_sma_atr'',
                  ls_sma_fast = Some sma_fast, ls_sma_slow = Some sma_slow, ls_trend_strength = Some ts,
                  ls_tp1_distance = None, ls_regime = None, ls_partial_close_fraction = None,
                  ls_trailing_enabled = False, ls_extra_confirmation = False, ls_size = None\<rparr>)"

section \<open>The liquidity sweep\<close>

datatype sweep_phase = WAIT_BREAK | WAIT_BUY_SIGNAL | WAIT_SELL_SIGNAL | BUY_READY | SELL_READY

record liquidity_sweep_state =
  lq_phase :: sweep_phase
  lq_day :: "int option"
  lq_last_candle_time :: "pyfloat option"
  lq_signal_high :: "pyfloat option"
  lq_signal_low :: "pyfloat option"
  lq_sl_level :: "pyfloat option"
  lq_tp_level :: "pyfloat option"

definition liquidity_sweep_init :: liquidity_sweep_state where
  "liquidity_sweep_init =
     \<lparr>lq_phase = WAIT_BREAK, lq_day = None, lq_last_candle_time = None, lq_signal_high = None,
      lq_signal_low = None, lq_sl_level = None, lq_tp_level = None\<rparr>"

definition sweep_decision :: "string \<Rightarrow> string \<Rightarrow> string \<Rightarrow> (string \<times> detail) list \<Rightarrow> trade_event" where
  "sweep_decision epic direction reason info =
     event_of ''liquidity_sweep_decision''
       ([(''epic'', dtext epic), (''direction'', dtext direction), (''reason'', dtext reason)] @ info)"

text \<open>The signal at the current price; the event is recorded when a distance is not positive.\<close>

definition build_liquidity_sweep_signal ::
  "string \<Rightarrow> string \<Rightarrow> pyfloat \<Rightarrow> pyfloat option \<Rightarrow> pyfloat option \<Rightarrow> candle list \<Rightarrow> loop_signal option \<times> trade_event list" where
  "build_liquidity_sweep_signal epic direction current_price sl_level tp_level candles =
     (case (sl_level, tp_level) of
        (Some sl, Some tp) \<Rightarrow>
          if current_price \<le> 0 then (None, [])
          else
            let stop_distance = (if direction = ''BUY'' then f_sub current_price sl else f_sub sl current_price);
                limit_distance = (if direction = ''BUY'' then f_sub tp current_price else f_sub current_price tp)
            in if stop_distance \<le> 0 \<or> limit_distance \<le> 0
               then (None, [sweep_decision epic ''SKIP'' ''invalid_sl_tp_distance''
                       [(''current_price'', dnum current_price), (''sl_level'', dnum sl), (''tp_level'', dnum tp)]])
               else (Some \<lparr>ls_epic = epic, ls_direction = direction, ls_current_price = current_price,
                       ls_stop_distance = f_round 6 stop_distance, ls_limit_distance = f_round 6 limit_distance,
                       ls_atr = calculate_atr candles (f_mul current_price (flt (5 / 10000))), ls_confidence = 65,
                       ls_rr_ratio = f_round 2 (f_quot limit_distance stop_distance), ls_risk_per_trade = flt (2 / 1000),
                       ls_strategy_name = ''liquidity_sweep_1m'', ls_sma_fast = None, ls_sma_slow = None,
                       ls_trend_strength = None, ls_tp1_distance = None, ls_regime = None,
                       ls_partial_close_fraction = None, ls_trailing_enabled = False,
                       ls_extra_confirmation = False, ls_size = None\<rparr>, [])
      | _ \<Rightarrow> (None, []))"

definition is_green :: "candle \<Rightarrow> bool" where "is_green c \<longleftrightarrow> cn_open c < cn_close c"
definition is_red :: "candle \<Rightarrow> bool" where "is_red c \<longleftrightarrow> cn_close c < cn_open c"

text \<open>The conditionals of the loop body up to the two that may trigger.\<close>

definition sweep_break :: "pyfloat \<Rightarrow> pyfloat \<Rightarrow> candle \<Rightarrow> liquidity_sweep_state \<Rightarrow> liquidity_sweep_state" where
  "sweep_break daily_high daily_low c st =
     (if lq_phase st = WAIT_BREAK then
        if cn_close c < daily_low then st\<lparr>lq_phase := WAIT_BUY_SIGNAL\<rparr>
        else if daily_high < cn_close c then st\<lparr>lq_phase := WAIT_SELL_SIGNAL\<rparr>
        else st
      else st)"

definition sweep_arm :: "pyfloat \<Rightarrow> pyfloat \<Rightarrow> candle \<Rightarrow> liquidity_sweep_state \<Rightarrow> liquidity_sweep_state" where
  "sweep_arm daily_high daily_low c st =
     (let st1 = (if lq_phase st = WAIT_BUY_SIGNAL \<and> is_green c
                 then st\<lparr>lq_phase := BUY_READY, lq_signal_high := Some (cn_high c),
                         lq_sl_level := Some (cn_low c), lq_tp_level := Some daily_high\<rparr>
                 else st)
      in if lq_phase st1 = WAIT_SELL_SIGNAL \<and> is_red c
         then st1\<lparr>lq_phase := SELL_READY, lq_signal_low := Some (cn_low c),
                  lq_sl_level := Some (cn_high c), lq_tp_level := Some daily_low\<rparr>
         else st1)"

text \<open>What an armed state does with a candle: the direction triggered, with the levels, and the next
  state.\<close>

definition sweep_fire ::
  "candle \<Rightarrow> liquidity_sweep_state \<Rightarrow> (string \<times> pyfloat option \<times> pyfloat option) list \<times> liquidity_sweep_state" where
  "sweep_fire c st =
     (let (buys, st1) =
        (if lq_phase st = BUY_READY then
           if (case lq_signal_high st of Some h \<Rightarrow> h < cn_high c | None \<Rightarrow> False)
           then ([(''BUY'', lq_sl_level st, lq_tp_level st)],
                 st\<lparr>lq_phase := WAIT_BREAK, lq_signal_high := None, lq_sl_level := None, lq_tp_level := None\<rparr>)
           else if is_red c then ([], st\<lparr>lq_phase := WAIT_BUY_SIGNAL\<rparr>)
           else ([], st)
         else ([], st))
      in if lq_phase st1 = SELL_READY then
           if (case lq_signal_low st1 of Some l \<Rightarrow> cn_low c < l | None \<Rightarrow> False)
           then (buys @ [(''SELL'', lq_sl_level st1, lq_tp_level st1)],
                 st1\<lparr>lq_phase := WAIT_BREAK, lq_signal_low := None, lq_sl_level := None, lq_tp_level := None\<rparr>)
           else if is_green c then (buys, st1\<lparr>lq_phase := WAIT_SELL_SIGNAL\<rparr>)
           else (buys, st1)
         else (buys, st1))"

text \<open>The loop body: only a trigger of the latest candle makes a signal.\<close>

definition sweep_candle ::
  "(string \<Rightarrow> pyfloat option \<Rightarrow> pyfloat option \<Rightarrow> loop_signal option \<times> trade_event list) \<Rightarrow> pyfloat \<Rightarrow> pyfloat \<Rightarrow> pyfloat
   \<Rightarrow> candle \<Rightarrow> liquidity_sweep_state \<times> loop_signal option \<times> trade_event list
   \<Rightarrow> liquidity_sweep_state \<times> loop_signal option \<times> trade_event list" where
  "sweep_candle build latest_time daily_high daily_low c x =
     (case x of (st, signal, evs) \<Rightarrow>
        case sweep_fire c (sweep_arm daily_high daily_low c (sweep_break daily_high daily_low c st)) of
          (fired, st') \<Rightarrow>
            let (signal', evs') =
              (if cn_time c = latest_time
               then foldl (\<lambda>(s, es) (dir, sl, tp). case build dir sl tp of (s', new) \<Rightarrow> (s', es @ new)) (signal, evs) fired
               else (signal, evs))
            in (st'\<lparr>lq_last_candle_time := Some (cn_time c)\<rparr>, signal', evs'))"

definition utc_day :: "pyfloat \<Rightarrow> int" where
  "utc_day t = round_half_even (t * 1000000) div 86400000000"

fun phase_text :: "sweep_phase \<Rightarrow> string" where
  "phase_text WAIT_BREAK = ''wait_break''"
| "phase_text WAIT_BUY_SIGNAL = ''wait_buy_signal''"
| "phase_text WAIT_SELL_SIGNAL = ''wait_sell_signal''"
| "phase_text BUY_READY = ''buy_ready''"
| "phase_text SELL_READY = ''sell_ready''"

text \<open>The state at the start of a day.\<close>

definition sweep_new_day :: "int \<Rightarrow> liquidity_sweep_state \<Rightarrow> liquidity_sweep_state" where
  "sweep_new_day day st = (if lq_day st \<noteq> Some day then liquidity_sweep_init\<lparr>lq_day := Some day\<rparr> else st)"

definition pending_candles :: "int \<Rightarrow> candle list \<Rightarrow> liquidity_sweep_state \<Rightarrow> candle list" where
  "pending_candles day candles st =
     filter (\<lambda>c. utc_day (cn_time c) = day \<and>
       (case lq_last_candle_time st of None \<Rightarrow> True | Some t \<Rightarrow> t < cn_time c)) candles"

definition daily_range :: "candle list \<Rightarrow> int \<Rightarrow> (pyfloat \<times> pyfloat) option" where
  "daily_range candles day =
     (let previous_days = filter (\<lambda>d. d < day) (map (\<lambda>c. utc_day (cn_time c)) candles)
      in if previous_days = [] then None
         else let previous = filter (\<lambda>c. utc_day (cn_time c) = Max (set previous_days)) candles
              in Some (Max (set (map cn_high previous)), Min (set (map cn_low previous))))"

text \<open>The state machines of all epics, the signal, and the events in order.\<close>

definition analyze_liquidity_sweep_1m ::
  "candle list \<Rightarrow> snapshot option \<Rightarrow> string \<Rightarrow> (string, liquidity_sweep_state) dict
   \<Rightarrow> loop_signal option \<times> (string, liquidity_sweep_state) dict \<times> trade_event list" where
  "analyze_liquidity_sweep_1m candles snap epic states =
     (if length candles < MIN_CANDLES_FOR_STRATEGY
      then (None, states, [sweep_decision epic ''SKIP'' ''insufficient_1m_data'' []])
      else case snap of
        None \<Rightarrow> (None, states, [sweep_decision epic ''SKIP'' ''no_recent_spread_snapshot'' []])
      | Some s \<Rightarrow>
          let latest_time = cn_time (last candles); day = utc_day latest_time
          in case daily_range candles day of
               None \<Rightarrow> (None, states, [sweep_decision epic ''SKIP'' ''missing_previous_daily_range'' []])
             | Some (daily_high, daily_low) \<Rightarrow>
                 let st = sweep_new_day day (case map_of states epic of Some st \<Rightarrow> st | None \<Rightarrow> liquidity_sweep_init);
                     price = f_quot (f_add (sn_bid s) (sn_offer s)) 2;
                     build = (\<lambda>dir sl tp. build_liquidity_sweep_signal epic dir price sl tp candles);
                     range_info = [(''previous_daily_high'', dnum daily_high), (''previous_daily_low'', dnum daily_low)]
                 in case foldl (\<lambda>x c. sweep_candle build latest_time daily_high daily_low c x) (st, None, []) (pending_candles day candles st) of
                      (st', signal, evs) \<Rightarrow>
                        (signal, AList.update epic st' states,
                         evs @ [case signal of
                                  None \<Rightarrow> sweep_decision epic ''SKIP'' (phase_text (lq_phase st')) range_info
                                | Some g \<Rightarrow> sweep_decision epic (ls_direction g) ''entry_triggered'' range_info]))"

section \<open>Amounts of the broker\<close>

text \<open>\<open>re.search\<close> of digits with an optional fraction: the text before the match, and the number.\<close>

definition is_digit :: "char \<Rightarrow> bool" where
  "is_digit c \<longleftrightarrow> (48::nat) \<le> of_char c \<and> of_char c \<le> (57::nat)"

definition digits_value :: "string \<Rightarrow> int" where
  "digits_value ds = foldl (\<lambda>n c. n * 10 + (int (of_char c) - 48)) 0 ds"

text \<open>The match at the head of a text that starts with a digit: the integral part and the fraction,
  which needs a digit after its point.\<close>

definition number_at :: "string \<Rightarrow> decimal" where
  "number_at s =
     (let whole = takeWhile is_digit s; rest = dropWhile is_digit s;
          frac = (case rest of c # cs \<Rightarrow> if c = CHR ''.'' then takeWhile is_digit cs else [] | [] \<Rightarrow> [])
      in of_int (digits_value (whole @ frac)) / 10 ^ length frac)"

definition strip_text :: "string \<Rightarrow> string" where
  "strip_text s = rev (dropWhile py_space (rev (dropWhile py_space s)))"

text \<open>Numbers are taken by their text, which \<open>Decimal\<close> rejects for a truth value; other values by
  the first number in theirs.\<close>

definition parse_ig_decimal :: "(json \<Rightarrow> string) \<Rightarrow> json \<Rightarrow> py_error + decimal" where
  "parse_ig_decimal str v =
     (case v of
        JNull \<Rightarrow> Inr 0
      | JNum x \<Rightarrow> Inr (dec_of_float x)
      | JBool b \<Rightarrow> Inl DecimalInvalidOperation
      | _ \<Rightarrow>
          let t = filter (\<lambda>c. c \<noteq> CHR '','') (strip_text (str_json str v));
              accounting_negative = (take 1 t = ''('' \<and> drop (length t - 1) t = '')'');
              before = takeWhile (\<lambda>c. \<not> is_digit c) t; found = dropWhile (\<lambda>c. \<not> is_digit c) t
          in if found = [] then Inr 0
             else if accounting_negative \<or> CHR ''-'' \<in> set before then Inr (- d_abs (number_at found))
             else Inr (number_at found))"

section \<open>What a sweep signal rests on\<close>

definition sweep_step :: "pyfloat \<Rightarrow> pyfloat \<Rightarrow> liquidity_sweep_state \<Rightarrow> candle \<Rightarrow> liquidity_sweep_state" where
  "sweep_step dh dl st c =
     (snd (sweep_fire c (sweep_arm dh dl c (sweep_break dh dl c st))))\<lparr>lq_last_candle_time := Some (cn_time c)\<rparr>"

text \<open>The state after some candles of a day.\<close>

definition sweep_day :: "pyfloat \<Rightarrow> pyfloat \<Rightarrow> int \<Rightarrow> candle list \<Rightarrow> liquidity_sweep_state" where
  "sweep_day dh dl day cs = foldl (sweep_step dh dl) (liquidity_sweep_init\<lparr>lq_day := Some day\<rparr>) cs"

text \<open>The candle that arms a direction: its levels, a break before it, and nothing since that
  disarmed it.\<close>

definition armed :: "bool \<Rightarrow> pyfloat \<Rightarrow> pyfloat \<Rightarrow> candle list \<Rightarrow> candle \<Rightarrow> bool" where
  "armed buy dh dl cs s \<longleftrightarrow> (\<exists>pre mid. cs = pre @ s # mid \<and>
     (if buy then is_green s \<and> (\<exists>b\<in>set (pre @ [s]). cn_close b < dl) \<and> (\<forall>m\<in>set mid. \<not> is_red m \<and> cn_high m \<le> cn_high s)
      else is_red s \<and> (\<exists>b\<in>set (pre @ [s]). dh < cn_close b) \<and> (\<forall>m\<in>set mid. \<not> is_green m \<and> cn_low s \<le> cn_low m)))"

lemma armed_later: "armed buy dh dl cs s \<Longrightarrow>
    (if buy then \<not> is_red c \<and> cn_high c \<le> cn_high s else \<not> is_green c \<and> cn_low s \<le> cn_low c) \<Longrightarrow> armed buy dh dl (cs @ [c]) s"
  unfolding armed_def by (elim exE conjE, rule_tac x = pre in exI, rule_tac x = "mid @ [c]" in exI) (auto split: if_splits)

lemma armed_now: "(if buy then is_green c \<and> (\<exists>b\<in>set (cs @ [c]). cn_close b < dl) else is_red c \<and> (\<exists>b\<in>set (cs @ [c]). dh < cn_close b)) \<Longrightarrow>
    armed buy dh dl (cs @ [c]) c"
  unfolding armed_def by (rule_tac x = cs in exI, rule_tac x = "[]" in exI) (auto split: if_splits)

definition sweep_ok :: "pyfloat \<Rightarrow> pyfloat \<Rightarrow> candle list \<Rightarrow> liquidity_sweep_state \<Rightarrow> bool" where
  "sweep_ok dh dl cs st \<longleftrightarrow>
     (case lq_phase st of
        WAIT_BREAK \<Rightarrow> True
      | WAIT_BUY_SIGNAL \<Rightarrow> \<exists>b\<in>set cs. cn_close b < dl
      | WAIT_SELL_SIGNAL \<Rightarrow> \<exists>b\<in>set cs. dh < cn_close b
      | BUY_READY \<Rightarrow> \<exists>s. armed True dh dl cs s \<and> lq_signal_high st = Some (cn_high s) \<and>
            lq_sl_level st = Some (cn_low s) \<and> lq_tp_level st = Some dh
      | SELL_READY \<Rightarrow> \<exists>s. armed False dh dl cs s \<and> lq_signal_low st = Some (cn_low s) \<and>
            lq_sl_level st = Some (cn_high s) \<and> lq_tp_level st = Some dl)"

lemma red_not_green: "is_red c \<Longrightarrow> \<not> is_green c"
  by (simp add: is_red_def is_green_def)

text \<open>The state between arming and firing: what \<open>sweep_ok\<close> says of the candles with \<open>c\<close>, or the same
  arming candle as before.\<close>

lemma sweep_arm_cases:
  assumes "sweep_ok dh dl cs st" and st'_def: "st' = sweep_arm dh dl c (sweep_break dh dl c st)"
  obtains (wait) "lq_phase st' = WAIT_BREAK"
  | (wait_buy) "lq_phase st' = WAIT_BUY_SIGNAL" "\<exists>b\<in>set (cs @ [c]). cn_close b < dl"
  | (wait_sell) "lq_phase st' = WAIT_SELL_SIGNAL" "\<exists>b\<in>set (cs @ [c]). dh < cn_close b"
  | (buy_now) "lq_phase st' = BUY_READY" "armed True dh dl (cs @ [c]) c" "lq_signal_high st' = Some (cn_high c)"
      "lq_sl_level st' = Some (cn_low c)" "lq_tp_level st' = Some dh" "is_green c"
  | (sell_now) "lq_phase st' = SELL_READY" "armed False dh dl (cs @ [c]) c" "lq_signal_low st' = Some (cn_low c)"
      "lq_sl_level st' = Some (cn_high c)" "lq_tp_level st' = Some dl" "is_red c"
  | (buy) s where "lq_phase st' = BUY_READY" "armed True dh dl cs s" "lq_signal_high st' = Some (cn_high s)"
      "lq_sl_level st' = Some (cn_low s)" "lq_tp_level st' = Some dh"
  | (sell) s where "lq_phase st' = SELL_READY" "armed False dh dl cs s" "lq_signal_low st' = Some (cn_low s)"
      "lq_sl_level st' = Some (cn_high s)" "lq_tp_level st' = Some dl"
proof (cases "lq_phase st")
  case WAIT_BREAK
  consider "cn_close c < dl" "is_green c" | "cn_close c < dl" "\<not> is_green c" | "\<not> cn_close c < dl" "dh < cn_close c" "is_red c"
    | "\<not> cn_close c < dl" "dh < cn_close c" "\<not> is_red c" | "\<not> cn_close c < dl" "\<not> dh < cn_close c" by blast
  then show ?thesis
  proof cases
    case 1
    then show ?thesis using WAIT_BREAK armed_now[of True c cs dl dh]
      by (intro buy_now) (auto simp: st'_def sweep_arm_def sweep_break_def)
  next
    case 2
    then show ?thesis using WAIT_BREAK by (intro wait_buy) (auto simp: st'_def sweep_arm_def sweep_break_def)
  next
    case 3
    then show ?thesis using WAIT_BREAK armed_now[of False c cs dl dh]
      by (intro sell_now) (auto simp: st'_def sweep_arm_def sweep_break_def)
  next
    case 4
    then show ?thesis using WAIT_BREAK by (intro wait_sell) (auto simp: st'_def sweep_arm_def sweep_break_def)
  next
    case 5
    then show ?thesis using WAIT_BREAK by (intro wait) (auto simp: st'_def sweep_arm_def sweep_break_def)
  qed
next
  case WAIT_BUY_SIGNAL
  then have d: "\<exists>b\<in>set (cs @ [c]). cn_close b < dl" using assms(1) by (auto simp: sweep_ok_def)
  show ?thesis
  proof (cases "is_green c")
    case True
    then show ?thesis using WAIT_BUY_SIGNAL d armed_now[of True c cs dl dh]
      by (intro buy_now) (auto simp: st'_def sweep_arm_def sweep_break_def)
  next
    case False
    then show ?thesis using WAIT_BUY_SIGNAL d by (intro wait_buy) (auto simp: st'_def sweep_arm_def sweep_break_def)
  qed
next
  case WAIT_SELL_SIGNAL
  then have d: "\<exists>b\<in>set (cs @ [c]). dh < cn_close b" using assms(1) by (auto simp: sweep_ok_def)
  show ?thesis
  proof (cases "is_red c")
    case True
    then show ?thesis using WAIT_SELL_SIGNAL d armed_now[of False c cs dl dh]
      by (intro sell_now) (auto simp: st'_def sweep_arm_def sweep_break_def)
  next
    case False
    then show ?thesis using WAIT_SELL_SIGNAL d by (intro wait_sell) (auto simp: st'_def sweep_arm_def sweep_break_def)
  qed
next
  case BUY_READY
  then show ?thesis using assms(1) buy
    by (auto simp: st'_def sweep_ok_def sweep_arm_def sweep_break_def Let_def split: if_splits)
next
  case SELL_READY
  then show ?thesis using assms(1) sell
    by (auto simp: st'_def sweep_ok_def sweep_arm_def sweep_break_def Let_def split: if_splits)
qed

text \<open>What fires is the armed candle's breakout.\<close>

definition breakout :: "pyfloat \<Rightarrow> pyfloat \<Rightarrow> candle list \<Rightarrow> candle \<Rightarrow> string \<Rightarrow> pyfloat \<Rightarrow> pyfloat \<Rightarrow> bool" where
  "breakout dh dl cs c dir sl tp \<longleftrightarrow>
     (\<exists>s. dir = ''BUY'' \<and> armed True dh dl cs s \<and> cn_high s < cn_high c \<and> sl = cn_low s \<and> tp = dh \<or>
          dir = ''SELL'' \<and> armed False dh dl cs s \<and> cn_low c < cn_low s \<and> sl = cn_high s \<and> tp = dl)"

lemma sweep_fire_breakout:
  assumes ok: "sweep_ok dh dl cs st"
    and f: "x \<in> set (fst (sweep_fire c (sweep_arm dh dl c (sweep_break dh dl c st))))"
  shows "\<exists>dir sl tp. x = (dir, Some sl, Some tp) \<and> breakout dh dl cs c dir sl tp"
  using sweep_arm_cases[OF ok refl, of c] f
  by cases (auto simp: sweep_fire_def breakout_def split: if_splits)

lemma sweep_step_ok: "sweep_ok dh dl cs st \<Longrightarrow> sweep_ok dh dl (cs @ [c]) (sweep_step dh dl st c)"
proof -
  assume ok: "sweep_ok dh dl cs st"
  let ?st = "sweep_arm dh dl c (sweep_break dh dl c st)"
  have b: "armed True dh dl cs s \<Longrightarrow> \<exists>b\<in>set (cs @ [c]). cn_close b < dl" for s
    unfolding armed_def by auto
  have d: "armed False dh dl cs s \<Longrightarrow> \<exists>b\<in>set (cs @ [c]). dh < cn_close b" for s
    unfolding armed_def by auto
  show ?thesis
  proof (cases rule: sweep_arm_cases[OF ok refl, of c])
    case (6 s)
    then show ?thesis using b[of s] armed_later[of True dh dl cs s c]
      by (auto simp: sweep_step_def sweep_fire_def sweep_ok_def)
  next
    case (7 s)
    then show ?thesis using d[of s] armed_later[of False dh dl cs s c]
      by (auto simp: sweep_step_def sweep_fire_def sweep_ok_def)
  qed (auto simp: sweep_step_def sweep_fire_def sweep_ok_def red_not_green dest: red_not_green)
qed

lemma sweep_day_snoc: "sweep_day dh dl day (cs @ [c]) = sweep_step dh dl (sweep_day dh dl day cs) c"
  by (simp add: sweep_day_def)

lemma sweep_day_ok: "sweep_ok dh dl cs (sweep_day dh dl day cs)"
proof (induction cs rule: rev_induct)
  case Nil
  show ?case by (simp add: sweep_day_def sweep_ok_def liquidity_sweep_init_def)
next
  case (snoc c cs)
  then show ?case unfolding sweep_day_snoc by (rule sweep_step_ok)
qed

lemma build_some:
  assumes "build_liquidity_sweep_signal epic dir price (Some sl) (Some tp) candles = (Some g, evs)"
  shows "ls_epic g = epic \<and> ls_direction g = dir \<and> ls_current_price g = price \<and>
    (let stop = if dir = ''BUY'' then f_sub price sl else f_sub sl price;
         target = if dir = ''BUY'' then f_sub tp price else f_sub price tp
     in 0 < stop \<and> 0 < target \<and> ls_stop_distance g = f_round 6 stop \<and> ls_limit_distance g = f_round 6 target)"
  using assms by (auto simp: build_liquidity_sweep_signal_def Let_def split: if_splits)

text \<open>The loop over the pending candles: its state, and where its signal comes from.\<close>

definition signal_from ::
  "string \<Rightarrow> pyfloat \<Rightarrow> candle list \<Rightarrow> pyfloat \<Rightarrow> pyfloat \<Rightarrow> pyfloat \<Rightarrow> candle list \<Rightarrow> candle list \<Rightarrow> loop_signal \<Rightarrow> bool" where
  "signal_from epic price candles latest dh dl seen pending g \<longleftrightarrow>
     (\<exists>before c after sl tp evs. pending = before @ c # after \<and> cn_time c = latest \<and>
        breakout dh dl (seen @ before) c (ls_direction g) sl tp \<and>
        build_liquidity_sweep_signal epic (ls_direction g) price (Some sl) (Some tp) candles = (Some g, evs))"

lemma signal_from_later: "signal_from epic price candles latest dh dl seen pending g \<Longrightarrow>
    signal_from epic price candles latest dh dl seen (pending @ [c]) g"
  unfolding signal_from_def by fastforce

lemma build_fold:
  assumes "foldl (\<lambda>(s, es) (dir, sl, tp). case build dir sl tp of (s', new) \<Rightarrow> (s', es @ new)) (s0, e0) fired = (Some g, es)"
  shows "(s0 = Some g) \<or> (\<exists>dir sl tp evs. (dir, sl, tp) \<in> set fired \<and> build dir sl tp = (Some g, evs))"
  using assms by (cases fired rule: rev_cases) (auto split: prod.splits)

lemma sweep_fold:
  assumes "foldl (\<lambda>x c. sweep_candle (\<lambda>dir sl tp. build_liquidity_sweep_signal epic dir price sl tp candles) latest dh dl c x)
      (sweep_day dh dl day seen, None, []) pending = (st, signal, evs)"
  shows "st = sweep_day dh dl day (seen @ pending) \<and>
    (case signal of None \<Rightarrow> True | Some g \<Rightarrow> signal_from epic price candles latest dh dl seen pending g)"
  using assms
proof (induction pending arbitrary: st signal evs rule: rev_induct)
  case (snoc c pending)
  let ?build = "\<lambda>dir sl tp. build_liquidity_sweep_signal epic dir price sl tp candles"
  obtain st1 s1 e1 where f: "foldl (\<lambda>x c. sweep_candle ?build latest dh dl c x) (sweep_day dh dl day seen, None, []) pending = (st1, s1, e1)"
    by (metis prod_cases3)
  note IH = snoc.IH[OF f]
  have ok: "sweep_ok dh dl (seen @ pending) st1" using IH by (simp add: sweep_day_ok)
  obtain fired st2 where fire: "sweep_fire c (sweep_arm dh dl c (sweep_break dh dl c st1)) = (fired, st2)" by fastforce
  have step: "sweep_candle ?build latest dh dl c (st1, s1, e1) = (st, signal, evs)" using snoc.prems f by simp
  have st: "st = sweep_day dh dl day ((seen @ pending) @ [c])"
    using step IH fire unfolding sweep_day_snoc by (auto simp: sweep_candle_def sweep_step_def Let_def split: prod.splits)
  have "signal_from epic price candles latest dh dl seen (pending @ [c]) g" if g: "signal = Some g" for g
  proof -
    have "s1 = Some g \<or> (cn_time c = latest \<and> (\<exists>dir sl tp es. (dir, sl, tp) \<in> set fired \<and> ?build dir sl tp = (Some g, es)))"
      using step g fire build_fold[of ?build s1 e1 fired g] by (auto simp: sweep_candle_def Let_def split: prod.splits if_splits)
    then consider "s1 = Some g" | dir sl tp es where "cn_time c = latest" "(dir, sl, tp) \<in> set fired" "?build dir sl tp = (Some g, es)"
      by blast
    then show ?thesis
    proof cases
      case 1
      then show ?thesis using IH signal_from_later by simp
    next
      case 2
      have "(dir, sl, tp) \<in> set (fst (sweep_fire c (sweep_arm dh dl c (sweep_break dh dl c st1))))" using 2(2) fire by simp
      from sweep_fire_breakout[OF ok this] obtain l h where lh: "sl = Some l" "tp = Some h" "breakout dh dl (seen @ pending) c dir l h" by auto
      have "ls_direction g = dir" using build_some[of epic dir price l h candles g es] 2(3) lh by simp
      then show ?thesis using 2 lh unfolding signal_from_def by blast
    qed
  qed
  then show ?case using st by (cases signal) simp_all
qed (simp add: sweep_day_def)

text \<open>
  Claim C7: one call of the one-minute strategy continues the day of its epic: when the state is the
  one after some candles of the day, it is the one after those and the pending candles afterwards,
  and a signal is given only when the latest candle breaks out of an armed candle: a break of the
  previous day's range, then a candle back towards it, and nothing against it since.  The signal's
  stop is the armed candle's far side, its target the far side of the previous day, and both
  distances are positive.
\<close>

theorem sweep_signal_is_justified:
  assumes "analyze_liquidity_sweep_1m candles (Some snap) epic states = (signal, states', evs)"
    and "MIN_CANDLES_FOR_STRATEGY \<le> length candles"
    and "day = utc_day (cn_time (last candles))" "daily_range candles day = Some (dh, dl)"
    and "sweep_new_day day (case map_of states epic of Some st \<Rightarrow> st | None \<Rightarrow> liquidity_sweep_init) = sweep_day dh dl day seen"
  shows "\<exists>pending. set pending \<subseteq> set candles \<and> map_of states' epic = Some (sweep_day dh dl day (seen @ pending)) \<and>
    (case signal of None \<Rightarrow> True
     | Some g \<Rightarrow> \<exists>before c after sl tp. pending = before @ c # after \<and> cn_time c = cn_time (last candles) \<and>
         breakout dh dl (seen @ before) c (ls_direction g) sl tp \<and>
         (let stop = if ls_direction g = ''BUY'' then f_sub (ls_current_price g) sl else f_sub sl (ls_current_price g);
              target = if ls_direction g = ''BUY'' then f_sub tp (ls_current_price g) else f_sub (ls_current_price g) tp
          in 0 < stop \<and> 0 < target \<and> ls_stop_distance g = f_round 6 stop \<and> ls_limit_distance g = f_round 6 target))"
proof -
  let ?pending = "pending_candles day candles (sweep_day dh dl day seen)"
  let ?price = "f_quot (f_add (sn_bid snap) (sn_offer snap)) 2"
  obtain st s es where f: "foldl (\<lambda>x c. sweep_candle (\<lambda>dir sl tp. build_liquidity_sweep_signal epic dir ?price sl tp candles)
      (cn_time (last candles)) dh dl c x) (sweep_day dh dl day seen, None, []) ?pending = (st, s, es)"
    by (metis prod_cases3)
  have r: "signal = s" "map_of states' epic = Some st"
    using assms(1,2,4,5) f unfolding assms(3)
    by (auto simp: analyze_liquidity_sweep_1m_def Let_def map_of_update)
  note F = sweep_fold[OF f]
  have sub: "set ?pending \<subseteq> set candles" by (auto simp: pending_candles_def)
  have m: "map_of states' epic = Some (sweep_day dh dl day (seen @ ?pending))" using F r by simp
  show ?thesis
  proof (rule exI[of _ ?pending], intro conjI sub m, cases s)
    case None
    show "case signal of None \<Rightarrow> True
      | Some g \<Rightarrow> \<exists>before c after sl tp. ?pending = before @ c # after \<and> cn_time c = cn_time (last candles) \<and>
         breakout dh dl (seen @ before) c (ls_direction g) sl tp \<and>
         (let stop = if ls_direction g = ''BUY'' then f_sub (ls_current_price g) sl else f_sub sl (ls_current_price g);
              target = if ls_direction g = ''BUY'' then f_sub tp (ls_current_price g) else f_sub (ls_current_price g) tp
          in 0 < stop \<and> 0 < target \<and> ls_stop_distance g = f_round 6 stop \<and> ls_limit_distance g = f_round 6 target)"
      unfolding r(1) None option.case by (rule TrueI)
  next
    case (Some g)
    then obtain before c after sl tp es' where s: "?pending = before @ c # after" "cn_time c = cn_time (last candles)"
      "breakout dh dl (seen @ before) c (ls_direction g) sl tp"
      "build_liquidity_sweep_signal epic (ls_direction g) ?price (Some sl) (Some tp) candles = (Some g, es')"
      using F unfolding signal_from_def by auto
    note b = build_some[OF s(4)]
    show "case signal of None \<Rightarrow> True
      | Some g \<Rightarrow> \<exists>before c after sl tp. ?pending = before @ c # after \<and> cn_time c = cn_time (last candles) \<and>
         breakout dh dl (seen @ before) c (ls_direction g) sl tp \<and>
         (let stop = if ls_direction g = ''BUY'' then f_sub (ls_current_price g) sl else f_sub sl (ls_current_price g);
              target = if ls_direction g = ''BUY'' then f_sub tp (ls_current_price g) else f_sub (ls_current_price g) tp
          in 0 < stop \<and> 0 < target \<and> ls_stop_distance g = f_round 6 stop \<and> ls_limit_distance g = f_round 6 target)"
      unfolding r(1) Some option.case using s(1-3) b by metis
  qed
qed

text \<open>A previous day between 1 and 2; then a break below, a green candle up to 0.95, and a candle above it.\<close>

definition sweep_sample :: "candle list" where
  "sweep_sample =
     map (\<lambda>(t, op, hi, lo, cl). \<lparr>cn_time = t, cn_open = op, cn_high = hi, cn_low = lo, cn_close = cl, cn_tick_count = 1\<rparr>)
       [(0, 1, 2, 1, 1), (60, 1, 2, 1, 1), (86400, 1, 1, 1/2, 3/4), (86460, 3/4, 1, 5/8, 7/8), (86520, 7/8, 5/4, 3/4, 1)]"

definition sweep_snap :: snapshot where
  "sweep_snap = \<lparr>sn_bid = 1, sn_offer = 1, sn_market_status = JNull, sn_timestamp = 0\<rparr>"

lemma sweep_signal_is_justified_witness:
  "\<exists>g states' evs. analyze_liquidity_sweep_1m sweep_sample (Some sweep_snap) ''E'' [] = (Some g, states', evs) \<and>
     (\<exists>before c sl tp. cn_time c = 86520 \<and> breakout 2 1 before c (ls_direction g) sl tp)"
proof -
  have d: "daily_range sweep_sample 1 = Some (2, 1)" "(1::int) = utc_day (cn_time (last sweep_sample))"
    "MIN_CANDLES_FOR_STRATEGY \<le> length sweep_sample" "cn_time (last sweep_sample) = 86520" by code_simp+
  have e: "sweep_new_day 1 (case map_of [] ''E'' of Some st \<Rightarrow> st | None \<Rightarrow> liquidity_sweep_init) = sweep_day 2 1 1 []" by code_simp
  have "fst (analyze_liquidity_sweep_1m sweep_sample (Some sweep_snap) ''E'' []) \<noteq> None" by code_simp
  then obtain g states' evs where a: "analyze_liquidity_sweep_1m sweep_sample (Some sweep_snap) ''E'' [] = (Some g, states', evs)"
    by (metis fst_conv not_None_eq prod_cases3)
  from sweep_signal_is_justified[OF a d(3,2,1) e] have
    "\<exists>before c sl tp. cn_time c = 86520 \<and> breakout 2 1 before c (ls_direction g) sl tp" using d(4) by auto
  with a show ?thesis by blast
qed

end
