(* ===== verification/Partial_Effects.thy ===== *)
theory Partial_Effects
  imports Effects
begin

text \<open>
  Programs that may wait for ever: a program takes the state and returns a result or an exception
  with the next state, or does not return at all (None).  The order on programs is the one
  \<open>partial_function (option)\<close> uses.  \<open>wpC\<close> is partial correctness and \<open>returns\<close> says that a program
  returns; the two are proved separately.
\<close>

type_synonym ('s, 'a) program = "'s \<Rightarrow> ((py_error + 'a) \<times> 's) option"

definition returnC :: "'a \<Rightarrow> ('s, 'a) program" where
  "returnC x s = Some (Inr x, s)"

definition raiseC :: "py_error \<Rightarrow> ('s, 'a) program" where
  "raiseC e s = Some (Inl e, s)"

definition bindC :: "('s, 'a) program \<Rightarrow> ('a \<Rightarrow> ('s, 'b) program) \<Rightarrow> ('s, 'b) program" where
  "bindC m f s =
     (case m s of
        None \<Rightarrow> None
      | Some (Inl e, s') \<Rightarrow> Some (Inl e, s')
      | Some (Inr x, s') \<Rightarrow> f x s')"

text \<open>\<open>try: m\<close> with its outcome as a value, an action as a program, a pure step.\<close>

definition tryC :: "('s, 'a) program \<Rightarrow> ('s, py_error + 'a) program" where
  "tryC m s = (case m s of None \<Rightarrow> None | Some (r, s') \<Rightarrow> Some (Inr r, s'))"

definition liftC :: "('s, 'a) action \<Rightarrow> ('s, 'a) program" where
  "liftC m s = Some (m s)"

definition pureC :: "py_error + 'a \<Rightarrow> ('s, 'a) program" where
  "pureC r s = Some (r, s)"

definition readC :: "('s \<Rightarrow> 'a) \<Rightarrow> ('s, 'a) program" where
  "readC f s = Some (Inr (f s), s)"

definition updC :: "('s \<Rightarrow> 's) \<Rightarrow> ('s, unit) program" where
  "updC f s = Some (Inr (), f s)"

definition catchC :: "('s, 'a) program \<Rightarrow> (py_error \<Rightarrow> ('s, 'a) program) \<Rightarrow> ('s, 'a) program" where
  "catchC m h = bindC (tryC m) (\<lambda>r. case r of Inr x \<Rightarrow> returnC x | Inl e \<Rightarrow> h e)"

lemma program_simps [simp]:
  "bindC (returnC x) f = f x"
  "bindC (raiseC e) f = raiseC e"
  "bindC (readC g) f s = f (g s) s"
  "bindC (updC u) f' s = f' () (u s)"
  "bindC (pureC (Inr x)) f = f x"
  "bindC (pureC (Inl e)) f = raiseC e"
  by (auto simp: fun_eq_iff bindC_def returnC_def raiseC_def readC_def updC_def pureC_def)

section \<open>Partial correctness\<close>

definition wpC :: "('s, 'a) program \<Rightarrow> (py_error + 'a \<Rightarrow> 's \<Rightarrow> bool) \<Rightarrow> 's \<Rightarrow> bool" where
  "wpC m Q s \<longleftrightarrow> (case m s of None \<Rightarrow> True | Some (r, s') \<Rightarrow> Q r s')"

lemma wpC_simps [simp]:
  "wpC (returnC x) Q s = Q (Inr x) s"
  "wpC (raiseC e) Q s = Q (Inl e) s"
  "wpC (readC g) Q s = Q (Inr (g s)) s"
  "wpC (updC u) Q' s = Q' (Inr ()) (u s)"
  "wpC (pureC r) Q s = Q r s"
  "wpC (bindC m f) R s = wpC m (\<lambda>r s'. case r of Inl e \<Rightarrow> R (Inl e) s' | Inr x \<Rightarrow> wpC (f x) R s') s"
  "wpC (tryC m) T s = wpC m (\<lambda>r s'. T (Inr r) s') s"
  "wpC (catchC m h) Q s = wpC m (\<lambda>r s'. case r of Inl e \<Rightarrow> wpC (h e) Q s' | Inr x \<Rightarrow> Q (Inr x) s') s"
  by (auto simp: wpC_def catchC_def returnC_def raiseC_def readC_def updC_def pureC_def bindC_def tryC_def split: option.split sum.split prod.split)

lemma wpC_mono: "wpC m Q s \<Longrightarrow> (\<And>r s'. Q r s' \<Longrightarrow> R r s') \<Longrightarrow> wpC m R s"
  by (auto simp: wpC_def split: option.splits)

lemma wpC_D: "wpC m Q s \<Longrightarrow> m s = Some (r, s') \<Longrightarrow> Q r s'"
  by (simp add: wpC_def)

lemma wpC_I: "(\<And>r s'. m s = Some (r, s') \<Longrightarrow> Q r s') \<Longrightarrow> wpC m Q s"
  by (auto simp: wpC_def split: option.split)

lemma wpC_conj: "wpC m Q s \<Longrightarrow> wpC m R s \<Longrightarrow> wpC m (\<lambda>r s'. Q r s' \<and> R r s') s"
  by (auto simp: wpC_def split: option.splits)

lemma wpC_True [simp]: "wpC m (\<lambda>r s'. True) s"
  by (simp add: wpC_def split: option.split)

section \<open>Programs that return\<close>

definition returns :: "('s, 'a) program \<Rightarrow> 's \<Rightarrow> bool" where
  "returns m s \<longleftrightarrow> m s \<noteq> None"

lemma returns_simps [simp]:
  "returns (returnC x) s" "returns (raiseC e) s" "returns (readC g) s" "returns (updC u) s" "returns (pureC r) s"
  "returns (tryC m) s = returns m s" "returns (liftC a) s"
  by (auto simp: returns_def returnC_def raiseC_def readC_def updC_def pureC_def liftC_def tryC_def split: option.split)

lemma returns_bind:
  "returns m s \<Longrightarrow> wpC m (\<lambda>r s'. case r of Inl e \<Rightarrow> True | Inr x \<Rightarrow> returns (f x) s') s \<Longrightarrow> returns (bindC m f) s"
  by (auto simp: returns_def wpC_def bindC_def split: option.splits sum.splits)

lemma returns_catch:
  "returns m s \<Longrightarrow> wpC m (\<lambda>r s'. case r of Inl e \<Rightarrow> returns (h e) s' | Inr x \<Rightarrow> True) s \<Longrightarrow> returns (catchC m h) s"
  unfolding catchC_def by (rule returns_bind) (auto elim!: wpC_mono split: sum.splits)

section \<open>Invariants of programs\<close>

text \<open>\<open>keeps T I m\<close>: from a state with \<open>I\<close> the program ends, if at all, in a state with \<open>I\<close>, and it
  does return when \<open>T\<close> is set.\<close>

definition keeps :: "bool \<Rightarrow> ('s \<Rightarrow> bool) \<Rightarrow> ('s, 'a) program \<Rightarrow> bool" where
  "keeps T I m \<longleftrightarrow> (\<forall>s. I s \<longrightarrow> (T \<longrightarrow> returns m s) \<and> wpC m (\<lambda>r s'. I s') s)"

lemma keepsD: "keeps T I m \<Longrightarrow> I s \<Longrightarrow> m s = Some (r, s') \<Longrightarrow> I s'"
  unfolding keeps_def using wpC_D[of m "\<lambda>r s'. I s'" s r s'] by blast

lemma keeps_total: "keeps True I m \<Longrightarrow> I s \<Longrightarrow> \<exists>r s'. m s = Some (r, s') \<and> I s'"
  by (fastforce simp: keeps_def returns_def wpC_def)

lemma keeps_totalI: "(\<And>s. I s \<Longrightarrow> \<exists>r s'. m s = Some (r, s') \<and> I s') \<Longrightarrow> keeps T I m"
  by (fastforce simp: keeps_def returns_def wpC_def split: option.split)

named_theorems keeps_intro

lemma keeps_basic [keeps_intro]:
  "keeps T I (returnC x)" "keeps T I (raiseC e)" "keeps T I (pureC r)" "keeps T I (readC g)"
  by (simp_all add: keeps_def)

lemma keeps_upd: "(\<And>s. I s \<Longrightarrow> I (u s)) \<Longrightarrow> keeps T I (updC u)"
  by (simp add: keeps_def)

lemma keeps_bind [keeps_intro]:
  assumes m: "keeps T I m" and f: "\<And>x. keeps T I (f x)"
  shows "keeps T I (bindC m f)"
  unfolding keeps_def
proof (intro allI impI)
  fix s assume s: "I s"
  have w: "wpC m (\<lambda>r s'. I s') s" using m s by (simp add: keeps_def)
  have f': "I s' \<Longrightarrow> (T \<longrightarrow> returns (f x) s') \<and> wpC (f x) (\<lambda>r s'. I s') s'" for x s'
    using f[of x] by (simp add: keeps_def)
  have "T \<longrightarrow> returns (bindC m f) s"
    using m s f' by (auto simp: keeps_def intro!: returns_bind elim!: wpC_mono split: sum.split)
  moreover have "wpC (bindC m f) (\<lambda>r s'. I s') s"
    using f' by (auto intro: wpC_mono[OF w] split: sum.split)
  ultimately show "(T \<longrightarrow> returns (bindC m f) s) \<and> wpC (bindC m f) (\<lambda>r s'. I s') s" ..
qed

lemma keeps_try [keeps_intro]: "keeps T I m \<Longrightarrow> keeps T I (tryC m)"
  by (simp add: keeps_def)

lemma keeps_catch [keeps_intro]: "keeps T I m \<Longrightarrow> (\<And>e. keeps T I (h e)) \<Longrightarrow> keeps T I (catchC m h)"
  unfolding catchC_def by (intro keeps_bind keeps_try) (auto split: sum.split intro: keeps_basic)

lemma keeps_branch [keeps_intro]:
  "(b \<Longrightarrow> keeps T I m) \<Longrightarrow> (\<not> b \<Longrightarrow> keeps T I n) \<Longrightarrow> keeps T I (if b then m else n)"
  by simp

lemma keeps_option [keeps_intro]:
  "(v = None \<Longrightarrow> keeps T I m) \<Longrightarrow> (\<And>x. v = Some x \<Longrightarrow> keeps T I (f x)) \<Longrightarrow> keeps T I (case v of None \<Rightarrow> m | Some x \<Rightarrow> f x)"
  by (cases v) simp_all

lemma keeps_sum [keeps_intro]:
  "(\<And>e. v = Inl e \<Longrightarrow> keeps T I (g e)) \<Longrightarrow> (\<And>x. v = Inr x \<Longrightarrow> keeps T I (f x)) \<Longrightarrow> keeps T I (case v of Inl e \<Rightarrow> g e | Inr x \<Rightarrow> f x)"
  by (cases v) simp_all

lemma keeps_prod [keeps_intro]: "(\<And>x y. v = (x, y) \<Longrightarrow> keeps T I (f x y)) \<Longrightarrow> keeps T I (case v of (x, y) \<Rightarrow> f x y)"
  by (cases v) simp

text \<open>A program that establishes \<open>J\<close>, followed by programs that keep it.\<close>

lemma wpC_keeps: "keeps T J m \<Longrightarrow> J s \<Longrightarrow> wpC m (\<lambda>r s'. J s') s"
  by (simp add: keeps_def)

lemma wpC_bind_keeps:
  "wpC m (\<lambda>r s'. J s') s \<Longrightarrow> (\<And>x. keeps T J (f x)) \<Longrightarrow> wpC (bindC m f) (\<lambda>r s'. J s') s"
  by (auto elim!: wpC_mono intro: wpC_keeps split: sum.split)

lemma wpC_catch_keeps:
  "wpC m (\<lambda>r s'. J s') s \<Longrightarrow> (\<And>e. keeps T J (h e)) \<Longrightarrow> wpC (catchC m h) (\<lambda>r s'. J s') s"
  by (auto elim!: wpC_mono intro: wpC_keeps split: sum.split)

section \<open>What a returned value says\<close>

text \<open>\<open>ends R m\<close>: when the program returns a value, \<open>R\<close> holds of it and the state at the end.\<close>

definition ends :: "('a \<Rightarrow> 's \<Rightarrow> bool) \<Rightarrow> ('s, 'a) program \<Rightarrow> bool" where
  "ends R m \<longleftrightarrow> (\<forall>s x s'. m s = Some (Inr x, s') \<longrightarrow> R x s')"

lemma endsD: "ends R m \<Longrightarrow> m s = Some (Inr x, s') \<Longrightarrow> R x s'"
  by (auto simp: ends_def)

lemma ends_mono: "ends R m \<Longrightarrow> (\<And>x s. R x s \<Longrightarrow> S x s) \<Longrightarrow> ends S m"
  by (auto simp: ends_def)

lemma bindC_value:
  "bindC m f s = Some (Inr y, s'') \<longleftrightarrow> (\<exists>x s'. m s = Some (Inr x, s') \<and> f x s' = Some (Inr y, s''))"
  by (auto simp: bindC_def split: option.splits sum.splits)

named_theorems ends_intro

lemma ends_basic [ends_intro]: "(\<And>s. R x s) \<Longrightarrow> ends R (returnC x)" "ends R (raiseC e)"
  by (simp_all add: ends_def returnC_def raiseC_def)

lemma ends_pure [ends_intro]: "(\<And>x s. r = Inr x \<Longrightarrow> R x s) \<Longrightarrow> ends R (pureC r)"
  by (auto simp: ends_def pureC_def)

lemma ends_bind: "(\<And>x. ends R (f x)) \<Longrightarrow> ends R (bindC m f)"
  unfolding ends_def bindC_value by blast

lemma ends_bind_value: "ends U m \<Longrightarrow> (\<And>x s. U x s \<Longrightarrow> ends R (f x)) \<Longrightarrow> ends R (bindC m f)"
  unfolding ends_def bindC_value by blast

lemma ends_bind_return: "ends U m \<Longrightarrow> (\<And>x s. U x s \<Longrightarrow> R (g x) s) \<Longrightarrow> ends R (bindC m (\<lambda>x. returnC (g x)))"
  unfolding ends_def bindC_value by (auto simp: returnC_def)

lemma ends_catch: "ends R m \<Longrightarrow> (\<And>e. ends R (h e)) \<Longrightarrow> ends R (catchC m h)"
  unfolding ends_def catchC_def bindC_value
  by (auto simp: tryC_def returnC_def split: option.splits sum.splits prod.splits)

lemma ends_branch [ends_intro]: "(b \<Longrightarrow> ends R m) \<Longrightarrow> (\<not> b \<Longrightarrow> ends R n) \<Longrightarrow> ends R (if b then m else n)"
  by simp

lemma ends_bind_pure: "(\<And>x. r = Inr x \<Longrightarrow> ends R (f x)) \<Longrightarrow> ends R (bindC (pureC r) f)"
  by (cases r) (simp_all add: ends_basic)

lemma ends_sum [ends_intro]:
  "(\<And>e. v = Inl e \<Longrightarrow> ends R (g e)) \<Longrightarrow> (\<And>x. v = Inr x \<Longrightarrow> ends R (f x)) \<Longrightarrow> ends R (case v of Inl e \<Rightarrow> g e | Inr x \<Rightarrow> f x)"
  by (cases v) simp_all

lemma ends_option [ends_intro]:
  "(v = None \<Longrightarrow> ends R m) \<Longrightarrow> (\<And>x. v = Some x \<Longrightarrow> ends R (f x)) \<Longrightarrow> ends R (case v of None \<Rightarrow> m | Some x \<Rightarrow> f x)"
  by (cases v) simp_all

end
