(* ===== verification/Ig_Client.thy ===== *)
theory Ig_Client
  imports Json Partial_Effects Constants
begin

text \<open>
  The broker client, \<open>src/trading/ig_client.py\<close>: sessions, the request loop with retries and rate
  limits, opening orders under one-use permits with the check of the attached protection, updates
  of the protection and their verification, closing, and the heartbeat.

  The HTTP library, the broker behind it and the texts of numbers are the parameters \<open>ig_env\<close>; the
  state is the client's fields with the outside world and the monotonic clock.  A sleep advances
  the clock by its length and whatever the event loop adds (\<open>ie_delay\<close>), a request by its duration;
  at both the task that lifts the rate limit runs when it is due.  Other coroutines do not run in
  between.  A request may wait for ever, so the operations are programs of \<open>Partial_Effects\<close>.
\<close>

section \<open>Requests and state\<close>

record http_request =
  rq_method :: string
  rq_path :: string
  rq_headers :: "(string \<times> string) list"
  rq_params :: "(string \<times> json) list"
  rq_json :: "json option"

record http_response =
  rp_status_code :: int
  rp_headers :: "(string, string) dict"
  rp_body :: "py_error + json"
  rp_text :: string

text \<open>\<open>ie_http\<close> answers or raises and says how long it took; \<open>ie_parse_int\<close>, \<open>ie_parse_float\<close>,
  \<open>ie_str\<close> and \<open>ie_str_float\<close> are \<open>int\<close>, \<open>float\<close> and \<open>str\<close> of the library.\<close>

record 'w ig_env =
  ie_http :: "http_request \<Rightarrow> 'w \<Rightarrow> (py_error + http_response) \<times> nat \<times> 'w"
  ie_delay :: "'w \<Rightarrow> nat"
  ie_uuid_hex :: "'w \<Rightarrow> string \<times> 'w"
  ie_parse_int :: "string \<Rightarrow> py_error + int"
  ie_parse_float :: "string \<Rightarrow> py_error + pyfloat"
  ie_str :: "json \<Rightarrow> string"
  ie_str_float :: "pyfloat \<Rightarrow> string"

definition BASE_URL_DEMO :: string where "BASE_URL_DEMO = ''https://demo-api.ig.com/gateway/deal''"
definition BASE_URL_LIVE :: string where "BASE_URL_LIVE = ''https://api.ig.com/gateway/deal''"

text \<open>The clock counts nanoseconds.  \<open>ic_resume_at\<close> is the time at which the pending task
  \<open>_rate_limit_resume_task\<close> lifts the rate limit.\<close>

record 'w ig_client =
  ic_api_key :: string
  ic_username :: string
  ic_password :: string
  ic_account_type :: string
  ic_base_url :: string
  ic_has_client :: bool
  ic_cst :: "string option"
  ic_security_token :: "string option"
  ic_rate_limited :: bool
  ic_rate_limit_reset_time :: secs
  ic_resume_at :: "int option"
  ic_heartbeat :: bool
  ic_running :: bool
  ic_account_currency :: "string option"
  ic_last_price :: "(string, pyfloat) dict"
  ic_permits :: "string list"
  ic_clock :: int
  ic_world :: 'w

definition ig_client_init :: "string \<Rightarrow> string \<Rightarrow> string \<Rightarrow> string \<Rightarrow> int \<Rightarrow> 'w \<Rightarrow> 'w ig_client" where
  "ig_client_init key user pw account_type t w =
     \<lparr>ic_api_key = key, ic_username = user, ic_password = pw, ic_account_type = py_upper account_type,
      ic_base_url = (if py_upper account_type = ''LIVE'' then BASE_URL_LIVE else BASE_URL_DEMO),
      ic_has_client = False, ic_cst = None, ic_security_token = None, ic_rate_limited = False,
      ic_rate_limit_reset_time = 0, ic_resume_at = None, ic_heartbeat = False, ic_running = False,
      ic_account_currency = None, ic_last_price = [], ic_permits = [], ic_clock = t, ic_world = w\<rparr>"

type_synonym ('w, 'a) ig = "('w ig_client, 'a) program"

section \<open>Time\<close>

text \<open>\<open>_resume_after_rate_limit\<close>: the task runs once its time has come.\<close>

definition resume_after_rate_limit :: "'w ig_client \<Rightarrow> 'w ig_client" where
  "resume_after_rate_limit c =
     (case ic_resume_at c of
        Some t \<Rightarrow> if t \<le> ic_clock c then c\<lparr>ic_rate_limited := False, ic_resume_at := None\<rparr> else c
      | None \<Rightarrow> c)"

definition monotonic :: "'w ig_client \<Rightarrow> secs" where
  "monotonic c = flt (of_int (ic_clock c) / 1000000000)"

definition nanos :: "rat \<Rightarrow> int" where
  "nanos s = \<lceil>s * 1000000000\<rceil>"

definition sleep :: "'w ig_env \<Rightarrow> rat \<Rightarrow> ('w, unit) ig" where
  "sleep env s = updC (\<lambda>c. resume_after_rate_limit
     (c\<lparr>ic_clock := ic_clock c + max 0 (nanos s) + int (ie_delay env (ic_world c))\<rparr>))"

definition http :: "'w ig_env \<Rightarrow> http_request \<Rightarrow> ('w, http_response) ig" where
  "http env rq c =
     (case ie_http env rq (ic_world c) of
        (r, took, w) \<Rightarrow> Some (r, resume_after_rate_limit (c\<lparr>ic_clock := ic_clock c + int took, ic_world := w\<rparr>)))"

section \<open>Authentication\<close>

definition truthy_text :: "string option \<Rightarrow> bool" where
  "truthy_text x = (case x of Some s \<Rightarrow> s \<noteq> [] | None \<Rightarrow> False)"

definition auth_headers :: "string \<Rightarrow> 'w ig_client \<Rightarrow> (string \<times> string) list" where
  "auth_headers version c =
     [(''X-IG-API-KEY'', ic_api_key c), (''Content-Type'', ''application/json''),
      (''Accept'', ''application/json; charset=UTF-8''), (''VERSION'', version)] @
     (if truthy_text (ic_cst c) then [(''CST'', the (ic_cst c))] else []) @
     (if truthy_text (ic_security_token c) then [(''X-SECURITY-TOKEN'', the (ic_security_token c))] else [])"

definition no_client :: py_error where
  "no_client = IGConnectionError (FMsg ''HTTP client not initialized'' [])"

fun is_http_error :: "py_error \<Rightarrow> bool" where
  "is_http_error (HttpError s) = True"
| "is_http_error _ = False"

text \<open>The attempt of \<open>login\<close>: whether it is over, unless it raises.\<close>

definition login_attempt :: "'w ig_env \<Rightarrow> ('w, bool) ig" where
  "login_attempt env =
     catchC
       (bindC (readC id) (\<lambda>c.
        if \<not> ic_has_client c then raiseC no_client
        else bindC (http env
               \<lparr>rq_method = ''POST'', rq_path = ''/session'',
                rq_headers = [(''X-IG-API-KEY'', ic_api_key c), (''Content-Type'', ''application/json''),
                  (''Accept'', ''application/json; charset=UTF-8''), (''VERSION'', ''2'')],
                rq_params = [],
                rq_json = Some (JObj [(''identifier'', JStr (ic_username c)), (''password'', JStr (ic_password c))])\<rparr>)
             (\<lambda>response.
                if rp_status_code response = 200
                then bindC (updC (\<lambda>c. c\<lparr>ic_cst := map_of (rp_headers response) ''CST'',
                       ic_security_token := map_of (rp_headers response) ''X-SECURITY-TOKEN''\<rparr>)) (\<lambda>_. returnC True)
                else returnC False)))
       (\<lambda>e. if is_http_error e then returnC False else raiseC e)"

fun login_loop :: "'w ig_env \<Rightarrow> nat \<Rightarrow> nat \<Rightarrow> ('w, bool) ig" where
  "login_loop env attempt 0 = returnC False"
| "login_loop env attempt (Suc left) =
     bindC (login_attempt env) (\<lambda>ok.
       if ok then returnC True
       else bindC (if 0 < left then sleep env (of_int (API_RETRY_BASE_SECONDS * 2 ^ attempt)) else returnC ())
              (\<lambda>_. login_loop env (Suc attempt) left))"

definition login :: "'w ig_env \<Rightarrow> ('w, bool) ig" where
  "login env = login_loop env 0 3"

definition refresh_session :: "'w ig_env \<Rightarrow> ('w, bool) ig" where
  "refresh_session env =
     catchC
       (bindC (readC id) (\<lambda>c.
        if \<not> ic_has_client c then returnC False
        else bindC (http env \<lparr>rq_method = ''PUT'', rq_path = ''/session'', rq_headers = auth_headers ''1'' c,
               rq_params = [], rq_json = None\<rparr>) (\<lambda>response.
               if rp_status_code response = 200
               then bindC (updC (\<lambda>c. c\<lparr>
                      ic_cst := (case map_of (rp_headers response) ''CST'' of Some x \<Rightarrow> Some x | None \<Rightarrow> ic_cst c),
                      ic_security_token := (case map_of (rp_headers response) ''X-SECURITY-TOKEN'' of Some x \<Rightarrow> Some x | None \<Rightarrow> ic_security_token c)\<rparr>))
                    (\<lambda>_. returnC True)
               else returnC False)))
       (\<lambda>e. if is_http_error e then returnC False else raiseC e)"

section \<open>Rate limits\<close>

fun is_value_error :: "py_error \<Rightarrow> bool" where
  "is_value_error (ValueError s) = True"
| "is_value_error _ = False"

definition retry_after :: "'w ig_env \<Rightarrow> http_response \<Rightarrow> py_error + int" where
  "retry_after env response =
     (case ie_parse_int env (or_default (map_of (rp_headers response) ''Retry-After'') ''60'') of
        Inr n \<Rightarrow> Inr n
      | Inl e \<Rightarrow> if is_value_error e then Inr 60 else Inl e)"

text \<open>The resume task is only created when none is pending; its sleep starts with it.\<close>

definition handle_rate_limit :: "'w ig_env \<Rightarrow> http_response \<Rightarrow> ('w, unit) ig" where
  "handle_rate_limit env response =
     bindC (pureC (retry_after env response)) (\<lambda>wait_seconds.
     updC (\<lambda>c. c\<lparr>ic_rate_limited := True,
                 ic_rate_limit_reset_time := f_add (monotonic c) (of_int wait_seconds),
                 ic_resume_at := (case ic_resume_at c of
                                    Some t \<Rightarrow> Some t
                                  | None \<Rightarrow> Some (ic_clock c + max 0 (wait_seconds * 1000000000)))\<rparr>))"

definition latency_rejection :: "secs \<Rightarrow> py_error" where
  "latency_rejection queued_ms =
     HFTLatencyRejectionError (FMsg ''HFT order cancelled due to excessive queuing latency''
       [FNum queued_ms, FInt HFT_LATENCY_REJECTION_MS])"

definition check_latency :: "secs \<Rightarrow> bool \<Rightarrow> ('w, unit) ig" where
  "check_latency enqueue_time hft =
     bindC (readC monotonic) (\<lambda>now.
       let queued_ms = f_mul (f_sub now enqueue_time) 1000
       in if hft \<and> of_int HFT_LATENCY_REJECTION_MS < queued_ms then raiseC (latency_rejection queued_ms)
          else returnC ())"

text \<open>The polling loop: it may not end.\<close>

partial_function (option) wait_for_rate_limit_clear :: "'w ig_env \<Rightarrow> secs \<Rightarrow> bool \<Rightarrow> 'w ig_client \<Rightarrow> ((py_error + unit) \<times> 'w ig_client) option" where
  "wait_for_rate_limit_clear env enqueue_time hft c =
     (if \<not> ic_rate_limited c then Some (Inr (), c)
      else case check_latency enqueue_time hft c of
        Some (Inr _, c1) \<Rightarrow>
          (case sleep env (1/20) c1 of
             Some (r, c2) \<Rightarrow> wait_for_rate_limit_clear env enqueue_time hft c2
           | None \<Rightarrow> None)
      | Some (Inl e, c1) \<Rightarrow> Some (Inl e, c1)
      | None \<Rightarrow> None)"

section \<open>The request loop\<close>

record request_spec =
  rs_method :: string
  rs_path :: string
  rs_version :: string
  rs_hft :: bool
  rs_params :: "(string \<times> json) list"
  rs_json :: "json option"

text \<open>One round of the loop: an answer to return, the decision to go on at once (\<open>continue\<close>), or an
  HTTP error.\<close>

datatype round_result = Answer http_response | Continue | Failed py_error

definition send_request :: "'w ig_env \<Rightarrow> request_spec \<Rightarrow> ('w, http_response) ig" where
  "send_request env q =
     bindC (readC id) (\<lambda>c.
       if \<not> ic_has_client c then raiseC no_client
       else http env \<lparr>rq_method = rs_method q, rq_path = rs_path q, rq_headers = auth_headers (rs_version q) c,
              rq_params = rs_params q, rq_json = rs_json q\<rparr>)"

definition request_round :: "'w ig_env \<Rightarrow> request_spec \<Rightarrow> ('w, round_result) ig" where
  "request_round env q =
     catchC
       (bindC (send_request env q) (\<lambda>response.
          if rp_status_code response = 429 then bindC (handle_rate_limit env response) (\<lambda>_. returnC Continue)
          else if rp_status_code response = 401 then
            bindC (refresh_session env) (\<lambda>refreshed.
            bindC (if refreshed then returnC True else login env) (\<lambda>_. returnC Continue))
          else returnC (Answer response)))
       (\<lambda>e. if is_http_error e then returnC (Failed e) else raiseC e)"

definition exhausted :: "request_spec \<Rightarrow> py_error option \<Rightarrow> py_error" where
  "exhausted q last_exception =
     IGConnectionError (FMsg ''All retry attempts exhausted''
       ([FStr (rs_method q), FStr (rs_path q), FInt API_RETRY_MAX_ATTEMPTS] @
        (case last_exception of Some e \<Rightarrow> [FExc e] | None \<Rightarrow> [])))"

fun request_loop ::
  "'w ig_env \<Rightarrow> request_spec \<Rightarrow> secs \<Rightarrow> nat \<Rightarrow> nat \<Rightarrow> py_error option \<Rightarrow> ('w, http_response) ig" where
  "request_loop env q enqueue_time attempt 0 last_exception = raiseC (exhausted q last_exception)"
| "request_loop env q enqueue_time attempt (Suc left) last_exception =
     bindC (check_latency enqueue_time (rs_hft q)) (\<lambda>_.
     bindC (request_round env q) (\<lambda>r.
       case r of
         Answer response \<Rightarrow> returnC response
       | Continue \<Rightarrow> request_loop env q enqueue_time (Suc attempt) left last_exception
       | Failed e \<Rightarrow>
           bindC (if 0 < left then sleep env (of_int (API_RETRY_BASE_SECONDS * 2 ^ attempt)) else returnC ())
             (\<lambda>_. request_loop env q enqueue_time (Suc attempt) left (Some e))))"

text \<open>Nothing is ever put into \<open>_rate_limit_queue\<close>, so it is never full.\<close>

definition request :: "'w ig_env \<Rightarrow> request_spec \<Rightarrow> ('w, http_response) ig" where
  "request env q =
     bindC (readC monotonic) (\<lambda>enqueue_time.
     bindC (readC ic_rate_limited) (\<lambda>limited.
     bindC (if limited then bindC (check_latency enqueue_time (rs_hft q)) (\<lambda>_. wait_for_rate_limit_clear env enqueue_time (rs_hft q))
            else returnC ()) (\<lambda>_.
       request_loop env q enqueue_time 0 (nat API_RETRY_MAX_ATTEMPTS) None)))"

section \<open>Reading\<close>

definition plain :: "string \<Rightarrow> string \<Rightarrow> string \<Rightarrow> request_spec" where
  "plain meth path version =
     \<lparr>rs_method = meth, rs_path = path, rs_version = version, rs_hft = False, rs_params = [], rs_json = None\<rparr>"

text \<open>\<open>response.json()\<close> of a request.\<close>

definition request_json :: "'w ig_env \<Rightarrow> request_spec \<Rightarrow> ('w, json) ig" where
  "request_json env q = bindC (request env q) (\<lambda>response. pureC (rp_body response))"

definition get_positions :: "'w ig_env \<Rightarrow> ('w, json) ig" where
  "get_positions env = bindC (request_json env (plain ''GET'' ''/positions'' ''2'')) (\<lambda>data. pureC (get_or data ''positions'' (JList [])))"

definition get_position :: "'w ig_env \<Rightarrow> string \<Rightarrow> ('w, json) ig" where
  "get_position env deal_id =
     bindC (request env (plain ''GET'' (''/positions/'' @ deal_id) ''2'')) (\<lambda>response.
       if \<not> (200 \<le> rp_status_code response \<and> rp_status_code response < 300)
       then raiseC (IGConnectionError (FMsg ''IG position lookup failed''
              [FStr deal_id, FInt (rp_status_code response), FStr (take 200 (rp_text response))]))
       else case rp_body response of
         Inl e \<Rightarrow>
           raiseC (if is_value_error e
                   then IGConnectionError (FMsg ''IG position lookup returned invalid JSON''
                          [FStr deal_id, FInt (rp_status_code response)])
                   else e)
       | Inr data \<Rightarrow> pureC (get_or data ''position'' data))"

definition get_transaction_history :: "'w ig_env \<Rightarrow> int \<Rightarrow> int \<Rightarrow> ('w, json) ig" where
  "get_transaction_history env max_span_seconds page_size =
     bindC (request_json env ((plain ''GET'' ''/history/transactions'' ''2'')
       \<lparr>rs_params := [(''type'', JStr ''ALL_DEAL''), (''maxSpanSeconds'', JNum (of_int max_span_seconds)),
          (''pageSize'', JNum (of_int page_size)), (''pageNumber'', JNum 1)]\<rparr>))
       (\<lambda>data. pureC (get_or data ''transactions'' (JList [])))"

text \<open>\<open>(float(bid) + float(offer)) / 2\<close>, kept only when neither conversion fails on its value.\<close>

definition mid_price :: "'w ig_env \<Rightarrow> json \<Rightarrow> json \<Rightarrow> py_error + pyfloat" where
  "mid_price env bid offer =
     bindE (float_of_json (ie_parse_float env) bid) (\<lambda>b.
     bindE (float_of_json (ie_parse_float env) offer) (\<lambda>a. Inr (f_quot (f_add b a) 2)))"

fun is_type_or_value_error :: "py_error \<Rightarrow> bool" where
  "is_type_or_value_error (TypeError s) = True"
| "is_type_or_value_error (ValueError s) = True"
| "is_type_or_value_error _ = False"

definition get_market_details :: "'w ig_env \<Rightarrow> string \<Rightarrow> ('w, json) ig" where
  "get_market_details env epic =
     bindC (request_json env (plain ''GET'' (''/markets/'' @ epic) ''3'')) (\<lambda>data.
     bindC (pureC (get_or data ''snapshot'' (JObj []))) (\<lambda>snapshot.
     bindC (pureC (get snapshot ''bid'')) (\<lambda>bid.
     bindC (pureC (get snapshot ''offer'')) (\<lambda>offer.
     bindC (if bid \<noteq> JNull \<and> offer \<noteq> JNull then
              (case mid_price env bid offer of
                 Inr p \<Rightarrow> updC (\<lambda>c. c\<lparr>ic_last_price := AList.update epic p (ic_last_price c)\<rparr>)
               | Inl e \<Rightarrow> if is_type_or_value_error e then returnC () else raiseC e)
            else returnC ()) (\<lambda>_.
       returnC data)))))"

text \<open>The printed \<open>len\<close> needs a value that has one.\<close>

fun sized :: "json \<Rightarrow> py_error + json" where
  "sized (JList xs) = Inr (JList xs)"
| "sized (JStr s) = Inr (JStr s)"
| "sized (JObj d) = Inr (JObj d)"
| "sized _ = Inl (TypeError ''object has no len()'')"

definition get_prices :: "'w ig_env \<Rightarrow> string \<Rightarrow> string \<Rightarrow> int \<Rightarrow> ('w, json) ig" where
  "get_prices env epic resolution num_points =
     bindC (request_json env ((plain ''GET'' (''/prices/'' @ epic) ''3'')
       \<lparr>rs_params := [(''resolution'', JStr resolution), (''max'', JNum (of_int num_points)), (''pageSize'', JNum (of_int num_points))]\<rparr>))
       (\<lambda>data. pureC (bindE (get_or data ''prices'' (JList [])) sized))"

definition KNOWN_SCALING :: "(string, pyfloat) dict" where
  "KNOWN_SCALING = [(''CS.D.EURUSD.CFD.IP'', 10000), (''CS.D.GBPUSD.CFD.IP'', 10000), (''CS.D.USDJPY.CFD.IP'', 100),
     (''IX.D.FTSE.DAILY.IP'', 1), (''IX.D.DAX.DAILY.IP'', 1)]"

definition scaling_in :: "json \<Rightarrow> py_error + json" where
  "scaling_in details =
     bindE (get_or details ''snapshot'' (JObj [])) (\<lambda>snapshot.
     bindE (get snapshot ''scalingFactor'') (\<lambda>x.
       if json_truthy x then Inr x
       else bindE (get_or details ''instrument'' (JObj [])) (\<lambda>instrument. get instrument ''scalingFactor'')))"

definition get_scaling_factor :: "'w ig_env \<Rightarrow> string \<Rightarrow> ('w, pyfloat) ig" where
  "get_scaling_factor env epic =
     (case map_of KNOWN_SCALING epic of
        Some x \<Rightarrow> returnC x
      | None \<Rightarrow>
          catchC
            (bindC (get_market_details env epic) (\<lambda>details.
             bindC (pureC (scaling_in details)) (\<lambda>scaling.
               if scaling \<noteq> JNull then pureC (float_of_json (ie_parse_float env) scaling) else returnC 1)))
            (\<lambda>_. returnC 1))"

section \<open>Closing\<close>

definition fetch_confirm :: "'w ig_env \<Rightarrow> json \<Rightarrow> ('w, json) ig" where
  "fetch_confirm env deal_ref = request_json env (plain ''GET'' (''/confirms/'' @ str_json (ie_str env) deal_ref) ''1'')"

text \<open>One request without the retry loop; the confirmation is returned whatever its status is.\<close>

definition close_position :: "'w ig_env \<Rightarrow> string \<Rightarrow> string \<Rightarrow> pyfloat \<Rightarrow> ('w, json) ig" where
  "close_position env deal_id direction lots =
     bindC (readC id) (\<lambda>c.
     if \<not> ic_has_client c then raiseC no_client
     else
       bindC (http env \<lparr>rq_method = ''POST'', rq_path = ''/positions/otc'',
                rq_headers = auth_headers ''1'' c @ [(''_method'', ''DELETE'')], rq_params = [],
                rq_json = Some (JObj [(''dealId'', JStr deal_id), (''direction'', JStr direction),
                  (''size'', JStr (ie_str_float env lots)), (''orderType'', JStr ''MARKET'')])\<rparr>) (\<lambda>response.
       bindC (pureC (rp_body response)) (\<lambda>result.
       bindC (pureC (get result ''dealReference'')) (\<lambda>deal_ref.
         if json_truthy deal_ref then
           catchC (bindC (fetch_confirm env deal_ref) (\<lambda>confirm.
                   bindC (pureC (get confirm ''dealStatus'')) (\<lambda>_. returnC confirm)))
             (\<lambda>_. returnC result)
         else returnC result))))"

section \<open>Opening orders\<close>

fun is_ig_connection_error :: "py_error \<Rightarrow> bool" where
  "is_ig_connection_error (IGConnectionError m) = True"
| "is_ig_connection_error (IGAuthenticationError m) = True"
| "is_ig_connection_error (RateLimitError m) = True"
| "is_ig_connection_error _ = False"

definition issue_opening_order_permit :: "'w ig_env \<Rightarrow> ('w, string) ig" where
  "issue_opening_order_permit env c =
     (case ie_uuid_hex env (ic_world c) of
        (hex, w) \<Rightarrow>
          let permit = ''GUARDED-'' @ py_upper (take 24 hex)
          in Some (Inr permit, c\<lparr>ic_permits := List.insert permit (ic_permits c), ic_world := w\<rparr>))"

text \<open>The three read-backs: the position read last, and whether it shows both levels.\<close>

definition has_both_levels :: "json \<Rightarrow> py_error + bool" where
  "has_both_levels p =
     bindE (get p ''stopLevel'') (\<lambda>st. if st = JNull then Inr False else
     bindE (get p ''limitLevel'') (\<lambda>li. Inr (li \<noteq> JNull)))"

fun protection_loop :: "'w ig_env \<Rightarrow> string \<Rightarrow> nat \<Rightarrow> json \<Rightarrow> ('w, bool \<times> json) ig" where
  "protection_loop env deal_id 0 last_position = returnC (False, last_position)"
| "protection_loop env deal_id (Suc left) last_position =
     bindC (tryC (get_position env deal_id)) (\<lambda>r.
       let p = (case r of Inr p \<Rightarrow> p | Inl _ \<Rightarrow> last_position);
           ok = (case r of Inr p \<Rightarrow> has_both_levels p = Inr True | Inl _ \<Rightarrow> False)
       in if ok then returnC (True, p)
          else bindC (if 0 < left then sleep env (1/2) else returnC ()) (\<lambda>_. protection_loop env deal_id left p))"

definition emergency_close :: "'w ig_env \<Rightarrow> string \<Rightarrow> json \<Rightarrow> string \<Rightarrow> pyfloat \<Rightarrow> json \<Rightarrow> ('w, unit) ig" where
  "emergency_close env deal_id deal_reference opening_direction lots last_position =
     (let close_direction = (if opening_direction = ''BUY'' then ''SELL'' else ''BUY'')
      in bindC (tryC (close_position env deal_id close_direction lots)) (\<lambda>closed.
         case closed of
           Inl close_exc \<Rightarrow>
             raiseC (IGConnectionError (FMsg ''Unprotected position detected and emergency close failed''
               [FStr deal_id, FStr (str_json (ie_str env) deal_reference), FExc close_exc]))
         | Inr _ \<Rightarrow>
             bindC (pureC (get last_position ''stopLevel'')) (\<lambda>actual_stop.
             bindC (pureC (get last_position ''limitLevel'')) (\<lambda>actual_limit.
             raiseC (IGConnectionError (FMsg ''Unprotected position detected and emergency closed''
               [FStr deal_id, FStr (str_json (ie_str env) deal_reference),
                FStr (str_json (ie_str env) actual_stop), FStr (str_json (ie_str env) actual_limit)]))))))"

definition verify_attached_protection :: "'w ig_env \<Rightarrow> string \<Rightarrow> json \<Rightarrow> string \<Rightarrow> pyfloat \<Rightarrow> ('w, unit) ig" where
  "verify_attached_protection env deal_id deal_reference opening_direction lots =
     bindC (protection_loop env deal_id 3 (JObj [])) (\<lambda>x.
       if fst x then returnC ()
       else emergency_close env deal_id deal_reference opening_direction lots (snd x))"

definition get_instrument_currency :: "string \<Rightarrow> string" where
  "get_instrument_currency epic =
     or_default (map_of [(''CS.D.EURUSD.CFD.IP'', ''USD''), (''CS.D.GBPUSD.CFD.IP'', ''USD''), (''CS.D.USDJPY.CFD.IP'', ''USD''),
       (''IX.D.FTSE.DAILY.IP'', ''GBP''), (''IX.D.DAX.DAILY.IP'', ''EUR'')] epic) ''USD''"

definition order_payload :: "'w ig_env \<Rightarrow> string \<Rightarrow> string \<Rightarrow> pyfloat \<Rightarrow> pyfloat \<Rightarrow> pyfloat \<Rightarrow> string \<Rightarrow> json" where
  "order_payload env epic direction lots stop_points limit_points permit =
     JObj [(''epic'', JStr epic), (''direction'', JStr direction), (''size'', JStr (ie_str_float env lots)),
       (''orderType'', JStr ''MARKET''), (''expiry'', JStr ''-''), (''currencyCode'', JStr (get_instrument_currency epic)),
       (''guaranteedStop'', JBool False), (''trailingStop'', JBool False), (''forceOpen'', JBool True),
       (''stopDistance'', JStr (ie_str_float env stop_points)), (''limitDistance'', JStr (ie_str_float env limit_points)),
       (''dealReference'', JStr permit)]"

text \<open>The \<open>try\<close> after the order was sent: the confirmation to return, and the check of an accepted
  order.\<close>

definition confirm_order :: "'w ig_env \<Rightarrow> string \<Rightarrow> pyfloat \<Rightarrow> json \<Rightarrow> ('w, json) ig" where
  "confirm_order env direction lots deal_ref =
     bindC (fetch_confirm env deal_ref) (\<lambda>confirm.
     bindC (pureC (get_or confirm ''dealStatus'' (JStr []))) (\<lambda>status.
     bindC (if str_upper_is ''ACCEPTED'' status then
              bindC (pureC (get confirm ''dealId'')) (\<lambda>deal_id.
                if \<not> json_truthy deal_id
                then raiseC (IGConnectionError (FMsg ''Accepted opening order did not include a deal ID''
                       [FStr (str_json (ie_str env) deal_ref)]))
                else verify_attached_protection env (str_json (ie_str env) deal_id) deal_ref direction lots)
            else returnC ()) (\<lambda>_.
       returnC confirm)))"

definition blocked :: "string \<Rightarrow> string \<Rightarrow> py_error" where
  "blocked msg epic = IGConnectionError (FMsg msg [FStr epic])"

definition NO_PERMIT :: string where "NO_PERMIT = ''Opening order blocked: missing or invalid guarded execution permit''"
definition NO_LEVELS :: string where "NO_LEVELS = ''Opening order blocked: broker-side stop and limit are required''"
definition BAD_LEVELS :: string where "BAD_LEVELS = ''Opening order blocked: stop and limit distances must be positive''"

definition send_order ::
  "'w ig_env \<Rightarrow> string \<Rightarrow> string \<Rightarrow> pyfloat \<Rightarrow> pyfloat \<Rightarrow> pyfloat \<Rightarrow> bool \<Rightarrow> string \<Rightarrow> ('w, json) ig" where
  "send_order env epic direction lots stop_distance limit_distance hft permit =
     bindC (get_scaling_factor env epic) (\<lambda>scaling_factor.
     bindC (request_json env \<lparr>rs_method = ''POST'', rs_path = ''/positions/otc'', rs_version = ''2'', rs_hft = hft, rs_params = [],
        rs_json = Some (order_payload env epic direction lots (f_mul stop_distance scaling_factor) (f_mul limit_distance scaling_factor) permit)\<rparr>)
       (\<lambda>result.
     bindC (pureC (get result ''dealReference'')) (\<lambda>given.
       let deal_ref = (if json_truthy given then given else JStr permit)
       in if json_truthy deal_ref then
            catchC (confirm_order env direction lots deal_ref)
              (\<lambda>e. if is_ig_connection_error e then raiseC e else returnC result)
          else returnC result)))"

definition place_order ::
  "'w ig_env \<Rightarrow> string \<Rightarrow> string \<Rightarrow> pyfloat \<Rightarrow> pyfloat option \<Rightarrow> pyfloat option \<Rightarrow> bool \<Rightarrow> string option \<Rightarrow> ('w, json) ig" where
  "place_order env epic direction lots stop_distance limit_distance hft execution_permit =
     bindC (readC ic_permits) (\<lambda>permits.
     case execution_permit of
       None \<Rightarrow> raiseC (blocked NO_PERMIT epic)
     | Some permit \<Rightarrow>
         if permit \<notin> set permits then raiseC (blocked NO_PERMIT epic)
         else bindC (updC (\<lambda>c. c\<lparr>ic_permits := remove1 permit (ic_permits c)\<rparr>)) (\<lambda>_.
           case (stop_distance, limit_distance) of
             (Some st, Some li) \<Rightarrow>
               if st \<le> 0 \<or> li \<le> 0 then raiseC (blocked BAD_LEVELS epic)
               else send_order env epic direction lots st li hft permit
           | _ \<Rightarrow> raiseC (blocked NO_LEVELS epic)))"

section \<open>Updating the protection\<close>

text \<open>\<open>math.isclose\<close> with the tolerances of the code.\<close>

definition is_close :: "pyfloat \<Rightarrow> pyfloat \<Rightarrow> bool" where
  "is_close a b =
     (a = b \<or> (let diff = \<bar>f_sub b a\<bar>
               in diff \<le> \<bar>f_mul (flt (1 / 10 ^ 9)) b\<bar> \<or> diff \<le> \<bar>f_mul (flt (1 / 10 ^ 9)) a\<bar> \<or> diff \<le> flt (1 / 10 ^ 5)))"

definition levels_match :: "'w ig_env \<Rightarrow> json \<Rightarrow> pyfloat option \<Rightarrow> py_error + bool" where
  "levels_match env actual expected =
     (case expected of
        None \<Rightarrow> Inr True
      | Some x \<Rightarrow>
          (case float_of_json (ie_parse_float env) actual of
             Inr a \<Rightarrow> Inr (is_close a x)
           | Inl e \<Rightarrow> if is_type_or_value_error e then Inr False else Inl e))"

text \<open>What one read-back shows: whether both levels match, unless reading raises.\<close>

definition protection_matches :: "'w ig_env \<Rightarrow> pyfloat option \<Rightarrow> pyfloat option \<Rightarrow> json \<Rightarrow> py_error + bool" where
  "protection_matches env stop_level limit_level p =
     bindE (get p ''stopLevel'') (\<lambda>s.
     bindE (levels_match env s stop_level) (\<lambda>stop_matches.
     bindE (get p ''limitLevel'') (\<lambda>l.
     bindE (levels_match env l limit_level) (\<lambda>limit_matches.
       Inr (stop_matches \<and> limit_matches)))))"

fun readback_loop ::
  "'w ig_env \<Rightarrow> string \<Rightarrow> pyfloat option \<Rightarrow> pyfloat option \<Rightarrow> nat \<Rightarrow> json \<Rightarrow> py_error option \<Rightarrow> ('w, bool \<times> json \<times> py_error option) ig" where
  "readback_loop env deal_id stop_level limit_level 0 last_position last_error = returnC (False, last_position, last_error)"
| "readback_loop env deal_id stop_level limit_level (Suc left) last_position last_error =
     bindC (tryC (get_position env deal_id)) (\<lambda>r.
       let p = (case r of Inr p \<Rightarrow> p | Inl _ \<Rightarrow> last_position);
           m = (case r of Inr p \<Rightarrow> protection_matches env stop_level limit_level p | Inl e \<Rightarrow> Inl e);
           err = (case m of Inl e \<Rightarrow> Some e | Inr _ \<Rightarrow> last_error)
       in if m = Inr True then returnC (True, p, err)
          else bindC (if 0 < left then sleep env (1/2) else returnC ())
                 (\<lambda>_. readback_loop env deal_id stop_level limit_level left p err))"

definition level_arg :: "pyfloat option \<Rightarrow> farg" where
  "level_arg x = (case x of Some v \<Rightarrow> FNum v | None \<Rightarrow> FStr ''None'')"

definition verify_position_protection ::
  "'w ig_env \<Rightarrow> string \<Rightarrow> pyfloat option \<Rightarrow> pyfloat option \<Rightarrow> json \<Rightarrow> ('w, json) ig" where
  "verify_position_protection env deal_id stop_level limit_level deal_reference =
     bindC (readback_loop env deal_id stop_level limit_level 3 (JObj []) None) (\<lambda>(ok, p, last_error).
     bindC (pureC (get p ''stopLevel'')) (\<lambda>actual_stop.
     bindC (pureC (get p ''limitLevel'')) (\<lambda>actual_limit.
       if ok then
         returnC (JObj [(''dealStatus'', JStr ''ACCEPTED''), (''dealId'', JStr deal_id), (''dealReference'', deal_reference),
           (''stopLevel'', actual_stop), (''limitLevel'', actual_limit), (''verifiedByPositionReadback'', JBool True)])
       else raiseC (IGConnectionError (FMsg ''Could not verify SL/TP protection after IG update''
         ([FStr deal_id, level_arg stop_level, level_arg limit_level, FStr (str_json (ie_str env) actual_stop),
           FStr (str_json (ie_str env) actual_limit)] @ (case last_error of Some e \<Rightarrow> [FExc e] | None \<Rightarrow> [])))))))"

definition rejected :: "'w ig_env \<Rightarrow> string \<Rightarrow> json \<Rightarrow> json \<Rightarrow> py_error" where
  "rejected env deal_id deal_ref reason =
     IGConnectionError (FMsg ''IG rejected SL/TP update'' [FStr deal_id, FStr (str_json (ie_str env) deal_ref), FStr (str_json (ie_str env) reason)])"

text \<open>The confirmation of an update: the answer to return, or None to go on.\<close>

definition confirm_update :: "'w ig_env \<Rightarrow> string \<Rightarrow> json \<Rightarrow> ('w, json option) ig" where
  "confirm_update env deal_id deal_ref =
     catchC
       (bindC (fetch_confirm env deal_ref) (\<lambda>confirm_data.
        bindC (pureC (get_or confirm_data ''dealStatus'' (JStr []))) (\<lambda>status.
          if str_upper_is ''ACCEPTED'' status then returnC (Some confirm_data)
          else if str_upper_is ''REJECTED'' status
          then bindC (pureC (get confirm_data ''reason'')) (\<lambda>reason. raiseC (rejected env deal_id deal_ref reason))
          else returnC None)))
       (\<lambda>e. if is_ig_connection_error e then raiseC e else returnC None)"

definition update_position_sl_tp :: "'w ig_env \<Rightarrow> string \<Rightarrow> pyfloat option \<Rightarrow> pyfloat option \<Rightarrow> ('w, json) ig" where
  "update_position_sl_tp env deal_id stop_level limit_level =
     bindC (request env ((plain ''PUT'' (''/positions/otc/'' @ deal_id) ''2'')
       \<lparr>rs_json := Some (JObj ([(''guaranteedStop'', JBool False), (''trailingStop'', JBool False)] @
          (case stop_level of Some x \<Rightarrow> [(''stopLevel'', JNum x)] | None \<Rightarrow> []) @
          (case limit_level of Some x \<Rightarrow> [(''limitLevel'', JNum x)] | None \<Rightarrow> [])))\<rparr>)) (\<lambda>response.
     if \<not> (200 \<le> rp_status_code response \<and> rp_status_code response < 300)
     then raiseC (IGConnectionError (FMsg ''IG rejected SL/TP update request''
            [FStr deal_id, FInt (rp_status_code response), FStr (take 200 (rp_text response))]))
     else
       bindC (case rp_body response of
                Inr x \<Rightarrow> returnC x
              | Inl e \<Rightarrow> if is_value_error e then returnC (JObj []) else raiseC e) (\<lambda>result.
       bindC (pureC (get result ''dealReference'')) (\<lambda>deal_ref.
       bindC (if json_truthy deal_ref then confirm_update env deal_id deal_ref else returnC None) (\<lambda>confirmed.
         case confirmed of
           Some data \<Rightarrow> returnC data
         | None \<Rightarrow>
             bindC (pureC (get_or result ''dealStatus'' (JStr []))) (\<lambda>status.
             if str_upper_is ''REJECTED'' status
             then bindC (pureC (get result ''reason'')) (\<lambda>reason. raiseC (rejected env deal_id deal_ref reason))
             else if str_upper_is ''ACCEPTED'' status then returnC result
             else verify_position_protection env deal_id stop_level limit_level deal_ref)))))"

section \<open>The account\<close>

text \<open>\<open>accounts[0]\<close>\<close>

fun first_of :: "json \<Rightarrow> py_error + json" where
  "first_of (JList (x # xs)) = Inr x"
| "first_of (JList []) = Inl (IndexError ''list index out of range'')"
| "first_of (JStr (c # cs)) = Inr (JStr [c])"
| "first_of (JStr []) = Inl (IndexError ''string index out of range'')"
| "first_of (JObj d) = Inl (KeyError ''0'')"
| "first_of _ = Inl (TypeError ''object is not subscriptable'')"

definition get_account_info :: "'w ig_env \<Rightarrow> ('w, json) ig" where
  "get_account_info env =
     bindC (request_json env (plain ''GET'' ''/accounts'' ''1'')) (\<lambda>data.
     bindC (pureC (get_or data ''accounts'' (JList []))) (\<lambda>accounts.
       if json_truthy accounts then pureC (first_of accounts) else returnC (JObj [])))"

definition currency_in :: "json \<Rightarrow> py_error + json" where
  "currency_in info = bindE (get info ''currency'') (\<lambda>x. if json_truthy x then Inr x else get info ''currencyCode'')"

definition set_currency :: "string \<Rightarrow> ('w, string) ig" where
  "set_currency s = bindC (updC (\<lambda>c. c\<lparr>ic_account_currency := Some s\<rparr>)) (\<lambda>_. returnC s)"

definition get_account_currency :: "'w ig_env \<Rightarrow> ('w, string) ig" where
  "get_account_currency env =
     bindC (readC ic_account_currency) (\<lambda>cached.
     case cached of
       Some s \<Rightarrow> returnC s
     | None \<Rightarrow>
         catchC
           (bindC (get_account_info env) (\<lambda>info.
            bindC (pureC (currency_in info)) (\<lambda>currency.
              set_currency (if json_truthy currency then py_upper (str_json (ie_str env) currency) else ''AUD''))))
           (\<lambda>_. set_currency ''AUD''))"

section \<open>Life cycle\<close>

text \<open>The heartbeat task and the resume task are cancelled; the rate-limit flag is not reset.\<close>

definition stop :: "('w, unit) ig" where
  "stop = updC (\<lambda>c. c\<lparr>ic_running := False, ic_heartbeat := False, ic_resume_at := None, ic_has_client := False,
     ic_cst := None, ic_security_token := None\<rparr>)"

definition start :: "'w ig_env \<Rightarrow> ('w, unit) ig" where
  "start env =
     bindC (updC (\<lambda>c. c\<lparr>ic_has_client := True, ic_running := True\<rparr>)) (\<lambda>_.
     bindC (login env) (\<lambda>authenticated.
       if \<not> authenticated
       then bindC stop (\<lambda>_. bindC (readC ic_account_type) (\<lambda>t.
              raiseC (IGAuthenticationError (FMsg ''Failed to authenticate with IG API after retries'' [FStr t]))))
       else
         bindC (updC (\<lambda>c. c\<lparr>ic_heartbeat := True\<rparr>)) (\<lambda>_.
           catchC (bindC (get_account_currency env) (\<lambda>s. updC (\<lambda>c. c\<lparr>ic_account_currency := Some s\<rparr>)))
             (\<lambda>_. updC (\<lambda>c. c\<lparr>ic_account_currency := Some ''AUD''\<rparr>)))))"

definition check_connection :: "'w ig_env \<Rightarrow> ('w, bool) ig" where
  "check_connection env =
     catchC
       (bindC (readC id) (\<lambda>c.
          if \<not> ic_has_client c then returnC False
          else bindC (http env \<lparr>rq_method = ''GET'', rq_path = ''/session'', rq_headers = auth_headers ''1'' c,
                 rq_params = [], rq_json = None\<rparr>) (\<lambda>response. returnC (rp_status_code response = 200))))
       (\<lambda>e. if is_http_error e then returnC False else raiseC e)"

fun reconnect_loop :: "'w ig_env \<Rightarrow> nat \<Rightarrow> ('w, bool) ig" where
  "reconnect_loop env 0 = returnC False"
| "reconnect_loop env (Suc left) =
     bindC (login env) (\<lambda>success.
       if success then returnC True
       else bindC (if 0 < left then sleep env (of_int RECONNECT_INTERVAL_SECONDS) else returnC ()) (\<lambda>_. reconnect_loop env left))"

definition reconnect :: "'w ig_env \<Rightarrow> ('w, bool) ig" where
  "reconnect env = reconnect_loop env (nat RECONNECT_MAX_ATTEMPTS)"

text \<open>One turn of \<open>_heartbeat_loop\<close>: whether it goes on; other exceptions are logged.\<close>

definition heartbeat_turn :: "'w ig_env \<Rightarrow> ('w, bool) ig" where
  "heartbeat_turn env =
     bindC (sleep env (of_int HEARTBEAT_INTERVAL_SECONDS)) (\<lambda>_.
     bindC (readC ic_running) (\<lambda>running.
       if \<not> running then returnC False
       else
         catchC
           (bindC (check_connection env) (\<lambda>healthy.
              if healthy then returnC True
              else bindC (reconnect env) (\<lambda>reconnected.
                if reconnected then returnC True
                else bindC (updC (\<lambda>c. c\<lparr>ic_running := False\<rparr>)) (\<lambda>_. returnC False))))
           (\<lambda>_. returnC True)))"

definition is_connected :: "'w ig_client \<Rightarrow> bool" where
  "is_connected c \<longleftrightarrow> ic_running c \<and> ic_cst c \<noteq> None"

section \<open>Invariants of the client\<close>

text \<open>
  What a state property needs to survive every operation that opens nothing: the client changes
  its fields only in these ways, and sends only harmless requests.
\<close>

definition harmless :: "http_request \<Rightarrow> bool" where
  "harmless rq \<longleftrightarrow> rq_method rq \<noteq> ''POST'' \<or> rq_path rq = ''/session'' \<or> (''_method'', ''DELETE'') \<in> set (rq_headers rq)"

locale ig_invariant =
  fixes env :: "'w ig_env" and T :: bool and I :: "'w ig_client \<Rightarrow> bool"
  assumes keep_http: "harmless rq \<Longrightarrow> keeps T I (http env rq)"
    and keep_sleep: "keeps T I (sleep env d)"
    and keep_wait: "keeps T I (wait_for_rate_limit_clear env t hft)"
    and keep_tokens: "I c \<Longrightarrow> I (c\<lparr>ic_cst := a, ic_security_token := b\<rparr>)"
    and keep_limit: "I c \<Longrightarrow> I (c\<lparr>ic_rate_limited := True, ic_rate_limit_reset_time := x, ic_resume_at := Some u\<rparr>)"
    and keep_price: "I c \<Longrightarrow> I (c\<lparr>ic_last_price := ps\<rparr>)"
    and keep_currency: "I c \<Longrightarrow> I (c\<lparr>ic_account_currency := cur\<rparr>)"
    and keep_running: "I c \<Longrightarrow> I (c\<lparr>ic_running := run\<rparr>)"
begin

lemma keeps_tokens [keeps_intro]: "keeps T I (updC (\<lambda>c. c\<lparr>ic_cst := f c, ic_security_token := g c\<rparr>))"
  by (intro keeps_upd keep_tokens)

lemma keeps_currency [keeps_intro]: "keeps T I (updC (\<lambda>c. c\<lparr>ic_account_currency := f c\<rparr>))"
  by (intro keeps_upd keep_currency)

lemma keeps_running [keeps_intro]: "keeps T I (updC (\<lambda>c. c\<lparr>ic_running := f c\<rparr>))"
  by (intro keeps_upd keep_running)

lemma keeps_price [keeps_intro]: "keeps T I (updC (\<lambda>c. c\<lparr>ic_last_price := f c\<rparr>))"
  by (intro keeps_upd keep_price)

lemma keeps_login_loop: "keeps T I (login_loop env n k)"
  by (induction k arbitrary: n)
    (auto simp: login_attempt_def harmless_def intro!: keeps_intro keep_http keep_sleep)

lemma keeps_login [keeps_intro]: "keeps T I (login env)"
  by (simp add: login_def keeps_login_loop)

lemma keeps_refresh [keeps_intro]: "keeps T I (refresh_session env)"
  by (auto simp: refresh_session_def harmless_def intro!: keeps_intro keep_http)

lemma keeps_handle_rate_limit [keeps_intro]: "keeps T I (handle_rate_limit env response)"
proof -
  have "I (c\<lparr>ic_rate_limited := True, ic_rate_limit_reset_time := x,
      ic_resume_at := (case ic_resume_at c of Some t \<Rightarrow> Some t | None \<Rightarrow> Some u)\<rparr>)" if "I c" for c x u
    using keep_limit[OF that] by (cases "ic_resume_at c") simp_all
  then show ?thesis unfolding handle_rate_limit_def by (intro keeps_intro keeps_upd)
qed

lemma keeps_latency [keeps_intro]: "keeps T I (check_latency t hft)"
  by (auto simp: check_latency_def Let_def intro!: keeps_intro)

lemma keeps_request_round:
  assumes "keeps T I (send_request env q)" shows "keeps T I (request_round env q)"
  using assms by (auto simp: request_round_def intro!: keeps_intro)

lemma keeps_request_loop:
  "keeps T I (send_request env q) \<Longrightarrow> keeps T I (request_loop env q t n k e)"
proof (induction k arbitrary: n e)
  case (Suc k)
  then show ?case
    by (auto intro!: keeps_intro keeps_request_round keep_sleep split: round_result.split)
qed (auto intro: keeps_intro)

lemma keeps_request_sending: "keeps T I (send_request env q) \<Longrightarrow> keeps T I (request env q)"
  by (auto simp: request_def intro!: keeps_intro keep_wait keeps_request_loop)

lemma keeps_request [keeps_intro]: "rs_method q \<noteq> ''POST'' \<Longrightarrow> keeps T I (request env q)"
  by (rule keeps_request_sending) (auto simp: send_request_def harmless_def intro!: keeps_intro keep_http)

lemma keeps_request_json [keeps_intro]: "rs_method q \<noteq> ''POST'' \<Longrightarrow> keeps T I (request_json env q)"
  by (auto simp: request_json_def intro!: keeps_intro)

lemma keeps_get_position [keeps_intro]: "keeps T I (get_position env d)"
  by (auto simp: get_position_def plain_def intro!: keeps_intro)

lemma keeps_fetch_confirm [keeps_intro]: "keeps T I (fetch_confirm env d)"
  by (auto simp: fetch_confirm_def plain_def intro!: keeps_intro)

lemma keeps_market_details [keeps_intro]: "keeps T I (get_market_details env epic)"
  by (auto simp: get_market_details_def plain_def intro!: keeps_intro)

lemma keeps_scaling [keeps_intro]: "keeps T I (get_scaling_factor env epic)"
  by (auto simp: get_scaling_factor_def intro!: keeps_intro)

lemma keeps_close [keeps_intro]: "keeps T I (close_position env d dir lots)"
  by (auto simp: close_position_def harmless_def intro!: keeps_intro keep_http)

lemma keeps_protection_loop: "keeps T I (protection_loop env d n p)"
  by (induction n arbitrary: p) (auto simp: Let_def intro!: keeps_intro keep_sleep)

lemma keeps_verify [keeps_intro]: "keeps T I (verify_attached_protection env d r dir lots)"
  by (auto simp: verify_attached_protection_def emergency_close_def Let_def intro!: keeps_intro keeps_protection_loop)

lemma keeps_confirm_order [keeps_intro]: "keeps T I (confirm_order env dir lots r)"
  by (auto simp: confirm_order_def intro!: keeps_intro)

lemma keeps_readback_loop: "keeps T I (readback_loop env d st li n p e)"
  by (induction n arbitrary: p e) (auto simp: Let_def intro!: keeps_intro keep_sleep)

lemma keeps_verify_position [keeps_intro]: "keeps T I (verify_position_protection env d st li r)"
  by (auto simp: verify_position_protection_def intro!: keeps_intro keeps_readback_loop)

lemma keeps_update_position: "keeps T I (update_position_sl_tp env d st li)"
  by (auto simp: update_position_sl_tp_def confirm_update_def plain_def intro!: keeps_intro)

lemma keeps_account_currency [keeps_intro]: "keeps T I (get_account_currency env)"
  by (auto simp: get_account_currency_def get_account_info_def set_currency_def plain_def intro!: keeps_intro)

lemma keeps_reconnect_loop: "keeps T I (reconnect_loop env n)"
  by (induction n) (auto intro!: keeps_intro keep_sleep)

lemma keeps_heartbeat: "keeps T I (heartbeat_turn env)"
  by (auto simp: heartbeat_turn_def check_connection_def reconnect_def harmless_def
      intro!: keeps_intro keep_sleep keep_http keeps_reconnect_loop)

end

section \<open>Waiting for the rate limit\<close>

text \<open>While the limit is on, the task that lifts it is pending.\<close>

definition limit_ok :: "'w ig_client \<Rightarrow> bool" where
  "limit_ok c \<longleftrightarrow> (ic_rate_limited c \<longrightarrow> ic_resume_at c \<noteq> None)"

lemma limit_ok_resume: "limit_ok c \<Longrightarrow> limit_ok (resume_after_rate_limit c)"
  by (auto simp: limit_ok_def resume_after_rate_limit_def split: option.split)

lemma limit_ok_sleep: "keeps True limit_ok (sleep env d)"
  unfolding sleep_def by (rule keeps_upd) (simp add: limit_ok_resume[unfolded limit_ok_def] limit_ok_def)

lemma keeps_http:
  assumes "\<And>c w t. I c \<Longrightarrow> I (resume_after_rate_limit (c\<lparr>ic_clock := ic_clock c + t, ic_world := w\<rparr>))"
  shows "keeps T I (http env rq)"
  unfolding keeps_def returns_def wpC_def http_def using assms by (auto split: prod.split)

lemma check_latency_split:
  "check_latency t hft c = Some (Inr (), c) \<or> (hft \<and> (\<exists>e. check_latency t hft c = Some (Inl e, c)))"
  unfolding check_latency_def by (cases hft) (simp_all add: returnC_def raiseC_def Let_def)

lemma check_latency_cases:
  obtains "check_latency t hft c = Some (Inr (), c)" | e where "check_latency t hft c = Some (Inl e, c)" "hft"
  using check_latency_split[of t hft c] by blast

lemma sleep_eq:
  "sleep env d c = Some (Inr (), resume_after_rate_limit
     (c\<lparr>ic_clock := ic_clock c + max 0 (nanos d) + int (ie_delay env (ic_world c))\<rparr>))"
  by (simp add: sleep_def updC_def)

lemma wait_unfold:
  "wait_for_rate_limit_clear env t hft c =
     (if \<not> ic_rate_limited c then Some (Inr (), c)
      else case check_latency t hft c of
        Some (Inr _, c1) \<Rightarrow>
          wait_for_rate_limit_clear env t hft (resume_after_rate_limit
            (c1\<lparr>ic_clock := ic_clock c1 + 50000000 + int (ie_delay env (ic_world c1))\<rparr>))
      | Some (Inl e, c1) \<Rightarrow> Some (Inl e, c1)
      | None \<Rightarrow> None)"
  by (subst wait_for_rate_limit_clear.simps) (simp add: sleep_eq nanos_def split: option.split sum.split prod.split)

text \<open>The number of polls left is bounded by the time left.\<close>

lemma wait_returns:
  "limit_ok c \<Longrightarrow> \<exists>r c'. wait_for_rate_limit_clear env t hft c = Some (r, c') \<and> limit_ok c'"
proof (induction "nat (the (ic_resume_at c) - ic_clock c)" arbitrary: c rule: less_induct)
  case less
  show ?case
  proof (cases "ic_rate_limited c")
    case False
    then show ?thesis using less.prems by (subst wait_unfold) simp
  next
    case True
    then obtain u where u: "ic_resume_at c = Some u" using less.prems by (auto simp: limit_ok_def)
    let ?c = "resume_after_rate_limit (c\<lparr>ic_clock := ic_clock c + 50000000 + int (ie_delay env (ic_world c))\<rparr>)"
    show ?thesis
    proof (cases rule: check_latency_cases[of t hft c])
      case 1
      have e: "wait_for_rate_limit_clear env t hft c = wait_for_rate_limit_clear env t hft ?c"
        by (subst wait_unfold) (simp add: True 1)
      show ?thesis
      proof (cases "u \<le> ic_clock c + 50000000 + int (ie_delay env (ic_world c))")
        case True
        then have f: "\<not> ic_rate_limited ?c" "limit_ok ?c" using u by (simp_all add: resume_after_rate_limit_def limit_ok_def)
        then show ?thesis unfolding e by (subst wait_unfold) simp
      next
        case False
        then have c: "?c = c\<lparr>ic_clock := ic_clock c + 50000000 + int (ie_delay env (ic_world c))\<rparr>"
          using u by (simp add: resume_after_rate_limit_def)
        have "\<exists>r c'. wait_for_rate_limit_clear env t hft ?c = Some (r, c') \<and> limit_ok c'"
          by (rule less.hyps) (use False u less.prems in \<open>simp_all add: c limit_ok_def\<close>)
        then show ?thesis by (simp add: e)
      qed
    next
      case (2 e)
      then show ?thesis using True less.prems by (subst wait_unfold) simp
    qed
  qed
qed

lemma wait_keeps_limit_ok: "keeps True limit_ok (wait_for_rate_limit_clear env t hft)"
  by (rule keeps_totalI[OF wait_returns])

interpretation limit: ig_invariant env True limit_ok for env
proof
  show "keeps True limit_ok (http env rq)" for rq
    by (rule keeps_http) (simp add: limit_ok_resume[unfolded limit_ok_def] limit_ok_def)
qed (simp_all add: limit_ok_sleep wait_keeps_limit_ok limit_ok_def)

text \<open>Sending needs no more than the HTTP call for this invariant, whatever the request.\<close>

lemma limit_sending: "keeps True limit_ok (send_request env q)"
  by (auto simp: send_request_def intro!: keeps_intro keeps_http limit_ok_resume)
    (simp add: limit_ok_def)

lemma limit_place_order: "keeps True limit_ok (place_order env epic dir lots st li hft p)"
  unfolding place_order_def send_order_def request_json_def Let_def
  by (auto intro!: keeps_intro keeps_upd limit.keeps_request_sending limit_sending
      limit.keeps_scaling limit.keeps_confirm_order simp: limit_ok_def)

text \<open>
  Claim C20: while the task that lifts a rate limit is pending whenever the limit is on, which every
  operation preserves, placing an order, updating a position's protection and closing a position all
  return, however long the limit lasts: the polling loop ends when the task is due.
\<close>

theorem broker_operations_return:
  assumes "limit_ok c"
  shows "(\<exists>r c'. place_order env epic dir lots st li hft p c = Some (r, c') \<and> limit_ok c') \<and>
    (\<exists>r c'. update_position_sl_tp env deal st' li' c = Some (r, c') \<and> limit_ok c') \<and>
    (\<exists>r c'. close_position env deal dir' lots' c = Some (r, c') \<and> limit_ok c')"
  using keeps_total[OF limit_place_order assms] keeps_total[OF limit.keeps_update_position assms]
    keeps_total[OF limit.keeps_close assms]
  by metis

section \<open>A limit that nothing lifts\<close>

definition stuck :: "'w ig_client \<Rightarrow> bool" where
  "stuck c \<longleftrightarrow> ic_rate_limited c \<and> ic_resume_at c = None"

lemma stuck_wait: "wait_for_rate_limit_clear env t hft c = Some x \<Longrightarrow> \<not> (stuck c \<and> \<not> hft)"
proof (erule wait_for_rate_limit_clear.raw_induct[rotated, where P = "\<lambda>env t hft c x. \<not> (stuck c \<and> \<not> hft)"])
  fix wait and env :: "'a ig_env" and t hft c x
  assume IH: "\<And>env t hft c x. wait env t hft c = Some x \<Longrightarrow> \<not> (stuck c \<and> \<not> hft)"
    and e: "(if \<not> ic_rate_limited c then Some (Inr (), c)
      else case check_latency t hft c of
        None \<Rightarrow> None
      | Some (Inl e, c1) \<Rightarrow> Some (Inl e, c1)
      | Some (Inr _, c1) \<Rightarrow>
          (case sleep env (1/20) c1 of None \<Rightarrow> None | Some (r, c2) \<Rightarrow> wait env t hft c2)) = Some x"
  show "\<not> (stuck c \<and> \<not> hft)"
  proof
    assume s: "stuck c \<and> \<not> hft"
    then have "check_latency t hft c = Some (Inr (), c)" by (cases rule: check_latency_cases[of t hft c]) auto
    then have "wait env t hft (resume_after_rate_limit
        (c\<lparr>ic_clock := ic_clock c + max 0 (nanos (1/20)) + int (ie_delay env (ic_world c))\<rparr>)) = Some x"
      using e s by (simp add: stuck_def sleep_eq)
    from IH[OF this] s show False by (simp add: stuck_def resume_after_rate_limit_def)
  qed
qed

lemma stuck_request: "stuck c \<Longrightarrow> \<not> rs_hft q \<Longrightarrow> request env q c = None"
proof -
  assume s: "stuck c" "\<not> rs_hft q"
  have "wait_for_rate_limit_clear env (monotonic c) False c = None"
    using stuck_wait[of env "monotonic c" False c] s(1) by (cases "wait_for_rate_limit_clear env (monotonic c) False c") auto
  then show ?thesis using s by (simp add: request_def stuck_def check_latency_def Let_def bindC_def readC_def returnC_def)
qed

lemma stuck_tokens: "stuck c \<Longrightarrow> stuck (c\<lparr>ic_cst := a, ic_security_token := b\<rparr>)"
  by (simp add: stuck_def)

lemma stuck_login: "keeps False stuck (login env)"
proof -
  have h: "keeps False stuck (http env rq)" for rq
    by (rule keeps_http) (simp add: stuck_def resume_after_rate_limit_def)
  have z: "keeps False stuck (sleep env d)" for d
    unfolding sleep_def by (rule keeps_upd) (simp add: stuck_def resume_after_rate_limit_def)
  have "keeps False stuck (login_loop env n k)" for n k
    by (induction k arbitrary: n)
      (auto simp: login_attempt_def intro!: keeps_intro h z keeps_upd stuck_tokens)
  then show ?thesis by (simp add: login_def)
qed

text \<open>
  Claim: a client stopped while the broker limits its rate stays limited with nothing pending to
  lift the limit: after the next successful start no request that is not an HFT order returns.
\<close>

theorem stop_while_limited_blocks_requests:
  assumes "ic_rate_limited c" "stop c = Some (r, c1)" "start env c1 = Some (Inr (), c2)" "\<not> rs_hft q"
  shows "request env q c2 = None"
proof -
  have s1: "stuck c1" using assms(1,2) by (auto simp: stop_def updC_def stuck_def)
  obtain c3 where l: "login env (c1\<lparr>ic_has_client := True, ic_running := True\<rparr>) = Some (Inr True, c3)"
    using assms(3) by (auto simp: start_def bindC_def updC_def readC_def raiseC_def stop_def split: option.splits sum.splits if_splits prod.splits)
  have s3: "stuck c3" by (rule keepsD[OF stuck_login _ l]) (use s1 in \<open>simp add: stuck_def\<close>)
  show ?thesis
  proof (cases "ic_account_currency c3")
    case (Some cur)
    then have "stuck c2" using assms(3) s3
      by (auto simp: start_def bindC_def updC_def l get_account_currency_def readC_def catchC_def tryC_def returnC_def stuck_def)
    then show ?thesis using assms(4) by (rule stuck_request)
  next
    case None
    have "request env (plain ''GET'' ''/accounts'' ''1'') (c3\<lparr>ic_heartbeat := True\<rparr>) = None"
      by (rule stuck_request) (use s3 in \<open>simp_all add: stuck_def plain_def\<close>)
    then have "start env c1 = None"
      using None by (simp add: start_def bindC_def updC_def l get_account_currency_def readC_def catchC_def tryC_def
          get_account_info_def request_json_def)
    then show ?thesis using assms(3) by simp
  qed
qed

section \<open>The requests that open a position\<close>

text \<open>The same environment, which also writes down every request.\<close>

definition logged :: "'w ig_env \<Rightarrow> ('w \<times> http_request list) ig_env" where
  "logged env =
     \<lparr>ie_http = (\<lambda>rq w. case ie_http env rq (fst w) of (r, took, w') \<Rightarrow> (r, took, (w', snd w @ [rq]))),
      ie_delay = (\<lambda>w. ie_delay env (fst w)),
      ie_uuid_hex = (\<lambda>w. case ie_uuid_hex env (fst w) of (h, w') \<Rightarrow> (h, (w', snd w))),
      ie_parse_int = ie_parse_int env, ie_parse_float = ie_parse_float env, ie_str = ie_str env, ie_str_float = ie_str_float env\<rparr>"

definition openings :: "('w \<times> http_request list) ig_client \<Rightarrow> http_request list" where
  "openings c = filter (\<lambda>rq. \<not> harmless rq) (snd (ic_world c))"

text \<open>At most \<open>n\<close> requests beyond \<open>L\<close> open a position, all with the body \<open>j\<close>; the permits are \<open>P\<close>.\<close>

definition sent :: "json option \<Rightarrow> string list \<Rightarrow> http_request list \<Rightarrow> nat \<Rightarrow> ('w \<times> http_request list) ig_client \<Rightarrow> bool" where
  "sent j P L n c \<longleftrightarrow> ic_permits c = P \<and>
     (\<exists>new. openings c = L @ new \<and> length new \<le> n \<and> list_all (\<lambda>rq. rq_json rq = j) new)"

lemma sent_resume [simp]: "sent j P L n (resume_after_rate_limit c) = sent j P L n c"
  by (auto simp: sent_def openings_def resume_after_rate_limit_def split: option.split)

lemma sent_clock [simp]: "sent j P L n (c\<lparr>ic_clock := t\<rparr>) = sent j P L n c"
  by (simp add: sent_def openings_def)

lemma sent_http:
  assumes "sent j P L n c" "harmless rq \<or> rq_json rq = j"
  shows "wpC (http (logged env) rq) (\<lambda>r c'. sent j P L (if harmless rq then n else Suc n) c') c"
proof -
  obtain new where new: "openings c = L @ new" "length new \<le> n" "list_all (\<lambda>rq. rq_json rq = j) new"
    using assms(1) by (auto simp: sent_def)
  have "openings (c\<lparr>ic_clock := t, ic_world := (w, snd (ic_world c) @ [rq])\<rparr>) =
      L @ new @ (if harmless rq then [] else [rq])" for t w
    using new(1) by (simp add: openings_def)
  moreover have "ic_permits c = P" using assms(1) by (simp add: sent_def)
  ultimately show ?thesis using new(2,3) assms(2)
    by (auto simp: wpC_def http_def logged_def sent_def[of _ _ _ "Suc n"] sent_def[of _ _ _ n] split: prod.split
        simp del: append_assoc)
qed

lemma keeps_wait_partial:
  assumes "\<And>d. keeps False I (sleep env d)"
  shows "keeps False I (wait_for_rate_limit_clear env t hft)"
proof -
  have "wait_for_rate_limit_clear env' t hft c = Some x \<Longrightarrow> env' = env \<longrightarrow> I c \<longrightarrow> I (snd x)" for env' c x
  proof (erule wait_for_rate_limit_clear.raw_induct[rotated, where P = "\<lambda>env' t hft c x. env' = env \<longrightarrow> I c \<longrightarrow> I (snd x)"], intro impI)
    fix wait and env' :: "'a ig_env" and t hft c x
    assume IH: "\<And>env' t hft c x. wait env' t hft c = Some x \<Longrightarrow> env' = env \<longrightarrow> I c \<longrightarrow> I (snd x)"
      and e: "(if \<not> ic_rate_limited c then Some (Inr (), c)
        else case check_latency t hft c of
          None \<Rightarrow> None
        | Some (Inl e, c1) \<Rightarrow> Some (Inl e, c1)
        | Some (Inr _, c1) \<Rightarrow>
            (case sleep env' (1/20) c1 of None \<Rightarrow> None | Some (r, c2) \<Rightarrow> wait env' t hft c2)) = Some x"
      and i: "env' = env" "I c"
    show "I (snd x)"
    proof (cases "ic_rate_limited c")
      case True
      then show ?thesis
      proof (cases rule: check_latency_cases[of t hft c])
        case 1
        obtain r c2 where z: "sleep env (1/20) c = Some (r, c2)" by (simp add: sleep_eq)
        have "I c2" by (rule keepsD[OF assms i(2) z])
        moreover have "wait env t hft c2 = Some x" using e True 1 z i(1) by simp
        ultimately show ?thesis using IH by blast
      next
        case (2 er)
        then show ?thesis using e True i by auto
      qed
    qed (use e i in auto)
  qed
  then show ?thesis by (auto simp: keeps_def wpC_def split: option.split)
qed

interpretation log: ig_invariant "logged env" False "sent j P L n" for env j P L n
proof
  show "keeps False (sent j P L n) (http (logged env) rq)" if "harmless rq" for rq
    using sent_http[of j P L n _ rq env] that by (simp add: keeps_def)
  have z: "keeps False (sent j P L n) (sleep (logged env) d)" for d
    unfolding sleep_def by (rule keeps_upd) simp
  then show "keeps False (sent j P L n) (sleep (logged env) d)" for d .
  show "keeps False (sent j P L n) (wait_for_rate_limit_clear (logged env) t hft)" for t hft
    by (rule keeps_wait_partial[OF z])
qed (simp_all add: sent_def openings_def)

lemma sent_mono: "sent j P L n c \<Longrightarrow> n \<le> m \<Longrightarrow> sent j P L m c"
  unfolding sent_def by (meson order_trans)

lemma sent_send:
  assumes "sent (rs_json q) P L n c" shows "wpC (send_request (logged env) q) (\<lambda>r c'. sent (rs_json q) P L (Suc n) c') c"
proof -
  have "wpC (http (logged env) \<lparr>rq_method = rs_method q, rq_path = rs_path q, rq_headers = h, rq_params = rs_params q, rq_json = rs_json q\<rparr>)
      (\<lambda>r c'. sent (rs_json q) P L (Suc n) c') c" for h
    using sent_http[OF assms, of "\<lparr>rq_method = rs_method q, rq_path = rs_path q, rq_headers = h, rq_params = rs_params q, rq_json = rs_json q\<rparr>" env]
    by (auto elim!: wpC_mono intro: sent_mono split: if_splits)
  then show ?thesis using assms by (simp add: send_request_def sent_mono[of _ _ _ n])
qed

lemma sent_round:
  assumes "sent (rs_json q) P L n c" shows "wpC (request_round (logged env) q) (\<lambda>r c'. sent (rs_json q) P L (Suc n) c') c"
  unfolding request_round_def
  by (intro wpC_catch_keeps[where T = False] wpC_bind_keeps[where T = False] sent_send[OF assms])
    (auto intro!: keeps_intro log.keeps_handle_rate_limit log.keeps_refresh log.keeps_login)

lemma wpC_latency: "Q (Inr ()) c \<Longrightarrow> (\<And>e. Q (Inl e) c) \<Longrightarrow> wpC (check_latency t hft) Q c"
  using check_latency_split[of t hft c] by (auto simp: wpC_def)

lemma sent_loop:
  "sent (rs_json q) P L n c \<Longrightarrow>
   wpC (request_loop (logged env) q t i k e) (\<lambda>r c'. sent (rs_json q) P L (n + k) c') c"
proof (induction k arbitrary: n c i e)
  case (Suc k)
  have rest: "wpC (case r of Answer response \<Rightarrow> returnC response
       | Continue \<Rightarrow> request_loop (logged env) q t (Suc i) k e
       | Failed e \<Rightarrow> bindC (if 0 < k then sleep (logged env) (of_int (API_RETRY_BASE_SECONDS * 2 ^ i)) else returnC ())
           (\<lambda>_. request_loop (logged env) q t (Suc i) k (Some e)))
      (\<lambda>r c'. sent (rs_json q) P L (n + Suc k) c') c1"
    if s: "sent (rs_json q) P L (Suc n) c1" for r c1
  proof -
    have ih: "sent (rs_json q) P L (Suc n) c2 \<Longrightarrow>
        wpC (request_loop (logged env) q t (Suc i) k e') (\<lambda>r c'. sent (rs_json q) P L (Suc (n + k)) c') c2" for c2 e'
      using Suc.IH[of "Suc n" c2 "Suc i" e'] by simp
    show ?thesis using s sent_mono[OF s, of "n + Suc k"] by (cases r) (auto simp: sleep_def intro!: ih)
  qed
  have "wpC (bindC (request_round (logged env) q) (\<lambda>r. case r of Answer response \<Rightarrow> returnC response
       | Continue \<Rightarrow> request_loop (logged env) q t (Suc i) k e
       | Failed e \<Rightarrow> bindC (if 0 < k then sleep (logged env) (of_int (API_RETRY_BASE_SECONDS * 2 ^ i)) else returnC ())
           (\<lambda>_. request_loop (logged env) q t (Suc i) k (Some e))))
      (\<lambda>r c'. sent (rs_json q) P L (n + Suc k) c') c"
    unfolding wpC_simps
  proof (rule wpC_mono[OF sent_round[OF Suc.prems]])
    fix r :: "py_error + round_result" and c1 :: "('a \<times> http_request list) ig_client"
    assume s: "sent (rs_json q) P L (Suc n) c1"
    show "case r of Inl e \<Rightarrow> sent (rs_json q) P L (n + Suc k) c1
        | Inr r \<Rightarrow> wpC (case r of Answer response \<Rightarrow> returnC response
            | Continue \<Rightarrow> request_loop (logged env) q t (Suc i) k e
            | Failed e \<Rightarrow> bindC (if 0 < k then sleep (logged env) (of_int (API_RETRY_BASE_SECONDS * 2 ^ i)) else returnC ())
                (\<lambda>_. request_loop (logged env) q t (Suc i) k (Some e)))
            (\<lambda>r c'. sent (rs_json q) P L (n + Suc k) c') c1"
    proof (cases r)
      case (Inl e')
      show ?thesis unfolding Inl sum.case by (rule sent_mono[OF s]) simp
    next
      case (Inr x)
      show ?thesis unfolding Inr sum.case by (rule rest[OF s])
    qed
  qed
  note main = this
  show ?case unfolding request_loop.simps(2)
    by (subst wpC_simps(6), rule wpC_latency, unfold sum.case, rule main) (rule sent_mono[OF Suc.prems], simp)
qed simp

lemma sent_request:
  assumes "sent (rs_json q) P L 0 c"
  shows "wpC (request (logged env) q) (\<lambda>r c'. sent (rs_json q) P L 5 c') c"
proof -
  have wait: "wpC (if ic_rate_limited c then bindC (check_latency t (rs_hft q)) (\<lambda>_. wait_for_rate_limit_clear (logged env) t (rs_hft q)) else returnC ())
      (\<lambda>r c'. sent (rs_json q) P L 0 c') c" for t
    by (rule wpC_keeps[where T = False and J = "sent (rs_json q) P L 0", OF _ assms]) (auto intro!: keeps_intro log.keeps_latency log.keep_wait)
  have five: "nat API_RETRY_MAX_ATTEMPTS = 5" by (simp add: API_RETRY_MAX_ATTEMPTS_def)
  have "wpC (bindC (if ic_rate_limited c then bindC (check_latency t (rs_hft q)) (\<lambda>_. wait_for_rate_limit_clear (logged env) t (rs_hft q)) else returnC ())
      (\<lambda>_. request_loop (logged env) q t 0 5 None)) (\<lambda>r c'. sent (rs_json q) P L 5 c') c" for t
    by (subst wpC_simps(6), rule wpC_mono[OF wait])
      (use sent_loop[where n = 0 and k = 5] in \<open>auto split: sum.split intro: sent_mono\<close>)
  then show ?thesis unfolding request_def five wpC_simps sum.case by simp
qed

section \<open>Permits\<close>

lemma sent_order:
  assumes "sent j P L 0 c"
    and "j = Some (order_payload env epic dir lots (f_mul st x) (f_mul li x) permit)"
  shows "wpC (request_json (logged env) \<lparr>rs_method = ''POST'', rs_path = ''/positions/otc'', rs_version = ''2'', rs_hft = hft,
      rs_params = [], rs_json = j\<rparr>) (\<lambda>r c'. sent j P L 5 c') c"
  unfolding request_json_def
  by (rule wpC_bind_keeps[where T = False]) (use sent_request[of "\<lparr>rs_method = ''POST'', rs_path = ''/positions/otc'', rs_version = ''2'',
      rs_hft = hft, rs_params = [], rs_json = j\<rparr>"] assms(1) in \<open>auto intro!: keeps_intro\<close>)

text \<open>What \<open>send_order\<close> may send: the payload for some scaling factor.\<close>

definition is_order :: "'w ig_env \<Rightarrow> string \<Rightarrow> string \<Rightarrow> pyfloat \<Rightarrow> pyfloat \<Rightarrow> pyfloat \<Rightarrow> string \<Rightarrow> json option \<Rightarrow> bool" where
  "is_order env epic dir lots st li permit j \<longleftrightarrow>
     (\<exists>x. j = Some (order_payload env epic dir lots (f_mul st x) (f_mul li x) permit))"

lemma order_payload_logged [simp]: "order_payload (logged env) = order_payload env"
  by (simp add: order_payload_def logged_def fun_eq_iff)

lemma send_order_sent:
  assumes "ic_permits c = P" "openings c = L"
  shows "wpC (send_order (logged env) epic dir lots st li hft permit)
    (\<lambda>r c'. \<exists>j. is_order env epic dir lots st li permit j \<and> sent j P L 5 c') c"
proof -
  have s: "sent j P L 0 c" for j using assms by (simp add: sent_def)
  have scaled: "wpC (get_scaling_factor (logged env) epic) (\<lambda>r c'. \<forall>j. sent j P L 0 c') c"
    by (rule wpC_I) (use keepsD[OF log.keeps_scaling s] in blast)
  have rest: "wpC (bindC (request_json (logged env) \<lparr>rs_method = ''POST'', rs_path = ''/positions/otc'', rs_version = ''2'', rs_hft = hft,
        rs_params = [], rs_json = j\<rparr>) (\<lambda>result.
      bindC (pureC (get result ''dealReference'')) (\<lambda>given.
        let deal_ref = (if json_truthy given then given else JStr permit)
        in if json_truthy deal_ref then
             catchC (confirm_order (logged env) dir lots deal_ref)
               (\<lambda>e. if is_ig_connection_error e then raiseC e else returnC result)
           else returnC result))) (\<lambda>r c'. sent j P L 5 c') c1"
    if "sent j P L 0 c1" "j = Some (order_payload env epic dir lots (f_mul st x) (f_mul li x) permit)" for j c1 x
    by (rule wpC_bind_keeps[where T = False, OF sent_order[OF that]])
      (auto simp: Let_def intro!: keeps_intro log.keeps_confirm_order)
  show ?thesis unfolding send_order_def
  proof (subst wpC_simps(6), rule wpC_mono[OF scaled])
    fix r :: "py_error + pyfloat" and c1 :: "('a \<times> http_request list) ig_client"
    assume s1: "\<forall>j. sent j P L 0 c1"
    define goal where "goal c' = (\<exists>j. is_order env epic dir lots st li permit j \<and> sent j P L 5 c')" for c' :: "('a \<times> http_request list) ig_client"
    have goalI: "sent j P L 5 c' \<Longrightarrow> is_order env epic dir lots st li permit j \<Longrightarrow> goal c'" for j c'
      by (auto simp: goal_def)
    have g1: "goal c1" using s1 sent_mono[of _ P L 0 c1 5] by (intro goalI[where j = "Some (order_payload env epic dir lots (f_mul st 1) (f_mul li 1) permit)"])
      (auto simp: is_order_def)
    show "case r of Inl e \<Rightarrow> \<exists>j. is_order env epic dir lots st li permit j \<and> sent j P L 5 c1
      | Inr x \<Rightarrow> wpC (bindC (request_json (logged env) \<lparr>rs_method = ''POST'', rs_path = ''/positions/otc'', rs_version = ''2'', rs_hft = hft,
           rs_params = [], rs_json = Some (order_payload (logged env) epic dir lots (f_mul st x) (f_mul li x) permit)\<rparr>)
           (\<lambda>result. bindC (pureC (get result ''dealReference'')) (\<lambda>given.
              let deal_ref = (if json_truthy given then given else JStr permit)
              in if json_truthy deal_ref then
                   catchC (confirm_order (logged env) dir lots deal_ref)
                     (\<lambda>e. if is_ig_connection_error e then raiseC e else returnC result)
                 else returnC result)))
          (\<lambda>r c'. \<exists>j. is_order env epic dir lots st li permit j \<and> sent j P L 5 c') c1"
    proof (cases r)
      case (Inl e)
      then show ?thesis using g1 by (simp add: goal_def)
    next
      case (Inr x)
      show ?thesis unfolding Inr sum.case order_payload_logged
        by (rule wpC_mono[OF rest[OF spec[OF s1] refl]]) (auto simp: is_order_def)
    qed
  qed
qed

text \<open>
  Claim C9: without a permit that was issued and not used, or without positive stop and limit
  distances, an opening order sends nothing; with them the permit is used up and at most five
  requests open a position, every one carrying both distances and the permit as its deal reference.
\<close>

theorem opening_order_needs_permit:
  assumes "place_order (logged env) epic dir lots st li hft p c = Some (r, c')"
  shows "(if p = None \<or> the p \<notin> set (ic_permits c) then r = Inl (blocked NO_PERMIT epic) \<and> c' = c
     else ic_permits c' = remove1 (the p) (ic_permits c) \<and>
       (\<exists>new. openings c' = openings c @ new \<and> length new \<le> 5 \<and>
         (new \<noteq> [] \<longrightarrow> (\<exists>s l. st = Some s \<and> li = Some l \<and> 0 < s \<and> 0 < l \<and>
            list_all (\<lambda>rq. is_order env epic dir lots s l (the p) (rq_json rq)) new))))"
proof (cases "p = None \<or> the p \<notin> set (ic_permits c)")
  case True
  then show ?thesis using assms by (cases p) (auto simp: place_order_def raiseC_def)
next
  case False
  then obtain permit where p: "p = Some permit" "permit \<in> set (ic_permits c)" by auto
  let ?c = "c\<lparr>ic_permits := remove1 permit (ic_permits c)\<rparr>"
  have o: "openings ?c = openings c" by (simp add: openings_def)
  show ?thesis
  proof (cases "\<exists>s l. st = Some s \<and> li = Some l \<and> 0 < s \<and> 0 < l")
    case True
    then obtain s l where sl: "st = Some s" "li = Some l" "0 < s" "0 < l" by auto
    have "send_order (logged env) epic dir lots s l hft permit ?c = Some (r, c')"
      using assms p sl by (simp add: place_order_def not_le[symmetric])
    from wpC_D[OF send_order_sent[OF refl o] this] obtain j where
      j: "is_order env epic dir lots s l permit j" "sent j (ic_permits ?c) (openings c) 5 c'" by auto
    then obtain new where "openings c' = openings c @ new" "length new \<le> 5" "list_all (\<lambda>rq. rq_json rq = j) new"
      "ic_permits c' = remove1 permit (ic_permits c)" by (auto simp: sent_def)
    moreover from this(3) have "list_all (\<lambda>rq. is_order env epic dir lots s l permit (rq_json rq)) new"
      using j(1) by (auto simp: list_all_iff)
    ultimately show ?thesis using p sl by auto
  next
    case False
    then have "c' = ?c" using assms p
      by (auto simp: place_order_def raiseC_def not_le split: option.splits if_splits)
    then show ?thesis using p o by auto
  qed
qed

section \<open>Where an answer comes from\<close>

text \<open>A response the broker gave to a request, and one to an opening request.\<close>

definition answered :: "'w ig_env \<Rightarrow> (http_request \<Rightarrow> bool) \<Rightarrow> http_response \<Rightarrow> bool" where
  "answered env P response \<longleftrightarrow> (\<exists>rq w took w'. P rq \<and> ie_http env rq w = (Inr response, took, w'))"

definition sends :: "request_spec \<Rightarrow> http_request \<Rightarrow> bool" where
  "sends q rq \<longleftrightarrow> rq_method rq = rs_method q \<and> rq_path rq = rs_path q \<and> rq_json rq = rs_json q \<and>
     (''_method'', ''DELETE'') \<notin> set (rq_headers rq)"

lemma http_answered: "P rq \<Longrightarrow> ends (\<lambda>response c. answered env P response) (http env rq)"
  by (auto simp: ends_def http_def answered_def split: prod.splits)

lemma send_answered: "ends (\<lambda>response c. answered env (sends q) response) (send_request env q)"
proof -
  have h: "ends (\<lambda>response c. answered env (sends q) response)
      (http env \<lparr>rq_method = rs_method q, rq_path = rs_path q, rq_headers = auth_headers v c, rq_params = rs_params q, rq_json = rs_json q\<rparr>)" for v c
    by (rule http_answered) (auto simp: sends_def auth_headers_def)
  show ?thesis unfolding send_request_def by (intro ends_bind ends_intro h)
qed

lemma round_answered: "ends (\<lambda>r c. \<forall>x. r = Answer x \<longrightarrow> answered env (sends q) x) (request_round env q)"
  unfolding request_round_def
  by (rule ends_catch, rule ends_bind_value[OF send_answered]) (auto intro!: ends_intro ends_bind)

lemma loop_answered: "ends (\<lambda>x c. answered env (sends q) x) (request_loop env q t i k e)"
proof (induction k arbitrary: i e)
  case (Suc k)
  show ?case unfolding request_loop.simps(2)
    by (rule ends_bind, rule ends_bind_value[OF round_answered])
      (auto intro!: ends_intro ends_bind Suc.IH split: round_result.split)
qed (simp add: ends_intro)

lemma request_answered: "ends (\<lambda>x c. answered env (sends q) x) (request env q)"
  unfolding request_def by (intro ends_bind loop_answered)

definition broker_said :: "'w ig_env \<Rightarrow> (http_request \<Rightarrow> bool) \<Rightarrow> json \<Rightarrow> bool" where
  "broker_said env P v \<longleftrightarrow> (\<exists>response. answered env P response \<and> rp_body response = Inr v)"

lemma request_json_said: "ends (\<lambda>v c. broker_said env (sends q) v) (request_json env q)"
  unfolding request_json_def
  by (rule ends_bind_value[OF request_answered]) (auto simp: broker_said_def intro!: ends_intro)

section \<open>Attached protection\<close>

definition accepted :: "json \<Rightarrow> bool" where
  "accepted v = (case get_or v ''dealStatus'' (JStr []) of Inr s \<Rightarrow> str_upper_is ''ACCEPTED'' s | Inl e \<Rightarrow> False)"

text \<open>The state is the end of a look-up of the position that showed both levels.\<close>

definition shown :: "'w ig_env \<Rightarrow> string \<Rightarrow> 'w ig_client \<Rightarrow> bool" where
  "shown env deal c \<longleftrightarrow> (\<exists>c0 p. get_position env deal c0 = Some (Inr p, c) \<and> has_both_levels p = Inr True)"

lemma protection_loop_shown: "ends (\<lambda>x c. fst x \<longrightarrow> shown env deal c) (protection_loop env deal n p0)"
proof (induction n arbitrary: p0)
  case (Suc n)
  have ih: "protection_loop env deal n p c = Some (Inr x, c') \<Longrightarrow> fst x \<Longrightarrow> shown env deal c'" for p c x c'
    using endsD[OF Suc.IH, of p c x c'] by simp
  show ?case unfolding ends_def protection_loop.simps(2) bindC_value tryC_def
  proof (intro allI impI, elim exE conjE)
    fix s x s' r s1
    assume get: "(case get_position env deal s of None \<Rightarrow> None | Some (r, s') \<Rightarrow> Some (Inr r, s')) = Some (Inr r, s1)"
      and run: "(let p = case r of Inl _ \<Rightarrow> p0 | Inr p \<Rightarrow> p; ok = case r of Inl _ \<Rightarrow> False | Inr p \<Rightarrow> has_both_levels p = Inr True
        in if ok then returnC (True, p)
           else bindC (if 0 < n then sleep env (1 / 2) else returnC ()) (\<lambda>_. protection_loop env deal n p)) s1 = Some (Inr x, s')"
      and x: "fst x"
    have g: "get_position env deal s = Some (r, s1)" using get by (auto split: option.splits)
    show "shown env deal s'"
    proof (cases "\<exists>p. r = Inr p \<and> has_both_levels p = Inr True")
      case True
      then show ?thesis using run g unfolding shown_def by (auto simp: returnC_def) metis
    next
      case False
      then have "(case r of Inl _ \<Rightarrow> False | Inr p \<Rightarrow> has_both_levels p = Inr True) = False" by (cases r) auto
      then show ?thesis using run by (auto simp: Let_def bindC_value intro: ih[OF _ x])
    qed
  qed
qed (simp add: ends_intro)

lemma emergency_close_raises: "ends (\<lambda>u c. False) (emergency_close env deal r dir lots p)"
  unfolding emergency_close_def Let_def by (intro ends_bind ends_intro)

lemma verify_shown: "ends (\<lambda>u c. shown env deal c) (verify_attached_protection env deal r dir lots)"
  using endsD[OF protection_loop_shown] endsD[OF emergency_close_raises]
  unfolding verify_attached_protection_def ends_def bindC_value
  by (fastforce simp: returnC_def split: if_splits)

definition protected_if_accepted :: "'w ig_env \<Rightarrow> json \<Rightarrow> 'w ig_client \<Rightarrow> bool" where
  "protected_if_accepted env v c \<longleftrightarrow>
     (accepted v \<longrightarrow> (\<exists>d. get v ''dealId'' = Inr d \<and> shown env (str_json (ie_str env) d) c))"

lemma confirm_order_protected: "ends (protected_if_accepted env) (confirm_order env dir lots ref)"
  unfolding confirm_order_def
proof (rule ends_bind, rule ends_bind_pure)
  fix v status assume g: "get_or v ''dealStatus'' (JStr []) = Inr status"
  have a: "ends (\<lambda>u c. protected_if_accepted env v c)
      (if str_upper_is ''ACCEPTED'' status then
         bindC (pureC (get v ''dealId'')) (\<lambda>deal_id. if \<not> json_truthy deal_id then raiseC e
           else verify_attached_protection env (str_json (ie_str env) deal_id) ref dir lots)
       else returnC ())" for e
    by (intro ends_intro ends_bind_pure ends_mono[OF verify_shown])
      (use g in \<open>auto simp: protected_if_accepted_def accepted_def\<close>)
  show "ends (protected_if_accepted env) (bindC
      (if str_upper_is ''ACCEPTED'' status then
         bindC (pureC (get v ''dealId'')) (\<lambda>deal_id. if \<not> json_truthy deal_id
           then raiseC (IGConnectionError (FMsg ''Accepted opening order did not include a deal ID'' [FStr (str_json (ie_str env) ref)]))
           else verify_attached_protection env (str_json (ie_str env) deal_id) ref dir lots)
       else returnC ()) (\<lambda>_. returnC v))"
    by (rule ends_bind_return[OF a])
qed

text \<open>
  The broker answers an opening request with its reference only; the status comes with the
  confirmation.
\<close>

definition opening_is_acknowledged :: "'w ig_env \<Rightarrow> bool" where
  "opening_is_acknowledged env \<longleftrightarrow> (\<forall>v. broker_said env (\<lambda>rq. \<not> harmless rq) v \<longrightarrow> \<not> accepted v)"

lemma broker_said_mono: "broker_said env P v \<Longrightarrow> (\<And>rq. P rq \<Longrightarrow> Q rq) \<Longrightarrow> broker_said env Q v"
  unfolding broker_said_def answered_def by blast

lemma opening_not_accepted:
  assumes "opening_is_acknowledged env" "broker_said env (sends \<lparr>rs_method = ''POST'', rs_path = ''/positions/otc'', rs_version = v1,
    rs_hft = h, rs_params = ps, rs_json = j\<rparr>) v"
  shows "\<not> accepted v"
proof -
  have "broker_said env (\<lambda>rq. \<not> harmless rq) v"
    by (rule broker_said_mono[OF assms(2)]) (simp add: sends_def harmless_def)
  then show ?thesis using assms(1) by (simp add: opening_is_acknowledged_def)
qed

text \<open>
  Claim C10: when the broker gives the status of an order only in its confirmation, an opening order
  that comes back accepted belongs to a position that was read back with both a stop and a limit
  level, and nothing was done after that reading; an accepted order whose position never shows both
  does not come back but raises, after an attempt to close the position.
\<close>

theorem accepted_order_is_protected:
  assumes "opening_is_acknowledged env" "place_order env epic dir lots st li hft p c = Some (Inr v, c')" "accepted v"
  shows "\<exists>d. get v ''dealId'' = Inr d \<and> shown env (str_json (ie_str env) d) c'"
proof -
  let ?q = "\<lambda>j. \<lparr>rs_method = ''POST'', rs_path = ''/positions/otc'', rs_version = ''2'', rs_hft = hft, rs_params = [], rs_json = j\<rparr>"
  have rest: "ends (protected_if_accepted env) (bindC (pureC (get result ''dealReference'')) (\<lambda>given.
       let deal_ref = (if json_truthy given then given else JStr permit)
       in if json_truthy deal_ref then
            catchC (confirm_order env dir lots deal_ref)
              (\<lambda>e. if is_ig_connection_error e then raiseC e else returnC result)
          else returnC result))" if "\<not> accepted result" for result permit
    using that unfolding Let_def
    by (intro ends_bind ends_branch ends_catch confirm_order_protected) (auto simp: protected_if_accepted_def intro!: ends_intro)
  have send: "ends (protected_if_accepted env) (send_order env epic dir lots s l hft permit)" for s l permit
    unfolding send_order_def
    by (rule ends_bind, rule ends_bind_value[OF request_json_said], rule rest)
      (rule opening_not_accepted[OF assms(1)])
  have "ends (protected_if_accepted env) (place_order env epic dir lots st li hft p)"
    unfolding place_order_def
    by (rule ends_bind) (auto intro!: ends_intro ends_bind send split: option.split)
  from endsD[OF this assms(2)] assms(3) show ?thesis by (simp add: protected_if_accepted_def)
qed

section \<open>Verified updates\<close>

definition matched :: "'w ig_env \<Rightarrow> string \<Rightarrow> pyfloat option \<Rightarrow> pyfloat option \<Rightarrow> 'w ig_client \<Rightarrow> bool" where
  "matched env deal st li c \<longleftrightarrow> (\<exists>c0 p. get_position env deal c0 = Some (Inr p, c) \<and> protection_matches env st li p = Inr True)"

lemma readback_matched: "ends (\<lambda>x c. fst x \<longrightarrow> matched env deal st li c) (readback_loop env deal st li n p0 e0)"
proof (induction n arbitrary: p0 e0)
  case (Suc n)
  have ih: "readback_loop env deal st li n p e c = Some (Inr x, c') \<Longrightarrow> fst x \<Longrightarrow> matched env deal st li c'" for p e c x c'
    using endsD[OF Suc.IH, of p e c x c'] by simp
  show ?case unfolding ends_def readback_loop.simps(2) bindC_value tryC_def
  proof (intro allI impI, elim exE conjE)
    fix s x s' r s1
    assume get: "(case get_position env deal s of None \<Rightarrow> None | Some (r, s') \<Rightarrow> Some (Inr r, s')) = Some (Inr r, s1)"
      and run: "(let p = case r of Inl _ \<Rightarrow> p0 | Inr p \<Rightarrow> p;
          m = case r of Inl e \<Rightarrow> Inl e | Inr p \<Rightarrow> protection_matches env st li p;
          err = case m of Inl e \<Rightarrow> Some e | Inr _ \<Rightarrow> e0
        in if m = Inr True then returnC (True, p, err)
           else bindC (if 0 < n then sleep env (1 / 2) else returnC ()) (\<lambda>_. readback_loop env deal st li n p err)) s1 = Some (Inr x, s')"
      and x: "fst x"
    have g: "get_position env deal s = Some (r, s1)" using get by (auto split: option.splits)
    show "matched env deal st li s'"
    proof (cases "\<exists>p. r = Inr p \<and> protection_matches env st li p = Inr True")
      case True
      then show ?thesis using run g unfolding matched_def by (auto simp: returnC_def) metis
    next
      case False
      then have "(case r of Inl e \<Rightarrow> Inl e | Inr p \<Rightarrow> protection_matches env st li p) \<noteq> Inr True" by (cases r) auto
      then show ?thesis using run by (auto simp: Let_def bindC_value intro: ih[OF _ x])
    qed
  qed
qed (simp add: ends_intro)

lemma said_any: "broker_said env P v \<Longrightarrow> broker_said env (\<lambda>rq. True) v"
  unfolding broker_said_def answered_def by blast

lemma empty_not_accepted: "py_upper [] \<noteq> ''ACCEPTED''"
  by code_simp

text \<open>What a returned update rests on.\<close>

definition update_verified :: "'w ig_env \<Rightarrow> string \<Rightarrow> pyfloat option \<Rightarrow> pyfloat option \<Rightarrow> json \<Rightarrow> 'w ig_client \<Rightarrow> bool" where
  "update_verified env deal st li v c \<longleftrightarrow> accepted v \<and> (broker_said env (\<lambda>rq. True) v \<or> matched env deal st li c)"

lemma verify_position_verified: "ends (update_verified env deal st li) (verify_position_protection env deal st li ref)"
proof -
  have acc: "accepted (JObj ((''dealStatus'', JStr ''ACCEPTED'') # xs))" for xs
  proof -
    have "py_upper ''ACCEPTED'' = ''ACCEPTED''" by code_simp
    then show ?thesis by (simp add: accepted_def)
  qed
  show ?thesis
    unfolding verify_position_protection_def ends_def bindC_value
  proof (intro allI impI, elim exE conjE)
    fix c v c' x c1
    assume r: "readback_loop env deal st li 3 (JObj []) None c = Some (Inr x, c1)"
      and rest: "(case x of (ok, p, e) \<Rightarrow> bindC (pureC (get p ''stopLevel'')) (\<lambda>actual_stop.
         bindC (pureC (get p ''limitLevel'')) (\<lambda>actual_limit.
           if ok then returnC (JObj [(''dealStatus'', JStr ''ACCEPTED''), (''dealId'', JStr deal), (''dealReference'', ref),
               (''stopLevel'', actual_stop), (''limitLevel'', actual_limit), (''verifiedByPositionReadback'', JBool True)])
           else raiseC (IGConnectionError (FMsg ''Could not verify SL/TP protection after IG update''
             ([FStr deal, level_arg st, level_arg li, FStr (str_json (ie_str env) actual_stop),
               FStr (str_json (ie_str env) actual_limit)] @ (case e of Some e \<Rightarrow> [FExc e] | None \<Rightarrow> []))))))) c1 = Some (Inr v, c')"
    obtain ok p e where x: "x = (ok, p, e)" by (cases x)
    have "ok" "c1 = c'" "\<exists>xs. v = JObj ((''dealStatus'', JStr ''ACCEPTED'') # xs)"
      using rest unfolding x by (auto simp: bindC_value pureC_def returnC_def raiseC_def split: if_splits)
    then show "update_verified env deal st li v c'"
      using endsD[OF readback_matched r] acc unfolding x by (auto simp: update_verified_def)
  qed
qed

lemma confirm_update_said:
  "ends (\<lambda>x c. \<forall>v. x = Some v \<longrightarrow> accepted v \<and> broker_said env (\<lambda>rq. True) v) (confirm_update env deal ref)"
proof -
  have "ends (\<lambda>x c. \<forall>v. x = Some v \<longrightarrow> accepted v \<and> broker_said env (\<lambda>rq. True) v)
      (bindC (pureC (get_or data ''dealStatus'' (JStr []))) (\<lambda>status.
          if str_upper_is ''ACCEPTED'' status then returnC (Some data)
          else if str_upper_is ''REJECTED'' status
          then bindC (pureC (get data ''reason'')) (\<lambda>reason. raiseC (rejected env deal ref reason))
          else returnC None))" if "broker_said env P data" for data P
    using said_any[OF that] by (intro ends_bind_pure ends_intro) (auto simp: accepted_def intro: ends_bind ends_basic)
  note data = this
  have h: "ends (\<lambda>x c. \<forall>v. x = Some v \<longrightarrow> accepted v \<and> broker_said env (\<lambda>rq. True) v)
      (if is_ig_connection_error e then raiseC e else returnC None)" for e
    by (simp add: ends_basic)
  show ?thesis unfolding confirm_update_def fetch_confirm_def
    by (rule ends_catch, rule ends_bind_value[OF request_json_said], rule data, assumption, rule h)
qed

text \<open>
  Claim: an update of a position's protection that returns carries the status accepted, and
  either the broker said so or the position was read back, as the last step, with levels that match
  the requested ones; anything else raises.
\<close>

theorem returned_update_is_verified:
  assumes "update_position_sl_tp env deal st li c = Some (Inr v, c')"
  shows "accepted v \<and> (broker_said env (\<lambda>rq. True) v \<or> matched env deal st li c')"
proof -
  have inner: "ends (update_verified env deal st li)
      (bindC (pureC (get result ''dealReference'')) (\<lambda>deal_ref.
       bindC (if json_truthy deal_ref then confirm_update env deal deal_ref else returnC None) (\<lambda>confirmed.
         case confirmed of
           Some data \<Rightarrow> returnC data
         | None \<Rightarrow>
             bindC (pureC (get_or result ''dealStatus'' (JStr []))) (\<lambda>status.
             if str_upper_is ''REJECTED'' status
             then bindC (pureC (get result ''reason'')) (\<lambda>reason. raiseC (rejected env deal deal_ref reason))
             else if str_upper_is ''ACCEPTED'' status then returnC result
             else verify_position_protection env deal st li deal_ref))))"
    if res: "broker_said env (\<lambda>rq. True) result \<or> result = JObj []" for result
  proof (rule ends_bind)
    fix ref
    have c: "ends (\<lambda>x c. \<forall>v. x = Some v \<longrightarrow> accepted v \<and> broker_said env (\<lambda>rq. True) v)
        (if json_truthy ref then confirm_update env deal ref else returnC None)"
      by (intro ends_intro confirm_update_said) simp
    show "ends (update_verified env deal st li)
      (bindC (if json_truthy ref then confirm_update env deal ref else returnC None) (\<lambda>confirmed.
         case confirmed of
           Some data \<Rightarrow> returnC data
         | None \<Rightarrow>
             bindC (pureC (get_or result ''dealStatus'' (JStr []))) (\<lambda>status.
             if str_upper_is ''REJECTED'' status
             then bindC (pureC (get result ''reason'')) (\<lambda>reason. raiseC (rejected env deal ref reason))
             else if str_upper_is ''ACCEPTED'' status then returnC result
             else verify_position_protection env deal st li ref)))"
      by (rule ends_bind_value[OF c])
        (use res in \<open>auto intro!: ends_intro ends_bind_pure verify_position_verified
          simp: update_verified_def accepted_def empty_not_accepted\<close>)
  qed
  have "ends (update_verified env deal st li) (update_position_sl_tp env deal st li)"
    unfolding update_position_sl_tp_def
  proof (rule ends_bind_value[OF request_answered], rule ends_branch)
    fix response q
    assume a: "answered env (sends q) response"
    have body: "ends (\<lambda>v c. broker_said env (\<lambda>rq. True) v \<or> v = JObj [])
        (case rp_body response of Inr x \<Rightarrow> returnC x | Inl e \<Rightarrow> if is_value_error e then returnC (JObj []) else raiseC e)"
      using a said_any[of env "sends q"] by (auto intro!: ends_intro simp: broker_said_def split: sum.split)
    show "ends (update_verified env deal st li)
      (bindC (case rp_body response of Inr x \<Rightarrow> returnC x | Inl e \<Rightarrow> if is_value_error e then returnC (JObj []) else raiseC e) (\<lambda>result.
       bindC (pureC (get result ''dealReference'')) (\<lambda>deal_ref.
       bindC (if json_truthy deal_ref then confirm_update env deal deal_ref else returnC None) (\<lambda>confirmed.
         case confirmed of
           Some data \<Rightarrow> returnC data
         | None \<Rightarrow>
             bindC (pureC (get_or result ''dealStatus'' (JStr []))) (\<lambda>status.
             if str_upper_is ''REJECTED'' status
             then bindC (pureC (get result ''reason'')) (\<lambda>reason. raiseC (rejected env deal deal_ref reason))
             else if str_upper_is ''ACCEPTED'' status then returnC result
             else verify_position_protection env deal st li deal_ref)))))"
      by (rule ends_bind_value[OF body], rule inner)
  qed (rule ends_basic)
  from endsD[OF this assms] show ?thesis by (simp add: update_verified_def)
qed

section \<open>Bursts\<close>









section \<open>A broker for examples\<close>

text \<open>It acknowledges orders and updates with a reference, accepts them in the confirmation, and shows a
  protected position; its state counts the requests.\<close>

definition answer_json :: "json \<Rightarrow> http_response" where
  "answer_json v = \<lparr>rp_status_code = 200, rp_headers = [(''CST'', ''c''), (''X-SECURITY-TOKEN'', ''t'')], rp_body = Inr v, rp_text = []\<rparr>"

definition demo_http :: "http_request \<Rightarrow> nat \<Rightarrow> (py_error + http_response) \<times> nat \<times> nat" where
  "demo_http rq n = (Inr (answer_json (
     if rq_method rq = ''GET'' \<and> rq_path rq = ''/confirms/R''
     then JObj [(''dealStatus'', JStr ''ACCEPTED''), (''dealId'', JStr ''D'')]
     else if rq_method rq = ''GET'' \<and> rq_path rq = ''/positions/D''
     then JObj [(''position'', JObj [(''stopLevel'', JNum 90), (''limitLevel'', JNum 120)])]
     else JObj [(''dealReference'', JStr ''R'')])), 0, Suc n)"

definition demo_env :: "nat ig_env" where
  "demo_env = \<lparr>ie_http = demo_http, ie_delay = (\<lambda>_. 0), ie_uuid_hex = (\<lambda>n. (replicate 32 (CHR ''a''), Suc n)),
     ie_parse_int = (\<lambda>_. Inl (ValueError [])), ie_parse_float = (\<lambda>_. Inl (ValueError [])),
     ie_str = (\<lambda>v. case v of JStr s \<Rightarrow> s | _ \<Rightarrow> []), ie_str_float = (\<lambda>_. ''1'')\<rparr>"

definition demo_client :: "'w \<Rightarrow> 'w ig_client" where
  "demo_client w = (ig_client_init ''k'' ''u'' ''p'' ''demo'' 0 w)
     \<lparr>ic_has_client := True, ic_permits := [''P''], ic_account_currency := Some ''EUR''\<rparr>"

definition returned :: "((py_error + 'a) \<times> 's) option \<Rightarrow> bool" where
  "returned x = (case x of Some (Inr v, s) \<Rightarrow> True | _ \<Rightarrow> False)"

lemma returned_obtain: "returned x \<Longrightarrow> \<exists>v s. x = Some (Inr v, s)"
  by (auto simp: returned_def split: option.splits sum.splits prod.splits)

lemma demo_acknowledged: "opening_is_acknowledged demo_env"
proof -
  have "\<not> accepted (JObj [(''dealReference'', JStr ''R'')])" by code_simp
  then show ?thesis
    by (auto simp: opening_is_acknowledged_def broker_said_def answered_def demo_env_def demo_http_def answer_json_def harmless_def)
qed

lemma broker_operations_return_witness:
  "limit_ok (demo_client (0::nat)) \<and> (\<exists>r c'. place_order demo_env ''E'' ''BUY'' 1 (Some 10) (Some 20) False (Some ''P'') (demo_client 0) = Some (r, c') \<and> limit_ok c')"
proof -
  have "limit_ok (demo_client (0::nat))" by (simp add: limit_ok_def demo_client_def ig_client_init_def)
  then show ?thesis using broker_operations_return[of "demo_client 0" demo_env "''E''" "''BUY''" 1 "Some 10" "Some 20" False "Some ''P''"] by blast
qed

definition limited_client :: "nat ig_client" where
  "limited_client = demo_client 0 \<lparr>ic_rate_limited := True, ic_resume_at := Some 60000000000\<rparr>"

lemma stop_while_limited_blocks_requests_witness:
  "\<exists>c1 c2. stop limited_client = Some (Inr (), c1) \<and> start demo_env c1 = Some (Inr (), c2) \<and>
     request demo_env (plain ''GET'' ''/positions'' ''2'') c2 = None"
proof -
  have l: "ic_rate_limited limited_client" by (simp add: limited_client_def)
  obtain c1 where c1: "stop limited_client = Some (Inr (), c1)" by (simp add: stop_def updC_def)
  have "returned (start demo_env (the (map_option snd (stop limited_client))))" by code_simp
  then obtain c2 where c2: "start demo_env c1 = Some (Inr (), c2)" using c1 by (auto dest!: returned_obtain)
  have "\<not> rs_hft (plain ''GET'' ''/positions'' ''2'')" by (simp add: plain_def)
  from stop_while_limited_blocks_requests[OF l c1 c2 this] c1 c2 show ?thesis by blast
qed

lemma opening_order_needs_permit_witness:
  "\<exists>r c'. place_order (logged demo_env) ''E'' ''BUY'' 1 (Some 10) (Some 20) False (Some ''P'') (demo_client (0, [])) = Some (r, c') \<and>
     ic_permits c' = [] \<and> length (openings c') = 1"
proof -
  have "returned (place_order (logged demo_env) ''E'' ''BUY'' 1 (Some 10) (Some 20) False (Some ''P'') (demo_client (0, [])))" by code_simp
  then obtain r c' where r: "place_order (logged demo_env) ''E'' ''BUY'' 1 (Some 10) (Some 20) False (Some ''P'') (demo_client (0, [])) = Some (Inr r, c')"
    by (auto dest!: returned_obtain)
  have "length (openings (the (map_option snd (place_order (logged demo_env) ''E'' ''BUY'' 1 (Some 10) (Some 20) False (Some ''P'') (demo_client (0, [])))))) = 1"
    by code_simp
  then have one: "length (openings c') = 1" by (simp add: r)
  have "ic_permits (demo_client (0::nat, []::http_request list)) = [''P'']" by (simp add: demo_client_def)
  with opening_order_needs_permit[OF r] have "ic_permits c' = []" by simp
  then show ?thesis using r one by blast
qed

lemma accepted_order_is_protected_witness:
  "\<exists>v c'. place_order demo_env ''E'' ''BUY'' 1 (Some 10) (Some 20) False (Some ''P'') (demo_client 0) = Some (Inr v, c') \<and>
     accepted v \<and> shown demo_env ''D'' c'"
proof -
  let ?r = "place_order demo_env ''E'' ''BUY'' 1 (Some 10) (Some 20) False (Some ''P'') (demo_client 0)"
  have "returned ?r" by code_simp
  then obtain v c' where r: "?r = Some (Inr v, c')" by (auto dest!: returned_obtain)
  have "map_option (fst) ?r = Some (Inr (JObj [(''dealStatus'', JStr ''ACCEPTED''), (''dealId'', JStr ''D'')]))" by code_simp
  then have v: "v = JObj [(''dealStatus'', JStr ''ACCEPTED''), (''dealId'', JStr ''D'')]" by (simp add: r)
  have a: "accepted v" unfolding v by code_simp
  have "get v ''dealId'' = Inr (JStr ''D'')" unfolding v by code_simp
  moreover have "str_json (ie_str demo_env) (JStr ''D'') = ''D''" by code_simp
  ultimately have "shown demo_env ''D'' c'" using accepted_order_is_protected[OF demo_acknowledged r a] by auto
  then show ?thesis using r a by blast
qed

lemma returned_update_is_verified_witness:
  "\<exists>v c'. update_position_sl_tp demo_env ''D'' (Some 90) (Some 120) (demo_client 0) = Some (Inr v, c') \<and> accepted v"
proof -
  have "returned (update_position_sl_tp demo_env ''D'' (Some 90) (Some 120) (demo_client 0))" by code_simp
  then obtain v c' where "update_position_sl_tp demo_env ''D'' (Some 90) (Some 120) (demo_client 0) = Some (Inr v, c')"
    by (auto dest!: returned_obtain)
  with returned_update_is_verified[OF this] show ?thesis by blast
qed


end
