(* ===== verification/Drawdown_Monitor.thy ===== *)
theory Drawdown_Monitor
  imports Constants
begin

text \<open>
  Drawdown and daily-loss protection, \<open>src/risk/drawdown_monitor.py\<close>: the peak of the equity
  curve, the realized loss of the UTC day with its limit flag, and the decision whether a new
  trade is allowed.  The clock is an argument of every operation that reads it.
\<close>

section \<open>State\<close>

datatype trade_decision = ALLOW | REDUCE_SIZE | REJECT | KILL_SWITCH

record dd_reduction =
  dr_factor :: decimal
  dr_reason :: fmsg

record drawdown_check_result =
  dc_decision :: trade_decision
  dc_reason :: "fmsg option"
  dc_reduction_factor :: "dd_reduction option"
  dc_drawdown_pct :: decimal

record drawdown_monitor =
  peak_equity :: decimal
  daily_max_loss_pct :: decimal
  drawdown_reduction_pct :: decimal
  kill_switch_pct :: decimal
  daily_realized_loss :: decimal
  daily_start_equity :: decimal
  current_day :: micros
  daily_loss_limit_hit :: bool

definition drawdown_init ::
  "decimal \<Rightarrow> decimal option \<Rightarrow> decimal option \<Rightarrow> decimal option \<Rightarrow> micros \<Rightarrow> drawdown_monitor" where
  "drawdown_init equity max_loss reduction kill now =
     \<lparr>peak_equity = equity,
      daily_max_loss_pct = (case max_loss of Some x \<Rightarrow> x | None \<Rightarrow> dec_of_float DAILY_MAX_LOSS_PCT),
      drawdown_reduction_pct =
        (case reduction of Some x \<Rightarrow> x | None \<Rightarrow> dec_of_float DRAWDOWN_REDUCTION_PCT),
      kill_switch_pct = (case kill of Some x \<Rightarrow> x | None \<Rightarrow> dec_of_float KILL_SWITCH_DRAWDOWN_PCT),
      daily_realized_loss = 0,
      daily_start_equity = equity,
      current_day = midnight now,
      daily_loss_limit_hit = False\<rparr>"

section \<open>Operations\<close>

definition update_equity :: "decimal \<Rightarrow> drawdown_monitor \<Rightarrow> drawdown_monitor" where
  "update_equity equity m = (if peak_equity m < equity then m\<lparr>peak_equity := equity\<rparr> else m)"

definition get_drawdown :: "drawdown_monitor \<Rightarrow> decimal \<Rightarrow> decimal" where
  "get_drawdown m equity =
     (if peak_equity m \<le> 0 then 0
      else if peak_equity m \<le> equity then 0
      else d_quot (d_sub (peak_equity m) equity) (peak_equity m))"

definition reset_daily_if_needed :: "micros \<Rightarrow> drawdown_monitor \<Rightarrow> drawdown_monitor" where
  "reset_daily_if_needed now m =
     (if current_day m < midnight now
      then m\<lparr>daily_realized_loss := 0, daily_loss_limit_hit := False, current_day := midnight now\<rparr>
      else m)"

definition reset_daily :: "decimal \<Rightarrow> micros \<Rightarrow> drawdown_monitor \<Rightarrow> drawdown_monitor" where
  "reset_daily equity now m =
     m\<lparr>daily_realized_loss := 0, daily_start_equity := equity, daily_loss_limit_hit := False,
       current_day := midnight now\<rparr>"

definition daily_limit :: "drawdown_monitor \<Rightarrow> decimal" where
  "daily_limit m = d_mul (daily_start_equity m) (daily_max_loss_pct m)"

definition update_on_trade_close :: "decimal \<Rightarrow> micros \<Rightarrow> drawdown_monitor \<Rightarrow> drawdown_monitor" where
  "update_on_trade_close pnl now m =
     (let m1 = reset_daily_if_needed now m;
          m2 = (if pnl < 0
                then m1\<lparr>daily_realized_loss := d_add (daily_realized_loss m1) (d_abs pnl)\<rparr> else m1)
      in if daily_limit m2 \<le> daily_realized_loss m2 then m2\<lparr>daily_loss_limit_hit := True\<rparr> else m2)"

definition check_daily_loss_limit :: "decimal \<Rightarrow> micros \<Rightarrow> drawdown_monitor \<Rightarrow> bool \<times> drawdown_monitor" where
  "check_daily_loss_limit equity now m =
     (let m1 = reset_daily_if_needed now m in (daily_limit m1 \<le> daily_realized_loss m1, m1))"

definition get_drawdown_pct :: "drawdown_monitor \<Rightarrow> decimal \<Rightarrow> pyfloat" where
  "get_drawdown_pct m equity = flt (get_drawdown m equity)"

definition should_trigger_kill_switch :: "drawdown_monitor \<Rightarrow> decimal \<Rightarrow> bool" where
  "should_trigger_kill_switch m equity = (kill_switch_pct m \<le> get_drawdown m equity)"

text \<open>
  The clock is read once at the start and, when the flag is not already set, a second time
  inside \<open>check_daily_loss_limit\<close>.
\<close>

definition check_trade_allowed ::
  "decimal \<Rightarrow> micros \<Rightarrow> micros \<Rightarrow> drawdown_monitor \<Rightarrow> drawdown_check_result \<times> drawdown_monitor" where
  "check_trade_allowed equity now1 now2 m0 =
     (let m1 = update_equity equity (reset_daily_if_needed now1 m0);
          dd = get_drawdown m1 equity
      in if kill_switch_pct m1 \<le> dd
         then (\<lparr>dc_decision = KILL_SWITCH,
                dc_reason = Some (FMsg ''Drawdown {:.4f} exceeds kill switch threshold {:.4f}''
                                    [FNum dd, FNum (kill_switch_pct m1)]),
                dc_reduction_factor = None, dc_drawdown_pct = dd\<rparr>, m1)
         else
           (let (hit, m2) = (if daily_loss_limit_hit m1 then (True, m1)
                             else check_daily_loss_limit equity now2 m1)
            in if hit
               then (\<lparr>dc_decision = REJECT,
                      dc_reason = Some (FMsg ''Daily realized loss {} exceeds limit ({}% of start-of-day equity {})''
                                          [FNum (daily_realized_loss m2),
                                           FNum (d_mul (daily_max_loss_pct m2) 100),
                                           FNum (daily_start_equity m2)]),
                      dc_reduction_factor = None, dc_drawdown_pct = dd\<rparr>, m2)
               else if drawdown_reduction_pct m2 \<le> dd
               then (let why = FMsg ''Drawdown {:.4f} exceeds reduction threshold {:.4f} - applying {} size factor (75% reduction)''
                                 [FNum dd, FNum (drawdown_reduction_pct m2), FNum DRAWDOWN_SIZE_REDUCTION_FACTOR]
                     in (\<lparr>dc_decision = REDUCE_SIZE, dc_reason = Some why,
                          dc_reduction_factor =
                            Some \<lparr>dr_factor = dec_of_float DRAWDOWN_SIZE_REDUCTION_FACTOR, dr_reason = why\<rparr>,
                          dc_drawdown_pct = dd\<rparr>, m2))
               else (\<lparr>dc_decision = ALLOW, dc_reason = None, dc_reduction_factor = None,
                      dc_drawdown_pct = dd\<rparr>, m2)))"

section \<open>Runs\<close>

datatype dd_op =
    TradeClosed decimal micros
  | CheckTrade decimal micros micros
  | NewEquity decimal
  | CheckDaily decimal micros

fun dd_apply :: "dd_op \<Rightarrow> drawdown_monitor \<Rightarrow> drawdown_monitor" where
  "dd_apply (TradeClosed pnl now) m = update_on_trade_close pnl now m"
| "dd_apply (CheckTrade eq now1 now2) m = snd (check_trade_allowed eq now1 now2 m)"
| "dd_apply (NewEquity eq) m = update_equity eq m"
| "dd_apply (CheckDaily eq now) m = snd (check_daily_loss_limit eq now m)"


named_theorems dd_defs

lemmas [dd_defs] =
  update_equity_def reset_daily_if_needed_def update_on_trade_close_def check_daily_loss_limit_def
  check_trade_allowed_def daily_limit_def Let_def

lemma dd_apply_frame [simp]:
  "daily_start_equity (dd_apply p m) = daily_start_equity m"
  "daily_max_loss_pct (dd_apply p m) = daily_max_loss_pct m"
  "kill_switch_pct (dd_apply p m) = kill_switch_pct m"
  "drawdown_reduction_pct (dd_apply p m) = drawdown_reduction_pct m"
  by (cases p; simp add: dd_defs)+

lemma dd_run_frame:
  "daily_start_equity (fold dd_apply ps m) = daily_start_equity m"
  "daily_max_loss_pct (fold dd_apply ps m) = daily_max_loss_pct m"
  by (induction ps arbitrary: m) simp_all

section \<open>The peak of the equity curve\<close>

interpretation peak: ratchet "\<lambda>m m'. peak_equity m \<le> peak_equity m'" dd_apply
proof
  fix p m
  show "peak_equity m \<le> peak_equity (dd_apply p m)" by (cases p) (auto simp: dd_defs)
qed auto

fun reported :: "dd_op \<Rightarrow> decimal option" where
  "reported (CheckTrade eq now1 now2) = Some eq"
| "reported (NewEquity eq) = Some eq"
| "reported _ = None"

lemma dd_apply_reported: "reported p = Some e \<Longrightarrow> e \<le> peak_equity (dd_apply p m)"
  by (cases p) (auto simp: dd_defs)

lemma dd_apply_peak_source: "peak_equity (dd_apply p m) = peak_equity m \<or> reported p = Some (peak_equity (dd_apply p m))"
  by (cases p) (auto simp: dd_defs)

lemma peak_source:
  "peak_equity (fold dd_apply ps m) = peak_equity m \<or>
   Some (peak_equity (fold dd_apply ps m)) \<in> reported ` set ps"
proof (induction ps arbitrary: m)
  case (Cons p ps)
  then show ?case using dd_apply_peak_source[of p m] Cons.IH[of "dd_apply p m"] by (auto simp: image_iff) metis+
qed simp

lemma reported_le_peak:
  "p \<in> set ps \<Longrightarrow> reported p = Some e \<Longrightarrow> e \<le> peak_equity (fold dd_apply ps m)"
proof (induction ps arbitrary: m)
  case (Cons q ps)
  show ?case
  proof (cases "p = q")
    case True
    have "e \<le> peak_equity (dd_apply q m)" using Cons.prems True by (simp add: dd_apply_reported)
    also have "\<dots> \<le> peak_equity (fold dd_apply ps (dd_apply q m))" by (rule peak.run_better)
    finally show ?thesis by simp
  next
    case False
    then show ?thesis using Cons by simp
  qed
qed simp

section \<open>The daily loss limit within one day\<close>

text \<open>Both ways the code recognises a breached limit: the flag and the comparison.\<close>

definition limit_reached :: "drawdown_monitor \<Rightarrow> bool" where
  "limit_reached m \<longleftrightarrow> daily_loss_limit_hit m \<or> daily_limit m \<le> daily_realized_loss m"






lemma check_daily_frame:
  assumes "check_daily_loss_limit equity now m = (hit, m')"
  shows "get_drawdown m' equity = get_drawdown m equity" "kill_switch_pct m' = kill_switch_pct m"
    "drawdown_reduction_pct m' = drawdown_reduction_pct m"
    "\<not> daily_loss_limit_hit m \<Longrightarrow> \<not> hit \<Longrightarrow> \<not> limit_reached m'"
  using assms
  by (auto simp: check_daily_loss_limit_def reset_daily_if_needed_def get_drawdown_def daily_limit_def
      limit_reached_def Let_def split: if_splits)

lemma check_trade_not_kill:
  assumes "check_trade_allowed equity now1 now2 m = (dd, m')" "dc_decision dd \<in> {ALLOW, REDUCE_SIZE}"
  shows "get_drawdown m' equity < kill_switch_pct m'" "\<not> limit_reached m'"
proof -
  define m1 where "m1 = update_equity equity (reset_daily_if_needed now1 m)"
  obtain hit m2 where c: "check_daily_loss_limit equity now2 m1 = (hit, m2)"
    by (cases "check_daily_loss_limit equity now2 m1")
  have "\<not> kill_switch_pct m1 \<le> get_drawdown m1 equity" "\<not> daily_loss_limit_hit m1" "\<not> hit" "m' = m2"
    using assms unfolding check_trade_allowed_def Let_def m1_def[symmetric] by (auto simp: c split: if_splits)
  then show "get_drawdown m' equity < kill_switch_pct m'" "\<not> limit_reached m'"
    using check_daily_frame[OF c] by simp_all
qed

lemma check_trade_not_reduced:
  assumes "check_trade_allowed equity now1 now2 m = (dd, m')" "dc_decision dd = ALLOW"
  shows "get_drawdown m' equity < drawdown_reduction_pct m"
proof -
  define m1 where "m1 = update_equity equity (reset_daily_if_needed now1 m)"
  have r: "drawdown_reduction_pct m1 = drawdown_reduction_pct m"
    by (simp add: m1_def update_equity_def reset_daily_if_needed_def)
  obtain hit m2 where c: "check_daily_loss_limit equity now2 m1 = (hit, m2)"
    by (cases "check_daily_loss_limit equity now2 m1")
  have "\<not> drawdown_reduction_pct m2 \<le> get_drawdown m1 equity" "m' = m2"
    using assms unfolding check_trade_allowed_def Let_def m1_def[symmetric] by (auto simp: c split: if_splits)
  then show ?thesis using check_daily_frame[OF c] by (simp add: r)
qed

section \<open>The drawdown fraction\<close>

lemma get_drawdown_unit:
  assumes "is_dec (peak_equity m)" "0 \<le> equity"
  shows "0 \<le> get_drawdown m equity" "get_drawdown m equity \<le> 1"
proof -
  show "0 \<le> get_drawdown m equity"
    by (auto simp: get_drawdown_def d_sub_def intro!: d_quot_nonneg)
  have "d_sub (peak_equity m) equity \<le> peak_equity m"
    using assms by (simp add: d_sub_def dec.rnd_diff_le)
  then show "get_drawdown m equity \<le> 1"
    by (simp add: get_drawdown_def d_quot_def dec.rnd_le_rep)
qed

text \<open>A drawdown the code computes as less than \<open>t\<close> is less than \<open>t\<close> up to two roundings.\<close>

lemma get_drawdown_below:
  assumes "get_drawdown m equity < t" "0 < peak_equity m" "0 < t"
  shows "(peak_equity m - equity) * (1 - 1 / 10 ^ 27) ^ 2 < t * peak_equity m"
proof (cases "peak_equity m \<le> equity")
  case True
  then have "(peak_equity m - equity) * (1 - 1 / 10 ^ 27) ^ 2 \<le> 0"
    by (intro mult_nonpos_nonneg) auto
  also have "0 < t * peak_equity m" using assms by simp
  finally show ?thesis .
next
  case False
  define q where "q = (1 - 1 / 10 ^ 27 :: rat)"
  have q: "0 < q" by (simp add: q_def)
  have lo: "q * x \<le> dec x" if "0 \<le> x" for x
    using dec_lower[OF that] by (simp add: q_def)
  have "q * (q * (peak_equity m - equity)) / peak_equity m \<le> q * (d_sub (peak_equity m) equity / peak_equity m)"
    using lo[of "peak_equity m - equity"] False assms(2) q by (simp add: d_sub_def divide_right_mono)
  also have "\<dots> \<le> get_drawdown m equity"
    using lo[of "d_sub (peak_equity m) equity / peak_equity m"] False assms(2)
    by (simp add: get_drawdown_def d_quot_def d_sub_def)
  also have "\<dots> < t" by (rule assms(1))
  finally have "q * (q * (peak_equity m - equity)) < t * peak_equity m"
    using assms(2) by (simp add: pos_divide_less_eq)
  moreover have "(peak_equity m - equity) * q ^ 2 = q * (q * (peak_equity m - equity))"
    by (simp add: power2_eq_square)
  ultimately show ?thesis unfolding q_def[symmetric] by (simp only:)
qed

section \<open>What the monitor guarantees\<close>



text \<open>
  Claim: after any run of operations the peak is the largest equity ever reported, the
  initial one included; it never falls.
\<close>

theorem peak_is_largest_reported:
  "peak_equity (fold dd_apply ps m) = Max (insert (peak_equity m) {e. Some e \<in> reported ` set ps})"
proof -
  let ?S = "insert (peak_equity m) {e. Some e \<in> reported ` set ps}"
  have "finite (Some -` (reported ` set ps))" by (intro finite_vimageI) auto
  then have fin: "finite ?S" by (simp add: vimage_def)
  have "peak_equity (fold dd_apply ps m) \<in> ?S" using peak_source[of ps m] by auto
  moreover have "e \<le> peak_equity (fold dd_apply ps m)" if "e \<in> ?S" for e
    using that peak.run_better[of m ps] reported_le_peak[of _ ps e m] by (auto simp: image_iff)
  ultimately show ?thesis using fin by (metis Max_eqI)
qed

text \<open>
  Claim: a trade is allowed without reduction only when the true drawdown from the peak is
  below the reduction threshold (10% by default), up to a relative rounding error of about
  \<open>10^-27\<close>; and the reported drawdown is a fraction between 0 and 1.
\<close>

theorem allowed_means_small_drawdown:
  assumes "dc_decision (fst (check_trade_allowed equity now1 now2 m)) = ALLOW"
    and "0 < peak_equity m" "0 < drawdown_reduction_pct m" "is_dec (peak_equity m)" "is_dec equity" "0 \<le> equity"
  shows "(max (peak_equity m) equity - equity) * (1 - 1 / 10 ^ 27) ^ 2
           < drawdown_reduction_pct m * max (peak_equity m) equity
    \<and> 0 \<le> dc_drawdown_pct (fst (check_trade_allowed equity now1 now2 m))
    \<and> dc_drawdown_pct (fst (check_trade_allowed equity now1 now2 m)) \<le> 1"
proof -
  define m1 where "m1 = update_equity equity (reset_daily_if_needed now1 m)"
  have peak: "peak_equity m1 = max (peak_equity m) equity"
    and red: "drawdown_reduction_pct m1 = drawdown_reduction_pct m"
    by (auto simp: m1_def update_equity_def reset_daily_if_needed_def)
  have "get_drawdown m1 equity < drawdown_reduction_pct m \<and>
      dc_drawdown_pct (fst (check_trade_allowed equity now1 now2 m)) = get_drawdown m1 equity"
    using assms(1) red unfolding check_trade_allowed_def Let_def m1_def[symmetric]
    by (auto simp: check_daily_loss_limit_def Let_def reset_daily_if_needed_def not_le split: if_splits)
  moreover have "is_dec (peak_equity m1)" "0 < peak_equity m1" using assms(2,4,5) by (auto simp: peak max_def)
  ultimately show ?thesis
    using get_drawdown_below[of m1 equity "drawdown_reduction_pct m"] get_drawdown_unit[of m1 equity] assms(3,6)
    by (simp add: peak)
qed

theorem allowed_means_small_drawdown_witness:
  "dc_decision (fst (check_trade_allowed 950 20 20 (drawdown_init 1000 None None None 10))) = ALLOW \<and>
   (max 1000 950 - 950) * (1 - 1 / 10 ^ 27) ^ 2 < (1 / 10) * (max 1000 950 :: rat)"
proof -
  let ?m = "drawdown_init 1000 None None None 10"
  have f: "d_mul 1000 (3 / 100) = 30" "d_quot (d_sub 1000 950) 1000 = 1 / 20" "is_dec 1000" "is_dec 950" by code_simp+
  have d: "dc_decision (fst (check_trade_allowed 950 20 20 ?m)) = ALLOW" "is_dec (peak_equity ?m)" "is_dec 950"
    by (simp_all add: check_trade_allowed_def check_daily_loss_limit_def get_drawdown_def dd_defs drawdown_init_def
        midnight_def Let_def f)
  have "peak_equity ?m = 1000" "drawdown_reduction_pct ?m = 1/10" by (simp_all add: drawdown_init_def)
  then show ?thesis using allowed_means_small_drawdown[OF d(1) _ _ d(2,3)] d(1) by simp
qed

text \<open>
  Claim: the automatic day roll-over resets the realized loss and its flag but not the
  start-of-day equity: over any run of the operations the rest of the system calls, on any
  number of days, the daily limit stays the one computed from the initial equity.
\<close>

theorem start_of_day_equity_never_refreshed:
  "daily_start_equity (fold dd_apply ps m) = daily_start_equity m \<and>
   daily_limit (fold dd_apply ps m) = daily_limit m"
  by (simp add: dd_run_frame daily_limit_def)

end
