(* ===== verification/Exposure_Manager.thy ===== *)
theory Exposure_Manager
  imports Constants
begin

text \<open>
  Exposure limits per asset class and in total, \<open>src/risk/exposure_manager.py\<close>, with the
  geopolitical risk scores that halve the limit of a class for a region.
\<close>

section \<open>State\<close>

datatype asset_class = FOREX | INDICES | COMMODITIES | CRYPTO | STOCKS

fun asset_class_value :: "asset_class \<Rightarrow> string" where
  "asset_class_value FOREX = ''forex''"
| "asset_class_value INDICES = ''indices''"
| "asset_class_value COMMODITIES = ''commodities''"
| "asset_class_value CRYPTO = ''crypto''"
| "asset_class_value STOCKS = ''stocks''"

record exposure_position =
  ep_instrument :: string
  ep_asset_class :: asset_class
  ep_notional_value :: decimal
  ep_region :: "string option"

record exposure_check_result =
  ec_allowed :: bool
  ec_rejection_reason :: "fmsg option"
  ec_current_class_exposure :: decimal
  ec_current_total_exposure :: decimal

record exposure_manager =
  max_per_class :: decimal
  max_total :: decimal
  geo_risk_scores :: "(string, pyfloat) dict"

definition GEOPOLITICAL_RISK_THRESHOLD :: pyfloat where
  "GEOPOLITICAL_RISK_THRESHOLD = 70"

definition exposure_init :: "decimal option \<Rightarrow> decimal option \<Rightarrow> exposure_manager" where
  "exposure_init per_class total_limit =
     \<lparr>max_per_class = (case per_class of Some x \<Rightarrow> x | None \<Rightarrow> dec_of_float MAX_EXPOSURE_PER_CLASS_PCT),
      max_total = (case total_limit of Some x \<Rightarrow> x | None \<Rightarrow> dec_of_float MAX_TOTAL_EXPOSURE_PCT),
      geo_risk_scores = []\<rparr>"

section \<open>Operations\<close>

definition update_geo_risk :: "string \<Rightarrow> int \<Rightarrow> exposure_manager \<Rightarrow> exposure_manager" where
  "update_geo_risk region score m =
     m\<lparr>geo_risk_scores := AList.update region (of_int (max 0 (min 100 score))) (geo_risk_scores m)\<rparr>"

definition class_notional :: "asset_class \<Rightarrow> exposure_position list \<Rightarrow> decimal" where
  "class_notional c ps = d_sum (map (\<lambda>p. d_abs (ep_notional_value p)) (filter (\<lambda>p. ep_asset_class p = c) ps))"

definition total_notional :: "exposure_position list \<Rightarrow> decimal" where
  "total_notional ps = d_sum (map (\<lambda>p. d_abs (ep_notional_value p)) ps)"

definition get_class_exposure :: "asset_class \<Rightarrow> exposure_position list \<Rightarrow> decimal \<Rightarrow> decimal" where
  "get_class_exposure c ps equity = (if equity \<le> 0 then 0 else d_quot (class_notional c ps) equity)"

definition get_total_exposure :: "exposure_position list \<Rightarrow> decimal \<Rightarrow> decimal" where
  "get_total_exposure ps equity = (if equity \<le> 0 then 0 else d_quot (total_notional ps) equity)"

text \<open>\<open>if region and scores\<close>: a region that is neither None nor empty, and a non-empty dictionary.\<close>

definition get_effective_class_limit ::
  "exposure_manager \<Rightarrow> string option \<Rightarrow> (string, pyfloat) dict option \<Rightarrow> decimal" where
  "get_effective_class_limit m region scores =
     (case (region, scores) of
        (Some r, Some sc) \<Rightarrow>
          if r \<noteq> [] \<and> sc \<noteq> [] \<and>
             GEOPOLITICAL_RISK_THRESHOLD < (case map_of sc r of Some x \<Rightarrow> x | None \<Rightarrow> 0)
          then d_quot (max_per_class m) 2 else max_per_class m
      | _ \<Rightarrow> max_per_class m)"

definition check_exposure ::
  "exposure_manager \<Rightarrow> exposure_position \<Rightarrow> exposure_position list \<Rightarrow> decimal
   \<Rightarrow> (string, pyfloat) dict option \<Rightarrow> exposure_check_result" where
  "check_exposure m new ps equity scores =
     (let effective = (case scores of Some sc \<Rightarrow> sc | None \<Rightarrow> geo_risk_scores m)
      in if equity \<le> 0
         then \<lparr>ec_allowed = False,
               ec_rejection_reason = Some (FMsg ''account equity must be positive'' []),
               ec_current_class_exposure = 0, ec_current_total_exposure = 0\<rparr>
         else
           (let current_class = get_class_exposure (ep_asset_class new) ps equity;
                current_total = get_total_exposure ps equity;
                notional = d_abs (ep_notional_value new);
                projected_class = d_add current_class (d_quot notional equity);
                projected_total = d_add current_total (d_quot notional equity);
                limit = get_effective_class_limit m (ep_region new) (Some effective)
            in if limit < projected_class
               then \<lparr>ec_allowed = False,
                     ec_rejection_reason =
                       Some (if limit < max_per_class m
                             then FMsg ''Per-asset-class exposure limit breached for {}: projected {:.4f} exceeds limit {:.4f} (halved from {:.0%} due to elevated geopolitical risk in region '{}')''
                                    [FStr (asset_class_value (ep_asset_class new)), FNum projected_class, FNum limit,
                                     FNum (max_per_class m), FStr (case ep_region new of Some r \<Rightarrow> r | None \<Rightarrow> ''None'')]
                             else FMsg ''Per-asset-class exposure limit breached for {}: projected {:.4f} exceeds limit {:.4f}''
                                    [FStr (asset_class_value (ep_asset_class new)), FNum projected_class, FNum limit]),
                     ec_current_class_exposure = current_class, ec_current_total_exposure = current_total\<rparr>
               else if max_total m < projected_total
               then \<lparr>ec_allowed = False,
                     ec_rejection_reason =
                       Some (FMsg ''Total exposure limit breached: projected {:.4f} exceeds limit {:.4f}''
                               [FNum projected_total, FNum (max_total m)]),
                     ec_current_class_exposure = current_class, ec_current_total_exposure = current_total\<rparr>
               else \<lparr>ec_allowed = True, ec_rejection_reason = None,
                     ec_current_class_exposure = current_class, ec_current_total_exposure = current_total\<rparr>))"

section \<open>Lemmas\<close>

lemma class_notional_le_total: "class_notional c ps \<le> total_notional ps"
  by (simp add: class_notional_def total_notional_def d_sum_filter_le)

lemma notional_nonneg [simp]: "0 \<le> class_notional c ps" "0 \<le> total_notional ps"
  by (simp_all add: class_notional_def total_notional_def d_sum_nonneg)

lemma class_exposure_le_total: "get_class_exposure c ps equity \<le> get_total_exposure ps equity"
  by (simp add: get_class_exposure_def get_total_exposure_def d_quot_pos_mono class_notional_le_total)

lemma effective_limit_cases:
  "get_effective_class_limit m region scores = max_per_class m \<or>
   get_effective_class_limit m region scores = d_quot (max_per_class m) 2"
  by (auto simp: get_effective_class_limit_def split: option.splits)

lemma check_exposure_allowed_iff:
  "ec_allowed (check_exposure m new ps equity scores) \<longleftrightarrow>
     0 < equity \<and>
     d_add (d_quot (class_notional (ep_asset_class new) ps) equity) (d_quot (d_abs (ep_notional_value new)) equity)
       \<le> get_effective_class_limit m (ep_region new)
           (Some (case scores of Some sc \<Rightarrow> sc | None \<Rightarrow> geo_risk_scores m)) \<and>
     d_add (d_quot (total_notional ps) equity) (d_quot (d_abs (ep_notional_value new)) equity) \<le> max_total m"
  by (auto simp: check_exposure_def Let_def get_class_exposure_def get_total_exposure_def)

text \<open>Adding fractions of the equity and comparing them with a limit bounds the money, up to two
  roundings.\<close>

lemma fraction_bound_money:
  assumes "d_add (d_quot S E) (d_quot N E) \<le> L" "0 < E" "0 \<le> S" "0 \<le> N"
  shows "(S + N) * (1 - 1 / 10 ^ 27) ^ 2 \<le> L * E"
proof -
  define q where "q = (1 - 1 / 10 ^ 27 :: rat)"
  have q: "0 < q" by (simp add: q_def)
  have lo: "q * x \<le> dec x" if "0 \<le> x" for x
    using dec_lower[OF that] by (simp add: q_def)
  have "q * (q * (S / E) + q * (N / E)) \<le> q * (d_quot S E + d_quot N E)"
    using lo[of "S / E"] lo[of "N / E"] assms q by (intro mult_left_mono) (auto simp: d_quot_def)
  also have "\<dots> \<le> d_add (d_quot S E) (d_quot N E)"
    using lo[of "d_quot S E + d_quot N E"] assms by (simp add: d_add_def d_quot_nonneg)
  also have "\<dots> \<le> L" by (rule assms(1))
  finally have "q * (q * (S / E) + q * (N / E)) * E \<le> L * E" using assms(2) by (simp add: mult_right_mono)
  moreover have "q * (q * (S / E) + q * (N / E)) * E = (S + N) * q ^ 2"
    using assms(2) by (simp add: power2_eq_square field_simps)
  ultimately show ?thesis unfolding q_def[symmetric] by (simp only:)
qed

section \<open>What the exposure check guarantees\<close>

text \<open>
  Claim C22: when a position is allowed, the notional of its asset class and of the whole
  portfolio, the new position included, stay within the class limit in force and the total
  limit times the equity, up to a relative rounding error of about \<open>10^-27\<close>.
\<close>

theorem allowed_exposure_within_limits:
  assumes "ec_allowed (check_exposure m new ps equity scores)"
  shows "(class_notional (ep_asset_class new) ps + d_abs (ep_notional_value new)) * (1 - 1 / 10 ^ 27) ^ 2
      \<le> get_effective_class_limit m (ep_region new)
           (Some (case scores of Some sc \<Rightarrow> sc | None \<Rightarrow> geo_risk_scores m)) * equity
    \<and> (total_notional ps + d_abs (ep_notional_value new)) * (1 - 1 / 10 ^ 27) ^ 2 \<le> max_total m * equity"
  using assms unfolding check_exposure_allowed_iff by (simp only: fraction_bound_money notional_nonneg d_abs_nonneg)

theorem allowed_exposure_within_limits_witness:
  "(class_notional FOREX [] + d_abs (- 200)) * (1 - 1 / 10 ^ 27) ^ 2 \<le> 3 / 10 * (1000 :: rat)"
proof -
  let ?new = "\<lparr>ep_instrument = ''EUR/USD'', ep_asset_class = FOREX, ep_notional_value = - 200, ep_region = None\<rparr>"
  have "ec_allowed (check_exposure (exposure_init None None) ?new [] 1000 None)" by code_simp
  from allowed_exposure_within_limits[OF this] show ?thesis
    by (simp add: get_effective_class_limit_def exposure_init_def)
qed

text \<open>
  Claim: the per-class limit is halved exactly for a position whose region is known, not
  empty and carries a score above 70; in every other case the full limit applies.
\<close>

theorem geo_risk_halves_limit:
  "get_effective_class_limit (update_geo_risk r score m) region (Some (geo_risk_scores (update_geo_risk r score m))) =
     (case region of
        None \<Rightarrow> max_per_class m
      | Some r' \<Rightarrow>
          if r' \<noteq> [] \<and> (if r' = r then 70 < score
                        else case map_of (geo_risk_scores m) r' of Some x \<Rightarrow> 70 < x | None \<Rightarrow> False)
          then d_quot (max_per_class m) 2 else max_per_class m)"
proof -
  have ne: "geo_risk_scores (update_geo_risk r score m) \<noteq> []"
    by (cases "geo_risk_scores m") (auto simp: update_geo_risk_def)
  have clamp: "70 < (of_int (max 0 (min 100 score)) :: rat) \<longleftrightarrow> 70 < score" by (auto simp: max_def min_def)
  show ?thesis using ne clamp
    by (auto simp: get_effective_class_limit_def update_geo_risk_def GEOPOLITICAL_RISK_THRESHOLD_def
        split: option.splits)
qed

text \<open>
  Claim: the reported exposure of a class is never negative and never exceeds the reported
  total exposure, which is the total notional as a fraction of the equity, and zero when the
  equity is not positive.
\<close>

theorem class_exposure_part_of_total:
  "0 \<le> ec_current_class_exposure (check_exposure m new ps equity scores) \<and>
   ec_current_class_exposure (check_exposure m new ps equity scores)
     \<le> ec_current_total_exposure (check_exposure m new ps equity scores) \<and>
   ec_current_total_exposure (check_exposure m new ps equity scores) =
     (if equity \<le> 0 then 0 else d_quot (total_notional ps) equity)"
proof -
  have "0 \<le> get_class_exposure c ps equity" for c by (simp add: get_class_exposure_def d_quot_nonneg)
  then show ?thesis using class_exposure_le_total[of "ep_asset_class new" ps equity]
    by (auto simp: check_exposure_def Let_def get_total_exposure_def)
qed

end
