(* ===== verification/Stop_Manager.thy ===== *)
theory Stop_Manager
  imports Constants
begin

text \<open>
  Stop losses and take profits, \<open>src/risk/stop_manager.py\<close>: the initial ATR stop, the take
  profit levels at multiples of the risk, the trailing stop that goes to breakeven at 1R and
  then advances in half-ATR steps, the risk-reward check, and the adjustments on news and
  scheduled events.  All operations are pure; \<open>apply_stop_event\<close> is the use the callers make
  of their results.
\<close>

section \<open>Data\<close>

datatype direction = LONG | SHORT

record stop_loss_result =
  stop_price :: decimal
  take_profit_levels :: "decimal list"

record position =
  entry_price :: decimal
  pos_direction :: direction
  initial_stop :: decimal
  current_stop :: decimal
  atr_at_entry :: decimal

section \<open>Operations\<close>

definition default_atr_multiplier :: decimal where
  "default_atr_multiplier = dec_of_float ATR_MULTIPLIER_DEFAULT"

definition calculate_initial_stop :: "decimal \<Rightarrow> direction \<Rightarrow> decimal \<Rightarrow> decimal \<Rightarrow> decimal" where
  "calculate_initial_stop entry dir atr atr_multiplier =
     (let stop_distance = d_mul atr atr_multiplier
      in if dir = LONG then d_sub entry stop_distance else d_add entry stop_distance)"

definition calculate_take_profits ::
  "decimal \<Rightarrow> decimal \<Rightarrow> direction \<Rightarrow> decimal list option \<Rightarrow> decimal list" where
  "calculate_take_profits entry stop dir ratios =
     (let rs = take 5 (case ratios of Some rs \<Rightarrow> rs | None \<Rightarrow> [2, 3]);
          risk_distance = d_abs (d_sub entry stop)
      in map (\<lambda>r. if dir = LONG then d_add entry (d_mul risk_distance r)
                  else d_sub entry (d_mul risk_distance r)) rs)"

definition update_trailing_stop :: "position \<Rightarrow> decimal \<Rightarrow> decimal \<Rightarrow> decimal option" where
  "update_trailing_stop p price atr =
     (let entry = entry_price p;
          risk_distance = d_abs (d_sub entry (initial_stop p));
          profit = (if pos_direction p = LONG then d_sub price entry else d_sub entry price);
          step = d_mul atr (1/2)
      in if risk_distance = 0 then None
         else if profit < risk_distance then None
         else if step = 0 then None
         else
           (let steps_beyond = d_int (d_quot (d_sub profit risk_distance) step);
                new_stop = (if pos_direction p = LONG then d_add entry (d_mul step (of_int steps_beyond))
                            else d_sub entry (d_mul step (of_int steps_beyond)))
            in if pos_direction p = LONG
               then if new_stop \<le> current_stop p then None else Some new_stop
               else if current_stop p \<le> new_stop then None else Some new_stop))"

definition validate_risk_reward :: "decimal \<Rightarrow> decimal \<Rightarrow> decimal \<Rightarrow> decimal \<Rightarrow> bool" where
  "validate_risk_reward entry stop target min_rr =
     (let risk = d_abs (d_sub entry stop); reward = d_abs (d_sub target entry)
      in if risk = 0 then False else min_rr \<le> d_quot reward risk)"

definition is_sentiment_aligned :: "position \<Rightarrow> pyfloat \<Rightarrow> bool" where
  "is_sentiment_aligned p score =
     ((pos_direction p = LONG \<and> 0 < score) \<or> (pos_direction p = SHORT \<and> score < 0))"

definition maintain_position_on_aligned_sentiment :: "position \<Rightarrow> pyfloat \<Rightarrow> string \<Rightarrow> bool" where
  "maintain_position_on_aligned_sentiment p score instrument = is_sentiment_aligned p score"

definition tighten_stop_on_news :: "position \<Rightarrow> decimal \<Rightarrow> decimal \<Rightarrow> decimal" where
  "tighten_stop_on_news p price atr =
     (let tightened_distance = d_mul atr (1/2)
      in if pos_direction p = LONG
         then (let new_stop = d_sub price tightened_distance
               in if new_stop < current_stop p then current_stop p else new_stop)
         else (let new_stop = d_add price tightened_distance
               in if current_stop p < new_stop then current_stop p else new_stop))"

definition widen_stop_for_event :: "position \<Rightarrow> decimal \<Rightarrow> decimal \<Rightarrow> decimal" where
  "widen_stop_for_event p atr multiplier =
     (let widen_distance = d_mul multiplier atr
      in if pos_direction p = LONG then d_sub (current_stop p) widen_distance
         else d_add (current_stop p) widen_distance)"

named_theorems stop_defs

lemmas [stop_defs] =
  calculate_initial_stop_def calculate_take_profits_def update_trailing_stop_def
  validate_risk_reward_def tighten_stop_on_news_def widen_stop_for_event_def Let_def

section \<open>Stops that only advance\<close>

text \<open>The price and ATR of a tick, and the opposing news that tightens.\<close>

datatype stop_event = PriceTick decimal decimal | OpposingNews decimal decimal

fun apply_stop_event :: "stop_event \<Rightarrow> position \<Rightarrow> position" where
  "apply_stop_event (PriceTick price atr) p =
     (case update_trailing_stop p price atr of None \<Rightarrow> p | Some s \<Rightarrow> p\<lparr>current_stop := s\<rparr>)"
| "apply_stop_event (OpposingNews price atr) p = p\<lparr>current_stop := tighten_stop_on_news p price atr\<rparr>"

definition at_least_as_tight :: "position \<Rightarrow> position \<Rightarrow> bool" where
  "at_least_as_tight p q \<longleftrightarrow>
     entry_price q = entry_price p \<and> pos_direction q = pos_direction p \<and> initial_stop q = initial_stop p \<and>
     (if pos_direction p = LONG then current_stop p \<le> current_stop q else current_stop q \<le> current_stop p)"

lemma tighten_advances:
  "pos_direction p = LONG \<Longrightarrow> current_stop p \<le> tighten_stop_on_news p price atr"
  "pos_direction p \<noteq> LONG \<Longrightarrow> tighten_stop_on_news p price atr \<le> current_stop p"
  by (simp_all add: tighten_stop_on_news_def Let_def)

lemma trailing_advances:
  "update_trailing_stop p price atr = Some s \<Longrightarrow>
     if pos_direction p = LONG then current_stop p < s else s < current_stop p"
  by (simp add: update_trailing_stop_def Let_def split: if_splits)

interpretation stops: ratchet at_least_as_tight apply_stop_event
proof
  show "at_least_as_tight p p" for p by (simp add: at_least_as_tight_def)
  show "at_least_as_tight p q \<Longrightarrow> at_least_as_tight q r \<Longrightarrow> at_least_as_tight p r" for p q r
    by (auto simp: at_least_as_tight_def split: if_splits)
  show "at_least_as_tight p (apply_stop_event e p)" for p e
    by (cases e) (auto simp: at_least_as_tight_def tighten_advances split: option.split dest: trailing_advances)
qed

section \<open>What the stop manager guarantees\<close>

text \<open>
  Claim C16: through any sequence of price ticks and opposing news the stop of a position never
  moves against it: up only for a long, down only for a short; entry, direction and the
  initial stop stay as they were.
\<close>

theorem stops_never_loosen:
  "entry_price (fold apply_stop_event es p) = entry_price p \<and>
   pos_direction (fold apply_stop_event es p) = pos_direction p \<and>
   initial_stop (fold apply_stop_event es p) = initial_stop p \<and>
   (if pos_direction p = LONG then current_stop p \<le> current_stop (fold apply_stop_event es p)
    else current_stop (fold apply_stop_event es p) \<le> current_stop p)"
  using stops.run_better[of p es] by (simp add: at_least_as_tight_def)

lemma trailing_SomeE:
  assumes "update_trailing_stop p price atr = Some s"
  obtains n profit risk where
    "risk = d_abs (d_sub (entry_price p) (initial_stop p))" "0 < risk" "risk \<le> profit"
    "profit = (if pos_direction p = LONG then d_sub price (entry_price p) else d_sub (entry_price p) price)"
    "d_mul atr (1/2) \<noteq> 0" "n = d_int (d_quot (d_sub profit risk) (d_mul atr (1/2)))"
    "s = (if pos_direction p = LONG then d_add (entry_price p) (d_mul (d_mul atr (1/2)) (of_int n))
          else d_sub (entry_price p) (d_mul (d_mul atr (1/2)) (of_int n)))"
proof -
  let ?risk = "d_abs (d_sub (entry_price p) (initial_stop p))"
  let ?profit = "if pos_direction p = LONG then d_sub price (entry_price p) else d_sub (entry_price p) price"
  have "?risk \<noteq> 0" "?risk \<le> ?profit" "d_mul atr (1/2) \<noteq> 0"
    using assms by (auto simp: update_trailing_stop_def Let_def split: if_splits)
  moreover from this have "0 < ?risk" using d_abs_nonneg[of "d_sub (entry_price p) (initial_stop p)"] by linarith
  moreover have "s = (let n = d_int (d_quot (d_sub ?profit ?risk) (d_mul atr (1/2))) in
      if pos_direction p = LONG then d_add (entry_price p) (d_mul (d_mul atr (1/2)) (of_int n))
      else d_sub (entry_price p) (d_mul (d_mul atr (1/2)) (of_int n)))"
    using assms by (auto simp: update_trailing_stop_def Let_def split: if_splits)
  ultimately show ?thesis by (intro that[OF refl _ _ refl _ refl]) (simp_all add: Let_def)
qed

text \<open>The whole steps the code counts are worth no more than the profit beyond 1R, up to the
  rounding of the quotient.\<close>

lemma whole_steps:
  assumes "0 < step" "0 \<le> x" "n = d_int (d_quot x step)"
  shows "0 \<le> n" "step * of_int n \<le> (1 + 1 / 10 ^ 27) * x"
proof -
  have q: "0 \<le> d_quot x step" using assms by (simp add: d_quot_nonneg)
  show "0 \<le> n" using d_int_nonneg[OF q] assms(3) by simp
  have "of_int n \<le> d_quot x step" using d_int_nonneg[OF q] assms(3) by simp
  also have "\<dots> \<le> (1 + 10 powi (- 27) / 2) * (x / step)"
    using dec.rnd_upper[of "x / step"] assms by (simp add: d_quot_def)
  also have "\<dots> \<le> (1 + 1 / 10 ^ 27) * (x / step)"
    using assms by (intro mult_right_mono) (auto simp: power_int_def power_one_over)
  finally have "of_int n \<le> (1 + 1 / 10 ^ 27) * x / step" by (simp only: times_divide_eq_right)
  then have "of_int n * step \<le> (1 + 1 / 10 ^ 27) * x" by (simp only: pos_le_divide_eq[OF assms(1)])
  then show "step * of_int n \<le> (1 + 1 / 10 ^ 27) * x" by (simp only: mult.commute)
qed

text \<open>
  Claim: a trailing stop the code returns, for a positive ATR, is at breakeven or better, and
  never locks in more than the profit beyond the initial risk (up to a relative rounding error
  of about \<open>2 * 10^-27\<close> before the last rounding): at least 1R of room to the price remains.
\<close>

theorem trailing_stop_between_entry_and_price:
  assumes "update_trailing_stop p price atr = Some s" "0 < atr" "is_dec (entry_price p)"
  shows "if pos_direction p = LONG
    then entry_price p \<le> s \<and>
      s \<le> dec (entry_price p + (1 + 1 / 10 ^ 27) ^ 2 *
             d_sub (d_sub price (entry_price p)) (d_abs (d_sub (entry_price p) (initial_stop p))))
    else s \<le> entry_price p \<and>
      dec (entry_price p - (1 + 1 / 10 ^ 27) ^ 2 *
             d_sub (d_sub (entry_price p) price) (d_abs (d_sub (entry_price p) (initial_stop p)))) \<le> s"
proof -
  from assms(1) obtain n profit risk where a:
    "risk = d_abs (d_sub (entry_price p) (initial_stop p))" "risk \<le> profit"
    "profit = (if pos_direction p = LONG then d_sub price (entry_price p) else d_sub (entry_price p) price)"
    "n = d_int (d_quot (d_sub profit risk) (d_mul atr (1/2)))"
    "s = (if pos_direction p = LONG then d_add (entry_price p) (d_mul (d_mul atr (1/2)) (of_int n))
          else d_sub (entry_price p) (d_mul (d_mul atr (1/2)) (of_int n)))"
    by (elim trailing_SomeE) blast
  define q where "q = (1 + 1 / 10 ^ 27 :: rat)"
  define x where "x = d_sub profit risk"
  define move where "move = d_mul (d_mul atr (1/2)) (of_int n)"
  have step: "0 < d_mul atr (1/2)" using assms(2) by (simp add: d_mul_def)
  have x: "0 \<le> x" using a(2) by (simp add: x_def d_sub_def)
  note w = whole_steps[OF step x a(4)[folded x_def]]
  have "move \<le> q * (d_mul atr (1/2) * of_int n)"
    using dec_upper w(1) step by (simp add: move_def d_mul_def[of _ "of_int n"] q_def)
  also have "\<dots> \<le> q * (q * x)"
    using w(2) unfolding q_def by (intro mult_left_mono) auto
  also have "\<dots> = q ^ 2 * x" by (simp add: power2_eq_square)
  finally have up: "move \<le> q ^ 2 * x" .
  have "0 \<le> move" using step w(1) by (simp add: move_def d_mul_def)
  then have "entry_price p \<le> d_add (entry_price p) move" "d_sub (entry_price p) move \<le> entry_price p"
    using assms(3) by (simp_all add: d_add_def d_sub_def dec.rnd_add_ge dec.rnd_diff_le is_dec_def)
  moreover have "d_add (entry_price p) move \<le> dec (entry_price p + q ^ 2 * x)"
    "dec (entry_price p - q ^ 2 * x) \<le> d_sub (entry_price p) move"
    using up by (simp_all add: d_add_def d_sub_def dec.rnd_mono)
  ultimately show ?thesis using a(1,3,5) unfolding q_def[symmetric] move_def[symmetric] x_def
    by (cases "pos_direction p = LONG") simp_all
qed

definition sample_long :: position where
  "sample_long = \<lparr>entry_price = 100, pos_direction = LONG, initial_stop = 90, current_stop = 90, atr_at_entry = 10\<rparr>"

theorem trailing_stop_between_entry_and_price_witness:
  "update_trailing_stop sample_long 123 10 = Some 110 \<and> 100 \<le> (110 :: rat) \<and>
   110 \<le> dec (100 + (1 + 1 / 10 ^ 27) ^ 2 * d_sub (d_sub 123 100) (d_abs (d_sub 100 90)))"
proof -
  have a: "update_trailing_stop sample_long 123 10 = Some 110" "is_dec (entry_price sample_long)"
    by code_simp+
  from trailing_stop_between_entry_and_price[OF a(1) _ a(2)] a(1) show ?thesis
    by (simp add: sample_long_def)
qed

text \<open>
  Claim: with a non-negative ATR, multiplier and ratios the initial stop is on the losing side
  of the entry and every take profit on the winning side; at most five levels are placed, one
  per ratio.
\<close>

theorem initial_levels_sides:
  assumes "0 \<le> atr" "0 \<le> mult" "list_all (\<lambda>r. 0 \<le> r) ratios" "is_dec entry"
  shows "(if dir = LONG then calculate_initial_stop entry dir atr mult \<le> entry
          else entry \<le> calculate_initial_stop entry dir atr mult) \<and>
    list_all (\<lambda>t. if dir = LONG then entry \<le> t else t \<le> entry)
      (calculate_take_profits entry stop dir (Some ratios)) \<and>
    length (calculate_take_profits entry stop dir (Some ratios)) = min (length ratios) 5"
proof -
  have "0 \<le> d_mul (d_abs (d_sub entry stop)) r" if "r \<in> set (take 5 ratios)" for r
    using that assms(3) by (auto simp: d_mul_def list_all_iff dest: in_set_takeD)
  moreover have "entry \<le> d_add entry x" "d_sub entry x \<le> entry" if "0 \<le> x" for x
    using that assms(4) by (simp_all add: d_add_def d_sub_def dec.rnd_add_ge dec.rnd_diff_le is_dec_def)
  moreover have "0 \<le> d_mul atr mult" using assms(1,2) by (simp add: d_mul_def)
  ultimately show ?thesis
    by (auto simp: calculate_initial_stop_def calculate_take_profits_def Let_def list_all_iff)
qed

theorem initial_levels_sides_witness:
  "calculate_initial_stop 100 SHORT 10 (3/2) = 115 \<and> 100 \<le> (115 :: rat) \<and>
   calculate_take_profits 100 115 SHORT (Some [2, 3]) = [70, 55] \<and> 70 \<le> (100 :: rat) \<and> 55 \<le> (100 :: rat)"
proof -
  have a: "calculate_initial_stop 100 SHORT 10 (3/2) = 115" "calculate_take_profits 100 115 SHORT (Some [2, 3]) = [70, 55]"
    "is_dec 100" "list_all (\<lambda>r. 0 \<le> r) [2, 3 :: rat]" by code_simp+
  from initial_levels_sides[of 10 "3/2" "[2, 3]" 100 SHORT 115] a show ?thesis by simp
qed

text \<open>
  Claim: a trade whose risk-reward ratio is accepted has a non-zero risk and a true reward of
  at least the minimum ratio times the true risk, up to a few units of \<open>10^-27\<close>.
\<close>

theorem accepted_risk_reward:
  assumes "validate_risk_reward entry stop target min_rr" "0 \<le> min_rr"
  shows "entry \<noteq> stop \<and>
    min_rr * ((1 - 1 / 10 ^ 27) * \<bar>entry - stop\<bar>) \<le> (1 + 1 / 10 ^ 27) ^ 2 * \<bar>target - entry\<bar>"
proof -
  let ?risk = "d_abs (d_sub entry stop)" and ?reward = "d_abs (d_sub target entry)"
  have r: "?risk = dec \<bar>entry - stop\<bar>" "?reward = dec \<bar>target - entry\<bar>"
    by (simp_all add: d_abs_def d_sub_def)
  define q where "q = (1 + 1 / 10 ^ 27 :: rat)"
  have v: "?risk \<noteq> 0" "min_rr \<le> d_quot ?reward ?risk"
    using assms(1) by (auto simp: validate_risk_reward_def Let_def split: if_splits)
  have ne: "entry \<noteq> stop" using v(1) by (auto simp: d_sub_def)
  have pos: "0 < ?risk" using ne by (simp add: r)
  have "d_quot ?reward ?risk \<le> q * (?reward / ?risk)"
    using dec_upper[of "?reward / ?risk"] pos by (simp add: d_quot_def q_def)
  also have "\<dots> = q * ?reward / ?risk" by (simp only: times_divide_eq_right)
  finally have "min_rr \<le> q * ?reward / ?risk" using v(2) by (rule order_trans[rotated])
  then have "min_rr * ?risk \<le> q * ?reward" by (simp only: pos_le_divide_eq[OF pos])
  also have "\<dots> \<le> q * (q * \<bar>target - entry\<bar>)"
    using dec_upper[of "\<bar>target - entry\<bar>"] by (simp only: r q_def) (intro mult_left_mono, auto)
  finally have "min_rr * ?risk \<le> q ^ 2 * \<bar>target - entry\<bar>" by (simp add: power2_eq_square)
  moreover have "min_rr * ((1 - 1 / 10 ^ 27) * \<bar>entry - stop\<bar>) \<le> min_rr * ?risk"
    using dec_lower[of "\<bar>entry - stop\<bar>"] assms(2) by (simp only: r) (intro mult_left_mono, auto)
  ultimately show ?thesis using ne unfolding q_def[symmetric] by linarith
qed

theorem accepted_risk_reward_witness:
  "validate_risk_reward 100 90 115 (3/2) \<and>
   3 / 2 * ((1 - 1 / 10 ^ 27) * \<bar>100 - 90\<bar>) \<le> (1 + 1 / 10 ^ 27) ^ 2 * \<bar>115 - (100 :: rat)\<bar>"
proof -
  have "validate_risk_reward 100 90 115 (3/2)" by code_simp
  from this accepted_risk_reward[OF this] show ?thesis by simp
qed

end
