(* ===== verification/Risk_Engine.thy ===== *)
theory Risk_Engine
  imports "HOL-Library.Multiset" Effects Kill_Switch Drawdown_Monitor Exposure_Manager Position_Sizer Stop_Manager
begin

text \<open>
  The orchestrator of the risk components, \<open>src/risk/risk_engine.py\<close>: the six steps of the
  validation of a trade signal, the events it publishes, and the crisis response that picks the
  most volatile positions to close and widens the stops of the rest.

  The state is the drawdown monitor, the exposure manager and the kill switch; the sizer and the
  stop manager keep none.  One validation runs to its end before the next event is handled: the
  code suspends only to publish, after its decision, and to take the lock of the kill switch.
  A failing event bus is logged and changes nothing; events are listed as they are handed to it.
  Numbers in position dictionaries are of the types \<open>Decimal\<close>, \<open>float\<close> or \<open>int\<close>.
\<close>

section \<open>Data\<close>

record trade_signal =
  sg_instrument :: string
  sg_direction :: string
  sg_entry_price :: decimal
  sg_stop_loss :: decimal
  sg_take_profit :: decimal
  sg_confidence :: int
  sg_strategy :: string
  sg_asset_class :: string
  sg_notional_value :: decimal
  sg_region :: "string option"
  sg_is_hft :: bool
  sg_atr :: decimal
  sg_atr_zscore :: pyfloat
  sg_risk_pct :: "decimal option"

record applied_reduction =
  ar_source :: string
  ar_factor :: decimal
  ar_reason :: fmsg

record validation_result =
  vr_allowed :: bool
  vr_rejection_reasons :: "fmsg list"
  vr_position_size :: "decimal option"
  vr_stop_loss :: "decimal option"
  vr_take_profit_levels :: "decimal list"
  vr_applied_reductions :: "applied_reduction list"
  vr_trigger_kill_switch :: bool

record crisis_position =
  cp_instrument :: string
  cp_direction :: string
  cp_notional_value :: decimal
  cp_atr :: decimal
  cp_entry_price :: decimal
  cp_current_stop :: decimal

record crisis_response_result =
  cr_positions_closed :: "string list"
  cr_positions_widened :: "string list"
  cr_new_stops :: "(string, decimal) dict"
  cr_exposure_reduction_pct :: decimal
  cr_elapsed_seconds :: secs
  cr_notification_sent :: bool

text \<open>The dictionaries of open positions: a missing key is None.\<close>

record position_dict =
  pd_instrument :: "string option"
  pd_asset_class :: "string option"
  pd_notional_value :: "number option"
  pd_region :: "string option"

record crisis_dict =
  cd_instrument :: "string option"
  cd_direction :: "string option"
  cd_notional_value :: "number option"
  cd_atr :: "number option"
  cd_entry_price :: "number option"
  cd_current_stop :: "number option"

datatype payload_value = PMsg fmsg | PStrings "string list" | PStops "(string, fmsg) dict"

datatype risk_event =
    RiskEvent string "(string \<times> payload_value) list"
  | SwitchEvent published

record risk_engine =
  re_monitor :: drawdown_monitor
  re_exposure :: exposure_manager
  re_switch :: kill_switch
  re_has_bus :: bool

section \<open>Helpers\<close>

definition publish_risk_event :: "risk_engine \<Rightarrow> string \<Rightarrow> (string \<times> payload_value) list \<Rightarrow> risk_event list" where
  "publish_risk_event g typ payload = (if re_has_bus g then [RiskEvent typ payload] else [])"

text \<open>\<open>AssetClass(s.lower())\<close>, with FOREX where it raises ValueError.\<close>

definition asset_class_of :: "string \<Rightarrow> asset_class" where
  "asset_class_of s =
     (case find (\<lambda>c. asset_class_value c = py_lower s) [FOREX, INDICES, COMMODITIES, CRYPTO, STOCKS] of
        Some c \<Rightarrow> c | None \<Rightarrow> FOREX)"

definition convert_to_exposure_positions :: "position_dict list \<Rightarrow> exposure_position list" where
  "convert_to_exposure_positions ps =
     map (\<lambda>p. \<lparr>ep_instrument = or_default (pd_instrument p) ''UNKNOWN'',
               ep_asset_class = asset_class_of (or_default (pd_asset_class p) ''forex''),
               ep_notional_value = to_decimal (or_default (pd_notional_value p) (NInt 0)),
               ep_region = pd_region p\<rparr>) ps"

definition dstr :: "decimal \<Rightarrow> payload_value" where
  "dstr d = PMsg (FMsg ''{}'' [FNum d])"

definition str_msg :: "string \<Rightarrow> payload_value" where
  "str_msg s = PMsg (FMsg ''{}'' [FStr s])"

definition signal_rejected ::
  "risk_engine \<Rightarrow> trade_signal \<Rightarrow> fmsg \<Rightarrow> (string \<times> payload_value) list \<Rightarrow> applied_reduction list
   \<Rightarrow> validation_result \<times> risk_event list" where
  "signal_rejected g s reason extra applied =
     (\<lparr>vr_allowed = False, vr_rejection_reasons = [reason], vr_position_size = None, vr_stop_loss = None,
       vr_take_profit_levels = [], vr_applied_reductions = applied, vr_trigger_kill_switch = False\<rparr>,
      publish_risk_event g ''risk.signal_rejected''
        ([(''instrument'', str_msg (sg_instrument s)), (''strategy'', str_msg (sg_strategy s)),
          (''reason'', PMsg reason)] @ extra))"

section \<open>Validation of a signal\<close>

definition signal_direction :: "string \<Rightarrow> direction" where
  "signal_direction d = (if d = ''LONG'' then LONG else SHORT)"

text \<open>The reductions that do not repeat the drawdown entry already tracked.\<close>

definition merge_reductions :: "reduction_factor list \<Rightarrow> applied_reduction list \<Rightarrow> applied_reduction list" where
  "merge_reductions rfs applied =
     foldl (\<lambda>ars rf.
        if rf_source rf \<noteq> ''drawdown'' \<or> \<not> list_ex (\<lambda>r. ar_source r = ''drawdown'') ars
        then ars @ [\<lparr>ar_source = rf_source rf, ar_factor = dec_of_float (rf_factor rf), ar_reason = rf_reason rf\<rparr>]
        else ars) applied rfs"

text \<open>\<open>signal.risk_pct or Decimal(str(DEFAULT_RISK_PER_TRADE_PCT))\<close>\<close>

definition signal_risk_pct :: "trade_signal \<Rightarrow> decimal" where
  "signal_risk_pct s =
     (case sg_risk_pct s of
        Some r \<Rightarrow> if r = 0 then dec_of_float DEFAULT_RISK_PER_TRADE_PCT else r
      | None \<Rightarrow> dec_of_float DEFAULT_RISK_PER_TRADE_PCT)"

text \<open>Steps 5 and 6, after all checks: the size, the stop and the take profits.\<close>

definition size_signal ::
  "risk_engine \<Rightarrow> trade_signal \<Rightarrow> decimal \<Rightarrow> applied_reduction list
   \<Rightarrow> py_error + (validation_result \<times> risk_event list)" where
  "size_signal g s equity applied =
     (let sizer = map (\<lambda>r. \<lparr>rf_source = ar_source r, rf_factor = flt (ar_factor r), rf_reason = ar_reason r\<rparr>) applied;
          risk_pct = signal_risk_pct s;
          mult = dec_of_float ATR_MULTIPLIER_DEFAULT
      in bindE (calculate_size equity risk_pct (sg_atr s) mult (sg_atr_zscore s)
                  (if sizer = [] then None else Some sizer) MIN_LOT_SIZE) (\<lambda>sz.
           if sz_rejected sz
           then Inr (signal_rejected g s
                  (or_default (sz_rejection_reason sz) (FMsg ''Position sizing rejected'' [])) [] applied)
           else
             (let dir = signal_direction (sg_direction s);
                  stop = calculate_initial_stop (sg_entry_price s) dir (sg_atr s) mult
              in Inr (\<lparr>vr_allowed = True, vr_rejection_reasons = [], vr_position_size = sz_size sz,
                       vr_stop_loss = Some stop,
                       vr_take_profit_levels = calculate_take_profits (sg_entry_price s) stop dir None,
                       vr_applied_reductions = merge_reductions (sz_applied_reductions sz) applied,
                       vr_trigger_kill_switch = False\<rparr>, []))))"

text \<open>Steps 3 and 4: the exposure and the risk-reward ratio.\<close>

definition check_signal ::
  "risk_engine \<Rightarrow> trade_signal \<Rightarrow> decimal \<Rightarrow> position_dict list \<Rightarrow> applied_reduction list
   \<Rightarrow> py_error + (validation_result \<times> risk_event list)" where
  "check_signal g s equity ps applied =
     (let new = \<lparr>ep_instrument = sg_instrument s, ep_asset_class = asset_class_of (sg_asset_class s),
                 ep_notional_value = sg_notional_value s, ep_region = sg_region s\<rparr>;
          ex = check_exposure (re_exposure g) new (convert_to_exposure_positions ps) equity None
      in if \<not> ec_allowed ex
         then Inr (signal_rejected g s
                (or_default (ec_rejection_reason ex) (FMsg ''Exposure limit breached'' []))
                [(''current_class_exposure'', dstr (ec_current_class_exposure ex)),
                 (''current_total_exposure'', dstr (ec_current_total_exposure ex))] applied)
         else if \<not> validate_risk_reward (sg_entry_price s) (sg_stop_loss s) (sg_take_profit s)
                      (dec_of_float MIN_RISK_REWARD_RATIO)
         then (let risk = d_abs (d_sub (sg_entry_price s) (sg_stop_loss s));
                   reward = d_abs (d_sub (sg_take_profit s) (sg_entry_price s));
                   rr = (if 0 < risk then d_quot reward risk else 0)
               in Inr (signal_rejected g s (FMsg ''Risk-reward ratio {:.2f} below minimum 1.5'' [FNum rr])
                         [(''rr_ratio'', dstr rr)] applied))
         else size_signal g s equity applied)"

text \<open>
  All steps.  The clock is read twice by the drawdown monitor and once by the activation of the
  kill switch.
\<close>

definition validate_signal ::
  "trade_signal \<Rightarrow> decimal \<Rightarrow> position_dict list \<Rightarrow> micros \<Rightarrow> micros \<Rightarrow> micros \<Rightarrow> risk_engine
   \<Rightarrow> (py_error + validation_result) \<times> risk_engine \<times> risk_event list" where
  "validate_signal s equity ps now1 now2 now3 g =
     (if \<not> is_signal_allowed (re_switch g) (sg_strategy s)
      then (case signal_rejected g s (FMsg ''Kill switch is active -- all signals rejected'' []) [] [] of
              (r, evs) \<Rightarrow> (Inr r, g, evs))
      else
        case check_trade_allowed equity now1 now2 (re_monitor g) of (dd, m) \<Rightarrow>
          let g1 = g\<lparr>re_monitor := m\<rparr> in
          case dc_decision dd of
            KILL_SWITCH \<Rightarrow>
              (let reason = or_default (dc_reason dd) (FMsg ''Drawdown exceeded kill switch threshold'' [])
               in case activate reason ''drawdown'' now3 (re_switch g1) of (b, k, pubs) \<Rightarrow>
                    (Inr \<lparr>vr_allowed = False, vr_rejection_reasons = [reason], vr_position_size = None,
                          vr_stop_loss = None, vr_take_profit_levels = [], vr_applied_reductions = [],
                          vr_trigger_kill_switch = True\<rparr>,
                     g1\<lparr>re_switch := k\<rparr>,
                     map SwitchEvent pubs @
                     publish_risk_event g1 ''kill_switch.activated''
                       [(''reason'', PMsg reason), (''trigger_source'', str_msg ''drawdown''),
                        (''drawdown_pct'', dstr (dc_drawdown_pct dd))]))
          | REJECT \<Rightarrow>
              (case signal_rejected g1 s (or_default (dc_reason dd) (FMsg ''Daily loss limit exceeded'' []))
                      [(''drawdown_pct'', dstr (dc_drawdown_pct dd))] [] of
                 (r, evs) \<Rightarrow> (Inr r, g1, evs))
          | d \<Rightarrow>
              (let applied =
                     (if d = REDUCE_SIZE
                      then (case dc_reduction_factor dd of
                              Some f \<Rightarrow> [\<lparr>ar_source = ''drawdown'', ar_factor = dr_factor f, ar_reason = dr_reason f\<rparr>]
                            | None \<Rightarrow> [])
                      else [])
               in case check_signal g1 s equity ps applied of
                    Inl e \<Rightarrow> (Inl e, g1, [])
                  | Inr (r, evs) \<Rightarrow> (Inr r, g1, evs)))"

section \<open>Crisis response\<close>

definition subscribe_to_crisis_alerts :: "bool \<Rightarrow> py_error + string" where
  "subscribe_to_crisis_alerts has_bus =
     (if \<not> has_bus then Inl (RuntimeError ''Cannot subscribe to crisis alerts: no event bus configured'')
      else Inr ''news.crisis_alert'')"

text \<open>\<open>sorted(positions, key=atr, reverse=True)\<close>: stable, highest ATR first.\<close>

definition by_volatility :: "crisis_position list \<Rightarrow> crisis_position list" where
  "by_volatility ps = sort_key (\<lambda>p. - cp_atr p) ps"

text \<open>The loop that closes: the exposure closed so far, the closed and the kept positions.\<close>

fun close_until ::
  "decimal \<Rightarrow> crisis_position list \<Rightarrow> decimal \<times> crisis_position list \<times> crisis_position list
   \<Rightarrow> decimal \<times> crisis_position list \<times> crisis_position list" where
  "close_until target [] acc = acc"
| "close_until target (p # ps) (done_sum, out, keep) =
     (if done_sum < target
      then close_until target ps (d_add done_sum (cp_notional_value p), out @ [p], keep)
      else close_until target ps (done_sum, out, keep @ [p]))"

definition widened_stop :: "crisis_position \<Rightarrow> decimal" where
  "widened_stop p =
     widen_stop_for_event
       \<lparr>entry_price = cp_entry_price p, pos_direction = signal_direction (cp_direction p),
        initial_stop = cp_current_stop p, current_stop = cp_current_stop p, atr_at_entry = cp_atr p\<rparr>
       (cp_atr p) 2"

definition publish_crisis_notification :: "risk_engine \<Rightarrow> crisis_response_result \<Rightarrow> risk_event list" where
  "publish_crisis_notification g r =
     publish_risk_event g ''risk.crisis_response''
       [(''type'', str_msg ''crisis_response''),
        (''positions_closed'', PStrings (cr_positions_closed r)),
        (''positions_widened'', PStrings (cr_positions_widened r)),
        (''new_stops'', PStops (map (\<lambda>(k, v). (k, FMsg ''{}'' [FNum v])) (cr_new_stops r))),
        (''exposure_reduction_pct'', dstr (cr_exposure_reduction_pct r))] @
     publish_risk_event g ''notification.crisis_response''
       [(''title'', str_msg ''Crisis Response Activated''),
        (''message'', PMsg (FMsg ''Portfolio exposure reduced by {:.1f}%. Closed {} positions (most volatile first). Widened stops on {} remaining positions by 2.0 x ATR.''
           [FNum (cr_exposure_reduction_pct r), FInt (int (length (cr_positions_closed r))),
            FInt (int (length (cr_positions_widened r)))])),
        (''severity'', str_msg ''critical''),
        (''positions_closed'', PStrings (cr_positions_closed r)),
        (''positions_widened'', PStrings (cr_positions_widened r))]"

definition handle_crisis_response ::
  "crisis_position list \<Rightarrow> secs \<Rightarrow> secs \<Rightarrow> risk_engine \<Rightarrow> crisis_response_result \<times> risk_event list" where
  "handle_crisis_response ps start_time end_time g =
     (if ps = []
      then (\<lparr>cr_positions_closed = [], cr_positions_widened = [], cr_new_stops = [],
             cr_exposure_reduction_pct = 0, cr_elapsed_seconds = f_sub end_time start_time,
             cr_notification_sent = False\<rparr>, [])
      else
        (let sorted_positions = by_volatility ps;
             total_exposure = d_sum (map cp_notional_value sorted_positions)
         in case close_until (d_mul total_exposure (1/2)) sorted_positions (0, [], []) of
              (done_sum, out, keep) \<Rightarrow>
                (let r = \<lparr>cr_positions_closed = map cp_instrument out,
                          cr_positions_widened = map cp_instrument keep,
                          cr_new_stops = fold (\<lambda>p. AList.update (cp_instrument p) (widened_stop p)) keep [],
                          cr_exposure_reduction_pct =
                            (if 0 < total_exposure then d_mul (d_quot done_sum total_exposure) 100 else 0),
                          cr_elapsed_seconds = 0, cr_notification_sent = False\<rparr>
                 in (r\<lparr>cr_notification_sent := True, cr_elapsed_seconds := f_sub end_time start_time\<rparr>,
                     publish_crisis_notification g r))))"

definition crisis_position_of :: "crisis_dict \<Rightarrow> crisis_position" where
  "crisis_position_of d =
     \<lparr>cp_instrument = or_default (cd_instrument d) ''UNKNOWN'',
      cp_direction = or_default (cd_direction d) ''LONG'',
      cp_notional_value = to_decimal (or_default (cd_notional_value d) (NInt 0)),
      cp_atr = to_decimal (or_default (cd_atr d) (NInt 0)),
      cp_entry_price = to_decimal (or_default (cd_entry_price d) (NInt 0)),
      cp_current_stop = to_decimal (or_default (cd_current_stop d) (NInt 0))\<rparr>"

text \<open>\<open>event.payload.get("positions", [])\<close>\<close>

definition handle_crisis_alert ::
  "crisis_dict list option \<Rightarrow> secs \<Rightarrow> secs \<Rightarrow> risk_engine \<Rightarrow> risk_event list" where
  "handle_crisis_alert positions start_time end_time g =
     snd (handle_crisis_response (map crisis_position_of (or_default positions [])) start_time end_time g)"

section \<open>Lemmas on the validation\<close>

named_theorems engine_defs

lemmas [engine_defs] = signal_rejected_def publish_risk_event_def Let_def

lemma check_signal_Inr:
  assumes "check_signal g s equity ps applied = Inr (r, evs)"
  obtains (rejected) reason extra where "signal_rejected g s reason extra applied = (r, evs)"
    | (sized) "ec_allowed (check_exposure (re_exposure g)
          \<lparr>ep_instrument = sg_instrument s, ep_asset_class = asset_class_of (sg_asset_class s),
           ep_notional_value = sg_notional_value s, ep_region = sg_region s\<rparr>
          (convert_to_exposure_positions ps) equity None)"
        "validate_risk_reward (sg_entry_price s) (sg_stop_loss s) (sg_take_profit s) (3/2)"
        "size_signal g s equity applied = Inr (r, evs)"
  using assms by (auto simp: check_signal_def Let_def split: if_splits)

lemma size_signal_allowed:
  assumes "size_signal g s equity applied = Inr (r, evs)" "vr_allowed r"
  obtains res sz where
    "calculate_size equity (signal_risk_pct s) (sg_atr s) (3/2) (sg_atr_zscore s)
       (if applied = [] then None
        else Some (map (\<lambda>r. \<lparr>rf_source = ar_source r, rf_factor = flt (ar_factor r), rf_reason = ar_reason r\<rparr>) applied))
       MIN_LOT_SIZE = Inr res"
    "sz_size res = Some sz" "vr_position_size r = Some sz" "evs = []" "vr_rejection_reasons r = []"
    "\<not> vr_trigger_kill_switch r"
    "vr_stop_loss r = Some (calculate_initial_stop (sg_entry_price s) (signal_direction (sg_direction s)) (sg_atr s) (3/2))"
    "vr_take_profit_levels r = calculate_take_profits (sg_entry_price s)
       (calculate_initial_stop (sg_entry_price s) (signal_direction (sg_direction s)) (sg_atr s) (3/2))
       (signal_direction (sg_direction s)) None"
proof -
  from assms obtain res where res: "calculate_size equity (signal_risk_pct s) (sg_atr s) (3/2) (sg_atr_zscore s)
       (if applied = [] then None
        else Some (map (\<lambda>r. \<lparr>rf_source = ar_source r, rf_factor = flt (ar_factor r), rf_reason = ar_reason r\<rparr>) applied))
       MIN_LOT_SIZE = Inr res" "\<not> sz_rejected res"
    by (auto simp: size_signal_def bindE_Inr_iff engine_defs split: if_splits)
  then obtain sz where "sz_size res = Some sz"
    by (auto simp: calculate_size_def size_rejected_def bindE_Inr_iff Let_def split: if_splits)
  with res assms show ?thesis
    by (intro that[of res sz])
      (auto simp: size_signal_def Let_def)
qed

text \<open>An allowed signal has passed every step.\<close>

definition drawdown_reductions :: "drawdown_check_result \<Rightarrow> applied_reduction list" where
  "drawdown_reductions dd =
     (if dc_decision dd = REDUCE_SIZE
      then (case dc_reduction_factor dd of
              Some f \<Rightarrow> [\<lparr>ar_source = ''drawdown'', ar_factor = dr_factor f, ar_reason = dr_reason f\<rparr>]
            | None \<Rightarrow> [])
      else [])"

lemma validate_signal_cases:
  assumes "validate_signal s equity ps now1 now2 now3 g = (out, g', evs)"
  obtains (gate_closed) "\<not> is_signal_allowed (re_switch g) (sg_strategy s)" "g' = g"
      "apfst Inr (signal_rejected g s (FMsg ''Kill switch is active -- all signals rejected'' []) [] []) = (out, evs)"
    | (breach) dd m b k pubs where "is_signal_allowed (re_switch g) (sg_strategy s)"
      "check_trade_allowed equity now1 now2 (re_monitor g) = (dd, m)" "dc_decision dd = KILL_SWITCH"
      "activate (or_default (dc_reason dd) (FMsg ''Drawdown exceeded kill switch threshold'' [])) ''drawdown'' now3
         (re_switch g) = (b, k, pubs)"
      "g' = g\<lparr>re_monitor := m, re_switch := k\<rparr>"
      "out = Inr \<lparr>vr_allowed = False,
         vr_rejection_reasons = [or_default (dc_reason dd) (FMsg ''Drawdown exceeded kill switch threshold'' [])],
         vr_position_size = None, vr_stop_loss = None, vr_take_profit_levels = [], vr_applied_reductions = [],
         vr_trigger_kill_switch = True\<rparr>"
    | (day_limit) dd m where "is_signal_allowed (re_switch g) (sg_strategy s)"
      "check_trade_allowed equity now1 now2 (re_monitor g) = (dd, m)" "dc_decision dd = REJECT"
      "g' = g\<lparr>re_monitor := m\<rparr>"
      "apfst Inr (signal_rejected g' s (or_default (dc_reason dd) (FMsg ''Daily loss limit exceeded'' []))
                      [(''drawdown_pct'', dstr (dc_drawdown_pct dd))] []) = (out, evs)"
    | (raised) dd m e where "is_signal_allowed (re_switch g) (sg_strategy s)" "out = Inl e"
      "check_trade_allowed equity now1 now2 (re_monitor g) = (dd, m)" "g' = g\<lparr>re_monitor := m\<rparr>"
    | (checked) dd m r where "is_signal_allowed (re_switch g) (sg_strategy s)"
      "check_trade_allowed equity now1 now2 (re_monitor g) = (dd, m)" "dc_decision dd \<in> {ALLOW, REDUCE_SIZE}"
      "g' = g\<lparr>re_monitor := m\<rparr>" "out = Inr r"
      "check_signal g' s equity ps (drawdown_reductions dd) = Inr (r, evs)"
proof (cases "is_signal_allowed (re_switch g) (sg_strategy s)")
  case False
  then show ?thesis using assms
    by (intro gate_closed) (auto simp: validate_signal_def apfst_def map_prod_def split: prod.splits)
next
  case True
  obtain dd m where c: "check_trade_allowed equity now1 now2 (re_monitor g) = (dd, m)"
    by (cases "check_trade_allowed equity now1 now2 (re_monitor g)")
  show ?thesis
  proof (cases "dc_decision dd")
    case KILL_SWITCH
    obtain b k pubs where a: "activate (or_default (dc_reason dd) (FMsg ''Drawdown exceeded kill switch threshold'' []))
        ''drawdown'' now3 (re_switch g) = (b, k, pubs)" by (rule prod_cases3)
    with KILL_SWITCH True c assms show ?thesis
      by (intro breach[OF True c KILL_SWITCH a]) (auto simp: validate_signal_def Let_def)
  next
    case REJECT
    with True c assms show ?thesis
      by (intro day_limit[of dd m]) (auto simp: validate_signal_def Let_def apfst_def map_prod_def split: prod.splits)
  next
    case ALLOW
    with True c assms show ?thesis
      by (cases "check_signal (g\<lparr>re_monitor := m\<rparr>) s equity ps []")
        (auto simp: validate_signal_def Let_def drawdown_reductions_def split: prod.splits intro: raised checked)
  next
    case REDUCE_SIZE
    with True c assms show ?thesis
      by (cases "check_signal (g\<lparr>re_monitor := m\<rparr>) s equity ps (drawdown_reductions dd)")
        (auto simp: validate_signal_def Let_def drawdown_reductions_def split: prod.splits intro: raised checked)
  qed
qed

lemma check_trade_reduce:
  assumes "check_trade_allowed equity now1 now2 m = (dd, m')" "dc_decision dd = REDUCE_SIZE"
  shows "\<exists>f. dc_reduction_factor dd = Some f \<and> dr_factor f = 1 / 4"
  using assms by (auto simp: check_trade_allowed_def Let_def split: if_splits prod.splits)

lemma signal_rejected_simps [simp]:
  "\<not> vr_allowed (fst (signal_rejected g s reason extra applied))"
  "vr_rejection_reasons (fst (signal_rejected g s reason extra applied)) = [reason]"
  "vr_position_size (fst (signal_rejected g s reason extra applied)) = None"
  "vr_stop_loss (fst (signal_rejected g s reason extra applied)) = None"
  "\<not> vr_trigger_kill_switch (fst (signal_rejected g s reason extra applied))"
  "snd (signal_rejected g s reason extra applied) = [] \<longleftrightarrow> \<not> re_has_bus g"
  by (simp_all add: engine_defs)

lemma validate_signal_allowed:
  assumes "validate_signal s equity ps now1 now2 now3 g = (Inr r, g', evs)" "vr_allowed r"
  obtains dd m where "is_signal_allowed (re_switch g) (sg_strategy s)"
    "check_trade_allowed equity now1 now2 (re_monitor g) = (dd, m)" "dc_decision dd \<in> {ALLOW, REDUCE_SIZE}"
    "g' = g\<lparr>re_monitor := m\<rparr>"
    "ec_allowed (check_exposure (re_exposure g)
          \<lparr>ep_instrument = sg_instrument s, ep_asset_class = asset_class_of (sg_asset_class s),
           ep_notional_value = sg_notional_value s, ep_region = sg_region s\<rparr>
          (convert_to_exposure_positions ps) equity None)"
    "validate_risk_reward (sg_entry_price s) (sg_stop_loss s) (sg_take_profit s) (3/2)"
    "size_signal g' s equity (drawdown_reductions dd) = Inr (r, evs)"
  using assms(1)
proof (cases rule: validate_signal_cases)
  case gate_closed
  then show ?thesis using assms(2) by (auto simp: signal_rejected_def)
next
  case breach
  then show ?thesis using assms(2) by auto
next
  case day_limit
  then show ?thesis using assms(2) by (auto simp: signal_rejected_def)
next
  case raised
  then show ?thesis by simp
next
  case (checked dd m r')
  from checked(6) show ?thesis
  proof (cases rule: check_signal_Inr)
    case rejected
    then show ?thesis using assms(2) checked(5) by (auto simp: signal_rejected_def)
  next
    case sized
    then show ?thesis using checked that by simp
  qed
qed

section \<open>What the risk engine guarantees\<close>

text \<open>
  Claim C1: a signal is allowed only if the kill switch is inactive, the drawdown is below the
  kill-switch threshold, the daily loss limit is not reached, the exposure of its class and of
  the portfolio with the new position stays within the limits in money (up to decimal rounding),
  the risk-reward ratio is at least 1.5, and the size lies between 0.01 and 5% of the equity.
\<close>

theorem allowed_signal_within_all_limits:
  assumes "validate_signal s equity ps now1 now2 now3 g = (Inr r, g', evs)" "vr_allowed r"
  shows "is_signal_allowed (re_switch g') (sg_strategy s) \<and>
    get_drawdown (re_monitor g') equity < kill_switch_pct (re_monitor g') \<and>
    \<not> limit_reached (re_monitor g') \<and>
    (class_notional (asset_class_of (sg_asset_class s)) (convert_to_exposure_positions ps)
        + d_abs (sg_notional_value s)) * (1 - 1 / 10 ^ 27) ^ 2
      \<le> get_effective_class_limit (re_exposure g) (sg_region s) (Some (geo_risk_scores (re_exposure g))) * equity \<and>
    (total_notional (convert_to_exposure_positions ps) + d_abs (sg_notional_value s)) * (1 - 1 / 10 ^ 27) ^ 2
      \<le> max_total (re_exposure g) * equity \<and>
    validate_risk_reward (sg_entry_price s) (sg_stop_loss s) (sg_take_profit s) (3 / 2) \<and>
    (\<exists>sz. vr_position_size r = Some sz \<and> 1 / 100 \<le> sz \<and> sz \<le> d_mul equity (1 / 20))"
proof -
  from validate_signal_allowed[OF assms] obtain dd m where a: "is_signal_allowed (re_switch g) (sg_strategy s)"
    "check_trade_allowed equity now1 now2 (re_monitor g) = (dd, m)" "dc_decision dd \<in> {ALLOW, REDUCE_SIZE}"
    "g' = g\<lparr>re_monitor := m\<rparr>"
    "ec_allowed (check_exposure (re_exposure g)
          \<lparr>ep_instrument = sg_instrument s, ep_asset_class = asset_class_of (sg_asset_class s),
           ep_notional_value = sg_notional_value s, ep_region = sg_region s\<rparr>
          (convert_to_exposure_positions ps) equity None)"
    "validate_risk_reward (sg_entry_price s) (sg_stop_loss s) (sg_take_profit s) (3/2)"
    "size_signal g' s equity (drawdown_reductions dd) = Inr (r, evs)" by blast
  note d = check_trade_not_kill[OF a(2,3)]
  from a(5) have e: "0 < equity"
    "d_add (d_quot (class_notional (asset_class_of (sg_asset_class s)) (convert_to_exposure_positions ps)) equity)
       (d_quot (d_abs (sg_notional_value s)) equity)
      \<le> get_effective_class_limit (re_exposure g) (sg_region s) (Some (geo_risk_scores (re_exposure g)))"
    "d_add (d_quot (total_notional (convert_to_exposure_positions ps)) equity) (d_quot (d_abs (sg_notional_value s)) equity)
      \<le> max_total (re_exposure g)"
    by (simp_all add: check_exposure_allowed_iff)
  note f = fraction_bound_money[OF e(2,1) notional_nonneg(1) d_abs_nonneg]
    fraction_bound_money[OF e(3,1) notional_nonneg(2) d_abs_nonneg]
  obtain res sz fs where z: "calculate_size equity (signal_risk_pct s) (sg_atr s) (3/2) (sg_atr_zscore s) fs MIN_LOT_SIZE = Inr res"
      "sz_size res = Some sz" "vr_position_size r = Some sz"
    by (rule size_signal_allowed[OF a(7) assms(2)]) (rule that; assumption)
  have "MIN_LOT_SIZE \<le> sz \<and> sz \<le> d_mul equity (1 / 20)"
    using z(1,2) by (rule calculate_size_Some) blast
  then show ?thesis using a(1,4,6) d f z(3) by (simp add: MIN_LOT_SIZE_def)
qed

definition sample_signal :: trade_signal where
  "sample_signal =
     \<lparr>sg_instrument = ''EUR/USD'', sg_direction = ''LONG'', sg_entry_price = 100, sg_stop_loss = 90,
      sg_take_profit = 120, sg_confidence = 80, sg_strategy = ''trend'', sg_asset_class = ''Forex'',
      sg_notional_value = 500, sg_region = None, sg_is_hft = False, sg_atr = 10, sg_atr_zscore = 0,
      sg_risk_pct = Some (1 / 100)\<rparr>"

text \<open>An engine whose equity peaked at 10000.\<close>

definition sample_engine :: risk_engine where
  "sample_engine =
     \<lparr>re_monitor = drawdown_init 10000 (Some (3 / 100)) (Some (1 / 10)) (Some (3 / 20)) 0,
      re_exposure = exposure_init (Some (3 / 10)) (Some (7 / 10)),
      re_switch = kill_switch_init None None 3 5 True, re_has_bus = True\<rparr>"

definition validated :: "decimal \<Rightarrow> py_error + validation_result" where
  "validated equity = fst (validate_signal sample_signal equity [] 1 1 1 sample_engine)"

lemma validated_Inr:
  assumes "validated equity = Inr r"
  obtains g' evs where "validate_signal sample_signal equity [] 1 1 1 sample_engine = (Inr r, g', evs)"
  using assms by (cases "validate_signal sample_signal equity [] 1 1 1 sample_engine") (auto simp: validated_def)

lemma sample_arith:
  "d_add (d_quot 0 10000) (d_quot (d_abs 500) 10000) \<le> 3 / 10" "d_add (d_quot 0 9000) (d_quot (d_abs 500) 9000) \<le> 3 / 10"
  "d_mul 10000 (3 / 100) = 300" "d_quot (d_sub 10000 9000) 10000 = 1 / 10"
  "d_mul 10000 (1 / 100) = 100" "d_mul 10 (3 / 2) = 15" "d_div 100 15 = Inr (6666666666666666666666666667 / 1000000000000000000000000000)"
  "quantize_down (6666666666666666666666666667 / 1000000000000000000000000000) = Inr (333 / 50)" "d_mul 10000 (1 / 20) = 500"
  "validate_risk_reward 100 90 120 (3 / 2)" "asset_class_of ''Forex'' = FOREX"
  by code_simp+

lemma sample_exposure:
  "eq = 10000 \<or> eq = 9000 \<Longrightarrow> ec_allowed (check_exposure (re_exposure sample_engine)
     \<lparr>ep_instrument = ''EUR/USD'', ep_asset_class = FOREX, ep_notional_value = 500, ep_region = None\<rparr> [] eq None)"
  using sample_arith(1,2) by (auto simp: check_exposure_allowed_iff sample_engine_def exposure_init_def class_notional_def
      total_notional_def get_effective_class_limit_def d_sum_def)

lemma sample_drawdown:
  "dc_decision (fst (check_trade_allowed 10000 1 1 (re_monitor sample_engine))) = ALLOW"
  "drawdown_reduction_pct (re_monitor sample_engine) \<le> get_drawdown (snd (check_trade_allowed 9000 1 1 (re_monitor sample_engine))) 9000"
  "dc_decision (fst (check_trade_allowed 9000 1 1 (re_monitor sample_engine))) = REDUCE_SIZE"
  by (simp_all add: check_trade_allowed_def check_daily_loss_limit_def get_drawdown_def dd_defs
      sample_engine_def drawdown_init_def midnight_def Let_def sample_arith)

lemma sample_checks:
  "ec_allowed (check_exposure (re_exposure sample_engine)
     \<lparr>ep_instrument = ''EUR/USD'', ep_asset_class = FOREX, ep_notional_value = 500, ep_region = None\<rparr> [] 10000 None)"
  "validate_risk_reward 100 90 120 (3 / 2)" "asset_class_of ''Forex'' = FOREX"
  "calculate_size 10000 (1 / 100) 10 (3 / 2) 0 None MIN_LOT_SIZE =
     Inr \<lparr>sz_size = Some (333 / 50), sz_rejected = False, sz_rejection_reason = None, sz_applied_reductions = []\<rparr>"
  using sample_arith(10,11) by (simp_all add: sample_exposure calculate_size_def sample_arith volatility_reduction_def apply_factors_def MIN_LOT_SIZE_def)

lemma sample_validated: "\<exists>r. validated 10000 = Inr r \<and> vr_allowed r \<and> vr_position_size r = Some (333 / 50)"
proof -
  have "is_signal_allowed (re_switch sample_engine) ''trend''"
    by (simp add: sample_engine_def kill_switch_init_def is_signal_allowed_def is_active_def)
  moreover obtain dd m where d: "check_trade_allowed 10000 1 1 (re_monitor sample_engine) = (dd, m)"
    by (cases "check_trade_allowed 10000 1 1 (re_monitor sample_engine)")
  moreover have "dc_decision dd = ALLOW" using sample_drawdown(1) by (simp add: d)
  ultimately show ?thesis
    by (simp add: validated_def validate_signal_def check_signal_def size_signal_def signal_risk_pct_def
        convert_to_exposure_positions_def Let_def sample_signal_def sample_checks)
qed

theorem allowed_signal_within_all_limits_witness:
  "\<exists>r. validated 10000 = Inr r \<and> vr_allowed r \<and>
     (\<exists>sz. vr_position_size r = Some sz \<and> 1 / 100 \<le> sz \<and> sz \<le> d_mul 10000 (1 / 20)) \<and>
     (total_notional [] + d_abs 500) * (1 - 1 / 10 ^ 27) ^ 2 \<le> 7 / 10 * 10000"
proof -
  obtain r where r: "validated 10000 = Inr r" "vr_allowed r" using sample_validated by blast
  from r(1) obtain g' evs where "validate_signal sample_signal 10000 [] 1 1 1 sample_engine = (Inr r, g', evs)"
    by (rule validated_Inr)
  from allowed_signal_within_all_limits[OF this r(2)] r show ?thesis
    by (simp add: convert_to_exposure_positions_def sample_signal_def sample_engine_def exposure_init_def)
qed

text \<open>
  Claim: in a drawdown that calls for a reduction (10% by default) an allowed signal gets at
  most a quarter of the ATR size \<open>(equity * risk) / (atr * 1.5)\<close>.
\<close>

theorem drawdown_quarters_the_size:
  assumes "validate_signal s equity ps now1 now2 now3 g = (Inr r, g', evs)" "vr_position_size r = Some sz"
    and "vr_allowed r" "drawdown_reduction_pct (re_monitor g) \<le> get_drawdown (re_monitor g') equity"
  shows "sz \<le> d_mul (d_quot (d_mul equity (signal_risk_pct s)) (d_mul (sg_atr s) (3 / 2))) (1 / 4)"
proof -
  let ?base = "d_quot (d_mul equity (signal_risk_pct s)) (d_mul (sg_atr s) (3 / 2))"
  from validate_signal_allowed[OF assms(1,3)] obtain dd m where
    a: "check_trade_allowed equity now1 now2 (re_monitor g) = (dd, m)" "dc_decision dd \<in> {ALLOW, REDUCE_SIZE}"
    "g' = g\<lparr>re_monitor := m\<rparr>" "size_signal g' s equity (drawdown_reductions dd) = Inr (r, evs)" by blast
  have "dc_decision dd = REDUCE_SIZE" using check_trade_not_reduced[OF a(1)] a(2,3) assms(4) by auto
  then obtain why where red: "drawdown_reductions dd = [\<lparr>ar_source = ''drawdown'', ar_factor = 1 / 4, ar_reason = why\<rparr>]"
    using check_trade_reduce[OF a(1)] by (auto simp: drawdown_reductions_def)
  define q where "q = \<lparr>rf_source = ''drawdown'', rf_factor = 1 / 4, rf_reason = why\<rparr>"
  have fq: "flt (1 / 4) = 1 / 4" by code_simp
  obtain res where z: "calculate_size equity (signal_risk_pct s) (sg_atr s) (3/2) (sg_atr_zscore s) (Some [q]) MIN_LOT_SIZE = Inr res"
      "sz_size res = Some sz"
    by (rule size_signal_allowed[OF a(4) assms(3)]) (use assms(2) in \<open>auto simp: red fq q_def intro: that\<close>)
  from z obtain k where k: "0 < equity" "0 < signal_risk_pct s" "0 < sg_atr s"
      "quantize_down (apply_factors ?base (volatility_reduction (sg_atr_zscore s) @ [q])) = Inr sz"
    by (rule calculate_size_Some) auto
  have base: "0 \<le> ?base" using k base_size_nonneg by simp
  note v = apply_factors_bounds[OF is_dec_ops(5) base reducing_volatility, of "sg_atr_zscore s"]
  have e: "apply_factors ?base (volatility_reduction (sg_atr_zscore s) @ [q]) =
      d_mul (apply_factors ?base (volatility_reduction (sg_atr_zscore s))) (1 / 4)"
    by (simp add: apply_factors_append) (simp add: apply_factors_def q_def)
  have "sz \<le> d_mul (apply_factors ?base (volatility_reduction (sg_atr_zscore s))) (1 / 4)"
    using quantize_down_bounds(2)[OF k(4)[unfolded e]] v(1)
      dec.rnd_nonneg[of "apply_factors ?base (volatility_reduction (sg_atr_zscore s)) * (1 / 4)"]
    unfolding d_mul_def[of _ "1 / 4"] by linarith
  also have "\<dots> \<le> d_mul ?base (1 / 4)"
    unfolding d_mul_def[of _ "1 / 4"] using v(2) by (intro dec.rnd_mono mult_right_mono) auto
  finally show ?thesis .
qed

lemma sample_reduced:
  "d_div (d_mul 9000 (1 / 100)) (d_mul 10 (3 / 2)) = Inr 6" "d_mul 6 (1 / 4) = 3 / 2"
  "quantize_down (3 / 2) = Inr (3 / 2)" "d_mul 9000 (1 / 20) = 450" "flt (1 / 4) = 1 / 4"
  by code_simp+

lemma sample_reduced_size:
  "calculate_size 9000 (1 / 100) 10 (3 / 2) 0 (Some [\<lparr>rf_source = src, rf_factor = 1 / 4, rf_reason = why\<rparr>]) MIN_LOT_SIZE =
     Inr \<lparr>sz_size = Some (3 / 2), sz_rejected = False, sz_rejection_reason = None,
          sz_applied_reductions = [\<lparr>rf_source = src, rf_factor = 1 / 4, rf_reason = why\<rparr>]\<rparr>"
  by (simp add: calculate_size_def sample_reduced volatility_reduction_def apply_factors_def MIN_LOT_SIZE_def)

lemma sample_validated_reduced:
  "\<exists>r m evs. validate_signal sample_signal 9000 [] 1 1 1 sample_engine = (Inr r, sample_engine\<lparr>re_monitor := m\<rparr>, evs) \<and>
     vr_allowed r \<and> vr_position_size r = Some (3 / 2) \<and> drawdown_reduction_pct (re_monitor sample_engine) \<le> get_drawdown m 9000"
proof -
  have "is_signal_allowed (re_switch sample_engine) ''trend''"
    by (simp add: sample_engine_def kill_switch_init_def is_signal_allowed_def is_active_def)
  moreover obtain dd m where d: "check_trade_allowed 9000 1 1 (re_monitor sample_engine) = (dd, m)"
    by (cases "check_trade_allowed 9000 1 1 (re_monitor sample_engine)")
  moreover have dd: "dc_decision dd = REDUCE_SIZE" using sample_drawdown(3) by (simp add: d)
  moreover obtain f where f: "dc_reduction_factor dd = Some f" "dr_factor f = 1 / 4"
    using check_trade_reduce[OF d dd] by blast
  ultimately have "\<exists>r evs. validate_signal sample_signal 9000 [] 1 1 1 sample_engine =
        (Inr r, sample_engine\<lparr>re_monitor := m\<rparr>, evs) \<and> vr_allowed r \<and> vr_position_size r = Some (3 / 2)"
    by (simp add: validate_signal_def check_signal_def size_signal_def signal_risk_pct_def
        convert_to_exposure_positions_def Let_def sample_signal_def sample_checks sample_exposure sample_reduced sample_reduced_size f)
  moreover have "drawdown_reduction_pct (re_monitor sample_engine) \<le> get_drawdown m 9000"
    using sample_drawdown(2) by (simp add: d)
  ultimately show ?thesis by blast
qed

theorem drawdown_quarters_the_size_witness:
  "\<exists>r g' evs. validate_signal sample_signal 9000 [] 1 1 1 sample_engine = (Inr r, g', evs) \<and>
     vr_position_size r = Some (3 / 2) \<and> 3 / 2 \<le> d_mul (d_quot (d_mul 9000 (1 / 100)) (d_mul 10 (3 / 2))) (1 / 4)"
proof -
  obtain r m evs where r: "validate_signal sample_signal 9000 [] 1 1 1 sample_engine = (Inr r, sample_engine\<lparr>re_monitor := m\<rparr>, evs)"
      "vr_allowed r" "vr_position_size r = Some (3 / 2)" "drawdown_reduction_pct (re_monitor sample_engine) \<le> get_drawdown m 9000"
    using sample_validated_reduced by blast
  from drawdown_quarters_the_size[OF r(1,3,2)] r(4)
  have "3 / 2 \<le> d_mul (d_quot (d_mul 9000 (1 / 100)) (d_mul 10 (3 / 2))) (1 / 4)"
    by (simp add: sample_signal_def signal_risk_pct_def)
  with r show ?thesis by blast
qed

text \<open>
  Claim: every validation that returns is either allowed, with a size, a stop and no reasons,
  or rejected, with a reason and no size and no stop; it asks for the kill switch only when the
  switch is active afterwards; and with an event bus exactly the rejections publish events.
\<close>

theorem validation_outcome_shape:
  assumes "validate_signal s equity ps now1 now2 now3 g = (Inr r, g', evs)"
  shows "vr_allowed r = (vr_rejection_reasons r = []) \<and> vr_allowed r = (vr_position_size r \<noteq> None) \<and>
    vr_allowed r = (vr_stop_loss r \<noteq> None) \<and>
    (\<not> vr_trigger_kill_switch r \<or> (is_active (re_switch g') \<and> \<not> vr_allowed r)) \<and>
    (\<not> re_has_bus g \<or> vr_allowed r = (evs = []))"
  using assms
proof (cases rule: validate_signal_cases)
  case gate_closed
  then show ?thesis by (auto simp: engine_defs)
next
  case (breach dd m b k pubs)
  then show ?thesis using assms
    by (auto simp: validate_signal_def engine_defs activate_def is_active_def split: if_splits)
next
  case day_limit
  then show ?thesis by (auto simp: engine_defs)
next
  case raised
  then show ?thesis by simp
next
  case (checked dd m r')
  from checked(6) show ?thesis
  proof (cases rule: check_signal_Inr)
    case rejected
    then show ?thesis using checked(4,5) by (auto simp: engine_defs)
  next
    case sized
    show ?thesis
    proof (cases "vr_allowed r")
      case True
      then have "vr_allowed r'" using checked(5) by simp
      with sized(3) show ?thesis
        by (rule size_signal_allowed) (use True checked(5) in simp)
    next
      case False
      with sized(3) checked(4,5) show ?thesis
        by (auto simp: size_signal_def bindE_Inr_iff engine_defs split: if_splits)
    qed
  qed
qed

theorem validation_outcome_shape_witness:
  "\<exists>r g' evs. validate_signal sample_signal 10000 [] 1 1 1 sample_engine = (Inr r, g', evs) \<and>
     vr_allowed r \<and> evs = [] \<and> vr_rejection_reasons r = []"
proof -
  obtain r where r: "validated 10000 = Inr r" "vr_allowed r" using sample_validated by blast
  from r(1) obtain g' evs where v: "validate_signal sample_signal 10000 [] 1 1 1 sample_engine = (Inr r, g', evs)"
    by (rule validated_Inr)
  from validation_outcome_shape[OF v] r(2) v show ?thesis by (auto simp: sample_engine_def)
qed

section \<open>The crisis response\<close>

definition notional_of :: "crisis_position list \<Rightarrow> decimal" where
  "notional_of ps = d_sum (map cp_notional_value ps)"

lemma close_until_kept:
  "\<not> done_sum < target \<Longrightarrow> close_until target ps (done_sum, out, keep) = (done_sum, out, keep @ ps)"
  by (induction ps arbitrary: keep) auto

lemma close_until_prefix:
  "\<exists>n \<le> length ps. close_until target ps (done_sum, out, keep) =
      (foldl d_add done_sum (map cp_notional_value (take n ps)), out @ take n ps, keep @ drop n ps) \<and>
    (\<forall>i < n. foldl d_add done_sum (map cp_notional_value (take i ps)) < target) \<and>
    (n = length ps \<or> target \<le> foldl d_add done_sum (map cp_notional_value (take n ps)))"
proof (induction ps arbitrary: done_sum out)
  case Nil
  show ?case by simp
next
  case (Cons p ps)
  show ?case
  proof (cases "done_sum < target")
    case True
    obtain n where n: "n \<le> length ps"
      "close_until target ps (d_add done_sum (cp_notional_value p), out @ [p], keep) =
         (foldl d_add (d_add done_sum (cp_notional_value p)) (map cp_notional_value (take n ps)),
          (out @ [p]) @ take n ps, keep @ drop n ps)"
      "\<forall>i < n. foldl d_add (d_add done_sum (cp_notional_value p)) (map cp_notional_value (take i ps)) < target"
      "n = length ps \<or> target \<le> foldl d_add (d_add done_sum (cp_notional_value p)) (map cp_notional_value (take n ps))"
      using Cons.IH by blast
    have "foldl d_add done_sum (map cp_notional_value (take i (p # ps))) < target" if "i < Suc n" for i
      using that True n(3) by (cases i) auto
    moreover have "close_until target (p # ps) (done_sum, out, keep) =
        (foldl d_add done_sum (map cp_notional_value (take (Suc n) (p # ps))), out @ take (Suc n) (p # ps),
         keep @ drop (Suc n) (p # ps))"
      using True n(2) by simp
    moreover have "Suc n = length (p # ps) \<or>
        target \<le> foldl d_add done_sum (map cp_notional_value (take (Suc n) (p # ps)))"
      using n(4) by simp
    moreover have "Suc n \<le> length (p # ps)" using n(1) by simp
    ultimately show ?thesis by blast
  next
    case False
    then show ?thesis by (intro exI[of _ 0]) (simp add: close_until_kept)
  qed
qed

lemma half_le: assumes "is_dec x" "0 \<le> x" shows "d_mul x (1 / 2) \<le> x"
  unfolding d_mul_def by (rule dec.rnd_scale_le) (use assms in \<open>simp_all\<close>)

lemma by_volatility_sorted: "sorted_wrt (\<lambda>p q. cp_atr q \<le> cp_atr p) (by_volatility ps)"
proof -
  have "sorted (map (\<lambda>p. - cp_atr p) (by_volatility ps))" by (simp add: by_volatility_def)
  then show ?thesis by (simp add: sorted_wrt_map)
qed

text \<open>
  Claim: in a crisis the engine closes the most volatile positions, highest ATR first, until
  at least half of the total notional is closed, and not one position more; every other position
  is kept and gets a wider stop, so closed and widened together are all positions.
\<close>

theorem crisis_closes_the_volatile_half:
  assumes "ps \<noteq> []" "list_all (\<lambda>p. 0 \<le> cp_notional_value p) ps"
  shows "\<exists>n. cr_positions_closed (fst (handle_crisis_response ps t t' g)) = map cp_instrument (take n (by_volatility ps)) \<and>
      cr_positions_widened (fst (handle_crisis_response ps t t' g)) = map cp_instrument (drop n (by_volatility ps)) \<and>
      d_mul (notional_of (by_volatility ps)) (1 / 2) \<le> notional_of (take n (by_volatility ps)) \<and>
      list_all (\<lambda>i. notional_of (take i (by_volatility ps)) < d_mul (notional_of (by_volatility ps)) (1 / 2)) [0..<n] \<and>
      mset (by_volatility ps) = mset ps \<and>
      sorted_wrt (\<lambda>p q. cp_atr q \<le> cp_atr p) (by_volatility ps)"
proof -
  define qs where "qs = by_volatility ps"
  define target where "target = d_mul (notional_of qs) (1 / 2)"
  have ms: "mset qs = mset ps" by (simp add: qs_def by_volatility_def)
  have "\<forall>x \<in> set (map cp_notional_value qs). 0 \<le> x"
    using assms(2) by (auto simp: list_all_iff set_mset_mset [symmetric] ms simp del: set_mset_mset)
  then have nn: "0 \<le> notional_of qs" unfolding notional_of_def by (rule d_sum_nonneg)
  obtain n where n: "n \<le> length qs"
    "close_until target qs (0, [], []) = (notional_of (take n qs), take n qs, drop n qs)"
    "\<forall>i < n. notional_of (take i qs) < target" "n = length qs \<or> target \<le> notional_of (take n qs)"
    using close_until_prefix[of qs target 0 "[]" "[]"] by (auto simp: notional_of_def d_sum_def)
  have "target \<le> notional_of qs" unfolding target_def using nn by (intro half_le) (simp add: notional_of_def)
  then have "target \<le> notional_of (take n qs)" using n(4) by auto
  moreover have "cr_positions_closed (fst (handle_crisis_response ps t t' g)) = map cp_instrument (take n qs)"
    "cr_positions_widened (fst (handle_crisis_response ps t t' g)) = map cp_instrument (drop n qs)"
    using assms(1) n(2)
    by (simp_all add: handle_crisis_response_def qs_def[symmetric] notional_of_def[symmetric] target_def[symmetric] Let_def)
  ultimately show ?thesis
    using n(3) ms by_volatility_sorted[of ps] unfolding qs_def[symmetric] target_def[symmetric]
    by (intro exI[of _ n]) (simp add: list_all_iff)
qed

definition crisis_sample :: "crisis_position list" where
  "crisis_sample =
     [\<lparr>cp_instrument = ''A'', cp_direction = ''LONG'', cp_notional_value = 100, cp_atr = 1, cp_entry_price = 10, cp_current_stop = 9\<rparr>,
      \<lparr>cp_instrument = ''B'', cp_direction = ''SHORT'', cp_notional_value = 60, cp_atr = 3, cp_entry_price = 20, cp_current_stop = 22\<rparr>,
      \<lparr>cp_instrument = ''C'', cp_direction = ''LONG'', cp_notional_value = 40, cp_atr = 2, cp_entry_price = 30, cp_current_stop = 28\<rparr>]"

theorem crisis_closes_the_volatile_half_witness:
  "cr_positions_closed (fst (handle_crisis_response crisis_sample 0 1 sample_engine)) = [''B'', ''C''] \<and>
   mset (by_volatility crisis_sample) = mset crisis_sample"
proof -
  have c: "cr_positions_closed (fst (handle_crisis_response crisis_sample 0 1 sample_engine)) = [''B'', ''C'']"
    by code_simp
  have "crisis_sample \<noteq> []" "list_all (\<lambda>p. 0 \<le> cp_notional_value p) crisis_sample"
    by (simp_all add: crisis_sample_def)
  from crisis_closes_the_volatile_half[OF this, of 0 1 sample_engine] c show ?thesis by blast
qed

end
