(* ===== verification/Trading_Loop.thy ===== *)
theory Trading_Loop
  imports Loop_Signals Ig_Client Risk_Engine
begin

text \<open>
  The autonomous trading loop, \<open>src/trading/trading_loop.py\<close>: polling, the trading cycle with its
  entry gates, risk controls, news overlay, execution, position management and reconciliation.

  The loop owns a broker client (theory \<open>Ig_Client\<close>), a candle buffer (\<open>Candle_Buffer\<close>) and a risk
  engine (\<open>Risk_Engine\<close>), which are parts of its state; \<open>loop_env\<close> holds what it is given or only
  calls: the professional strategy, the news layer, the mistake analyser, the repository of trades,
  the settings and the clocks.  Computations take no time: clocks advance with requests and sleeps.
  Deal identifiers are texts.  Printing is not modelled, except where it can raise.
\<close>

section \<open>The outside\<close>

record professional_decision =
  pf_action :: string
  pf_reason :: string
  pf_entry_price :: pyfloat
  pf_stop_price :: pyfloat
  pf_target_price :: pyfloat
  pf_tp1_price :: "pyfloat option"
  pf_risk_distance :: pyfloat
  pf_risk_per_trade :: pyfloat
  pf_atr :: pyfloat
  pf_trend_bias :: string
  pf_confidence :: int
  pf_partial_close_fraction :: pyfloat
  pf_trailing_enabled :: bool
  pf_log :: "(string \<times> detail) list"

datatype news_action = ALLOW_NORMAL | REQUIRE_EXTRA_CONFIRMATION | REDUCE_SIZE_NEWS | BLOCK_TRADE

record news_decision =
  nd_action :: news_action
  nd_fields :: "(string \<times> detail) list"

record learning_signal =
  lg_regime :: string
  lg_strategy :: string
  lg_indicators :: "(string, pyfloat) dict"
  lg_confidence :: int

record open_trade =
  ot_instrument :: string
  ot_long :: bool
  ot_size :: decimal
  ot_entry_price :: decimal
  ot_deal_id :: string
  ot_deal_reference :: json
  ot_strategy :: string
  ot_opened_at :: micros
  ot_confidence :: int
  ot_regime :: string
  ot_indicators :: "(string, pyfloat) dict"
  ot_rr_ratio :: pyfloat
  ot_stop_loss :: "decimal option"
  ot_take_profit :: "decimal option"

text \<open>What is read of a stored trade and its context, with the code's defaults for absent values.\<close>

record stored_trade =
  st_id :: string
  st_direction :: string
  st_entry_price :: decimal
  st_instrument :: string
  st_size :: decimal
  st_strategy :: string
  st_regime :: string
  st_confidence :: int
  st_indicators :: "(string, pyfloat) dict"

record learned_trade =
  lt_trade :: stored_trade
  lt_pnl :: pyfloat
  lt_exit_reason :: string
  lt_entry_direction :: string
  lt_exit_price :: pyfloat

record market_outcome =
  mo_actual_direction :: string
  mo_volatility_realized :: pyfloat
  mo_regime_actual :: string

record stored_position =
  sp_id :: string
  sp_deal_id :: "string option"
  sp_instrument :: string

record ig_settings =
  se_api_key :: string
  se_username :: string
  se_password :: string
  se_account_type :: string

text \<open>Optional objects are options: \<open>None\<close> is an object that was not given.\<close>

record 'w loop_env =
  le_ig :: "'w ig_env"
  le_time :: "'w \<Rightarrow> int \<Rightarrow> secs"
  le_now :: "'w \<Rightarrow> int \<Rightarrow> micros"
  le_settings :: ig_settings
  le_parse_decimal :: "string \<Rightarrow> py_error + decimal"
  le_professional :: "string \<Rightarrow> candle list \<Rightarrow> pyfloat \<Rightarrow> micros \<Rightarrow> 'w \<Rightarrow> (py_error + professional_decision) \<times> 'w"
  le_news :: "(string \<Rightarrow> 'w \<Rightarrow> (py_error + news_decision) \<times> 'w) option"
  le_mistakes :: "(learning_signal \<Rightarrow> 'w \<Rightarrow> py_error + (int \<times> pyfloat)) option"
  le_learn :: "learned_trade \<Rightarrow> market_outcome option \<Rightarrow> 'w \<Rightarrow> (py_error + unit) \<times> 'w"
  le_db_open :: "open_trade \<Rightarrow> 'w \<Rightarrow> (py_error + (string \<times> string)) \<times> 'w"
  le_trade :: "string \<Rightarrow> 'w \<Rightarrow> (py_error + stored_trade option) \<times> 'w"
  le_position :: "string \<Rightarrow> 'w \<Rightarrow> (py_error + stored_position option) \<times> 'w"
  le_trade_by_deal :: "string \<Rightarrow> 'w \<Rightarrow> (py_error + stored_trade option) \<times> 'w"
  le_position_by_deal :: "string \<Rightarrow> 'w \<Rightarrow> (py_error + stored_position option) \<times> 'w"
  le_open_trades :: "string \<Rightarrow> 'w \<Rightarrow> (py_error + stored_trade list) \<times> 'w"
  le_open_positions :: "'w \<Rightarrow> (py_error + stored_position list) \<times> 'w"
  le_close_trade :: "string \<Rightarrow> decimal \<Rightarrow> decimal \<Rightarrow> 'w \<Rightarrow> (py_error + unit) \<times> 'w"
  le_close_position :: "string \<Rightarrow> 'w \<Rightarrow> (py_error + unit) \<times> 'w"

section \<open>State\<close>

record professional_position =
  pp_direction :: string
  pp_entry_level :: pyfloat
  pp_tp1_level :: pyfloat
  pp_final_target_level :: json
  pp_partial_close_fraction :: pyfloat
  pp_size :: pyfloat
  pp_partial_taken :: bool
  pp_trailing_enabled :: bool

record risk_decision =
  rd_allowed :: bool
  rd_rejection_reasons :: "fmsg list"
  rd_position_size :: "decimal option"
  rd_applied_reductions :: "applied_reduction list"

record 'w trading_loop =
  tl_running :: bool
  tl_connected :: bool
  tl_last_tick_time :: secs
  tl_signals_generated :: int
  tl_trades_executed :: int
  tl_trades_rejected :: int
  tl_trades_closed :: int
  tl_total_pnl :: pyfloat
  tl_errors :: int
  tl_last_error :: fmsg
  tl_start_time :: secs
  tl_instruments :: "string list"
  tl_loop_interval :: rat
  tl_client :: "'w ig_client"
  tl_has_client :: bool
  tl_buffer :: candle_buffer
  tl_equity :: decimal
  tl_open_positions :: json
  tl_last_account_refresh :: secs
  tl_risk :: "risk_engine option"
  tl_last_risk_decision :: "risk_decision option"
  tl_events :: "(micros \<times> trade_event) list"
  tl_snapshots :: "(string, snapshot) dict"
  tl_last_trade_time :: "(string, secs) dict"
  tl_day :: int
  tl_daily_count :: int
  tl_daily_pnl :: pyfloat
  tl_deal_records :: "(string, string \<times> string) dict"
  tl_missing_counts :: "(string, int) dict"
  tl_mode :: string
  tl_account_type :: string
  tl_live_approved :: bool
  tl_demo_approved :: bool
  tl_positions :: "(string, professional_position) dict"
  tl_sweeps :: "(string, liquidity_sweep_state) dict"

type_synonym ('w, 'a) loop = "('w trading_loop, 'a) program"

definition wall_time :: "'w loop_env \<Rightarrow> 'w trading_loop \<Rightarrow> secs" where
  "wall_time env l = le_time env (ic_world (tl_client l)) (ic_clock (tl_client l))"

definition wall_now :: "'w loop_env \<Rightarrow> 'w trading_loop \<Rightarrow> micros" where
  "wall_now env l = le_now env (ic_world (tl_client l)) (ic_clock (tl_client l))"

definition utc_date :: "micros \<Rightarrow> int" where
  "utc_date t = t div 86400000000"

text \<open>\<open>_build_default_risk_engine\<close>\<close>

definition default_risk_engine :: "decimal \<Rightarrow> micros \<Rightarrow> risk_engine" where
  "default_risk_engine equity now =
     \<lparr>re_monitor = drawdown_init equity None None None now, re_exposure = exposure_init None None,
      re_switch = kill_switch_init None None 3 5 False, re_has_bus = False\<rparr>"

definition no_error :: fmsg where "no_error = FMsg [] []"

definition trading_loop_init ::
  "string list \<Rightarrow> rat \<Rightarrow> risk_engine option \<Rightarrow> string \<Rightarrow> string \<Rightarrow> bool \<Rightarrow> bool \<Rightarrow> 'w loop_env \<Rightarrow> 'w ig_client \<Rightarrow> 'w trading_loop" where
  "trading_loop_init instruments interval engine mode account live_ok demo_ok env c =
     (let now = le_now env (ic_world c) (ic_clock c)
      in \<lparr>tl_running = False, tl_connected = False, tl_last_tick_time = 0, tl_signals_generated = 0,
          tl_trades_executed = 0, tl_trades_rejected = 0, tl_trades_closed = 0, tl_total_pnl = 0, tl_errors = 0,
          tl_last_error = no_error, tl_start_time = le_time env (ic_world c) (ic_clock c),
          tl_instruments = (if instruments = [] then DEFAULT_INSTRUMENTS else instruments), tl_loop_interval = interval,
          tl_client = c, tl_has_client = False, tl_buffer = candle_buffer_init (Some 60) (Some 5000), tl_equity = 20000,
          tl_open_positions = JList [], tl_last_account_refresh = 0,
          tl_risk = Some (case engine of Some g \<Rightarrow> g | None \<Rightarrow> default_risk_engine 20000 now),
          tl_last_risk_decision = None, tl_events = [], tl_snapshots = [], tl_last_trade_time = [],
          tl_day = utc_date now, tl_daily_count = 0, tl_daily_pnl = 0, tl_deal_records = [], tl_missing_counts = [],
          tl_mode = py_upper mode, tl_account_type = py_upper account, tl_live_approved = live_ok, tl_demo_approved = demo_ok,
          tl_positions = [], tl_sweeps = []\<rparr>)"

section \<open>Basic steps\<close>

definition on_client :: "('w, 'a) ig \<Rightarrow> ('w, 'a) loop" where
  "on_client m l = (case m (tl_client l) of None \<Rightarrow> None | Some (r, c) \<Rightarrow> Some (r, l\<lparr>tl_client := c\<rparr>))"

text \<open>A call of the broker client, which may be None.\<close>

definition broker :: "('w, 'a) ig \<Rightarrow> ('w, 'a) loop" where
  "broker m = bindC (readC tl_has_client) (\<lambda>h. if h then on_client m else raiseC (AttributeError ''NoneType''))"

text \<open>A call of something outside.\<close>

definition outside :: "('w \<Rightarrow> (py_error + 'a) \<times> 'w) \<Rightarrow> ('w, 'a) loop" where
  "outside f = on_client (\<lambda>c. case f (ic_world c) of (r, w) \<Rightarrow> Some (r, c\<lparr>ic_world := w\<rparr>))"

definition record_trade_event :: "'w loop_env \<Rightarrow> string \<Rightarrow> (string \<times> detail) list \<Rightarrow> ('w, unit) loop" where
  "record_trade_event env name details =
     updC (\<lambda>l. l\<lparr>tl_events := take 25 ((wall_now env l, event_of name details) # tl_events l)\<rparr>)"

definition reject :: "('w, unit) loop" where
  "reject = updC (\<lambda>l. l\<lparr>tl_trades_rejected := tl_trades_rejected l + 1\<rparr>)"

definition reset_daily_trade_counter_if_needed :: "'w loop_env \<Rightarrow> 'w trading_loop \<Rightarrow> 'w trading_loop" where
  "reset_daily_trade_counter_if_needed env l =
     (let today = utc_date (wall_now env l)
      in if today \<noteq> tl_day l then l\<lparr>tl_day := today, tl_daily_count := 0, tl_daily_pnl := 0\<rparr> else l)"

section \<open>Values of the broker\<close>

text \<open>\<open>for x in v\<close> and \<open>len(v)\<close>\<close>

fun items_of :: "json \<Rightarrow> py_error + json list" where
  "items_of (JList xs) = Inr xs"
| "items_of (JStr s) = Inr (map (\<lambda>c. JStr [c]) s)"
| "items_of (JObj d) = Inr (map (\<lambda>kv. JStr (fst kv)) d)"
| "items_of _ = Inl (TypeError ''object is not iterable'')"

text \<open>\<open>a or b\<close> of two look-ups.\<close>

definition first_truthy :: "json \<Rightarrow> (py_error + json) \<Rightarrow> py_error + json" where
  "first_truthy x rest = (if json_truthy x then Inr x else rest)"

definition position_data :: "json \<Rightarrow> py_error + json" where
  "position_data pos = get_or pos ''position'' pos"

text \<open>\<open>float(pos.get("size") or pos.get("dealSize") or default)\<close>\<close>

definition size_of :: "'w loop_env \<Rightarrow> json \<Rightarrow> pyfloat \<Rightarrow> py_error + pyfloat" where
  "size_of env pos otherwise =
     bindE (get pos ''size'') (\<lambda>a.
     bindE (first_truthy a (get pos ''dealSize'')) (\<lambda>b.
       if json_truthy b then float_of_json (ie_parse_float (le_ig env)) b else Inr otherwise))"

text \<open>\<open>Decimal(str(v))\<close>\<close>

definition decimal_of_json :: "'w loop_env \<Rightarrow> json \<Rightarrow> py_error + decimal" where
  "decimal_of_json env v =
     (case v of JNum x \<Rightarrow> Inr (dec_of_float x) | JStr s \<Rightarrow> le_parse_decimal env s | _ \<Rightarrow> Inl DecimalInvalidOperation)"

fun open_position_in :: "json list \<Rightarrow> string \<Rightarrow> py_error + json option" where
  "open_position_in [] epic = Inr None"
| "open_position_in (p # ps) epic =
     bindE (get_or p ''market'' (JObj [])) (\<lambda>market.
     bindE (get market ''epic'') (\<lambda>e.
     bindE (first_truthy e (get_or p ''epic'' (JStr []))) (\<lambda>pos_epic.
       if pos_epic = JStr epic then Inr (Some p) else open_position_in ps epic)))"

definition get_open_position :: "string \<Rightarrow> ('w, json option) loop" where
  "get_open_position epic =
     bindC (readC tl_open_positions) (\<lambda>ps. pureC (bindE (items_of ps) (\<lambda>xs. open_position_in xs epic)))"

section \<open>Entry gates\<close>

fun correlated_in :: "'w loop_env \<Rightarrow> (string, int) dict \<Rightarrow> string \<Rightarrow> json list \<Rightarrow> py_error + bool" where
  "correlated_in env proposed epic [] = Inr False"
| "correlated_in env proposed epic (pos # ps) =
     bindE (position_data pos) (\<lambda>pos_data.
     bindE (get_or pos ''market'' (JObj [])) (\<lambda>market.
     bindE (get market ''epic'') (\<lambda>e1.
     bindE (first_truthy e1 (get pos ''epic'')) (\<lambda>e2.
     bindE (first_truthy e2 (get pos_data ''epic'')) (\<lambda>e3.
     bindE (get pos_data ''direction'') (\<lambda>d.
       let pos_epic = (if json_truthy e3 then e3 else JStr []);
           direction = (if json_truthy d then str_json (ie_str (le_ig env)) d else []);
           existing = currency_exposures (str_json (ie_str (le_ig env)) pos_epic) direction
       in if pos_epic = JStr epic then Inr True
          else if list_ex (\<lambda>(currency, exposure). exposure \<noteq> 0 \<and> map_of existing currency = Some exposure) proposed then Inr True
          else correlated_in env proposed epic ps))))))"

definition has_correlated_currency_exposure :: "'w loop_env \<Rightarrow> string \<Rightarrow> string \<Rightarrow> ('w, bool) loop" where
  "has_correlated_currency_exposure env epic direction =
     (let proposed = currency_exposures epic direction
      in if proposed = [] then returnC False
         else bindC (readC tl_open_positions) (\<lambda>ps. pureC (bindE (items_of ps) (correlated_in env proposed epic))))"

definition atr_pct :: "loop_signal \<Rightarrow> pyfloat" where
  "atr_pct g = (if 0 < ls_current_price g then f_quot (ls_atr g) (ls_current_price g) else 0)"

definition entry_gate_rejection_reason :: "'w loop_env \<Rightarrow> loop_signal \<Rightarrow> ('w, fmsg option) loop" where
  "entry_gate_rejection_reason env g =
     bindC (updC (reset_daily_trade_counter_if_needed env)) (\<lambda>_.
     bindC (readC id) (\<lambda>l.
       if MAX_DAILY_TRADES \<le> tl_daily_count l
       then returnC (Some (FMsg ''Daily trade cap reached ({})'' [FInt MAX_DAILY_TRADES]))
       else if tl_daily_pnl l \<le> f_mul (- flt (tl_equity l)) PROFESSIONAL_DAILY_MAX_LOSS_PCT
       then returnC (Some (FMsg ''Universal daily loss cap reached (1%)'' []))
       else bindC (get_open_position (ls_epic g)) (\<lambda>pos.
         if pos \<noteq> None then returnC (Some (FMsg ''Instrument already has an open position'' []))
         else
           let remaining = (case map_of (tl_last_trade_time l) (ls_epic g) of
                              Some t \<Rightarrow> f_sub (of_int MIN_SECONDS_BETWEEN_TRADES) (f_sub (wall_time env l) t)
                            | None \<Rightarrow> 0)
           in if 0 < remaining
              then returnC (Some (FMsg ''Instrument cooldown active for {}s'' [FInt (f_int remaining)]))
              else case spread_points (tl_snapshots l) (ls_epic g) of
                None \<Rightarrow> returnC (Some (FMsg ''No recent spread snapshot'' []))
              | Some spread \<Rightarrow>
                  if MAX_SPREAD_POINTS < spread
                  then returnC (Some (FMsg ''Spread {:.2f} above max {:.2f}'' [FNum spread, FNum MAX_SPREAD_POINTS]))
                  else if atr_pct g < MIN_ATR_PCT
                  then returnC (Some (FMsg ''ATR pct {:.5f} below min {:.5f}'' [FNum (atr_pct g), FNum MIN_ATR_PCT]))
                  else if MAX_ATR_PCT < atr_pct g
                  then returnC (Some (FMsg ''ATR pct {:.5f} above max {:.5f}'' [FNum (atr_pct g), FNum MAX_ATR_PCT]))
                  else bindC (has_correlated_currency_exposure env (ls_epic g) (ls_direction g)) (\<lambda>c.
                    returnC (if c then Some (FMsg ''Correlated currency exposure already open'' []) else None)))))"

section \<open>Risk controls\<close>

text \<open>\<open>_learning_indicators\<close>: the numbers of the signal, and its expected volatility.\<close>

definition learning_indicators :: "loop_signal \<Rightarrow> (string, pyfloat) dict" where
  "learning_indicators g =
     [(''atr'', ls_atr g)] @
     (case ls_sma_fast g of Some x \<Rightarrow> [(''sma_fast'', x)] | None \<Rightarrow> []) @
     (case ls_sma_slow g of Some x \<Rightarrow> [(''sma_slow'', x)] | None \<Rightarrow> []) @
     (case ls_trend_strength g of Some x \<Rightarrow> [(''trend_strength'', x)] | None \<Rightarrow> []) @
     [(''rr_ratio'', ls_rr_ratio g), (''stop_distance'', ls_stop_distance g), (''limit_distance'', ls_limit_distance g)] @
     (case ls_tp1_distance g of Some x \<Rightarrow> [(''tp1_distance'', x)] | None \<Rightarrow> []) @
     (if ls_current_price g \<noteq> 0 \<and> ls_atr g \<noteq> 0
      then [(''expected_volatility'', \<bar>f_quot (ls_atr g) (ls_current_price g)\<bar>)] else [])"

record mistake_penalties =
  mp_confidence_penalty :: int
  mp_adjusted_confidence :: int
  mp_size_reduction_factor :: pyfloat
  mp_applied :: bool

definition mistake_penalties_for_signal :: "'w loop_env \<Rightarrow> loop_signal \<Rightarrow> 'w \<Rightarrow> mistake_penalties" where
  "mistake_penalties_for_signal env g w =
     (let no_penalty = \<lparr>mp_confidence_penalty = 0, mp_adjusted_confidence = ls_confidence g, mp_size_reduction_factor = 1, mp_applied = False\<rparr>
      in case le_mistakes env of
           None \<Rightarrow> no_penalty
         | Some analyzer \<Rightarrow>
             (case analyzer \<lparr>lg_regime = (case ls_regime g of Some r \<Rightarrow> r | None \<Rightarrow> ''unknown''), lg_strategy = ls_strategy_name g,
                     lg_indicators = learning_indicators g, lg_confidence = ls_confidence g\<rparr> w of
                Inl e \<Rightarrow> no_penalty
              | Inr (penalty, factor) \<Rightarrow>
                  \<lparr>mp_confidence_penalty = \<bar>penalty\<bar>, mp_adjusted_confidence = max 0 (ls_confidence g - \<bar>penalty\<bar>),
                   mp_size_reduction_factor = factor, mp_applied = (0 < \<bar>penalty\<bar> \<or> factor < 1)\<rparr>))"

definition estimate_notional_value :: "pyfloat \<Rightarrow> decimal \<Rightarrow> decimal" where
  "estimate_notional_value lots price = d_abs (d_mul (dec_of_float lots) price)"

text \<open>\<open>Decimal(str(pos.get(a) or pos.get(b) or "0"))\<close>\<close>

definition decimal_at :: "'w loop_env \<Rightarrow> json \<Rightarrow> string \<Rightarrow> string \<Rightarrow> py_error + decimal" where
  "decimal_at env pos a b =
     bindE (get pos a) (\<lambda>x. bindE (first_truthy x (get pos b)) (\<lambda>y. if json_truthy y then decimal_of_json env y else Inr 0))"

definition position_for_risk :: "'w loop_env \<Rightarrow> json \<Rightarrow> py_error + position_dict" where
  "position_for_risk env pos =
     bindE (position_data pos) (\<lambda>pos_data.
     bindE (get_or pos ''market'' (JObj [])) (\<lambda>market.
     bindE (get market ''epic'') (\<lambda>e1.
     bindE (first_truthy e1 (get pos ''epic'')) (\<lambda>e2.
     bindE (first_truthy e2 (get pos_data ''epic'')) (\<lambda>e3.
     bindE (decimal_at env pos_data ''size'' ''dealSize'') (\<lambda>lots.
     bindE (decimal_at env pos_data ''level'' ''openLevel'') (\<lambda>level.
       case (if json_truthy e3 then e3 else JStr []) of
         JStr epic \<Rightarrow> Inr \<lparr>pd_instrument = Some epic, pd_asset_class = Some (asset_class_for_epic epic),
                          pd_notional_value = Some (NDecimal (d_abs (d_mul lots level))), pd_region = region_for_epic epic\<rparr>
       | _ \<Rightarrow> Inl (AttributeError ''startswith''))))))))"

definition current_positions_for_risk :: "'w loop_env \<Rightarrow> json \<Rightarrow> py_error + position_dict list" where
  "current_positions_for_risk env ps =
     bindE (items_of ps) (\<lambda>xs. foldr (\<lambda>p acc. bindE (position_for_risk env p) (\<lambda>d. bindE acc (\<lambda>ds. Inr (d # ds)))) xs (Inr []))"

definition risk_signal_of :: "loop_signal \<Rightarrow> int \<Rightarrow> decimal \<Rightarrow> trade_signal" where
  "risk_signal_of g adjusted_confidence scaling_factor =
     (let entry = dec_of_float (ls_current_price g);
          stop_distance = dec_of_float (ls_stop_distance g); limit_distance = dec_of_float (ls_limit_distance g);
          buy = (ls_direction g = ''BUY'')
      in \<lparr>sg_instrument = ls_epic g, sg_direction = (if buy then ''LONG'' else ''SHORT''), sg_entry_price = entry,
          sg_stop_loss = (if buy then d_sub entry stop_distance else d_add entry stop_distance),
          sg_take_profit = (if buy then d_add entry limit_distance else d_sub entry limit_distance),
          sg_confidence = adjusted_confidence, sg_strategy = ls_strategy_name g,
          sg_asset_class = asset_class_for_epic (ls_epic g), sg_notional_value = estimate_notional_value TRADE_SIZE entry,
          sg_region = region_for_epic (ls_epic g), sg_is_hft = False, sg_atr = d_mul (dec_of_float (ls_atr g)) scaling_factor,
          sg_atr_zscore = 0, sg_risk_pct = Some (dec_of_float (ls_risk_per_trade g))\<rparr>)"

text \<open>The call of the risk engine.\<close>

definition validate_with_engine :: "'w loop_env \<Rightarrow> trade_signal \<Rightarrow> risk_engine \<Rightarrow> ('w, validation_result) loop" where
  "validate_with_engine env s engine =
     bindC (readC id) (\<lambda>l.
     bindC (pureC (current_positions_for_risk env (tl_open_positions l))) (\<lambda>ps.
       case validate_signal s (tl_equity l) ps (wall_now env l) (wall_now env l) (wall_now env l) engine of
         (r, engine', evs) \<Rightarrow> bindC (updC (\<lambda>l. l\<lparr>tl_risk := Some engine'\<rparr>)) (\<lambda>_. pureC r)))"

definition signal_rejected_event :: "'w loop_env \<Rightarrow> loop_signal \<Rightarrow> detail \<Rightarrow> fmsg \<Rightarrow> ('w, unit) loop" where
  "signal_rejected_event env g confidence reason =
     record_trade_event env ''signal_rejected''
       [(''epic'', dtext (ls_epic g)), (''direction'', dtext (ls_direction g)), (''confidence'', confidence), (''reason'', DMsg reason)]"

text \<open>What follows from the engine's answer, and the \<open>try\<close> of \<open>_apply_risk_controls\<close>.\<close>

definition engine_verdict :: "'w loop_env \<Rightarrow> loop_signal \<Rightarrow> decimal \<Rightarrow> validation_result \<Rightarrow> ('w, loop_signal option) loop" where
  "engine_verdict env g size_reduction_factor result =
     bindC (updC (\<lambda>l. l\<lparr>tl_last_risk_decision := Some \<lparr>rd_allowed = vr_allowed result, rd_rejection_reasons = vr_rejection_reasons result,
              rd_position_size = vr_position_size result, rd_applied_reductions = vr_applied_reductions result\<rparr>\<rparr>)) (\<lambda>_.
       case (if vr_allowed result then vr_position_size result else None) of
         None \<Rightarrow>
           bindC reject (\<lambda>_.
           bindC (signal_rejected_event env g (dnum (of_int (ls_confidence g)))
                    (if vr_rejection_reasons result = [] then FMsg ''risk_rejected'' []
                     else FMsg ''; '' (map FText (vr_rejection_reasons result)))) (\<lambda>_.
             returnC None))
       | Some position_size \<Rightarrow>
           let risk_size = d_mul (min position_size (dec_of_float TRADE_SIZE)) size_reduction_factor
           in if risk_size \<le> 0 then bindC reject (\<lambda>_. returnC None)
              else returnC (Some (g\<lparr>ls_size := Some (flt risk_size)\<rparr>)))"

definition engine_approval :: "'w loop_env \<Rightarrow> loop_signal \<Rightarrow> decimal \<Rightarrow> risk_engine \<Rightarrow> ('w, loop_signal option) loop" where
  "engine_approval env g size_reduction_factor engine =
     bindC (readC tl_has_client) (\<lambda>h.
     bindC (if h then bindC (tryC (broker (get_scaling_factor (le_ig env) (ls_epic g)))) (\<lambda>r. returnC (case r of Inr x \<Rightarrow> dec_of_float x | Inl _ \<Rightarrow> 10000))
            else returnC 10000) (\<lambda>scaling_factor.
     bindC (validate_with_engine env (risk_signal_of g (ls_confidence g) scaling_factor) engine)
       (engine_verdict env g size_reduction_factor)))"

definition apply_risk_controls :: "'w loop_env \<Rightarrow> loop_signal \<Rightarrow> ('w, loop_signal option) loop" where
  "apply_risk_controls env signal =
     bindC (readC (\<lambda>l. mistake_penalties_for_signal env signal (ic_world (tl_client l)))) (\<lambda>mp.
     let g = signal\<lparr>ls_confidence := mp_adjusted_confidence mp\<rparr>;
         size_reduction_factor = dec_of_float (mp_size_reduction_factor mp)
     in if mp_adjusted_confidence mp < CONFIDENCE_THRESHOLD_DEFAULT then
          (let reason = FMsg ''Confidence {} below minimum {} after learning penalties'' [FInt (mp_adjusted_confidence mp), FInt CONFIDENCE_THRESHOLD_DEFAULT]
           in bindC reject (\<lambda>_.
              bindC (updC (\<lambda>l. l\<lparr>tl_last_risk_decision := Some \<lparr>rd_allowed = False, rd_rejection_reasons = [reason],
                       rd_position_size = None, rd_applied_reductions = []\<rparr>\<rparr>)) (\<lambda>_.
              bindC (signal_rejected_event env g (dnum (of_int (mp_adjusted_confidence mp))) reason) (\<lambda>_.
                returnC None))))
        else
          bindC (readC tl_risk) (\<lambda>engine.
          case engine of
            None \<Rightarrow> returnC (Some (g\<lparr>ls_size := Some (flt (d_mul (dec_of_float TRADE_SIZE) size_reduction_factor))\<rparr>))
          | Some engine \<Rightarrow>
              catchC (engine_approval env g size_reduction_factor engine)
                (\<lambda>e. bindC (updC (\<lambda>l. l\<lparr>tl_trades_rejected := tl_trades_rejected l + 1, tl_errors := tl_errors l + 1,
                               tl_last_error := FMsg ''Risk validation failed: {}'' [FExc e]\<rparr>)) (\<lambda>_.
                     bindC (signal_rejected_event env g (DJson JNull) (FMsg ''risk_error: {}'' [FExc e])) (\<lambda>_.
                       returnC None)))))"

section \<open>Kill switch and news\<close>

definition activate_kill_switch :: "'w loop_env \<Rightarrow> fmsg \<Rightarrow> ('w, bool) loop" where
  "activate_kill_switch env reason =
     bindC (readC id) (\<lambda>l.
     case tl_risk l of
       None \<Rightarrow> returnC False
     | Some engine \<Rightarrow>
         (case activate reason ''manual'' (wall_now env l) (re_switch engine) of
            (activated, k, pubs) \<Rightarrow>
              bindC (updC (\<lambda>l. l\<lparr>tl_risk := Some (engine\<lparr>re_switch := k\<rparr>)\<rparr>)) (\<lambda>_.
              bindC (record_trade_event env ''kill_switch_activated'' [(''reason'', DMsg reason), (''activated'', DJson (JBool activated))]) (\<lambda>_.
                returnC activated))))"

definition deactivate_kill_switch :: "'w loop_env \<Rightarrow> string \<Rightarrow> ('w, bool) loop" where
  "deactivate_kill_switch env token =
     bindC (readC id) (\<lambda>l.
     case tl_risk l of
       None \<Rightarrow> returnC False
     | Some engine \<Rightarrow>
         bindC (pureC (deactivate token (wall_now env l) (re_switch engine))) (\<lambda>(deactivated, k).
         bindC (updC (\<lambda>l. l\<lparr>tl_risk := Some (engine\<lparr>re_switch := k\<rparr>)\<rparr>)) (\<lambda>_.
         bindC (record_trade_event env ''kill_switch_deactivated'' [(''deactivated'', DJson (JBool deactivated))]) (\<lambda>_.
           returnC deactivated))))"

text \<open>The news layer may only restrict an approved signal.\<close>

definition apply_news_safety :: "'w loop_env \<Rightarrow> loop_signal \<Rightarrow> ('w, loop_signal option) loop" where
  "apply_news_safety env g =
     (case le_news env of
        None \<Rightarrow> returnC (Some g)
      | Some layer \<Rightarrow>
          bindC (outside (layer (case currency_pair_for_epic (ls_epic g) of Some p \<Rightarrow> p | None \<Rightarrow> ls_epic g))) (\<lambda>decision.
          bindC (record_trade_event env ''news_safety_decision'' ((''epic'', dtext (ls_epic g)) # nd_fields decision)) (\<lambda>_.
            case nd_action decision of
              BLOCK_TRADE \<Rightarrow> bindC reject (\<lambda>_. returnC None)
            | REQUIRE_EXTRA_CONFIRMATION \<Rightarrow>
                if ls_extra_confirmation g then returnC (Some g) else bindC reject (\<lambda>_. returnC None)
            | REDUCE_SIZE_NEWS \<Rightarrow>
                returnC (Some (g\<lparr>ls_size := Some (f_mul (case ls_size g of Some x \<Rightarrow> x | None \<Rightarrow> TRADE_SIZE) (1/2))\<rparr>))
            | ALLOW_NORMAL \<Rightarrow> returnC (Some g))))"

section \<open>Persistence\<close>

text \<open>What is read of the broker's close result: the profit, the exit level and the reason.\<close>

record close_info =
  ci_pnl :: "py_error + decimal"
  ci_exit :: "py_error + decimal"
  ci_reason :: "json \<times> json"

definition close_info_of :: "'w loop_env \<Rightarrow> json \<Rightarrow> close_info" where
  "close_info_of env result =
     \<lparr>ci_pnl = bindE (get result ''profit'') (\<lambda>x. if json_truthy x then decimal_of_json env x else Inr 0),
      ci_exit = decimal_at env result ''level'' ''closeLevel'',
      ci_reason = (case (get result ''reason'', get result ''exitReason'') of (Inr a, Inr b) \<Rightarrow> (a, b) | _ \<Rightarrow> (JNull, JNull))\<rparr>"

definition exit_reason :: "'w loop_env \<Rightarrow> close_info \<Rightarrow> string" where
  "exit_reason env ci =
     (let pick = (if json_truthy (fst (ci_reason ci)) then fst (ci_reason ci) else snd (ci_reason ci))
      in if json_truthy pick then str_json (ie_str (le_ig env)) pick else ''broker_close'')"

definition record_learning_outcome :: "'w loop_env \<Rightarrow> stored_trade \<Rightarrow> decimal \<Rightarrow> decimal \<Rightarrow> close_info \<Rightarrow> ('w, unit) loop" where
  "record_learning_outcome env trade pnl exit_price ci =
     (if le_mistakes env = None then returnC ()
      else
        let up = (st_direction trade \<in> {''LONG'', ''BUY''});
            realized_volatility = (if st_entry_price trade \<noteq> 0
              then d_quot (d_abs (d_sub exit_price (st_entry_price trade))) (d_abs (st_entry_price trade)) else 0);
            closed_trade = \<lparr>lt_trade = trade, lt_pnl = flt pnl, lt_exit_reason = exit_reason env ci,
              lt_entry_direction = (if up then ''up'' else ''down''), lt_exit_price = flt exit_price\<rparr>
        in outside (le_learn env closed_trade
             (if pnl < 0 then Some \<lparr>mo_actual_direction = (if up then ''down'' else ''up''),
                mo_volatility_realized = flt realized_volatility, mo_regime_actual = st_regime trade\<rparr> else None)))"

definition trade_to_close :: "'w loop_env \<Rightarrow> string \<Rightarrow> string \<Rightarrow> ('w, stored_trade option) loop" where
  "trade_to_close env deal_id epic =
     bindC (if deal_id \<noteq> [] then outside (le_trade_by_deal env deal_id) else returnC None) (\<lambda>t.
       case t of
         Some t \<Rightarrow> returnC (Some t)
       | None \<Rightarrow> bindC (outside (le_open_trades env epic)) (\<lambda>ts. returnC (case ts of t # _ \<Rightarrow> Some t | [] \<Rightarrow> None)))"

definition position_to_close :: "'w loop_env \<Rightarrow> string \<Rightarrow> string \<Rightarrow> ('w, stored_position option) loop" where
  "position_to_close env deal_id epic =
     bindC (if deal_id \<noteq> [] then outside (le_position_by_deal env deal_id) else returnC None) (\<lambda>p.
       case p of
         Some p \<Rightarrow> returnC (Some p)
       | None \<Rightarrow> bindC (outside (le_open_positions env)) (\<lambda>ps. returnC (find (\<lambda>p. sp_instrument p = epic) ps)))"

definition persist_closed_trade :: "'w loop_env \<Rightarrow> string \<Rightarrow> string \<Rightarrow> close_info \<Rightarrow> ('w, unit) loop" where
  "persist_closed_trade env deal_id epic ci =
     catchC
       (bindC (readC (\<lambda>l. map_of (tl_deal_records l) deal_id)) (\<lambda>r.
        bindC (pureC (ci_pnl ci)) (\<lambda>pnl.
        bindC (pureC (ci_exit ci)) (\<lambda>exit_raw.
        bindC (case r of None \<Rightarrow> trade_to_close env deal_id epic | Some (trade_id, _) \<Rightarrow> outside (le_trade env trade_id)) (\<lambda>trade.
        bindC (case r of None \<Rightarrow> position_to_close env deal_id epic | Some (_, position_id) \<Rightarrow> outside (le_position env position_id)) (\<lambda>position.
        bindC (case trade of
                 None \<Rightarrow> returnC ()
               | Some t \<Rightarrow> outside (le_close_trade env (st_id t) (if exit_raw = 0 then st_entry_price t else exit_raw) pnl)) (\<lambda>_.
        bindC (case position of None \<Rightarrow> returnC () | Some p \<Rightarrow> outside (le_close_position env (sp_id p))) (\<lambda>_.
        bindC (case trade of
                 None \<Rightarrow> returnC ()
               | Some t \<Rightarrow> record_learning_outcome env t pnl (if exit_raw = 0 then st_entry_price t else exit_raw) ci) (\<lambda>_.
          if deal_id \<noteq> []
          then updC (\<lambda>l. l\<lparr>tl_deal_records := AList.delete deal_id (tl_deal_records l), tl_positions := AList.delete deal_id (tl_positions l)\<rparr>)
          else returnC ())))))))))
       (\<lambda>e. updC (\<lambda>l. l\<lparr>tl_last_error := FMsg ''Trade close persistence failed: {}'' [FExc e]\<rparr>))"

definition level_decimal :: "'w loop_env \<Rightarrow> json \<Rightarrow> py_error + decimal option" where
  "level_decimal env v = (if v = JNull then Inr None else bindE (decimal_of_json env v) (\<lambda>d. Inr (Some d)))"

definition persist_open_trade ::
  "'w loop_env \<Rightarrow> loop_signal \<Rightarrow> string \<Rightarrow> json \<Rightarrow> json \<Rightarrow> json \<Rightarrow> json \<Rightarrow> ('w, unit) loop" where
  "persist_open_trade env g deal_id deal_reference entry_level stop_level limit_level =
     catchC
       (bindC (pureC (if json_truthy entry_level then decimal_of_json env entry_level else Inr (dec_of_float (ls_current_price g)))) (\<lambda>entry_price.
        bindC (pureC (level_decimal env stop_level)) (\<lambda>stop_loss.
        bindC (pureC (level_decimal env limit_level)) (\<lambda>take_profit.
        bindC (readC (wall_now env)) (\<lambda>now.
        bindC (outside (le_db_open env
                \<lparr>ot_instrument = ls_epic g, ot_long = (ls_direction g = ''BUY''),
                 ot_size = dec_of_float (case ls_size g of Some x \<Rightarrow> x | None \<Rightarrow> TRADE_SIZE), ot_entry_price = entry_price,
                 ot_deal_id = deal_id, ot_deal_reference = deal_reference, ot_strategy = ls_strategy_name g, ot_opened_at = now,
                 ot_confidence = ls_confidence g, ot_regime = (case ls_regime g of Some r \<Rightarrow> r | None \<Rightarrow> ''unknown''),
                 ot_indicators = learning_indicators g, ot_rr_ratio = ls_rr_ratio g,
                 ot_stop_loss = stop_loss, ot_take_profit = take_profit\<rparr>)) (\<lambda>ids.
          if deal_id \<noteq> [] then updC (\<lambda>l. l\<lparr>tl_deal_records := AList.update deal_id ids (tl_deal_records l)\<rparr>)
          else returnC ()))))))
       (\<lambda>e. updC (\<lambda>l. l\<lparr>tl_last_error := FMsg ''Trade persistence failed: {}'' [FExc e]\<rparr>))"

section \<open>Execution\<close>

definition execution_blocked :: "'w trading_loop \<Rightarrow> py_error option" where
  "execution_blocked l =
     (if tl_account_type l = ''LIVE'' \<and> \<not> tl_live_approved l
      then Some (RuntimeError ''Live execution is blocked: strategy is not approved'')
      else if tl_account_type l = ''LIVE'' \<and> tl_mode l = ''LEGACY_SMA''
      then Some (RuntimeError ''Legacy SMA is never authorized for live execution'')
      else if tl_account_type l = ''DEMO'' \<and> tl_mode l \<in> {''PROFESSIONAL'', ''GUARDED_AUTO''} \<and> \<not> tl_demo_approved l
      then Some (RuntimeError ''Demo execution is blocked: strategy is not approved for forward test'')
      else None)"

text \<open>The counters of an accepted order.\<close>

definition count_trade :: "'w loop_env \<Rightarrow> string \<Rightarrow> 'w trading_loop \<Rightarrow> 'w trading_loop" where
  "count_trade env epic l =
     (let l1 = reset_daily_trade_counter_if_needed env (l\<lparr>tl_trades_executed := tl_trades_executed l + 1\<rparr>)
      in l1\<lparr>tl_daily_count := tl_daily_count l1 + 1, tl_last_trade_time := AList.update epic (wall_time env l1) (tl_last_trade_time l1)\<rparr>)"

text \<open>A level of the broker, or the one at a distance from the price.\<close>

definition level_or :: "json \<Rightarrow> pyfloat \<Rightarrow> json" where
  "level_or given level = (if json_truthy given then given else JNum (f_round 5 level))"

text \<open>What follows an acceptance once it is counted.\<close>

definition record_acceptance :: "'w loop_env \<Rightarrow> loop_signal \<Rightarrow> json \<Rightarrow> ('w, unit) loop" where
  "record_acceptance env g result =
     bindC (pureC (get_or result ''dealId'' (JStr []))) (\<lambda>deal.
     bindC (pureC (get result ''level'')) (\<lambda>entry_lvl.
     bindC (pureC (get result ''stopLevel'')) (\<lambda>sl.
     bindC (pureC (get result ''limitLevel'')) (\<lambda>tp.
     let buy = (ls_direction g = ''BUY''); deal_id = str_json (ie_str (le_ig env)) deal
     in bindC (record_trade_event env ''trade_opened''
                [(''epic'', dtext (ls_epic g)), (''direction'', dtext (ls_direction g)), (''deal_id'', DJson deal), (''entry_level'', DJson entry_lvl),
                 (''confidence'', dnum (of_int (ls_confidence g))), (''reason'', dtext ''ig_order_accepted'')]) (\<lambda>_.
        if json_truthy deal \<and> json_truthy entry_lvl then
          bindC (pureC (float_of_json (ie_parse_float (le_ig env)) entry_lvl)) (\<lambda>price.
          let stop = ls_stop_distance g; limit = ls_limit_distance g;
              sl_level = level_or sl (if buy then f_sub price stop else f_add price stop);
              tp_level = level_or tp (if buy then f_add price limit else f_sub price limit);
              tp1_distance = (case ls_tp1_distance g of Some x \<Rightarrow> if x \<noteq> 0 then x else stop | None \<Rightarrow> stop)
          in bindC (if ls_strategy_name g = ''professional_ict''
                    then updC (\<lambda>l. l\<lparr>tl_positions := AList.update deal_id
                           \<lparr>pp_direction = ls_direction g, pp_entry_level = price,
                            pp_tp1_level = (if buy then f_add price tp1_distance else f_sub price tp1_distance),
                            pp_final_target_level = tp_level,
                            pp_partial_close_fraction = (case ls_partial_close_fraction g of Some x \<Rightarrow> x | None \<Rightarrow> 1/2),
                            pp_size = (case ls_size g of Some x \<Rightarrow> x | None \<Rightarrow> TRADE_SIZE), pp_partial_taken = False,
                            pp_trailing_enabled = ls_trailing_enabled g\<rparr> (tl_positions l)\<rparr>)
                    else returnC ()) (\<lambda>_.
             bindC (pureC (get result ''dealReference'')) (\<lambda>ref.
               persist_open_trade env g deal_id ref entry_lvl sl_level tp_level)))
        else
          bindC (updC (\<lambda>l. l\<lparr>tl_last_error := FMsg ''Accepted trade missing deal_id or entry level'' []\<rparr>)) (\<lambda>_.
          bindC (record_trade_event env ''sltp_failed''
                   [(''epic'', dtext (ls_epic g)), (''direction'', dtext (ls_direction g)), (''deal_id'', DJson deal),
                    (''reason'', dtext ''accepted_trade_missing_deal_id_or_entry_level'')]) (\<lambda>_.
          bindC (activate_kill_switch env (FMsg ''Accepted trade missing deal ID or entry level'' [])) (\<lambda>_. returnC ()))))))))"

definition after_acceptance :: "'w loop_env \<Rightarrow> loop_signal \<Rightarrow> json \<Rightarrow> ('w, unit) loop" where
  "after_acceptance env g result =
     bindC (updC (count_trade env (ls_epic g))) (\<lambda>_. record_acceptance env g result)"

definition submit_order :: "'w loop_env \<Rightarrow> loop_signal \<Rightarrow> ('w, json) loop" where
  "submit_order env g =
     bindC (readC execution_blocked) (\<lambda>b.
     case b of
       Some e \<Rightarrow> raiseC e
     | None \<Rightarrow>
         bindC (broker (issue_opening_order_permit (le_ig env))) (\<lambda>permit.
         broker (place_order (le_ig env) (ls_epic g) (ls_direction g) (case ls_size g of Some x \<Rightarrow> x | None \<Rightarrow> TRADE_SIZE)
                   (Some (ls_stop_distance g)) (Some (ls_limit_distance g)) False (Some permit))))"

definition execute_signal :: "'w loop_env \<Rightarrow> loop_signal \<Rightarrow> ('w, unit) loop" where
  "execute_signal env g =
     catchC
       (bindC (submit_order env g) (\<lambda>result.
        bindC (pureC (get_or result ''dealStatus'' (JStr ''unknown''))) (\<lambda>status.
          if status = JStr ''ACCEPTED'' then after_acceptance env g result
          else
            bindC reject (\<lambda>_.
            bindC (pureC (get result ''reason'')) (\<lambda>reason.
              record_trade_event env ''trade_rejected''
                [(''epic'', dtext (ls_epic g)), (''direction'', dtext (ls_direction g)), (''status'', DJson status), (''reason'', DJson reason)])))))
       (\<lambda>e. bindC reject (\<lambda>_. record_trade_event env ''trade_error''
              [(''epic'', dtext (ls_epic g)), (''direction'', dtext (ls_direction g)), (''reason'', DMsg (FMsg ''{}'' [FExc e]))]))"

section \<open>Managing open positions\<close>

definition add_pnl :: "pyfloat \<Rightarrow> 'w trading_loop \<Rightarrow> 'w trading_loop" where
  "add_pnl x l = l\<lparr>tl_total_pnl := f_add (tl_total_pnl l) x, tl_daily_pnl := f_add (tl_daily_pnl l) x\<rparr>"

definition opposite :: "json \<Rightarrow> string" where
  "opposite direction = (if direction = JStr ''BUY'' then ''SELL'' else ''BUY'')"

text \<open>\<open>_close_position\<close>: whether the broker reports the closing as accepted.\<close>

definition close_loop_position :: "'w loop_env \<Rightarrow> json \<Rightarrow> string \<Rightarrow> ('w, bool) loop" where
  "close_loop_position env pos epic =
     catchC
       (bindC (pureC (position_data pos)) (\<lambda>pos_data.
        bindC (pureC (get pos_data ''dealId'')) (\<lambda>a.
        bindC (pureC (first_truthy a (get_or pos_data ''deal_id'' (JStr [])))) (\<lambda>deal.
        bindC (pureC (get_or pos_data ''direction'' (JStr ''BUY''))) (\<lambda>direction.
        bindC (pureC (size_of env pos_data TRADE_SIZE)) (\<lambda>lots.
        let deal_id = str_json (ie_str (le_ig env)) deal
        in bindC (broker (close_position (le_ig env) deal_id (opposite direction) lots)) (\<lambda>result.
           bindC (pureC (get_or result ''dealStatus'' (JStr ''unknown''))) (\<lambda>status.
           bindC (pureC (get result ''profit'')) (\<lambda>p.
           bindC (if json_truthy p
                  then (case float_of_json (ie_parse_float (le_ig env)) p of
                          Inr x \<Rightarrow> updC (add_pnl x)
                        | Inl e \<Rightarrow> if is_type_or_value_error e then returnC () else raiseC e)
                  else returnC ()) (\<lambda>_.
           bindC (updC (\<lambda>l. l\<lparr>tl_trades_closed := tl_trades_closed l + 1\<rparr>)) (\<lambda>_.
           bindC (persist_closed_trade env deal_id epic (close_info_of env result)) (\<lambda>_.
           bindC (pureC (get result ''reason'')) (\<lambda>reason.
           bindC (record_trade_event env ''trade_closed''
                    [(''epic'', dtext epic), (''deal_id'', DJson deal), (''status'', DJson status),
                     (''pnl'', if json_truthy p then DJson p else dnum 0), (''reason'', DJson reason)]) (\<lambda>_.
             returnC (status = JStr ''ACCEPTED'')))))))))))))))
       (\<lambda>_. returnC False)"

definition mark_partial_taken :: "string \<Rightarrow> 'w trading_loop \<Rightarrow> 'w trading_loop" where
  "mark_partial_taken deal_id l =
     (case map_of (tl_positions l) deal_id of
        Some m \<Rightarrow> l\<lparr>tl_positions := AList.update deal_id (m\<lparr>pp_partial_taken := True\<rparr>) (tl_positions l)\<rparr>
      | None \<Rightarrow> l)"

text \<open>Taking half at the first target: the broker closes a part, then the stop moves to the entry.\<close>

definition take_partial ::
  "'w loop_env \<Rightarrow> string \<Rightarrow> string \<Rightarrow> json \<Rightarrow> json \<Rightarrow> professional_position \<Rightarrow> ('w, unit) loop" where
  "take_partial env epic deal_id pos_data direction m =
     bindC (pureC (size_of env pos_data (pp_size m))) (\<lambda>total_size.
     let close_size = f_round 2 (f_mul total_size (pp_partial_close_fraction m))
     in if close_size < flt (1/100) \<or> f_sub total_size close_size < flt (1/100)
        then bindC (record_trade_event env ''partial_tp_skipped''
                      [(''epic'', dtext epic), (''deal_id'', dtext deal_id), (''reason'', dtext ''position_too_small_for_partial_close'')]) (\<lambda>_.
             updC (mark_partial_taken deal_id))
        else
          bindC (broker (close_position (le_ig env) deal_id (opposite direction) close_size)) (\<lambda>result.
          bindC (pureC (get result ''dealStatus'')) (\<lambda>status.
            if status \<noteq> JStr ''ACCEPTED''
            then bindC (pureC (get result ''reason'')) (\<lambda>reason.
                 record_trade_event env ''partial_tp_failed''
                   [(''epic'', dtext epic), (''deal_id'', dtext deal_id),
                    (''reason'', if json_truthy reason then DJson reason else dtext ''broker_rejected_partial_close'')])
            else
              bindC (pureC (float_of_json (ie_parse_float (le_ig env)) (pp_final_target_level m))) (\<lambda>final_target.
              bindC (broker (update_position_sl_tp (le_ig env) deal_id (Some (pp_entry_level m)) (Some final_target))) (\<lambda>_.
              bindC (updC (mark_partial_taken deal_id)) (\<lambda>_.
                record_trade_event env ''partial_tp_taken''
                  [(''epic'', dtext epic), (''deal_id'', dtext deal_id), (''close_size'', dnum close_size), (''tp1_level'', dnum (pp_tp1_level m)),
                   (''breakeven_stop'', dnum (pp_entry_level m)), (''remaining_target'', dnum final_target)]))))))"

definition manage_professional_position :: "'w loop_env \<Rightarrow> json \<Rightarrow> string \<Rightarrow> ('w, unit) loop" where
  "manage_professional_position env pos epic =
     bindC (pureC (position_data pos)) (\<lambda>pos_data.
     bindC (pureC (get pos_data ''dealId'')) (\<lambda>a.
     bindC (pureC (first_truthy a (get pos_data ''deal_id''))) (\<lambda>b.
     let deal_id = (if json_truthy b then str_json (ie_str (le_ig env)) b else [])
     in bindC (readC id) (\<lambda>l.
        case map_of (tl_positions l) deal_id of
          None \<Rightarrow> returnC ()
        | Some m \<Rightarrow>
            if deal_id = [] \<or> pp_partial_taken m then returnC ()
            else case map_of (tl_snapshots l) epic of
              None \<Rightarrow> returnC ()
            | Some snap \<Rightarrow>
                bindC (pureC (get pos_data ''direction'')) (\<lambda>d.
                let direction = JStr (if json_truthy d then str_json (ie_str (le_ig env)) d else pp_direction m);
                    reached = (if direction = JStr ''BUY'' then pp_tp1_level m \<le> sn_bid snap else sn_offer snap \<le> pp_tp1_level m)
                in if \<not> reached then returnC () else take_partial env epic deal_id pos_data direction m)))))"

section \<open>The account\<close>

definition deal_id_in :: "'w loop_env \<Rightarrow> json \<Rightarrow> py_error + string option" where
  "deal_id_in env pos =
     bindE (position_data pos) (\<lambda>p.
     bindE (get p ''dealId'') (\<lambda>a.
     bindE (first_truthy a (get p ''deal_id'')) (\<lambda>b.
       Inr (if json_truthy b then Some (str_json (ie_str (le_ig env)) b) else None))))"

fun live_ids :: "'w loop_env \<Rightarrow> json list \<Rightarrow> py_error + string list" where
  "live_ids env [] = Inr []"
| "live_ids env (p # ps) =
     bindE (deal_id_in env p) (\<lambda>d. bindE (live_ids env ps) (\<lambda>ds. Inr (case d of Some x \<Rightarrow> x # ds | None \<Rightarrow> ds)))"

definition has_id :: "stored_position \<Rightarrow> bool" where
  "has_id p = truthy_text (sp_deal_id p)"

text \<open>One pass over the stored positions: the counts, and the positions missing for the second time.\<close>

fun count_missing :: "string list \<Rightarrow> stored_position list \<Rightarrow> (string, int) dict \<Rightarrow> (string, int) dict \<times> stored_position list" where
  "count_missing live [] counts = (counts, [])"
| "count_missing live (p # ps) counts =
     (if \<not> has_id p then count_missing live ps counts
      else
        let deal_id = the (sp_deal_id p)
        in if deal_id \<in> set live then count_missing live ps (AList.delete deal_id counts)
           else
             let n = or_default (map_of counts deal_id) 0 + 1;
                 (counts', missing) = count_missing live ps (AList.update deal_id n counts)
             in (counts', if 2 \<le> n then p # missing else missing))"

definition known_counts :: "string list \<Rightarrow> stored_position list \<Rightarrow> (string, int) dict \<Rightarrow> (string, int) dict" where
  "known_counts live stored counts =
     filter (\<lambda>kv. fst kv \<notin> set live \<and> fst kv \<in> (the \<circ> sp_deal_id) ` set (filter has_id stored)) counts"

fun transactions_by_reference :: "'w loop_env \<Rightarrow> json list \<Rightarrow> py_error + (string, json) dict" where
  "transactions_by_reference env [] = Inr []"
| "transactions_by_reference env (t # ts) =
     bindE (get t ''reference'') (\<lambda>r. bindE (transactions_by_reference env ts) (\<lambda>d.
       Inr (if json_truthy r \<and> str_json (ie_str (le_ig env)) r \<notin> fst ` set d then (str_json (ie_str (le_ig env)) r, t) # d else d)))"

definition reconcile_position :: "'w loop_env \<Rightarrow> (string, json) dict \<Rightarrow> stored_position \<Rightarrow> ('w, unit) loop" where
  "reconcile_position env transactions p =
     (let deal_id = the (sp_deal_id p)
      in case map_of transactions deal_id of
           None \<Rightarrow> returnC ()
         | Some t \<Rightarrow>
             bindC (pureC (bindE (get t ''profitAndLoss'') (parse_ig_decimal (ie_str (le_ig env))))) (\<lambda>pnl.
             bindC (pureC (bindE (get t ''closeLevel'') (parse_ig_decimal (ie_str (le_ig env))))) (\<lambda>close_level.
             bindC (persist_closed_trade env deal_id (sp_instrument p)
                      \<lparr>ci_pnl = Inr pnl, ci_exit = Inr close_level, ci_reason = (JStr ''broker_managed_close'', JNull)\<rparr>) (\<lambda>_.
               updC (\<lambda>l. add_pnl (flt pnl) (l\<lparr>tl_trades_closed := tl_trades_closed l + 1,
                        tl_missing_counts := AList.delete deal_id (tl_missing_counts l)\<rparr>))))))"

fun reconcile_each :: "'w loop_env \<Rightarrow> (string, json) dict \<Rightarrow> stored_position list \<Rightarrow> ('w, unit) loop" where
  "reconcile_each env transactions [] = returnC ()"
| "reconcile_each env transactions (p # ps) =
     bindC (reconcile_position env transactions p) (\<lambda>_. reconcile_each env transactions ps)"

definition reconcile_broker_closed_positions :: "'w loop_env \<Rightarrow> json \<Rightarrow> ('w, unit) loop" where
  "reconcile_broker_closed_positions env live_positions =
     bindC (pureC (bindE (items_of live_positions) (live_ids env))) (\<lambda>live.
     bindC (outside (le_open_positions env)) (\<lambda>stored.
     bindC (readC (\<lambda>l. count_missing live stored (known_counts live stored (tl_missing_counts l)))) (\<lambda>(counts, missing).
     bindC (updC (\<lambda>l. l\<lparr>tl_missing_counts := counts\<rparr>)) (\<lambda>_.
       if missing = [] then returnC ()
       else
         bindC (broker (get_transaction_history (le_ig env) 86400 200)) (\<lambda>ts.
         bindC (pureC (bindE (items_of ts) (transactions_by_reference env))) (\<lambda>by_reference.
           reconcile_each env by_reference missing))))))"

definition equity_in :: "json \<Rightarrow> py_error + json" where
  "equity_in info =
     bindE (get_or info ''balance'' (JObj [])) (\<lambda>b.
     let balance = (if json_truthy b then b else JObj [])
     in bindE (get balance ''balance'') (\<lambda>x.
        bindE (first_truthy x (get balance ''equity'')) (\<lambda>y. first_truthy y (get balance ''available''))))"

definition update_account_state :: "'w loop_env \<Rightarrow> ('w, unit) loop" where
  "update_account_state env =
     bindC (readC (wall_time env)) (\<lambda>now.
     bindC (catchC
       (bindC (broker (get_positions (le_ig env))) (\<lambda>positions.
        bindC (updC (\<lambda>l. l\<lparr>tl_open_positions := positions\<rparr>)) (\<lambda>_.
          reconcile_broker_closed_positions env positions)))
       (\<lambda>_. returnC ())) (\<lambda>_.
     bindC (readC tl_last_account_refresh) (\<lambda>refreshed.
       if f_sub now refreshed < ACCOUNT_REFRESH_INTERVAL_SECONDS then returnC ()
       else
         bindC (updC (\<lambda>l. l\<lparr>tl_last_account_refresh := now\<rparr>)) (\<lambda>_.
         catchC
           (bindC (broker (get_account_info (le_ig env))) (\<lambda>info.
            bindC (pureC (equity_in info)) (\<lambda>equity.
              if json_truthy equity
              then bindC (pureC (decimal_of_json env equity)) (\<lambda>d. updC (\<lambda>l. l\<lparr>tl_equity := d\<rparr>))
              else returnC ())))
           (\<lambda>_. returnC ())))))"

section \<open>Analysis\<close>

definition rejected_analysis :: "'w loop_env \<Rightarrow> string \<Rightarrow> detail \<Rightarrow> ('w, loop_signal option) loop" where
  "rejected_analysis env epic reason =
     bindC (record_trade_event env ''signal_rejected'' [(''epic'', dtext epic), (''reason'', reason)]) (\<lambda>_. returnC None)"

definition analyze_professional :: "'w loop_env \<Rightarrow> string \<Rightarrow> ('w, loop_signal option) loop" where
  "analyze_professional env epic =
     bindC (readC id) (\<lambda>l.
     let candles = get_candles (tl_buffer l) epic False
     in if candles = [] then returnC None
        else case map_of (tl_snapshots l) epic of
          None \<Rightarrow>
            bindC (record_trade_event env ''strategy_skip'' [(''epic'', dtext epic), (''reason'', dtext ''no_recent_spread_snapshot'')])
              (\<lambda>_. returnC None)
        | Some snap \<Rightarrow>
            bindC (outside (le_professional env (case currency_pair_for_epic epic of Some p \<Rightarrow> p | None \<Rightarrow> epic) candles
                     \<bar>f_sub (sn_offer snap) (sn_bid snap)\<bar> (wall_now env l))) (\<lambda>d.
            bindC (record_trade_event env ''professional_strategy_decision''
                     ([(''epic'', dtext epic), (''direction'', dtext (pf_action d)), (''reason'', dtext (pf_reason d))] @ pf_log d)) (\<lambda>_.
              if pf_action d \<notin> {''BUY'', ''SELL''} then returnC None
              else
                bindC (pureC (f_div \<bar>f_sub (pf_target_price d) (pf_entry_price d)\<bar> (pf_risk_distance d))) (\<lambda>rr.
                  returnC (Some \<lparr>ls_epic = epic, ls_direction = pf_action d, ls_current_price = pf_entry_price d,
                     ls_stop_distance = \<bar>f_sub (pf_entry_price d) (pf_stop_price d)\<bar>,
                     ls_limit_distance = \<bar>f_sub (pf_target_price d) (pf_entry_price d)\<bar>, ls_atr = pf_atr d, ls_confidence = pf_confidence d,
                     ls_rr_ratio = rr, ls_risk_per_trade = pf_risk_per_trade d, ls_strategy_name = ''professional_ict'',
                     ls_sma_fast = None, ls_sma_slow = None, ls_trend_strength = None,
                     ls_tp1_distance = Some \<bar>f_sub (case pf_tp1_price d of Some x \<Rightarrow> if x \<noteq> 0 then x else pf_entry_price d | None \<Rightarrow> pf_entry_price d)
                                              (pf_entry_price d)\<bar>,
                     ls_regime = Some (py_lower (pf_trend_bias d)), ls_partial_close_fraction = Some (pf_partial_close_fraction d),
                     ls_trailing_enabled = pf_trailing_enabled d, ls_extra_confirmation = False, ls_size = None\<rparr>)))))"

definition analyze_instrument :: "'w loop_env \<Rightarrow> string \<Rightarrow> ('w, loop_signal option) loop" where
  "analyze_instrument env epic =
     bindC (readC id) (\<lambda>l.
     let candles = get_candles (tl_buffer l) epic False
     in if tl_mode l = ''LEGACY_SMA'' then
          if tl_account_type l = ''LIVE'' then rejected_analysis env epic (dtext ''legacy_sma_is_never_authorized_for_live'')
          else returnC (analyze_legacy_sma candles (wall_now env l mod 86400000000 div 3600000000) epic)
        else if tl_mode l = ''LIQUIDITY_SWEEP_1M'' then
          (case analyze_liquidity_sweep_1m candles (map_of (tl_snapshots l) epic) epic (tl_sweeps l) of
             (signal, sweeps, evs) \<Rightarrow>
               bindC (updC (\<lambda>l. l\<lparr>tl_sweeps := sweeps, tl_events := take 25 (rev (map (\<lambda>e. (wall_now env l, e)) evs) @ tl_events l)\<rparr>)) (\<lambda>_.
                 returnC signal))
        else if tl_mode l \<notin> {''PROFESSIONAL'', ''GUARDED_AUTO''}
        then rejected_analysis env epic (DMsg (FMsg ''unknown_strategy_mode:{}'' [FStr (tl_mode l)]))
        else if tl_account_type l = ''LIVE'' \<and> \<not> tl_live_approved l
        then rejected_analysis env epic (dtext ''professional_strategy_not_approved_for_live'')
        else if tl_account_type l = ''DEMO'' \<and> \<not> tl_demo_approved l
        then rejected_analysis env epic (dtext ''professional_strategy_not_approved_for_demo_forward_test'')
        else analyze_professional env epic)"

section \<open>The cycle\<close>

definition gate_rejected :: "'w loop_env \<Rightarrow> loop_signal \<Rightarrow> detail \<Rightarrow> fmsg \<Rightarrow> ('w, unit) loop" where
  "gate_rejected env g confidence reason = bindC reject (\<lambda>_. signal_rejected_event env g confidence reason)"

text \<open>Risk controls, news and execution; \<open>approve\<close> is what is recorded before the execution.\<close>

definition validate_and_execute :: "'w loop_env \<Rightarrow> loop_signal \<Rightarrow> (loop_signal \<Rightarrow> ('w, unit) loop) \<Rightarrow> ('w, unit) loop" where
  "validate_and_execute env g approve =
     bindC (apply_risk_controls env g) (\<lambda>v.
     case v of
       None \<Rightarrow> returnC ()
     | Some g1 \<Rightarrow>
         bindC (apply_news_safety env g1) (\<lambda>n.
         case n of
           None \<Rightarrow> returnC ()
         | Some g2 \<Rightarrow>
             bindC (updC (\<lambda>l. l\<lparr>tl_signals_generated := tl_signals_generated l + 1\<rparr>)) (\<lambda>_.
             bindC (approve g2) (\<lambda>_. execute_signal env g2))))"

definition enter :: "'w loop_env \<Rightarrow> loop_signal \<Rightarrow> ('w, unit) loop" where
  "enter env g =
     bindC (entry_gate_rejection_reason env g) (\<lambda>reason.
     case reason of
       Some r \<Rightarrow> gate_rejected env g (dnum (of_int (ls_confidence g))) r
     | None \<Rightarrow> validate_and_execute env g (\<lambda>v. record_trade_event env ''signal_approved''
         [(''epic'', dtext (ls_epic g)), (''direction'', dtext (ls_direction v)), (''confidence'', dnum (of_int (ls_confidence v))),
          (''reason'', dtext ''strategy_signal_passed_risk'')]))"

text \<open>The re-entry after a signal flip.\<close>

definition reenter :: "'w loop_env \<Rightarrow> loop_signal \<Rightarrow> ('w, unit) loop" where
  "reenter env g =
     bindC (entry_gate_rejection_reason env g) (\<lambda>reason.
     case reason of
       Some r \<Rightarrow> gate_rejected env g (DJson JNull) r
     | None \<Rightarrow> validate_and_execute env g (\<lambda>v. returnC ()))"

definition manage_open :: "'w loop_env \<Rightarrow> string \<Rightarrow> json \<Rightarrow> loop_signal option \<Rightarrow> ('w, unit) loop" where
  "manage_open env epic pos signal =
     bindC (pureC (position_data pos)) (\<lambda>pos_data.
     bindC (pureC (get_or pos_data ''direction'' (JStr []))) (\<lambda>pos_direction.
     bindC (manage_professional_position env pos epic) (\<lambda>_.
       case signal of
         None \<Rightarrow> returnC ()
       | Some g \<Rightarrow>
           if json_truthy pos_direction \<and> JStr (ls_direction g) \<noteq> pos_direction
           then bindC (close_loop_position env pos epic) (\<lambda>closed. if closed then reenter env g else returnC ())
           else returnC ())))"

text \<open>\<open>len(v)\<close>\<close>

definition json_len :: "json \<Rightarrow> py_error + int" where
  "json_len v = bindE (items_of v) (\<lambda>xs. Inr (int (length xs)))"

definition cycle_epic :: "'w loop_env \<Rightarrow> string \<Rightarrow> ('w, unit) loop" where
  "cycle_epic env epic =
     bindC (readC id) (\<lambda>l.
     if \<not> is_ready (tl_buffer l) epic MIN_CANDLES_FOR_STRATEGY then returnC ()
     else
       catchC
         (bindC (analyze_instrument env epic) (\<lambda>signal.
          bindC (get_open_position epic) (\<lambda>open_pos.
          case open_pos of
            Some pos \<Rightarrow> manage_open env epic pos signal
          | None \<Rightarrow>
              (case signal of
                 None \<Rightarrow> returnC ()
               | Some g \<Rightarrow>
                   bindC (readC tl_open_positions) (\<lambda>ps.
                   bindC (pureC (json_len ps)) (\<lambda>n.
                     if n < MAX_OPEN_POSITIONS then enter env g else returnC ()))))))
         (\<lambda>_. returnC ()))"

fun cycle_epics :: "'w loop_env \<Rightarrow> string list \<Rightarrow> ('w, unit) loop" where
  "cycle_epics env [] = returnC ()"
| "cycle_epics env (epic # epics) =
     bindC (readC tl_running) (\<lambda>running.
       if \<not> running then returnC ()
       else bindC (cycle_epic env epic) (\<lambda>_. cycle_epics env epics))"

text \<open>\<open>_connect_to_ig\<close>: a new client, whatever became of the old one.\<close>

definition connect_to_ig :: "'w loop_env \<Rightarrow> ('w, bool) loop" where
  "connect_to_ig env =
     (let se = le_settings env
      in if se_api_key se = [] \<or> se_api_key se = ''your_ig_api_key'' then returnC False
         else
           catchC
             (bindC (updC (\<lambda>l. l\<lparr>tl_has_client := True, tl_client := ig_client_init (se_api_key se) (se_username se) (se_password se)
                       (se_account_type se) (ic_clock (tl_client l)) (ic_world (tl_client l))\<rparr>)) (\<lambda>_.
              bindC (broker (start (le_ig env))) (\<lambda>_. returnC True)))
             (\<lambda>_. returnC False))"

definition trading_cycle :: "'w loop_env \<Rightarrow> ('w, unit) loop" where
  "trading_cycle env =
     bindC (readC id) (\<lambda>l.
     if \<not> tl_has_client l \<or> \<not> is_connected (tl_client l) then bindC (connect_to_ig env) (\<lambda>_. returnC ())
     else
       bindC (update_account_state env) (\<lambda>_.
       bindC (readC tl_open_positions) (\<lambda>ps.
       bindC (pureC (json_len ps)) (\<lambda>_.
       bindC (readC tl_instruments) (\<lambda>epics. cycle_epics env epics)))))"

section \<open>Snapshots\<close>

definition poll_epic :: "'w loop_env \<Rightarrow> string \<Rightarrow> ('w, unit) loop" where
  "poll_epic env epic =
     catchC
       (bindC (broker (get_market_details (le_ig env) epic)) (\<lambda>details.
        bindC (pureC (get_or details ''snapshot'' (JObj []))) (\<lambda>snap.
        bindC (pureC (get snap ''bid'')) (\<lambda>bid.
        bindC (pureC (get snap ''offer'')) (\<lambda>offer.
          if bid = JNull \<or> offer = JNull then returnC ()
          else
            bindC (pureC (float_of_json (ie_parse_float (le_ig env)) bid)) (\<lambda>b.
            bindC (pureC (float_of_json (ie_parse_float (le_ig env)) offer)) (\<lambda>a.
            bindC (pureC (get snap ''marketStatus'')) (\<lambda>status.
            bindC (updC (\<lambda>l. l\<lparr>tl_snapshots := AList.update epic
                     \<lparr>sn_bid = b, sn_offer = a, sn_market_status = status, sn_timestamp = wall_time env l\<rparr> (tl_snapshots l)\<rparr>)) (\<lambda>_.
            bindC (readC id) (\<lambda>l.
            bindC (pureC (on_tick epic (Price b) (Price a) (wall_time env l) (tl_buffer l))) (\<lambda>buffer.
              updC (\<lambda>l. l\<lparr>tl_buffer := buffer, tl_last_tick_time := wall_time env l\<rparr>))))))))))))
       (\<lambda>_. returnC ())"

fun poll_epics :: "'w loop_env \<Rightarrow> string list \<Rightarrow> ('w, unit) loop" where
  "poll_epics env [] = returnC ()"
| "poll_epics env (epic # epics) =
     bindC (readC tl_running) (\<lambda>running.
       if \<not> running then returnC ()
       else bindC (poll_epic env epic) (\<lambda>_. bindC (on_client (sleep (le_ig env) 3)) (\<lambda>_. poll_epics env epics)))"

definition poll_snapshots :: "'w loop_env \<Rightarrow> ('w, unit) loop" where
  "poll_snapshots env =
     bindC (readC id) (\<lambda>l.
       if \<not> tl_has_client l \<or> \<not> is_connected (tl_client l) then returnC () else poll_epics env (tl_instruments l))"

section \<open>Life cycle\<close>

definition start_loop :: "'w loop_env \<Rightarrow> 'w trading_loop \<Rightarrow> 'w trading_loop" where
  "start_loop env l =
     (if tl_running l then l
      else l\<lparr>tl_running := True, tl_connected := False, tl_last_tick_time := 0, tl_signals_generated := 0, tl_trades_executed := 0,
             tl_trades_rejected := 0, tl_trades_closed := 0, tl_total_pnl := 0, tl_errors := 0, tl_last_error := no_error,
             tl_start_time := wall_time env l\<rparr>)"

definition stop_loop :: "('w, unit) loop" where
  "stop_loop =
     bindC (updC (\<lambda>l. l\<lparr>tl_running := False\<rparr>)) (\<lambda>_.
     bindC (readC tl_has_client) (\<lambda>h.
     bindC (if h then bindC (tryC (broker stop)) (\<lambda>_. updC (\<lambda>l. l\<lparr>tl_has_client := False\<rparr>)) else returnC ()) (\<lambda>_.
       updC (\<lambda>l. l\<lparr>tl_connected := False\<rparr>))))"

text \<open>The beginning of \<open>_run_loop\<close>, and one turn of its loop with the sleep: whether it goes on.\<close>

definition begin_run :: "'w loop_env \<Rightarrow> ('w, bool) loop" where
  "begin_run env =
     bindC (connect_to_ig env) (\<lambda>ok.
       if ok then bindC (updC (\<lambda>l. l\<lparr>tl_connected := True\<rparr>)) (\<lambda>_. returnC True)
       else bindC (updC (\<lambda>l. l\<lparr>tl_running := False\<rparr>)) (\<lambda>_. returnC False))"

definition run_turn :: "'w loop_env \<Rightarrow> ('w, bool) loop" where
  "run_turn env =
     bindC (readC tl_running) (\<lambda>running.
     if \<not> running then returnC False
     else
       bindC (catchC (bindC (trading_cycle env) (\<lambda>_. returnC True))
         (\<lambda>e. bindC (updC (\<lambda>l. l\<lparr>tl_errors := tl_errors l + 1, tl_last_error := FMsg ''{}'' [FExc e]\<rparr>)) (\<lambda>_.
              bindC (readC tl_errors) (\<lambda>n.
                if 50 < n then bindC (updC (\<lambda>l. l\<lparr>tl_running := False\<rparr>)) (\<lambda>_. returnC False) else returnC True)))) (\<lambda>go.
       if go then bindC (readC tl_loop_interval) (\<lambda>d. bindC (on_client (sleep (le_ig env) d)) (\<lambda>_. returnC True)) else returnC False))"

text \<open>\<open>_execution_approval_status\<close>: enabled, and the reason.\<close>

definition execution_approval_status :: "'w trading_loop \<Rightarrow> bool \<times> string" where
  "execution_approval_status l =
     (if tl_account_type l = ''LIVE'' then
        (let ok = (tl_live_approved l \<and> tl_mode l \<noteq> ''LEGACY_SMA'')
         in (ok, if ok then ''approved_for_live'' else ''professional_strategy_not_approved_for_live''))
      else if tl_account_type l = ''DEMO'' \<and> tl_mode l \<in> {''PROFESSIONAL'', ''GUARDED_AUTO''} then
        (tl_demo_approved l, if tl_demo_approved l then ''approved_for_demo_forward_test''
                             else ''professional_strategy_not_approved_for_demo_forward_test'')
      else if tl_account_type l = ''DEMO'' \<and> tl_mode l = ''LIQUIDITY_SWEEP_1M'' then (True, ''approved_for_demo_liquidity_sweep_1m'')
      else (tl_account_type l = ''DEMO'', if tl_account_type l = ''DEMO'' then ''approved_for_demo_legacy_strategy'' else ''unknown_account_type''))"

section \<open>Properties of the loop's state\<close>

text \<open>What the outside does to the world, in every call the loop makes of it.\<close>

definition outside_steps :: "('w \<Rightarrow> 'w \<Rightarrow> bool) \<Rightarrow> 'w loop_env \<Rightarrow> bool" where
  "outside_steps R env \<longleftrightarrow>
     (\<forall>w. (\<forall>p cs sp now. R w (snd (le_professional env p cs sp now w))) \<and> (\<forall>layer s. le_news env = Some layer \<longrightarrow> R w (snd (layer s w))) \<and>
       (\<forall>t m. R w (snd (le_learn env t m w))) \<and> (\<forall>t. R w (snd (le_db_open env t w))) \<and> (\<forall>i. R w (snd (le_trade env i w))) \<and>
       (\<forall>i. R w (snd (le_position env i w))) \<and> (\<forall>i. R w (snd (le_trade_by_deal env i w))) \<and> (\<forall>i. R w (snd (le_position_by_deal env i w))) \<and>
       (\<forall>i. R w (snd (le_open_trades env i w))) \<and> R w (snd (le_open_positions env w)) \<and>
       (\<forall>i x y. R w (snd (le_close_trade env i x y w))) \<and> (\<forall>i. R w (snd (le_close_position env i w))))"

text \<open>A property of the client, the risk engine, the known positions, and the day with its counters.\<close>

definition view ::
  "('w ig_client \<Rightarrow> risk_engine option \<Rightarrow> json \<Rightarrow> int \<Rightarrow> int \<Rightarrow> int \<Rightarrow> bool) \<Rightarrow> 'w trading_loop \<Rightarrow> bool" where
  "view P l \<longleftrightarrow> P (tl_client l) (tl_risk l) (tl_open_positions l) (tl_day l) (tl_daily_count l) (tl_trades_executed l)"

lemma keeps_on_client:
  assumes "\<And>g ps d n x. keeps T (\<lambda>c. P c g ps d n x) m" shows "keeps T (view P) (on_client m)"
  unfolding keeps_def
proof (intro allI impI)
  fix l assume v: "view P l"
  have k: "T \<longrightarrow> returns m (tl_client l)"
    "wpC m (\<lambda>r c. P c (tl_risk l) (tl_open_positions l) (tl_day l) (tl_daily_count l) (tl_trades_executed l)) (tl_client l)"
    using assms v by (simp_all add: keeps_def view_def)
  then show "(T \<longrightarrow> returns (on_client m) l) \<and> wpC (on_client m) (\<lambda>r l'. view P l') l"
    by (auto simp: on_client_def returns_def wpC_def view_def split: option.splits)
qed

lemma keeps_on_broker: "(\<And>g ps d n x. keeps T (\<lambda>c. P c g ps d n x) m) \<Longrightarrow> keeps T (view P) (broker m)"
  unfolding broker_def by (intro keeps_intro keeps_on_client)

text \<open>\<open>runs T Q m l\<close>: from \<open>l\<close> the program ends, if at all, with \<open>Q\<close>, and it returns when \<open>T\<close> is set.\<close>

definition runs :: "bool \<Rightarrow> (py_error + 'a \<Rightarrow> 's \<Rightarrow> bool) \<Rightarrow> ('s, 'a) program \<Rightarrow> 's \<Rightarrow> bool" where
  "runs T Q m l \<longleftrightarrow> (T \<longrightarrow> returns m l) \<and> wpC m Q l"

lemma runs_keeps: "keeps T J m \<Longrightarrow> J l \<Longrightarrow> runs T (\<lambda>r. J) m l"
  by (simp add: keeps_def runs_def)

lemma keeps_runs: "(\<And>l. J l \<Longrightarrow> runs T (\<lambda>r. J) m l) \<Longrightarrow> keeps T J m"
  by (simp add: keeps_def runs_def)

lemma runs_mono: "runs T Q m l \<Longrightarrow> (\<And>r l'. Q r l' \<Longrightarrow> Q' r l') \<Longrightarrow> runs T Q' m l"
  unfolding runs_def by (blast intro: wpC_mono[of m Q l Q'])

lemma runs_bind:
  assumes "runs T (\<lambda>r l'. case r of Inl e \<Rightarrow> Q (Inl e) l' | Inr x \<Rightarrow> runs T Q (f x) l') m l"
  shows "runs T Q (bindC m f) l"
  using assms by (auto simp: runs_def returns_def wpC_def bindC_def split: option.splits sum.splits)

lemma runs_simps [simp]:
  "runs T Q (returnC v) l = Q (Inr v) l" "runs T Q (raiseC e) l = Q (Inl e) l" "runs T Q (pureC r) l = Q r l"
  "runs T Q (readC g) l = Q (Inr (g l)) l" "runs T Q'' (updC u) l = Q'' (Inr ()) (u l)"
  by (simp_all add: runs_def)

lemma runs_bind_simps [simp]:
  "runs T Q (bindC (readC g) f) l = runs T Q (f (g l)) l"
  "runs T Q (bindC (updC u) f') l = runs T Q (f' ()) (u l)"
  "runs T Q (bindC (pureC (Inr v)) f'') l = runs T Q (f'' v) l"
  "runs T Q (bindC (pureC (Inl e)) f'') l = Q (Inl e) l"
  by (simp_all add: runs_def returns_def wpC_def bindC_def readC_def updC_def pureC_def raiseC_def)

lemma runs_pure: "(\<And>e. r = Inl e \<Longrightarrow> Q (Inl e) l) \<Longrightarrow> (\<And>v. r = Inr v \<Longrightarrow> runs T Q (f v) l) \<Longrightarrow> runs T Q (bindC (pureC r) f) l"
  by (cases r) simp_all

lemma runs_catch:
  assumes "runs T (\<lambda>r l'. case r of Inl e \<Rightarrow> runs T Q (h e) l' | Inr x \<Rightarrow> Q (Inr x) l') m l"
  shows "runs T Q (catchC m h) l"
proof -
  have "runs T (\<lambda>r l'. case r of Inl e \<Rightarrow> Q (Inl e) l' | Inr x \<Rightarrow> runs T Q (case x of Inl e \<Rightarrow> h e | Inr x \<Rightarrow> returnC x) l') (tryC m) l"
    using assms by (auto simp: runs_def elim!: wpC_mono split: sum.splits)
  then show ?thesis unfolding catchC_def by (rule runs_bind)
qed

lemma runs_on_client:
  "runs T (\<lambda>r c. Q r (l\<lparr>tl_client := c\<rparr>)) m (tl_client l) \<Longrightarrow> runs T Q (on_client m) l"
  by (auto simp: runs_def returns_def wpC_def on_client_def split: option.splits)

text \<open>
  The contract of a property that everything but an execution keeps: the client's own operations
  that open nothing, calls of the outside, validations, and the change of the day.
\<close>

definition client_contract :: "'w ig_env \<Rightarrow> bool \<Rightarrow> ('w ig_client \<Rightarrow> bool) \<Rightarrow> bool" where
  "client_contract env T I \<longleftrightarrow> ig_invariant env T I"

locale loop_view =
  fixes env :: "'w loop_env" and T :: bool and R :: "'w \<Rightarrow> 'w \<Rightarrow> bool"
    and P :: "'w ig_client \<Rightarrow> risk_engine option \<Rightarrow> json \<Rightarrow> int \<Rightarrow> int \<Rightarrow> int \<Rightarrow> bool"
  assumes contract: "client_contract (le_ig env) T (\<lambda>c. P c g ps d n x)"
    and steps: "outside_steps R env"
    and world: "P c g ps d n x \<Longrightarrow> R (ic_world c) w \<Longrightarrow> P (c\<lparr>ic_world := w\<rparr>) g ps d n x"
    and validate: "P c (Some engine) ps d n x \<Longrightarrow> validate_signal s equity qs t1 t2 t3 engine = (r, engine', evs) \<Longrightarrow>
      P c (Some engine') ps d n x"
    and new_day: "P c g ps d n x \<Longrightarrow> d \<noteq> utc_date (le_now env (ic_world c) (ic_clock c)) \<Longrightarrow>
      P c g ps (utc_date (le_now env (ic_world c) (ic_clock c))) 0 x"
begin

lemma client: "ig_invariant (le_ig env) T (\<lambda>c. P c g ps d n x)"
  using contract by (simp add: client_contract_def)

lemma keeps_frame: "(\<And>l. view P (u l) = view P l) \<Longrightarrow> keeps T (view P) (updC u)"
  by (rule keeps_upd) simp

lemma keeps_outside:
  assumes "\<And>w. R w (snd (f w))" shows "keeps T (view P) (outside f)"
  unfolding outside_def
proof (rule keeps_on_client)
  fix g ps d n x
  show "keeps T (\<lambda>c. P c g ps d n x) (\<lambda>c. case f (ic_world c) of (r, w) \<Rightarrow> Some (r, c\<lparr>ic_world := w\<rparr>))"
    using world assms by (auto simp: keeps_def returns_def wpC_def split: prod.split) (metis snd_conv)
qed

lemmas client_keeps =
  ig_invariant.keeps_close[OF client] ig_invariant.keeps_scaling[OF client] ig_invariant.keeps_update_position[OF client]
  ig_invariant.keeps_market_details[OF client] ig_invariant.keep_sleep[OF client]

lemma outside_keeps [keeps_intro]:
  "keeps T (view P) (outside (le_professional env p cs sp now))" "keeps T (view P) (outside (le_learn env t m))"
  "keeps T (view P) (outside (le_db_open env ot))" "keeps T (view P) (outside (le_trade env i))"
  "keeps T (view P) (outside (le_position env i))" "keeps T (view P) (outside (le_trade_by_deal env i))"
  "keeps T (view P) (outside (le_position_by_deal env i))" "keeps T (view P) (outside (le_open_trades env i))"
  "keeps T (view P) (outside (le_open_positions env))" "keeps T (view P) (outside (le_close_trade env i u v))"
  "keeps T (view P) (outside (le_close_position env i))"
  using steps by (auto simp: outside_steps_def intro!: keeps_outside)

lemma keeps_news [keeps_intro]: "le_news env = Some layer \<Longrightarrow> keeps T (view P) (outside (layer s))"
  using steps by (auto simp: outside_steps_def intro!: keeps_outside)

lemma keeps_event [keeps_intro]: "keeps T (view P) (record_trade_event env name details)"
  unfolding record_trade_event_def by (rule keeps_frame) (simp add: view_def)

lemma keeps_reject [keeps_intro]: "keeps T (view P) reject"
  unfolding reject_def by (rule keeps_frame) (simp add: view_def)

lemma keeps_open_position [keeps_intro]: "keeps T (view P) (get_open_position epic)"
  unfolding get_open_position_def by (intro keeps_intro)

lemma keeps_reset [keeps_intro]: "keeps T (view P) (updC (reset_daily_trade_counter_if_needed env))"
  by (rule keeps_upd) (auto simp: reset_daily_trade_counter_if_needed_def view_def wall_now_def Let_def intro!: new_day)

lemma keeps_gate [keeps_intro]: "keeps T (view P) (entry_gate_rejection_reason env g)"
  unfolding entry_gate_rejection_reason_def has_correlated_currency_exposure_def Let_def by (intro keeps_intro)

lemma runs_validate:
  assumes "view P l" "tl_risk l = Some engine"
  shows "runs T (\<lambda>r. view P) (validate_with_engine env s engine) l"
proof -
  have v: "P (tl_client l) (Some engine) (tl_open_positions l) (tl_day l) (tl_daily_count l) (tl_trades_executed l)"
    using assms by (simp add: view_def)
  show ?thesis unfolding validate_with_engine_def
    using validate[OF v] by (auto intro!: runs_pure simp: v[folded assms(2)] view_def split: prod.split)
qed

lemma keeps_scaling_step:
  "keeps T (\<lambda>l. view P l \<and> tl_risk l = Some engine) (tryC (broker (get_scaling_factor (le_ig env) epic)))"
proof -
  have "keeps T (view (\<lambda>c g ps d n x. P c g ps d n x \<and> g = Some engine)) (broker (get_scaling_factor (le_ig env) epic))"
  proof (rule keeps_on_broker)
    fix g ps d n x
    have "keeps T (\<lambda>c. P c g ps d n x) (get_scaling_factor (le_ig env) epic)" by (rule client_keeps)
    then show "keeps T (\<lambda>c. P c g ps d n x \<and> g = Some engine) (get_scaling_factor (le_ig env) epic)"
      by (cases "g = Some engine") (simp_all add: keeps_def)
  qed
  then have "keeps T (view (\<lambda>c g ps d n x. P c g ps d n x \<and> g = Some engine)) (tryC (broker (get_scaling_factor (le_ig env) epic)))"
    by (intro keeps_intro)
  moreover have "view (\<lambda>c g ps d n x. P c g ps d n x \<and> g = Some engine) = (\<lambda>l. view P l \<and> tl_risk l = Some engine)"
    by (simp add: view_def fun_eq_iff)
  ultimately show ?thesis by simp
qed

lemma keeps_verdict: "keeps T (view P) (engine_verdict env g f result)"
proof -
  have frame: "keeps T (view P) (updC (\<lambda>l. l\<lparr>tl_last_risk_decision := d\<rparr>))" for d by (rule keeps_frame) (simp add: view_def)
  then show ?thesis unfolding engine_verdict_def signal_rejected_event_def Let_def by (intro keeps_intro)
qed

lemma runs_engine_approval:
  assumes l: "view P l" "tl_risk l = Some engine"
  shows "runs T (\<lambda>r. view P) (engine_approval env g f engine) l"
proof -
  let ?J = "\<lambda>l. view P l \<and> tl_risk l = Some engine"
  have scale: "keeps T ?J (if h then bindC (tryC (broker (get_scaling_factor (le_ig env) (ls_epic g)))) (\<lambda>r. returnC (case r of Inr x \<Rightarrow> dec_of_float x | Inl _ \<Rightarrow> 10000))
            else returnC 10000)" for h by (intro keeps_intro keeps_scaling_step)
  show ?thesis unfolding engine_approval_def
  proof (subst runs_bind_simps(1), rule runs_bind, rule runs_mono[OF runs_keeps[OF scale]])
    fix r :: "py_error + decimal" and l' assume J: "?J l'"
    show "case r of Inl e \<Rightarrow> view P l' | Inr scaling_factor \<Rightarrow> runs T (\<lambda>r. view P)
        (bindC (validate_with_engine env (risk_signal_of g (ls_confidence g) scaling_factor) engine) (engine_verdict env g f)) l'"
    proof (cases r)
      case (Inr f')
      show ?thesis unfolding Inr sum.case
        by (rule runs_bind, rule runs_mono[OF runs_validate])
          (use J in \<open>auto intro: runs_keeps[OF keeps_verdict] split: sum.split\<close>)
    qed (use J in simp)
  qed (use l in simp)
qed

lemma keeps_risk_controls [keeps_intro]: "keeps T (view P) (apply_risk_controls env g)"
proof -
  have frame: "keeps T (view P) (updC (\<lambda>l. l\<lparr>tl_last_risk_decision := d\<rparr>))" for d by (rule keeps_frame) (simp add: view_def)
  have failed: "keeps T (view P) (updC (\<lambda>l. l\<lparr>tl_trades_rejected := tl_trades_rejected l + 1, tl_errors := tl_errors l + 1, tl_last_error := m\<rparr>))" for m
    by (rule keeps_frame) (simp add: view_def)
  have engine: "keeps T (view P) (bindC (readC tl_risk) (\<lambda>engine. case engine of
        None \<Rightarrow> returnC (u :: loop_signal option)
      | Some engine \<Rightarrow> catchC (engine_approval env g' f engine) h))" if h: "\<And>e. keeps T (view P) (h e)" for u g' f h
  proof (rule keeps_runs)
    fix l assume l: "view P l"
    show "runs T (\<lambda>r. view P) (bindC (readC tl_risk) (\<lambda>engine. case engine of
        None \<Rightarrow> returnC u | Some engine \<Rightarrow> catchC (engine_approval env g' f engine) h)) l"
    proof (cases "tl_risk l")
      case None
      then show ?thesis using l by simp
    next
      case (Some engine)
      have "runs T (\<lambda>r l'. case r of Inl e \<Rightarrow> runs T (\<lambda>r. view P) (h e) l' | Inr x \<Rightarrow> view P l') (engine_approval env g' f engine) l"
        by (rule runs_mono[OF runs_engine_approval[OF l Some]]) (auto split: sum.split intro: runs_keeps[OF h])
      then show ?thesis by (simp add: Some runs_catch)
    qed
  qed
  show ?thesis unfolding apply_risk_controls_def Let_def signal_rejected_event_def
    by (intro keeps_intro frame failed engine)
qed

lemma keeps_apply_news [keeps_intro]: "keeps T (view P) (apply_news_safety env g)"
  unfolding apply_news_safety_def by (auto intro!: keeps_intro split: news_action.split)

lemma keeps_persist_closed [keeps_intro]: "keeps T (view P) (persist_closed_trade env d e ci)"
proof -
  have "keeps T (view P) (updC (\<lambda>l. l\<lparr>tl_deal_records := AList.delete d (tl_deal_records l), tl_positions := AList.delete d (tl_positions l)\<rparr>))"
    "keeps T (view P) (updC (\<lambda>l. l\<lparr>tl_last_error := m\<rparr>))" for m by (rule keeps_frame, simp add: view_def)+
  then show ?thesis
    unfolding persist_closed_trade_def trade_to_close_def position_to_close_def record_learning_outcome_def Let_def
    by (auto intro!: keeps_intro split: list.split)
qed

lemma keeps_close_loop [keeps_intro]: "keeps T (view P) (close_loop_position env pos epic)"
proof -
  have "keeps T (view P) (updC (add_pnl v))" "keeps T (view P) (updC (\<lambda>l. l\<lparr>tl_trades_closed := tl_trades_closed l + 1\<rparr>))" for v
    by (rule keeps_frame, simp add: view_def add_pnl_def)+
  then show ?thesis unfolding close_loop_position_def Let_def
    by (intro keeps_intro keeps_on_broker client_keeps)
qed

lemma keeps_mark: "keeps T (view P) (updC (mark_partial_taken d))"
  by (rule keeps_frame) (simp add: view_def mark_partial_taken_def split: option.split)

lemma keeps_manage_professional [keeps_intro]: "keeps T (view P) (manage_professional_position env pos epic)"
  unfolding manage_professional_position_def take_partial_def Let_def
  by (intro keeps_intro keeps_on_broker client_keeps keeps_mark)

end

text \<open>The same for a property that does not depend on the known positions, and that holds of a new client
  whenever it held of the old one: the whole cycle keeps it, if entering does.\<close>

locale loop_cycle = loop_view +
  assumes positions: "P c g ps d n x \<Longrightarrow> P c g ps' d n x"
    and connecting: "P c g ps d n x \<Longrightarrow>
      runs T (\<lambda>r c'. P c' g ps d n x) (start (le_ig env)) (ig_client_init k u pw acct (ic_clock c) (ic_world c))"
begin

lemma keeps_positions [keeps_intro]: "keeps T (view P) (updC (\<lambda>l. l\<lparr>tl_open_positions := f l\<rparr>))"
  by (rule keeps_upd) (auto simp: view_def intro: positions)

lemma keeps_reconcile_each: "keeps T (view P) (reconcile_each env by_reference ps)"
proof (induction ps)
  case (Cons p ps)
  have "keeps T (view P) (updC (\<lambda>l. add_pnl v (l\<lparr>tl_trades_closed := tl_trades_closed l + 1,
                        tl_missing_counts := AList.delete d (tl_missing_counts l)\<rparr>)))" for v d
    by (rule keeps_frame) (simp add: view_def add_pnl_def)
  then show ?case using Cons by (auto simp: reconcile_position_def Let_def intro!: keeps_intro)
qed (simp add: keeps_intro)

lemma keeps_history: "keeps T (\<lambda>c. P c g ps d n x) (get_transaction_history (le_ig env) a b)"
  by (auto simp: get_transaction_history_def plain_def intro!: keeps_intro ig_invariant.keeps_request_json[OF client])

lemma keeps_reconcile [keeps_intro]: "keeps T (view P) (reconcile_broker_closed_positions env live)"
proof -
  have "keeps T (view P) (updC (\<lambda>l. l\<lparr>tl_missing_counts := m\<rparr>))" for m by (rule keeps_frame) (simp add: view_def)
  then show ?thesis unfolding reconcile_broker_closed_positions_def
    by (intro keeps_intro keeps_reconcile_each keeps_on_broker keeps_history)
qed

lemma keeps_account [keeps_intro]: "keeps T (view P) (update_account_state env)"
proof -
  have "keeps T (view P) (updC (\<lambda>l. l\<lparr>tl_last_account_refresh := t\<rparr>))" "keeps T (view P) (updC (\<lambda>l. l\<lparr>tl_equity := e\<rparr>))" for t e
    by (rule keeps_frame, simp add: view_def)+
  moreover have "keeps T (\<lambda>c. P c g ps d n x) (get_positions (le_ig env))" "keeps T (\<lambda>c. P c g ps d n x) (get_account_info (le_ig env))" for g ps d n x
    by (auto simp: get_positions_def get_account_info_def plain_def intro!: keeps_intro ig_invariant.keeps_request_json[OF client])
  ultimately show ?thesis unfolding update_account_state_def by (intro keeps_intro keeps_on_broker)
qed

lemma keeps_analyze [keeps_intro]: "keeps T (view P) (analyze_instrument env epic)"
proof -
  have "keeps T (view P) (updC (\<lambda>l. l\<lparr>tl_sweeps := sw, tl_events := f l\<rparr>))" for sw f by (rule keeps_frame) (simp add: view_def)
  then show ?thesis unfolding analyze_instrument_def analyze_professional_def rejected_analysis_def Let_def
    by (intro keeps_intro)
qed

lemma keeps_connect [keeps_intro]: "keeps T (view P) (connect_to_ig env)"
proof -
  let ?new = "\<lambda>l k u pw acct. l\<lparr>tl_has_client := True, tl_client := ig_client_init k u pw acct (ic_clock (tl_client l)) (ic_world (tl_client l))\<rparr>"
  have "runs T (\<lambda>r. view P) (broker (start (le_ig env))) (?new l k u pw acct)" if "view P l" for l k u pw acct
  proof -
    have "runs T (\<lambda>r. view P) (on_client (start (le_ig env))) (?new l k u pw acct)"
      by (rule runs_on_client) (use connecting that in \<open>simp add: view_def\<close>)
    then show ?thesis by (simp add: broker_def)
  qed
  note start = this
  have "keeps T (view P) (bindC (updC (\<lambda>l. ?new l k u pw acct)) (\<lambda>_. bindC (broker (start (le_ig env))) (\<lambda>_. returnC True)))" for k u pw acct
    by (rule keeps_runs, subst runs_bind_simps(2), rule runs_bind, rule runs_mono[OF start]) (auto split: sum.split)
  then show ?thesis unfolding connect_to_ig_def Let_def by (intro keeps_branch keeps_catch keeps_basic)
qed

lemma keeps_manage_open:
  "(\<And>g. keeps T (view P) (reenter env g)) \<Longrightarrow> keeps T (view P) (manage_open env epic pos signal)"
  unfolding manage_open_def by (intro keeps_intro)

lemma keeps_cycle:
  assumes enter: "\<And>g. keeps T (view P) (enter env g)" and reenter: "\<And>g. keeps T (view P) (reenter env g)"
  shows "keeps T (view P) (trading_cycle env)"
proof -
  have epic: "keeps T (view P) (cycle_epic env epic)" for epic
    unfolding cycle_epic_def by (intro keeps_intro enter keeps_manage_open reenter)
  have "keeps T (view P) (cycle_epics env epics)" for epics
  proof (induction epics)
    case (Cons e epics)
    then show ?case unfolding cycle_epics.simps by (intro keeps_intro epic)
  qed (simp add: keeps_intro)
  then show ?thesis unfolding trading_cycle_def by (intro keeps_intro)
qed

lemma keeps_poll: "keeps T (view P) (poll_snapshots env)"
proof -
  have upd: "keeps T (view P) (updC (\<lambda>l. l\<lparr>tl_snapshots := f l\<rparr>))"
    "keeps T (view P) (updC (\<lambda>l. l\<lparr>tl_buffer := b, tl_last_tick_time := h l\<rparr>))" for f b h
    by (rule keeps_frame, simp add: view_def)+
  have "keeps T (view P) (poll_epics env epics)" for epics
  proof (induction epics)
    case (Cons e epics)
    then show ?case unfolding poll_epics.simps poll_epic_def
      by (intro keeps_intro upd keeps_on_broker keeps_on_client client_keeps)
  qed (simp add: keeps_intro)
  then show ?thesis unfolding poll_snapshots_def by (intro keeps_intro)
qed

end

text \<open>One that placing an order keeps as well, and one that counting it keeps: every operation does.\<close>

locale loop_execution = loop_cycle +
  assumes placing: "keeps T (\<lambda>c. P c g ps d n x) (place_order (le_ig env) epic dir lots st li hft p)"
    and permit: "keeps T (\<lambda>c. P c g ps d n x) (issue_opening_order_permit (le_ig env))"
    and switched: "P c g ps d n x \<Longrightarrow> P c (Some engine) ps d n x"
begin

lemma keeps_activate [keeps_intro]: "keeps T (view P) (activate_kill_switch env reason)"
proof -
  have "keeps T (view P) (updC (\<lambda>l. l\<lparr>tl_risk := Some engine\<rparr>))" for engine
    by (rule keeps_upd) (auto simp: view_def intro: switched)
  then show ?thesis unfolding activate_kill_switch_def by (auto intro!: keeps_intro split: option.split prod.split)
qed

lemma keeps_persist_open [keeps_intro]: "keeps T (view P) (persist_open_trade env g d r e sl tp)"
proof -
  have "keeps T (view P) (updC (\<lambda>l. l\<lparr>tl_deal_records := f l\<rparr>))" "keeps T (view P) (updC (\<lambda>l. l\<lparr>tl_last_error := m\<rparr>))" for f m
    by (rule keeps_frame, simp add: view_def)+
  then show ?thesis unfolding persist_open_trade_def by (intro keeps_intro)
qed

lemma keeps_record_acceptance: "keeps T (view P) (record_acceptance env g result)"
proof -
  have upd: "keeps T (view P) (updC (\<lambda>l. l\<lparr>tl_last_error := m\<rparr>))" "keeps T (view P) (updC (\<lambda>l. l\<lparr>tl_positions := f l\<rparr>))" for m f
    by (rule keeps_frame, simp add: view_def)+
  show ?thesis unfolding record_acceptance_def Let_def by (intro keeps_intro upd)
qed

lemma keeps_submit: "keeps T (view P) (submit_order env g)"
  unfolding submit_order_def by (intro keeps_intro keeps_on_broker placing permit)

end

locale loop_counting = loop_execution +
  assumes counted: "view P l \<Longrightarrow> view P (count_trade env epic l)"
begin

lemma keeps_execute [keeps_intro]: "keeps T (view P) (execute_signal env g)"
proof -
  have "keeps T (view P) (updC (count_trade env (ls_epic g)))" by (intro keeps_upd counted)
  then show ?thesis unfolding execute_signal_def after_acceptance_def
    by (intro keeps_intro keeps_submit keeps_record_acceptance)
qed

lemma keeps_validate_and_execute: "(\<And>v. keeps T (view P) (approve v)) \<Longrightarrow> keeps T (view P) (validate_and_execute env g approve)"
proof -
  have "keeps T (view P) (updC (\<lambda>l. l\<lparr>tl_signals_generated := tl_signals_generated l + 1\<rparr>))" by (rule keeps_frame) (simp add: view_def)
  then show "(\<And>v. keeps T (view P) (approve v)) \<Longrightarrow> keeps T (view P) (validate_and_execute env g approve)"
    unfolding validate_and_execute_def by (intro keeps_intro)
qed

lemma keeps_whole_cycle: "keeps T (view P) (trading_cycle env)"
  by (rule keeps_cycle; unfold enter_def reenter_def gate_rejected_def signal_rejected_event_def)
    (intro keeps_intro keeps_validate_and_execute)+

end

section \<open>The cycle returns\<close>

lemma limit_issue: "keeps T (\<lambda>c. limit_ok c) (issue_opening_order_permit env)"
  by (auto simp: keeps_def returns_def wpC_def issue_opening_order_permit_def limit_ok_def Let_def split: prod.split)

text \<open>Logging in never sets the limit; a start that fails stops the client.\<close>

definition unlimited :: "'w ig_client \<Rightarrow> bool" where
  "unlimited c \<longleftrightarrow> \<not> ic_rate_limited c"

lemma unlimited_login: "keeps True unlimited (login env)"
proof -
  have r: "unlimited c \<Longrightarrow> unlimited (resume_after_rate_limit c)" for c :: "'a ig_client"
    by (auto simp: unlimited_def resume_after_rate_limit_def split: option.split)
  have h: "keeps True unlimited (http env rq)" for rq by (rule keeps_http, rule r) (simp add: unlimited_def)
  have z: "keeps True unlimited (sleep env d)" for d
    unfolding sleep_def by (rule keeps_upd, rule r) (simp add: unlimited_def)
  have u: "unlimited c \<Longrightarrow> unlimited (c\<lparr>ic_cst := a, ic_security_token := b\<rparr>)" for c :: "'a ig_client" and a b
    by (simp add: unlimited_def)
  have "keeps True unlimited (login_loop env n k)" for n k
    by (induction k arbitrary: n) (auto simp: login_attempt_def intro!: keeps_intro h z keeps_upd u)
  then show ?thesis by (simp add: login_def)
qed

lemma limit_start:
  assumes "unlimited c" shows "runs True (\<lambda>r. limit_ok) (start env) c"
proof -
  have c: "unlimited (c\<lparr>ic_has_client := True, ic_running := True\<rparr>)" using assms by (simp add: unlimited_def)
  have u: "keeps True limit_ok (updC (\<lambda>c. c\<lparr>ic_heartbeat := True\<rparr>))" "keeps True limit_ok (updC (\<lambda>c. c\<lparr>ic_account_currency := cur\<rparr>))" for cur
    by (rule keeps_upd, simp add: limit_ok_def)+
  have ok: "keeps True limit_ok (bindC (updC (\<lambda>c. c\<lparr>ic_heartbeat := True\<rparr>)) (\<lambda>_.
           catchC (bindC (get_account_currency env) (\<lambda>s. updC (\<lambda>c. c\<lparr>ic_account_currency := Some s\<rparr>)))
             (\<lambda>_. updC (\<lambda>c. c\<lparr>ic_account_currency := Some ''AUD''\<rparr>))))"
    by (intro keeps_intro u limit.keeps_account_currency)
  show ?thesis unfolding start_def runs_bind_simps
  proof (rule runs_bind, rule runs_mono[OF runs_keeps[OF unlimited_login c]])
    fix r :: "py_error + bool" and c1 :: "'a ig_client" assume u1: "unlimited c1"
    then have "limit_ok c1" by (simp add: unlimited_def limit_ok_def)
    moreover have "runs True (\<lambda>r. limit_ok) (bindC stop (\<lambda>_. bindC (readC ic_account_type) (\<lambda>t. raiseC (e t)))) c1"
      for e :: "string \<Rightarrow> py_error"
      using u1 by (simp add: stop_def limit_ok_def unlimited_def)
    ultimately show "case r of Inl e \<Rightarrow> limit_ok c1
      | Inr authenticated \<Rightarrow> runs True (\<lambda>r. limit_ok)
          (if \<not> authenticated
           then bindC stop (\<lambda>_. bindC (readC ic_account_type) (\<lambda>t.
                  raiseC (IGAuthenticationError (FMsg ''Failed to authenticate with IG API after retries'' [FStr t]))))
           else bindC (updC (\<lambda>c. c\<lparr>ic_heartbeat := True\<rparr>)) (\<lambda>_.
                  catchC (bindC (get_account_currency env) (\<lambda>s. updC (\<lambda>c. c\<lparr>ic_account_currency := Some s\<rparr>)))
                    (\<lambda>_. updC (\<lambda>c. c\<lparr>ic_account_currency := Some ''AUD''\<rparr>)))) c1"
      using runs_keeps[OF ok] by (cases r) auto
  qed
qed

interpretation live: loop_counting env True "\<lambda>_ _. True" "\<lambda>c g ps d n x. limit_ok c" for env
proof
  show "client_contract (le_ig env) True (\<lambda>c. limit_ok c)" unfolding client_contract_def by (rule limit.ig_invariant_axioms)
  show "outside_steps (\<lambda>_ _. True) env" by (simp add: outside_steps_def)
  show "runs True (\<lambda>r c'. limit_ok c') (start (le_ig env)) (ig_client_init k u pw acct (ic_clock c) (ic_world c))"
    for k u pw acct and c :: "'a ig_client"
    by (rule limit_start) (simp add: unlimited_def ig_client_init_def)
  show "keeps True (\<lambda>c. limit_ok c) (place_order (le_ig env) epic dir lots st li hft p)" for epic dir lots st li hft p
    by (rule limit_place_order)
  show "keeps True (\<lambda>c. limit_ok c) (issue_opening_order_permit (le_ig env))" by (rule limit_issue)
qed (auto simp: limit_ok_def view_def count_trade_def reset_daily_trade_counter_if_needed_def Let_def)

lemma live_turn: "keeps True (view (\<lambda>c g ps d n x. limit_ok c)) (run_turn env)"
proof -
  let ?I = "view (\<lambda>c g ps d n x. limit_ok c)"
  have frame: "keeps True ?I (updC (\<lambda>l. l\<lparr>tl_errors := f l, tl_last_error := m\<rparr>))" "keeps True ?I (updC (\<lambda>l. l\<lparr>tl_running := b\<rparr>))" for f m b
    by (rule live.keeps_frame, simp add: view_def)+
  show ?thesis unfolding run_turn_def
    by (intro keeps_intro live.keeps_whole_cycle frame keeps_on_client) (rule limit.keep_sleep)
qed

text \<open>
  Claim C5: a turn of the trading loop returns, whatever the broker, the strategy, the news layer
  and the repository answer or raise, and however long the broker limits the rate: the cycle over
  all instruments, the polling of the snapshots, and the turn with its error handling and sleep.
\<close>

theorem trading_loop_turn_returns:
  assumes "limit_ok (tl_client l)"
  shows "(\<exists>r l'. trading_cycle env l = Some (r, l') \<and> limit_ok (tl_client l')) \<and>
    (\<exists>r l'. poll_snapshots env l = Some (r, l') \<and> limit_ok (tl_client l')) \<and>
    (\<exists>r l'. run_turn env l = Some (r, l') \<and> limit_ok (tl_client l'))"
proof -
  let ?I = "view (\<lambda>c g ps d n x. limit_ok c)"
  have l: "?I l" using assms by (simp add: view_def)
  show ?thesis
    using keeps_total[OF live.keeps_whole_cycle l] keeps_total[OF live.keeps_poll l] keeps_total[OF live_turn l]
    by (simp add: view_def)
qed

section \<open>The kill switch\<close>

text \<open>A loop over a world that also holds the requests sent so far.\<close>

definition beside :: "('w \<Rightarrow> 'a \<times> 'w) \<Rightarrow> 'w \<times> 'l \<Rightarrow> 'a \<times> 'w \<times> 'l" where
  "beside f w = (case f (fst w) of (r, w') \<Rightarrow> (r, w', snd w))"

definition logged_loop :: "'w loop_env \<Rightarrow> ('w \<times> http_request list) loop_env" where
  "logged_loop env =
     \<lparr>le_ig = logged (le_ig env), le_time = (\<lambda>w. le_time env (fst w)), le_now = (\<lambda>w. le_now env (fst w)),
      le_settings = le_settings env, le_parse_decimal = le_parse_decimal env,
      le_professional = (\<lambda>p cs sp now. beside (le_professional env p cs sp now)),
      le_news = map_option (\<lambda>layer s. beside (layer s)) (le_news env),
      le_mistakes = map_option (\<lambda>analyzer g w. analyzer g (fst w)) (le_mistakes env),
      le_learn = (\<lambda>t m. beside (le_learn env t m)), le_db_open = (\<lambda>t. beside (le_db_open env t)),
      le_trade = (\<lambda>i. beside (le_trade env i)), le_position = (\<lambda>i. beside (le_position env i)),
      le_trade_by_deal = (\<lambda>i. beside (le_trade_by_deal env i)), le_position_by_deal = (\<lambda>i. beside (le_position_by_deal env i)),
      le_open_trades = (\<lambda>i. beside (le_open_trades env i)), le_open_positions = beside (le_open_positions env),
      le_close_trade = (\<lambda>i x y. beside (le_close_trade env i x y)), le_close_position = (\<lambda>i. beside (le_close_position env i))\<rparr>"

lemma beside_log [simp]: "snd (snd (beside f w)) = snd w"
  by (simp add: beside_def split: prod.split)

lemma logged_loop_steps: "outside_steps (\<lambda>w w'. snd w' = snd w) (logged_loop env)"
  by (auto simp: outside_steps_def logged_loop_def)

lemma logged_loop_ig [simp]: "le_ig (logged_loop env) = logged (le_ig env)"
  by (simp add: logged_loop_def)

lemma openings_sent: "openings c = L \<longleftrightarrow> sent None (ic_permits c) L 0 c"
  by (auto simp: sent_def)

lemma keeps_openings:
  assumes "\<And>P. keeps False (sent None P L 0) m" shows "keeps False (\<lambda>c. openings c = L \<and> B) m"
proof -
  have "openings c' = L" if "openings c = L" "m c = Some (r, c')" for c r c'
    using keepsD[OF assms[of "ic_permits c"], of c r c'] that by (simp add: openings_sent) (auto simp: sent_def)
  then show ?thesis by (auto simp: keeps_def wpC_def split: option.split)
qed

lemma openings_contract: "client_contract (logged ie) False (\<lambda>c. openings c = L \<and> B)"
  unfolding client_contract_def
proof
  show "keeps False (\<lambda>c. openings c = L \<and> B) (http (logged ie) rq)" if "harmless rq" for rq
    by (rule keeps_openings, rule log.keep_http[OF that])
  show "keeps False (\<lambda>c. openings c = L \<and> B) (sleep (logged ie) d)" for d
    by (rule keeps_openings, rule log.keep_sleep)
  show "keeps False (\<lambda>c. openings c = L \<and> B) (wait_for_rate_limit_clear (logged ie) t hft)" for t hft
    by (rule keeps_openings, rule log.keep_wait)
qed (simp_all add: openings_def)

lemma openings_start: "keeps False (\<lambda>c. openings c = L \<and> B) (start (logged ie))"
proof -
  have u: "keeps False (\<lambda>c. openings c = L \<and> B) (updC (\<lambda>c. c\<lparr>ic_has_client := True, ic_running := True\<rparr>))"
    "keeps False (\<lambda>c. openings c = L \<and> B) (updC (\<lambda>c. c\<lparr>ic_heartbeat := True\<rparr>))"
    "keeps False (\<lambda>c. openings c = L \<and> B) (updC (\<lambda>c. c\<lparr>ic_account_currency := cur\<rparr>))"
    "keeps False (\<lambda>c. openings c = L \<and> B) stop" for cur
    unfolding stop_def by (rule keeps_upd, simp add: openings_def)+
  note c = openings_contract[unfolded client_contract_def]
  show ?thesis unfolding start_def
    by (intro keeps_intro u ig_invariant.keeps_login[OF c] ig_invariant.keeps_account_currency[OF c])
qed

definition halted :: "risk_engine option \<Rightarrow> bool" where
  "halted g \<longleftrightarrow> (\<exists>engine. g = Some engine \<and> is_active (re_switch engine))"

lemma halted_validate:
  "is_active (re_switch engine) \<Longrightarrow> validate_signal s equity ps t1 t2 t3 engine = (r, engine', evs) \<Longrightarrow>
   engine' = engine \<and> (\<exists>v. r = Inr v \<and> \<not> vr_allowed v)"
  by (auto simp: validate_signal_def is_signal_allowed_def signal_rejected_def split: prod.splits)

interpretation halt: loop_cycle "logged_loop env" False "\<lambda>w w'. snd w' = snd w" "\<lambda>c g ps d n x. openings c = L \<and> halted g" for env L
proof
  show "client_contract (le_ig (logged_loop env)) False (\<lambda>c. openings c = L \<and> halted g)" for g
    by (simp add: openings_contract)
  show "outside_steps (\<lambda>w w'. snd w' = snd w) (logged_loop env)" by (rule logged_loop_steps)
  show "runs False (\<lambda>r c'. openings c' = L \<and> halted g) (start (le_ig (logged_loop env))) (ig_client_init k u pw acct (ic_clock c) (ic_world c))"
    if "openings c = L \<and> halted g" for c :: "('a \<times> http_request list) ig_client" and g k u pw acct
    by (simp, rule runs_keeps[OF openings_start]) (use that in \<open>simp add: openings_def ig_client_init_def\<close>)
qed (auto simp: openings_def halted_def dest: halted_validate)

text \<open>An engine whose switch is active approves nothing.\<close>

lemma halted_engine_value:
  fixes env :: "'a loop_env"
  assumes "is_active (re_switch engine)"
  shows "ends (\<lambda>v l. v = None) (engine_approval env g f engine)"
proof -
  have v: "ends (\<lambda>result l. \<not> vr_allowed result) (validate_with_engine env s engine)" for s
    unfolding validate_with_engine_def
  proof (rule ends_bind, rule ends_bind)
    fix l :: "'a trading_loop" and ps
    obtain r engine' evs where e: "validate_signal s (tl_equity l) ps (wall_now env l) (wall_now env l) (wall_now env l) engine = (r, engine', evs)"
      by (metis prod_cases3)
    show "ends (\<lambda>result l. \<not> vr_allowed result)
      (case validate_signal s (tl_equity l) ps (wall_now env l) (wall_now env l) (wall_now env l) engine of
         (r, engine', evs) \<Rightarrow> bindC (updC (\<lambda>l. l\<lparr>tl_risk := Some engine'\<rparr>)) (\<lambda>_. pureC r))"
      unfolding e prod.case by (rule ends_bind, rule ends_pure) (use halted_validate[OF assms e] in auto)
  qed
  have r: "ends (\<lambda>v l. v = None) (engine_verdict env g f result)" if "\<not> vr_allowed result" for result
    using that by (simp add: engine_verdict_def ends_bind ends_basic)
  show ?thesis unfolding engine_approval_def
    by (rule ends_bind, rule ends_bind, rule ends_bind_value[OF v], rule r)
qed

lemma halted_controls:
  assumes "halted (tl_risk l)" "apply_risk_controls env g l = Some (Inr v, l')" shows "v = None"
proof -
  obtain engine where e: "tl_risk l = Some engine" "is_active (re_switch engine)" using assms(1) by (auto simp: halted_def)
  have h: "ends (\<lambda>v l. v = None) (bindC (updC u) (\<lambda>_. bindC (signal_rejected_event env g' d m) (\<lambda>_. returnC None)))" for u g' d m
    by (intro ends_bind) (simp add: ends_basic)
  have c: "ends (\<lambda>v l. v = None) (catchC (engine_approval env g' f engine) (\<lambda>e. bindC (updC (u e)) (\<lambda>_. bindC (signal_rejected_event env g' d (m e)) (\<lambda>_. returnC None))))"
    for g' f u d m by (rule ends_catch[OF halted_engine_value[OF e(2)] h])
  have r: "ends (\<lambda>v l. v = None) (bindC reject (\<lambda>_. bindC (updC u) (\<lambda>_. bindC (signal_rejected_event env g' d m) (\<lambda>_. returnC None))))" for u g' d m
    by (rule ends_bind, rule h)
  show ?thesis using assms(2)
    by (auto simp: apply_risk_controls_def Let_def bindC_value e(1) readC_def returnC_def split: if_splits dest: endsD[OF c] endsD[OF r])
qed

lemma halted_enter:
  fixes env :: "'a loop_env"
  shows "keeps False (view (\<lambda>c g ps d n x. openings c = L \<and> halted g)) (validate_and_execute (logged_loop env) g approve)"
proof (rule keeps_runs)
  let ?I = "view (\<lambda>c g ps d n x. openings c = L \<and> halted g)"
  fix l :: "('a \<times> http_request list) trading_loop"
  assume l: "?I l"
  have "runs False (\<lambda>r l'. ?I l' \<and> (\<forall>v. r = Inr v \<longrightarrow> v = None)) (apply_risk_controls (logged_loop env) g) l"
    unfolding runs_def
    by (intro conjI impI, simp, rule wpC_conj[OF wpC_keeps[OF halt.keeps_risk_controls l] wpC_I])
      (use l halted_controls in \<open>auto simp: view_def\<close>)
  then show "runs False (\<lambda>r. ?I) (validate_and_execute (logged_loop env) g approve) l"
    unfolding validate_and_execute_def
    by (intro runs_bind, elim runs_mono) (clarsimp split: sum.split)
qed

text \<open>
  Claim C3: while the kill switch of the loop's risk engine is active, a whole trading cycle sends
  no request that opens a position, whatever the strategies signal: every signal stops at the risk
  controls.  The switch stays active, and positions may still be closed and managed.
\<close>

theorem kill_switch_stops_the_loop:
  assumes "halted (tl_risk l)" "trading_cycle (logged_loop env) l = Some (r, l')"
  shows "openings (tl_client l') = openings (tl_client l) \<and> halted (tl_risk l')"
proof -
  let ?I = "view (\<lambda>c g ps d n x. openings c = openings (tl_client l) \<and> halted g)"
  have "keeps False ?I (trading_cycle (logged_loop env))"
    by (rule halt.keeps_cycle; unfold enter_def reenter_def gate_rejected_def signal_rejected_event_def)
      (intro keeps_intro halt.keeps_gate halt.keeps_reject halt.keeps_event halted_enter)+
  from keepsD[OF this _ assms(2)] assms(1) show ?thesis by (simp add: view_def)
qed

section \<open>Reversals\<close>

interpretation flip: loop_view "logged_loop env" False "\<lambda>w w'. snd w' = snd w" "\<lambda>c g ps d n x. openings c = L \<and> ps = PS" for env L PS
proof
  show "client_contract (le_ig (logged_loop env)) False (\<lambda>c. openings c = L \<and> ps = PS)" for ps
    by (simp add: openings_contract)
  show "outside_steps (\<lambda>w w'. snd w' = snd w) (logged_loop env)" by (rule logged_loop_steps)
qed (auto simp: openings_def)

text \<open>The gates see the positions of the last refresh.\<close>

lemma gate_blocks_known:
  assumes "bindE (items_of (tl_open_positions l)) (\<lambda>xs. open_position_in xs (ls_epic g)) = Inr (Some pos)"
    and "entry_gate_rejection_reason env g l = Some (Inr v, l')"
  shows "v \<noteq> None"
proof -
  have "tl_open_positions (reset_daily_trade_counter_if_needed env l) = tl_open_positions l"
    by (simp add: reset_daily_trade_counter_if_needed_def Let_def)
  then show ?thesis using assms
    by (auto simp: entry_gate_rejection_reason_def get_open_position_def updC_def bindC_value returnC_def pureC_def readC_def split: if_splits)
qed

text \<open>
  Claim: when the signal of an instrument turns against its open position the position is
  closed, but the promised re-entry in the new direction never happens: the gate looks at the
  positions of the last refresh, finds the one just closed, and rejects the signal.
\<close>

theorem reversal_never_reenters:
  fixes env :: "'a loop_env"
  assumes "bindE (items_of (tl_open_positions l)) (\<lambda>xs. open_position_in xs epic) = Inr (Some pos)"
    and "ls_epic g = epic" "manage_open (logged_loop env) epic pos (Some g) l = Some (r, l')"
  shows "openings (tl_client l') = openings (tl_client l)"
proof -
  let ?I = "view (\<lambda>c e ps d n x. openings c = openings (tl_client l) \<and> ps = tl_open_positions l)"
  have gate: "wpC (entry_gate_rejection_reason (logged_loop env) g) (\<lambda>r l'. ?I l' \<and> (\<forall>v. r = Inr v \<longrightarrow> v \<noteq> None)) l1" if l1: "?I l1" for l1
    by (rule wpC_conj[OF wpC_keeps[OF flip.keeps_gate l1] wpC_I])
      (use l1 gate_blocks_known[of l1 g pos] assms(1,2) in \<open>auto simp: view_def\<close>)
  have rejected: "keeps False ?I (gate_rejected (logged_loop env) g d m)" for d m
    unfolding gate_rejected_def signal_rejected_event_def by (intro keeps_intro flip.keeps_reject flip.keeps_event)
  have "keeps False ?I (reenter (logged_loop env) g)"
    unfolding reenter_def
  proof (intro keeps_runs runs_bind)
    fix l1 :: "('a \<times> http_request list) trading_loop"
    assume l1: "?I l1"
    have "runs False (\<lambda>r l'. ?I l' \<and> (\<forall>v. r = Inr v \<longrightarrow> v \<noteq> None)) (entry_gate_rejection_reason (logged_loop env) g) l1"
      using gate[OF l1] by (simp add: runs_def)
    then show "runs False (\<lambda>r l'. case r of Inl e \<Rightarrow> ?I l' | Inr reason \<Rightarrow> runs False (\<lambda>r. ?I)
        (case reason of None \<Rightarrow> validate_and_execute (logged_loop env) g (\<lambda>v. returnC ())
         | Some r \<Rightarrow> gate_rejected (logged_loop env) g (DJson JNull) r) l') (entry_gate_rejection_reason (logged_loop env) g) l1"
    proof (rule runs_mono)
      fix r :: "py_error + fmsg option" and l' :: "('a \<times> http_request list) trading_loop"
      assume q: "?I l' \<and> (\<forall>v. r = Inr v \<longrightarrow> v \<noteq> None)"
      have "runs False (\<lambda>r. ?I) (gate_rejected (logged_loop env) g (DJson JNull) y) l'" for y
        by (rule runs_keeps[OF rejected]) (use q in blast)
      then show "case r of Inl e \<Rightarrow> ?I l' | Inr reason \<Rightarrow> runs False (\<lambda>r. ?I)
        (case reason of None \<Rightarrow> validate_and_execute (logged_loop env) g (\<lambda>v. returnC ())
         | Some r \<Rightarrow> gate_rejected (logged_loop env) g (DJson JNull) r) l'" using q by (auto split: sum.split)
    qed
  qed
  then have "keeps False ?I (manage_open (logged_loop env) epic pos (Some g))"
    unfolding manage_open_def option.case
    by (intro keeps_intro flip.keeps_manage_professional flip.keeps_close_loop)
  from keepsD[OF this _ assms(3)] show ?thesis by (simp add: view_def)
qed

section \<open>The daily cap\<close>

text \<open>On a day: so many accepted orders that day, and so many before it.\<close>

definition the_day :: "'w loop_env \<Rightarrow> int \<Rightarrow> bool" where
  "the_day env D \<longleftrightarrow> (\<forall>w t. utc_date (le_now env w t) = D)"

definition traded :: "'w loop_env \<Rightarrow> int \<Rightarrow> int \<Rightarrow> int \<Rightarrow> int \<Rightarrow> int \<Rightarrow> int \<Rightarrow> bool" where
  "traded env D k m d n x \<longleftrightarrow> (the_day env D \<longrightarrow> d = D \<and> n = m \<and> x = n + k)"

definition capped :: "'w loop_env \<Rightarrow> int \<Rightarrow> int \<Rightarrow> int \<Rightarrow> int \<Rightarrow> int \<Rightarrow> bool" where
  "capped env D k d n x \<longleftrightarrow> (the_day env D \<longrightarrow> d = D \<and> n \<le> MAX_DAILY_TRADES \<and> x = n + k)"

lemma keeps_fixed [simp]: "keeps False (\<lambda>c. B) m"
  by (simp add: keeps_def wpC_def split: option.split)

lemma fixed_contract: "client_contract env False (\<lambda>c. B)"
  unfolding client_contract_def by unfold_locales (simp_all add: keeps_def wpC_def split: option.split)

lemma runs_fixed: "B \<Longrightarrow> runs False (\<lambda>r c. B) m l"
  by (simp add: runs_def)

lemma fixed_today: "the_day env D \<Longrightarrow> utc_date (le_now env w t) = D"
  by (simp add: the_day_def)

interpretation tally: loop_execution env False "\<lambda>_ _. True" "\<lambda>c g ps d n x. traded env D k m d n x" for env D k m
proof
  show "outside_steps (\<lambda>_ _. True) env" by (simp add: outside_steps_def)
qed (auto simp: fixed_contract traded_def fixed_today intro: runs_fixed)

interpretation cap: loop_cycle env False "\<lambda>_ _. True" "\<lambda>c g ps d n x. capped env D k d n x" for env D k
proof
  show "outside_steps (\<lambda>_ _. True) env" by (simp add: outside_steps_def)
qed (auto simp: fixed_contract capped_def fixed_today intro: runs_fixed)

abbreviation is_traded :: "'w loop_env \<Rightarrow> int \<Rightarrow> int \<Rightarrow> int \<Rightarrow> 'w trading_loop \<Rightarrow> bool" where
  "is_traded env D k m \<equiv> view (\<lambda>c g ps d n x. traded env D k m d n x)"

abbreviation is_capped :: "'w loop_env \<Rightarrow> int \<Rightarrow> int \<Rightarrow> 'w trading_loop \<Rightarrow> bool" where
  "is_capped env D k \<equiv> view (\<lambda>c g ps d n x. capped env D k d n x)"

lemma gate_has_room:
  assumes "entry_gate_rejection_reason env g l = Some (Inr None, l')" "is_traded env D k m l" "the_day env D"
  shows "m < MAX_DAILY_TRADES"
proof -
  have "wall_now env l div 86400000000 = D" using fixed_today[OF assms(3)] by (simp add: wall_now_def utc_date_def)
  then have "reset_daily_trade_counter_if_needed env l = l" "tl_daily_count l = m"
    using assms(2,3) by (auto simp: reset_daily_trade_counter_if_needed_def view_def traded_def utc_date_def Let_def)
  then show ?thesis using assms(1)
    by (auto simp: entry_gate_rejection_reason_def updC_def bindC_value readC_def returnC_def split: if_splits)
qed

lemma count_trade_tally:
  assumes "is_traded env D k m l" shows "is_traded env D k (m + 1) (count_trade env epic l)"
proof (cases "the_day env D")
  case True
  then have "utc_date (wall_now env (l\<lparr>tl_trades_executed := tl_trades_executed l + 1\<rparr>)) = tl_day l"
    using assms by (simp add: wall_now_def fixed_today view_def traded_def)
  then show ?thesis using assms by (simp add: count_trade_def reset_daily_trade_counter_if_needed_def Let_def view_def traded_def)
qed (simp add: view_def traded_def)

lemma tally_capped: "is_traded env D k m l \<Longrightarrow> (the_day env D \<Longrightarrow> m \<le> MAX_DAILY_TRADES) \<Longrightarrow> is_capped env D k l"
  by (auto simp: view_def traded_def capped_def)

lemma execute_tally:
  assumes l: "is_traded env D k m l" and m: "the_day env D \<Longrightarrow> m < MAX_DAILY_TRADES"
  shows "runs False (\<lambda>r. is_capped env D k) (execute_signal env g) l"
proof -
  have c: "is_traded env D k m l1 \<Longrightarrow> is_capped env D k l1" for l1 by (rule tally_capped) (use m in auto)
  have c1: "is_traded env D k (m + 1) l1 \<Longrightarrow> is_capped env D k l1" for l1 by (rule tally_capped) (use m in auto)
  have after: "runs False (\<lambda>r. is_capped env D k) (after_acceptance env g v) l1" if "is_traded env D k m l1" for v l1
    unfolding after_acceptance_def runs_bind_simps
    by (rule runs_mono[OF runs_keeps[OF tally.keeps_record_acceptance count_trade_tally[OF that]]]) (rule c1)
  have other: "keeps False (is_traded env D k m) (bindC reject (\<lambda>_. bindC (pureC (get v ''reason'')) (\<lambda>reason. record_trade_event env a (b reason))))" for v a b
    by (intro keeps_intro tally.keeps_reject tally.keeps_event)
  have failed: "keeps False (is_capped env D k) (bindC reject (\<lambda>_. record_trade_event env a b))" for a b
    by (intro keeps_intro cap.keeps_reject cap.keeps_event)
  have body: "runs False (\<lambda>r. is_capped env D k)
      (bindC (submit_order env g) (\<lambda>result.
        bindC (pureC (get_or result ''dealStatus'' (JStr ''unknown''))) (\<lambda>status.
          if status = JStr ''ACCEPTED'' then after_acceptance env g result
          else
            bindC reject (\<lambda>_.
            bindC (pureC (get result ''reason'')) (\<lambda>reason.
              record_trade_event env ''trade_rejected''
                [(''epic'', dtext (ls_epic g)), (''direction'', dtext (ls_direction g)), (''status'', DJson status), (''reason'', DJson reason)]))))) l"
  proof (rule runs_bind, rule runs_mono[OF runs_keeps[OF tally.keeps_submit l]])
    fix r :: "py_error + json" and l1 assume l1: "is_traded env D k m l1"
    have "runs False (\<lambda>r. is_capped env D k) (bindC reject (\<lambda>_. bindC (pureC (get v ''reason'')) (\<lambda>reason. record_trade_event env a (b reason)))) l1" for v a b
      by (rule runs_mono[OF runs_keeps[OF other l1]]) (rule c)
    then show "case r of Inl e \<Rightarrow> is_capped env D k l1 | Inr result \<Rightarrow> runs False (\<lambda>r. is_capped env D k)
       (bindC (pureC (get_or result ''dealStatus'' (JStr ''unknown''))) (\<lambda>status.
          if status = JStr ''ACCEPTED'' then after_acceptance env g result
          else
            bindC reject (\<lambda>_.
            bindC (pureC (get result ''reason'')) (\<lambda>reason.
              record_trade_event env ''trade_rejected''
                [(''epic'', dtext (ls_epic g)), (''direction'', dtext (ls_direction g)), (''status'', DJson status), (''reason'', DJson reason)])))) l1"
      using c[OF l1] after[OF l1] by (cases r) (auto intro!: runs_pure)
  qed
  show ?thesis unfolding execute_signal_def
    by (rule runs_catch, rule runs_mono[OF body]) (auto split: sum.split intro: runs_keeps[OF failed])
qed

lemma validate_tally:
  assumes l: "is_traded env D k m l" and m: "the_day env D \<Longrightarrow> m < MAX_DAILY_TRADES"
    and approve: "\<And>v. keeps False (is_traded env D k m) (approve v)"
  shows "runs False (\<lambda>r. is_capped env D k) (validate_and_execute env g approve) l"
proof -
  have c: "is_traded env D k m l1 \<Longrightarrow> is_capped env D k l1" for l1 by (rule tally_capped) (use m in auto)
  have last: "runs False (\<lambda>r. is_capped env D k) (bindC (approve v) (\<lambda>_. execute_signal env v))
      (l1\<lparr>tl_signals_generated := tl_signals_generated l1 + 1\<rparr>)" if l1: "is_traded env D k m l1" for v l1
  proof -
    have l2: "is_traded env D k m (l1\<lparr>tl_signals_generated := tl_signals_generated l1 + 1\<rparr>)" using l1 by (simp add: view_def)
    show ?thesis
      by (rule runs_bind, rule runs_mono[OF runs_keeps[OF approve l2]]) (auto split: sum.split intro: c execute_tally m)
  qed
  have news: "runs False (\<lambda>r. is_capped env D k) (bindC (apply_news_safety env v) (\<lambda>n. case n of None \<Rightarrow> returnC ()
      | Some g2 \<Rightarrow> bindC (updC (\<lambda>l. l\<lparr>tl_signals_generated := tl_signals_generated l + 1\<rparr>)) (\<lambda>_.
          bindC (approve g2) (\<lambda>_. execute_signal env g2)))) l1" if l1: "is_traded env D k m l1" for v l1
    by (rule runs_bind, rule runs_mono[OF runs_keeps[OF tally.keeps_apply_news l1]]) (auto split: sum.split option.split intro: c last)
  show ?thesis unfolding validate_and_execute_def
    by (rule runs_bind, rule runs_mono[OF runs_keeps[OF tally.keeps_risk_controls l]]) (auto split: sum.split option.split intro: c news)
qed

lemma gated_tally:
  assumes rejected: "\<And>r. keeps False (is_capped env D k) (gate_rejected env g d r)"
    and approve: "\<And>m v. keeps False (is_traded env D k m) (approve v)"
  shows "keeps False (is_capped env D k) (bindC (entry_gate_rejection_reason env g) (\<lambda>reason. case reason of
      Some r \<Rightarrow> gate_rejected env g d r | None \<Rightarrow> validate_and_execute env g approve))"
proof (rule keeps_runs)
  fix l assume l: "is_capped env D k l"
  show "runs False (\<lambda>r. is_capped env D k) (bindC (entry_gate_rejection_reason env g) (\<lambda>reason. case reason of
      Some r \<Rightarrow> gate_rejected env g d r | None \<Rightarrow> validate_and_execute env g approve)) l"
  proof (cases "the_day env D")
    case False
    then have "is_capped env D k = (\<lambda>l. True)" by (simp add: view_def capped_def fun_eq_iff)
    then show ?thesis by (simp add: runs_def)
  next
    case True
    let ?m = "tl_daily_count l"
    have t: "is_traded env D k ?m l" and m: "?m \<le> MAX_DAILY_TRADES" using l True by (auto simp: view_def capped_def traded_def)
    have "wpC (entry_gate_rejection_reason env g) (\<lambda>r l'. is_traded env D k ?m l' \<and> (r = Inr None \<longrightarrow> ?m < MAX_DAILY_TRADES)) l"
      by (rule wpC_conj[OF wpC_keeps[OF tally.keeps_gate t] wpC_I]) (use gate_has_room[OF _ t True] in auto)
    then have "runs False (\<lambda>r l'. is_traded env D k ?m l' \<and> (r = Inr None \<longrightarrow> ?m < MAX_DAILY_TRADES)) (entry_gate_rejection_reason env g) l"
      by (simp add: runs_def)
    then show ?thesis
    proof (rule runs_bind[OF runs_mono])
      fix r :: "py_error + fmsg option" and l1
      assume q: "is_traded env D k ?m l1 \<and> (r = Inr None \<longrightarrow> ?m < MAX_DAILY_TRADES)"
      then have c: "is_capped env D k l1" using m by (auto intro: tally_capped)
      show "case r of Inl e \<Rightarrow> is_capped env D k l1 | Inr reason \<Rightarrow> runs False (\<lambda>r. is_capped env D k)
          (case reason of Some r \<Rightarrow> gate_rejected env g d r | None \<Rightarrow> validate_and_execute env g approve) l1"
      proof (cases r)
        case (Inr reason)
        show ?thesis unfolding Inr sum.case
        proof (cases reason)
          case None
          then show "runs False (\<lambda>r. is_capped env D k) (case reason of Some r \<Rightarrow> gate_rejected env g d r | None \<Rightarrow> validate_and_execute env g approve) l1"
            using q Inr by (auto intro!: validate_tally approve)
        next
          case (Some x)
          then show "runs False (\<lambda>r. is_capped env D k) (case reason of Some r \<Rightarrow> gate_rejected env g d r | None \<Rightarrow> validate_and_execute env g approve) l1"
            using runs_keeps[OF rejected c] by simp
        qed
      qed (use c in simp)
    qed
  qed
qed

lemma cap_cycle: "keeps False (is_capped env D k) (trading_cycle env)"
proof (rule cap.keeps_cycle)
  have r: "keeps False (is_capped env D k) (gate_rejected env g d m)" for g d m
    unfolding gate_rejected_def signal_rejected_event_def by (intro keeps_intro cap.keeps_reject cap.keeps_event)
  show "keeps False (is_capped env D k) (enter env g)" for g
    unfolding enter_def by (rule gated_tally[OF r tally.keeps_event])
  show "keeps False (is_capped env D k) (reenter env g)" for g
    unfolding reenter_def by (rule gated_tally[OF r]) (rule keeps_basic)
qed

text \<open>What happens to a running loop: turns, polls, and the operator's use of the kill switch.\<close>

datatype loop_call = Turn | Poll | Activate fmsg | Deactivate string | Stop

definition perform :: "'w loop_env \<Rightarrow> loop_call \<Rightarrow> ('w, unit) loop" where
  "perform env x =
     (case x of
        Turn \<Rightarrow> bindC (run_turn env) (\<lambda>_. returnC ())
      | Poll \<Rightarrow> poll_snapshots env
      | Activate reason \<Rightarrow> bindC (activate_kill_switch env reason) (\<lambda>_. returnC ())
      | Deactivate token \<Rightarrow> bindC (deactivate_kill_switch env token) (\<lambda>_. returnC ())
      | Stop \<Rightarrow> stop_loop)"

fun perform_all :: "'w loop_env \<Rightarrow> loop_call list \<Rightarrow> ('w, unit) loop" where
  "perform_all env [] = returnC ()"
| "perform_all env (x # xs) = bindC (tryC (perform env x)) (\<lambda>_. perform_all env xs)"

lemma cap_perform: "keeps False (is_capped env D k) (perform env x)"
proof -
  have f: "keeps False (is_capped env D k) (updC (\<lambda>l. l\<lparr>tl_errors := f l, tl_last_error := m\<rparr>))" "keeps False (is_capped env D k) (updC (\<lambda>l. l\<lparr>tl_running := b\<rparr>))"
    "keeps False (is_capped env D k) (updC (\<lambda>l. l\<lparr>tl_risk := e\<rparr>))" "keeps False (is_capped env D k) (updC (\<lambda>l. l\<lparr>tl_has_client := b\<rparr>))"
    "keeps False (is_capped env D k) (updC (\<lambda>l. l\<lparr>tl_connected := b\<rparr>))" for f m b e
    by (rule keeps_upd, simp add: view_def)+
  have c: "keeps False (is_capped env D k) (on_client u)" "keeps False (is_capped env D k) (broker u)" for u :: "('a, unit) ig"
    by (rule keeps_on_client, simp) (rule keeps_on_broker, simp)
  show ?thesis
    unfolding perform_def run_turn_def activate_kill_switch_def deactivate_kill_switch_def stop_loop_def
    by (cases x) (auto intro!: keeps_intro f c cap_cycle cap.keeps_poll cap.keeps_event split: option.split prod.split)
qed

lemma cap_perform_all: "keeps False (is_capped env D k) (perform_all env xs)"
proof (induction xs)
  case (Cons x xs)
  then show ?case unfolding perform_all.simps by (intro keeps_intro cap_perform)
qed (simp add: keeps_intro)

text \<open>
  Claim C4: on one day the loop gets at most three opening orders accepted, over all instruments,
  however many turns it runs, whatever the outside does and whoever stops it or uses its kill
  switch; what was accepted earlier that day counts.
\<close>

theorem at_most_three_trades_a_day:
  assumes "\<forall>w t. utc_date (le_now env w t) = tl_day l" "tl_daily_count l \<le> MAX_DAILY_TRADES"
    and "perform_all env calls l = Some (r, l')"
  shows "tl_trades_executed l' - tl_trades_executed l \<le> MAX_DAILY_TRADES - tl_daily_count l \<and>
    tl_daily_count l' - tl_daily_count l = tl_trades_executed l' - tl_trades_executed l"
proof -
  let ?k = "tl_trades_executed l - tl_daily_count l"
  have d: "the_day env (tl_day l)" using assms(1) by (simp add: the_day_def)
  have "is_capped env (tl_day l) ?k l" using assms(2) by (simp add: view_def capped_def)
  from keepsD[OF cap_perform_all this assms(3)] d show ?thesis by (auto simp: view_def capped_def)
qed

section \<open>Half positions\<close>

text \<open>
  A partial close is repeated: when the broker closed half of a position at its first target but the move of the stop
  to the entry price fails, the error leaves the management with the position not marked as reduced,
  so that the next cycle at that price starts the same step again.
\<close>

theorem partial_close_is_repeated:
  assumes "map_of (tl_positions l) deal_id = Some m" "\<not> pp_partial_taken m"
    and "size_of env pos_data (pp_size m) = Inr total_size"
    and "flt (1/100) \<le> f_round 2 (f_mul total_size (pp_partial_close_fraction m))"
    and "flt (1/100) \<le> f_sub total_size (f_round 2 (f_mul total_size (pp_partial_close_fraction m)))"
    and "broker (close_position (le_ig env) deal_id (opposite direction) (f_round 2 (f_mul total_size (pp_partial_close_fraction m)))) l = Some (Inr result, l1)"
    and "get result ''dealStatus'' = Inr (JStr ''ACCEPTED'')"
    and "float_of_json (ie_parse_float (le_ig env)) (pp_final_target_level m) = Inr target"
    and "broker (update_position_sl_tp (le_ig env) deal_id (Some (pp_entry_level m)) (Some target)) l1 = Some (Inl e, l2)"
  shows "take_partial env epic deal_id pos_data direction m l = Some (Inl e, l2) \<and> map_of (tl_positions l2) deal_id = Some m"
proof -
  have b: "tl_positions s' = tl_positions s" if "broker p s = Some (r, s')" for p :: "('a, 'b) ig" and s r s'
    using that by (auto simp: broker_def bindC_def readC_def on_client_def raiseC_def split: if_splits option.splits)
  have p: "tl_positions l2 = tl_positions l" using b[OF assms(6)] b[OF assms(9)] by simp
  have "take_partial env epic deal_id pos_data direction m l = Some (Inl e, l2)"
    using assms(3-9) by (simp add: take_partial_def Let_def bindC_def pureC_def not_less[symmetric])
  then show ?thesis using p assms(1) by simp
qed

section \<open>A loop for examples\<close>

definition quiet_env :: "nat loop_env" where
  "quiet_env =
     \<lparr>le_ig = demo_env, le_time = (\<lambda>w t. of_int t / 1000000000), le_now = (\<lambda>w t. 0),
      le_settings = \<lparr>se_api_key = ''k'', se_username = ''u'', se_password = ''p'', se_account_type = ''demo''\<rparr>,
      le_parse_decimal = (\<lambda>_. Inl DecimalInvalidOperation), le_professional = (\<lambda>_ _ _ _ w. (Inl (AttributeError ''analyze''), w)),
      le_news = None, le_mistakes = None, le_learn = (\<lambda>_ _ w. (Inr (), w)), le_db_open = (\<lambda>_ w. (Inr (''1'', ''1''), w)),
      le_trade = (\<lambda>_ w. (Inr None, w)), le_position = (\<lambda>_ w. (Inr None, w)), le_trade_by_deal = (\<lambda>_ w. (Inr None, w)),
      le_position_by_deal = (\<lambda>_ w. (Inr None, w)), le_open_trades = (\<lambda>_ w. (Inr [], w)), le_open_positions = (\<lambda>w. (Inr [], w)),
      le_close_trade = (\<lambda>_ _ _ w. (Inr (), w)), le_close_position = (\<lambda>_ w. (Inr (), w))\<rparr>"

definition sample_loop :: "'w loop_env \<Rightarrow> 'w \<Rightarrow> 'w trading_loop" where
  "sample_loop env w = (trading_loop_init [''CS.D.EURUSD.CFD.IP''] 60 None ''PROFESSIONAL'' ''DEMO'' False True env (demo_client w))
     \<lparr>tl_running := True, tl_has_client := True\<rparr>"

lemma sample_loop_live: "view (\<lambda>c g ps d n x. limit_ok c) (sample_loop env w)"
  by (simp add: view_def sample_loop_def trading_loop_init_def demo_client_def ig_client_init_def limit_ok_def Let_def)

lemma trading_loop_turn_returns_witness:
  "limit_ok (tl_client (sample_loop quiet_env 0)) \<and> (\<exists>r l'. run_turn quiet_env (sample_loop quiet_env 0) = Some (r, l'))"
proof -
  have "limit_ok (tl_client (sample_loop quiet_env 0))" using sample_loop_live by (simp add: view_def)
  then show ?thesis using trading_loop_turn_returns[of "sample_loop quiet_env 0" quiet_env] by blast
qed

definition halted_loop :: "(nat \<times> http_request list) trading_loop" where
  "halted_loop = (let l = sample_loop (logged_loop quiet_env) (0, []); e = the (tl_risk l)
     in l\<lparr>tl_risk := Some (e\<lparr>re_switch := (re_switch e)\<lparr>ks_state := ACTIVE\<rparr>\<rparr>)\<rparr>)"

lemma kill_switch_stops_the_loop_witness:
  "\<exists>r l'. trading_cycle (logged_loop quiet_env) halted_loop = Some (r, l') \<and> openings (tl_client l') = [] \<and> halted (tl_risk l')"
proof -
  have h: "halted (tl_risk halted_loop)" by (simp add: halted_loop_def halted_def is_active_def Let_def)
  have "view (\<lambda>c g ps d n x. limit_ok c) halted_loop"
    using sample_loop_live[of "logged_loop quiet_env" "(0, [])"] by (simp add: halted_loop_def view_def Let_def)
  from keeps_total[OF live.keeps_whole_cycle this] obtain r l' where c: "trading_cycle (logged_loop quiet_env) halted_loop = Some (r, l')" by blast
  have "openings (tl_client halted_loop) = []"
    by (simp add: halted_loop_def sample_loop_def trading_loop_init_def demo_client_def ig_client_init_def openings_def Let_def)
  then show ?thesis using kill_switch_stops_the_loop[OF h c] c by auto
qed

text \<open>A long position, and a signal to sell.\<close>

definition long_position :: json where
  "long_position = JObj [(''market'', JObj [(''epic'', JStr ''CS.D.EURUSD.CFD.IP'')]),
     (''position'', JObj [(''dealId'', JStr ''D''), (''direction'', JStr ''BUY''), (''size'', JNum 1)])]"

definition sell_signal :: loop_signal where
  "sell_signal = \<lparr>ls_epic = ''CS.D.EURUSD.CFD.IP'', ls_direction = ''SELL'', ls_current_price = 1, ls_stop_distance = 1/100, ls_limit_distance = 1/50,
     ls_atr = 1/1000, ls_confidence = 80, ls_rr_ratio = 2, ls_risk_per_trade = 1/500, ls_strategy_name = ''professional_ict'', ls_sma_fast = None,
     ls_sma_slow = None, ls_trend_strength = None, ls_tp1_distance = None, ls_regime = None, ls_partial_close_fraction = None,
     ls_trailing_enabled = False, ls_extra_confirmation = False, ls_size = None\<rparr>"

lemma reversal_never_reenters_witness:
  "\<exists>r l'. manage_open (logged_loop quiet_env) ''CS.D.EURUSD.CFD.IP'' long_position (Some sell_signal)
     (sample_loop (logged_loop quiet_env) (0, [])\<lparr>tl_open_positions := JList [long_position]\<rparr>) = Some (r, l') \<and> openings (tl_client l') = []"
proof -
  let ?l = "sample_loop (logged_loop quiet_env) (0, [])\<lparr>tl_open_positions := JList [long_position]\<rparr>"
  have p: "bindE (items_of (tl_open_positions ?l)) (\<lambda>xs. open_position_in xs ''CS.D.EURUSD.CFD.IP'') = Inr (Some long_position)"
    by (simp add: long_position_def first_truthy_def)
  have s: "ls_epic sell_signal = ''CS.D.EURUSD.CFD.IP''" by (simp add: sell_signal_def)
  have v: "view (\<lambda>c g ps d n x. limit_ok c) ?l" using sample_loop_live[of "logged_loop quiet_env" "(0, [])"] by (simp add: view_def)
  have k: "keeps True (view (\<lambda>c g ps d n x. limit_ok c)) (manage_open (logged_loop quiet_env) ''CS.D.EURUSD.CFD.IP'' long_position (Some sell_signal))"
    by (rule live.keeps_manage_open, unfold reenter_def gate_rejected_def signal_rejected_event_def)
      (intro keeps_intro live.keeps_gate live.keeps_reject live.keeps_event live.keeps_validate_and_execute)
  from keeps_total[OF k v] obtain r l' where
    c: "manage_open (logged_loop quiet_env) ''CS.D.EURUSD.CFD.IP'' long_position (Some sell_signal) ?l = Some (r, l')"
    by blast
  have "openings (tl_client ?l) = []"
    by (simp add: sample_loop_def trading_loop_init_def demo_client_def ig_client_init_def openings_def Let_def)
  then show ?thesis using reversal_never_reenters[OF p s c] c by auto
qed

lemma at_most_three_trades_a_day_witness:
  "\<exists>r l'. perform_all quiet_env [Turn, Poll] (sample_loop quiet_env 0) = Some (r, l') \<and> tl_trades_executed l' \<le> 3"
proof -
  have d: "\<forall>w t. utc_date (le_now quiet_env w t) = tl_day (sample_loop quiet_env 0)" and n: "tl_daily_count (sample_loop quiet_env 0) \<le> MAX_DAILY_TRADES"
    by (simp_all add: quiet_env_def sample_loop_def trading_loop_init_def utc_date_def MAX_DAILY_TRADES_def Let_def)
  have "keeps True (view (\<lambda>c g ps d n x. limit_ok c)) (perform_all quiet_env [Turn, Poll])"
    unfolding perform_all.simps perform_def loop_call.case by (intro keeps_intro live_turn live.keeps_poll)
  from keeps_total[OF this sample_loop_live] obtain r l' where c: "perform_all quiet_env [Turn, Poll] (sample_loop quiet_env 0) = Some (r, l')" by blast
  have "tl_trades_executed (sample_loop quiet_env 0) = 0" "tl_daily_count (sample_loop quiet_env 0) = 0"
    by (simp_all add: sample_loop_def trading_loop_init_def Let_def)
  then have "tl_trades_executed l' \<le> 3" using at_most_three_trades_a_day[OF d n c] by (simp add: MAX_DAILY_TRADES_def)
  with c show ?thesis by blast
qed

end
