(* ===== verification/Copy_Engine.thy ===== *)
theory Copy_Engine
  imports Risk_Engine
begin

text \<open>
  Copy trading, \<open>src/copy_trading/copy_engine.py\<close>: replication of a source trade through the risk
  engine, mirrored closes, the end of a trader's copying and the drawdown stop.  A deal identifier
  \<open>COPY-000001\<close> is its counter.  The monotonic clock, the wall clock and whether the validation
  ran into the timeout of \<open>asyncio.wait_for\<close> are arguments; a validation that times out has
  changed the risk engine as one that returns (it waits only to publish, after its decision).
\<close>

section \<open>Data\<close>

datatype copy_status = COPY_PENDING | EXECUTED | COPY_CLOSED | CANCELLED | TIMED_OUT | RISK_REJECTED

datatype copy_stop_reason = DRAWDOWN_LIMIT | MANUAL | TRADER_INELIGIBLE | WEEKLY_REEVALUATION

type_synonym deal = nat

record source_trade =
  st_trade_id :: string
  st_trader_id :: string
  st_instrument :: string
  st_direction :: string
  st_entry_price :: decimal
  st_stop_loss :: decimal
  st_take_profit :: decimal
  st_size :: decimal
  st_asset_class :: string

record copied_trade =
  ct_deal_id :: deal
  ct_source_trade_id :: string
  ct_trader_id :: string
  ct_instrument :: string
  ct_direction :: string
  ct_entry_price :: decimal
  ct_stop_loss :: decimal
  ct_take_profit :: decimal
  ct_size :: decimal
  ct_status :: copy_status
  ct_opened_at :: micros
  ct_closed_at :: "micros option"
  ct_pnl :: decimal
  ct_execution_time_ms :: pyfloat

record trader_allocation =
  ta_trader_id :: string
  ta_allocated_equity :: decimal
  ta_current_pnl :: decimal
  ta_start_date :: micros
  ta_open_positions :: "deal list"
  ta_pnl_history :: "(micros \<times> decimal) list"

record copy_engine =
  ce_risk_engine :: "risk_engine option"
  ce_execution_timeout :: int
  ce_close_timeout :: int
  ce_drawdown_stop_pct :: decimal
  ce_active_copies :: "(deal, copied_trade) dict"
  ce_trader_allocations :: "(string, trader_allocation) dict"
  ce_deal_counter :: nat

definition copy_engine_init :: "risk_engine option \<Rightarrow> int option \<Rightarrow> int option \<Rightarrow> pyfloat option \<Rightarrow> copy_engine" where
  "copy_engine_init g execution_timeout close_timeout stop_pct =
     \<lparr>ce_risk_engine = g,
      ce_execution_timeout = or_default execution_timeout COPY_EXECUTION_TIMEOUT_SECONDS,
      ce_close_timeout = or_default close_timeout COPY_CLOSE_TIMEOUT_SECONDS,
      ce_drawdown_stop_pct = dec_of_float (or_default stop_pct COPY_DRAWDOWN_STOP_PCT),
      ce_active_copies = [], ce_trader_allocations = [], ce_deal_counter = 0\<rparr>"

text \<open>What the run of a replication reads from outside.\<close>

record copy_clock =
  cc_start :: secs
  cc_checked :: secs
  cc_validated :: secs
  cc_finished :: secs
  cc_now :: micros
  cc_validation_times :: "micros \<times> micros \<times> micros"
  cc_validation_timeout :: bool

section \<open>Operations\<close>

definition register_trader :: "string \<Rightarrow> decimal \<Rightarrow> micros \<Rightarrow> copy_engine \<Rightarrow> copy_engine" where
  "register_trader trader equity now e =
     e\<lparr>ce_trader_allocations := AList.update trader
        \<lparr>ta_trader_id = trader, ta_allocated_equity = equity, ta_current_pnl = 0, ta_start_date = now,
         ta_open_positions = [], ta_pnl_history = []\<rparr> (ce_trader_allocations e)\<rparr>"

definition new_copy :: "deal \<Rightarrow> source_trade \<Rightarrow> decimal \<Rightarrow> copy_status \<Rightarrow> micros \<Rightarrow> copied_trade" where
  "new_copy deal s lots status now =
     \<lparr>ct_deal_id = deal, ct_source_trade_id = st_trade_id s, ct_trader_id = st_trader_id s,
      ct_instrument = st_instrument s, ct_direction = st_direction s, ct_entry_price = st_entry_price s,
      ct_stop_loss = st_stop_loss s, ct_take_profit = st_take_profit s, ct_size = lots,
      ct_status = status, ct_opened_at = now, ct_closed_at = None, ct_pnl = 0, ct_execution_time_ms = 0\<rparr>"

text \<open>The signal handed to the risk engine: region, HFT flag, ATR, its z-score and the risk fraction
  are the defaults of the dataclass.\<close>

definition copy_signal :: "source_trade \<Rightarrow> decimal \<Rightarrow> trade_signal" where
  "copy_signal s lots =
     \<lparr>sg_instrument = st_instrument s, sg_direction = st_direction s, sg_entry_price = st_entry_price s,
      sg_stop_loss = st_stop_loss s, sg_take_profit = st_take_profit s, sg_confidence = 100,
      sg_strategy = ''copy_trading'', sg_asset_class = st_asset_class s,
      sg_notional_value = d_mul lots (st_entry_price s), sg_region = None, sg_is_hft = False,
      sg_atr = 0, sg_atr_zscore = 0, sg_risk_pct = None\<rparr>"

definition validate_with_risk_engine ::
  "source_trade \<Rightarrow> decimal \<Rightarrow> decimal \<Rightarrow> copy_clock \<Rightarrow> risk_engine
   \<Rightarrow> (py_error + validation_result) \<times> risk_engine \<times> risk_event list" where
  "validate_with_risk_engine s lots equity c g =
     (case cc_validation_times c of (t1, t2, t3) \<Rightarrow>
        validate_signal (copy_signal s lots) equity [] t1 t2 t3 g)"

text \<open>The size of the copy: proportional to the allocation, at least one hundredth.\<close>

definition adjusted_size :: "source_trade \<Rightarrow> decimal \<Rightarrow> decimal \<Rightarrow> py_error + decimal" where
  "adjusted_size s allocation equity =
     bindE (d_div allocation equity) (\<lambda>ratio.
     bindE (quantize_even (d_mul (st_size s) ratio)) (\<lambda>lots.
       Inr (if lots < 1 / 100 then 1 / 100 else lots)))"

text \<open>After the validation: the second test of the timeout and the bookkeeping.\<close>

definition execute_copy :: "copied_trade \<Rightarrow> copy_clock \<Rightarrow> copy_engine \<Rightarrow> copied_trade \<times> copy_engine" where
  "execute_copy t c e =
     (if of_int (ce_execution_timeout e) < f_sub (cc_validated c) (cc_start c)
      then (t\<lparr>ct_status := TIMED_OUT\<rparr>, e)
      else
        (let t1 = t\<lparr>ct_status := EXECUTED,
                    ct_execution_time_ms := f_mul (f_sub (cc_finished c) (cc_start c)) 1000\<rparr>
         in (t1, e\<lparr>ce_active_copies := AList.update (ct_deal_id t1) t1 (ce_active_copies e),
                   ce_trader_allocations := AList.map_entry (ct_trader_id t1)
                     (\<lambda>a. a\<lparr>ta_open_positions := ta_open_positions a @ [ct_deal_id t1]\<rparr>)
                     (ce_trader_allocations e)\<rparr>)))"

definition replicate_trade ::
  "source_trade \<Rightarrow> decimal \<Rightarrow> decimal \<Rightarrow> copy_clock \<Rightarrow> copy_engine
   \<Rightarrow> (py_error + copied_trade) \<times> copy_engine" where
  "replicate_trade s allocation equity c e0 =
     (let deal = ce_deal_counter e0 + 1;
          e = e0\<lparr>ce_deal_counter := deal\<rparr>
      in if equity \<le> 0 then (Inr (new_copy deal s 0 CANCELLED (cc_now c)), e)
         else case adjusted_size s allocation equity of
           Inl err \<Rightarrow> (Inl err, e)
         | Inr lots \<Rightarrow>
             let t = new_copy deal s lots COPY_PENDING (cc_now c)
             in if of_int (ce_execution_timeout e) < f_sub (cc_checked c) (cc_start c)
                then (Inr (t\<lparr>ct_status := TIMED_OUT\<rparr>), e)
                else case ce_risk_engine e of
                  None \<Rightarrow> (case execute_copy t c e of (t1, e1) \<Rightarrow> (Inr t1, e1))
                | Some g \<Rightarrow>
                    case validate_with_risk_engine s lots equity c g of (r, g1, evs) \<Rightarrow>
                      let e1 = e\<lparr>ce_risk_engine := Some g1\<rparr>
                      in if cc_validation_timeout c then (Inr (t\<lparr>ct_status := TIMED_OUT\<rparr>), e1)
                         else case r of
                           Inl err \<Rightarrow> (Inl err, e1)
                         | Inr v \<Rightarrow>
                             if \<not> vr_allowed v then (Inr (t\<lparr>ct_status := RISK_REJECTED\<rparr>), e1)
                             else case execute_copy t c e1 of (t1, e2) \<Rightarrow> (Inr t1, e2))"

definition close_copied_position :: "deal \<Rightarrow> micros \<Rightarrow> copy_engine \<Rightarrow> copied_trade option \<times> copy_engine" where
  "close_copied_position deal now e =
     (case map_of (ce_active_copies e) deal of
        None \<Rightarrow> (None, e)
      | Some t \<Rightarrow>
          (Some (t\<lparr>ct_status := COPY_CLOSED, ct_closed_at := Some now\<rparr>),
           e\<lparr>ce_active_copies := AList.delete deal (ce_active_copies e),
             ce_trader_allocations := AList.map_entry (ct_trader_id t)
               (\<lambda>a. a\<lparr>ta_open_positions := remove1 deal (ta_open_positions a)\<rparr>)
               (ce_trader_allocations e)\<rparr>))"

fun close_copies :: "deal list \<Rightarrow> micros list \<Rightarrow> copy_engine \<Rightarrow> copied_trade list \<times> copy_engine" where
  "close_copies [] ts e = ([], e)"
| "close_copies (d # ds) ts e =
     (case close_copied_position d (case ts of t # _ \<Rightarrow> t | [] \<Rightarrow> 0) e of (r, e1) \<Rightarrow>
        case close_copies ds (tl ts) e1 of (rs, e2) \<Rightarrow>
          (case r of Some x \<Rightarrow> (x # rs, e2) | None \<Rightarrow> (rs, e2)))"

text \<open>The clock readings of the closes are \<open>ts\<close>; the five-second budget is only logged.\<close>

definition stop_copying_trader :: "string \<Rightarrow> micros list \<Rightarrow> copy_engine \<Rightarrow> copied_trade list \<times> copy_engine" where
  "stop_copying_trader trader ts e =
     (case close_copies (map fst (filter (\<lambda>(d, t). ct_trader_id t = trader) (ce_active_copies e))) ts e of
        (closed_trades, e1) \<Rightarrow>
          (closed_trades, e1\<lparr>ce_trader_allocations := AList.delete trader (ce_trader_allocations e1)\<rparr>))"

definition handle_drawdown_stop :: "string \<Rightarrow> micros list \<Rightarrow> copy_engine \<Rightarrow> copied_trade list \<times> copy_engine" where
  "handle_drawdown_stop trader ts e = stop_copying_trader trader ts e"

text \<open>The warning of a stop divides by the allocated equity.\<close>

definition check_drawdown_stop :: "string \<Rightarrow> decimal \<Rightarrow> micros \<Rightarrow> copy_engine \<Rightarrow> (py_error + bool) \<times> copy_engine" where
  "check_drawdown_stop trader current_pnl now e =
     (case map_of (ce_trader_allocations e) trader of
        None \<Rightarrow> (Inr False, e)
      | Some a \<Rightarrow>
          let recent = filter (\<lambda>(ts, pnl). now - hours (24 * 7) \<le> ts) (ta_pnl_history a @ [(now, current_pnl)]);
              e1 = e\<lparr>ce_trader_allocations := AList.update trader
                       (a\<lparr>ta_current_pnl := current_pnl, ta_pnl_history := recent\<rparr>) (ce_trader_allocations e)\<rparr>
          in if recent = [] then (Inr False, e1)
             else
               (let current_drawdown = d_sub (Max (set (map snd recent))) current_pnl;
                    limit = d_mul (ta_allocated_equity a) (ce_drawdown_stop_pct e)
                in if limit \<le> current_drawdown
                   then (case d_div current_drawdown (ta_allocated_equity a) of
                           Inl err \<Rightarrow> (Inl err, e1)
                         | Inr _ \<Rightarrow> (Inr True, e1))
                   else (Inr False, e1)))"

section \<open>No copied trade passes the risk engine\<close>

text \<open>The signal carries no ATR, and the position sizer rejects a signal without one.\<close>

lemma no_atr_rejected:
  "calculate_size equity risk_pct 0 m z fs lot = Inr sz \<Longrightarrow> sz_rejected sz"
  by (auto simp: calculate_size_def size_rejected_def split: if_splits)

lemma check_copy_rejected:
  assumes "sg_atr s = 0" "check_signal g s equity ps applied = Inr (r, evs)"
  shows "\<not> vr_allowed r"
  using assms(2)
proof (cases rule: check_signal_Inr)
  case (rejected reason extra)
  then show ?thesis by (auto simp: signal_rejected_def)
next
  case sized
  then show ?thesis using assms(1)
    by (auto simp: size_signal_def signal_rejected_def Let_def bindE_Inr_iff dest: no_atr_rejected split: if_splits)
qed

lemma copy_signal_rejected:
  assumes "validate_signal (copy_signal s lots) equity ps t1 t2 t3 g = (Inr r, g', evs)"
  shows "\<not> vr_allowed r"
  using assms
proof (cases rule: validate_signal_cases)
  case (checked dd m r')
  have "sg_atr (copy_signal s lots) = 0" by (simp add: copy_signal_def)
  from check_copy_rejected[OF this checked(6)] checked(5) show ?thesis by simp
qed (auto simp: signal_rejected_def)

text \<open>
  Claim: with a risk engine configured no source trade is ever executed: every replication
  that returns is cancelled, timed out or rejected by the engine, and the active copies stay as
  they were.  (The signal the copy engine builds has the default ATR of zero.)
\<close>

theorem no_copy_passes_the_risk_engine:
  assumes "ce_risk_engine e = Some g"
  shows "ce_active_copies (snd (replicate_trade s allocation equity c e)) = ce_active_copies e \<and>
    (case fst (replicate_trade s allocation equity c e) of
       Inr t \<Rightarrow> ct_status t = CANCELLED \<or> ct_status t = TIMED_OUT \<or> ct_status t = RISK_REJECTED
     | Inl err \<Rightarrow> True)"
  using assms
  by (auto simp: replicate_trade_def validate_with_risk_engine_def new_copy_def Let_def
      dest: copy_signal_rejected split: sum.split prod.split)

theorem no_copy_passes_the_risk_engine_witness:
  "\<forall>s a q c. ce_active_copies (snd (replicate_trade s a q c (copy_engine_init (Some sample_engine) None None None))) = []"
  using no_copy_passes_the_risk_engine[of "copy_engine_init (Some sample_engine) None None None" sample_engine]
  by (simp add: copy_engine_init_def)

section \<open>Copies and allocations\<close>

text \<open>
  Every position an allocation lists is an active copy of its trader, listed once, and the deal
  numbers in use do not exceed the counter.
\<close>

definition copies_ok :: "copy_engine \<Rightarrow> bool" where
  "copies_ok e \<longleftrightarrow> dict_ok (ce_active_copies e) \<and> dict_ok (ce_trader_allocations e) \<and>
     (\<forall>d t. map_of (ce_active_copies e) d = Some t \<longrightarrow>
        ct_deal_id t = d \<and> d \<le> ce_deal_counter e \<and> ct_status t = EXECUTED) \<and>
     (\<forall>tr a. map_of (ce_trader_allocations e) tr = Some a \<longrightarrow>
        distinct (ta_open_positions a) \<and>
        (\<forall>d \<in> set (ta_open_positions a). \<exists>t. map_of (ce_active_copies e) d = Some t \<and> ct_trader_id t = tr))"

lemma copies_ok_init: "copies_ok (copy_engine_init g a b p)"
  by (simp add: copies_ok_def copy_engine_init_def)

lemma copies_ok_register: "copies_ok e \<Longrightarrow> copies_ok (register_trader trader equity now e)"
  by (auto simp: copies_ok_def register_trader_def)

lemma copies_ok_cong:
  "copies_ok e \<Longrightarrow> ce_active_copies e' = ce_active_copies e \<Longrightarrow> ce_trader_allocations e' = ce_trader_allocations e \<Longrightarrow>
   ce_deal_counter e \<le> ce_deal_counter e' \<Longrightarrow> copies_ok e'"
  by (fastforce simp: copies_ok_def)

lemma copies_ok_execute:
  assumes "copies_ok e" "ce_deal_counter e < ct_deal_id t" "ct_deal_id t \<le> ce_deal_counter e'"
    "ce_active_copies e' = ce_active_copies e" "ce_trader_allocations e' = ce_trader_allocations e"
  shows "copies_ok (snd (execute_copy t c e'))"
proof -
  have "copies_ok e'" using assms by (intro copies_ok_cong[OF assms(1)]) auto
  moreover have "map_of (ce_active_copies e') (ct_deal_id t) = None"
    using assms unfolding copies_ok_def by (metis not_le option.exhaust)
  moreover have "ct_deal_id t \<notin> set (ta_open_positions a)" if "map_of (ce_trader_allocations e') tr = Some a" for tr a
    using \<open>copies_ok e'\<close> calculation(2) that unfolding copies_ok_def by (metis option.distinct(1))
  ultimately show ?thesis using assms(3)
    by (fastforce simp: copies_ok_def execute_copy_def Let_def map_of_map_entry split: if_splits)
qed

lemma copies_ok_replicate: "copies_ok e \<Longrightarrow> copies_ok (snd (replicate_trade s allocation equity c e))"
proof -
  assume ok: "copies_ok e"
  let ?e = "e\<lparr>ce_deal_counter := ce_deal_counter e + 1\<rparr>"
  have same: "copies_ok ?e" "copies_ok (?e\<lparr>ce_risk_engine := g\<rparr>)" for g
    by (rule copies_ok_cong[OF ok]; simp)+
  have run: "copies_ok (snd (execute_copy (new_copy (ce_deal_counter e + 1) s lots st now) c ?e))"
    "copies_ok (snd (execute_copy (new_copy (ce_deal_counter e + 1) s lots st now) c (?e\<lparr>ce_risk_engine := g\<rparr>)))"
    for lots st now g
    by (rule copies_ok_execute[OF ok]; simp add: new_copy_def)+
  show ?thesis using same run
    by (simp add: replicate_trade_def Let_def case_prod_beta split: sum.split option.split)
qed

lemma copies_ok_close:
  assumes "copies_ok e"
  shows "copies_ok (snd (close_copied_position deal now e))"
proof (cases "map_of (ce_active_copies e) deal")
  case (Some t)
  then show ?thesis using assms
    by (fastforce simp: copies_ok_def close_copied_position_def map_of_map_entry)
qed (use assms in \<open>simp add: close_copied_position_def\<close>)

lemma close_copies_active:
  "ce_active_copies (snd (close_copies ds ts e)) = filter (\<lambda>(d, t). d \<notin> set ds) (ce_active_copies e)"
proof (induction ds arbitrary: ts e)
  case Nil
  then show ?case by (simp add: case_prod_beta)
next
  case (Cons d ds)
  have "ce_active_copies (snd (close_copied_position d now e)) = filter (\<lambda>(k, t). k \<noteq> d) (ce_active_copies e)" for now
  proof (cases "map_of (ce_active_copies e) d")
    case None
    then have "\<And>b. (d, b) \<notin> set (ce_active_copies e)" by (metis map_of_eq_None_iff fst_conv image_eqI)
    then show ?thesis using None by (auto simp: close_copied_position_def intro!: filter_True[symmetric])
  next
    case (Some t)
    then show ?thesis by (auto simp: close_copied_position_def AList.delete_eq intro!: filter_cong)
  qed
  then show ?case using Cons.IH
    by (auto simp: case_prod_beta Let_def conj_commute split: option.split intro!: filter_cong)
qed

lemma close_copies_results:
  assumes "distinct ds"
    "\<forall>d \<in> set ds. \<exists>t. map_of (ce_active_copies e) d = Some t \<and> ct_deal_id t = d \<and> ct_trader_id t = trader"
  shows "map ct_deal_id (fst (close_copies ds ts e)) = ds \<and>
    list_all (\<lambda>t. ct_status t = COPY_CLOSED \<and> ct_trader_id t = trader) (fst (close_copies ds ts e))"
  using assms
proof (induction ds arbitrary: ts e)
  case (Cons d ds)
  from Cons.prems(2) obtain t where t: "map_of (ce_active_copies e) d = Some t" "ct_deal_id t = d" "ct_trader_id t = trader"
    by auto
  define e1 where "e1 now = snd (close_copied_position d now e)" for now
  have "\<forall>d' \<in> set ds. \<exists>t. map_of (ce_active_copies (e1 now)) d' = Some t \<and> ct_deal_id t = d' \<and> ct_trader_id t = trader" for now
    using Cons.prems t by (auto simp: e1_def close_copied_position_def)
  from Cons.IH[OF _ this] Cons.prems(1) show ?case
    using t unfolding e1_def by (simp add: case_prod_beta close_copied_position_def)
qed (simp add: case_prod_beta)

lemma copies_ok_close_copies: "copies_ok e \<Longrightarrow> copies_ok (snd (close_copies ds ts e))"
proof (induction ds arbitrary: ts e)
  case (Cons d ds)
  then show ?case using copies_ok_close by (simp add: case_prod_beta split: option.split)
qed simp

lemma copies_ok_stop:
  assumes "copies_ok e" shows "copies_ok (snd (stop_copying_trader trader ts e))"
proof -
  have "copies_ok e' \<Longrightarrow> copies_ok (e'\<lparr>ce_trader_allocations := AList.delete trader (ce_trader_allocations e')\<rparr>)" for e'
    by (auto simp: copies_ok_def)
  then show ?thesis using copies_ok_close_copies[OF assms] by (simp add: stop_copying_trader_def case_prod_beta)
qed

lemma copies_ok_drawdown: "copies_ok e \<Longrightarrow> copies_ok (snd (check_drawdown_stop trader pnl now e))"
proof (cases "map_of (ce_trader_allocations e) trader")
  case (Some a)
  assume ok: "copies_ok e"
  have "copies_ok (e\<lparr>ce_trader_allocations := AList.update trader (a\<lparr>ta_current_pnl := pnl, ta_pnl_history := hist\<rparr>)
      (ce_trader_allocations e)\<rparr>)" for hist
    using ok Some by (auto simp: copies_ok_def)
  then show ?thesis
    by (simp add: Some check_drawdown_stop_def Let_def split: sum.split)
qed (simp add: check_drawdown_stop_def)

datatype copy_op =
    Register string decimal micros
  | Replicate source_trade decimal decimal copy_clock
  | Close deal micros
  | Stop string "micros list"
  | Check string decimal micros

fun copy_apply :: "copy_op \<Rightarrow> copy_engine \<Rightarrow> copy_engine" where
  "copy_apply (Register trader equity now) e = register_trader trader equity now e"
| "copy_apply (Replicate s allocation equity c) e = snd (replicate_trade s allocation equity c e)"
| "copy_apply (Close d now) e = snd (close_copied_position d now e)"
| "copy_apply (Stop trader ts) e = snd (stop_copying_trader trader ts e)"
| "copy_apply (Check trader pnl now) e = snd (check_drawdown_stop trader pnl now e)"

lemma copies_ok_run: "copies_ok e \<Longrightarrow> copies_ok (fold copy_apply ops e)"
proof (induction ops arbitrary: e)
  case (Cons p ops)
  have "copies_ok (copy_apply p e)" using Cons.prems
    by (cases p) (simp_all add: copies_ok_register copies_ok_replicate copies_ok_close copies_ok_stop copies_ok_drawdown)
  then show ?case using Cons.IH by simp
qed simp

text \<open>
  Claim C29: in every run of a new copy engine the positions listed under a trader are distinct
  executed copies of that trader; and stopping a trader closes every active copy of that trader,
  each once, leaves every other copy active and forgets the allocation.
\<close>

theorem copies_follow_their_trader:
  "copies_ok (fold copy_apply ops (copy_engine_init g a b p)) \<and>
   (case stop_copying_trader trader ts (fold copy_apply ops (copy_engine_init g a b p)) of
      (closed_trades, e') \<Rightarrow>
        ce_active_copies e' = filter (\<lambda>(d, t). ct_trader_id t \<noteq> trader)
          (ce_active_copies (fold copy_apply ops (copy_engine_init g a b p))) \<and>
        map_of (ce_trader_allocations e') trader = None \<and>
        list_all (\<lambda>t. ct_status t = COPY_CLOSED \<and> ct_trader_id t = trader) closed_trades \<and>
        map ct_deal_id closed_trades = map fst (filter (\<lambda>(d, t). ct_trader_id t = trader)
          (ce_active_copies (fold copy_apply ops (copy_engine_init g a b p)))))"
proof -
  define e where "e = fold copy_apply ops (copy_engine_init g a b p)"
  have ok: "copies_ok e" by (simp add: e_def copies_ok_run copies_ok_init)
  define ds where "ds = map fst (filter (\<lambda>(d, t). ct_trader_id t = trader) (ce_active_copies e))"
  have keys: "distinct (map fst (ce_active_copies e))" using ok by (simp add: copies_ok_def dict_ok_def)
  have mem: "map_of (ce_active_copies e) d = Some t \<longleftrightarrow> (d, t) \<in> set (ce_active_copies e)" for d t
    using keys by simp
  have "\<forall>d \<in> set ds. \<exists>t. map_of (ce_active_copies e) d = Some t \<and> ct_deal_id t = d \<and> ct_trader_id t = trader"
    using ok by (fastforce simp: ds_def copies_ok_def mem)
  moreover have "distinct ds" unfolding ds_def by (rule distinct_map_filter[OF keys])
  ultimately have r: "map ct_deal_id (fst (close_copies ds ts e)) = ds"
      "list_all (\<lambda>t. ct_status t = COPY_CLOSED \<and> ct_trader_id t = trader) (fst (close_copies ds ts e))"
    using close_copies_results by blast+
  have "d \<in> set ds \<longleftrightarrow> ct_trader_id t = trader" if "(d, t) \<in> set (ce_active_copies e)" for d t
  proof
    assume "d \<in> set ds"
    then obtain t' where "(d, t') \<in> set (ce_active_copies e)" "ct_trader_id t' = trader" by (auto simp: ds_def)
    then show "ct_trader_id t = trader" using that keys by (metis eq_key_imp_eq_value)
  next
    assume "ct_trader_id t = trader"
    then show "d \<in> set ds" using that by (force simp: ds_def)
  qed
  then have "ce_active_copies (snd (close_copies ds ts e)) = filter (\<lambda>(d, t). ct_trader_id t \<noteq> trader) (ce_active_copies e)"
    unfolding close_copies_active by (auto intro!: filter_cong)
  then show ?thesis using ok r unfolding e_def[symmetric]
    by (simp add: stop_copying_trader_def ds_def[symmetric] case_prod_beta)
qed

section \<open>The drawdown stop\<close>

fun checks :: "string \<Rightarrow> (micros \<times> decimal) list \<Rightarrow> copy_engine \<Rightarrow> copy_engine" where
  "checks trader [] e = e"
| "checks trader ((now, pnl) # rs) e = checks trader rs (snd (check_drawdown_stop trader pnl now e))"

definition recent :: "micros \<Rightarrow> (micros \<times> decimal) list \<Rightarrow> (micros \<times> decimal) list" where
  "recent now rs = filter (\<lambda>(ts, pnl). now - hours (24 * 7) \<le> ts) rs"

fun rising :: "micros \<Rightarrow> (micros \<times> decimal) list \<Rightarrow> bool" where
  "rising t [] = True"
| "rising t ((now, pnl) # rs) = (t \<le> now \<and> rising now rs)"

lemma recent_recent: "s \<le> t \<Longrightarrow> recent t (recent s rs @ rs') = recent t (rs @ rs')"
  by (auto simp: recent_def intro!: filter_cong)

lemma recent_now [simp]: "recent now (rs @ [(now, pnl)]) = recent now rs @ [(now, pnl)]"
  by (simp add: recent_def hours_def)

lemma check_drawdown_state:
  assumes "map_of (ce_trader_allocations e) trader = Some a"
  shows "\<exists>a'. map_of (ce_trader_allocations (snd (check_drawdown_stop trader pnl now e))) trader = Some a' \<and>
    ta_allocated_equity a' = ta_allocated_equity a \<and> ta_pnl_history a' = recent now (ta_pnl_history a) @ [(now, pnl)]"
    "ce_drawdown_stop_pct (snd (check_drawdown_stop trader pnl now e)) = ce_drawdown_stop_pct e"
  using assms recent_now[of now "ta_pnl_history a" pnl]
  by (auto simp: check_drawdown_stop_def Let_def recent_def split: sum.split option.split)

lemma check_drawdown_result:
  assumes "map_of (ce_trader_allocations e) trader = Some a"
  shows "fst (check_drawdown_stop trader pnl now e) =
    (if d_mul (ta_allocated_equity a) (ce_drawdown_stop_pct e) \<le>
          d_sub (Max (set (map snd (recent now (ta_pnl_history a) @ [(now, pnl)])))) pnl
     then (case d_div (d_sub (Max (set (map snd (recent now (ta_pnl_history a) @ [(now, pnl)])))) pnl) (ta_allocated_equity a) of
             Inl err \<Rightarrow> Inl err | Inr _ \<Rightarrow> Inr True)
     else Inr False)"
proof -
  have "filter (\<lambda>(ts, pnl). now - hours (24 * 7) \<le> ts) (ta_pnl_history a @ [(now, pnl)]) = recent now (ta_pnl_history a) @ [(now, pnl)]"
    using recent_now[of now "ta_pnl_history a" pnl] by (simp add: recent_def)
  then show ?thesis unfolding check_drawdown_stop_def assms option.case Let_def
    by (simp only: append_is_Nil_conv list.distinct if_False split: if_split sum.split) (auto split: sum.split)
qed

lemma checks_state:
  assumes "map_of (ce_trader_allocations e) trader = Some a" "ta_pnl_history a = recent t h" "rising t rs"
  shows "\<exists>a'. map_of (ce_trader_allocations (checks trader rs e)) trader = Some a' \<and>
    ta_allocated_equity a' = ta_allocated_equity a \<and>
    (\<forall>now \<ge> (if rs = [] then t else fst (last rs)). recent now (ta_pnl_history a') = recent now (h @ rs)) \<and>
    ce_drawdown_stop_pct (checks trader rs e) = ce_drawdown_stop_pct e"
  using assms
proof (induction rs arbitrary: e a t h)
  case Nil
  then show ?case using recent_recent[where rs' = "[]"] by auto
next
  case (Cons r rs)
  obtain now pnl where r: "r = (now, pnl)" by force
  from check_drawdown_state[OF Cons.prems(1), of pnl now] obtain a1 where
    a1: "map_of (ce_trader_allocations (snd (check_drawdown_stop trader pnl now e))) trader = Some a1"
      "ta_allocated_equity a1 = ta_allocated_equity a" "ta_pnl_history a1 = recent now (ta_pnl_history a) @ [(now, pnl)]"
      "ce_drawdown_stop_pct (snd (check_drawdown_stop trader pnl now e)) = ce_drawdown_stop_pct e" by blast
  have "ta_pnl_history a1 = recent now (h @ [(now, pnl)])"
    using a1(3) Cons.prems(2,3) recent_recent[of t now h "[]"] by (simp add: r)
  from Cons.IH[OF a1(1) this] Cons.prems(3) a1(2,4) show ?case by (cases rs) (auto simp: r)
qed

text \<open>
  Claim: after any reports of the profit of a registered trader, at non-decreasing times, the
  next report asks for a stop exactly when the profit has fallen from its largest value reported
  within the last seven days by at least the configured share of the allocated equity, up to
  decimal rounding.  With an allocation of zero the report raises.
\<close>

theorem drawdown_stop_in_seven_days:
  assumes "rising t rs" "rising (if rs = [] then t else fst (last rs)) [(now, pnl)]"
  shows "fst (check_drawdown_stop trader pnl now (checks trader rs (register_trader trader equity t0 e))) =
    (let peak = Max (set (map snd (recent now (rs @ [(now, pnl)]))))
     in if equity = 0 then
          (if d_mul 0 (ce_drawdown_stop_pct e) \<le> d_sub peak pnl
           then Inl (if d_sub peak pnl = 0 then DecimalInvalidOperation else DecimalDivisionByZero) else Inr False)
        else Inr (d_mul equity (ce_drawdown_stop_pct e) \<le> d_sub peak pnl))"
proof -
  let ?e = "register_trader trader equity t0 e"
  have "map_of (ce_trader_allocations ?e) trader = Some \<lparr>ta_trader_id = trader, ta_allocated_equity = equity,
      ta_current_pnl = 0, ta_start_date = t0, ta_open_positions = [], ta_pnl_history = []\<rparr>"
    by (simp add: register_trader_def)
  from checks_state[OF this _ assms(1), of "[]"] obtain a where
    a: "map_of (ce_trader_allocations (checks trader rs ?e)) trader = Some a" "ta_allocated_equity a = equity"
      "recent now (ta_pnl_history a) = recent now rs"
      "ce_drawdown_stop_pct (checks trader rs ?e) = ce_drawdown_stop_pct ?e"
    using assms(2) by (auto simp: recent_def)
  have "ce_drawdown_stop_pct (checks trader rs ?e) = ce_drawdown_stop_pct e"
    using a(4) by (simp add: register_trader_def)
  then show ?thesis unfolding check_drawdown_result[OF a(1)] a(2,3) recent_now
    by (cases "equity = 0") (simp_all add: Let_def d_div_def)
qed

theorem drawdown_stop_in_seven_days_witness:
  "fst (check_drawdown_stop ''T'' 0 (hours 200) (checks ''T'' [(0, 300), (hours 100, 200)]
     (register_trader ''T'' 1000 0 (copy_engine_init None None None (Some (1/8)))))) = Inr True"
proof -
  have "dec_of_float (1/8) = 1/8" by code_simp
  moreover have "Max (set (map snd (recent (hours 200) ([(0, 300), (hours 100, 200)] @ [(hours 200, 0)])))) = (200 :: decimal)"
    by code_simp
  moreover have "d_mul 1000 (1/8) \<le> d_sub 200 0" by code_simp
  ultimately show ?thesis
    by (subst drawdown_stop_in_seven_days[where t = 0]) (simp_all only: copy_engine_init_def Let_def or_default_simps
        copy_engine.select_convs rising.simps, simp_all add: hours_def)
qed

end
