(* ===== verification/Copy_Allocation.thy ===== *)
theory Copy_Allocation
  imports "HOL-Library.Multiset" Effects Constants
begin

text \<open>
  The choice of traders to copy and the equity given to each: the ranking of
  \<open>src/copy_trading/trader_ranker.py\<close> and the allocation of
  \<open>src/copy_trading/allocation_manager.py\<close>.  The sources of trader statistics are actions on an
  outside world; of the three in the code the internal list is modelled, the CSV file and the
  remote service are parameters.
\<close>

section \<open>Ranking\<close>

record trader_stats =
  tr_trader_id :: string
  tr_win_rate :: pyfloat
  tr_max_drawdown :: pyfloat
  tr_sharpe_ratio :: pyfloat
  tr_consistency :: pyfloat
  tr_track_record_days :: int

record ranked_trader =
  rt_trader :: trader_stats
  rt_score :: pyfloat

record 'w trader_ranker =
  rk_data_sources :: "('w, trader_stats list) action list"
  rk_min_pool_size :: nat
  rk_current_pool :: "ranked_trader list"

definition trader_ranker_init :: "('w, trader_stats list) action list option \<Rightarrow> nat option \<Rightarrow> 'w trader_ranker" where
  "trader_ranker_init sources pool =
     \<lparr>rk_data_sources = or_default sources [], rk_min_pool_size = or_default pool 10, rk_current_pool = []\<rparr>"

text \<open>\<open>InternalTraderSource\<close>: its state is its list.\<close>

definition internal_source :: "trader_stats list \<Rightarrow> ('w, trader_stats list) action" where
  "internal_source ts = returnA ts"

text \<open>The four weights are 0.25, exact in binary; the normalisation bounds 1, 1, 5 and 10 are not zero.\<close>

definition calculate_risk_score :: "trader_stats \<Rightarrow> pyfloat" where
  "calculate_risk_score t =
     (let win_rate_score = f_mul (min (f_quot (tr_win_rate t) 1) 1) 100;
          drawdown_score = f_mul (f_sub 1 (min (f_quot (tr_max_drawdown t) 1) 1)) 100;
          sharpe_score = f_mul (min (f_quot (max (tr_sharpe_ratio t) 0) 5) 1) 100;
          consistency_score = f_mul (min (f_quot (max (tr_consistency t) 0) 10) 1) 100;
          score = f_add (f_add (f_add (f_mul (1/4) win_rate_score) (f_mul (1/4) drawdown_score))
                    (f_mul (1/4) sharpe_score)) (f_mul (1/4) consistency_score)
      in max 0 (min 100 score))"

definition is_eligible :: "trader_stats \<Rightarrow> bool" where
  "is_eligible t =
     (if tr_track_record_days t < COPY_MIN_TRACK_RECORD_DAYS then False
      else if tr_win_rate t \<le> COPY_MIN_WIN_RATE then False
      else if COPY_MAX_DRAWDOWN \<le> tr_max_drawdown t then False
      else True)"

text \<open>The list sort is stable and descending.\<close>

definition rank_traders :: "trader_stats list \<Rightarrow> ranked_trader list" where
  "rank_traders ts =
     sort_key (\<lambda>r. - rt_score r)
       (map (\<lambda>t. \<lparr>rt_trader = t, rt_score = calculate_risk_score t\<rparr>) (filter is_eligible ts))"

definition weekly_reevaluate :: "trader_stats list \<Rightarrow> 'w trader_ranker \<Rightarrow> ranked_trader list \<times> 'w trader_ranker" where
  "weekly_reevaluate ts k =
     (let ranked = rank_traders ts
      in if length ranked \<le> rk_min_pool_size k then (ranked, k\<lparr>rk_current_pool := ranked\<rparr>)
         else
           (let median_score = rt_score (ranked ! (length ranked div 2));
                above = filter (\<lambda>r. median_score \<le> rt_score r) ranked;
                pool = (if length above < rk_min_pool_size k then take (rk_min_pool_size k) ranked else above)
            in (pool, k\<lparr>rk_current_pool := pool\<rparr>)))"

text \<open>The loop over the sources: a source that raises is logged and skipped.\<close>

fun collect_traders ::
  "('w, trader_stats list) action list \<Rightarrow> (string, trader_stats) dict \<Rightarrow> 'w \<Rightarrow> (string, trader_stats) dict \<times> 'w" where
  "collect_traders [] acc w = (acc, w)"
| "collect_traders (src # srcs) acc w =
     (case src w of
        (Inr ts, w') \<Rightarrow> collect_traders srcs (fold (\<lambda>t. AList.update (tr_trader_id t) t) ts acc) w'
      | (Inl e, w') \<Rightarrow> collect_traders srcs acc w')"

definition fetch_and_rank :: "'w trader_ranker \<Rightarrow> 'w \<Rightarrow> ranked_trader list \<times> 'w" where
  "fetch_and_rank k w =
     (case collect_traders (rk_data_sources k) [] w of (acc, w') \<Rightarrow> (rank_traders (map snd acc), w'))"

section \<open>Allocation\<close>

record allocation_result =
  al_trader_id :: string
  al_allocation :: decimal
  al_allocation_pct :: decimal
  al_capped :: bool

record allocation_manager =
  am_max_per_trader_pct :: decimal
  am_min_per_trader_pct :: decimal
  am_max_traders :: nat

definition allocation_manager_init :: "pyfloat option \<Rightarrow> pyfloat option \<Rightarrow> nat option \<Rightarrow> allocation_manager" where
  "allocation_manager_init hi lo n =
     \<lparr>am_max_per_trader_pct = dec_of_float (or_default hi COPY_MAX_ALLOCATION_PCT),
      am_min_per_trader_pct = dec_of_float (or_default lo COPY_MIN_ALLOCATION_PCT),
      am_max_traders = or_default n (nat COPY_MAX_TRADERS)\<rparr>"

definition calculate_allocation :: "allocation_manager \<Rightarrow> pyfloat \<Rightarrow> pyfloat \<Rightarrow> decimal \<Rightarrow> py_error + decimal" where
  "calculate_allocation m score total_scores equity =
     (if total_scores \<le> 0 \<or> score \<le> 0 \<or> equity \<le> 0 then Inr 0
      else
        (let proportion = d_quot (dec_of_float score) (dec_of_float total_scores);
             raw_allocation = d_mul equity proportion;
             max_allocation = d_mul equity (am_max_per_trader_pct m);
             min_allocation = d_mul equity (am_min_per_trader_pct m)
         in quantize_down
              (if max_allocation < raw_allocation then max_allocation
               else if raw_allocation < min_allocation then min_allocation
               else raw_allocation)))"

fun allocate_each ::
  "allocation_manager \<Rightarrow> pyfloat \<Rightarrow> decimal \<Rightarrow> (string \<times> pyfloat) list \<Rightarrow> py_error + allocation_result list" where
  "allocate_each m total_scores equity [] = Inr []"
| "allocate_each m total_scores equity ((trader, score) # ts) =
     bindE (calculate_allocation m score total_scores equity) (\<lambda>allocation.
     bindE (allocate_each m total_scores equity ts) (\<lambda>rs.
       Inr (\<lparr>al_trader_id = trader, al_allocation = allocation,
             al_allocation_pct = (if 0 < equity then d_quot allocation equity else 0),
             al_capped = (d_mul equity (am_max_per_trader_pct m) \<le> allocation)\<rparr> # rs)))"

definition calculate_allocations ::
  "allocation_manager \<Rightarrow> (string, pyfloat) dict \<Rightarrow> decimal \<Rightarrow> py_error + allocation_result list" where
  "calculate_allocations m trader_scores equity =
     (if trader_scores = [] \<or> equity \<le> 0 then Inr []
      else
        (let selected = take (am_max_traders m) (sort_key (\<lambda>x. - snd x) trader_scores);
             total_scores = f_sum (map snd selected)
         in if total_scores \<le> 0 then Inr []
            else bindE (allocate_each m total_scores equity selected) (\<lambda>rs.
                   Inr (sort_key (\<lambda>r. - al_allocation r) rs))))"

definition validate_allocation :: "allocation_manager \<Rightarrow> decimal \<Rightarrow> decimal \<Rightarrow> bool" where
  "validate_allocation m allocation equity =
     (if equity \<le> 0 then False
      else am_min_per_trader_pct m \<le> d_quot allocation equity \<and> d_quot allocation equity \<le> am_max_per_trader_pct m)"

section \<open>Scores and pools\<close>

lemma score_bounds: "0 \<le> calculate_risk_score t" "calculate_risk_score t \<le> 100"
  by (simp_all add: calculate_risk_score_def Let_def)

lemma rank_traders_facts:
  "sorted (map (\<lambda>r. - rt_score r) (rank_traders ts))"
  "list_all (\<lambda>r. is_eligible (rt_trader r) \<and> rt_score r = calculate_risk_score (rt_trader r)) (rank_traders ts)"
  "mset (map rt_trader (rank_traders ts)) = mset (filter is_eligible ts)"
  by (auto simp: rank_traders_def list_all_iff image_mset.compositionality comp_def)

lemma filter_sorted_takeWhile:
  fixes f :: "'a \<Rightarrow> rat"
  shows "sorted (map (\<lambda>r. - f r) rs) \<Longrightarrow> filter (\<lambda>r. c \<le> f r) rs = takeWhile (\<lambda>r. c \<le> f r) rs"
proof (induction rs)
  case (Cons r rs)
  show ?case
  proof (cases "c \<le> f r")
    case False
    have "f r' \<le> f r" if "r' \<in> set rs" for r' using Cons.prems that by auto
    then show ?thesis using False by (force simp: filter_empty_conv)
  qed (use Cons in simp)
qed simp

lemma takeWhile_from_median:
  fixes f :: "'a \<Rightarrow> rat"
  assumes "sorted (map (\<lambda>r. - f r) rs)" "m < length rs"
  shows "m < length (takeWhile (\<lambda>r. f (rs ! m) \<le> f r) rs)"
proof (rule ccontr)
  let ?w = "takeWhile (\<lambda>r. f (rs ! m) \<le> f r) rs"
  assume "\<not> m < length ?w"
  then have w: "length ?w \<le> m" by simp
  then have "\<not> f (rs ! m) \<le> f (rs ! length ?w)"
    using nth_length_takeWhile[of "\<lambda>r. f (rs ! m) \<le> f r" rs] assms(2) by simp
  moreover have "f (rs ! m) \<le> f (rs ! length ?w)"
    using sorted_nth_mono[OF assms(1) w] assms(2) w by simp
  ultimately show False by simp
qed

text \<open>
  Claim: the weekly re-evaluation keeps a prefix of the ranking of the eligible traders: all of
  them if the pool is small, otherwise at least the better half and at least the minimum pool;
  every score lies between 0 and 100 and no dropped trader outranks a kept one.
\<close>

theorem weekly_pool_is_best_half:
  "\<exists>kept. fst (weekly_reevaluate ts k) = take kept (rank_traders ts) \<and>
     rk_current_pool (snd (weekly_reevaluate ts k)) = fst (weekly_reevaluate ts k) \<and>
     min (rk_min_pool_size k) (length (rank_traders ts)) \<le> kept \<and>
     length (rank_traders ts) \<le> 2 * kept \<and>
     mset (map rt_trader (rank_traders ts)) = mset (filter is_eligible ts) \<and>
     sorted (map (\<lambda>r. - rt_score r) (rank_traders ts)) \<and>
     list_all (\<lambda>r. 0 \<le> rt_score r \<and> rt_score r \<le> 100) (rank_traders ts)"
proof -
  define rs where "rs = rank_traders ts"
  define m where "m = length rs div 2"
  define above where "above = filter (\<lambda>r. rt_score (rs ! m) \<le> rt_score r) rs"
  have sorted: "sorted (map (\<lambda>r. - rt_score r) rs)" by (simp add: rs_def rank_traders_facts)
  have scores: "list_all (\<lambda>r. 0 \<le> rt_score r \<and> rt_score r \<le> 100) rs"
    using rank_traders_facts(2)[of ts] score_bounds by (auto simp: rs_def list_all_iff)
  have above_take: "above = take (length above) rs" "rs \<noteq> [] \<Longrightarrow> m < length above"
  proof -
    have w: "above = takeWhile (\<lambda>r. rt_score (rs ! m) \<le> rt_score r) rs"
      unfolding above_def by (rule filter_sorted_takeWhile[OF sorted])
    show "above = take (length above) rs" unfolding w by (rule takeWhile_eq_take)
    show "rs \<noteq> [] \<Longrightarrow> m < length above"
      unfolding w by (rule takeWhile_from_median[OF sorted]) (simp add: m_def)
  qed
  have result: "weekly_reevaluate ts k =
      (let pool = (if length rs \<le> rk_min_pool_size k then rs
                   else if length above < rk_min_pool_size k then take (rk_min_pool_size k) rs else above)
       in (pool, k\<lparr>rk_current_pool := pool\<rparr>))"
    by (simp add: weekly_reevaluate_def Let_def rs_def above_def m_def)
  define kept where "kept = (if length rs \<le> rk_min_pool_size k then length rs
      else if length above < rk_min_pool_size k then rk_min_pool_size k else length above)"
  have "fst (weekly_reevaluate ts k) = take kept rs" using above_take(1) by (simp add: result kept_def Let_def)
  moreover have "min (rk_min_pool_size k) (length rs) \<le> kept" "length rs \<le> 2 * kept"
    using above_take(2) by (fastforce simp: kept_def m_def)+
  ultimately show ?thesis using sorted scores rank_traders_facts(3)[of ts] unfolding rs_def[symmetric]
    by (intro exI[of _ kept]) (simp add: result Let_def rs_def)
qed

section \<open>Allocations stay within the equity\<close>

lemma copy_constants [simp]: "dec_of_float COPY_MAX_ALLOCATION_PCT = 1/10" "dec_of_float COPY_MIN_ALLOCATION_PCT = 1/100"
proof -
  have v: "COPY_MAX_ALLOCATION_PCT = 3602879701896397 / 36028797018963968" "COPY_MIN_ALLOCATION_PCT = 5764607523034235 / 576460752303423488"
    by code_simp+
  show "dec_of_float COPY_MAX_ALLOCATION_PCT = 1/10" "dec_of_float COPY_MIN_ALLOCATION_PCT = 1/100"
    unfolding v by code_simp+
qed

lemma is_dec_scale:
  assumes "is_dec x" shows "is_dec (x * 10 powi j)"
proof -
  obtain m k where x: "x = of_int m * 10 powi k" "\<bar>m\<bar> \<le> 10 ^ 28"
    using round_sig_form[of 10 28 x] assms by (auto simp: is_dec_def dec_def)
  then have "x * 10 powi j = of_int m * 10 powi (k + j)" by (simp add: power_int_add)
  then show ?thesis using is_dec_coeff[OF x(2)] by simp
qed

lemma d_mul_tenth: "is_dec x \<Longrightarrow> d_mul x (1/10) = x / 10" "is_dec x \<Longrightarrow> d_mul x (1/100) = x / 100"
proof -
  have "(10 :: rat) powi (- 1) = 1/10" "(10 :: rat) powi (- 2) = 1/100" by (simp_all add: power_int_def power_one_over)
  then show "is_dec x \<Longrightarrow> d_mul x (1/10) = x / 10" "is_dec x \<Longrightarrow> d_mul x (1/100) = x / 100"
    using is_dec_scale[of x "-1"] is_dec_scale[of x "-2"] by (simp_all add: d_mul_def)
qed

lemma allocation_bounds:
  assumes "calculate_allocation (allocation_manager_init None None None) score total_scores equity = Inr d" "is_dec equity" "0 < equity"
  shows "0 \<le> d \<and> d \<le> equity / 10 \<and> (0 < total_scores \<and> 0 < score \<longrightarrow> equity / 100 - 1/100 < d)"
proof (cases "total_scores \<le> 0 \<or> score \<le> 0")
    case False
    define raw where "raw = d_mul equity (d_quot (dec_of_float score) (dec_of_float total_scores))"
    define v where "v = (if equity / 10 < raw then equity / 10 else if raw < equity / 100 then equity / 100 else raw)"
    have q: "quantize_down v = Inr d"
      using assms(1,3) False d_mul_tenth[OF assms(2)] unfolding v_def raw_def
      by (simp only: calculate_allocation_def allocation_manager_init_def allocation_manager.select_convs or_default_simps
          copy_constants Let_def if_False not_le) auto
    have v: "equity / 100 \<le> v" "v \<le> equity / 10" using assms(3) by (auto simp: v_def)
    then have "0 \<le> v" using assms(3) by simp
    from quantize_down_bounds[OF q this] v show ?thesis by linarith
qed (use assms in \<open>auto simp: calculate_allocation_def\<close>)

lemma allocate_each_bounds:
  assumes "allocate_each (allocation_manager_init None None None) total_scores equity ts = Inr rs" "is_dec equity" "0 < equity"
  shows "map al_trader_id rs = map fst ts \<and> list_all (\<lambda>r. 0 \<le> al_allocation r \<and> al_allocation r \<le> equity / 10) rs \<and>
    sum_list (map al_allocation rs) \<le> of_nat (length ts) * (equity / 10) \<and>
    (0 < total_scores \<and> list_all (\<lambda>t. 0 < snd t) ts \<longrightarrow> list_all (\<lambda>r. equity / 100 - 1/100 < al_allocation r) rs)"
  using assms(1)
proof (induction ts arbitrary: rs)
  case (Cons t ts)
  obtain tr sc where t: "t = (tr, sc)" by force
  from Cons.prems obtain d rs' where d: "calculate_allocation (allocation_manager_init None None None) sc total_scores equity = Inr d"
    and rs': "allocate_each (allocation_manager_init None None None) total_scores equity ts = Inr rs'"
    and rs: "map al_trader_id rs = tr # map al_trader_id rs'" "map al_allocation rs = d # map al_allocation rs'"
      "\<exists>r. rs = r # rs' \<and> al_allocation r = d"
    by (auto simp: t bindE_Inr_iff)
  note b = allocation_bounds[OF d assms(2,3)]
  show ?case using Cons.IH[OF rs'] b rs by (auto simp: t distrib_right)
qed simp

text \<open>
  Claim: with the default configuration, for an equity within decimal precision, every list of
  allocations has at most ten entries for distinct traders, each between zero and a tenth of the
  equity, largest first, together at most the equity; and a trader with a positive score gets at
  least a hundredth of it, less than a cent of rounding aside.
\<close>

theorem allocations_within_equity:
  assumes "calculate_allocations (allocation_manager_init None None None) trader_scores equity = Inr rs"
    "is_dec equity" "dict_ok trader_scores"
  shows "length rs \<le> 10 \<and> distinct (map al_trader_id rs) \<and> set (map al_trader_id rs) \<subseteq> set (map fst trader_scores) \<and>
    list_all (\<lambda>r. 0 \<le> al_allocation r \<and> al_allocation r \<le> equity / 10) rs \<and>
    sorted (map (\<lambda>r. - al_allocation r) rs) \<and>
    (rs = [] \<or> sum_list (map al_allocation rs) \<le> equity) \<and>
    (list_all (\<lambda>t. 0 < snd t) trader_scores \<longrightarrow> list_all (\<lambda>r. equity / 100 - 1/100 < al_allocation r) rs)"
proof (cases "rs = []")
  case False
  define sel where "sel = take 10 (sort_key (\<lambda>x. - snd x) trader_scores)"
  have ten: "am_max_traders (allocation_manager_init None None None) = 10"
    by (simp add: allocation_manager_init_def COPY_MAX_TRADERS_def)
  from assms(1) False obtain rs0 where e: "0 < equity" and tot: "0 < f_sum (map snd sel)"
    and r0: "allocate_each (allocation_manager_init None None None) (f_sum (map snd sel)) equity sel = Inr rs0"
    and rs: "rs = sort_key (\<lambda>r. - al_allocation r) rs0"
    by (auto simp: calculate_allocations_def ten Let_def sel_def bindE_Inr_iff split: if_splits)
  note b = allocate_each_bounds[OF r0 assms(2) e]
  have "set sel \<subseteq> set trader_scores" by (auto simp: sel_def dest: in_set_takeD)
  moreover have "length sel \<le> 10" by (simp add: sel_def)
  moreover have "distinct (map fst sel)"
    using assms(3) unfolding sel_def take_map[symmetric] dict_ok_def
    by (metis distinct_take mset_sort mset_eq_imp_distinct_iff mset_map)
  ultimately have sel: "set sel \<subseteq> set trader_scores" "length sel \<le> 10" "distinct (map fst sel)" by blast+
  have m: "mset rs = mset rs0" by (simp add: rs)
  have set: "set rs = set rs0" using m by (rule mset_eq_setD)
  have sum: "sum_list (map al_allocation rs) = sum_list (map al_allocation rs0)"
    using m by (metis mset_map sum_mset_sum_list)
  have ids: "distinct (map al_trader_id rs)" "set (map al_trader_id rs) = set (map fst sel)"
    using b sel(3) m set by (metis mset_map mset_eq_imp_distinct_iff, metis set_map)
  have len: "length rs = length sel" using b m by (metis length_map mset_eq_length)
  have "of_nat (length sel) * (equity / 10) \<le> 10 * (equity / 10)" using sel(2) e by (intro mult_right_mono) auto
  then have "sum_list (map al_allocation rs) \<le> equity" using b sum by linarith
  then show ?thesis using b sel tot set ids len by (auto simp: list_all_iff rs)
qed simp

theorem allocations_within_equity_witness:
  "\<exists>rs. calculate_allocations (allocation_manager_init None None None) [(''A'', 2), (''B'', 6)] 1000 = Inr rs \<and>
     length rs \<le> 10 \<and> (rs = [] \<or> sum_list (map al_allocation rs) \<le> 1000)"
proof -
  have c: "calculate_allocations (allocation_manager_init None None None) [(''A'', 2), (''B'', 6)] 1000 =
      Inr [\<lparr>al_trader_id = ''B'', al_allocation = 100, al_allocation_pct = 1/10, al_capped = True\<rparr>,
           \<lparr>al_trader_id = ''A'', al_allocation = 100, al_allocation_pct = 1/10, al_capped = True\<rparr>]" by code_simp
  have "is_dec 1000" by code_simp
  from allocations_within_equity[OF c this] c show ?thesis by (auto simp: dict_ok_def)
qed

end
