(* ===== verification/Order_Manager.thy ===== *)
theory Order_Manager
  imports Effects
begin

text \<open>
  The life of an order, \<open>src/trading/order_manager.py\<close>: placement with validation and one retry,
  closing, trailing stops and partial take profit.  The manager's two dictionaries are the state;
  the broker, the notification service, the event bus, the clock, the source of identifiers and
  the pause before a retry are the parameters of the model, actions on an outside world that is
  the third part of the state.  A reference to an \<open>Order\<close> object is its key in \<open>_orders\<close>, so a
  change made before an exception stays.
\<close>

section \<open>Data\<close>

definition DEFAULT_MIN_SIZE :: decimal where "DEFAULT_MIN_SIZE = 1 / 100"
definition ORDER_RETRY_DELAY_SECONDS :: pyfloat where "ORDER_RETRY_DELAY_SECONDS = 1"
definition PARTIAL_TP_MIN_PCT :: decimal where "PARTIAL_TP_MIN_PCT = 1 / 4"
definition PARTIAL_TP_MAX_PCT :: decimal where "PARTIAL_TP_MAX_PCT = 3 / 4"
definition PARTIAL_TP_DEFAULT_PCT :: decimal where "PARTIAL_TP_DEFAULT_PCT = 1 / 2"

datatype order_type = MARKET | LIMIT | STOP | TRAILING_STOP

datatype order_status = PENDING | SUBMITTED | FILLED | REJECTED | FAILED | CLOSED | PARTIALLY_CLOSED

fun order_type_value :: "order_type \<Rightarrow> string" where
  "order_type_value MARKET = ''MARKET''"
| "order_type_value LIMIT = ''LIMIT''"
| "order_type_value STOP = ''STOP''"
| "order_type_value TRAILING_STOP = ''TRAILING_STOP''"

record order =
  or_id :: string
  or_instrument :: string
  or_direction :: string
  or_type :: order_type
  or_size :: decimal
  or_price :: "decimal option"
  or_stop_distance :: "decimal option"
  or_limit_distance :: "decimal option"
  or_trail_distance :: "decimal option"
  or_status :: order_status
  or_deal_reference :: "string option"
  or_deal_id :: "string option"
  or_created_at :: micros
  or_filled_at :: "micros option"
  or_closed_at :: "micros option"
  or_error_message :: "fmsg option"
  or_retry_count :: int
  or_entry_price :: "decimal option"

record trailing_stop_config =
  tc_deal_id :: string
  tc_instrument :: string
  tc_direction :: string
  tc_trail_distance :: decimal
  tc_current_stop :: decimal
  tc_highest_price :: decimal
  tc_lowest_price :: decimal

text \<open>The manager and the world around it.\<close>

record 'w order_manager =
  om_orders :: "(string, order) dict"
  om_stops :: "(string, trailing_stop_config) dict"
  om_world :: 'w

text \<open>What is read of the broker's answers; an absent key is None.\<close>

record placement =
  pl_instrument :: string
  pl_direction :: string
  pl_size :: decimal
  pl_order_type :: string
  pl_price :: "decimal option"
  pl_stop_distance :: "decimal option"
  pl_limit_distance :: "decimal option"

record deal_response =
  rs_deal_reference :: "string option"
  rs_deal_id :: "string option"
  rs_entry_price :: "raw option"

record market_info =
  mi_status :: "string option"
  mi_min_size :: "raw option"
  mi_margin_available :: "raw option"
  mi_margin_required :: "raw option"

record position_info =
  pi_direction :: "string option"
  pi_instrument :: "string option"
  pi_size :: "raw option"
  pi_entry_price :: "raw option"
  pi_spread :: "raw option"

text \<open>The interfaces of the manager: \<open>IGClientProtocol\<close>, the optional services, and the run time.\<close>

record 'w order_env =
  ig_place_order :: "placement \<Rightarrow> ('w, deal_response) action"
  ig_close_position :: "string \<Rightarrow> string \<Rightarrow> decimal \<Rightarrow> ('w, deal_response) action"
  ig_update_position :: "string \<Rightarrow> decimal \<Rightarrow> ('w, unit) action"
  ig_get_market_info :: "string \<Rightarrow> ('w, market_info) action"
  ig_get_position :: "string \<Rightarrow> ('w, position_info) action"
  send_alert :: "(fmsg \<Rightarrow> string \<Rightarrow> ('w, unit) action) option"
  bus_publish :: "(string \<Rightarrow> (string \<times> farg) list \<Rightarrow> ('w, unit) action) option"
  now_utc :: "'w \<Rightarrow> micros"
  fresh_id :: "'w \<Rightarrow> string \<times> 'w"
  sleep :: "pyfloat \<Rightarrow> 'w \<Rightarrow> 'w"

section \<open>Orders as references\<close>

definition outside :: "('w, 'a) action \<Rightarrow> ('w order_manager, 'a) action" where
  "outside m g = (case m (om_world g) of (r, w) \<Rightarrow> (r, g\<lparr>om_world := w\<rparr>))"

definition order_at :: "'w order_manager \<Rightarrow> string \<Rightarrow> order" where
  "order_at g oid = the (map_of (om_orders g) oid)"

definition with_order :: "string \<Rightarrow> (order \<Rightarrow> ('w order_manager, 'a) action) \<Rightarrow> ('w order_manager, 'a) action" where
  "with_order oid f g = f (order_at g oid) g"

definition upd_order :: "string \<Rightarrow> (order \<Rightarrow> order) \<Rightarrow> 'w order_manager \<Rightarrow> 'w order_manager" where
  "upd_order oid f g = g\<lparr>om_orders := AList.map_entry oid f (om_orders g)\<rparr>"

definition set_order :: "string \<Rightarrow> (order \<Rightarrow> order) \<Rightarrow> ('w order_manager, unit) action" where
  "set_order oid f g = (Inr (), upd_order oid f g)"

definition clock :: "'w order_env \<Rightarrow> ('w order_manager, micros) action" where
  "clock env g = (Inr (now_utc env (om_world g)), g)"

definition pause :: "'w order_env \<Rightarrow> pyfloat \<Rightarrow> ('w order_manager, unit) action" where
  "pause env s g = (Inr (), g\<lparr>om_world := sleep env s (om_world g)\<rparr>)"

section \<open>Helpers\<close>

definition notify :: "'w order_env \<Rightarrow> fmsg \<Rightarrow> string \<Rightarrow> ('w order_manager, unit) action" where
  "notify env message level =
     (case send_alert env of
        Some send \<Rightarrow> swallowA (outside (send message level))
      | None \<Rightarrow> returnA ())"

definition publish_event :: "'w order_env \<Rightarrow> string \<Rightarrow> (string \<times> farg) list \<Rightarrow> ('w order_manager, unit) action" where
  "publish_event env channel payload =
     (case bus_publish env of
        Some publish \<Rightarrow> swallowA (outside (publish channel payload))
      | None \<Rightarrow> returnA ())"

definition execute_on_ig :: "'w order_env \<Rightarrow> string \<Rightarrow> ('w order_manager, deal_response) action" where
  "execute_on_ig env oid = with_order oid (\<lambda>o1. outside (ig_place_order env
     \<lparr>pl_instrument = or_instrument o1, pl_direction = or_direction o1, pl_size = or_size o1,
      pl_order_type = order_type_value (or_type o1), pl_price = or_price o1,
      pl_stop_distance = or_stop_distance o1, pl_limit_distance = or_limit_distance o1\<rparr>))"

definition opt_string :: "string option \<Rightarrow> farg" where
  "opt_string x = FStr (case x of Some s \<Rightarrow> s | None \<Rightarrow> ''None'')"

text \<open>The attributes a successful placement sets, in the order of the code.\<close>

definition fill_order :: "'w order_env \<Rightarrow> string \<Rightarrow> deal_response \<Rightarrow> ('w order_manager, unit) action" where
  "fill_order env oid response =
     bindA (clock env) (\<lambda>now.
     bindA (set_order oid (\<lambda>o1. o1\<lparr>or_status := FILLED, or_deal_reference := rs_deal_reference response,
                              or_deal_id := rs_deal_id response, or_filled_at := Some now\<rparr>)) (\<lambda>_.
     bindA (case rs_entry_price response of
              Some v \<Rightarrow> bindA (liftE (decimal_of_raw v)) (\<lambda>d. returnA (Some d))
            | None \<Rightarrow> returnA None) (\<lambda>price.
       set_order oid (\<lambda>o1. o1\<lparr>or_entry_price := price\<rparr>))))"

section \<open>Failure handling\<close>

definition retry_order :: "'w order_env \<Rightarrow> string \<Rightarrow> ('w order_manager, bool) action" where
  "retry_order env oid =
     bindA (tryA
       (bindA (execute_on_ig env oid) (\<lambda>response.
        bindA (fill_order env oid response) (\<lambda>_.
        with_order oid (\<lambda>o1. publish_event env ''order.filled''
          [(''order_id'', FStr (or_id o1)), (''deal_id'', opt_string (or_deal_id o1)),
           (''instrument'', FStr (or_instrument o1))]))))) (\<lambda>r.
     case r of
       Inr _ \<Rightarrow> returnA True
     | Inl e \<Rightarrow> with_order oid (\<lambda>o1.
         bindA (notify env (FMsg ''Order retry failed for {}: {}'' [FStr (or_instrument o1), FExc e]) ''error'')
           (\<lambda>_. returnA False)))"

definition fail_order :: "'w order_env \<Rightarrow> string \<Rightarrow> fmsg \<Rightarrow> ('w order_manager, 'a) action" where
  "fail_order env oid error =
     bindA (set_order oid (\<lambda>o1. o1\<lparr>or_status := FAILED, or_error_message := Some error\<rparr>)) (\<lambda>_.
     with_order oid (\<lambda>o1.
     bindA (publish_event env ''order.rejected''
       [(''order_id'', FStr (or_id o1)), (''instrument'', FStr (or_instrument o1)), (''error'', FText error)]) (\<lambda>_.
     raiseA (OrderExecutionError (FMsg ''Order failed after retry: {}'' [FText error])))))"

definition handle_failure :: "'w order_env \<Rightarrow> string \<Rightarrow> fmsg \<Rightarrow> ('w order_manager, string) action" where
  "handle_failure env oid error =
     with_order oid (\<lambda>o1.
     bindA (notify env (FMsg ''Order failed for {}: {}'' [FStr (or_instrument o1), FText error]) ''error'') (\<lambda>_.
     if or_retry_count o1 < 1
     then bindA (set_order oid (\<lambda>o2. o2\<lparr>or_retry_count := or_retry_count o2 + 1\<rparr>)) (\<lambda>_.
          bindA (pause env ORDER_RETRY_DELAY_SECONDS) (\<lambda>_.
          bindA (retry_order env oid) (\<lambda>ok.
          if ok then returnA oid else fail_order env oid error)))
     else fail_order env oid error))"

section \<open>Placement\<close>

text \<open>The pair of the code is (True, None) for None and (False, message) for a message.\<close>

definition check_margin :: "market_info \<Rightarrow> py_error + fmsg option" where
  "check_margin info =
     (case (mi_margin_available info, mi_margin_required info) of
        (Some available, Some required) \<Rightarrow>
          bindE (decimal_of_raw available) (\<lambda>a.
          bindE (decimal_of_raw required) (\<lambda>r.
            Inr (if a < r then Some (FMsg ''Insufficient margin: available={}, required={}'' [FNum a, FNum r])
                 else None)))
      | _ \<Rightarrow> Inr None)"

definition check_market_info :: "string \<Rightarrow> decimal \<Rightarrow> market_info \<Rightarrow> py_error + fmsg option" where
  "check_market_info instrument lots info =
     (let status = or_default (mi_status info) []
      in if status \<noteq> ''TRADEABLE''
         then Inr (Some (FMsg ''Instrument {} is not active (status: {})'' [FStr instrument, FStr status]))
         else bindE (case mi_min_size info of Some v \<Rightarrow> decimal_of_raw v | None \<Rightarrow> Inr DEFAULT_MIN_SIZE) (\<lambda>min_size.
           if lots < min_size
           then Inr (Some (FMsg ''Order size {} is below minimum {} for {}'' [FNum lots, FNum min_size, FStr instrument]))
           else check_margin info))"

definition validate_order :: "'w order_env \<Rightarrow> string \<Rightarrow> decimal \<Rightarrow> ('w order_manager, fmsg option) action" where
  "validate_order env instrument lots =
     bindA (tryA (outside (ig_get_market_info env instrument))) (\<lambda>r.
     case r of
       Inl e \<Rightarrow> returnA (Some (FMsg ''Failed to retrieve market info: {}'' [FExc e]))
     | Inr info \<Rightarrow> liftE (check_market_info instrument lots info))"

definition submit_order :: "'w order_env \<Rightarrow> string \<Rightarrow> ('w order_manager, string) action" where
  "submit_order env oid =
     bindA (set_order oid (\<lambda>o1. o1\<lparr>or_status := SUBMITTED\<rparr>)) (\<lambda>_.
     catchA
       (bindA (execute_on_ig env oid) (\<lambda>response.
        bindA (fill_order env oid response) (\<lambda>_.
        with_order oid (\<lambda>o1.
        bindA (publish_event env ''order.filled''
          [(''order_id'', FStr (or_id o1)), (''deal_id'', opt_string (or_deal_id o1)),
           (''instrument'', FStr (or_instrument o1)), (''direction'', FStr (or_direction o1)),
           (''size'', FNum (or_size o1)), (''order_type'', FStr (order_type_value (or_type o1)))]) (\<lambda>_.
        returnA oid)))))
       (\<lambda>e. handle_failure env oid (FMsg ''{}'' [FExc e])))"

text \<open>\<open>Order(...)\<close> with the defaults of the dataclass, stored under its identifier.\<close>

definition new_order ::
  "'w order_env \<Rightarrow> string \<Rightarrow> string \<Rightarrow> order_type \<Rightarrow> decimal \<Rightarrow> decimal option \<Rightarrow> decimal option \<Rightarrow> decimal option
   \<Rightarrow> string option \<Rightarrow> ('w order_manager, string) action" where
  "new_order env instrument dir typ lots price stop_distance limit_distance deal_id g =
     (let (oid, w) = fresh_id env (om_world g);
          new = \<lparr>or_id = oid, or_instrument = instrument, or_direction = dir, or_type = typ, or_size = lots,
                 or_price = price, or_stop_distance = stop_distance, or_limit_distance = limit_distance,
                 or_trail_distance = None, or_status = PENDING, or_deal_reference = None, or_deal_id = deal_id,
                 or_created_at = now_utc env w, or_filled_at = None, or_closed_at = None,
                 or_error_message = None, or_retry_count = 0, or_entry_price = None\<rparr>
      in (Inr oid, g\<lparr>om_orders := AList.update oid new (om_orders g), om_world := w\<rparr>))"

definition place ::
  "'w order_env \<Rightarrow> order_type \<Rightarrow> string \<Rightarrow> string \<Rightarrow> decimal \<Rightarrow> decimal option \<Rightarrow> decimal option \<Rightarrow> decimal option
   \<Rightarrow> ('w order_manager, string) action" where
  "place env typ instrument dir lots price stop_distance limit_distance =
     bindA (new_order env instrument dir typ lots price stop_distance limit_distance None) (\<lambda>oid.
     bindA (validate_order env instrument lots) (\<lambda>error.
     case error of
       Some error_msg \<Rightarrow>
         bindA (set_order oid (\<lambda>o1. o1\<lparr>or_status := REJECTED, or_error_message := Some error_msg\<rparr>)) (\<lambda>_.
         bindA (notify env (FMsg ''Order rejected for {}: {}'' [FStr instrument, FText error_msg]) ''warning'') (\<lambda>_.
         raiseA (OrderValidationError error_msg)))
     | None \<Rightarrow> submit_order env oid))"

definition place_market_order ::
  "'w order_env \<Rightarrow> string \<Rightarrow> string \<Rightarrow> decimal \<Rightarrow> decimal option \<Rightarrow> decimal option \<Rightarrow> ('w order_manager, string) action" where
  "place_market_order env instrument dir lots stop_distance limit_distance =
     place env MARKET instrument dir lots None stop_distance limit_distance"

definition place_limit_order ::
  "'w order_env \<Rightarrow> string \<Rightarrow> string \<Rightarrow> decimal \<Rightarrow> decimal \<Rightarrow> decimal option \<Rightarrow> decimal option \<Rightarrow> ('w order_manager, string) action" where
  "place_limit_order env instrument dir lots price stop_distance limit_distance =
     place env LIMIT instrument dir lots (Some price) stop_distance limit_distance"

definition place_stop_order ::
  "'w order_env \<Rightarrow> string \<Rightarrow> string \<Rightarrow> decimal \<Rightarrow> decimal \<Rightarrow> decimal option \<Rightarrow> decimal option \<Rightarrow> ('w order_manager, string) action" where
  "place_stop_order env instrument dir lots price stop_distance limit_distance =
     place env STOP instrument dir lots (Some price) stop_distance limit_distance"

section \<open>Trailing stops\<close>




definition set_stop :: "string \<Rightarrow> (trailing_stop_config \<Rightarrow> trailing_stop_config) \<Rightarrow> ('w order_manager, unit) action" where
  "set_stop deal_id f g = (Inr (), g\<lparr>om_stops := AList.map_entry deal_id f (om_stops g)\<rparr>)"



definition remove_trailing_stop :: "string \<Rightarrow> ('w order_manager, unit) action" where
  "remove_trailing_stop deal_id g = (Inr (), g\<lparr>om_stops := AList.delete deal_id (om_stops g)\<rparr>)"

section \<open>Closing\<close>

definition complete_close ::
  "'w order_env \<Rightarrow> string \<Rightarrow> string \<Rightarrow> string \<Rightarrow> decimal \<Rightarrow> deal_response \<Rightarrow> ('w order_manager, string) action" where
  "complete_close env oid deal_id dir lots response =
     bindA (clock env) (\<lambda>now.
     bindA (set_order oid (\<lambda>o1. o1\<lparr>or_status := CLOSED, or_deal_reference := rs_deal_reference response,
                              or_closed_at := Some now\<rparr>)) (\<lambda>_.
     bindA (remove_trailing_stop deal_id) (\<lambda>_.
     bindA (publish_event env ''order.closed''
       [(''order_id'', FStr oid), (''deal_id'', FStr deal_id), (''direction'', FStr dir), (''size'', FNum lots)]) (\<lambda>_.
     returnA oid))))"

definition close_order :: "'w order_env \<Rightarrow> string \<Rightarrow> string \<Rightarrow> decimal \<Rightarrow> ('w order_manager, string) action" where
  "close_order env deal_id dir lots =
     bindA (new_order env [] dir MARKET lots None None None (Some deal_id)) (\<lambda>oid.
     catchA
       (bindA (set_order oid (\<lambda>o1. o1\<lparr>or_status := SUBMITTED\<rparr>)) (\<lambda>_.
        bindA (outside (ig_close_position env deal_id dir lots))
          (complete_close env oid deal_id dir lots)))
       (\<lambda>e. handle_failure env oid (FMsg ''{}'' [FExc e])))"

text \<open>The first filled order of the deal becomes partially closed.\<close>

fun mark_partially_closed :: "string \<Rightarrow> (string, order) dict \<Rightarrow> (string, order) dict" where
  "mark_partially_closed deal_id [] = []"
| "mark_partially_closed deal_id ((k, o1) # os) =
     (if or_deal_id o1 = Some deal_id \<and> or_status o1 = FILLED
      then (k, o1\<lparr>or_status := PARTIALLY_CLOSED\<rparr>) # os
      else (k, o1) # mark_partially_closed deal_id os)"

definition mark_partial :: "string \<Rightarrow> ('w order_manager, unit) action" where
  "mark_partial deal_id g = (Inr (), g\<lparr>om_orders := mark_partially_closed deal_id (om_orders g)\<rparr>)"

definition raw_or_zero :: "raw option \<Rightarrow> py_error + decimal" where
  "raw_or_zero x = (case x of Some v \<Rightarrow> decimal_of_raw v | None \<Rightarrow> Inr 0)"

definition breakeven_stop :: "string \<Rightarrow> decimal \<Rightarrow> decimal \<Rightarrow> decimal" where
  "breakeven_stop dir entry spread = (if dir = ''BUY'' then d_sub entry spread else d_add entry spread)"

definition partial_take_profit :: "'w order_env \<Rightarrow> string \<Rightarrow> decimal \<Rightarrow> ('w order_manager, string) action" where
  "partial_take_profit env deal_id close_pct =
     (if close_pct < PARTIAL_TP_MIN_PCT \<or> PARTIAL_TP_MAX_PCT < close_pct
      then raiseA (OrderValidationError (FMsg ''Close percentage must be between {} and {}''
             [FNum PARTIAL_TP_MIN_PCT, FNum PARTIAL_TP_MAX_PCT]))
      else bindA (outside (ig_get_position env deal_id)) (\<lambda>info.
        let dir = or_default (pi_direction info) ''BUY''
        in bindA (liftE (raw_or_zero (pi_size info))) (\<lambda>total_size.
           bindA (liftE (raw_or_zero (pi_entry_price info))) (\<lambda>entry.
           bindA (liftE (raw_or_zero (pi_spread info))) (\<lambda>spread.
           bindA (liftE (quantize_even (d_mul total_size close_pct))) (\<lambda>close_size.
           if close_size \<le> 0
           then raiseA (OrderValidationError (FMsg ''Calculated close size is zero'' []))
           else
             bindA (close_order env deal_id (if dir = ''BUY'' then ''SELL'' else ''BUY'') close_size) (\<lambda>oid.
             bindA (swallowA (outside (ig_update_position env deal_id (breakeven_stop dir entry spread)))) (\<lambda>_.
             bindA (set_stop deal_id (\<lambda>c. c\<lparr>tc_current_stop := breakeven_stop dir entry spread\<rparr>)) (\<lambda>_.
             bindA (mark_partial deal_id) (\<lambda>_.
             returnA oid))))))))))"

section \<open>Queries\<close>

definition get_order :: "'w order_manager \<Rightarrow> string \<Rightarrow> order option" where
  "get_order g oid = map_of (om_orders g) oid"

definition get_open_orders :: "'w order_manager \<Rightarrow> order list" where
  "get_open_orders g = filter (\<lambda>o1. or_status o1 \<in> {PENDING, SUBMITTED}) (map snd (om_orders g))"
lemma check_market_info_error: "check_market_info instrument lots info = Inl e \<Longrightarrow> e = DecimalInvalidOperation"
proof -
  have raw: "decimal_of_raw v = Inl e \<Longrightarrow> e = DecimalInvalidOperation" for v by (cases v) auto
  assume "check_market_info instrument lots info = Inl e"
  then show ?thesis
    by (auto simp: check_market_info_def check_margin_def Let_def bindE_def dest: raw
        split: if_splits option.splits sum.splits)
qed

section \<open>What the operations do to the state and to the broker\<close>

text \<open>
  A counter of the world that grows by \<open>cnt p\<close> with a placement \<open>p\<close> and with nothing else: an
  observer of the requests the manager sends.
\<close>

definition counts :: "'w order_env \<Rightarrow> (placement \<Rightarrow> nat) \<Rightarrow> ('w \<Rightarrow> nat) \<Rightarrow> bool" where
  "counts env cnt n \<longleftrightarrow>
     (\<forall>p w. n (snd (ig_place_order env p w)) = n w + cnt p) \<and>
     (\<forall>d x s w. n (snd (ig_close_position env d x s w)) = n w) \<and>
     (\<forall>d s w. n (snd (ig_update_position env d s w)) = n w) \<and>
     (\<forall>i w. n (snd (ig_get_market_info env i w)) = n w) \<and>
     (\<forall>d w. n (snd (ig_get_position env d w)) = n w) \<and>
     (\<forall>f m l w. send_alert env = Some f \<longrightarrow> n (snd (f m l w)) = n w) \<and>
     (\<forall>f c p w. bus_publish env = Some f \<longrightarrow> n (snd (f c p w)) = n w) \<and>
     (\<forall>w. n (snd (fresh_id env w)) = n w) \<and> (\<forall>s w. n (sleep env s w) = n w)"

lemma counts_nothing [simp]: "counts env (\<lambda>_. 0) (\<lambda>_. 0)"
  by (simp add: counts_def)

lemma outside_wp: "(\<And>r w. m (om_world g) = (r, w) \<Longrightarrow> Q r (g\<lparr>om_world := w\<rparr>)) \<Longrightarrow> wpA (outside m) Q g"
  by (cases "m (om_world g)") (simp add: wpA_def outside_def)

lemma with_order_wp [simp]: "wpA (with_order oid f) Q g = wpA (f (order_at g oid)) Q g"
  by (simp add: wpA_def with_order_def)

lemma set_order_wp [simp]:
  "wpA (set_order oid f) Q g = Q (Inr ()) (upd_order oid f g)"
  by (simp add: wpA_def set_order_def)

lemma clock_wp [simp]: "wpA (clock env) Q g = Q (Inr (now_utc env (om_world g))) g"
  by (simp add: wpA_def clock_def)

lemma pause_wp: "wpA (pause env s) Q g = Q (Inr ()) (g\<lparr>om_world := sleep env s (om_world g)\<rparr>)"
  by (simp add: wpA_def pause_def)

lemma remove_wp [simp]: "wpA (remove_trailing_stop d) Q g = Q (Inr ()) (g\<lparr>om_stops := AList.delete d (om_stops g)\<rparr>)"
  by (simp add: wpA_def remove_trailing_stop_def)

lemma swallow_wp:
  assumes "\<And>r w. m (om_world g) = (r, w) \<Longrightarrow> Q (Inr ()) (g\<lparr>om_world := w\<rparr>)"
  shows "wpA (swallowA (outside m)) Q g"
  unfolding swallowA_def wpA_simps by (rule outside_wp) (use assms in \<open>auto split: sum.split\<close>)

lemma notify_wp [wp_intro]:
  assumes "counts env cnt n" "\<And>w. n w = n (om_world g) \<Longrightarrow> Q (Inr ()) (g\<lparr>om_world := w\<rparr>)"
  shows "wpA (notify env m l) Q g"
proof (cases "send_alert env")
  case None
  then show ?thesis using assms(2)[of "om_world g"] by (simp add: notify_def)
next
  case (Some f)
  have "n w = n (om_world g)" if "f m l (om_world g) = (r, w)" for r w
    using assms(1) Some that unfolding counts_def by (metis snd_conv)
  then show ?thesis using assms(2) Some by (auto simp: notify_def intro!: swallow_wp)
qed

lemma publish_wp [wp_intro]:
  assumes "counts env cnt n" "\<And>w. n w = n (om_world g) \<Longrightarrow> Q (Inr ()) (g\<lparr>om_world := w\<rparr>)"
  shows "wpA (publish_event env c p) Q g"
proof (cases "bus_publish env")
  case None
  then show ?thesis using assms(2)[of "om_world g"] by (simp add: publish_event_def)
next
  case (Some f)
  have "n w = n (om_world g)" if "f c p (om_world g) = (r, w)" for r w
    using assms(1) Some that unfolding counts_def by (metis snd_conv)
  then show ?thesis using assms(2) Some by (auto simp: publish_event_def intro!: swallow_wp)
qed

definition placement_of :: "order \<Rightarrow> placement" where
  "placement_of o1 =
     \<lparr>pl_instrument = or_instrument o1, pl_direction = or_direction o1, pl_size = or_size o1,
      pl_order_type = order_type_value (or_type o1), pl_price = or_price o1,
      pl_stop_distance = or_stop_distance o1, pl_limit_distance = or_limit_distance o1\<rparr>"

lemma execute_wp [wp_intro]:
  assumes "counts env cnt n"
    "\<And>r w. n w = n (om_world g) + cnt (placement_of (order_at g oid)) \<Longrightarrow> Q r (g\<lparr>om_world := w\<rparr>)"
  shows "wpA (execute_on_ig env oid) Q g"
  unfolding execute_on_ig_def with_order_wp placement_of_def[symmetric]
  by (rule outside_wp, rule assms(2)) (use assms(1) in \<open>metis counts_def snd_conv\<close>)

text \<open>
  \<open>did cnt n oid k g g'\<close>: from \<open>g\<close> to \<open>g'\<close> the manager sent the request of the order \<open>oid\<close> to the
  broker \<open>k\<close> times; only that order changed, and of it nothing that was requested.
\<close>

definition same_request :: "order \<Rightarrow> order \<Rightarrow> bool" where
  "same_request p q \<longleftrightarrow> or_id q = or_id p \<and> placement_of q = placement_of p \<and> or_type q = or_type p \<and>
     or_trail_distance q = or_trail_distance p \<and> or_created_at q = or_created_at p"

definition has_order :: "string \<Rightarrow> 'w order_manager \<Rightarrow> bool" where
  "has_order oid g \<longleftrightarrow> map_of (om_orders g) oid \<noteq> None"

definition did :: "(placement \<Rightarrow> nat) \<Rightarrow> ('w \<Rightarrow> nat) \<Rightarrow> string \<Rightarrow> nat \<Rightarrow> 'w order_manager \<Rightarrow> 'w order_manager \<Rightarrow> bool" where
  "did cnt n oid k g g' \<longleftrightarrow> has_order oid g \<and> has_order oid g' \<and> om_stops g' = om_stops g \<and>
     (\<forall>i. i \<noteq> oid \<longrightarrow> map_of (om_orders g') i = map_of (om_orders g) i) \<and>
     same_request (order_at g oid) (order_at g' oid) \<and>
     n (om_world g') = n (om_world g) + k * cnt (placement_of (order_at g oid))"

lemma did_refl [simp]: "did cnt n oid 0 g g \<longleftrightarrow> has_order oid g"
  by (auto simp: did_def same_request_def)

lemma did_trans [trans]: "did cnt n oid k g g1 \<Longrightarrow> did cnt n oid l g1 g2 \<Longrightarrow> did cnt n oid (k + l) g g2"
  by (auto simp: did_def same_request_def algebra_simps)

lemma order_at_set [simp]:
  "has_order oid g \<Longrightarrow> order_at (upd_order oid f g) oid = f (order_at g oid)"
  "order_at (g\<lparr>om_world := w\<rparr>) oid = order_at g oid"
  by (auto simp: order_at_def has_order_def upd_order_def AList.map_of_map_entry)

lemma has_order_set [simp]:
  "has_order oid (upd_order oid f g) \<longleftrightarrow> has_order oid g"
  "has_order oid (g\<lparr>om_world := w\<rparr>) \<longleftrightarrow> has_order oid g"
  by (auto simp: has_order_def upd_order_def AList.map_of_map_entry split: option.splits)

lemma did_set:
  assumes "has_order oid g" "same_request (order_at g oid) (f (order_at g oid))"
  shows "did cnt n oid 0 g (upd_order oid f g)"
  using assms by (simp add: did_def) (simp add: upd_order_def AList.map_of_map_entry)

lemma did_world:
  assumes "has_order oid g" "n w = n (om_world g) + k * cnt (placement_of (order_at g oid))"
  shows "did cnt n oid k g (g\<lparr>om_world := w\<rparr>)"
  using assms by (simp add: did_def same_request_def)

lemma did_has [simp]: "did cnt n oid k g g' \<Longrightarrow> has_order oid g'"
  by (simp add: did_def)

lemma did_stops: "did cnt n oid k g g' \<Longrightarrow> om_stops g' = om_stops g"
  unfolding did_def by blast

lemma same_request_update [simp]:
  "same_request p (p\<lparr>or_status := s\<rparr>)" "same_request p (p\<lparr>or_status := s, or_error_message := m\<rparr>)"
  "same_request p (p\<lparr>or_entry_price := d\<rparr>)" "same_request p (p\<lparr>or_retry_count := c\<rparr>)"
  "same_request p (p\<lparr>or_status := s, or_deal_reference := r, or_deal_id := i, or_filled_at := t\<rparr>)"
  "same_request p (p\<lparr>or_status := s, or_deal_reference := r, or_closed_at := t\<rparr>)"
  by (simp_all add: same_request_def placement_of_def)

lemma did_then_set:
  assumes "did cnt n oid k g0 g" "same_request (order_at g oid) (f (order_at g oid))"
  shows "did cnt n oid k g0 (upd_order oid f g)"
  using did_trans[OF assms(1) did_set[of oid g f]] assms by simp

lemma did_then_world:
  assumes "did cnt n oid k g0 g" "n w = n (om_world g) + l * cnt (placement_of (order_at g oid))"
  shows "did cnt n oid (k + l) g0 (g\<lparr>om_world := w\<rparr>)"
  using did_trans[OF assms(1) did_world[of oid g n w l cnt]] assms by simp

text \<open>The first failure of an order ends with one more placement.\<close>

definition failure_outcome :: "string \<Rightarrow> fmsg \<Rightarrow> py_error + string \<Rightarrow> order \<Rightarrow> bool" where
  "failure_outcome oid error r o1 \<longleftrightarrow> or_retry_count o1 = 1 \<and>
     (r = Inr oid \<and> or_status o1 = FILLED \<or>
      r = Inl (OrderExecutionError (FMsg ''Order failed after retry: {}'' [FText error])) \<and>
        or_status o1 = FAILED \<and> or_error_message o1 = Some error)"

text \<open>A submission places the order once, or twice when the first attempt fails.\<close>

definition submit_outcome :: "string \<Rightarrow> nat \<Rightarrow> py_error + string \<Rightarrow> order \<Rightarrow> bool" where
  "submit_outcome oid k r o1 \<longleftrightarrow>
     (k = 1 \<and> r = Inr oid \<and> or_status o1 = FILLED \<and> or_retry_count o1 = 0) \<or>
     (k = 2 \<and> (\<exists>error. failure_outcome oid error r o1))"

text \<open>A placement ends there, or without a request: rejected by the validation, or left pending when
  the market information cannot be converted.\<close>

definition place_outcome :: "string \<Rightarrow> nat \<Rightarrow> py_error + string \<Rightarrow> order \<Rightarrow> bool" where
  "place_outcome oid k r o1 \<longleftrightarrow> submit_outcome oid k r o1 \<or>
     (k = 0 \<and> or_retry_count o1 = 0 \<and>
      ((\<exists>m. r = Inl (OrderValidationError m) \<and> or_status o1 = REJECTED \<and> or_error_message o1 = Some m) \<or>
       r = Inl DecimalInvalidOperation \<and> or_status o1 = PENDING))"

text \<open>A closing order is closed, with no placement, or fails once and is placed as an order.\<close>

definition close_outcome :: "string \<Rightarrow> string \<Rightarrow> nat \<Rightarrow> py_error + string \<Rightarrow> 'w order_manager \<Rightarrow> 'w order_manager \<Rightarrow> bool" where
  "close_outcome oid deal_id k r g g' \<longleftrightarrow>
     (k = 0 \<and> r = Inr oid \<and> or_status (order_at g' oid) = CLOSED \<and> om_stops g' = AList.delete deal_id (om_stops g)) \<or>
     (k = 1 \<and> (\<exists>error. failure_outcome oid error r (order_at g' oid)) \<and> om_stops g' = om_stops g)"

lemma new_order_start:
  fixes env :: "'w order_env"
  assumes "oid = fst (fresh_id env (om_world g))" "g0 = snd (new_order env i d t x p sd ld deal g)"
  shows "new_order env i d t x p sd ld deal g = (Inr oid, g0)" "has_order oid g0"
    "or_status (order_at g0 oid) = PENDING" "or_retry_count (order_at g0 oid) = 0"
    "om_stops g0 = om_stops g" "j \<noteq> oid \<Longrightarrow> map_of (om_orders g0) j = map_of (om_orders g) j"
    "placement_of (order_at g0 oid) = \<lparr>pl_instrument = i, pl_direction = d, pl_size = x,
       pl_order_type = order_type_value t, pl_price = p, pl_stop_distance = sd, pl_limit_distance = ld\<rparr>"
    "om_world g0 = snd (fresh_id env (om_world g))"
  using assms by (simp_all add: new_order_def Let_def case_prod_beta has_order_def order_at_def placement_of_def)

locale order_observer =
  fixes env :: "'w order_env" and cnt :: "placement \<Rightarrow> nat" and n :: "'w \<Rightarrow> nat"
  assumes observed: "counts env cnt n"
begin

lemma counted:
  "ig_close_position env d x s w = (r1, w') \<Longrightarrow> n w' = n w"
  "ig_get_market_info env i w = (r2, w') \<Longrightarrow> n w' = n w"
  using observed unfolding counts_def by (metis snd_conv)+

lemma notify_did [wp_intro]:
  assumes "did cnt n oid k g0 g"
    "\<And>g'. did cnt n oid k g0 g' \<Longrightarrow> order_at g' oid = order_at g oid \<Longrightarrow> Q (Inr ()) g'"
  shows "wpA (notify env m l) Q g"
  by (rule notify_wp[OF observed], rule assms(2)) (use did_then_world[OF assms(1), of _ 0] in auto)

lemma publish_did [wp_intro]:
  assumes "did cnt n oid k g0 g"
    "\<And>g'. did cnt n oid k g0 g' \<Longrightarrow> order_at g' oid = order_at g oid \<Longrightarrow> Q (Inr ()) g'"
  shows "wpA (publish_event env ch p) Q g"
  by (rule publish_wp[OF observed], rule assms(2)) (use did_then_world[OF assms(1), of _ 0] in auto)

lemma pause_did [wp_intro]:
  assumes "did cnt n oid k g0 g"
    "\<And>g'. did cnt n oid k g0 g' \<Longrightarrow> order_at g' oid = order_at g oid \<Longrightarrow> Q (Inr ()) g'"
  shows "wpA (pause env s) Q g"
  unfolding pause_wp by (rule assms(2)) (use observed did_then_world[OF assms(1), of _ 0] in \<open>auto simp: counts_def\<close>)

lemma execute_did [wp_intro]:
  assumes "did cnt n oid k g0 g"
    "\<And>r g'. did cnt n oid (Suc k) g0 g' \<Longrightarrow> order_at g' oid = order_at g oid \<Longrightarrow> Q r g'"
  shows "wpA (execute_on_ig env oid) Q g"
  by (rule execute_wp[OF observed], rule assms(2)) (use did_then_world[OF assms(1), of _ 1] in auto)

lemma fill_did [wp_intro]:
  assumes "did cnt n oid k g0 g"
    "\<And>r g'. did cnt n oid k g0 g' \<Longrightarrow> or_status (order_at g' oid) = FILLED \<Longrightarrow>
       or_retry_count (order_at g' oid) = or_retry_count (order_at g oid) \<Longrightarrow> Q r g'"
  shows "wpA (fill_order env oid response) Q g"
  using assms(1) unfolding fill_order_def
  by (auto split: option.split sum.split intro!: assms(2) did_then_set)

lemma retry_did [wp_intro]:
  assumes "did cnt n oid k g0 g"
    "\<And>ok g'. did cnt n oid (Suc k) g0 g' \<Longrightarrow> (ok \<Longrightarrow> or_status (order_at g' oid) = FILLED) \<Longrightarrow>
       or_retry_count (order_at g' oid) = or_retry_count (order_at g oid) \<Longrightarrow> Q (Inr ok) g'"
  shows "wpA (retry_order env oid) Q g"
  using assms(1) unfolding retry_order_def
  by (auto split: sum.split intro!: wp_intro assms(2))

lemma fail_did [wp_intro]:
  assumes "did cnt n oid k g0 g"
    "\<And>g'. did cnt n oid k g0 g' \<Longrightarrow> or_status (order_at g' oid) = FAILED \<Longrightarrow>
       or_error_message (order_at g' oid) = Some error \<Longrightarrow>
       or_retry_count (order_at g' oid) = or_retry_count (order_at g oid) \<Longrightarrow>
       Q (Inl (OrderExecutionError (FMsg ''Order failed after retry: {}'' [FText error]))) g'"
  shows "wpA (fail_order env oid error) Q g"
  using assms(1) unfolding fail_order_def
  by (auto intro!: wp_intro did_then_set intro!: assms(2))

lemma handle_failure_did [wp_intro]:
  assumes "did cnt n oid k g0 g" "or_retry_count (order_at g oid) = 0"
    "\<And>r g'. did cnt n oid (Suc k) g0 g' \<Longrightarrow> failure_outcome oid error r (order_at g' oid) \<Longrightarrow> Q r g'"
  shows "wpA (handle_failure env oid error) Q g"
proof -
  have retried: "wpA (bindA (pause env ORDER_RETRY_DELAY_SECONDS) (\<lambda>_. bindA (retry_order env oid) (\<lambda>ok.
      if ok then returnA oid else fail_order env oid error))) Q h"
    if "did cnt n oid k g0 h" "or_retry_count (order_at h oid) = 1" for h
    using that by (auto intro!: wp_intro assms(3) simp: failure_outcome_def)
  have "wpA (bindA (set_order oid (\<lambda>o2. o2\<lparr>or_retry_count := or_retry_count o2 + 1\<rparr>)) (\<lambda>_.
      bindA (pause env ORDER_RETRY_DELAY_SECONDS) (\<lambda>_. bindA (retry_order env oid) (\<lambda>ok.
      if ok then returnA oid else fail_order env oid error)))) Q h"
    if "did cnt n oid k g0 h" "or_retry_count (order_at h oid) = 0" for h
    unfolding wpA_simps(3)[of "set_order oid f" for f] set_order_wp sum.case
    by (rule retried) (use that in \<open>simp_all add: did_then_set\<close>)
  then show ?thesis using assms(1,2) unfolding handle_failure_def with_order_wp
    by (simp only: wpA_simps(3)[of "notify env m l" for m l]) (rule notify_did[OF assms(1)], simp)
qed

lemma submit_did [wp_intro]:
  assumes "did cnt n oid 0 g0 g" "or_retry_count (order_at g oid) = 0"
    "\<And>r k g'. did cnt n oid k g0 g' \<Longrightarrow> submit_outcome oid k r (order_at g' oid) \<Longrightarrow> Q r g'"
  shows "wpA (submit_order env oid) Q g"
proof -
  have filled: "Q (Inr oid) g'" if "did cnt n oid 1 g0 g'" "or_status (order_at g' oid) = FILLED"
      "or_retry_count (order_at g' oid) = 0" for g'
    using that by (intro assms(3)) (auto simp: submit_outcome_def)
  have failed: "Q r g'" if "did cnt n oid 2 g0 g'" "failure_outcome oid error r (order_at g' oid)" for r error g'
    using that by (intro assms(3)) (auto simp: submit_outcome_def)
  show ?thesis using assms(1,2) unfolding submit_order_def
    by (auto intro!: wp_intro did_then_set filled split: sum.split)
       (auto intro!: failed simp: numeral_2_eq_2)
qed

lemma place_did:
  assumes "\<And>r k g'. did cnt n oid k (snd (new_order env instrument dir typ lots price sd ld None g)) g' \<Longrightarrow>
       place_outcome oid k r (order_at g' oid) \<Longrightarrow> Q r g'"
    and oid: "oid = fst (fresh_id env (om_world g))"
  shows "wpA (place env typ instrument dir lots price sd ld) Q g"
proof -
  define g0 where "g0 = snd (new_order env instrument dir typ lots price sd ld None g)"
  have new: "new_order env instrument dir typ lots price sd ld None g = (Inr oid, g0)"
    by (rule new_order_start(1)[OF oid g0_def])
  note start = new_order_start(2-4)[OF oid g0_def]
  have submitted: "Q r g'" if "did cnt n oid k g0 g'" "submit_outcome oid k r (order_at g' oid)" for r k g'
    using assms(1)[folded g0_def] that by (auto simp: place_outcome_def)
  have rejected: "Q (Inl (OrderValidationError m)) g'" if "did cnt n oid 0 g0 g'" "or_status (order_at g' oid) = REJECTED"
      "or_error_message (order_at g' oid) = Some m" "or_retry_count (order_at g' oid) = 0" for m g'
    using assms(1)[folded g0_def] that by (auto simp: place_outcome_def)
  have pending: "Q (Inl DecimalInvalidOperation) g'" if "did cnt n oid 0 g0 g'" "order_at g' oid = order_at g0 oid" for g'
    using assms(1)[folded g0_def] that start by (auto simp: place_outcome_def)
  have checked: "did cnt n oid 0 g0 (g0\<lparr>om_world := w\<rparr>)" if "ig_get_market_info env instrument (om_world g0) = (r, w)" for r w
    using start(1) counted(2)[OF that] by (simp add: did_world)
  have "wpA (validate_order env instrument lots) (\<lambda>r w'. case r of Inl e \<Rightarrow> Q (Inl e) w'
      | Inr error \<Rightarrow> wpA (case error of
          Some error_msg \<Rightarrow>
            bindA (set_order oid (\<lambda>o1. o1\<lparr>or_status := REJECTED, or_error_message := Some error_msg\<rparr>)) (\<lambda>_.
            bindA (notify env (FMsg ''Order rejected for {}: {}'' [FStr instrument, FText error_msg]) ''warning'') (\<lambda>_.
            raiseA (OrderValidationError error_msg)))
        | None \<Rightarrow> submit_order env oid) Q w') g0"
    using start unfolding validate_order_def
    by (auto intro!: outside_wp wp_intro did_then_set rejected pending checked
        dest: check_market_info_error split: sum.split option.split) (auto intro!: submitted)
  then show ?thesis by (simp add: place_def wpA_def[of "new_order env instrument dir typ lots price sd ld None"] new)
qed

lemma complete_close_wp:
  assumes "did cnt n oid 0 g0 h"
    "\<And>g'. did cnt n oid 0 g0 (g'\<lparr>om_stops := om_stops g0\<rparr>) \<Longrightarrow> close_outcome oid deal_id 0 (Inr oid) g0 g' \<Longrightarrow> Q (Inr oid) g'"
  shows "wpA (complete_close env oid deal_id dir lots response) Q h"
proof -
  define h1 where "h1 = upd_order oid (\<lambda>o1. o1\<lparr>or_status := CLOSED,
    or_deal_reference := rs_deal_reference response, or_closed_at := Some (now_utc env (om_world h))\<rparr>) h"
  have h1: "did cnt n oid 0 g0 h1" "or_status (order_at h1 oid) = CLOSED"
    using did_then_set[OF assms(1)] did_has[OF assms(1)] by (simp_all add: h1_def)
  have "wpA (publish_event env ch p) (\<lambda>r w'. r = Inr () \<and> Q (Inr oid) w') (h1\<lparr>om_stops := AList.delete deal_id (om_stops h1)\<rparr>)" for ch p
  proof (rule publish_wp[OF observed])
    fix w let ?g = "h1\<lparr>om_stops := AList.delete deal_id (om_stops h1)\<rparr>\<lparr>om_world := w\<rparr>"
    assume "n w = n (om_world (h1\<lparr>om_stops := AList.delete deal_id (om_stops h1)\<rparr>))"
    then have "did cnt n oid 0 g0 (h1\<lparr>om_world := w\<rparr>)" using did_then_world[OF h1(1), of w 0] by simp
    moreover have "?g\<lparr>om_stops := om_stops g0\<rparr> = h1\<lparr>om_world := w\<rparr>" using did_stops[OF h1(1)] by (cases h1) simp
    ultimately have "did cnt n oid 0 g0 (?g\<lparr>om_stops := om_stops g0\<rparr>)" by argo
    moreover have "close_outcome oid deal_id 0 (Inr oid) g0 ?g"
      using h1(2) did_stops[OF h1(1)] by (simp add: close_outcome_def order_at_def)
    ultimately show "Inr () = Inr () \<and> Q (Inr oid) ?g" by (simp add: assms(2))
  qed
  from this[of "''order.closed''" "[(''order_id'', FStr oid), (''deal_id'', FStr deal_id), (''direction'', FStr dir), (''size'', FNum lots)]"]
  show ?thesis unfolding complete_close_def wpA_simps clock_wp set_order_wp remove_wp sum.case h1_def
    by (rule wpA_mono) (auto split: sum.split)
qed

lemma close_did:
  assumes Q: "\<And>r k g'. did cnt n oid k g0 (g'\<lparr>om_stops := om_stops g0\<rparr>) \<Longrightarrow> close_outcome oid deal_id k r g0 g' \<Longrightarrow> Q r g'"
    and oid: "oid = fst (fresh_id env (om_world g))"
    and g0: "g0 = snd (new_order env [] dir MARKET lots None None None (Some deal_id) g)"
  shows "wpA (close_order env deal_id dir lots) Q g"
proof -
  note new = new_order_start(1)[OF oid g0] and start = new_order_start(2,4)[OF oid g0]
  have failed: "Q r g'" if "did cnt n oid (Suc 0) g0 g'" "failure_outcome oid error r (order_at g' oid)" for r error g'
  proof (rule Q)
    have s: "om_stops g' = om_stops g0" by (rule did_stops[OF that(1)])
    have "g'\<lparr>om_stops := om_stops g0\<rparr> = g'" using s by (cases g') simp
    then show "did cnt n oid 1 g0 (g'\<lparr>om_stops := om_stops g0\<rparr>)" using that(1) by simp
    show "close_outcome oid deal_id 1 r g0 g'" using that(2) s by (auto simp: close_outcome_def)
  qed
  let ?sub = "upd_order oid (\<lambda>o1. o1\<lparr>or_status := SUBMITTED\<rparr>) g0"
  have sub: "did cnt n oid 0 g0 ?sub" "or_retry_count (order_at ?sub oid) = 0" "om_world ?sub = om_world g0"
    using start by (simp_all add: did_set) (simp add: upd_order_def)
  let ?Q = "\<lambda>r w'. case r of Inl e \<Rightarrow> wpA (handle_failure env oid (FMsg ''{}'' [FExc e])) Q w' | Inr x \<Rightarrow> Q (Inr x) w'"
  have "wpA (bindA (outside (ig_close_position env deal_id dir lots)) (complete_close env oid deal_id dir lots)) ?Q ?sub"
    unfolding wpA_simps
  proof (rule outside_wp, unfold sub(3))
    fix r w assume "ig_close_position env deal_id dir lots (om_world g0) = (r, w)"
    from counted(1)[OF this] have h: "did cnt n oid 0 g0 (?sub\<lparr>om_world := w\<rparr>)"
      using did_then_world[OF sub(1), of w 0] sub(3) by simp
    have "wpA (complete_close env oid deal_id dir lots response) ?Q (?sub\<lparr>om_world := w\<rparr>)" for response
      by (rule complete_close_wp[OF h]) (simp add: Q)
    moreover have "?Q (Inl e) (?sub\<lparr>om_world := w\<rparr>)" for e
      using handle_failure_did[OF h] sub(2) failed by simp
    ultimately show "case r of Inl e \<Rightarrow> ?Q (Inl e) (?sub\<lparr>om_world := w\<rparr>)
      | Inr x \<Rightarrow> wpA (complete_close env oid deal_id dir lots x) ?Q (?sub\<lparr>om_world := w\<rparr>)" by (cases r) auto
  qed
  then show ?thesis
    by (simp add: close_order_def wpA_def[of "new_order env [] dir MARKET lots None None None (Some deal_id)"] new)
qed

end

text \<open>Nothing to observe: every environment.\<close>

interpretation quiet: order_observer env "\<lambda>_. 0" "\<lambda>_. 0" for env :: "'w order_env"
  by unfold_locales simp

section \<open>The life of an order\<close>

text \<open>
  Claim C8: placing an order of any kind records it under a fresh identifier and touches no other
  order and no trailing stop.  It ends FILLED and returned, after one request to the broker or
  after two, the second only when the first attempt failed; FAILED with an execution error after
  exactly two requests; or without any request, REJECTED with a validation error, or left PENDING
  when the market information is not numeric.  Never more than two requests are sent.
\<close>

theorem order_lifecycle:
  assumes "counts env cnt n" "place env typ instrument dir lots price sd ld g = (r, g')"
  shows "\<exists>oid k o1. oid = fst (fresh_id env (om_world g)) \<and> get_order g' oid = Some o1 \<and>
    place_outcome oid k r o1 \<and>
    placement_of o1 = \<lparr>pl_instrument = instrument, pl_direction = dir, pl_size = lots,
      pl_order_type = order_type_value typ, pl_price = price, pl_stop_distance = sd, pl_limit_distance = ld\<rparr> \<and>
    n (om_world g') = n (om_world g) + k * cnt (placement_of o1) \<and>
    om_stops g' = om_stops g \<and> (\<forall>i. i = oid \<or> get_order g' i = get_order g i)"
proof -
  define oid where "oid = fst (fresh_id env (om_world g))"
  define g0 where "g0 = snd (new_order env instrument dir typ lots price sd ld None g)"
  note start = new_order_start[OF oid_def g0_def]
  have obs: "order_observer env cnt n" using assms(1) by (rule order_observer.intro)
  have n0: "n (om_world g0) = n (om_world g)" using assms(1) start(8) by (simp add: counts_def)
  have "wpA (place env typ instrument dir lots price sd ld)
      (\<lambda>r g'. \<exists>k. did cnt n oid k g0 g' \<and> place_outcome oid k r (order_at g' oid)) g"
    by (rule order_observer.place_did[OF obs _ oid_def]) (auto simp: g0_def)
  from wpA_D[OF this assms(2)] obtain k where k: "did cnt n oid k g0 g'" "place_outcome oid k r (order_at g' oid)" by blast
  have "get_order g' oid = Some (order_at g' oid)" using did_has[OF k(1)] by (auto simp: get_order_def has_order_def order_at_def)
  moreover have "placement_of (order_at g' oid) = placement_of (order_at g0 oid)"
    using k(1) unfolding did_def same_request_def by metis
  moreover have "get_order g' i = get_order g i" if "i \<noteq> oid" for i
    using k(1) start(6)[OF that] that unfolding did_def get_order_def by metis
  ultimately show ?thesis
    using k n0 start(5,7) did_stops[OF k(1)] oid_def unfolding did_def by (metis (no_types, lifting))
qed

text \<open>A world that lists the placements and answers them from a list of results.\<close>

record sample_world =
  sw_placed :: "placement list"
  sw_results :: "(py_error + deal_response) list"
  sw_next :: nat

definition sample_env :: "sample_world order_env" where
  "sample_env = \<lparr>
     ig_place_order = (\<lambda>p w. (case sw_results w of r # rs \<Rightarrow> r | [] \<Rightarrow> Inl (ExternalError ''down''),
        w\<lparr>sw_placed := p # sw_placed w, sw_results := tl (sw_results w)\<rparr>)),
     ig_close_position = (\<lambda>_ _ _. raiseA (ExternalError ''timeout'')),
     ig_update_position = (\<lambda>_ _. raiseA (ExternalError ''timeout'')),
     ig_get_market_info = (\<lambda>_. returnA \<lparr>mi_status = Some ''TRADEABLE'', mi_min_size = Some (Num (NInt 1)),
        mi_margin_available = None, mi_margin_required = None\<rparr>),
     ig_get_position = (\<lambda>_. raiseA (ExternalError ''timeout'')),
     send_alert = None, bus_publish = None, now_utc = (\<lambda>_. 0),
     fresh_id = (\<lambda>w. (replicate (sw_next w) (CHR ''x''), w\<lparr>sw_next := Suc (sw_next w)\<rparr>)),
     sleep = (\<lambda>_ w. w)\<rparr>"

definition sample_manager :: "sample_world order_manager" where
  "sample_manager = \<lparr>om_orders = [], om_stops = [],
     om_world = \<lparr>sw_placed = [], sw_results = [Inl (ExternalError ''busy''),
       Inr \<lparr>rs_deal_reference = Some ''R'', rs_deal_id = Some ''D'', rs_entry_price = Some (Num (NInt 7))\<rparr>], sw_next = 0\<rparr>\<rparr>"

lemma sample_counts: "counts sample_env (\<lambda>_. 1) (\<lambda>w. length (sw_placed w))"
  by (simp add: counts_def sample_env_def raiseA_def returnA_def)

theorem order_lifecycle_witness:
  "\<exists>r g'. place sample_env MARKET ''E'' ''BUY'' 2 None None None sample_manager = (r, g') \<and>
     (\<exists>k o1. get_order g' [] = Some o1 \<and> place_outcome [] k r o1 \<and> length (sw_placed (om_world g')) = k)"
  using order_lifecycle[OF sample_counts, of MARKET "''E''" "''BUY''" 2 None None None sample_manager]
  by (cases "place sample_env MARKET ''E'' ''BUY'' 2 None None None sample_manager")
     (fastforce simp: sample_manager_def sample_env_def)

text \<open>
  Claim: a close either succeeds with no placement, its order CLOSED and the trailing stop of
  the deal removed; or the broker's refusal is answered by exactly one placement of a market order
  with an empty instrument in the closing direction, whose success makes the close return an order
  marked FILLED, with the trailing stop still in place, and whose failure raises.
\<close>

theorem close_lifecycle:
  assumes "counts env cnt n" "close_order env deal_id dir lots g = (r, g')"
  shows "\<exists>oid k o1. oid = fst (fresh_id env (om_world g)) \<and> get_order g' oid = Some o1 \<and>
    placement_of o1 = \<lparr>pl_instrument = [], pl_direction = dir, pl_size = lots,
      pl_order_type = ''MARKET'', pl_price = None, pl_stop_distance = None, pl_limit_distance = None\<rparr> \<and>
    n (om_world g') = n (om_world g) + k * cnt (placement_of o1) \<and>
    ((k = 0 \<and> r = Inr oid \<and> or_status o1 = CLOSED \<and> om_stops g' = AList.delete deal_id (om_stops g)) \<or>
     (k = 1 \<and> r = Inr oid \<and> or_status o1 = FILLED \<and> om_stops g' = om_stops g) \<or>
     (k = 1 \<and> (\<exists>e. r = Inl (OrderExecutionError e)) \<and> or_status o1 = FAILED \<and> om_stops g' = om_stops g))"
proof -
  define oid where "oid = fst (fresh_id env (om_world g))"
  define g0 where "g0 = snd (new_order env [] dir MARKET lots None None None (Some deal_id) g)"
  note start = new_order_start[OF oid_def g0_def]
  have obs: "order_observer env cnt n" using assms(1) by (rule order_observer.intro)
  have n0: "n (om_world g0) = n (om_world g)" using assms(1) start(8) by (simp add: counts_def)
  have "wpA (close_order env deal_id dir lots) (\<lambda>r g'. \<exists>k. did cnt n oid k g0 (g'\<lparr>om_stops := om_stops g0\<rparr>) \<and>
      close_outcome oid deal_id k r g0 g') g"
    by (rule order_observer.close_did[OF obs _ oid_def g0_def]) auto
  from wpA_D[OF this assms(2)] obtain k where
    k: "did cnt n oid k g0 (g'\<lparr>om_stops := om_stops g0\<rparr>)" "close_outcome oid deal_id k r g0 g'" by blast
  have at: "order_at (g'\<lparr>om_stops := om_stops g0\<rparr>) oid = order_at g' oid" by (simp add: order_at_def)
  have "get_order g' oid = Some (order_at g' oid)"
    using did_has[OF k(1)] by (auto simp: get_order_def has_order_def order_at_def)
  moreover have pl: "placement_of (order_at g' oid) = placement_of (order_at g0 oid)"
    using k(1) at unfolding did_def same_request_def by metis
  moreover have "n (om_world g') = n (om_world g) + k * cnt (placement_of (order_at g' oid))"
    using k(1) n0 pl unfolding did_def by simp
  ultimately show ?thesis
    using k(2) start(5,7) oid_def by (auto simp: close_outcome_def failure_outcome_def)
qed

theorem close_lifecycle_witness:
  "\<exists>g'. close_order sample_env ''D'' ''SELL'' 2 (sample_manager\<lparr>om_world := (om_world sample_manager)\<lparr>sw_results :=
       [Inr \<lparr>rs_deal_reference = None, rs_deal_id = Some ''N'', rs_entry_price = None\<rparr>]\<rparr>\<rparr>) = (Inr [], g') \<and>
     (\<exists>o1. get_order g' [] = Some o1 \<and> or_status o1 = FILLED \<and> pl_instrument (placement_of o1) = []) \<and>
     length (sw_placed (om_world g')) = 1"
proof -
  let ?g = "sample_manager\<lparr>om_world := (om_world sample_manager)\<lparr>sw_results :=
       [Inr \<lparr>rs_deal_reference = None, rs_deal_id = Some ''N'', rs_entry_price = None\<rparr>]\<rparr>\<rparr>"
  have "fst (close_order sample_env ''D'' ''SELL'' 2 ?g) = Inr []"
    "length (sw_placed (om_world (snd (close_order sample_env ''D'' ''SELL'' 2 ?g)))) = 1" by code_simp+
  then obtain g' where g': "close_order sample_env ''D'' ''SELL'' 2 ?g = (Inr [], g')" "length (sw_placed (om_world g')) = 1"
    by (metis prod.collapse)
  from close_lifecycle[OF sample_counts g'(1)] g' show ?thesis
    by (fastforce simp: sample_manager_def sample_env_def)
qed

section \<open>Trailing stops follow the best price\<close>





lemma set_stop_wp [simp]: "wpA (set_stop d f) Q g = Q (Inr ()) (g\<lparr>om_stops := AList.map_entry d f (om_stops g)\<rparr>)"
  by (simp add: wpA_def set_stop_def)
















end
