(* ===== verification/Market_Hours.thy ===== *)
theory Market_Hours
  imports Effects
begin

text \<open>
  When each market is open and when it opens next, \<open>src/config/market_hours.py\<close>.  Times are UTC
  microseconds since the epoch, a Thursday; the conversion of other time zones belongs to the
  \<open>datetime\<close> library.
\<close>

section \<open>Calendar\<close>

definition isoweekday :: "micros \<Rightarrow> int" where
  "isoweekday t = (t div hours 24 + 3) mod 7 + 1"

definition hour_of :: "micros \<Rightarrow> int" where
  "hour_of t = t mod hours 24 div hours 1"

definition minute_of :: "micros \<Rightarrow> int" where
  "minute_of t = t mod hours 1 div minutes 1"

text \<open>\<open>t.replace(hour=h, minute=m, second=0, microsecond=0)\<close>\<close>

definition at_time :: "micros \<Rightarrow> int \<Rightarrow> int \<Rightarrow> micros" where
  "at_time t h m = midnight t + hours h + minutes m"

definition days :: "int \<Rightarrow> micros" where
  "days n = hours (24 * n)"

section \<open>Asset classes\<close>

datatype market_class =
    FOREX | US_INDEX | EU_INDEX | COMMODITY_GOLD | COMMODITY_OIL | COMMODITY_OTHER | CRYPTO | US_STOCK

definition INSTRUMENT_ASSET_CLASS_MAP :: "(string, market_class) dict" where
  "INSTRUMENT_ASSET_CLASS_MAP =
     [(''EUR/USD'', FOREX), (''GBP/USD'', FOREX), (''USD/JPY'', FOREX), (''AUD/USD'', FOREX),
      (''USD/CAD'', FOREX), (''USD/CHF'', FOREX), (''NZD/USD'', FOREX), (''EUR/GBP'', FOREX),
      (''EUR/JPY'', FOREX), (''GBP/JPY'', FOREX),
      (''US500'', US_INDEX), (''US30'', US_INDEX), (''USTEC'', US_INDEX), (''US2000'', US_INDEX),
      (''DE40'', EU_INDEX), (''UK100'', EU_INDEX), (''FR40'', EU_INDEX), (''EU50'', EU_INDEX),
      (''GOLD'', COMMODITY_GOLD), (''XAU/USD'', COMMODITY_GOLD),
      (''OIL_CRUDE'', COMMODITY_OIL), (''OIL_BRENT'', COMMODITY_OIL),
      (''SILVER'', COMMODITY_OTHER), (''XAG/USD'', COMMODITY_OTHER), (''NATGAS'', COMMODITY_OTHER),
      (''BTC/USD'', CRYPTO), (''ETH/USD'', CRYPTO), (''XRP/USD'', CRYPTO), (''LTC/USD'', CRYPTO),
      (''AAPL'', US_STOCK), (''MSFT'', US_STOCK), (''GOOGL'', US_STOCK), (''AMZN'', US_STOCK), (''TSLA'', US_STOCK)]"

definition FOREX_PREFIXES :: "string list" where
  "FOREX_PREFIXES = [''EUR'', ''GBP'', ''USD'', ''JPY'', ''AUD'', ''CAD'', ''CHF'', ''NZD'',
     ''SEK'', ''NOK'', ''DKK'', ''SGD'', ''HKD'', ''ZAR'', ''MXN'', ''TRY'']"

text \<open>\<open>MarketHours\<close> is its instrument map.\<close>

type_synonym market_hours = "(string, market_class) dict"

definition market_hours_init :: market_hours where
  "market_hours_init = INSTRUMENT_ASSET_CLASS_MAP"

definition register_instrument :: "string \<Rightarrow> market_class \<Rightarrow> market_hours \<Rightarrow> market_hours" where
  "register_instrument instrument c h = AList.update instrument c h"

fun split_on :: "char \<Rightarrow> string \<Rightarrow> string list" where
  "split_on c [] = [[]]"
| "split_on c (x # xs) =
     (if x = c then [] # split_on c xs
      else case split_on c xs of p # ps \<Rightarrow> (x # p) # ps | [] \<Rightarrow> [[x]])"

definition starts_with :: "string \<Rightarrow> string list \<Rightarrow> bool" where
  "starts_with s ps = list_ex (\<lambda>p. take (length p) s = p) ps"

definition pair_class :: "string \<Rightarrow> market_class option" where
  "pair_class instrument =
     (case split_on (CHR ''/'') instrument of
        [base, quote] \<Rightarrow>
          if py_upper base \<in> set [''BTC'', ''ETH'', ''XRP'', ''LTC'', ''ADA'', ''DOT'', ''SOL'', ''DOGE''] then Some CRYPTO
          else if py_upper base \<in> set FOREX_PREFIXES \<or> py_upper quote \<in> set FOREX_PREFIXES then Some FOREX
          else None
      | _ \<Rightarrow> None)"

definition get_asset_class :: "market_hours \<Rightarrow> string \<Rightarrow> market_class" where
  "get_asset_class h instrument =
     (case map_of h instrument of
        Some c \<Rightarrow> c
      | None \<Rightarrow>
          (case pair_class instrument of
             Some c \<Rightarrow> c
           | None \<Rightarrow>
               (let up = py_upper instrument
                in if starts_with up [''BTC'', ''ETH'', ''XRP'', ''LTC'', ''CRYPTO''] then CRYPTO
                   else if starts_with up [''US'', ''SP'', ''DOW'', ''NASDAQ''] then US_INDEX
                   else if starts_with up [''DE'', ''UK'', ''FR'', ''EU'', ''FTSE'', ''DAX'', ''CAC''] then EU_INDEX
                   else COMMODITY_OTHER)))"

section \<open>Opening hours\<close>

definition is_crypto_open :: bool where
  "is_crypto_open = True"

definition is_forex_open :: "micros \<Rightarrow> bool" where
  "is_forex_open t =
     (let weekday = isoweekday t; hour = hour_of t; minute = minute_of t
      in if weekday = 6 then False
         else if weekday = 7 then 21 \<le> hour
         else if weekday = 5 then hour < 21 \<or> hour = 21 \<and> minute = 0
         else True)"

definition is_us_market_open :: "micros \<Rightarrow> bool" where
  "is_us_market_open t =
     (let weekday = isoweekday t
      in if 5 < weekday then False
         else let time_minutes = hour_of t * 60 + minute_of t
              in 14 * 60 + 30 \<le> time_minutes \<and> time_minutes < 21 * 60)"

definition is_eu_market_open :: "micros \<Rightarrow> bool" where
  "is_eu_market_open t =
     (let weekday = isoweekday t
      in if 5 < weekday then False
         else let time_minutes = hour_of t * 60 + minute_of t
              in 8 * 60 \<le> time_minutes \<and> time_minutes < 16 * 60 + 30)"

definition is_gold_open :: "micros \<Rightarrow> bool" where
  "is_gold_open t =
     (let weekday = isoweekday t; hour = hour_of t
      in if weekday = 6 then False
         else if weekday = 7 then 23 \<le> hour
         else if weekday = 5 then \<not> (22 \<le> hour \<and> hour < 23)
         else if 1 \<le> weekday \<and> weekday \<le> 4 then \<not> (22 \<le> hour \<and> hour < 23)
         else True)"

definition is_oil_open :: "micros \<Rightarrow> bool" where
  "is_oil_open t =
     (let weekday = isoweekday t; hour = hour_of t
      in if weekday = 6 then False
         else if weekday = 7 then 23 \<le> hour
         else if weekday = 5 then hour < 22
         else if 1 \<le> weekday \<and> weekday \<le> 4 then \<not> (22 \<le> hour \<and> hour < 23)
         else True)"

definition is_default_commodity_open :: "micros \<Rightarrow> bool" where
  "is_default_commodity_open t =
     (let weekday = isoweekday t in if 5 < weekday then False else 1 \<le> hour_of t \<and> hour_of t < 22)"

fun class_open :: "market_class \<Rightarrow> micros \<Rightarrow> bool" where
  "class_open CRYPTO t = is_crypto_open"
| "class_open FOREX t = is_forex_open t"
| "class_open US_INDEX t = is_us_market_open t"
| "class_open US_STOCK t = is_us_market_open t"
| "class_open EU_INDEX t = is_eu_market_open t"
| "class_open COMMODITY_GOLD t = is_gold_open t"
| "class_open COMMODITY_OIL t = is_oil_open t"
| "class_open COMMODITY_OTHER t = is_default_commodity_open t"

definition is_market_open :: "market_hours \<Rightarrow> string \<Rightarrow> micros \<Rightarrow> bool" where
  "is_market_open h instrument t = class_open (get_asset_class h instrument) t"

section \<open>Next opening\<close>

definition next_forex_open :: "micros \<Rightarrow> micros" where
  "next_forex_open t =
     (let weekday = isoweekday t;
          days_ahead =
            (if weekday = 6 then 1
             else if weekday = 7 \<and> hour_of t < 21 then 0
             else if weekday = 5 \<and> 21 \<le> hour_of t then 2
             else let d = 7 - weekday in if d \<le> 0 then d + 7 else d)
      in at_time t 21 0 + days days_ahead)"

text \<open>The \<open>while True\<close> that looks for the next weekday: it needs at most two more steps.\<close>

fun weekday_search :: "nat \<Rightarrow> int \<Rightarrow> int \<Rightarrow> int option" where
  "weekday_search 0 days_ahead next_day = None"
| "weekday_search (Suc fuel) days_ahead next_day =
     (let d = (if 7 < next_day then 1 else next_day)
      in if 1 \<le> d \<and> d \<le> 5 then Some days_ahead else weekday_search fuel (days_ahead + 1) (d + 1))"

definition days_to_weekday :: "int \<Rightarrow> int" where
  "days_to_weekday weekday = (case weekday_search 3 1 (weekday + 1) of Some d \<Rightarrow> d | None \<Rightarrow> 0)"

definition next_us_open :: "micros \<Rightarrow> micros" where
  "next_us_open t =
     (let weekday = isoweekday t; time_minutes = hour_of t * 60 + minute_of t
      in if 1 \<le> weekday \<and> weekday \<le> 5 \<and> time_minutes < 14 * 60 + 30 then at_time t 14 30
         else at_time t 14 30 + days (days_to_weekday weekday))"

definition next_eu_open :: "micros \<Rightarrow> micros" where
  "next_eu_open t =
     (let weekday = isoweekday t; time_minutes = hour_of t * 60 + minute_of t
      in if 1 \<le> weekday \<and> weekday \<le> 5 \<and> time_minutes < 8 * 60 then at_time t 8 0
         else at_time t 8 0 + days (days_to_weekday weekday))"

definition next_gold_open :: "micros \<Rightarrow> micros" where
  "next_gold_open t =
     (let weekday = isoweekday t; hour = hour_of t
      in if 1 \<le> weekday \<and> weekday \<le> 5 \<and> 22 \<le> hour \<and> hour < 23 then at_time t 23 0
         else if weekday = 6 then at_time t 23 0 + days 1
         else if weekday = 7 \<and> hour < 23 then at_time t 23 0
         else if weekday = 5 \<and> 22 \<le> hour then at_time t 23 0 + days 2
         else at_time t 23 0 + days 1)"

definition next_oil_open :: "micros \<Rightarrow> micros" where
  "next_oil_open t =
     (let weekday = isoweekday t; hour = hour_of t
      in if 1 \<le> weekday \<and> weekday \<le> 4 \<and> 22 \<le> hour \<and> hour < 23 then at_time t 23 0
         else if weekday = 5 \<and> 22 \<le> hour then at_time t 23 0 + days 2
         else if weekday = 6 then at_time t 23 0 + days 1
         else if weekday = 7 \<and> hour < 23 then at_time t 23 0
         else at_time t 23 0 + days 1)"

definition next_default_commodity_open :: "micros \<Rightarrow> micros" where
  "next_default_commodity_open t =
     (let weekday = isoweekday t
      in if 1 \<le> weekday \<and> weekday \<le> 5 \<and> hour_of t < 1 then at_time t 1 0
         else at_time t 1 0 + days (days_to_weekday weekday))"

fun class_next_open :: "market_class \<Rightarrow> micros \<Rightarrow> micros" where
  "class_next_open CRYPTO t = t"
| "class_next_open FOREX t = next_forex_open t"
| "class_next_open US_INDEX t = next_us_open t"
| "class_next_open US_STOCK t = next_us_open t"
| "class_next_open EU_INDEX t = next_eu_open t"
| "class_next_open COMMODITY_GOLD t = next_gold_open t"
| "class_next_open COMMODITY_OIL t = next_oil_open t"
| "class_next_open COMMODITY_OTHER t = next_default_commodity_open t"

definition get_next_open :: "market_hours \<Rightarrow> string \<Rightarrow> micros \<Rightarrow> micros" where
  "get_next_open h instrument t =
     (if is_market_open h instrument t then t else class_next_open (get_asset_class h instrument) t)"

section \<open>The week as one interval\<close>

text \<open>Microseconds since Monday 00:00.\<close>

definition of_week :: "micros \<Rightarrow> int" where
  "of_week t = (t + days 3) mod days 7"

definition wmin :: "int \<Rightarrow> int \<Rightarrow> int \<Rightarrow> int" where
  "wmin d h m = ((d * 24 + h) * 60 + m) * 60000000"

lemma unit_simps: "hours n = n * 3600000000" "minutes n = n * 60000000" "days n = n * 86400000000"
  by (simp_all add: hours_def minutes_def days_def)

lemma week_split:
  fixes t :: micros
  obtains q wd s where "t = (7 * q + wd - 3) * 86400000000 + s" "0 \<le> wd" "wd < 7" "0 \<le> s" "s < 86400000000"
    "isoweekday t = wd + 1" "of_week t = wd * 86400000000 + s" "midnight t = t - s"
    "hour_of t = s div 3600000000" "hour_of t * 60 + minute_of t = s div 60000000"
proof
  define s where "s = t mod 86400000000"
  define d where "d = t div 86400000000 + 3"
  define q where "q = d div 7"
  define wd where "wd = d mod 7"
  have t: "t = (d - 3) * 86400000000 + s" by (simp add: s_def d_def)
  have d: "d = 7 * q + wd" by (simp add: q_def wd_def)
  show "t = (7 * q + wd - 3) * 86400000000 + s" using t d by simp
  show "0 \<le> wd" "wd < 7" by (simp_all add: wd_def)
  show s: "0 \<le> s" "s < 86400000000" by (simp_all add: s_def)
  show "isoweekday t = wd + 1" by (simp add: isoweekday_def unit_simps wd_def d_def)
  have "t + days 3 = (wd * 86400000000 + s) + q * (7 * 86400000000)" using t d by (simp add: unit_simps)
  then show "of_week t = wd * 86400000000 + s"
    using \<open>0 \<le> wd\<close> \<open>wd < 7\<close> s unfolding of_week_def by (simp add: unit_simps)
  show "midnight t = t - s" by (simp add: midnight_def s_def)
  show h: "hour_of t = s div 3600000000" by (simp add: hour_of_def unit_simps s_def)
  have "t mod 3600000000 = s mod 3600000000" by (simp add: s_def mod_mod_cancel)
  then have "minute_of t = s mod 3600000000 div 60000000" by (simp add: minute_of_def unit_simps)
  moreover have "s div 60000000 = s div 3600000000 * 60 + s mod 3600000000 div 60000000"
  proof -
    have "s = s div 3600000000 * 60 * 60000000 + s mod 3600000000" by simp
    then have "s div 60000000 = (s mod 3600000000 + s div 3600000000 * 60 * 60000000) div 60000000" by simp
    also have "\<dots> = s div 3600000000 * 60 + s mod 3600000000 div 60000000" by (subst div_mult_self1) simp_all
    finally show ?thesis .
  qed
  ultimately show "hour_of t * 60 + minute_of t = s div 60000000" using h by simp
qed

lemma of_week_bounds: "0 \<le> of_week t" "of_week t < days 7"
  by (simp_all add: of_week_def unit_simps)

lemma of_week_add:
  assumes "0 \<le> d" "d \<le> days 7"
  shows "of_week (t + d) = (if of_week t + d < days 7 then of_week t + d else of_week t + d - days 7)"
proof -
  have m: "of_week (t + d) = (of_week t + d) mod days 7" by (simp add: of_week_def mod_simps algebra_simps)
  show ?thesis
  proof (cases "of_week t + d < days 7")
    case True
    then show ?thesis using m of_week_bounds[of t] assms by simp
  next
    case False
    have "(of_week t + d - days 7) mod days 7 = of_week t + d - days 7"
      using False of_week_bounds[of t] assms by (intro mod_pos_pos_trivial) auto
    then show ?thesis using m False by (metis minus_mod_self2)
  qed
qed

text \<open>The published opening hours: the week of each class, and the times of the week at which it opens.\<close>

definition daily :: "int \<Rightarrow> int list \<Rightarrow> int \<Rightarrow> int \<Rightarrow> int \<Rightarrow> int \<Rightarrow> bool" where
  "daily w ds h m h' m' = list_ex (\<lambda>d. wmin d h m \<le> w \<and> w < wmin d h' m') ds"

fun open_week :: "market_class \<Rightarrow> int \<Rightarrow> bool" where
  "open_week CRYPTO w = True"
| "open_week FOREX w = (w < wmin 4 21 1 \<or> wmin 6 21 0 \<le> w)"
| "open_week US_INDEX w = daily w [0, 1, 2, 3, 4] 14 30 21 0"
| "open_week US_STOCK w = daily w [0, 1, 2, 3, 4] 14 30 21 0"
| "open_week EU_INDEX w = daily w [0, 1, 2, 3, 4] 8 0 16 30"
| "open_week COMMODITY_GOLD w = (w < wmin 5 0 0 \<and> \<not> daily w [0, 1, 2, 3, 4] 22 0 23 0 \<or> wmin 6 23 0 \<le> w)"
| "open_week COMMODITY_OIL w = (w < wmin 4 22 0 \<and> \<not> daily w [0, 1, 2, 3] 22 0 23 0 \<or> wmin 6 23 0 \<le> w)"
| "open_week COMMODITY_OTHER w = daily w [0, 1, 2, 3, 4] 1 0 22 0"

fun opens :: "market_class \<Rightarrow> int list" where
  "opens CRYPTO = [0]"
| "opens FOREX = [wmin 6 21 0]"
| "opens US_INDEX = map (\<lambda>d. wmin d 14 30) [0, 1, 2, 3, 4]"
| "opens US_STOCK = map (\<lambda>d. wmin d 14 30) [0, 1, 2, 3, 4]"
| "opens EU_INDEX = map (\<lambda>d. wmin d 8 0) [0, 1, 2, 3, 4]"
| "opens COMMODITY_GOLD = map (\<lambda>d. wmin d 23 0) [0, 1, 2, 3, 4, 6]"
| "opens COMMODITY_OIL = map (\<lambda>d. wmin d 23 0) [0, 1, 2, 3, 6]"
| "opens COMMODITY_OTHER = map (\<lambda>d. wmin d 1 0) [0, 1, 2, 3, 4]"

definition gap :: "market_class \<Rightarrow> int \<Rightarrow> int" where
  "gap c w = (case dropWhile (\<lambda>v. v \<le> w) (opens c) of v # vs \<Rightarrow> v - w | [] \<Rightarrow> hd (opens c) + days 7 - w)"

lemma div_bounds:
  "s div 3600000000 < (k :: int) \<longleftrightarrow> s < k * 3600000000" "k \<le> s div 3600000000 \<longleftrightarrow> k * 3600000000 \<le> s"
  "s div 60000000 < (k :: int) \<longleftrightarrow> s < k * 60000000" "k \<le> s div 60000000 \<longleftrightarrow> k * 60000000 \<le> s"
proof -
  have a: "s = 3600000000 * (s div 3600000000) + s mod 3600000000" "0 \<le> s mod 3600000000" "s mod 3600000000 < 3600000000"
    and b: "s = 60000000 * (s div 60000000) + s mod 60000000" "0 \<le> s mod 60000000" "s mod 60000000 < 60000000"
    by simp_all
  show "s div 3600000000 < k \<longleftrightarrow> s < k * 3600000000" "k \<le> s div 3600000000 \<longleftrightarrow> k * 3600000000 \<le> s"
    using a by (auto; linarith)+
  show "s div 60000000 < k \<longleftrightarrow> s < k * 60000000" "k \<le> s div 60000000 \<longleftrightarrow> k * 60000000 \<le> s"
    using b by (auto; linarith)+
qed

lemma weekday_cases: "0 \<le> wd \<Longrightarrow> wd < 7 \<Longrightarrow> wd = 0 \<or> wd = 1 \<or> wd = 2 \<or> wd = 3 \<or> wd = 4 \<or> wd = 5 \<or> wd = (6::int)"
  by presburger

lemmas week_simps = unit_simps wmin_def daily_def

lemma minute_bounds: "0 \<le> minute_of t" "minute_of t < 60"
proof -
  have "t mod 3600000000 < 3600000000" "0 \<le> t mod 3600000000" by simp_all
  then show "0 \<le> minute_of t" "minute_of t < 60"
    using div_bounds(3)[of "t mod 3600000000" 60] by (simp_all add: minute_of_def unit_simps pos_imp_zdiv_nonneg_iff)
qed

lemma first_minute:
  "x = h * 60 + m \<Longrightarrow> 0 \<le> m \<Longrightarrow> m < 60 \<Longrightarrow> h = 21 \<and> m = 0 \<longleftrightarrow> 21 * 60 \<le> x \<and> x < 21 * 60 + (1 :: int)"
  by presburger

lemma hours_open_week:
  "is_forex_open t = open_week FOREX (of_week t)"
  "is_us_market_open t = open_week US_INDEX (of_week t)"
  "is_eu_market_open t = open_week EU_INDEX (of_week t)"
  "is_gold_open t = open_week COMMODITY_GOLD (of_week t)"
  "is_oil_open t = open_week COMMODITY_OIL (of_week t)"
  "is_default_commodity_open t = open_week COMMODITY_OTHER (of_week t)"
proof -
  obtain q wd s where t: "t = (7 * q + wd - 3) * 86400000000 + s" and wd: "0 \<le> wd" "wd < 7" and s: "0 \<le> s" "s < 86400000000"
    and e: "isoweekday t = wd + 1" "of_week t = wd * 86400000000 + s" "midnight t = t - s"
      "hour_of t = s div 3600000000" "hour_of t * 60 + minute_of t = s div 60000000"
    by (rule week_split)
  have "s div 60000000 = hour_of t * 60 + minute_of t" using e(5) by simp
  then have m: "hour_of t = 21 \<and> minute_of t = 0 \<longleftrightarrow> 21 * 60 \<le> s div 60000000 \<and> s div 60000000 < 21 * 60 + 1"
    using minute_bounds[of t] by (intro first_minute)
  note weekday = weekday_cases[OF wd]
  show "is_forex_open t = open_week FOREX (of_week t)" using weekday s
    by (elim disjE) (auto simp: is_forex_open_def Let_def e(1,2,4) m[unfolded e(4)] div_bounds week_simps)
  show "is_us_market_open t = open_week US_INDEX (of_week t)" using weekday s
    by (elim disjE) (simp_all add: is_us_market_open_def Let_def e(1,2,5) div_bounds week_simps)
  show "is_eu_market_open t = open_week EU_INDEX (of_week t)" using weekday s
    by (elim disjE) (simp_all add: is_eu_market_open_def Let_def e(1,2,5) div_bounds week_simps)
  show "is_gold_open t = open_week COMMODITY_GOLD (of_week t)" using weekday s
    by (elim disjE) (auto simp: is_gold_open_def Let_def e(1,2,4) div_bounds week_simps)
  show "is_oil_open t = open_week COMMODITY_OIL (of_week t)" using weekday s
    by (elim disjE) (auto simp: is_oil_open_def Let_def e(1,2,4) div_bounds week_simps)
  show "is_default_commodity_open t = open_week COMMODITY_OTHER (of_week t)" using weekday s
    by (elim disjE) (auto simp: is_default_commodity_open_def Let_def e(1,2,4) div_bounds week_simps)
qed

lemma class_open_week: "class_open c t = open_week c (of_week t)"
  by (cases c) (simp_all add: hours_open_week is_crypto_open_def)

text \<open>After a closed instant of the week the market stays closed up to its next opening.\<close>

definition norm_week :: "int \<Rightarrow> int" where
  "norm_week x = (if x < days 7 then x else x - days 7)"

definition gap_ok :: "market_class \<Rightarrow> int \<Rightarrow> bool" where
  "gap_ok c w \<longleftrightarrow> 0 < gap c w \<and> gap c w \<le> days 3 \<and> open_week c (norm_week (w + gap c w)) \<and>
     (\<forall>d. 0 \<le> d \<and> d < gap c w \<longrightarrow> \<not> open_week c (norm_week (w + d)))"

lemma gap_ok_classes:
  assumes "0 \<le> w" "w < days 7"
  shows "\<not> open_week FOREX w \<Longrightarrow> gap_ok FOREX w" "\<not> open_week US_INDEX w \<Longrightarrow> gap_ok US_INDEX w"
    "\<not> open_week EU_INDEX w \<Longrightarrow> gap_ok EU_INDEX w" "\<not> open_week COMMODITY_GOLD w \<Longrightarrow> gap_ok COMMODITY_GOLD w"
    "\<not> open_week COMMODITY_OIL w \<Longrightarrow> gap_ok COMMODITY_OIL w" "\<not> open_week COMMODITY_OTHER w \<Longrightarrow> gap_ok COMMODITY_OTHER w"
  using assms by (auto simp: gap_ok_def gap_def norm_week_def week_simps)

lemma us_stock_week: "open_week US_STOCK = open_week US_INDEX" "gap US_STOCK = gap US_INDEX"
  by (intro ext, simp only: open_week.simps) (intro ext, simp only: gap_def opens.simps)

lemma gap_ok_closed: "0 \<le> w \<Longrightarrow> w < days 7 \<Longrightarrow> \<not> open_week c w \<Longrightarrow> gap_ok c w"
proof (cases c)
  case US_STOCK
  assume "0 \<le> w" "w < days 7" "\<not> open_week c w"
  with US_STOCK gap_ok_classes(2)[of w] show ?thesis unfolding gap_ok_def us_stock_week US_STOCK by blast
qed (auto intro: gap_ok_classes)

lemma days_to_weekday_eq:
  "1 \<le> wd \<Longrightarrow> wd \<le> 7 \<Longrightarrow> days_to_weekday wd = (if wd = 5 then 3 else if wd = 6 then 2 else 1)"
  by (auto simp: days_to_weekday_def numeral_3_eq_3 Let_def)

lemma next_open_gap:
  assumes "\<not> class_open c t"
  shows "class_next_open c t = t + gap c (of_week t)"
proof -
  obtain q wd s where t: "t = (7 * q + wd - 3) * 86400000000 + s" and wd: "0 \<le> wd" "wd < 7" and s: "0 \<le> s" "s < 86400000000"
    and e: "isoweekday t = wd + 1" "of_week t = wd * 86400000000 + s" "midnight t = t - s"
      "hour_of t = s div 3600000000" "hour_of t * 60 + minute_of t = s div 60000000"
    by (rule week_split)
  have closed: "\<not> open_week c (of_week t)" using assms by (simp add: class_open_week)
  have at: "at_time t h m = t - s + h * 3600000000 + m * 60000000" for h m
    by (simp add: at_time_def e(3) unit_simps)
  show ?thesis
  proof (cases c)
    case FOREX
    then show ?thesis using weekday_cases[OF wd] s closed
      by (elim disjE) (auto simp: next_forex_open_def Let_def e(1,2,4) at div_bounds gap_def week_simps)
  next
    case US_INDEX
    then show ?thesis using weekday_cases[OF wd] s closed
      by (elim disjE) (auto simp: next_us_open_def Let_def e(1,2,5) at div_bounds gap_def week_simps days_to_weekday_eq)
  next
    case US_STOCK
    then show ?thesis using weekday_cases[OF wd] s closed
      by (elim disjE) (auto simp: next_us_open_def Let_def e(1,2,5) at div_bounds gap_def week_simps days_to_weekday_eq)
  next
    case EU_INDEX
    then show ?thesis using weekday_cases[OF wd] s closed
      by (elim disjE) (auto simp: next_eu_open_def Let_def e(1,2,5) at div_bounds gap_def week_simps days_to_weekday_eq)
  next
    case COMMODITY_GOLD
    then show ?thesis using weekday_cases[OF wd] s closed
      by (elim disjE) (auto simp: next_gold_open_def Let_def e(1,2,4) at div_bounds gap_def week_simps)
  next
    case COMMODITY_OIL
    then show ?thesis using weekday_cases[OF wd] s closed
      by (elim disjE) (auto simp: next_oil_open_def Let_def e(1,2,4) at div_bounds gap_def week_simps)
  next
    case COMMODITY_OTHER
    then show ?thesis using weekday_cases[OF wd] s closed
      by (elim disjE) (auto simp: next_default_commodity_open_def Let_def e(1,2,4) at div_bounds gap_def week_simps days_to_weekday_eq)
  qed (use closed in auto)
qed

lemma of_week_norm: "0 \<le> d \<Longrightarrow> d \<le> days 7 \<Longrightarrow> of_week (t + d) = norm_week (of_week t + d)"
  by (simp add: of_week_add norm_week_def)

section \<open>The next opening\<close>

text \<open>
  Claim: for every instrument and every instant the market is open exactly in the intervals of
  the weekly table, and the next opening is the first instant from now on at which it is open: it
  is not before now, the market is open then and closed at every instant between, and it comes
  within three days.
\<close>

theorem next_open_is_first:
  "is_market_open h i t = open_week (get_asset_class h i) (of_week t) \<and>
   t \<le> get_next_open h i t \<and> get_next_open h i t \<le> t + days 3 \<and>
   is_market_open h i (get_next_open h i t) \<and>
   \<not> (\<exists>u. t \<le> u \<and> u < get_next_open h i t \<and> is_market_open h i u)"
proof (cases "is_market_open h i t")
  case True
  then show ?thesis by (auto simp: get_next_open_def is_market_open_def class_open_week unit_simps)
next
  case False
  define c where "c = get_asset_class h i"
  have closed: "\<not> class_open c t" using False by (simp add: is_market_open_def c_def)
  then have ok: "gap_ok c (of_week t)" using gap_ok_closed of_week_bounds by (simp add: class_open_week)
  have nx: "get_next_open h i t = t + gap c (of_week t)"
    using False next_open_gap[OF closed] by (simp add: get_next_open_def c_def)
  have open_at: "is_market_open h i (t + d) = open_week c (norm_week (of_week t + d))" if "0 \<le> d" "d \<le> days 3" for d
  proof -
    have "d \<le> days 7" using that by (simp add: unit_simps)
    then show ?thesis using that by (simp add: is_market_open_def c_def class_open_week of_week_norm)
  qed
  have "\<not> is_market_open h i u" if "t \<le> u" "u < t + gap c (of_week t)" for u
    using open_at[of "u - t"] ok that by (auto simp: gap_ok_def)
  then show ?thesis using ok open_at[of "gap c (of_week t)"] nx
    by (auto simp: gap_ok_def is_market_open_def class_open_week)
qed

end
