(* ===== verification/Iso_Datetime.thy ===== *)
theory Iso_Datetime
  imports Py_Numeric
begin

text \<open>
  UTC datetimes by their fields and the two library functions the code uses to send them as text:
  \<open>datetime.isoformat\<close> and, for texts in that layout, \<open>datetime.fromisoformat\<close>.  Texts in the other
  layouts the library accepts are outside the model.
\<close>

section \<open>Fields\<close>

record pydatetime =
  dt_year :: nat
  dt_month :: nat
  dt_day :: nat
  dt_hour :: nat
  dt_minute :: nat
  dt_second :: nat
  dt_micro :: nat

definition leap_year :: "nat \<Rightarrow> bool" where
  "leap_year y \<longleftrightarrow> 4 dvd y \<and> (\<not> 100 dvd y \<or> 400 dvd y)"

definition month_length :: "nat \<Rightarrow> nat \<Rightarrow> nat" where
  "month_length y m = (if m = 2 then (if leap_year y then 29 else 28) else if m \<in> {4, 6, 9, 11} then 30 else 31)"

text \<open>The range checks of the constructor.\<close>

definition dt_ok :: "pydatetime \<Rightarrow> bool" where
  "dt_ok d \<longleftrightarrow> 1 \<le> dt_year d \<and> dt_year d \<le> 9999 \<and> 1 \<le> dt_month d \<and> dt_month d \<le> 12 \<and>
     1 \<le> dt_day d \<and> dt_day d \<le> month_length (dt_year d) (dt_month d) \<and>
     dt_hour d \<le> 23 \<and> dt_minute d \<le> 59 \<and> dt_second d \<le> 59 \<and> dt_micro d \<le> 999999"

section \<open>Padded decimals\<close>

definition digit :: "nat \<Rightarrow> char" where
  "digit n = char_of (48 + n mod 10)"

fun pad :: "nat \<Rightarrow> nat \<Rightarrow> string" where
  "pad 0 n = []"
| "pad (Suc k) n = pad k (n div 10) @ [digit n]"

definition digit_value :: "char \<Rightarrow> nat option" where
  "digit_value c = (let n = of_char c :: nat in if 48 \<le> n \<and> n \<le> 57 then Some (n - 48) else None)"

fun read_digits :: "nat \<Rightarrow> nat \<Rightarrow> string \<Rightarrow> (nat \<times> string) option" where
  "read_digits 0 acc s = Some (acc, s)"
| "read_digits (Suc k) acc [] = None"
| "read_digits (Suc k) acc (c # s) =
     (case digit_value c of Some v \<Rightarrow> read_digits k (10 * acc + v) s | None \<Rightarrow> None)"

fun read_char :: "char \<Rightarrow> string \<Rightarrow> string option" where
  "read_char c (x # s) = (if x = c then Some s else None)"
| "read_char c [] = None"

lemma digit_value_digit [simp]: "digit_value (digit n) = Some (n mod 10)"
proof -
  have "(of_char (char_of (48 + n mod 10) :: char) :: nat) = 48 + n mod 10"
    by (simp add: of_char_of take_bit_eq_mod)
  then show ?thesis by (simp add: digit_value_def digit_def)
qed

lemma read_digits_append:
  "read_digits k acc s = Some (v, []) \<Longrightarrow> read_digits (k + j) acc (s @ r) = read_digits j v r"
proof (induction k acc s rule: read_digits.induct)
  case (3 k acc c s)
  then show ?case by (auto split: option.splits)
qed auto

lemma read_digits_pad_acc: "n < 10 ^ k \<Longrightarrow> read_digits k acc (pad k n) = Some (acc * 10 ^ k + n, [])"
proof (induction k arbitrary: n)
  case (Suc k)
  have "n div 10 < 10 ^ k" using Suc.prems by (simp add: less_mult_imp_div_less)
  from read_digits_append[OF Suc.IH[OF this], of 1 "[digit n]"] show ?case
    by (simp add: algebra_simps)
qed simp

lemma read_digits_pad [simp]: "n < 10 ^ k \<Longrightarrow> read_digits k 0 (pad k n @ r) = Some (n, r)"
  using read_digits_append[OF read_digits_pad_acc[of n k 0], of 0 r] by simp

section \<open>The two functions\<close>

definition isoformat :: "pydatetime \<Rightarrow> string" where
  "isoformat d =
     pad 4 (dt_year d) @ ''-'' @ pad 2 (dt_month d) @ ''-'' @ pad 2 (dt_day d) @ ''T'' @
     pad 2 (dt_hour d) @ '':'' @ pad 2 (dt_minute d) @ '':'' @ pad 2 (dt_second d) @
     (if dt_micro d = 0 then [] else ''.'' @ pad 6 (dt_micro d)) @ ''+00:00''"

fun read_micro :: "string \<Rightarrow> (nat \<times> string) option" where
  "read_micro [] = Some (0, [])"
| "read_micro (c # s) = (if c = CHR ''.'' then read_digits 6 0 s else Some (0, c # s))"

definition parse_iso :: "string \<Rightarrow> pydatetime option" where
  "parse_iso s0 =
     Option.bind (read_digits 4 0 s0) (\<lambda>(y, s).
     Option.bind (read_char CHR ''-'' s) (\<lambda>s.
     Option.bind (read_digits 2 0 s) (\<lambda>(mo, s).
     Option.bind (read_char CHR ''-'' s) (\<lambda>s.
     Option.bind (read_digits 2 0 s) (\<lambda>(d, s).
     Option.bind (read_char CHR ''T'' s) (\<lambda>s.
     Option.bind (read_digits 2 0 s) (\<lambda>(h, s).
     Option.bind (read_char CHR '':'' s) (\<lambda>s.
     Option.bind (read_digits 2 0 s) (\<lambda>(mi, s).
     Option.bind (read_char CHR '':'' s) (\<lambda>s.
     Option.bind (read_digits 2 0 s) (\<lambda>(sec, s).
     Option.bind (read_micro s) (\<lambda>(us, s).
       if s = ''+00:00''
       then Some \<lparr>dt_year = y, dt_month = mo, dt_day = d, dt_hour = h, dt_minute = mi, dt_second = sec, dt_micro = us\<rparr>
       else None))))))))))))"

definition fromisoformat :: "string \<Rightarrow> py_error + pydatetime" where
  "fromisoformat s =
     (case parse_iso s of
        Some d \<Rightarrow> if dt_ok d then Inr d else Inl (ValueError ''Invalid isoformat string'')
      | None \<Rightarrow> Inl (ValueError ''Invalid isoformat string''))"

lemma month_length_le: "month_length y m \<le> 31"
  by (simp add: month_length_def)

lemma read_micro_back:
  "u < 10 ^ 6 \<Longrightarrow> read_micro ((if u = 0 then [] else ''.'' @ pad 6 u) @ ''+00:00'') = Some (u, ''+00:00'')"
  by (cases "u = 0") simp_all

lemma parse_isoformat:
  assumes "dt_ok d" shows "parse_iso (isoformat d) = Some d"
proof -
  have lt: "dt_year d < 10 ^ 4" "dt_month d < 10 ^ 2" "dt_day d < 10 ^ 2" "dt_hour d < 10 ^ 2"
    "dt_minute d < 10 ^ 2" "dt_second d < 10 ^ 2" "dt_micro d < 10 ^ 6"
    using assms month_length_le[of "dt_year d" "dt_month d"] by (simp_all add: dt_ok_def)
  note read = lt(1-6)[THEN read_digits_pad] read_micro_back[OF lt(7)]
  show ?thesis
    by (simp only: parse_iso_def isoformat_def read bind.bind_lunit prod.case append_Cons append_Nil read_char.simps if_True refl)
      (simp add: lt(7) read_digits_pad[OF lt(7)])
qed

lemma fromisoformat_isoformat: "dt_ok d \<Longrightarrow> fromisoformat (isoformat d) = Inr d"
  by (simp add: fromisoformat_def parse_isoformat)

end
