(* ===== verification/Event_Bus.thy ===== *)
theory Event_Bus
  imports Json Iso_Datetime
begin

text \<open>
  The event bus, \<open>src/core/event_bus.py\<close>: events and their dictionaries, the handler table, and the
  listener that dispatches messages.  The Redis client, the JSON codec and the source of
  identifiers are not in the repository: they are the fields of \<open>bus_env\<close>, actions on an outside
  world.  A handler is an action on that world; it does not change the handler table.
\<close>

section \<open>Events\<close>

text \<open>Only the timestamp is checked when an event is read, so the other fields hold any value;
  \<open>correlation_id\<close> None is \<open>JNull\<close>.\<close>

record event =
  ev_event_type :: json
  ev_timestamp :: pydatetime
  ev_payload :: json
  ev_correlation_id :: json

definition to_dict :: "event \<Rightarrow> (string, json) dict" where
  "to_dict e =
     [(''event_type'', ev_event_type e), (''timestamp'', JStr (isoformat (ev_timestamp e))),
      (''payload'', ev_payload e), (''correlation_id'', ev_correlation_id e)]"

definition item :: "string \<Rightarrow> (string, json) dict \<Rightarrow> py_error + json" where
  "item k d = (case map_of d k of Some v \<Rightarrow> Inr v | None \<Rightarrow> Inl (KeyError k))"

fun timestamp_of :: "json \<Rightarrow> py_error + pydatetime" where
  "timestamp_of (JStr s) = fromisoformat s"
| "timestamp_of _ = Inl (TypeError ''fromisoformat: argument must be str'')"

definition from_dict :: "(string, json) dict \<Rightarrow> py_error + event" where
  "from_dict d =
     bindE (item ''event_type'' d) (\<lambda>event_type.
     bindE (item ''timestamp'' d) (\<lambda>ts.
     bindE (timestamp_of ts) (\<lambda>t.
       Inr \<lparr>ev_event_type = event_type, ev_timestamp = t,
            ev_payload = (case map_of d ''payload'' of Some v \<Rightarrow> v | None \<Rightarrow> JObj []),
            ev_correlation_id = (case map_of d ''correlation_id'' of Some v \<Rightarrow> v | None \<Rightarrow> JNull)\<rparr>)))"

text \<open>What the listener does with a decoded message: anything but an object cannot be indexed by a
  string.\<close>

fun event_of_json :: "json \<Rightarrow> py_error + event" where
  "event_of_json (JObj d) = from_dict d"
| "event_of_json _ = Inl (TypeError ''indices must be integers'')"

section \<open>The bus\<close>

record 'b message =
  ms_type :: string
  ms_channel :: string
  ms_data :: 'b

record ('w, 'b) bus_env =
  redis_connect :: "string \<Rightarrow> ('w, unit) action"
  redis_close :: "('w, unit) action"
  redis_publish :: "string \<Rightarrow> 'b \<Rightarrow> ('w, int) action"
  pubsub_subscribe :: "string \<Rightarrow> ('w, unit) action"
  pubsub_unsubscribe :: "string option \<Rightarrow> ('w, unit) action"
  pubsub_close :: "('w, unit) action"
  get_message :: "('w, 'b message option) action"
  orjson_dumps :: "json \<Rightarrow> py_error + 'b"
  orjson_loads :: "'b \<Rightarrow> py_error + json"
  utc_now :: "'w \<Rightarrow> pydatetime"
  uuid4 :: "'w \<Rightarrow> string \<times> 'w"
  pause_100ms :: "'w \<Rightarrow> 'w"

type_synonym 'w handler = "event \<Rightarrow> ('w, unit) action"

record 'w event_bus =
  eb_redis_url :: string
  eb_redis :: bool
  eb_pubsub :: bool
  eb_handlers :: "(string, 'w handler list) dict"
  eb_running :: bool
  eb_world :: 'w

definition event_bus_init :: "string \<Rightarrow> 'w \<Rightarrow> 'w event_bus" where
  "event_bus_init url w =
     \<lparr>eb_redis_url = url, eb_redis = False, eb_pubsub = False, eb_handlers = [], eb_running = False, eb_world = w\<rparr>"

definition on_world :: "('w, 'a) action \<Rightarrow> ('w event_bus, 'a) action" where
  "on_world m b = (case m (eb_world b) of (r, w) \<Rightarrow> (r, b\<lparr>eb_world := w\<rparr>))"

definition update_bus :: "('w event_bus \<Rightarrow> 'w event_bus) \<Rightarrow> ('w event_bus, unit) action" where
  "update_bus f b = (Inr (), f b)"

definition start :: "('w, 'b) bus_env \<Rightarrow> ('w event_bus, unit) action" where
  "start env b =
     (if eb_running b then (Inr (), b)
      else bindA (on_world (redis_connect env (eb_redis_url b))) (\<lambda>_.
             update_bus (\<lambda>b. b\<lparr>eb_redis := True, eb_pubsub := True, eb_running := True\<rparr>)) b)"

text \<open>The cancelled listener task has ended when \<open>stop\<close> goes on.\<close>

definition close_pubsub :: "('w, 'b) bus_env \<Rightarrow> ('w event_bus, unit) action" where
  "close_pubsub env b =
     (if eb_pubsub b then
        bindA (on_world (pubsub_unsubscribe env None)) (\<lambda>_.
        bindA (on_world (pubsub_close env)) (\<lambda>_.
          update_bus (\<lambda>b. b\<lparr>eb_pubsub := False\<rparr>))) b
      else (Inr (), b))"

definition close_redis :: "('w, 'b) bus_env \<Rightarrow> ('w event_bus, unit) action" where
  "close_redis env b =
     (if eb_redis b then
        bindA (on_world (redis_close env)) (\<lambda>_. update_bus (\<lambda>b. b\<lparr>eb_redis := False\<rparr>)) b
      else (Inr (), b))"

definition stop :: "('w, 'b) bus_env \<Rightarrow> ('w event_bus, unit) action" where
  "stop env =
     bindA (update_bus (\<lambda>b. b\<lparr>eb_running := False\<rparr>)) (\<lambda>_.
     bindA (close_pubsub env) (\<lambda>_.
     bindA (close_redis env) (\<lambda>_.
       update_bus (\<lambda>b. b\<lparr>eb_handlers := []\<rparr>))))"

definition NOT_STARTED :: py_error where
  "NOT_STARTED = RuntimeError ''EventBus is not started. Call start() first.''"

definition publish :: "('w, 'b) bus_env \<Rightarrow> string \<Rightarrow> event \<Rightarrow> ('w event_bus, int) action" where
  "publish env channel e b =
     (if \<not> eb_redis b then (Inl NOT_STARTED, b)
      else case orjson_dumps env (JObj (to_dict e)) of
        Inl err \<Rightarrow> (Inl err, b)
      | Inr bytes \<Rightarrow> on_world (redis_publish env channel bytes) b)"

text \<open>The channel is entered in the table before the awaited subscription.\<close>

definition subscribe :: "('w, 'b) bus_env \<Rightarrow> string \<Rightarrow> 'w handler \<Rightarrow> ('w event_bus, unit) action" where
  "subscribe env channel handler b =
     (if \<not> eb_pubsub b then (Inl NOT_STARTED, b)
      else
        bindA
          (if map_of (eb_handlers b) channel = None
           then bindA (update_bus (\<lambda>b. b\<lparr>eb_handlers := AList.update channel [] (eb_handlers b)\<rparr>)) (\<lambda>_.
                  on_world (pubsub_subscribe env channel))
           else returnA ())
          (\<lambda>_. update_bus (\<lambda>b. b\<lparr>eb_handlers :=
             AList.map_entry channel (\<lambda>hs. hs @ [handler]) (eb_handlers b)\<rparr>)) b)"

definition unsubscribe :: "('w, 'b) bus_env \<Rightarrow> string \<Rightarrow> ('w event_bus, unit) action" where
  "unsubscribe env channel b =
     (if \<not> eb_pubsub b then (Inl NOT_STARTED, b)
      else if map_of (eb_handlers b) channel = None then (Inr (), b)
      else bindA (update_bus (\<lambda>b. b\<lparr>eb_handlers := AList.delete channel (eb_handlers b)\<rparr>)) (\<lambda>_.
             on_world (pubsub_unsubscribe env (Some channel))) b)"

text \<open>\<open>self._handlers.get(channel, [])\<close> and the loop over it.\<close>

definition handlers_at :: "'w event_bus \<Rightarrow> string \<Rightarrow> 'w handler list" where
  "handlers_at b channel = (case map_of (eb_handlers b) channel of Some hs \<Rightarrow> hs | None \<Rightarrow> [])"

fun run_handlers :: "event \<Rightarrow> 'w handler list \<Rightarrow> ('w event_bus, unit) action" where
  "run_handlers e [] = returnA ()"
| "run_handlers e (h # hs) = bindA (swallowA (on_world (h e))) (\<lambda>_. run_handlers e hs)"

definition dispatch :: "string \<Rightarrow> event \<Rightarrow> ('w event_bus, unit) action" where
  "dispatch channel e b = run_handlers e (handlers_at b channel) b"

text \<open>The body of the listener's \<open>try\<close>, and the listener until a cancellation after \<open>n\<close> rounds.\<close>

definition handle_message :: "('w, 'b) bus_env \<Rightarrow> 'b message option \<Rightarrow> ('w event_bus, unit) action" where
  "handle_message env m =
     (case m of
        None \<Rightarrow> returnA ()
      | Some msg \<Rightarrow>
          if ms_type msg = ''message'' then
            bindA (liftE (orjson_loads env (ms_data msg))) (\<lambda>data.
            bindA (liftE (event_of_json data)) (\<lambda>e.
              dispatch (ms_channel msg) e))
          else returnA ())"

definition listen_round :: "('w, 'b) bus_env \<Rightarrow> ('w event_bus, unit) action" where
  "listen_round env =
     catchA (bindA (on_world (get_message env)) (handle_message env))
       (\<lambda>_ b. (Inr (), b\<lparr>eb_world := pause_100ms env (eb_world b)\<rparr>))"

fun listen :: "nat \<Rightarrow> ('w, 'b) bus_env \<Rightarrow> ('w event_bus, unit) action" where
  "listen 0 env b = (Inr (), b)"
| "listen (Suc n) env b =
     (if eb_pubsub b \<and> eb_running b then bindA (listen_round env) (\<lambda>_. listen n env) b
      else (Inr (), b))"

definition create_event :: "('w, 'b) bus_env \<Rightarrow> json \<Rightarrow> json option \<Rightarrow> string option \<Rightarrow> 'w \<Rightarrow> event \<times> 'w" where
  "create_event env event_type payload correlation w0 =
     (case (case correlation of Some c \<Rightarrow> (if c = [] then uuid4 env w0 else (c, w0)) | None \<Rightarrow> uuid4 env w0) of
        (c, w) \<Rightarrow>
          (\<lparr>ev_event_type = event_type, ev_timestamp = utc_now env w,
            ev_payload = (case payload of Some p \<Rightarrow> p | None \<Rightarrow> JObj []), ev_correlation_id = JStr c\<rparr>, w))"

section \<open>A sample environment for the witnesses\<close>

text \<open>Its world counts the requests; subscribing fails while the count is below \<open>down\<close>.\<close>

definition sample_bus :: "nat \<Rightarrow> (nat, json) bus_env" where
  "sample_bus down =
     \<lparr>redis_connect = \<lambda>url. returnA (), redis_close = returnA (),
      redis_publish = \<lambda>channel bytes w. (Inr 1, w + 1),
      pubsub_subscribe = \<lambda>channel w. (if w < down then Inl (ExternalError ''redis'') else Inr (), w + 1),
      pubsub_unsubscribe = \<lambda>channel w. (Inr (), w + 1), pubsub_close = returnA (),
      get_message = returnA None, orjson_dumps = Inr, orjson_loads = Inr,
      utc_now = \<lambda>w. \<lparr>dt_year = 2026, dt_month = 2, dt_day = 28, dt_hour = 23, dt_minute = 59, dt_second = 5, dt_micro = 40\<rparr>,
      uuid4 = \<lambda>w. (''id'', w), pause_100ms = id\<rparr>"

definition sample_event :: event where
  "sample_event = fst (create_event (sample_bus 0) (JStr ''order.filled'') None None 0)"

lemma sample_event_ok: "dt_ok (ev_timestamp sample_event)"
  by (simp add: sample_event_def create_event_def sample_bus_def dt_ok_def month_length_def leap_year_def)

definition sample_handler :: "nat \<Rightarrow> nat handler" where
  "sample_handler k e w = (Inl (ExternalError ''handler''), 10 * w + k)"

section \<open>Round trip of an event\<close>

lemma from_dict_to_dict: "dt_ok (ev_timestamp e) \<Longrightarrow> from_dict (to_dict e) = Inr e"
  by (simp add: from_dict_def to_dict_def item_def fromisoformat_isoformat)

text \<open>
  Claim C26: an event with a valid timestamp is read back from its dictionary unchanged, and from
  the bytes published for it when the JSON codec reads back what it writes.
\<close>

theorem published_event_is_read_back:
  assumes "dt_ok (ev_timestamp e)"
    and "orjson_dumps env (JObj (to_dict e)) = Inr bytes" "orjson_loads env bytes = Inr (JObj (to_dict e))"
  shows "from_dict (to_dict e) = Inr e \<and>
    bindE (orjson_loads env bytes) event_of_json = Inr e \<and>
    handle_message env (Some \<lparr>ms_type = ''message'', ms_channel = c, ms_data = bytes\<rparr>) = dispatch c e"
  using assms by (simp add: from_dict_to_dict handle_message_def liftE_def)

theorem published_event_is_read_back_witness:
  "bindE (Inr (JObj (to_dict sample_event))) event_of_json = Inr sample_event"
  using published_event_is_read_back[of sample_event "sample_bus 0" "JObj (to_dict sample_event)"] sample_event_ok
  by (simp add: sample_bus_def)

section \<open>Dispatch\<close>

text \<open>Every handler runs, whatever the ones before it did.\<close>

lemma run_handlers_all:
  "run_handlers e hs b = (Inr (), b\<lparr>eb_world := fold (\<lambda>h w. snd (h e w)) hs (eb_world b)\<rparr>)"
  by (induction hs arbitrary: b)
    (auto simp: returnA_def bindA_def swallowA_def catchA_def on_world_def split: sum.splits prod.splits)

lemma dispatch_all:
  "dispatch c e b = (Inr (), b\<lparr>eb_world := fold (\<lambda>h w. snd (h e w)) (handlers_at b c) (eb_world b)\<rparr>)"
  by (simp add: dispatch_def run_handlers_all)

section \<open>The handler table in every run\<close>

datatype 'w bus_op =
    Subscribe string "'w handler"
  | Unsubscribe string
  | Publish string event
  | Listen nat

fun op_run :: "('w, 'b) bus_env \<Rightarrow> 'w bus_op \<Rightarrow> ('w event_bus, unit) action" where
  "op_run env (Subscribe c h) = subscribe env c h"
| "op_run env (Unsubscribe c) = unsubscribe env c"
| "op_run env (Publish c e) = bindA (publish env c e) (\<lambda>_. returnA ())"
| "op_run env (Listen n) = listen n env"

fun bus_run :: "('w, 'b) bus_env \<Rightarrow> 'w bus_op list \<Rightarrow> 'w event_bus \<Rightarrow> (bool \<times> 'w bus_op) list \<times> 'w event_bus" where
  "bus_run env [] b = ([], b)"
| "bus_run env (p # ps) b =
     (case op_run env p b of (r, b1) \<Rightarrow>
        case bus_run env ps b1 of (rs, b2) \<Rightarrow> ((\<not> isl r, p) # rs, b2))"

text \<open>The handlers a channel should have after operations that did or did not return.\<close>

fun registered :: "string \<Rightarrow> 'w handler list \<Rightarrow> (bool \<times> 'w bus_op) list \<Rightarrow> 'w handler list" where
  "registered c hs [] = hs"
| "registered c hs ((ok, Subscribe c' h) # ps) =
     registered c (if ok \<and> c' = c then hs @ [h] else hs) ps"
| "registered c hs ((ok, Unsubscribe c') # ps) = registered c (if c' = c then [] else hs) ps"
| "registered c hs ((ok, Publish c' e) # ps) = registered c hs ps"
| "registered c hs ((ok, Listen n) # ps) = registered c hs ps"

definition only_world :: "'w event_bus \<Rightarrow> 'w event_bus \<Rightarrow> bool" where
  "only_world b b' \<longleftrightarrow> b' = b\<lparr>eb_world := eb_world b'\<rparr>"

lemma only_world_refl [simp]: "only_world b b"
  by (simp add: only_world_def)

lemma only_world_upd [simp]: "only_world b (b\<lparr>eb_world := w\<rparr>)"
  by (simp add: only_world_def)

lemma only_world_trans: "only_world a b \<Longrightarrow> only_world b c \<Longrightarrow> only_world a c"
  by (cases a; cases b; cases c) (simp add: only_world_def)

lemma on_world_only: "only_world b (snd (on_world m b))"
  by (auto simp: on_world_def split: prod.split)

lemma bindA_only:
  assumes "only_world b (snd (m b))" "\<And>x b'. only_world b' (snd (f x b'))"
  shows "only_world b (snd (bindA m f b))"
proof -
  obtain r b1 where m: "m b = (r, b1)" by force
  show ?thesis
  proof (cases r)
    case (Inr x)
    then show ?thesis using only_world_trans[of b b1] assms(1) assms(2)[of b1 x] by (simp add: bindA_def m)
  qed (use assms(1) in \<open>simp add: bindA_def m\<close>)
qed

lemma dispatch_only: "only_world b (snd (dispatch c e b))"
  by (simp add: dispatch_all)

lemma handle_message_only: "only_world b (snd (handle_message env m b))"
  unfolding handle_message_def
  by (auto simp: returnA_def raiseA_def liftE_def dispatch_only split: option.split sum.split
      intro!: bindA_only)

lemma listen_round_only: "only_world b (snd (listen_round env b))"
proof -
  have "only_world b (snd (bindA (on_world (get_message env)) (handle_message env) b))"
    by (rule bindA_only[OF on_world_only handle_message_only])
  then show ?thesis
    unfolding listen_round_def catchA_def by (auto split: prod.split sum.split intro: only_world_trans)
qed

lemma listen_only: "only_world b (snd (listen n env b))"
  by (induction n arbitrary: b) (auto intro!: bindA_only listen_round_only)

lemma publish_only: "only_world b (snd (bindA (publish env c e) (\<lambda>_. returnA ()) b))"
  by (rule bindA_only) (auto simp: publish_def returnA_def on_world_only split: sum.split)

lemma only_world_table:
  assumes "only_world b b'"
  shows "handlers_at b' c = handlers_at b c" "eb_pubsub b' = eb_pubsub b"
  using assms by (cases b; cases b'; simp add: only_world_def handlers_at_def)+

lemma subscribe_table:
  assumes "eb_pubsub b"
  shows "eb_pubsub (snd (subscribe env c h b))"
    and "handlers_at (snd (subscribe env c h b)) c' =
      (if \<not> isl (fst (subscribe env c h b)) \<and> c = c' then handlers_at b c' @ [h] else handlers_at b c')"
  using assms
  by (auto simp: subscribe_def handlers_at_def bindA_def update_bus_def on_world_def returnA_def map_of_map_entry
      split: prod.splits sum.splits option.splits)

lemma unsubscribe_table:
  assumes "eb_pubsub b"
  shows "eb_pubsub (snd (unsubscribe env c b))"
    and "handlers_at (snd (unsubscribe env c b)) c' = (if c = c' then [] else handlers_at b c')"
  using assms
  by (auto simp: unsubscribe_def handlers_at_def bindA_def update_bus_def on_world_def
      split: prod.splits sum.splits option.splits)

lemma op_run_table:
  assumes "eb_pubsub b" "op_run env p b = (r, b')"
  shows "eb_pubsub b'" "registered c (handlers_at b c) [(\<not> isl r, p)] = handlers_at b' c"
proof -
  have "eb_pubsub b' \<and> registered c (handlers_at b c) [(\<not> isl r, p)] = handlers_at b' c"
  proof (cases p)
    case (Subscribe c1 h)
    then have e: "subscribe env c1 h b = (r, b')" using assms(2) by simp
    show ?thesis using subscribe_table[OF assms(1), where env = env and c = c1 and h = h] Subscribe by (auto simp: e)
  next
    case (Unsubscribe c1)
    then have e: "unsubscribe env c1 b = (r, b')" using assms(2) by simp
    show ?thesis using unsubscribe_table[OF assms(1), where env = env and c = c1] Unsubscribe by (auto simp: e)
  next
    case (Publish c1 e)
    then show ?thesis using assms only_world_table[OF publish_only[of b env c1 e]] by simp
  next
    case (Listen n)
    then show ?thesis using assms only_world_table[OF listen_only[of b n env]] by simp
  qed
  then show "eb_pubsub b'" "registered c (handlers_at b c) [(\<not> isl r, p)] = handlers_at b' c" by auto
qed

lemma registered_step: "registered c hs (p # ps) = registered c (registered c hs [p]) ps"
  by (cases p; cases "snd p") auto

lemma bus_run_table:
  "eb_pubsub b \<Longrightarrow> bus_run env ps b = (rs, b') \<Longrightarrow> handlers_at b' c = registered c (handlers_at b c) rs"
proof (induction ps arbitrary: b rs)
  case (Cons p ps)
  obtain r b1 where p: "op_run env p b = (r, b1)" by force
  obtain rs' where rs: "bus_run env ps b1 = (rs', b')" "rs = (\<not> isl r, p) # rs'"
    using Cons.prems(2) by (auto simp: p split: prod.splits)
  show ?case using Cons.IH[OF op_run_table(1)[OF Cons.prems(1) p] rs(1)]
    op_run_table(2)[OF Cons.prems(1) p, of c] rs(2) registered_step by metis
qed simp

text \<open>
  Claim C25: in every run of a bus that has just been started, whatever calls to Redis fail and
  whatever the handlers do, a message on a channel runs exactly the handlers whose subscription
  returned since the channel was last unsubscribed, each once, in the order of subscription, and
  the failure of one keeps none of the others from running.
\<close>

theorem message_reaches_registered_handlers:
  assumes "start env (event_bus_init url w) = (Inr (), b)" "bus_run env ps b = (rs, b')"
  shows "dispatch c e b' =
    (Inr (), b'\<lparr>eb_world := fold (\<lambda>h w. snd (h e w)) (registered c [] rs) (eb_world b')\<rparr>)"
proof -
  have b: "eb_pubsub b" "handlers_at b c = []"
    using assms(1) by (auto simp: start_def event_bus_init_def bindA_def on_world_def update_bus_def handlers_at_def
        split: prod.splits sum.splits)
  show ?thesis using bus_run_table[OF b(1) assms(2), of c] b(2) by (simp add: dispatch_all)
qed

definition sample_ops :: "nat bus_op list" where
  "sample_ops = [Subscribe ''a'' (sample_handler 1), Subscribe ''b'' (sample_handler 2), Unsubscribe ''a'',
     Subscribe ''a'' (sample_handler 3), Subscribe ''a'' (sample_handler 4), Publish ''a'' sample_event]"

theorem message_reaches_registered_handlers_witness:
  "dispatch ''a'' sample_event (snd (bus_run (sample_bus 0) sample_ops (snd (start (sample_bus 0) (event_bus_init ''url'' 0))))) =
     (Inr (), (snd (bus_run (sample_bus 0) sample_ops (snd (start (sample_bus 0) (event_bus_init ''url'' 0)))))\<lparr>eb_world := 534\<rparr>)"
proof -
  have a: "start (sample_bus 0) (event_bus_init ''url'' 0) = (Inr (), snd (start (sample_bus 0) (event_bus_init ''url'' 0)))"
    by (simp add: start_def event_bus_init_def bindA_def on_world_def update_bus_def sample_bus_def returnA_def)
  have b: "fold (\<lambda>h w. snd (h sample_event w))
      (registered ''a'' [] (fst (bus_run (sample_bus 0) sample_ops (snd (start (sample_bus 0) (event_bus_init ''url'' 0))))))
      (eb_world (snd (bus_run (sample_bus 0) sample_ops (snd (start (sample_bus 0) (event_bus_init ''url'' 0)))))) = 534"
    by (simp add: sample_ops_def start_def event_bus_init_def bindA_def on_world_def update_bus_def sample_bus_def returnA_def
        subscribe_def unsubscribe_def publish_def sample_handler_def)
  note message_reaches_registered_handlers[OF a surjective_pairing, of "''a''" sample_event sample_ops]
  then show ?thesis using b by simp
qed

section \<open>A failed subscription\<close>

text \<open>
  Claim: when the subscription of a new channel fails at Redis, the channel stays in the table
  without a handler; a later subscription to it then returns without another request to Redis, so
  its handler is registered on a channel the bus was never subscribed to.
\<close>

theorem failed_subscription_is_not_repeated:
  assumes "eb_pubsub b" "map_of (eb_handlers b) c = None" "pubsub_subscribe env c (eb_world b) = (Inl err, w)"
    and "subscribe env c h b = (r, b1)" "subscribe env c h' b1 = (r', b2)"
  shows "r = Inl err \<and> handlers_at b1 c = [] \<and> r' = Inr () \<and> handlers_at b2 c = [h'] \<and> eb_world b2 = w"
  using assms
  by (auto simp: subscribe_def handlers_at_def bindA_def update_bus_def on_world_def returnA_def map_of_map_entry)

theorem failed_subscription_is_not_repeated_witness:
  "eb_world (snd (subscribe (sample_bus 1) ''a'' (sample_handler 2)
     (snd (subscribe (sample_bus 1) ''a'' (sample_handler 1) (snd (start (sample_bus 1) (event_bus_init ''url'' 0))))))) = 1"
proof -
  define b where "b = snd (start (sample_bus 1) (event_bus_init ''url'' 0))"
  have b: "eb_pubsub b" "map_of (eb_handlers b) ''a'' = None" "eb_world b = 0"
    by (simp_all add: b_def start_def event_bus_init_def bindA_def on_world_def update_bus_def sample_bus_def returnA_def)
  have f: "pubsub_subscribe (sample_bus 1) ''a'' (eb_world b) = (Inl (ExternalError ''redis''), 1)"
    by (simp add: b sample_bus_def)
  show ?thesis
    using failed_subscription_is_not_repeated[OF b(1,2) f prod.collapse[symmetric] prod.collapse[symmetric]]
    by (simp add: b_def)
qed

end
