(* ===== verification/Service_Manager.thy ===== *)
theory Service_Manager
  imports Effects
begin

text \<open>
  Service life cycle and the restart policy, \<open>src/core/service_manager.py\<close>.  The functions of a
  service are actions on an outside world, the third part of the manager's state; the clock and
  the delay are parameters.  \<open>handle_service_error\<close> sleeps in the middle: its two halves are
  separate steps of the relation \<open>sm_step\<close>, which lets other calls run in between, as the event
  loop does.  The field \<open>task\<close> of a service is never set by the code and has no counterpart.
\<close>

section \<open>State\<close>

definition MAX_RESTART_ATTEMPTS :: int where "MAX_RESTART_ATTEMPTS = 3"
definition RESTART_WINDOW_SECONDS :: int where "RESTART_WINDOW_SECONDS = 300"
definition RESTART_DELAY_SECONDS :: int where "RESTART_DELAY_SECONDS = 30"

datatype service_status = STOPPED | STARTING | RUNNING | RESTARTING | SERVICE_FAILED

record restart_record =
  rr_timestamp :: secs
  rr_error :: fmsg

record 'w service_state =
  ss_name :: string
  ss_status :: service_status
  ss_start_fn :: "('w, unit) action option"
  ss_stop_fn :: "('w, unit) action option"
  ss_health_fn :: "('w, bool) action option"
  ss_restart_history :: "restart_record list"
  ss_last_error :: "fmsg option"
  ss_started_at :: "secs option"

record 'w service_env =
  wall_clock :: "'w \<Rightarrow> secs"
  sleep_secs :: "int \<Rightarrow> 'w \<Rightarrow> 'w"

record 'w service_manager =
  sm_services :: "(string, 'w service_state) dict"
  sm_max_restart_attempts :: int
  sm_restart_window_seconds :: int
  sm_restart_delay_seconds :: int
  sm_on_service_failed :: "(string \<Rightarrow> fmsg \<Rightarrow> ('w, unit) action) option"
  sm_running :: bool
  sm_world :: 'w

definition service_manager_init ::
  "int option \<Rightarrow> int option \<Rightarrow> int option \<Rightarrow> (string \<Rightarrow> fmsg \<Rightarrow> ('w, unit) action) option \<Rightarrow> 'w \<Rightarrow> 'w service_manager" where
  "service_manager_init n window delay on_failed w =
     \<lparr>sm_services = [], sm_max_restart_attempts = or_default n MAX_RESTART_ATTEMPTS,
      sm_restart_window_seconds = or_default window RESTART_WINDOW_SECONDS,
      sm_restart_delay_seconds = or_default delay RESTART_DELAY_SECONDS,
      sm_on_service_failed = on_failed, sm_running = False, sm_world = w\<rparr>"

section \<open>Operations\<close>

definition register ::
  "string \<Rightarrow> ('w, unit) action \<Rightarrow> ('w, unit) action option \<Rightarrow> ('w, bool) action option \<Rightarrow> 'w service_manager \<Rightarrow> 'w service_manager" where
  "register name start_fn stop_fn health_fn m =
     m\<lparr>sm_services := AList.update name
        \<lparr>ss_name = name, ss_status = STOPPED, ss_start_fn = Some start_fn, ss_stop_fn = stop_fn,
         ss_health_fn = health_fn, ss_restart_history = [], ss_last_error = None, ss_started_at = None\<rparr>
        (sm_services m)\<rparr>"


definition set_service :: "string \<Rightarrow> ('w service_state \<Rightarrow> 'w service_state) \<Rightarrow> 'w service_manager \<Rightarrow> 'w service_manager" where
  "set_service name f m = m\<lparr>sm_services := AList.map_entry name f (sm_services m)\<rparr>"

text \<open>\<open>f"{type(exc).__name__}: {exc}"\<close>\<close>

definition error_text :: "py_error \<Rightarrow> fmsg" where
  "error_text e = FMsg ''{type.__name__}: {}'' [FExc e, FExc e]"

definition start_service :: "'w service_env \<Rightarrow> string \<Rightarrow> 'w service_manager \<Rightarrow> bool \<times> 'w service_manager" where
  "start_service env name m0 =
     (case map_of (sm_services m0) name of
        None \<Rightarrow> (False, m0)
      | Some st \<Rightarrow>
          (case ss_start_fn st of
             None \<Rightarrow> (False, m0)
           | Some start_fn \<Rightarrow>
               let m = set_service name (\<lambda>s. s\<lparr>ss_status := STARTING\<rparr>) m0
               in case start_fn (sm_world m) of
                    (Inr _, w) \<Rightarrow>
                      (True, set_service name (\<lambda>s. s\<lparr>ss_status := RUNNING, ss_started_at := Some (wall_clock env w),
                                                      ss_last_error := None\<rparr>) (m\<lparr>sm_world := w\<rparr>))
                  | (Inl e, w) \<Rightarrow>
                      (False, set_service name (\<lambda>s. s\<lparr>ss_status := SERVICE_FAILED, ss_last_error := Some (error_text e)\<rparr>)
                                (m\<lparr>sm_world := w\<rparr>))))"

definition stop_service :: "string \<Rightarrow> 'w service_manager \<Rightarrow> bool \<times> 'w service_manager" where
  "stop_service name m =
     (case map_of (sm_services m) name of
        None \<Rightarrow> (False, m)
      | Some st \<Rightarrow>
          let m1 = (case ss_stop_fn st of None \<Rightarrow> m | Some stop_fn \<Rightarrow> m\<lparr>sm_world := snd (stop_fn (sm_world m))\<rparr>)
          in (True, set_service name (\<lambda>s. s\<lparr>ss_status := STOPPED, ss_started_at := None\<rparr>) m1))"



definition status_of :: "'w service_manager \<Rightarrow> string \<Rightarrow> service_status option" where
  "status_of m name = map_option ss_status (map_of (sm_services m) name)"



section \<open>An unhandled exception\<close>

definition recent_restarts :: "'w service_manager \<Rightarrow> secs \<Rightarrow> restart_record list \<Rightarrow> restart_record list" where
  "recent_restarts m now rs =
     filter (\<lambda>r. f_sub now (of_int (sm_restart_window_seconds m)) \<le> rr_timestamp r) rs"

text \<open>Up to the delay; the result says whether a restart will follow.\<close>

definition begin_restart :: "'w service_env \<Rightarrow> string \<Rightarrow> py_error \<Rightarrow> 'w service_manager \<Rightarrow> bool \<times> 'w service_manager" where
  "begin_restart env name error m0 =
     (case map_of (sm_services m0) name of
        None \<Rightarrow> (False, m0)
      | Some st \<Rightarrow>
          let error_msg = error_text error;
              m = set_service name (\<lambda>s. s\<lparr>ss_last_error := Some error_msg\<rparr>) m0;
              now = wall_clock env (sm_world m)
          in if sm_max_restart_attempts m \<le> int (length (recent_restarts m now (ss_restart_history st))) then
               let m1 = set_service name (\<lambda>s. s\<lparr>ss_status := SERVICE_FAILED\<rparr>) m
               in (False, case sm_on_service_failed m1 of
                            None \<Rightarrow> m1
                          | Some f \<Rightarrow> m1\<lparr>sm_world := snd (f name error_msg (sm_world m1))\<rparr>)
             else
               (True, set_service name (\<lambda>s. s\<lparr>ss_status := RESTARTING,
                        ss_restart_history := ss_restart_history s @ [\<lparr>rr_timestamp = now, rr_error = error_msg\<rparr>]\<rparr>) m))"

text \<open>After the delay.\<close>

definition finish_restart :: "'w service_env \<Rightarrow> string \<Rightarrow> 'w service_manager \<Rightarrow> 'w service_manager" where
  "finish_restart env name m = (if \<not> sm_running m then m else snd (start_service env name m))"

definition handle_service_error :: "'w service_env \<Rightarrow> string \<Rightarrow> py_error \<Rightarrow> 'w service_manager \<Rightarrow> 'w service_manager" where
  "handle_service_error env name error m =
     (case begin_restart env name error m of
        (False, m1) \<Rightarrow> m1
      | (True, m1) \<Rightarrow>
          finish_restart env name (m1\<lparr>sm_world := sleep_secs env (sm_restart_delay_seconds m1) (sm_world m1)\<rparr>))"

definition failed_services :: "'w service_manager \<Rightarrow> string list" where
  "failed_services m = map fst (filter (\<lambda>(n, s). ss_status s = SERVICE_FAILED) (sm_services m))"

record service_report =
  rp_status :: service_status
  rp_last_error :: "fmsg option"
  rp_started_at :: "secs option"
  rp_restart_attempts :: nat
  rp_max_restart_attempts :: int

definition get_all_statuses :: "'w service_env \<Rightarrow> 'w service_manager \<Rightarrow> (string, service_report) dict" where
  "get_all_statuses env m =
     map (\<lambda>(n, s). (n, \<lparr>rp_status = ss_status s, rp_last_error = ss_last_error s, rp_started_at = ss_started_at s,
        rp_restart_attempts = length (recent_restarts m (wall_clock env (sm_world m)) (ss_restart_history s)),
        rp_max_restart_attempts = sm_max_restart_attempts m\<rparr>)) (sm_services m)"

section \<open>Interleavings\<close>





section \<open>The restart budget\<close>

text \<open>Every recorded restart had fewer than the maximum in the window before it.\<close>

definition budget_kept :: "int \<Rightarrow> int \<Rightarrow> secs list \<Rightarrow> bool" where
  "budget_kept n window h \<longleftrightarrow>
     list_all (\<lambda>k. int (length (filter (\<lambda>t. f_sub (h ! k) (of_int window) \<le> t) (take k h))) < n) [0..<length h]"

lemma budget_kept_Nil [simp]: "budget_kept n window []"
  by (simp add: budget_kept_def)


definition history_ok :: "int \<Rightarrow> int \<Rightarrow> 'w service_state \<Rightarrow> bool" where
  "history_ok n window s = budget_kept n window (map rr_timestamp (ss_restart_history s))"

definition manager_ok :: "int \<Rightarrow> int \<Rightarrow> 'w service_manager \<Rightarrow> bool" where
  "manager_ok n window m \<longleftrightarrow> sm_max_restart_attempts m = n \<and> sm_restart_window_seconds m = window \<and>
     list_all (\<lambda>(k, s). history_ok n window s) (sm_services m)"


lemma manager_ok_world [simp]: "manager_ok n window (m\<lparr>sm_world := w\<rparr>) = manager_ok n window m"
  and manager_ok_running [simp]: "manager_ok n window (m\<lparr>sm_running := r\<rparr>) = manager_ok n window m"
  by (simp_all add: manager_ok_def)










section \<open>The outcome of an error\<close>

lemma status_set_service:
  "status_of (set_service k f m) j = (if j = k then map_option (\<lambda>s. ss_status (f s)) (map_of (sm_services m) k) else status_of m j)"
  by (simp add: status_of_def set_service_def map_of_map_entry option.map_comp o_def)

lemma status_world [simp]: "status_of (m\<lparr>sm_world := w\<rparr>) k = status_of m k"
  and status_running [simp]: "status_of (m\<lparr>sm_running := r\<rparr>) k = status_of m k"
  by (simp_all add: status_of_def)

lemma services_set [simp]: "map_of (sm_services (set_service k f m)) = (map_of (sm_services m))(k := map_option f (map_of (sm_services m) k))"
  "sm_world (set_service k f m) = sm_world m" "sm_running (set_service k f m) = sm_running m"
  "sm_max_restart_attempts (set_service k f m) = sm_max_restart_attempts m"
  "sm_restart_window_seconds (set_service k f m) = sm_restart_window_seconds m"
  "sm_restart_delay_seconds (set_service k f m) = sm_restart_delay_seconds m"
  "sm_on_service_failed (set_service k f m) = sm_on_service_failed m"
  by (simp_all add: set_service_def map_of_map_entry)

text \<open>
  Claim: an unhandled exception of a service with its restart budget spent marks it failed,
  tells the callback and starts nothing; otherwise the attempt is recorded and, after the delay,
  the service is started, and is running or failed as its start function returns or raises, unless
  the manager was stopped, which leaves it restarting.
\<close>

theorem error_outcome:
  assumes "map_of (sm_services m) k = Some s" "ss_start_fn s = Some f"
  shows "let now = wall_clock env (sm_world m); msg = error_text e;
             w = sleep_secs env (sm_restart_delay_seconds m) (sm_world m);
             m' = handle_service_error env k e m
     in \<exists>s'. map_of (sm_services m') k = Some s' \<and>
       (if sm_max_restart_attempts m \<le> int (length (recent_restarts m now (ss_restart_history s)))
        then ss_status s' = SERVICE_FAILED \<and> ss_restart_history s' = ss_restart_history s \<and>
          sm_world m' = (case sm_on_service_failed m of Some g \<Rightarrow> snd (g k msg (sm_world m)) | None \<Rightarrow> sm_world m)
        else ss_restart_history s' = ss_restart_history s @ [\<lparr>rr_timestamp = now, rr_error = msg\<rparr>] \<and>
          (if \<not> sm_running m then ss_status s' = RESTARTING \<and> sm_world m' = w
           else sm_world m' = snd (f w) \<and> ss_status s' = (if isl (fst (f w)) then SERVICE_FAILED else RUNNING)))"
  using assms
  by (auto simp: handle_service_error_def begin_restart_def finish_restart_def
      start_service_def recent_restarts_def Let_def split: option.split prod.split sum.split)

definition sample_start :: "(nat, unit) action" where
  "sample_start n = (if n < 2 then (Inl (RuntimeError ''no feed''), n + 1) else (Inr (), n + 1))"

definition sample_service_env :: "nat service_env" where
  "sample_service_env = \<lparr>wall_clock = of_nat, sleep_secs = \<lambda>d n. n + nat d\<rparr>"

definition sample_manager :: "nat service_manager" where
  "sample_manager = register ''news'' sample_start None None (service_manager_init None None None None 0)"

theorem error_outcome_witness:
  "status_of (handle_service_error sample_service_env ''news'' (ValueError ''tick'') (sample_manager\<lparr>sm_running := True\<rparr>)) ''news''
     = Some RUNNING"
  using error_outcome[of "sample_manager\<lparr>sm_running := True\<rparr>" "''news''"
      "the (map_of (sm_services sample_manager) ''news'')" sample_start sample_service_env "ValueError ''tick''"]
  by (auto simp: sample_manager_def register_def service_manager_init_def sample_service_env_def sample_start_def
      MAX_RESTART_ATTEMPTS_def RESTART_DELAY_SECONDS_def recent_restarts_def Let_def status_of_def)

section \<open>After \<open>stop_all\<close>\<close>


lemma stop_service_status:
  "status_of (snd (stop_service n m)) k = (if k = n then map_option (\<lambda>_. STOPPED) (status_of m k) else status_of m k)"
  "sm_running (snd (stop_service n m)) = sm_running m"
  by (auto simp: stop_service_def status_set_service Let_def option.map_comp o_def split: option.split)
    (auto simp: status_of_def)










section \<open>A restart that outlives the decision to stop\<close>

text \<open>
  Claim: a restart waiting out its delay does not look at the status of its service: a service
  stopped in the meantime is started again by it.
\<close>

theorem waiting_restart_revives_stopped_service:
  assumes "begin_restart env k e m = (True, m1)" "stop_service k m1 = (True, m2)" "sm_running m2"
    and "map_of (sm_services m2) k = Some s" "ss_start_fn s = Some f" "f (sm_world m2) = (Inr (), w)"
  shows "status_of m2 k = Some STOPPED \<and> status_of (finish_restart env k m2) k = Some RUNNING"
proof -
  have "status_of m2 k = Some STOPPED"
    using stop_service_status(1)[of k m1 k] assms(2,4)
    by (auto simp: status_of_def stop_service_def split: option.splits)
  then show ?thesis using assms(3-6)
    by (simp add: finish_restart_def start_service_def Let_def status_set_service)
qed

theorem waiting_restart_revives_stopped_service_witness:
  "status_of (finish_restart sample_service_env ''news''
     (snd (stop_service ''news'' (snd (begin_restart sample_service_env ''news'' (ValueError ''tick'')
       (sample_manager\<lparr>sm_running := True, sm_world := 5\<rparr>)))))) ''news'' = Some RUNNING"
proof -
  define m where "m = sample_manager\<lparr>sm_running := True, sm_world := 5\<rparr>"
  have m: "map_of (sm_services m) ''news'' = map_of (sm_services sample_manager) ''news''" "sm_running m" "sm_world m = 5"
    "sm_max_restart_attempts m = 3" by (simp_all add: m_def sample_manager_def register_def service_manager_init_def MAX_RESTART_ATTEMPTS_def)
  have s: "map_of (sm_services sample_manager) ''news'' =
    Some \<lparr>ss_name = ''news'', ss_status = STOPPED, ss_start_fn = Some sample_start, ss_stop_fn = None, ss_health_fn = None,
      ss_restart_history = [], ss_last_error = None, ss_started_at = None\<rparr>"
    by (simp add: sample_manager_def register_def service_manager_init_def)
  define m1 where "m1 = snd (begin_restart sample_service_env ''news'' (ValueError ''tick'') m)"
  have m1: "begin_restart sample_service_env ''news'' (ValueError ''tick'') m = (True, m1)"
    by (simp add: m1_def begin_restart_def m s recent_restarts_def Let_def)
  have st: "map_of (sm_services m1) ''news'' = Some \<lparr>ss_name = ''news'', ss_status = RESTARTING, ss_start_fn = Some sample_start,
      ss_stop_fn = None, ss_health_fn = None, ss_restart_history = [\<lparr>rr_timestamp = 5, rr_error = error_text (ValueError ''tick'')\<rparr>],
      ss_last_error = Some (error_text (ValueError ''tick'')), ss_started_at = None\<rparr>" "sm_running m1" "sm_world m1 = 5"
    by (simp_all add: m1_def begin_restart_def m s recent_restarts_def Let_def sample_service_env_def)
  define m2 where "m2 = snd (stop_service ''news'' m1)"
  have m2: "stop_service ''news'' m1 = (True, m2)" by (simp add: m2_def stop_service_def st Let_def)
  have st2: "map_of (sm_services m2) ''news'' = Some \<lparr>ss_name = ''news'', ss_status = STOPPED, ss_start_fn = Some sample_start,
      ss_stop_fn = None, ss_health_fn = None, ss_restart_history = [\<lparr>rr_timestamp = 5, rr_error = error_text (ValueError ''tick'')\<rparr>],
      ss_last_error = Some (error_text (ValueError ''tick'')), ss_started_at = None\<rparr>" "sm_running m2" "sm_world m2 = 5"
    by (simp_all add: m2_def stop_service_def st Let_def)
  have "sample_start (sm_world m2) = (Inr (), 6)" by (simp add: st2 sample_start_def)
  from waiting_restart_revives_stopped_service[OF m1 m2 st2(2,1) service_state.select_convs(3) this]
  show ?thesis by (simp add: m_def m1_def m2_def)
qed

end
