(* ===== verification/Hft_Risk.thy ===== *)
theory Hft_Risk
  imports Sliding_Window
begin

text \<open>
  The HFT risk manager, \<open>src/risk/hft_risk.py\<close>: size and exposure limits, the circuit breaker on
  the one-minute P&L with its escalation, and the rate limits over sliding windows.

  \<open>datetime.now\<close> readings are \<open>micros\<close>.  A call that reads the monotonic clock several times gets
  the readings as a function: the \<open>k\<close>-th reading is \<open>t k\<close>.
\<close>

section \<open>State\<close>

record rate_limit_status =
  rl_allowed :: bool
  rl_reason :: fmsg
  rl_global_count :: nat
  rl_instrument_count :: nat

record circuit_breaker_event =
  cb_timestamp :: micros
  cb_pnl :: decimal
  cb_equity :: decimal

record hft_risk =
  max_order_rate :: int
  max_per_instrument_rate :: int
  circuit_breaker_active :: bool
  cb_activated_at :: "micros option"
  cb_count :: nat
  cb_events :: "circuit_breaker_event list"
  hft_disabled :: bool
  pnl_window :: "(micros \<times> decimal) list"
  global_rate_counter :: window_counter
  instrument_rate_counters :: "(string, window_counter) dict"
  rejection_counter :: window_counter
  total_order_counter :: window_counter

definition hft_init :: "int option \<Rightarrow> int option \<Rightarrow> hft_risk" where
  "hft_init order_rate instrument_rate =
     \<lparr>max_order_rate =
        max 10 (min 500 (case order_rate of Some r \<Rightarrow> r | None \<Rightarrow> HFT_MAX_ORDER_RATE_DEFAULT)),
      max_per_instrument_rate =
        (case instrument_rate of Some r \<Rightarrow> r | None \<Rightarrow> HFT_MAX_PER_INSTRUMENT_RATE),
      circuit_breaker_active = False, cb_activated_at = None, cb_count = 0, cb_events = [],
      hft_disabled = False, pnl_window = [],
      global_rate_counter = counter_init 1, instrument_rate_counters = [],
      rejection_counter = counter_init 10, total_order_counter = counter_init 10\<rparr>"

section \<open>Trade limits\<close>

definition MAX_TRADE_SIZE_PCT :: decimal where
  "MAX_TRADE_SIZE_PCT = dec_of_float HFT_MAX_TRADE_SIZE_PCT"

definition MAX_HFT_EXPOSURE_PCT :: decimal where
  "MAX_HFT_EXPOSURE_PCT = dec_of_float HFT_MAX_EXPOSURE_PCT"

definition validate_hft_trade :: "decimal \<Rightarrow> decimal \<Rightarrow> decimal \<Rightarrow> bool" where
  "validate_hft_trade trade_size equity exposure =
     (if equity \<le> 0 then False
      else if d_mul equity MAX_TRADE_SIZE_PCT < trade_size then False
      else if d_mul equity MAX_HFT_EXPOSURE_PCT < d_add exposure trade_size then False
      else True)"

section \<open>The circuit breaker\<close>

definition activate_circuit_breaker :: "decimal \<Rightarrow> decimal \<Rightarrow> micros \<Rightarrow> hft_risk \<Rightarrow> hft_risk" where
  "activate_circuit_breaker pnl equity now m =
     (let events = cb_events m @ [\<lparr>cb_timestamp = now, cb_pnl = pnl, cb_equity = equity\<rparr>];
          window_start = now - hours HFT_CIRCUIT_BREAKER_WINDOW_HOURS;
          n = length (filter (\<lambda>e. window_start < cb_timestamp e) events)
      in m\<lparr>circuit_breaker_active := True, cb_activated_at := Some now, cb_events := events, cb_count := n,
           hft_disabled := (if HFT_CIRCUIT_BREAKER_MAX_ACTIVATIONS \<le> int n then True else hft_disabled m)\<rparr>)"

definition update_pnl :: "decimal \<Rightarrow> decimal \<Rightarrow> micros \<Rightarrow> micros \<Rightarrow> hft_risk \<Rightarrow> hft_risk" where
  "update_pnl pnl equity now now2 m =
     (let pnls = filter (\<lambda>(t, p). now - minutes 1 < t) (pnl_window m @ [(now, pnl)]);
          cumulative = d_sum (map snd pnls);
          m1 = m\<lparr>pnl_window := pnls\<rparr>
      in if cumulative < d_mul equity (dec_of_float HFT_CIRCUIT_BREAKER_PNL_PCT) \<and> \<not> circuit_breaker_active m
         then activate_circuit_breaker cumulative equity now2 m1 else m1)"

definition deactivate_circuit_breaker :: "hft_risk \<Rightarrow> hft_risk" where
  "deactivate_circuit_breaker m = m\<lparr>circuit_breaker_active := False, cb_activated_at := None\<rparr>"

definition is_hft_allowed :: "micros \<Rightarrow> hft_risk \<Rightarrow> bool \<times> hft_risk" where
  "is_hft_allowed now m =
     (if hft_disabled m then (False, m)
      else if circuit_breaker_active m
      then (case cb_activated_at m of
              Some t \<Rightarrow>
                if of_int HFT_CIRCUIT_BREAKER_DURATION_SECONDS \<le> total_seconds (now - t)
                then (True, m\<lparr>circuit_breaker_active := False, cb_activated_at := None\<rparr>)
                else (False, m)
            | None \<Rightarrow> (True, m))
      else (True, m))"

definition re_enable_hft :: "hft_risk \<Rightarrow> hft_risk" where
  "re_enable_hft m =
     m\<lparr>hft_disabled := False, circuit_breaker_active := False, cb_activated_at := None, cb_count := 0\<rparr>"

section \<open>Rate limiting\<close>

definition check_global_rate :: "secs \<Rightarrow> hft_risk \<Rightarrow> bool \<times> hft_risk" where
  "check_global_rate now m =
     (case count_events now (global_rate_counter m) of (n, c) \<Rightarrow>
        (int n < max_order_rate m, m\<lparr>global_rate_counter := c\<rparr>))"

definition check_instrument_rate :: "string \<Rightarrow> secs \<Rightarrow> hft_risk \<Rightarrow> bool \<times> hft_risk" where
  "check_instrument_rate i now m =
     (case map_of (instrument_rate_counters m) i of
        None \<Rightarrow> (True, m)
      | Some c \<Rightarrow> (case count_events now c of (n, c') \<Rightarrow>
          (int n < max_per_instrument_rate m,
           m\<lparr>instrument_rate_counters := AList.update i c' (instrument_rate_counters m)\<rparr>)))"

definition record_order :: "string \<Rightarrow> (nat \<Rightarrow> secs) \<Rightarrow> hft_risk \<Rightarrow> hft_risk" where
  "record_order i t m =
     (let c = (case map_of (instrument_rate_counters m) i of Some c \<Rightarrow> c | None \<Rightarrow> counter_init 1)
      in m\<lparr>global_rate_counter := record_event (t 0) (t 1) (global_rate_counter m),
           instrument_rate_counters := AList.update i (record_event (t 2) (t 3) c) (instrument_rate_counters m),
           total_order_counter := record_event (t 4) (t 5) (total_order_counter m)\<rparr>)"

definition record_rejection :: "secs \<Rightarrow> secs \<Rightarrow> hft_risk \<Rightarrow> hft_risk" where
  "record_rejection now1 now2 m = m\<lparr>rejection_counter := record_event now1 now2 (rejection_counter m)\<rparr>"

definition get_rejection_rate :: "secs \<Rightarrow> secs \<Rightarrow> hft_risk \<Rightarrow> pyfloat \<times> hft_risk" where
  "get_rejection_rate now1 now2 m =
     (case count_events now1 (total_order_counter m) of (n, c) \<Rightarrow>
        if n = 0 then (0, m\<lparr>total_order_counter := c\<rparr>)
        else (case count_events now2 (rejection_counter m) of (r, c') \<Rightarrow>
          (flt (of_nat r / of_nat n), m\<lparr>total_order_counter := c, rejection_counter := c'\<rparr>)))"

definition should_throttle :: "secs \<Rightarrow> secs \<Rightarrow> hft_risk \<Rightarrow> bool \<times> hft_risk" where
  "should_throttle now1 now2 m = apfst (\<lambda>r. HFT_THROTTLE_REJECTION_RATE_PCT < r) (get_rejection_rate now1 now2 m)"

definition check_rate_limit :: "string \<Rightarrow> (nat \<Rightarrow> secs) \<Rightarrow> hft_risk \<Rightarrow> rate_limit_status \<times> hft_risk" where
  "check_rate_limit i t m =
     (case count_events (t 0) (global_rate_counter m) of (g, c) \<Rightarrow>
        let m1 = m\<lparr>global_rate_counter := c\<rparr>;
            (n, m2) = (case map_of (instrument_rate_counters m1) i of
                         Some ci \<Rightarrow> (case count_events (t 1) ci of (n, ci') \<Rightarrow>
                           (n, m1\<lparr>instrument_rate_counters := AList.update i ci' (instrument_rate_counters m1)\<rparr>))
                       | None \<Rightarrow> (0, m1))
        in if max_order_rate m \<le> int g
           then (\<lparr>rl_allowed = False,
                  rl_reason = FMsg ''Global rate limit exceeded: {}/{}'' [FInt (int g), FInt (max_order_rate m)],
                  rl_global_count = g, rl_instrument_count = n\<rparr>,
                 record_rejection (t 2) (t 3) m2)
           else if max_per_instrument_rate m \<le> int n
           then (\<lparr>rl_allowed = False,
                  rl_reason = FMsg ''Per-instrument rate limit exceeded for {}: {}/{}''
                                [FStr i, FInt (int n), FInt (max_per_instrument_rate m)],
                  rl_global_count = g, rl_instrument_count = n\<rparr>,
                 record_rejection (t 2) (t 3) m2)
           else (\<lparr>rl_allowed = True, rl_reason = FMsg '''' [], rl_global_count = g, rl_instrument_count = n\<rparr>, m2))"

record hft_status =
  hs_allowed :: bool
  hs_disabled :: bool
  hs_circuit_breaker_active :: bool
  hs_circuit_breaker_count :: nat
  hs_global_order_rate :: nat
  hs_rejection_rate :: pyfloat
  hs_should_throttle :: bool

text \<open>The entries of the dictionary are computed from the first to the last.\<close>

definition hft_get_status :: "micros \<Rightarrow> (nat \<Rightarrow> secs) \<Rightarrow> hft_risk \<Rightarrow> hft_status \<times> hft_risk" where
  "hft_get_status now t m =
     (case is_hft_allowed now m of (a, m1) \<Rightarrow>
        case count_events (t 0) (global_rate_counter m1) of (g, c) \<Rightarrow>
          case get_rejection_rate (t 1) (t 2) (m1\<lparr>global_rate_counter := c\<rparr>) of (r, m2) \<Rightarrow>
            case should_throttle (t 3) (t 4) m2 of (th, m3) \<Rightarrow>
              (\<lparr>hs_allowed = a, hs_disabled = hft_disabled m1, hs_circuit_breaker_active = circuit_breaker_active m1,
                hs_circuit_breaker_count = cb_count m1, hs_global_order_rate = g, hs_rejection_rate = r,
                hs_should_throttle = th\<rparr>, m3))"

section \<open>Runs\<close>

datatype hft_op =
    UpdatePnl decimal decimal micros micros
  | ActivateBreaker decimal decimal micros
  | DeactivateBreaker
  | CheckAllowed micros
  | ReEnable
  | CheckGlobal secs
  | CheckInstrument string secs
  | CheckRate string "nat \<Rightarrow> secs"
  | RecordOrder string "nat \<Rightarrow> secs"
  | RecordRejection secs secs
  | Throttle secs secs
  | Status micros "nat \<Rightarrow> secs"

fun hft_apply :: "hft_op \<Rightarrow> hft_risk \<Rightarrow> hft_risk" where
  "hft_apply (UpdatePnl pnl equity now now2) m = update_pnl pnl equity now now2 m"
| "hft_apply (ActivateBreaker pnl equity now) m = activate_circuit_breaker pnl equity now m"
| "hft_apply DeactivateBreaker m = deactivate_circuit_breaker m"
| "hft_apply (CheckAllowed now) m = snd (is_hft_allowed now m)"
| "hft_apply ReEnable m = re_enable_hft m"
| "hft_apply (CheckGlobal now) m = snd (check_global_rate now m)"
| "hft_apply (CheckInstrument i now) m = snd (check_instrument_rate i now m)"
| "hft_apply (CheckRate i t) m = snd (check_rate_limit i t m)"
| "hft_apply (RecordOrder i t) m = record_order i t m"
| "hft_apply (RecordRejection now1 now2) m = record_rejection now1 now2 m"
| "hft_apply (Throttle now1 now2) m = snd (should_throttle now1 now2 m)"
| "hft_apply (Status now t) m = snd (hft_get_status now t m)"

text \<open>The fields of the breaker; the rate limits never touch them.\<close>

definition breaker :: "hft_risk \<Rightarrow> bool \<times> micros option \<times> bool" where
  "breaker m = (circuit_breaker_active m, cb_activated_at m, hft_disabled m)"

lemma breaker_rates [simp]:
  "breaker (snd (check_global_rate now m)) = breaker m"
  "breaker (snd (check_instrument_rate i now m)) = breaker m"
  "breaker (record_order i t m) = breaker m"
  "breaker (record_rejection now1 now2 m) = breaker m"
  "breaker (snd (get_rejection_rate now1 now2 m)) = breaker m"
  "breaker (snd (should_throttle now1 now2 m)) = breaker m"
  by (simp_all add: breaker_def check_global_rate_def check_instrument_rate_def record_order_def
      record_rejection_def get_rejection_rate_def should_throttle_def Let_def split: prod.split option.split)

lemma breaker_check_rate [simp]: "breaker (snd (check_rate_limit i t m)) = breaker m"
  by (simp add: breaker_def check_rate_limit_def record_rejection_def Let_def split: prod.split option.split)

lemma breaker_status [simp]: "breaker (snd (hft_get_status now t m)) = breaker (snd (is_hft_allowed now m))"
proof -
  obtain a m1 where a: "is_hft_allowed now m = (a, m1)" by (cases "is_hft_allowed now m")
  obtain g c where g: "count_events (t 0) (global_rate_counter m1) = (g, c)"
    by (cases "count_events (t 0) (global_rate_counter m1)")
  obtain r m2 where r: "get_rejection_rate (t 1) (t 2) (m1\<lparr>global_rate_counter := c\<rparr>) = (r, m2)"
    by (cases "get_rejection_rate (t 1) (t 2) (m1\<lparr>global_rate_counter := c\<rparr>)")
  obtain th m3 where th: "should_throttle (t 3) (t 4) m2 = (th, m3)" by (cases "should_throttle (t 3) (t 4) m2")
  have "breaker m3 = breaker m2" using breaker_rates(6)[of "t 3" "t 4" m2] unfolding th by simp
  also have "\<dots> = breaker (m1\<lparr>global_rate_counter := c\<rparr>)"
    using breaker_rates(5)[of "t 1" "t 2" "m1\<lparr>global_rate_counter := c\<rparr>"] unfolding r by simp
  also have "\<dots> = breaker m1" by (simp add: breaker_def)
  finally show ?thesis by (simp add: hft_get_status_def a g r th del: One_nat_def)
qed

lemma sixty_seconds:
  "of_int HFT_CIRCUIT_BREAKER_DURATION_SECONDS \<le> total_seconds d \<longleftrightarrow> seconds 60 \<le> d"
proof
  assume l: "of_int HFT_CIRCUIT_BREAKER_DURATION_SECONDS \<le> total_seconds d"
  show "seconds 60 \<le> d"
  proof (rule ccontr)
    assume "\<not> seconds 60 \<le> d"
    then have "d \<le> 59999999" by (simp add: seconds_def)
    then have "(of_int d :: rat) \<le> of_int 59999999" by (simp only: of_int_le_iff)
    then have "total_seconds d \<le> total_seconds 59999999"
      unfolding total_seconds_def by (intro flt.rnd_mono divide_right_mono) auto
    moreover have "total_seconds 59999999 < 60" by code_simp
    ultimately show False using l by (simp add: HFT_CIRCUIT_BREAKER_DURATION_SECONDS_def)
  qed
next
  assume "seconds 60 \<le> d"
  then have "60000000 \<le> d" by (simp add: seconds_def)
  then have "(of_int 60000000 :: rat) \<le> of_int d" by (simp only: of_int_le_iff)
  then have "60 \<le> of_int d / (1000000 :: rat)" by simp
  moreover have "flt 60 = 60" by code_simp
  ultimately show "of_int HFT_CIRCUIT_BREAKER_DURATION_SECONDS \<le> total_seconds d"
    by (simp add: total_seconds_def HFT_CIRCUIT_BREAKER_DURATION_SECONDS_def flt.rnd_ge_rep)
qed

lemma activate_breaker [simp]:
  "breaker (activate_circuit_breaker pnl equity now m) =
     (True, Some now,
      hft_disabled m \<or>
      3 \<le> Suc (length (filter (\<lambda>e. now - hours 1 < cb_timestamp e) (cb_events m))))"
  by (simp add: breaker_def activate_circuit_breaker_def Let_def HFT_CIRCUIT_BREAKER_WINDOW_HOURS_def
      HFT_CIRCUIT_BREAKER_MAX_ACTIVATIONS_def hours_def)

lemma disabled_iff: "hft_disabled m \<longleftrightarrow> snd (snd (breaker m))"
  by (simp add: breaker_def)

lemma disabled_apply:
  "hft_disabled m \<Longrightarrow> p \<noteq> ReEnable \<Longrightarrow> hft_disabled (hft_apply p m)"
proof (cases p)
  case (UpdatePnl pnl equity now now2)
  assume "hft_disabled m"
  then show ?thesis using UpdatePnl by (simp add: update_pnl_def activate_circuit_breaker_def Let_def)
next
  case (ActivateBreaker pnl equity now)
  assume "hft_disabled m"
  then show ?thesis using ActivateBreaker by (simp add: activate_circuit_breaker_def Let_def)
next
  case (CheckAllowed now)
  assume "hft_disabled m"
  then show ?thesis using CheckAllowed by (simp add: is_hft_allowed_def)
next
  case (Status now t)
  assume "hft_disabled m"
  then have "breaker (snd (is_hft_allowed now m)) = breaker m" by (simp add: is_hft_allowed_def)
  then show ?thesis using Status \<open>hft_disabled m\<close> by (simp add: disabled_iff)
next
  case DeactivateBreaker
  assume "hft_disabled m"
  then show ?thesis using DeactivateBreaker by (simp add: deactivate_circuit_breaker_def)
qed (simp_all add: disabled_iff)

lemma disabled_run:
  "hft_disabled m \<Longrightarrow> list_all (\<lambda>p. p \<noteq> ReEnable) ps \<Longrightarrow> hft_disabled (fold hft_apply ps m)"
  by (induction ps arbitrary: m) (simp_all add: disabled_apply)

section \<open>What the risk manager guarantees\<close>

text \<open>
  Claim C13: the third activation of the circuit breaker within one hour disables HFT, and no
  operation but the manual re-enabling, in any order and at any time, allows HFT again: not the
  expiry of the breaker, not its deactivation.
\<close>

theorem third_activation_disables:
  assumes "2 \<le> length (filter (\<lambda>e. now - hours 1 < cb_timestamp e) (cb_events m))"
    and "list_all (\<lambda>p. p \<noteq> ReEnable) ps"
  shows "\<not> fst (is_hft_allowed later (fold hft_apply ps (activate_circuit_breaker pnl equity now m)))"
proof -
  have "hft_disabled (activate_circuit_breaker pnl equity now m)"
    using assms(1) by (simp add: disabled_iff)
  from disabled_run[OF this assms(2)] show ?thesis by (simp add: is_hft_allowed_def)
qed

theorem third_activation_disables_witness:
  "\<not> fst (is_hft_allowed (hours 5)
      (fold hft_apply [CheckAllowed (minutes 50), DeactivateBreaker]
        (activate_circuit_breaker (- 60) 10000 (minutes 40)
          (fold hft_apply [ActivateBreaker (- 60) 10000 (minutes 1), ActivateBreaker (- 60) 10000 (minutes 20)]
             (hft_init None None)))))"
proof (rule third_activation_disables)
  show "2 \<le> length (filter (\<lambda>e. minutes 40 - hours 1 < cb_timestamp e)
      (cb_events (fold hft_apply [ActivateBreaker (- 60) 10000 (minutes 1), ActivateBreaker (- 60) 10000 (minutes 20)]
             (hft_init None None))))"
    by code_simp
qed simp

text \<open>The breaker is holding since \<open>t\<close> or later.\<close>

definition holding :: "micros \<Rightarrow> hft_risk \<Rightarrow> bool" where
  "holding t m \<longleftrightarrow> hft_disabled m \<or> (circuit_breaker_active m \<and> (\<exists>s \<ge> t. cb_activated_at m = Some s))"

lemma holding_breaker:
  "holding t m \<longleftrightarrow> (case breaker m of (a, s, d) \<Rightarrow> d \<or> (a \<and> (\<exists>s' \<ge> t. s = Some s')))"
  by (simp add: holding_def breaker_def)

text \<open>Operations inside the holding period; the two manual ones are excluded.\<close>

fun inside :: "micros \<Rightarrow> hft_op \<Rightarrow> bool" where
  "inside t (UpdatePnl pnl equity now now2) = (t \<le> now2)"
| "inside t (ActivateBreaker pnl equity now) = (t \<le> now)"
| "inside t (CheckAllowed now) = (now < t + seconds 60)"
| "inside t (Status now u) = (now < t + seconds 60)"
| "inside t DeactivateBreaker = False"
| "inside t ReEnable = False"
| "inside t p = True"

lemma holding_blocks:
  assumes "holding t m" "now < t + seconds 60"
  shows "\<not> fst (is_hft_allowed now m)" "snd (is_hft_allowed now m) = m"
  using assms by (auto simp: holding_def is_hft_allowed_def sixty_seconds)

lemma holding_apply:
  assumes "holding t m" "inside t p"
  shows "holding t (hft_apply p m)"
proof (cases p)
  case (UpdatePnl pnl equity now now2)
  then show ?thesis using assms
    by (auto simp: update_pnl_def activate_circuit_breaker_def holding_def Let_def)
next
  case (ActivateBreaker pnl equity now)
  then show ?thesis using assms by (auto simp: holding_def activate_circuit_breaker_def Let_def)
next
  case (CheckAllowed now)
  then show ?thesis using assms holding_blocks by simp
next
  case (Status now u)
  then show ?thesis using assms holding_blocks(2)[of t m now] by (simp add: holding_breaker)
qed (use assms in \<open>simp_all add: holding_breaker\<close>)

lemma holding_run:
  "holding t m \<Longrightarrow> list_all (inside t) ps \<Longrightarrow> holding t (fold hft_apply ps m)"
  by (induction ps arbitrary: m) (simp_all add: holding_apply)

text \<open>
  Claim: after an activation at time \<open>t\<close> HFT stays halted for 60 seconds through any P&L
  updates, further activations, checks and orders; and a breaker that is not re-activated
  releases at the first check 60 seconds or more after its activation, unless HFT is disabled.
\<close>

theorem breaker_halts_sixty_seconds:
  assumes "list_all (inside t) ps" "now < t + seconds 60" "t + seconds 60 \<le> later"
  shows "\<not> fst (is_hft_allowed now (fold hft_apply ps (activate_circuit_breaker pnl equity t m))) \<and>
    fst (is_hft_allowed later (activate_circuit_breaker pnl equity t m)) =
      (\<not> hft_disabled (activate_circuit_breaker pnl equity t m))"
proof
  have "holding t (activate_circuit_breaker pnl equity t m)"
    by (simp add: holding_def activate_circuit_breaker_def Let_def)
  from holding_blocks(1)[OF holding_run[OF this assms(1)] assms(2)]
  show "\<not> fst (is_hft_allowed now (fold hft_apply ps (activate_circuit_breaker pnl equity t m)))" .
  show "fst (is_hft_allowed later (activate_circuit_breaker pnl equity t m)) =
      (\<not> hft_disabled (activate_circuit_breaker pnl equity t m))"
    using assms(3)
    by (simp add: is_hft_allowed_def sixty_seconds activate_circuit_breaker_def[of pnl equity t m] Let_def)
qed

theorem breaker_halts_sixty_seconds_witness:
  "\<not> fst (is_hft_allowed (seconds 159)
      (fold hft_apply [CheckAllowed (seconds 120), UpdatePnl (- 90) 10000 (seconds 130) (seconds 130)]
        (activate_circuit_breaker (- 60) 10000 (seconds 100) (hft_init None None)))) \<and>
   fst (is_hft_allowed (seconds 160) (activate_circuit_breaker (- 60) 10000 (seconds 100) (hft_init None None)))"
proof -
  have l: "list_all (inside (seconds 100)) [CheckAllowed (seconds 120), UpdatePnl (- 90) 10000 (seconds 130) (seconds 130)]"
    and t: "seconds 159 < seconds 100 + seconds 60" "seconds 100 + seconds 60 \<le> seconds 160"
    by (simp_all add: seconds_def)
  have "\<not> hft_disabled (activate_circuit_breaker (- 60) 10000 (seconds 100) (hft_init None None))"
    by (simp add: disabled_iff hft_init_def) (simp add: breaker_def)
  then show ?thesis
    using breaker_halts_sixty_seconds[OF l t, of "- 60" 10000 "hft_init None None"] by blast
qed

text \<open>
  Claim: a P&L update trips the breaker exactly when the sum over the entries of the last
  minute, the new one included, is below -0.5% of the equity.
\<close>

theorem pnl_update_trips:
  "circuit_breaker_active (update_pnl pnl equity now now2 m) =
     (circuit_breaker_active m \<or>
      d_sum (map snd (filter (\<lambda>e. now - minutes 1 < fst e) (pnl_window m)) @ [pnl])
        < d_mul equity (- (1 / 200)))"
proof -
  have "filter (\<lambda>(t, p). now - minutes 1 < t) (pnl_window m @ [(now, pnl)]) =
      filter (\<lambda>e. now - minutes 1 < fst e) (pnl_window m) @ [(now, pnl)]"
    by (simp add: case_prod_beta' minutes_def)
  then show ?thesis
    unfolding update_pnl_def Let_def by (auto simp: activate_circuit_breaker_def Let_def)
qed

section \<open>The order rate\<close>

text \<open>
  A request for an order: the rate check with its clock readings \<open>tc\<close> and, when allowed, the
  recording with its readings \<open>tr\<close>.  The result is the instruments and times recorded.
\<close>

fun submit_orders :: "(string \<times> (nat \<Rightarrow> secs) \<times> (nat \<Rightarrow> secs)) list \<Rightarrow> hft_risk \<Rightarrow> (string \<times> secs \<times> secs) list" where
  "submit_orders [] m = []"
| "submit_orders ((i, tc, tr) # rs) m =
     (case check_rate_limit i tc m of (st, m1) \<Rightarrow>
        if rl_allowed st then (i, tr 0, tr 2) # submit_orders rs (record_order i tr m1)
        else submit_orders rs m1)"

fun readings_ok :: "secs \<Rightarrow> (string \<times> (nat \<Rightarrow> secs) \<times> (nat \<Rightarrow> secs)) list \<Rightarrow> bool" where
  "readings_ok now [] = True"
| "readings_ok now ((i, tc, tr) # rs) =
     (now \<le> tc 0 \<and> tc 0 \<le> tc 1 \<and> tc 1 \<le> tr 0 \<and> tr 0 \<le> tr 1 \<and> tr 1 \<le> tr 2 \<and> tr 2 \<le> tr 3 \<and> readings_ok (tr 3) rs)"

definition instrument_counter :: "string \<Rightarrow> hft_risk \<Rightarrow> window_counter" where
  "instrument_counter i m =
     (case map_of (instrument_rate_counters m) i of Some c \<Rightarrow> c | None \<Rightarrow> counter_init 1)"

text \<open>The orders of one instrument, at the times its own counter records.\<close>

definition times_of :: "string \<Rightarrow> (string \<times> secs \<times> secs) list \<Rightarrow> secs list" where
  "times_of i os = map (\<lambda>(j, t, t'). t') (filter (\<lambda>(j, t, t'). j = i) os)"

text \<open>The invariant: every counter represents the orders recorded so far, within the bounds.\<close>

definition rates_ok :: "secs \<Rightarrow> (string \<times> secs \<times> secs) list \<Rightarrow> hft_risk \<Rightarrow> bool" where
  "rates_ok now os m \<longleftrightarrow>
     represents 1 (global_rate_counter m) (map (\<lambda>(j, t, t'). t) os) now \<and>
     window_bound 1 (nat (max_order_rate m)) (map (\<lambda>(j, t, t'). t) os) \<and>
     (\<forall>i. represents 1 (instrument_counter i m) (times_of i os) now \<and>
          window_bound 1 (nat (max_per_instrument_rate m)) (times_of i os))"

lemma represents_later: "represents w c h now \<Longrightarrow> now \<le> now' \<Longrightarrow> represents w c h now'"
  unfolding represents_def using f_sub_mono[of now now' w] by (blast intro: order_trans)

lemma rates_ok_later: "rates_ok now os m \<Longrightarrow> now \<le> now' \<Longrightarrow> rates_ok now' os m"
  by (auto simp: rates_ok_def intro: represents_later)

lemma count_init [simp]: "count_events t (counter_init w) = (0, counter_init w)"
  by (simp add: count_events_def prune_def counter_init_def)

lemma check_rate_limit_facts:
  assumes "check_rate_limit i t m = (st, m1)"
  shows "rl_allowed st = (int (fst (count_events (t 0) (global_rate_counter m))) < max_order_rate m \<and>
            int (fst (count_events (t 1) (instrument_counter i m))) < max_per_instrument_rate m)"
    and "global_rate_counter m1 = snd (count_events (t 0) (global_rate_counter m))"
    and "instrument_counter j m1 =
           (if j = i then snd (count_events (t 1) (instrument_counter i m)) else instrument_counter j m)"
    and "max_order_rate m1 = max_order_rate m" "max_per_instrument_rate m1 = max_per_instrument_rate m"
  using assms
  by (cases "map_of (instrument_rate_counters m) i";
      force simp: check_rate_limit_def record_rejection_def instrument_counter_def Let_def
        split: prod.splits if_splits)+

lemma check_rate_limit_ok:
  assumes "rates_ok now os m" "now \<le> t 0" "t 0 \<le> t 1" "check_rate_limit i t m = (st, m1)"
  shows "rates_ok (t 1) os m1"
proof -
  note f = check_rate_limit_facts[OF assms(4)]
  have "represents 1 (global_rate_counter m1) (map (\<lambda>(j, t, t'). t) os) (t 1)"
    using window.models_tally[of 1 "global_rate_counter m" _ now "t 0"] assms(1-3)
    by (auto simp: f(2) rates_ok_def intro: represents_later)
  moreover have "represents 1 (instrument_counter j m1) (times_of j os) (t 1)" for j
    using window.models_tally[of 1 "instrument_counter i m" _ now "t 1"] assms(1-3)
    by (auto simp: f(3) rates_ok_def intro: represents_later)
  ultimately show ?thesis using assms(1) by (simp add: rates_ok_def f(4,5))
qed

lemma record_order_counters:
  "global_rate_counter (record_order i t m) = record_event (t 0) (t 1) (global_rate_counter m)"
  "instrument_counter j (record_order i t m) =
     (if j = i then record_event (t 2) (t 3) (instrument_counter i m) else instrument_counter j m)"
  "max_order_rate (record_order i t m) = max_order_rate m"
  "max_per_instrument_rate (record_order i t m) = max_per_instrument_rate m"
  by (simp_all add: record_order_def instrument_counter_def Let_def)

lemma times_of_snoc: "times_of j (os @ [(i, t, t')]) = times_of j os @ (if j = i then [t'] else [])"
  by (simp add: times_of_def)

lemma submit_one:
  assumes "rates_ok now os m" "now \<le> tc 0" "tc 0 \<le> tc 1" "tc 1 \<le> tr 0" "tr 0 \<le> tr 1" "tr 1 \<le> tr 2" "tr 2 \<le> tr 3"
    and "check_rate_limit i tc m = (st, m1)" "rl_allowed st"
  shows "rates_ok (tr 3) (os @ [(i, tr 0, tr 2)]) (record_order i tr m1)"
proof -
  note f = check_rate_limit_facts[OF assms(8)]
  have g: "fst (count_events (tc 0) (global_rate_counter m)) < nat (max_order_rate m)"
    and n: "fst (count_events (tc 1) (instrument_counter i m)) < nat (max_per_instrument_rate m)"
    using assms(9) f(1) by linarith+
  have r: "represents 1 (global_rate_counter m) (map (\<lambda>(j, t, t'). t) os) now"
    "window_bound 1 (nat (max_order_rate m)) (map (\<lambda>(j, t, t'). t) os)"
    "represents 1 (instrument_counter j m) (times_of j os) now"
    "window_bound 1 (nat (max_per_instrument_rate m)) (times_of j os)" for j
    using assms(1) by (auto simp: rates_ok_def)
  have t: "tc 0 \<le> tr 0" "now \<le> tc 1" "tc 1 \<le> tr 2" "tr 1 \<le> tr 3" "now \<le> tr 3" using assms(2-7) by linarith+
  note G = window.gate_step[OF r(1,2) assms(2) t(1) assms(5) g]
  note I = window.gate_step[OF r(3,4) t(2,3) assms(7) n]
  have "represents 1 (global_rate_counter (record_order i tr m1)) (map (\<lambda>(j, t, t'). t) (os @ [(i, tr 0, tr 2)])) (tr 3)"
    using represents_later[OF G(1) t(4)] by (simp add: record_order_counters f(2))
  moreover have "represents 1 (instrument_counter j (record_order i tr m1)) (times_of j (os @ [(i, tr 0, tr 2)])) (tr 3)" for j
    using I(1) represents_later[OF r(3) t(5), of j] by (simp add: record_order_counters f(3) times_of_snoc)
  ultimately show ?thesis using G(2) I(2) r(4)
    by (simp add: rates_ok_def record_order_counters f(4,5) times_of_snoc)
qed

lemma submit_orders_ok:
  "rates_ok now os m \<Longrightarrow> readings_ok now rs \<Longrightarrow>
     window_bound 1 (nat (max_order_rate m)) (map (\<lambda>(j, t, t'). t) (os @ submit_orders rs m)) \<and>
     (\<forall>i. window_bound 1 (nat (max_per_instrument_rate m)) (times_of i (os @ submit_orders rs m)))"
proof (induction rs arbitrary: now os m)
  case Nil
  then show ?case by (simp add: rates_ok_def)
next
  case (Cons r rs)
  obtain i tc tr where r: "r = (i, tc, tr)" by (rule prod_cases3)
  have t: "now \<le> tc 0" "tc 0 \<le> tc 1" "tc 1 \<le> tr 0" "tr 0 \<le> tr 1" "tr 1 \<le> tr 2" "tr 2 \<le> tr 3" "readings_ok (tr 3) rs"
    using Cons.prems(2) by (simp_all only: r readings_ok.simps)
  obtain st m1 where c: "check_rate_limit i tc m = (st, m1)" by (cases "check_rate_limit i tc m")
  note f = check_rate_limit_facts(4,5)[OF c]
  show ?case
  proof (cases "rl_allowed st")
    case True
    from Cons.IH[OF submit_one[OF Cons.prems(1) t(1-6) c True] t(7)] show ?thesis
      by (simp add: r c True f record_order_counters)
  next
    case False
    have "rates_ok (tr 3) os m1"
      by (rule rates_ok_later[OF check_rate_limit_ok[OF Cons.prems(1) t(1,2) c]]) (use t(3-6) in linarith)
    from Cons.IH[OF this t(7)] show ?thesis by (simp add: r c False f)
  qed
qed

text \<open>
  Claim: when every order is recorded after a rate check that allowed it, with clocks that
  never go back, no recorded order sees more than the configured number of orders in the second
  before it (at most 500 whatever is configured), and no order of one instrument more than the
  per-instrument number.
\<close>

theorem order_rate_bounded:
  assumes "readings_ok 0 rs"
  shows "window_bound 1 (nat (max_order_rate (hft_init r1 r2)))
      (map (\<lambda>(j, t, t'). t) (submit_orders rs (hft_init r1 r2))) \<and>
    window_bound 1 (nat (max_per_instrument_rate (hft_init r1 r2)))
      (times_of i (submit_orders rs (hft_init r1 r2))) \<and>
    max_order_rate (hft_init r1 r2) \<le> 500"
proof -
  have "rates_ok 0 [] (hft_init r1 r2)"
    by (simp add: rates_ok_def hft_init_def instrument_counter_def times_of_def represents_init)
  from submit_orders_ok[OF this assms] show ?thesis by (simp add: hft_init_def)
qed

theorem order_rate_bounded_witness:
  "submit_orders [(''A'', \<lambda>k. 1, \<lambda>k. 1), (''A'', \<lambda>k. 1, \<lambda>k. 1), (''B'', \<lambda>k. 1, \<lambda>k. 1)] (hft_init None (Some 1))
     = [(''A'', 1, 1), (''B'', 1, 1)] \<and>
   window_bound 1 1 (times_of ''A'' [(''A'', 1, 1), (''B'', 1, 1)])"
proof -
  have a: "submit_orders [(''A'', \<lambda>k. 1, \<lambda>k. 1), (''A'', \<lambda>k. 1, \<lambda>k. 1), (''B'', \<lambda>k. 1, \<lambda>k. 1)] (hft_init None (Some 1))
     = [(''A'', 1, 1), (''B'', 1, 1)]" by code_simp
  have mx: "nat (max_per_instrument_rate (hft_init None (Some 1))) = 1" by (simp add: hft_init_def)
  have "readings_ok 0 [(''A'', \<lambda>k. 1, \<lambda>k. 1), (''A'', \<lambda>k. 1, \<lambda>k. 1), (''B'', \<lambda>k. 1, \<lambda>k. 1)]" by simp
  from order_rate_bounded[OF this, of None "Some 1" "''A''", unfolded a mx] a show ?thesis by blast
qed

end
