(* ===== verification/Hft_Override.thy ===== *)
theory Hft_Override
  imports Hft_Risk
begin

text \<open>
  The override rules for HFT signals, \<open>src/strategy/hft_override.py\<close>: the overtrading guard is
  bypassed, the penalties of mistake patterns and the HFT risk controls are not.  The risk
  controls repeat those of the HFT risk manager; the two are proved equivalent.
\<close>

section \<open>Data\<close>

record penalty =
  pn_source :: string
  pn_penalty_type :: string
  pn_value :: pyfloat

record hft_risk_check_result =
  hr_allowed :: bool
  hr_reason :: "fmsg option"
  hr_max_trade_size :: decimal
  hr_max_exposure :: decimal

section \<open>Operations\<close>

definition should_apply_overtrading_guard :: "bool \<Rightarrow> bool" where
  "should_apply_overtrading_guard is_hft = (if is_hft then False else True)"

definition get_applicable_penalties :: "bool \<Rightarrow> bool \<Rightarrow> bool \<Rightarrow> penalty list" where
  "get_applicable_penalties is_hft has_mistake_pattern is_reactivated =
     (if has_mistake_pattern
      then if is_reactivated
        then [\<lparr>pn_source = ''mistake_pattern_reactivated'', pn_penalty_type = ''confidence'',
               pn_value = - of_int MISTAKE_REACTIVATED_CONFIDENCE_PENALTY\<rparr>,
              \<lparr>pn_source = ''mistake_pattern_reactivated'', pn_penalty_type = ''size_reduction'',
               pn_value = MISTAKE_REACTIVATED_SIZE_REDUCTION\<rparr>]
        else [\<lparr>pn_source = ''mistake_pattern'', pn_penalty_type = ''confidence'',
               pn_value = - of_int MISTAKE_BASE_CONFIDENCE_PENALTY\<rparr>,
              \<lparr>pn_source = ''mistake_pattern'', pn_penalty_type = ''size_reduction'',
               pn_value = MISTAKE_BASE_SIZE_REDUCTION\<rparr>]
      else [])"

definition check_hft_risk_controls :: "decimal \<Rightarrow> decimal \<Rightarrow> decimal \<Rightarrow> hft_risk_check_result" where
  "check_hft_risk_controls trade_size equity exposure =
     (if equity \<le> 0
      then \<lparr>hr_allowed = False, hr_reason = Some (FMsg ''Account equity must be positive'' []),
            hr_max_trade_size = 0, hr_max_exposure = 0\<rparr>
      else
        (let max_trade_size = d_mul equity (dec_of_float HFT_MAX_TRADE_SIZE_PCT);
             max_exposure = d_mul equity (dec_of_float HFT_MAX_EXPOSURE_PCT)
         in if max_trade_size < trade_size
            then \<lparr>hr_allowed = False,
                  hr_reason = Some (FMsg ''HFT trade size {} exceeds maximum {} (0.5% of equity {})''
                                      [FNum trade_size, FNum max_trade_size, FNum equity]),
                  hr_max_trade_size = max_trade_size, hr_max_exposure = max_exposure\<rparr>
            else if max_exposure < d_add exposure trade_size
            then \<lparr>hr_allowed = False,
                  hr_reason = Some (FMsg ''HFT exposure {} + trade {} exceeds maximum {} (15% of equity {})''
                                      [FNum exposure, FNum trade_size, FNum max_exposure, FNum equity]),
                  hr_max_trade_size = max_trade_size, hr_max_exposure = max_exposure\<rparr>
            else \<lparr>hr_allowed = True, hr_reason = None,
                  hr_max_trade_size = max_trade_size, hr_max_exposure = max_exposure\<rparr>))"

definition evaluate_hft_signal ::
  "decimal \<Rightarrow> decimal \<Rightarrow> decimal \<Rightarrow> bool \<Rightarrow> bool \<Rightarrow> int \<Rightarrow> bool \<times> penalty list \<times> hft_risk_check_result \<times> int" where
  "evaluate_hft_signal trade_size equity exposure has_mistake is_reactivated base_confidence =
     (let penalties = get_applicable_penalties True has_mistake is_reactivated
      in (\<not> should_apply_overtrading_guard True, penalties,
          check_hft_risk_controls trade_size equity exposure,
          foldl (\<lambda>c p. if pn_penalty_type p = ''confidence'' then c + d_int (pn_value p) else c)
            base_confidence penalties))"

section \<open>Lemmas\<close>

lemma check_controls_allowed:
  "hr_allowed (check_hft_risk_controls trade_size equity exposure) = validate_hft_trade trade_size equity exposure"
  by (simp add: check_hft_risk_controls_def validate_hft_trade_def MAX_TRADE_SIZE_PCT_def MAX_HFT_EXPOSURE_PCT_def Let_def)

text \<open>The trades an account with a fixed equity accepts one after the other, with the exposure they
  add up to.\<close>

fun accept_trades :: "decimal \<Rightarrow> decimal list \<Rightarrow> decimal \<Rightarrow> decimal list \<times> decimal" where
  "accept_trades equity [] exposure = ([], exposure)"
| "accept_trades equity (t # ts) exposure =
     (if hr_allowed (check_hft_risk_controls t equity exposure)
      then (case accept_trades equity ts (d_add exposure t) of (as, e) \<Rightarrow> (t # as, e))
      else accept_trades equity ts exposure)"

lemma accept_trades_bounds:
  "exposure \<le> max start (d_mul equity (3 / 20)) \<Longrightarrow>
     list_all (\<lambda>t. t \<le> d_mul equity (1 / 200)) (fst (accept_trades equity ts exposure)) \<and>
     snd (accept_trades equity ts exposure) \<le> max start (d_mul equity (3 / 20))"
proof (induction ts arbitrary: exposure)
  case (Cons t ts)
  show ?case
  proof (cases "hr_allowed (check_hft_risk_controls t equity exposure)")
    case True
    then have a: "t \<le> d_mul equity (1 / 200)" "d_add exposure t \<le> d_mul equity (3 / 20)"
      by (auto simp: check_hft_risk_controls_def Let_def split: if_splits)
    then have "d_add exposure t \<le> max start (d_mul equity (3 / 20))" by simp
    from Cons.IH[OF this] show ?thesis using True a by (simp add: case_prod_beta)
  next
    case False
    then show ?thesis using Cons by simp
  qed
qed simp

section \<open>What the override guarantees\<close>

text \<open>
  Claim: the risk controls of the override and those of the HFT risk manager decide every
  trade alike, and they give a reason exactly when they reject.
\<close>

theorem override_agrees_with_risk_manager:
  "hr_allowed (check_hft_risk_controls trade_size equity exposure) = validate_hft_trade trade_size equity exposure \<and>
   hr_allowed (check_hft_risk_controls trade_size equity exposure) =
     (hr_reason (check_hft_risk_controls trade_size equity exposure) = None)"
  by (rule conjI, rule check_controls_allowed) (simp add: check_hft_risk_controls_def Let_def)

text \<open>
  Claim: whatever HFT trades are proposed one after the other, each accepted one is at most
  0.5% of the equity, and the exposure they add up to never passes 15% of it unless it started
  above.
\<close>

theorem hft_exposure_bounded:
  "list_all (\<lambda>t. t \<le> d_mul equity (1 / 200)) (fst (accept_trades equity ts start)) \<and>
   snd (accept_trades equity ts start) \<le> max start (d_mul equity (3 / 20))"
  by (rule accept_trades_bounds) simp

end
