(* ===== verification/Rate_Limiter.thy ===== *)
theory Rate_Limiter
  imports Constants "HOL-Library.Multiset" "HOL-Library.Sublist"
begin

text \<open>
  The HFT order rate limiter, \<open>src/trading/hft_rate_limiter.py\<close>: a token bucket in float
  arithmetic, the queue of orders that found no token, and the cancellation of orders queued
  for too long.  The queue lock is held over stretches without a suspension point, so every
  operation is one step.  In \<open>process_queue\<close> the order at position \<open>i\<close> of the queue makes at most
  one reading of the monotonic clock (\<open>t i\<close>) and one of the wall clock (\<open>d i\<close>).
\<close>

section \<open>The token bucket\<close>

record token_bucket =
  tb_rate :: pyfloat
  tb_capacity :: pyfloat
  tb_tokens :: pyfloat
  tb_last_refill :: secs

definition bucket_init :: "pyfloat \<Rightarrow> pyfloat option \<Rightarrow> secs \<Rightarrow> token_bucket" where
  "bucket_init rate capacity now =
     (let cap = (case capacity of Some c \<Rightarrow> c | None \<Rightarrow> rate)
      in \<lparr>tb_rate = rate, tb_capacity = cap, tb_tokens = cap, tb_last_refill = now\<rparr>)"

definition refill :: "secs \<Rightarrow> token_bucket \<Rightarrow> token_bucket" where
  "refill now b =
     (let elapsed = f_sub now (tb_last_refill b)
      in b\<lparr>tb_tokens := min (tb_capacity b) (f_add (tb_tokens b) (f_mul elapsed (tb_rate b))),
           tb_last_refill := now\<rparr>)"

definition consume :: "secs \<Rightarrow> token_bucket \<Rightarrow> bool \<times> token_bucket" where
  "consume now b =
     (let b1 = refill now b
      in if 1 \<le> tb_tokens b1 then (True, b1\<lparr>tb_tokens := f_sub (tb_tokens b1) 1\<rparr>) else (False, b1))"

definition available_tokens :: "secs \<Rightarrow> token_bucket \<Rightarrow> pyfloat \<times> token_bucket" where
  "available_tokens now b = (let b1 = refill now b in (tb_tokens b1, b1))"

section \<open>The limiter\<close>

record queued_order =
  qo_order_id :: string
  qo_instrument :: string
  qo_direction :: string
  qo_size :: pyfloat
  qo_order_data :: "(string \<times> farg) list"
  qo_enqueue_time :: secs
  qo_enqueue_timestamp :: micros

record latency_rejection =
  lr_order_id :: string
  lr_instrument :: string
  lr_direction :: string
  lr_size :: pyfloat
  lr_queue_time_ms :: pyfloat
  lr_rejection_timestamp :: micros
  lr_reason :: string

record rate_limiter_metrics =
  me_orders_queued :: nat
  me_orders_cancelled_latency :: nat
  me_avg_queue_time_ms :: pyfloat
  me_orders_submitted :: nat
  me_current_queue_depth :: nat

record rate_limiter =
  max_orders_per_second :: int
  latency_threshold_ms :: int
  sweep_interval_ms :: int
  token_bucket :: token_bucket
  order_queue :: "queued_order list"
  orders_queued :: nat
  orders_cancelled_latency :: nat
  orders_submitted :: nat
  queue_times :: "pyfloat list"
  rejections :: "latency_rejection list"
  sweep_task :: bool
  running :: bool

definition max_queue_time_samples :: nat where
  "max_queue_time_samples = 1000"

definition max_rejection_log :: nat where
  "max_rejection_log = 10000"

definition rate_limiter_init :: "int option \<Rightarrow> int option \<Rightarrow> int option \<Rightarrow> secs \<Rightarrow> rate_limiter" where
  "rate_limiter_init orders latency sweep now =
     (let n = (case orders of Some k \<Rightarrow> k | None \<Rightarrow> HFT_MAX_ORDER_RATE_DEFAULT)
      in \<lparr>max_orders_per_second = n,
          latency_threshold_ms = (case latency of Some k \<Rightarrow> k | None \<Rightarrow> HFT_LATENCY_REJECTION_MS),
          sweep_interval_ms = (case sweep of Some k \<Rightarrow> k | None \<Rightarrow> 50),
          token_bucket = bucket_init (flt (of_int n)) (Some (flt (of_int n))) now,
          order_queue = [], orders_queued = 0, orders_cancelled_latency = 0, orders_submitted = 0,
          queue_times = [], rejections = [], sweep_task = False, running = False\<rparr>)"

record limiter_result =
  res_status :: string
  res_order_id :: string
  res_instrument :: string
  res_direction :: string
  res_queue_time_ms :: pyfloat
  res_reason :: "string option"

definition result_of :: "string \<Rightarrow> queued_order \<Rightarrow> pyfloat \<Rightarrow> string option \<Rightarrow> limiter_result" where
  "result_of status p qt reason =
     \<lparr>res_status = status, res_order_id = qo_order_id p, res_instrument = qo_instrument p,
      res_direction = qo_direction p, res_queue_time_ms = qt, res_reason = reason\<rparr>"

text \<open>\<open>xs.append(x); if len(xs) > n: xs = xs[-n:]\<close> for a positive \<open>n\<close>\<close>

definition append_bounded :: "nat \<Rightarrow> 'a \<Rightarrow> 'a list \<Rightarrow> 'a list" where
  "append_bounded n x xs = (if n < length (xs @ [x]) then take_last n (xs @ [x]) else xs @ [x])"

definition record_queue_time :: "pyfloat \<Rightarrow> rate_limiter \<Rightarrow> rate_limiter" where
  "record_queue_time qt l = l\<lparr>queue_times := append_bounded max_queue_time_samples qt (queue_times l)\<rparr>"

definition calculate_avg_queue_time :: "rate_limiter \<Rightarrow> pyfloat" where
  "calculate_avg_queue_time l =
     (if queue_times l = [] then 0 else flt (f_sum (queue_times l) / of_nat (length (queue_times l))))"

definition cancel_order_latency ::
  "queued_order \<Rightarrow> pyfloat \<Rightarrow> micros \<Rightarrow> rate_limiter \<Rightarrow> limiter_result \<times> rate_limiter" where
  "cancel_order_latency p qt now l =
     (let l1 = record_queue_time qt (l\<lparr>orders_cancelled_latency := orders_cancelled_latency l + 1\<rparr>);
          r = \<lparr>lr_order_id = qo_order_id p, lr_instrument = qo_instrument p, lr_direction = qo_direction p,
               lr_size = qo_size p, lr_queue_time_ms = qt, lr_rejection_timestamp = now,
               lr_reason = ''latency_rejection''\<rparr>
      in (result_of ''cancelled'' p qt (Some ''latency_rejection''),
          l1\<lparr>rejections := append_bounded max_rejection_log r (rejections l1)\<rparr>))"

definition submit_order :: "queued_order \<Rightarrow> secs \<Rightarrow> rate_limiter \<Rightarrow> limiter_result \<times> rate_limiter" where
  "submit_order p now l =
     (case consume now (token_bucket l) of
        (True, b) \<Rightarrow>
          (result_of ''submitted'' p 0 None,
           record_queue_time 0 (l\<lparr>token_bucket := b, orders_submitted := orders_submitted l + 1\<rparr>))
      | (False, b) \<Rightarrow>
          (result_of ''queued'' p 0 None,
           l\<lparr>token_bucket := b, order_queue := order_queue l @ [p], orders_queued := orders_queued l + 1\<rparr>))"

definition queue_time_ms :: "secs \<Rightarrow> queued_order \<Rightarrow> pyfloat" where
  "queue_time_ms now p = f_mul (f_sub now (qo_enqueue_time p)) 1000"

definition stale :: "rate_limiter \<Rightarrow> secs \<Rightarrow> queued_order \<Rightarrow> bool" where
  "stale l now p \<longleftrightarrow> of_int (latency_threshold_ms l) < queue_time_ms now p"

text \<open>The loop of \<open>process_queue\<close>: results and remaining queue are accumulated.\<close>

fun process_orders ::
  "secs \<Rightarrow> (nat \<Rightarrow> secs) \<Rightarrow> (nat \<Rightarrow> micros) \<Rightarrow> nat \<Rightarrow> queued_order list \<Rightarrow> rate_limiter
   \<Rightarrow> limiter_result list \<times> queued_order list \<times> rate_limiter" where
  "process_orders now t d i [] l = ([], [], l)"
| "process_orders now t d i (p # ps) l =
     (if stale l now p
      then (case cancel_order_latency p (queue_time_ms now p) (d i) l of (r, l1) \<Rightarrow>
              case process_orders now t d (i + 1) ps l1 of (rs, qs, l2) \<Rightarrow> (r # rs, qs, l2))
      else (case consume (t i) (token_bucket l) of
              (True, b) \<Rightarrow>
                (case process_orders now t d (i + 1) ps
                        (record_queue_time (queue_time_ms now p)
                           (l\<lparr>token_bucket := b, orders_submitted := orders_submitted l + 1\<rparr>)) of (rs, qs, l2) \<Rightarrow>
                   (result_of ''submitted'' p (queue_time_ms now p) None # rs, qs, l2))
            | (False, b) \<Rightarrow>
                (case process_orders now t d (i + 1) ps (l\<lparr>token_bucket := b\<rparr>) of (rs, qs, l2) \<Rightarrow> (rs, p # qs, l2))))"

definition process_queue ::
  "secs \<Rightarrow> (nat \<Rightarrow> secs) \<Rightarrow> (nat \<Rightarrow> micros) \<Rightarrow> rate_limiter \<Rightarrow> limiter_result list \<times> rate_limiter" where
  "process_queue now t d l =
     (case process_orders now t d 0 (order_queue l) l of (rs, qs, l1) \<Rightarrow> (rs, l1\<lparr>order_queue := qs\<rparr>))"

fun sweep_orders ::
  "secs \<Rightarrow> (nat \<Rightarrow> micros) \<Rightarrow> nat \<Rightarrow> queued_order list \<Rightarrow> rate_limiter
   \<Rightarrow> limiter_result list \<times> queued_order list \<times> rate_limiter" where
  "sweep_orders now d i [] l = ([], [], l)"
| "sweep_orders now d i (p # ps) l =
     (if stale l now p
      then (case cancel_order_latency p (queue_time_ms now p) (d i) l of (r, l1) \<Rightarrow>
              case sweep_orders now d (i + 1) ps l1 of (rs, qs, l2) \<Rightarrow> (r # rs, qs, l2))
      else (case sweep_orders now d (i + 1) ps l of (rs, qs, l2) \<Rightarrow> (rs, p # qs, l2)))"

definition sweep_stale_orders :: "secs \<Rightarrow> (nat \<Rightarrow> micros) \<Rightarrow> rate_limiter \<Rightarrow> limiter_result list \<times> rate_limiter" where
  "sweep_stale_orders now d l =
     (case sweep_orders now d 0 (order_queue l) l of (rs, qs, l1) \<Rightarrow> (rs, l1\<lparr>order_queue := qs\<rparr>))"

text \<open>The background task is a flag; one iteration of its loop sweeps while the limiter is running.\<close>

definition start_sweep_loop :: "rate_limiter \<Rightarrow> rate_limiter" where
  "start_sweep_loop l = (if running l then l else l\<lparr>running := True, sweep_task := True\<rparr>)"

definition stop_sweep_loop :: "rate_limiter \<Rightarrow> rate_limiter" where
  "stop_sweep_loop l = l\<lparr>running := False, sweep_task := False\<rparr>"

definition sweep_iteration :: "secs \<Rightarrow> (nat \<Rightarrow> micros) \<Rightarrow> rate_limiter \<Rightarrow> rate_limiter" where
  "sweep_iteration now d l = (if running l then snd (sweep_stale_orders now d l) else l)"

definition get_metrics :: "rate_limiter \<Rightarrow> rate_limiter_metrics" where
  "get_metrics l =
     \<lparr>me_orders_queued = orders_queued l, me_orders_cancelled_latency = orders_cancelled_latency l,
      me_avg_queue_time_ms = calculate_avg_queue_time l, me_orders_submitted = orders_submitted l,
      me_current_queue_depth = length (order_queue l)\<rparr>"

section \<open>The rate of the bucket\<close>

text \<open>The number of successful calls among calls at the given times.\<close>

fun consumed :: "secs list \<Rightarrow> token_bucket \<Rightarrow> nat \<times> token_bucket" where
  "consumed [] b = (0, b)"
| "consumed (t # ts) b =
     (case consume t b of (ok, b1) \<Rightarrow> case consumed ts b1 of (n, b2) \<Rightarrow> ((if ok then 1 else 0) + n, b2))"

fun nondecreasing :: "secs \<Rightarrow> secs list \<Rightarrow> bool" where
  "nondecreasing now [] = True"
| "nondecreasing now (t # ts) = (now \<le> t \<and> nondecreasing t ts)"

definition bucket_ok :: "token_bucket \<Rightarrow> bool" where
  "bucket_ok b \<longleftrightarrow> 0 \<le> tb_rate b \<and> 0 \<le> tb_tokens b \<and> tb_tokens b \<le> tb_capacity b \<and> is_flt (tb_capacity b)"

definition fq :: rat where
  "fq = 1 + 1 / 2 ^ 52"

lemma flt_upper: assumes "0 \<le> x" shows "flt x \<le> fq * x"
proof -
  have "(1 + 2 powi (- 52) / 2) * x \<le> fq * x"
    using assms by (intro mult_right_mono) (auto simp: fq_def power_int_def power_one_over)
  then show ?thesis using flt.rnd_upper[OF assms] by linarith
qed

lemma fq_times: "fq * y = y + y / 2 ^ 52"
  by (simp add: fq_def distrib_right)

lemma fq_pos: "0 < fq" "1 \<le> fq"
  by (simp_all add: fq_def)

lemma refill_frame:
  "tb_rate (refill now b) = tb_rate b" "tb_capacity (refill now b) = tb_capacity b"
  "tb_last_refill (refill now b) = now"
  by (simp_all add: refill_def Let_def)

lemma refill_ok:
  assumes "bucket_ok b" "tb_last_refill b \<le> now"
  shows "bucket_ok (refill now b)"
    and "tb_tokens (refill now b) \<le>
      tb_tokens b + tb_capacity b / 2 ^ 52 + fq ^ 3 * tb_rate b * (now - tb_last_refill b)"
proof -
  define x where "x = f_mul (f_sub now (tb_last_refill b)) (tb_rate b)"
  have b: "0 \<le> tb_rate b" "0 \<le> tb_tokens b" "tb_tokens b \<le> tb_capacity b"
    using assms(1) by (simp_all add: bucket_ok_def)
  have e: "0 \<le> f_sub now (tb_last_refill b)" "f_sub now (tb_last_refill b) \<le> fq * (now - tb_last_refill b)"
    using assms(2) flt_upper[of "now - tb_last_refill b"] by (simp_all add: f_sub_def)
  have x: "0 \<le> x" using e(1) b(1) by (simp add: x_def f_mul_def)
  have "x \<le> fq * (f_sub now (tb_last_refill b) * tb_rate b)"
    using e(1) b(1) flt_upper[of "f_sub now (tb_last_refill b) * tb_rate b"] by (simp add: x_def f_mul_def)
  also have "\<dots> \<le> fq * (fq * (now - tb_last_refill b) * tb_rate b)"
    using e(2) b(1) fq_pos by (intro mult_left_mono mult_right_mono) auto
  finally have xu: "x \<le> fq ^ 2 * tb_rate b * (now - tb_last_refill b)"
    by (simp add: power2_eq_square mult.assoc mult.commute mult.left_commute)
  have tok: "tb_tokens (refill now b) = min (tb_capacity b) (f_add (tb_tokens b) x)"
    by (simp add: refill_def x_def Let_def)
  have nn: "0 \<le> f_add (tb_tokens b) x" using b x by (simp add: f_add_def)
  then show "bucket_ok (refill now b)" using assms(1) by (simp add: bucket_ok_def tok refill_frame)
  have "tb_tokens (refill now b) \<le> fq * (tb_tokens b + x)"
    using flt_upper[of "tb_tokens b + x"] b x by (simp add: tok f_add_def)
  also have "\<dots> = tb_tokens b + tb_tokens b / 2 ^ 52 + fq * x" by (simp add: distrib_left fq_times[of "tb_tokens b"])
  also have "\<dots> \<le> tb_tokens b + tb_capacity b / 2 ^ 52 + fq * (fq ^ 2 * tb_rate b * (now - tb_last_refill b))"
    using b(3) xu fq_pos by (intro add_mono mult_left_mono divide_right_mono) auto
  also have "\<dots> = tb_tokens b + tb_capacity b / 2 ^ 52 + fq ^ 3 * tb_rate b * (now - tb_last_refill b)"
    by (simp add: power3_eq_cube power2_eq_square mult.assoc)
  finally show "tb_tokens (refill now b) \<le>
      tb_tokens b + tb_capacity b / 2 ^ 52 + fq ^ 3 * tb_rate b * (now - tb_last_refill b)" .
qed

lemma consume_ok:
  assumes "bucket_ok b" "tb_last_refill b \<le> now" "consume now b = (ok, b')"
  shows "bucket_ok b' \<and> tb_rate b' = tb_rate b \<and> tb_capacity b' = tb_capacity b \<and> tb_last_refill b' = now \<and>
    (if ok then 1 else 0) + tb_tokens b' \<le>
      tb_tokens b + 2 * tb_capacity b / 2 ^ 52 + fq ^ 3 * tb_rate b * (now - tb_last_refill b)"
proof -
  define r where "r = refill now b"
  note k = refill_ok[OF assms(1,2), folded r_def]
  have f: "tb_rate r = tb_rate b" "tb_capacity r = tb_capacity b" "tb_last_refill r = now"
    by (simp_all add: r_def refill_frame)
  have cap: "0 \<le> tb_capacity b" using assms(1) by (simp add: bucket_ok_def)
  show ?thesis
  proof (cases "1 \<le> tb_tokens r")
    case True
    have b': "ok" "b' = r\<lparr>tb_tokens := f_sub (tb_tokens r) 1\<rparr>"
      using assms(3) True by (simp_all add: consume_def r_def Let_def)
    have n: "0 \<le> f_sub (tb_tokens r) 1" using True by (simp add: f_sub_def)
    have "f_sub (tb_tokens r) 1 \<le> fq * (tb_tokens r - 1)"
      using flt_upper[of "tb_tokens r - 1"] True by (simp add: f_sub_def)
    also have "\<dots> = tb_tokens r - 1 + (tb_tokens r - 1) / 2 ^ 52" by (rule fq_times)
    also have "\<dots> \<le> tb_tokens r - 1 + tb_capacity b / 2 ^ 52"
      using k(1) f(2) by (intro add_left_mono divide_right_mono) (auto simp: bucket_ok_def)
    finally have u: "1 + f_sub (tb_tokens r) 1 \<le> tb_tokens r + tb_capacity b / 2 ^ 52" by simp
    have "f_sub (tb_tokens r) 1 \<le> tb_capacity b"
      unfolding f_sub_def by (rule flt.rnd_le_rep) (use k(1) f(2) in \<open>auto simp: bucket_ok_def\<close>)
    then show ?thesis using b' k n f u by (simp add: bucket_ok_def)
  next
    case False
    then have b': "\<not> ok" "b' = r"
      using assms(3) by (simp_all add: consume_def r_def Let_def)
    have "0 \<le> tb_capacity b / 2 ^ 52" using cap by simp
    then show ?thesis using b' k f by simp
  qed
qed

lemma consumed_bound:
  "bucket_ok b \<Longrightarrow> nondecreasing (tb_last_refill b) ts \<Longrightarrow>
     bucket_ok (snd (consumed ts b)) \<and>
     of_nat (fst (consumed ts b)) + tb_tokens (snd (consumed ts b)) \<le>
       tb_tokens b + of_nat (length ts) * (2 * tb_capacity b / 2 ^ 52) +
       fq ^ 3 * tb_rate b * (last (tb_last_refill b # ts) - tb_last_refill b)"
proof (induction ts arbitrary: b)
  case (Cons t ts)
  obtain ok b1 where c: "consume t b = (ok, b1)" by (cases "consume t b")
  have t: "tb_last_refill b \<le> t" "nondecreasing t ts" using Cons.prems(2) by simp_all
  note k = consume_ok[OF Cons.prems(1) t(1) c]
  have l: "last (t # ts) = last (tb_last_refill b # t # ts)" by simp
  have IH: "bucket_ok (snd (consumed ts b1))"
    "of_nat (fst (consumed ts b1)) + tb_tokens (snd (consumed ts b1)) \<le>
       tb_tokens b1 + of_nat (length ts) * (2 * tb_capacity b / 2 ^ 52) +
       fq ^ 3 * tb_rate b * (last (t # ts) - t)"
    using Cons.IH[of b1] k t(2) by simp_all
  have "fq ^ 3 * tb_rate b * (last (t # ts) - t) + fq ^ 3 * tb_rate b * (t - tb_last_refill b) =
      fq ^ 3 * tb_rate b * (last (tb_last_refill b # t # ts) - tb_last_refill b)"
    unfolding l by (simp add: algebra_simps)
  moreover have "of_nat (length (t # ts)) * (2 * tb_capacity b / 2 ^ 52) =
      2 * tb_capacity b / 2 ^ 52 + of_nat (length ts) * (2 * tb_capacity b / 2 ^ 52)"
    by (simp add: algebra_simps add_divide_distrib)
  moreover have c': "of_nat (fst (consumed (t # ts) b)) = (if ok then 1 else 0) + (of_nat (fst (consumed ts b1)) :: rat)"
    "snd (consumed (t # ts) b) = snd (consumed ts b1)"
    by (simp_all add: c case_prod_beta)
  moreover have "(if ok then 1 else 0) + tb_tokens b1 \<le>
      tb_tokens b + 2 * tb_capacity b / 2 ^ 52 + fq ^ 3 * tb_rate b * (t - tb_last_refill b)"
    using k by blast
  ultimately have "of_nat (fst (consumed (t # ts) b)) + tb_tokens (snd (consumed (t # ts) b)) \<le>
       tb_tokens b + of_nat (length (t # ts)) * (2 * tb_capacity b / 2 ^ 52) +
       fq ^ 3 * tb_rate b * (last (tb_last_refill b # t # ts) - tb_last_refill b)"
    unfolding c'(2) using IH(2) by linarith
  then show ?case using IH(1) unfolding c'(2) by blast
qed simp

text \<open>
  Claim C24: the token bucket admits, among any calls at non-decreasing times, at most its capacity
  plus its rate times the elapsed time, up to the rounding of the float arithmetic: a relative
  error of about \<open>3 * 2^-52\<close> on the refill and \<open>2^-51\<close> of the capacity per call.
\<close>

theorem token_bucket_rate:
  assumes "is_flt c" "0 \<le> c" "0 \<le> rate" "nondecreasing t0 ts"
  shows "of_nat (fst (consumed ts (bucket_init rate (Some c) t0))) \<le>
    c + fq ^ 3 * rate * (last (t0 # ts) - t0) + of_nat (length ts) * (2 * c / 2 ^ 52)"
proof -
  let ?b = "bucket_init rate (Some c) t0"
  have b: "bucket_ok ?b" "tb_last_refill ?b = t0" "tb_tokens ?b = c" "tb_capacity ?b = c" "tb_rate ?b = rate"
    using assms by (simp_all add: bucket_ok_def bucket_init_def)
  note k = consumed_bound[OF b(1), of ts, unfolded b(2-5)]
  have "0 \<le> tb_tokens (snd (consumed ts ?b))" using k assms(4) by (simp add: bucket_ok_def)
  then show ?thesis using k assms(4) by linarith
qed

theorem token_bucket_rate_witness:
  "fst (consumed [0, 0, 0, 1/4, 1/2, 1/2] (bucket_init 2 (Some 2) 0)) = 3 \<and>
   (3 :: rat) \<le> 2 + fq ^ 3 * 2 * (1 / 2) + 6 * (2 * 2 / 2 ^ 52)"
proof -
  have c: "fst (consumed [0, 0, 0, 1/4, 1/2, 1/2] (bucket_init 2 (Some 2) 0)) = 3"
    and f: "is_flt 2" by code_simp+
  from token_bucket_rate[OF f, of 2 0 "[0, 0, 0, 1/4, 1/2, 1/2]"] show ?thesis
    unfolding c by simp
qed

section \<open>The queue\<close>

lemma result_of_simps [simp]:
  "res_status (result_of st p qt re) = st" "res_order_id (result_of st p qt re) = qo_order_id p"
  "res_queue_time_ms (result_of st p qt re) = qt"
  by (simp_all add: result_of_def)

lemma length_append_bounded: "length xs \<le> n \<Longrightarrow> length (append_bounded n x xs) \<le> n"
  by (simp add: append_bounded_def)

lemma cancel_facts:
  assumes "cancel_order_latency p qt now l = (r, l1)"
  shows "r = result_of ''cancelled'' p qt (Some ''latency_rejection'')"
    "orders_cancelled_latency l1 = orders_cancelled_latency l + 1" "orders_submitted l1 = orders_submitted l"
    "order_queue l1 = order_queue l" "latency_threshold_ms l1 = latency_threshold_ms l"
    "token_bucket l1 = token_bucket l" "orders_queued l1 = orders_queued l"
    "length (queue_times l) \<le> max_queue_time_samples \<Longrightarrow> length (queue_times l1) \<le> max_queue_time_samples"
    "length (rejections l) \<le> max_rejection_log \<Longrightarrow> length (rejections l1) \<le> max_rejection_log"
  using assms by (auto simp: cancel_order_latency_def record_queue_time_def Let_def length_append_bounded)

text \<open>What both loops over the queue guarantee of the results, the remaining queue and the state.\<close>

definition loop_ok ::
  "secs \<Rightarrow> queued_order list \<Rightarrow> rate_limiter \<Rightarrow> limiter_result list \<times> queued_order list \<times> rate_limiter \<Rightarrow> bool" where
  "loop_ok now ps l out = (case out of (rs, qs, l') \<Rightarrow>
     mset (map res_order_id rs) + mset (map qo_order_id qs) = mset (map qo_order_id ps) \<and>
     subseq qs ps \<and> list_all (\<lambda>p. \<not> stale l now p) qs \<and>
     list_all (\<lambda>r. res_status r = (if of_int (latency_threshold_ms l) < res_queue_time_ms r
                                    then ''cancelled'' else ''submitted'')) rs \<and>
     orders_submitted l' + orders_cancelled_latency l' + length qs =
       orders_submitted l + orders_cancelled_latency l + length ps \<and>
     latency_threshold_ms l' = latency_threshold_ms l \<and>
     (length (queue_times l) \<le> max_queue_time_samples \<longrightarrow> length (queue_times l') \<le> max_queue_time_samples) \<and>
     (length (rejections l) \<le> max_rejection_log \<longrightarrow> length (rejections l') \<le> max_rejection_log))"

lemma stale_threshold: "latency_threshold_ms l' = latency_threshold_ms l \<Longrightarrow> stale l' = stale l"
  by (intro ext) (simp add: stale_def)

lemma loop_ok_cancelled:
  assumes "stale l now p" "cancel_order_latency p (queue_time_ms now p) di l = (r, l1)"
    "loop_ok now ps l1 (rs, qs, l2)"
  shows "loop_ok now (p # ps) l (r # rs, qs, l2)"
  using assms(1,3) cancel_facts[OF assms(2)] stale_threshold[of l1 l]
  by (auto simp: loop_ok_def stale_def[of l])

lemma loop_ok_kept:
  assumes "\<not> stale l now p" "loop_ok now ps (l\<lparr>token_bucket := b\<rparr>) (rs, qs, l2)"
  shows "loop_ok now (p # ps) l (rs, p # qs, l2)"
  using assms stale_threshold[of "l\<lparr>token_bucket := b\<rparr>" l] by (auto simp: loop_ok_def)

lemma loop_ok_submitted:
  assumes "\<not> stale l now p"
    "loop_ok now ps (record_queue_time (queue_time_ms now p)
        (l\<lparr>token_bucket := b, orders_submitted := orders_submitted l + 1\<rparr>)) (rs, qs, l2)"
  shows "loop_ok now (p # ps) l (result_of ''submitted'' p (queue_time_ms now p) None # rs, qs, l2)"
  using assms stale_threshold[of "record_queue_time (queue_time_ms now p)
        (l\<lparr>token_bucket := b, orders_submitted := orders_submitted l + 1\<rparr>)" l]
  by (auto simp: loop_ok_def stale_def[of l] record_queue_time_def length_append_bounded)

lemma process_orders_ok: "loop_ok now ps l (process_orders now t d i ps l)"
proof (induction now t d i ps l rule: process_orders.induct)
  case (1 now t d i l)
  show ?case by (simp add: loop_ok_def)
next
  case (2 now t d i p ps l)
  show ?case
  proof (cases "stale l now p")
    case True
    obtain r l1 where c: "cancel_order_latency p (queue_time_ms now p) (d i) l = (r, l1)"
      by (cases "cancel_order_latency p (queue_time_ms now p) (d i) l")
    obtain rs qs l2 where o: "process_orders now t d (i + 1) ps l1 = (rs, qs, l2)" by (rule prod_cases3)
    have "loop_ok now ps l1 (rs, qs, l2)" using "2.IH"(1)[OF True c[symmetric]] o by simp
    from loop_ok_cancelled[OF True c this] show ?thesis using True c o by simp
  next
    case False
    obtain ok b where c: "consume (t i) (token_bucket l) = (ok, b)" by (cases "consume (t i) (token_bucket l)")
    show ?thesis
    proof (cases ok)
      case ok: True
      obtain rs qs l2 where o: "process_orders now t d (i + 1) ps
          (record_queue_time (queue_time_ms now p)
             (l\<lparr>token_bucket := b, orders_submitted := orders_submitted l + 1\<rparr>)) = (rs, qs, l2)" by (rule prod_cases3)
      have "loop_ok now ps (record_queue_time (queue_time_ms now p)
             (l\<lparr>token_bucket := b, orders_submitted := orders_submitted l + 1\<rparr>)) (rs, qs, l2)"
        using "2.IH"(2)[OF False c[symmetric]] ok o by simp
      from loop_ok_submitted[OF False this] show ?thesis using False ok c o by simp
    next
      case ok: False
      obtain rs qs l2 where o: "process_orders now t d (i + 1) ps (l\<lparr>token_bucket := b\<rparr>) = (rs, qs, l2)"
        by (rule prod_cases3)
      have "loop_ok now ps (l\<lparr>token_bucket := b\<rparr>) (rs, qs, l2)"
        using "2.IH"(3)[OF False c[symmetric]] ok o by simp
      from loop_ok_kept[OF False this] show ?thesis using False ok c o by simp
    qed
  qed
qed

lemma sweep_orders_ok: "loop_ok now ps l (sweep_orders now d i ps l)"
proof (induction now d i ps l rule: sweep_orders.induct)
  case (1 now d i l)
  show ?case by (simp add: loop_ok_def)
next
  case (2 now d i p ps l)
  show ?case
  proof (cases "stale l now p")
    case True
    obtain r l1 where c: "cancel_order_latency p (queue_time_ms now p) (d i) l = (r, l1)"
      by (cases "cancel_order_latency p (queue_time_ms now p) (d i) l")
    obtain rs qs l2 where o: "sweep_orders now d (i + 1) ps l1 = (rs, qs, l2)" by (rule prod_cases3)
    have "loop_ok now ps l1 (rs, qs, l2)" using "2.IH"(1)[OF True c[symmetric]] o by simp
    from loop_ok_cancelled[OF True c this] show ?thesis using True c o by simp
  next
    case False
    obtain rs qs l2 where o: "sweep_orders now d (i + 1) ps l = (rs, qs, l2)" by (rule prod_cases3)
    have "loop_ok now ps (l\<lparr>token_bucket := token_bucket l\<rparr>) (rs, qs, l2)" using "2.IH"(2)[OF False] o by simp
    from loop_ok_kept[OF False this] show ?thesis using False o by simp
  qed
qed

text \<open>
  Claim: processing the queue decides every queued order exactly once: it is cancelled when it
  has waited longer than the threshold, submitted when it has not and a token is there, and
  otherwise kept; the kept orders stay in their order, and none of them is stale.
\<close>

theorem process_queue_decides_all:
  "mset (map res_order_id (fst (process_queue now t d l))) +
     mset (map qo_order_id (order_queue (snd (process_queue now t d l)))) = mset (map qo_order_id (order_queue l)) \<and>
   subseq (order_queue (snd (process_queue now t d l))) (order_queue l) \<and>
   list_all (\<lambda>p. \<not> stale l now p) (order_queue (snd (process_queue now t d l))) \<and>
   list_all (\<lambda>r. res_status r = (if of_int (latency_threshold_ms l) < res_queue_time_ms r
                                  then ''cancelled'' else ''submitted'')) (fst (process_queue now t d l))"
  using process_orders_ok[of now "order_queue l" l t d 0]
  by (simp add: process_queue_def loop_ok_def case_prod_beta)

section \<open>Runs\<close>

datatype limiter_op =
    Submit queued_order secs
  | Process secs "nat \<Rightarrow> secs" "nat \<Rightarrow> micros"
  | Sweep secs "nat \<Rightarrow> micros"
  | StartSweep
  | StopSweep
  | SweepTick secs "nat \<Rightarrow> micros"

fun limiter_apply :: "limiter_op \<Rightarrow> rate_limiter \<Rightarrow> rate_limiter" where
  "limiter_apply (Submit p now) l = snd (submit_order p now l)"
| "limiter_apply (Process now t d) l = snd (process_queue now t d l)"
| "limiter_apply (Sweep now d) l = snd (sweep_stale_orders now d l)"
| "limiter_apply StartSweep l = start_sweep_loop l"
| "limiter_apply StopSweep l = stop_sweep_loop l"
| "limiter_apply (SweepTick now d) l = sweep_iteration now d l"

definition limiter_accounts :: "nat \<Rightarrow> rate_limiter \<Rightarrow> bool" where
  "limiter_accounts n l \<longleftrightarrow>
     orders_submitted l + orders_cancelled_latency l + length (order_queue l) = n \<and>
     length (queue_times l) \<le> max_queue_time_samples \<and> length (rejections l) \<le> max_rejection_log"

fun submissions :: "limiter_op list \<Rightarrow> nat" where
  "submissions [] = 0"
| "submissions (p # ps) = (case p of Submit _ _ \<Rightarrow> 1 | _ \<Rightarrow> 0) + submissions ps"

lemma accounts_loop:
  assumes "loop_ok now (order_queue l) l (rs, qs, l1)" "limiter_accounts n l"
  shows "limiter_accounts n (l1\<lparr>order_queue := qs\<rparr>)"
  using assms by (auto simp: loop_ok_def limiter_accounts_def)

lemma accounts_sweep: "limiter_accounts n l \<Longrightarrow> limiter_accounts n (snd (sweep_stale_orders now d l))"
  using accounts_loop[of now l _ _ _ n] sweep_orders_ok[of now "order_queue l" l d 0]
  by (cases "sweep_orders now d 0 (order_queue l) l") (simp add: sweep_stale_orders_def)

lemma accounts_apply:
  assumes "limiter_accounts n l"
  shows "limiter_accounts (n + (case p of Submit _ _ \<Rightarrow> 1 | _ \<Rightarrow> 0)) (limiter_apply p l)"
proof (cases p)
  case (Submit q now)
  then show ?thesis using assms
    by (cases "consume now (token_bucket l)")
      (auto simp: submit_order_def limiter_accounts_def record_queue_time_def length_append_bounded split: bool.split)
next
  case (Process now t d)
  then show ?thesis using assms accounts_loop[of now l _ _ _ n] process_orders_ok[of now "order_queue l" l t d 0]
    by (cases "process_orders now t d 0 (order_queue l) l") (simp add: process_queue_def)
next
  case (SweepTick now d)
  then show ?thesis using assms accounts_sweep by (simp add: sweep_iteration_def)
qed (use assms accounts_sweep in \<open>auto simp: limiter_accounts_def start_sweep_loop_def stop_sweep_loop_def\<close>)

lemma accounts_run: "limiter_accounts n l \<Longrightarrow> limiter_accounts (n + submissions ps) (fold limiter_apply ps l)"
proof (induction ps arbitrary: n l)
  case (Cons p ps)
  show ?case using Cons.IH[OF accounts_apply[OF Cons.prems, of p]] by (simp add: add.assoc)
qed simp

text \<open>
  Claim: in every run of the limiter each order handed to it is accounted for exactly once:
  submitted plus cancelled plus still queued is the number of orders handed over; the sample and
  rejection logs stay within their bounds.
\<close>

theorem limiter_accounts_for_orders:
  "orders_submitted (fold limiter_apply ps (rate_limiter_init a b c t0)) +
   orders_cancelled_latency (fold limiter_apply ps (rate_limiter_init a b c t0)) +
   length (order_queue (fold limiter_apply ps (rate_limiter_init a b c t0))) = submissions ps \<and>
   length (queue_times (fold limiter_apply ps (rate_limiter_init a b c t0))) \<le> 1000 \<and>
   length (rejections (fold limiter_apply ps (rate_limiter_init a b c t0))) \<le> 10000"
proof -
  have "limiter_accounts 0 (rate_limiter_init a b c t0)"
    by (simp add: limiter_accounts_def rate_limiter_init_def Let_def)
  from accounts_run[OF this, of ps] show ?thesis
    by (simp add: limiter_accounts_def max_queue_time_samples_def max_rejection_log_def)
qed

end
