(* ===== verification/Degradation.thy ===== *)
theory Degradation
  imports Constants
begin

text \<open>
  Graceful degradation, \<open>src/core/degradation.py\<close>: one state per component that can fail, the
  overall level and the fallback parameters.  The dictionary of states has the five components
  as keys in the order of the constructors below and never changes its keys: it is a function.
\<close>

section \<open>State\<close>

datatype degradation_level = NORMAL | DEGRADED | CRITICAL

datatype component_failure = NEWS_ENGINE | HFT_PIPELINE | MISTAKE_DB | DATABASE | REDIS

fun level_value :: "degradation_level \<Rightarrow> string" where
  "level_value NORMAL = ''normal''"
| "level_value DEGRADED = ''degraded''"
| "level_value CRITICAL = ''critical''"

fun component_value :: "component_failure \<Rightarrow> string" where
  "component_value NEWS_ENGINE = ''news_engine''"
| "component_value HFT_PIPELINE = ''hft_pipeline''"
| "component_value MISTAKE_DB = ''mistake_db''"
| "component_value DATABASE = ''database''"
| "component_value REDIS = ''redis''"

definition components :: "component_failure list" where
  "components = [NEWS_ENGINE, HFT_PIPELINE, MISTAKE_DB, DATABASE, REDIS]"

record degradation_state =
  ds_active :: bool
  ds_activated_at :: "secs option"
  ds_reason :: string
  ds_fallback_description :: string

record degradation_config =
  news_confidence_elevation :: pyfloat
  default_confidence_threshold :: pyfloat
  elevated_confidence_threshold :: pyfloat
  hft_fallback_to_standard :: bool
  mistake_db_continue_without_penalties :: bool

definition default_degradation_config :: degradation_config where
  "default_degradation_config =
     \<lparr>news_confidence_elevation = flt (3 / 20), default_confidence_threshold = flt (13 / 20),
      elevated_confidence_threshold = flt (4 / 5), hft_fallback_to_standard = True,
      mistake_db_continue_without_penalties = True\<rparr>"

record degradation_manager =
  dm_config :: degradation_config
  dm_states :: "component_failure \<Rightarrow> degradation_state"

fun fallback_of :: "component_failure \<Rightarrow> string" where
  "fallback_of NEWS_ENGINE = ''Elevated confidence threshold for trade signals''"
| "fallback_of HFT_PIPELINE = ''Fall back to standard trading pipeline''"
| "fallback_of MISTAKE_DB = ''Continue trading without penalty adjustments''"
| "fallback_of DATABASE = ''Read-only mode with cached data''"
| "fallback_of REDIS = ''Direct processing without caching''"

definition degradation_init :: "degradation_config option \<Rightarrow> degradation_manager" where
  "degradation_init cfg =
     \<lparr>dm_config = (case cfg of Some c \<Rightarrow> c | None \<Rightarrow> default_degradation_config),
      dm_states = (\<lambda>c. \<lparr>ds_active = False, ds_activated_at = None, ds_reason = [],
                        ds_fallback_description = fallback_of c\<rparr>)\<rparr>"

section \<open>Operations\<close>

definition activate_degradation :: "component_failure \<Rightarrow> string \<Rightarrow> secs \<Rightarrow> degradation_manager \<Rightarrow> degradation_manager" where
  "activate_degradation c why now m =
     (let s = dm_states m c
      in if \<not> ds_active s
         then m\<lparr>dm_states := (dm_states m)
                  (c := s\<lparr>ds_active := True, ds_activated_at := Some now, ds_reason := why\<rparr>)\<rparr>
         else m)"

definition deactivate_degradation :: "component_failure \<Rightarrow> degradation_manager \<Rightarrow> degradation_manager" where
  "deactivate_degradation c m =
     (let s = dm_states m c
      in if ds_active s
         then m\<lparr>dm_states := (dm_states m)
                  (c := s\<lparr>ds_active := False, ds_activated_at := None, ds_reason := []\<rparr>)\<rparr>
         else m)"

definition is_degraded :: "degradation_manager \<Rightarrow> component_failure \<Rightarrow> bool" where
  "is_degraded m c = ds_active (dm_states m c)"

definition degradation_level_of :: "degradation_manager \<Rightarrow> degradation_level" where
  "degradation_level_of m =
     (let active_failures = filter (\<lambda>c. ds_active (dm_states m c)) components
      in if active_failures = [] then NORMAL
         else if ds_active (dm_states m DATABASE) then CRITICAL
         else if 2 \<le> length active_failures then CRITICAL
         else DEGRADED)"

definition get_confidence_threshold :: "degradation_manager \<Rightarrow> pyfloat" where
  "get_confidence_threshold m =
     (if ds_active (dm_states m NEWS_ENGINE) then elevated_confidence_threshold (dm_config m)
      else default_confidence_threshold (dm_config m))"

definition should_use_standard_pipeline :: "degradation_manager \<Rightarrow> bool" where
  "should_use_standard_pipeline m = ds_active (dm_states m HFT_PIPELINE)"

definition should_apply_mistake_penalties :: "degradation_manager \<Rightarrow> bool" where
  "should_apply_mistake_penalties m = (\<not> ds_active (dm_states m MISTAKE_DB))"

record active_degradation =
  ad_component :: string
  ad_reason :: string
  ad_fallback :: string
  ad_activated_at :: "secs option"
  ad_duration_seconds :: pyfloat

text \<open>The clock reading is the one made for the component; 0.0 is false in Python.\<close>

definition get_active_degradations :: "(component_failure \<Rightarrow> secs) \<Rightarrow> degradation_manager \<Rightarrow> active_degradation list" where
  "get_active_degradations now m =
     map (\<lambda>c. \<lparr>ad_component = component_value c, ad_reason = ds_reason (dm_states m c),
               ad_fallback = ds_fallback_description (dm_states m c),
               ad_activated_at = ds_activated_at (dm_states m c),
               ad_duration_seconds =
                 (case ds_activated_at (dm_states m c) of
                    Some t \<Rightarrow> if t = 0 then 0 else f_sub (now c) t | None \<Rightarrow> 0)\<rparr>)
       (filter (\<lambda>c. ds_active (dm_states m c)) components)"

record degradation_status =
  dg_level :: string
  dg_active_degradations :: nat
  dg_confidence_threshold :: pyfloat
  dg_hft_fallback_active :: bool
  dg_mistake_penalties_active :: bool
  dg_components :: "(string \<times> bool \<times> string option \<times> string) list"

definition degradation_get_status :: "(component_failure \<Rightarrow> secs) \<Rightarrow> degradation_manager \<Rightarrow> degradation_status" where
  "degradation_get_status now m =
     \<lparr>dg_level = level_value (degradation_level_of m),
      dg_active_degradations = length (get_active_degradations now m),
      dg_confidence_threshold = get_confidence_threshold m,
      dg_hft_fallback_active = should_use_standard_pipeline m,
      dg_mistake_penalties_active = should_apply_mistake_penalties m,
      dg_components =
        map (\<lambda>c. (component_value c, ds_active (dm_states m c),
                  (if ds_active (dm_states m c) then Some (ds_reason (dm_states m c)) else None),
                  ds_fallback_description (dm_states m c))) components\<rparr>"

section \<open>Runs and their reference\<close>

datatype degradation_op = Fail component_failure string secs | Recover component_failure

fun degradation_apply :: "degradation_op \<Rightarrow> degradation_manager \<Rightarrow> degradation_manager" where
  "degradation_apply (Fail c why now) m = activate_degradation c why now m"
| "degradation_apply (Recover c) m = deactivate_degradation c m"

text \<open>The reference: the failure a component is in after a history, newest operation last.\<close>

fun failure_after :: "component_failure \<Rightarrow> (string \<times> secs) option \<Rightarrow> degradation_op list \<Rightarrow> (string \<times> secs) option" where
  "failure_after c f [] = f"
| "failure_after c f (Fail c' why now # ps) =
     failure_after c (if c' = c \<and> f = None then Some (why, now) else f) ps"
| "failure_after c f (Recover c' # ps) = failure_after c (if c' = c then None else f) ps"

definition failed_components :: "degradation_op list \<Rightarrow> component_failure set" where
  "failed_components ps = {c. failure_after c None ps \<noteq> None}"

definition state_failure :: "degradation_state \<Rightarrow> (string \<times> secs) option" where
  "state_failure s =
     (if ds_active s then Some (ds_reason s, case ds_activated_at s of Some t \<Rightarrow> t | None \<Rightarrow> 0) else None)"

definition state_ok :: "degradation_state \<Rightarrow> bool" where
  "state_ok s \<longleftrightarrow> ds_active s = (ds_activated_at s \<noteq> None)"

lemma degradation_step:
  assumes "state_ok (dm_states m c)"
  shows "state_ok (dm_states (degradation_apply p m) c)"
    and "failure_after c (state_failure (dm_states m c)) (p # ps) =
         failure_after c (state_failure (dm_states (degradation_apply p m) c)) ps"
  using assms
  by (cases p; auto simp: state_ok_def state_failure_def activate_degradation_def deactivate_degradation_def Let_def)+

lemma degradation_run:
  "state_ok (dm_states m c) \<Longrightarrow>
     state_failure (dm_states (fold degradation_apply ps m) c) = failure_after c (state_failure (dm_states m c)) ps"
proof (induction ps arbitrary: m)
  case (Cons p ps)
  show ?case using Cons.IH[OF degradation_step(1)[OF Cons.prems]] degradation_step(2)[OF Cons.prems, of p ps]
    by (simp del: degradation_apply.simps failure_after.simps(2,3))
qed simp

lemma UNIV_components: "set components = UNIV"
  using component_failure.exhaust by (auto simp: components_def)

lemma card_components: "length (filter P components) = card {c. P c}"
proof -
  have "distinct (filter P components)" by (simp add: components_def)
  moreover have "set (filter P components) = {c. P c}" by (simp add: UNIV_components)
  ultimately show ?thesis using distinct_card by metis
qed

section \<open>What the manager guarantees\<close>

text \<open>
  Claim: after any history of failures and recoveries exactly the components whose last
  failure has not been recovered from are degraded, with the reason and the time of the first
  failure since; the level is critical when the database or two components are among them,
  degraded when exactly one other component is, and normal when none is.
\<close>

theorem degradation_tracks_history:
  "is_degraded (fold degradation_apply ps (degradation_init cfg)) c = (c \<in> failed_components ps) \<and>
   state_failure (dm_states (fold degradation_apply ps (degradation_init cfg)) c) = failure_after c None ps \<and>
   degradation_level_of (fold degradation_apply ps (degradation_init cfg)) =
     (if failed_components ps = {} then NORMAL
      else if DATABASE \<in> failed_components ps \<or> 2 \<le> card (failed_components ps) then CRITICAL else DEGRADED)"
proof -
  define m where "m = fold degradation_apply ps (degradation_init cfg)"
  have f: "state_failure (dm_states m c) = failure_after c None ps" for c
  proof -
    have "state_ok (dm_states (degradation_init cfg) c)" "state_failure (dm_states (degradation_init cfg) c) = None"
      by (simp_all add: degradation_init_def state_ok_def state_failure_def)
    with degradation_run[of "degradation_init cfg" c ps] show ?thesis by (simp add: m_def)
  qed
  have a: "ds_active (dm_states m c) = (c \<in> failed_components ps)" for c
    using f[of c, symmetric] by (simp add: failed_components_def state_failure_def)
  have "filter (\<lambda>c. ds_active (dm_states m c)) components = [] \<longleftrightarrow> failed_components ps = {}"
    using UNIV_components by (auto simp: a filter_empty_conv)
  then have "degradation_level_of m =
     (if failed_components ps = {} then NORMAL
      else if DATABASE \<in> failed_components ps \<or> 2 \<le> card (failed_components ps) then CRITICAL else DEGRADED)"
    by (simp add: degradation_level_of_def Let_def card_components a)
  then show ?thesis unfolding m_def[symmetric] using a f by (simp add: is_degraded_def)
qed

end
