(* ===== verification/Sentiment_Stop.thy ===== *)
theory Sentiment_Stop
  imports Effects Stop_Manager
begin

text \<open>
  Stop tightening on opposing sentiment, \<open>src/risk/sentiment_stop_handler.py\<close>.  The providers of
  positions, prices and ATR values and the callback that updates a stop are actions on an
  outside world; what they raise the handler lets through.
\<close>

section \<open>Data\<close>

definition OPPOSING_SENTIMENT_THRESHOLD :: pyfloat where
  "OPPOSING_SENTIMENT_THRESHOLD = flt (4 / 5)"

record stop_tighten_result =
  tr_position_id :: string
  tr_instrument :: string
  tr_direction :: string
  tr_original_stop :: decimal
  tr_new_stop :: decimal
  tr_tightened :: bool
  tr_reason :: fmsg

text \<open>The dictionary of a position: a missing key is None.\<close>

record position_data =
  po_position_id :: "string option"
  po_instrument :: "string option"
  po_direction :: "string option"
  po_current_stop :: "number option"
  po_entry_price :: "number option"
  po_initial_stop :: "number option"
  po_atr_at_entry :: "number option"

text \<open>The payload of the event: what the handler reads of it.\<close>

record news_payload =
  np_sentiment_score :: "pyfloat option"
  np_affected_instruments :: "string list option"

text \<open>The handler: the providers, the optional callback and the threshold.\<close>

record 'w stop_handler =
  sh_positions :: "string \<Rightarrow> ('w, position_data list) action"
  sh_price :: "string \<Rightarrow> ('w, decimal option) action"
  sh_atr :: "string \<Rightarrow> ('w, decimal option) action"
  sh_update :: "(string \<Rightarrow> decimal \<Rightarrow> ('w, bool) action) option"
  sh_threshold :: pyfloat

section \<open>Operations\<close>

definition is_opposing_sentiment :: "pyfloat \<Rightarrow> direction \<Rightarrow> pyfloat \<Rightarrow> bool" where
  "is_opposing_sentiment threshold dir score = (if dir = LONG then score < - threshold else threshold < score)"

definition parse_direction :: "string \<Rightarrow> direction option" where
  "parse_direction s = (if s = ''LONG'' then Some LONG else if s = ''SHORT'' then Some SHORT else None)"

definition evaluate_position ::
  "'w stop_handler \<Rightarrow> pyfloat \<Rightarrow> decimal \<Rightarrow> decimal \<Rightarrow> position_data \<Rightarrow> ('w, stop_tighten_result option) action" where
  "evaluate_position h score price atr p =
     (let position_id = or_default (po_position_id p) ''unknown'';
          instrument = or_default (po_instrument p) ''unknown'';
          dir_str = py_upper (or_default (po_direction p) [])
      in case (po_current_stop p, po_entry_price p) of
           (Some cs, Some ep) \<Rightarrow>
             (let current = to_decimal cs
              in case parse_direction dir_str of
                   None \<Rightarrow> returnA None
                 | Some dir \<Rightarrow>
                     if \<not> is_opposing_sentiment (sh_threshold h) dir score
                     then returnA (Some
                       \<lparr>tr_position_id = position_id, tr_instrument = instrument, tr_direction = dir_str,
                        tr_original_stop = current, tr_new_stop = current, tr_tightened = False,
                        tr_reason = FMsg ''Sentiment is not opposing (aligned or below threshold)'' []\<rparr>)
                     else
                       (let pos = \<lparr>entry_price = to_decimal ep, pos_direction = dir,
                                   initial_stop = (case po_initial_stop p of Some s \<Rightarrow> to_decimal s | None \<Rightarrow> current),
                                   current_stop = current,
                                   atr_at_entry = (case po_atr_at_entry p of Some a \<Rightarrow> to_decimal a | None \<Rightarrow> atr)\<rparr>;
                            new_stop = tighten_stop_on_news pos price atr;
                            tightened = (new_stop \<noteq> current);
                            result = \<lparr>tr_position_id = position_id, tr_instrument = instrument,
                                      tr_direction = dir_str, tr_original_stop = current, tr_new_stop = new_stop,
                                      tr_tightened = tightened,
                                      tr_reason =
                                        (if tightened
                                         then FMsg ''Stop tightened due to opposing sentiment ({:.2f})'' [FNum score]
                                         else FMsg ''New stop would not be tighter than current stop'' [])\<rparr>
                        in case sh_update h of
                             Some update \<Rightarrow>
                               if tightened
                               then bindA (update position_id new_stop) (\<lambda>_. returnA (Some result))
                               else returnA (Some result)
                           | None \<Rightarrow> returnA (Some result)))
         | _ \<Rightarrow> returnA None)"

definition process_instrument ::
  "'w stop_handler \<Rightarrow> pyfloat \<Rightarrow> string \<Rightarrow> ('w, stop_tighten_result list) action" where
  "process_instrument h score instrument =
     bindA (sh_positions h instrument) (\<lambda>positions.
       if positions = [] then returnA []
       else bindA (sh_price h instrument) (\<lambda>price. case price of
         None \<Rightarrow> returnA []
       | Some price \<Rightarrow> bindA (sh_atr h instrument) (\<lambda>atr. case atr of
           None \<Rightarrow> returnA []
         | Some atr \<Rightarrow>
             bindA (mapA (evaluate_position h score price atr) positions) (\<lambda>rs.
               returnA (concat (map (\<lambda>r. case r of Some x \<Rightarrow> [x] | None \<Rightarrow> []) rs))))))"

definition handle_high_impact_news :: "'w stop_handler \<Rightarrow> news_payload \<Rightarrow> ('w, stop_tighten_result list) action" where
  "handle_high_impact_news h payload =
     (case np_sentiment_score payload of
        None \<Rightarrow> returnA []
      | Some score \<Rightarrow>
          if \<bar>score\<bar> \<le> sh_threshold h then returnA []
          else bindA (mapA (process_instrument h score) (or_default (np_affected_instruments payload) []))
                 (\<lambda>rss. returnA (concat rss)))"

section \<open>What the handler guarantees\<close>

text \<open>A result that leaves the stop of the position or moves it to the tight side, and says so; a
  moved stop is opposed by the sentiment.\<close>

definition result_ok :: "pyfloat \<Rightarrow> pyfloat \<Rightarrow> stop_tighten_result \<Rightarrow> bool" where
  "result_ok threshold score r \<longleftrightarrow>
     tr_tightened r = (tr_new_stop r \<noteq> tr_original_stop r) \<and>
     (if tr_direction r = ''LONG'' then tr_original_stop r \<le> tr_new_stop r
      else tr_direction r = ''SHORT'' \<and> tr_new_stop r \<le> tr_original_stop r) \<and>
     (tr_tightened r \<longrightarrow> (if tr_direction r = ''LONG'' then score < - threshold else threshold < score))"

lemma evaluate_position_ok:
  assumes "evaluate_position h score price atr p w = (Inr (Some r), w')"
  shows "result_ok (sh_threshold h) score r"
proof -
  obtain cs ep where p: "po_current_stop p = Some cs" "po_entry_price p = Some ep"
    using assms by (auto simp: evaluate_position_def Let_def split: option.splits)
  define ds where "ds = py_upper (or_default (po_direction p) [])"
  obtain dir where dir: "parse_direction ds = Some dir"
    using assms by (cases "parse_direction ds") (auto simp: evaluate_position_def Let_def p ds_def)
  have ds: "if dir = LONG then ds = ''LONG'' else ds = ''SHORT''"
    using dir by (auto simp: parse_direction_def split: if_splits)
  define pos where "pos = \<lparr>entry_price = to_decimal ep, pos_direction = dir,
       initial_stop = (case po_initial_stop p of Some s \<Rightarrow> to_decimal s | None \<Rightarrow> to_decimal cs),
       current_stop = to_decimal cs,
       atr_at_entry = (case po_atr_at_entry p of Some a \<Rightarrow> to_decimal a | None \<Rightarrow> atr)\<rparr>"
  show ?thesis
  proof (cases "is_opposing_sentiment (sh_threshold h) dir score")
    case False
    then have "r = \<lparr>tr_position_id = or_default (po_position_id p) ''unknown'',
        tr_instrument = or_default (po_instrument p) ''unknown'', tr_direction = ds,
        tr_original_stop = to_decimal cs, tr_new_stop = to_decimal cs, tr_tightened = False,
        tr_reason = FMsg ''Sentiment is not opposing (aligned or below threshold)'' []\<rparr>"
      using assms by (simp add: evaluate_position_def Let_def p dir ds_def[symmetric])
    then show ?thesis using ds by (cases dir) (auto simp: result_ok_def)
  next
    case True
    define ns where "ns = tighten_stop_on_news pos price atr"
    have "tr_direction r = ds \<and> tr_original_stop r = to_decimal cs \<and> tr_new_stop r = ns \<and>
        tr_tightened r = (ns \<noteq> to_decimal cs)"
      using assms True unfolding evaluate_position_def Let_def p dir ds_def[symmetric] pos_def[symmetric] ns_def[symmetric]
        option.case prod.case
      by (auto split: option.splits if_splits elim!: bindA_InrE)
    moreover have "if dir = LONG then to_decimal cs \<le> ns else ns \<le> to_decimal cs"
      using tighten_advances[of pos price atr] by (cases dir) (simp_all add: ns_def pos_def)
    ultimately show ?thesis using ds True
      by (cases dir) (auto simp: result_ok_def is_opposing_sentiment_def)
  qed
qed

lemma process_instrument_ok:
  assumes "process_instrument h score i w = (Inr rs, w')"
  shows "list_all (result_ok (sh_threshold h) score) rs"
proof -
  have ok: "list_all (\<lambda>r. case r of Some x \<Rightarrow> result_ok (sh_threshold h) score x | None \<Rightarrow> True) ys"
    if "mapA (evaluate_position h score price atr) ps v = (Inr ys, v')" for price atr ps v ys v'
    by (rule mapA_results[OF that]) (auto split: option.split intro: evaluate_position_ok)
  show ?thesis using assms
    by (force simp: process_instrument_def list_all_iff split: if_splits option.splits elim!: bindA_InrE dest!: ok)
qed

text \<open>
  Claim: whatever the providers answer, when the handler returns, no result moves a stop away
  from the price: a stop of a long position only up, of a short one only down; and a stop is
  moved only when the sentiment opposes the position beyond the threshold.
\<close>

theorem sentiment_never_loosens:
  assumes "handle_high_impact_news h payload w = (Inr rs, w')" "np_sentiment_score payload = Some score"
  shows "list_all (result_ok (sh_threshold h) score) rs"
proof -
  have ok: "list_all (list_all (result_ok (sh_threshold h) score)) ys"
    if "mapA (process_instrument h score) is v = (Inr ys, v')" for "is" v ys v'
    by (rule mapA_results[OF that]) (rule process_instrument_ok)
  show ?thesis using assms
    by (auto simp: handle_high_impact_news_def list_all_iff split: if_splits elim!: bindA_InrE dest!: ok)
qed

text \<open>A world that is the list of the stop updates sent; one long position below the price.\<close>

definition sample_handler :: "(string \<times> decimal) list stop_handler" where
  "sample_handler =
     \<lparr>sh_positions = (\<lambda>i. returnA [\<lparr>po_position_id = Some ''P1'', po_instrument = Some i, po_direction = Some ''long'',
          po_current_stop = Some (NInt 90), po_entry_price = Some (NInt 95), po_initial_stop = None, po_atr_at_entry = None\<rparr>]),
      sh_price = (\<lambda>i. returnA (Some 100)), sh_atr = (\<lambda>i. returnA (Some 4)),
      sh_update = Some (\<lambda>i s w. (Inr True, w @ [(i, s)])), sh_threshold = 4 / 5\<rparr>"

theorem sentiment_never_loosens_witness:
  "\<exists>rs. handle_high_impact_news sample_handler
      \<lparr>np_sentiment_score = Some (- 9 / 10), np_affected_instruments = Some [''X'']\<rparr> [] = (Inr rs, [(''P1'', 98)]) \<and>
     map tr_new_stop rs = [98] \<and> list_all (result_ok (4 / 5) (- 9 / 10)) rs"
proof -
  have "fst (handle_high_impact_news sample_handler
      \<lparr>np_sentiment_score = Some (- 9 / 10), np_affected_instruments = Some [''X'']\<rparr> []) =
      Inr [\<lparr>tr_position_id = ''P1'', tr_instrument = ''X'', tr_direction = ''LONG'', tr_original_stop = 90,
            tr_new_stop = 98, tr_tightened = True,
            tr_reason = FMsg ''Stop tightened due to opposing sentiment ({:.2f})'' [FNum (- 9 / 10)]\<rparr>]"
    "snd (handle_high_impact_news sample_handler
      \<lparr>np_sentiment_score = Some (- 9 / 10), np_affected_instruments = Some [''X'']\<rparr> []) = [(''P1'', 98)]"
    by code_simp+
  then have e: "handle_high_impact_news sample_handler
      \<lparr>np_sentiment_score = Some (- 9 / 10), np_affected_instruments = Some [''X'']\<rparr> [] =
      (Inr [\<lparr>tr_position_id = ''P1'', tr_instrument = ''X'', tr_direction = ''LONG'', tr_original_stop = 90,
            tr_new_stop = 98, tr_tightened = True,
            tr_reason = FMsg ''Stop tightened due to opposing sentiment ({:.2f})'' [FNum (- 9 / 10)]\<rparr>], [(''P1'', 98)])"
    by (metis prod.collapse)
  have "list_all (result_ok (sh_threshold sample_handler) (- 9 / 10))
      [\<lparr>tr_position_id = ''P1'', tr_instrument = ''X'', tr_direction = ''LONG'', tr_original_stop = 90,
            tr_new_stop = 98, tr_tightened = True,
            tr_reason = FMsg ''Stop tightened due to opposing sentiment ({:.2f})'' [FNum (- 9 / 10)]\<rparr>]"
    by (rule sentiment_never_loosens[OF e]) simp
  with e show ?thesis by (simp add: sample_handler_def)
qed

end
