(* ===== verification/Spec2Isabelle.thy ===== *)
theory Spec2Isabelle
  imports Notification_Service Strategy_Engine News_Engine Professional_Strategy Geopolitical_Risk News_Safety Economic_Calendar Correlation_Mapper Mistake_Analyzer Performance_Monitor Hft_Pipeline Trading_Loop Ig_Client Copy_Engine Copy_Allocation Order_Manager Market_Hours Confidence Event_Bus Service_Manager Crisis_Detector Hft_Override Overtrading_Guard Candle_Buffer Rate_Limiter Degradation Sentiment_Stop
begin

text \<open>
  Verification of the trading system: its risk management, its order execution, the trading loop
  that drives both, and the services around them.

  \<^bold>\<open>The program and its parts.\<close>  The loop of \<open>src/trading/trading_loop.py\<close> polls the broker and,
  for each instrument, looks for a signal.  A signal passes the news overlay
  (\<open>src/news/free_news_safety.py\<close>), the mistake analyser (\<open>src/learning\<close>), the entry gate of the
  loop and the six steps of the risk engine (\<open>src/risk/risk_engine.py\<close>), which owns the kill
  switch, the drawdown monitor, the exposure manager, the position sizer and the stop manager.
  What survives is opened through the broker client (\<open>src/trading/ig_client.py\<close>) with a permit
  for one order and attached protection, is watched, partly closed, reconciled and, when closed,
  learned from.  Beside the loop stand the order manager, copy trading, the high-frequency
  pipeline with its own risk manager and rate limiter, the news components that raise crises and
  pause signals, and the event bus, the services and the degradation states below them all.

  \<^bold>\<open>How the code is modelled.\<close>  A class is a record of its attributes and every method a function of
  the state that returns the next one; a method that may raise returns \<open>py_error + 'a\<close>.  An awaited
  call to the broker, a provider or a callback is an action on an outside world of any type
  (Effects, State_Effects) and so may return anything or raise; one that may wait for ever is a
  partial program (Partial_Effects), for which returning is proved separately.  A clock reading
  is an argument, one for every time the code reads it; an identifier drawn at random likewise.
  An f-string is kept as its template with its values, where it does not decide anything.  Log
  lines and prints are left out.

  \<^bold>\<open>Numbers.\<close>  \<open>Py_Numeric\<close> gives decimals their default context (28 digits, half to even) and
  binary64 floats their rounding (53 bits, half to even); both are rationals, so overflow,
  subnormal numbers, NaN, infinities and the sign of zero are outside of the model.  Sums of floats
  run from left to right as the code adds, and a square root is the correctly rounded one.
  Integers of Python are unbounded and so are \<open>int\<close>.  JSON numbers are one type.  Texts are
  ASCII.

  \<^bold>\<open>Theories.\<close>
  \<^item> Shared: \<open>Prelude\<close> (clocks, exceptions, messages, dictionaries that keep their order, the locale
    \<open>ratchet\<close>), \<open>Py_Numeric\<close> (the locale \<open>rounding\<close>), \<open>Constants\<close> (\<open>src/config/constants.py\<close>),
    \<open>Effects\<close>, \<open>State_Effects\<close>, \<open>Partial_Effects\<close>, \<open>Texts\<close>, \<open>Json\<close>, \<open>Iso_Datetime\<close>.
  \<^item> Risk, \<open>src/risk\<close>: \<open>Kill_Switch\<close>, \<open>Drawdown_Monitor\<close>, \<open>Exposure_Manager\<close>, \<open>Position_Sizer\<close>,
    \<open>Stop_Manager\<close>, \<open>Risk_Engine\<close>, \<open>Sentiment_Stop\<close> (\<open>sentiment_stop_handler.py\<close>),
    \<open>Sliding_Window\<close> and \<open>Hft_Risk\<close> (\<open>hft_risk.py\<close>).
  \<^item> Trading, \<open>src/trading\<close>: \<open>Ig_Client\<close>, \<open>Order_Manager\<close>, \<open>Loop_Signals\<close> and \<open>Trading_Loop\<close>
    (\<open>trading_loop.py\<close>), \<open>Candle_Buffer\<close>, \<open>Rate_Limiter\<close> (\<open>hft_rate_limiter.py\<close>),
    \<open>Hft_Pipeline\<close>; \<open>Market_Hours\<close> (\<open>src/config/market_hours.py\<close>).
  \<^item> Strategy, \<open>src/strategy\<close>: \<open>Strategy_Engine\<close> (with \<open>regime_detector.py\<close>), \<open>Confidence\<close> (\<open>confidence_scorer.py\<close>, \<open>confidence_pipeline.py\<close>),
    \<open>Overtrading_Guard\<close>, \<open>Hft_Override\<close>, \<open>Performance_Monitor\<close>, and, under \<open>professional\<close>,
    \<open>Professional_Setup\<close> (the gates) and \<open>Professional_Strategy\<close>.
  \<^item> Learning, \<open>src/learning\<close>: \<open>Mistake_Database\<close>, \<open>Mistake_Analyzer\<close>.
  \<^item> Copy trading, \<open>src/copy_trading\<close>: \<open>Copy_Engine\<close>, and \<open>Copy_Allocation\<close> (\<open>trader_ranker.py\<close>,
    \<open>allocation_manager.py\<close>).
  \<^item> News, \<open>src/news\<close>: \<open>News_Engine\<close> over \<open>Sentiment\<close>, \<open>Crisis_Detector\<close> and \<open>Correlation_Mapper\<close>; \<open>Geopolitical_Risk\<close>,
    \<open>News_Safety\<close> (\<open>free_news_safety.py\<close>), \<open>Economic_Calendar\<close>.
  \<^item> Core, \<open>src/core\<close>: \<open>Event_Bus\<close>, \<open>Service_Manager\<close>, \<open>Degradation\<close>; \<open>Notification_Service\<close>
    (\<open>src/notifications/notification_service.py\<close>).

  Definitions bear the names of the code where HOL allows it.  The text that opens a theory says
  what it leaves to parameters.

  \<^bold>\<open>Interfaces.\<close>  A locale states what a component promises and proves what follows from it, and is
  interpreted on the code's own functions.
  \<^item> \<open>ratchet\<close> (a step never goes back in an order): the stops of \<open>Stop_Manager\<close>, the peak of
    \<open>Drawdown_Monitor\<close>, the trailing stop of \<open>Order_Manager\<close>.
  \<^item> \<open>rounding\<close> (monotone, idempotent, with a bounded relative error): \<open>dec\<close> and \<open>flt\<close>.
  \<^item> \<open>signal_gate\<close> (closed by a trip, opened by a release not before its time): the kill switch,
    and through it the engine in this theory.
  \<^item> \<open>sliding_counter\<close> (records and counts represent a list of times): the pruned window.
  \<^item> \<open>order_observer\<close> (what the calls of the broker add to a count): the requests of an order.
  \<^item> \<open>ig_invariant\<close> (what every exchange with the broker keeps): the state of the rate limit, and
    the log of orders that open a position.
  \<^item> \<open>loop_view\<close>, extended to \<open>loop_cycle\<close>, \<open>loop_execution\<close> and \<open>loop_counting\<close> (what the steps of
    the loop keep of the client, the engine and the day): returning, no opening while the switch is
    engaged, no new order in a reversal, the trades of a day.
  \<^item> \<open>strategy_law\<close>, extended to \<open>strategy_law_suspended\<close>: what evaluations keep of a strategy.
  \<^item> \<open>region_law\<close> (every change of a region is a new state with its crossing checked): the ranges of
    the scores and the alerts.

  \<^bold>\<open>What the properties show.\<close>
  \<^item> Safety of trading: an allowed signal is within all limits; a breach closes the engine and an
    engaged switch keeps the whole loop from opening; at most three trades a day; the daily loss
    limit holds for its day; the breaker disables high-frequency trading; every opening order
    has a permit and both protections; stops never loosen; sizes and exposures stay in bounds.
  \<^item> Justified decisions: signals of the sweep and of the professional strategy come from the
    candles they claim; crises, alerts and unblocked news have their reasons; recurring mistakes are
    penalised, also after a restart; two low evaluations disable a strategy.
  \<^item> Histories: states that depend on long runs equal a specification over the run (candles of
    ticks, handlers of a channel, the best price of a trailing stop, restarts in a window, batches
    of signals, copies of a trader, notices of a calendar).
  \<^item> Liveness and termination: turns of the loop and operations of the broker client return, due
    events are adjusted.
  \<^item> Equivalence, round trips and errors: the two confidence calculations agree, the market tests
    agree with one timetable, published events are read back, refused requests are retried at most
    four times.
  Where the code does other than its documentation or purpose (a region that is high-risk without
  an alert, a reversal that does not re-enter, an event after midnight that the calendar misses),
  a theorem named after what happens says so.

  \<^bold>\<open>Bounds.\<close>  Every recursion is structural or over a list, except three searches with fuel: the
  next trading weekday within 3 days (a weekend has 2), the shortest text of a float within 17
  digits (which always suffice), and loops the code itself bounds (5 attempts of a request, 3 of a
  login).  The wait for the end of a rate limit has no bound in the code; it is a
  \<open>partial_function (option)\<close>, and returning is proved under the task that lifts the limit.

  \<^bold>\<open>Concurrency.\<close>  All coroutines share one event loop.  Where the code lets others run during an
  operation and a property depends on it, the operation is split at its waits and the parts
  interleave as steps (the kill switch, waiting restarts, batches, the rate limit of the client,
  runs of the loop).  Elsewhere an operation runs without others between its waits, computations
  take no time, and callbacks do not call the object that called them.

  \<^bold>\<open>Not modelled.\<close>
  \<^item> HTTP routes, middleware and the web socket (\<open>src/api\<close>): checks and formats of a web framework
    around calls of the components.
  \<^item> The database (\<open>src/db\<close>): queries whose meaning is that of a server; its users take it as a
    parameter.
  \<^item> Notification channels and their text layout, news sources, language models and the price
    stream: clients of outside services and streaming threads.  What they deliver are arguments or
    actions here.
  \<^item> Strategies and regimes on data frames, machine learning, research, backtesting and the scripts:
    computations of numerical libraries that do not act on the broker.
  \<^item> \<open>src/security\<close>, settings, logging and start-up: wrappers of cryptographic and system libraries,
    environment variables and wiring.
  \<^item> Within modelled parts: the sources of traders, calendars and headlines over HTTP or files, the
    resampling of candles by pandas, \<open>get_status\<close> of the loop.
\<close>

section \<open>The kill switch and the risk engine together\<close>

text \<open>
  What can happen to the engine after a breach: further signals are validated, and the switch
  is triggered and released from elsewhere.
\<close>

datatype engine_op =
    Validate trade_signal decimal "position_dict list" micros micros micros
  | Switch gate_op

fun engine_apply :: "engine_op \<Rightarrow> risk_engine \<Rightarrow> risk_engine" where
  "engine_apply (Validate s equity ps now1 now2 now3) g = fst (snd (validate_signal s equity ps now1 now2 now3 g))"
| "engine_apply (Switch p) g = g\<lparr>re_switch := ks_apply p (re_switch g)\<rparr>"

fun before :: "micros \<Rightarrow> engine_op \<Rightarrow> bool" where
  "before t (Switch p) = (op_time p < t)"
| "before t (Validate s equity ps now1 now2 now3) = True"

lemma closed_engine:
  assumes "\<not> is_signal_allowed (re_switch g) src"
  shows "fst (snd (validate_signal s equity ps now1 now2 now3 g)) = g"
    and "\<exists>r. fst (validate_signal s equity ps now1 now2 now3 g) = Inr r \<and> \<not> vr_allowed r \<and> vr_position_size r = None"
  using assms by (auto simp: validate_signal_def is_signal_allowed_def signal_rejected_def)

lemma closed_engine_run:
  "\<not> is_signal_allowed (re_switch g) src \<Longrightarrow>
   list_all (before (ks_since (re_switch g) + min_active_duration (re_switch g))) ops \<Longrightarrow>
     \<not> is_signal_allowed (re_switch (fold engine_apply ops g)) src"
proof (induction ops arbitrary: g)
  case (Cons p ops)
  show ?case
  proof (cases p)
    case (Validate s equity ps now1 now2 now3)
    then show ?thesis using Cons closed_engine(1)[OF Cons.prems(1)] by simp
  next
    case (Switch q)
    have "op_time q < ks_since (re_switch g) + min_active_duration (re_switch g)"
      using Cons.prems(2) Switch by simp
    note c = gate.closed_step[OF Cons.prems(1) this]
    then show ?thesis using Cons.IH[of "g\<lparr>re_switch := ks_apply q (re_switch g)\<rparr>"] Cons.prems(2) Switch by simp
  qed
qed simp

text \<open>
  Claim C2: when a validation finds the drawdown above the kill-switch threshold, no signal of
  any strategy is allowed for the minimum active duration after it, whatever is validated,
  triggered or released in between.
\<close>

theorem breach_closes_the_engine:
  assumes "validate_signal s equity ps now1 now2 now3 g = (Inr r, g', evs)" "vr_trigger_kill_switch r"
    and "list_all (before (now3 + min_active_duration (re_switch g))) ops"
  shows "\<exists>r'. fst (validate_signal s' equity' ps' t1 t2 t3 (fold engine_apply ops g')) = Inr r' \<and>
    \<not> vr_allowed r' \<and> vr_position_size r' = None"
proof -
  from assms(1) have "\<not> is_signal_allowed (re_switch g') (sg_strategy s') \<and> ks_since (re_switch g') = now3 \<and>
      min_active_duration (re_switch g') = min_active_duration (re_switch g)"
  proof (cases rule: validate_signal_cases)
    case (breach dd m b k pubs)
    then show ?thesis
      by (auto simp: is_signal_allowed_def is_active_def activate_def ks_since_def Let_def)
  next
    case (checked dd m r')
    from checked(6) show ?thesis
    proof (cases rule: check_signal_Inr)
      case rejected
      then show ?thesis using assms(2) checked(5) by (auto simp: signal_rejected_def)
    next
      case sized
      then show ?thesis using assms(2) checked(5)
        by (auto simp: size_signal_def bindE_Inr_iff signal_rejected_def Let_def split: if_splits)
    qed
  qed (use assms(2) in \<open>auto simp: signal_rejected_def\<close>)
  then show ?thesis using closed_engine_run[of g' "sg_strategy s'" ops] assms(3) closed_engine(2) by metis
qed

theorem breach_closes_the_engine_witness:
  "\<exists>r g' evs r'. validate_signal sample_signal 8000 [] 1 1 1 sample_engine = (Inr r, g', evs) \<and> vr_trigger_kill_switch r \<and>
     fst (validate_signal sample_signal 10000 [] 9 9 9 (fold engine_apply [Switch (Release ''ok'' 8)] g')) = Inr r' \<and>
     \<not> vr_allowed r'"
proof -
  have "dc_decision (fst (check_trade_allowed 8000 1 1 (re_monitor sample_engine))) = KILL_SWITCH" by code_simp
  moreover obtain dd m where "check_trade_allowed 8000 1 1 (re_monitor sample_engine) = (dd, m)"
    by (cases "check_trade_allowed 8000 1 1 (re_monitor sample_engine)")
  moreover have "is_signal_allowed (re_switch sample_engine) (sg_strategy sample_signal)"
    by (simp add: sample_engine_def kill_switch_init_def is_signal_allowed_def is_active_def)
  ultimately obtain r g' evs where v: "validate_signal sample_signal 8000 [] 1 1 1 sample_engine = (Inr r, g', evs)"
      "vr_trigger_kill_switch r"
    by (simp add: validate_signal_def Let_def case_prod_beta)
  have "list_all (before (1 + min_active_duration (re_switch sample_engine))) [Switch (Release ''ok'' 8)]"
    by (simp add: sample_engine_def kill_switch_init_def minutes_def KILL_SWITCH_MIN_ACTIVE_MINUTES_def)
  from breach_closes_the_engine[OF v this] v show ?thesis by blast
qed

end
